(* ===== verification/Prelude.thy ===== *)
theory Prelude
  imports Complex_Main "HOL-Library.AList" "HOL-Library.Sublist" "HOL-Library.Multiset" "HOL-Library.Code_Target_Nat"
begin

text \<open>
  The prelude of the development: JavaScript's string operations on lists of code units,
  JSON values, the insertion-ordered \<open>Map\<close> of JavaScript as an association list, process
  environments, and the two interfaces that several components share: a keyed registry
  (\<open>registry\<close>) and a machine that is driven by a list of events (\<open>machine\<close>).

  Identifiers, paths, tags and message texts are lists of code units (type \<open>string\<close>); the
  text of a file, whose UTF-8 encoding matters, has its own type in the theory of encodings.
\<close>

section \<open>Collections of rewrite rules\<close>

named_theorems string_simps \<open>evaluation of the string operations\<close>
named_theorems path_simps \<open>normal forms of paths\<close>
named_theorems map_simps \<open>look-ups in updated JavaScript maps\<close>

section \<open>Strings\<close>

text \<open>\<open>s.startsWith(p)\<close>.\<close>

fun starts_with :: "'a list \<Rightarrow> 'a list \<Rightarrow> bool" where
  "starts_with s [] = True"
| "starts_with [] (p # ps) = False"
| "starts_with (c # cs) (p # ps) = (c = p \<and> starts_with cs ps)"

text \<open>\<open>s.indexOf(c)\<close> and \<open>s.lastIndexOf(c)\<close> for one character; \<open>None\<close> is JavaScript's -1.\<close>

fun index_of :: "'a \<Rightarrow> 'a list \<Rightarrow> nat option" where
  "index_of c [] = None"
| "index_of c (d # ds) = (if c = d then Some 0 else map_option Suc (index_of c ds))"

fun last_index_of :: "'a \<Rightarrow> 'a list \<Rightarrow> nat option" where
  "last_index_of c [] = None"
| "last_index_of c (d # ds) =
     (case last_index_of c ds of
        Some i \<Rightarrow> Some (Suc i)
      | None \<Rightarrow> if c = d then Some 0 else None)"

text \<open>\<open>s.split(c)\<close> for a one-character separator: never the empty list.\<close>

fun split_on :: "'a \<Rightarrow> 'a list \<Rightarrow> 'a list list" where
  "split_on c [] = [[]]"
| "split_on c (d # ds) =
     (if d = c then [] # split_on c ds
      else case split_on c ds of
             [] \<Rightarrow> [[d]]
           | w # ws \<Rightarrow> (d # w) # ws)"

text \<open>\<open>xs.join(sep)\<close>.\<close>

fun join :: "'a list \<Rightarrow> 'a list list \<Rightarrow> 'a list" where
  "join sep [] = []"
| "join sep [w] = w"
| "join sep (w # v # ws) = w @ sep @ join sep (v # ws)"

text \<open>\<open>s.includes(p)\<close>.\<close>

fun has_sub :: "'a list \<Rightarrow> 'a list \<Rightarrow> bool" where
  "has_sub [] p = (p = [])"
| "has_sub (c # cs) p = (starts_with (c # cs) p \<or> has_sub cs p)"

text \<open>\<open>s.indexOf(p)\<close> for a string \<open>p\<close>.\<close>

fun sub_index :: "'a list \<Rightarrow> 'a list \<Rightarrow> nat option" where
  "sub_index [] q = (if q = [] then Some 0 else None)"
| "sub_index (c # cs) q = (if starts_with (c # cs) q then Some 0 else map_option Suc (sub_index cs q))"

text \<open>JavaScript's truth value of an optional string: neither missing nor empty.\<close>

fun truthy :: "'a list option \<Rightarrow> bool" where
  "truthy None = False"
| "truthy (Some s) = (s \<noteq> [])"

text \<open>\<open>String(n)\<close> of a natural number.\<close>

definition digit_char :: "nat \<Rightarrow> char" where
  "digit_char d = char_of (48 + d)"

fun nat_string :: "nat \<Rightarrow> string" where
  "nat_string n = (if n < 10 then [digit_char n] else nat_string (n div 10) @ [digit_char (n mod 10)])"

declare nat_string.simps [simp del]

text \<open>\<open>toLowerCase\<close> on the ASCII letters.\<close>

definition lower_char :: "char \<Rightarrow> char" where
  "lower_char c = (let n = of_char c :: nat in if 65 \<le> n \<and> n \<le> 90 then char_of (n + 32) else c)"

definition to_lower :: "string \<Rightarrow> string" where
  "to_lower s = map lower_char s"

lemma starts_with_append [simp, string_simps]: "starts_with (p @ s) p"
  by (induction p) auto

lemma starts_with_iff: "starts_with s p \<longleftrightarrow> (\<exists>r. s = p @ r)"
  by (induction s p rule: starts_with.induct) auto

lemma starts_with_drop: "starts_with s p \<Longrightarrow> s = p @ drop (length p) s"
  by (auto simp: starts_with_iff)

lemma sub_index_bound: "sub_index s q = Some k \<Longrightarrow> k + length q \<le> length s"
proof (induction s q arbitrary: k rule: sub_index.induct)
  case (2 c cs q)
  show ?case
  proof (cases "starts_with (c # cs) q")
    case True
    then obtain r where "c # cs = q @ r" by (auto simp: starts_with_iff)
    then have "length (c # cs) = length q + length r" by (metis length_append)
    with 2 True show ?thesis by simp
  qed (use 2 in auto)
qed (auto split: if_splits)

lemma includes_iff: "has_sub s p \<longleftrightarrow> (\<exists>a b. s = a @ p @ b)"
proof (induction s)
  case Nil
  then show ?case by auto
next
  case (Cons c cs)
  show ?case
  proof
    assume "has_sub (c # cs) p"
    then consider "starts_with (c # cs) p" | "has_sub cs p" by auto
    then show "\<exists>a b. c # cs = a @ p @ b"
    proof cases
      case 1
      then obtain r where "c # cs = [] @ p @ r" by (auto simp: starts_with_iff)
      then show ?thesis by blast
    next
      case 2
      then obtain a b where "cs = a @ p @ b" using Cons.IH by blast
      then have "c # cs = (c # a) @ p @ b" by simp
      then show ?thesis by blast
    qed
  next
    assume "\<exists>a b. c # cs = a @ p @ b"
    then obtain a b where e: "c # cs = a @ p @ b" by blast
    show "has_sub (c # cs) p"
    proof (cases a)
      case Nil
      with e have "starts_with (c # cs) p" by (auto simp: starts_with_iff)
      then show ?thesis by simp
    next
      case (Cons x a')
      with e have "cs = a' @ p @ b" by simp
      with Cons.IH show ?thesis by auto
    qed
  qed
qed

lemma index_of_None [string_simps]: "index_of c s = None \<longleftrightarrow> c \<notin> set s"
  by (induction s) auto

lemma index_of_Some:
  "index_of c s = Some i \<Longrightarrow> i < length s \<and> s ! i = c \<and> c \<notin> set (take i s)"
  by (induction s arbitrary: i) (auto split: if_splits)

lemma index_of_append [string_simps]: "c \<notin> set a \<Longrightarrow> index_of c (a @ c # b) = Some (length a)"
  by (induction a) auto

lemma last_index_of_None [string_simps]: "last_index_of c s = None \<longleftrightarrow> c \<notin> set s"
  by (induction s) (auto split: option.splits)

lemma last_index_of_append [string_simps]:
  "c \<notin> set b \<Longrightarrow> last_index_of c (a @ c # b) = Some (length a)"
proof (induction a)
  case Nil
  then show ?case by (simp add: last_index_of_None split: option.split)
next
  case (Cons x a)
  then show ?case by simp
qed

lemma split_on_Nil [simp]: "split_on c s \<noteq> []"
  by (induction s) (auto split: list.splits)

lemma split_on_no_sep: "w \<in> set (split_on c s) \<Longrightarrow> c \<notin> set w"
  by (induction s arbitrary: w) (auto split: list.splits if_splits)

lemma split_on_plain [string_simps]: "c \<notin> set s \<Longrightarrow> split_on c s = [s]"
  by (induction s) auto

lemma split_on_append [string_simps]:
  "c \<notin> set w \<Longrightarrow> split_on c (w @ c # s) = w # split_on c s"
  by (induction w) auto

lemma split_on_join: "ws \<noteq> [] \<Longrightarrow> \<forall>w \<in> set ws. c \<notin> set w \<Longrightarrow> split_on c (join [c] ws) = ws"
  by (induction "[c]" ws rule: join.induct) (auto simp: string_simps)

lemma split_on_app: "split_on c (a @ c # b) = split_on c a @ split_on c b"
  by (induction a) (auto split: list.splits)

lemma join_split_on: "join [c] (split_on c s) = s"
proof (induction s)
  case Nil
  then show ?case by simp
next
  case (Cons d ds)
  obtain w ws where s: "split_on c ds = w # ws" by (cases "split_on c ds") auto
  with Cons.IH show ?case by (cases ws) auto
qed

lemma join_append:
  "xs \<noteq> [] \<Longrightarrow> ys \<noteq> [] \<Longrightarrow> join sep (xs @ ys) = join sep xs @ sep @ join sep ys"
proof (induction sep xs rule: join.induct)
  case (2 sep w)
  then show ?case by (cases ys) auto
qed auto

section \<open>JSON values\<close>

text \<open>
  A JavaScript value that came out of \<open>JSON.parse\<close> or goes into \<open>JSON.stringify\<close>. An object
  keeps its keys in insertion order; a property that is \<open>undefined\<close> is a missing key.
\<close>

datatype json =
    JNull
  | JBool bool
  | JNum rat
  | JStr string
  | JArr "json list"
  | JObj "(string \<times> json) list"

fun jget :: "json \<Rightarrow> string \<Rightarrow> json option" where
  "jget (JObj kvs) k = map_of kvs k"
| "jget _ k = None"

fun jstr :: "json option \<Rightarrow> string option" where
  "jstr (Some (JStr s)) = Some s"
| "jstr _ = None"

section \<open>JavaScript maps\<close>

text \<open>
  A JavaScript \<open>Map\<close> iterates in insertion order, and \<open>set\<close> on a present key keeps the key's
  position: the association lists of \<open>HOL-Library.AList\<close>.
\<close>

type_synonym ('k, 'v) jmap = "('k \<times> 'v) list"

abbreviation mget :: "('k, 'v) jmap \<Rightarrow> 'k \<Rightarrow> 'v option" where
  "mget m k \<equiv> map_of m k"

abbreviation mput :: "'k \<Rightarrow> 'v \<Rightarrow> ('k, 'v) jmap \<Rightarrow> ('k, 'v) jmap" where
  "mput k v m \<equiv> AList.update k v m"

abbreviation mdelete :: "'k \<Rightarrow> ('k, 'v) jmap \<Rightarrow> ('k, 'v) jmap" where
  "mdelete k m \<equiv> AList.delete k m"

abbreviation mkeys :: "('k, 'v) jmap \<Rightarrow> 'k list" where
  "mkeys m \<equiv> map fst m"

lemma mget_mput [simp, map_simps]: "mget (mput k v m) j = (if j = k then Some v else mget m j)"
  by (simp add: update_conv')

lemma mget_mdelete [simp, map_simps]: "mget (mdelete k m) j = (if j = k then None else mget m j)"
  by (simp add: delete_conv')

lemma mget_None_iff: "mget m k = None \<longleftrightarrow> k \<notin> set (mkeys m)"
  by (simp add: map_of_eq_None_iff)

lemma distinct_mput: "distinct (mkeys m) \<Longrightarrow> distinct (mkeys (mput k v m))"
  by (rule distinct_update)

lemma mput_new: "k \<notin> set (mkeys m) \<Longrightarrow> mput k v m = m @ [(k, v)]"
  by (induction m) auto

lemma distinct_mdelete: "distinct (mkeys m) \<Longrightarrow> distinct (mkeys (mdelete k m))"
  by (rule distinct_delete)

text \<open>The environment of the process, \<open>process.env\<close>.\<close>

type_synonym env = "(string, string) jmap"

section \<open>Sorting with a comparator\<close>

text \<open>
  \<open>Array.prototype.sort(c)\<close> is stable: an element stays before a later one that compares equal.
\<close>

fun js_insert :: "('a \<Rightarrow> 'a \<Rightarrow> int) \<Rightarrow> 'a \<Rightarrow> 'a list \<Rightarrow> 'a list" where
  "js_insert c x [] = [x]"
| "js_insert c x (y # ys) = (if c x y \<le> 0 then x # y # ys else y # js_insert c x ys)"

definition js_sort :: "('a \<Rightarrow> 'a \<Rightarrow> int) \<Rightarrow> 'a list \<Rightarrow> 'a list" where
  "js_sort c xs = foldr (js_insert c) xs []"

lemma mset_js_insert: "mset (js_insert c x ys) = add_mset x (mset ys)"
  by (induction ys) auto

lemma mset_js_sort [simp]: "mset (js_sort c xs) = mset xs"
  by (induction xs) (simp_all add: js_sort_def mset_js_insert)

lemma set_js_sort [simp]: "set (js_sort c xs) = set xs"
  by (metis mset_js_sort set_mset_mset)

lemma length_js_sort [simp]: "length (js_sort c xs) = length xs"
  by (metis mset_js_sort size_mset)

text \<open>A comparator of the kind the standard asks for.\<close>

definition comparator_ok :: "('a \<Rightarrow> 'a \<Rightarrow> int) \<Rightarrow> bool" where
  "comparator_ok c \<longleftrightarrow> (\<forall>x y. c x y \<le> 0 \<or> c y x \<le> 0) \<and>
     (\<forall>x y z. c x y \<le> 0 \<longrightarrow> c y z \<le> 0 \<longrightarrow> c x z \<le> 0)"

lemma sorted_js_insert:
  assumes "comparator_ok c" and "sorted_wrt (\<lambda>a b. c a b \<le> 0) ys"
  shows "sorted_wrt (\<lambda>a b. c a b \<le> 0) (js_insert c x ys)"
  using assms(2)
proof (induction ys)
  case (Cons y ys)
  have s: "set (js_insert c x ys) = insert x (set ys)"
    using mset_js_insert [of c x ys] by (metis set_mset_add_mset_insert set_mset_mset)
  have t: "c a b \<le> 0 \<Longrightarrow> c b d \<le> 0 \<Longrightarrow> c a d \<le> 0" for a b d
    using assms(1) unfolding comparator_ok_def by blast
  have o: "\<not> c x y \<le> 0 \<Longrightarrow> c y x \<le> 0"
    using assms(1) unfolding comparator_ok_def by blast
  from Cons s o show ?case by (auto intro: t)
qed simp

lemma sorted_js_sort: "comparator_ok c \<Longrightarrow> sorted_wrt (\<lambda>a b. c a b \<le> 0) (js_sort c xs)"
  by (induction xs) (simp_all add: js_sort_def sorted_js_insert)

section \<open>Interfaces\<close>

text \<open>
  A registry keyed by \<open>'k\<close>: what a component that looks entries up, installs them and removes
  them relies on. \<open>invar\<close> is what every operation keeps.
\<close>

locale registry =
  fixes look :: "'s \<Rightarrow> 'k \<Rightarrow> 'v option"
    and install :: "'k \<Rightarrow> 'v \<Rightarrow> 's \<Rightarrow> 's"
    and forget :: "'k \<Rightarrow> 's \<Rightarrow> 's"
    and invar :: "'s \<Rightarrow> bool"
  assumes look_install: "invar s \<Longrightarrow> look (install k v s) j = (if j = k then Some v else look s j)"
    and look_forget: "invar s \<Longrightarrow> look (forget k s) j = (if j = k then None else look s j)"
    and invar_install: "invar s \<Longrightarrow> invar (install k v s)"
    and invar_forget: "invar s \<Longrightarrow> invar (forget k s)"
begin

lemma install_frame: "invar s \<Longrightarrow> j \<noteq> k \<Longrightarrow> look (install k v s) j = look s j"
  by (simp add: look_install)

lemma forget_frame: "invar s \<Longrightarrow> j \<noteq> k \<Longrightarrow> look (forget k s) j = look s j"
  by (simp add: look_forget)

lemma forget_install: "invar s \<Longrightarrow> look s k = None \<Longrightarrow> look (forget k (install k v s)) = look s"
  by (auto simp: look_install look_forget invar_install)

lemma install_twice: "invar s \<Longrightarrow> look (install k v (install k w s)) = look (install k v s)"
  by (auto simp: look_install invar_install)

lemma forget_all:
  "invar s \<Longrightarrow> look (foldr forget ks s) j = (if j \<in> set ks then None else look s j)
     \<and> invar (foldr forget ks s)"
  by (induction ks) (auto simp: look_forget invar_forget)

end

interpretation jmap: registry map_of AList.update AList.delete "\<lambda>m. distinct (map fst m)"
  by unfold_locales (auto simp: distinct_update distinct_delete)

text \<open>
  A machine: a step function driven by a list of events, with a property of states that every
  step keeps. The property then holds after any run.
\<close>

locale machine =
  fixes step :: "'s \<Rightarrow> 'e \<Rightarrow> 's"
    and good :: "'s \<Rightarrow> bool"
  assumes step_good: "good s \<Longrightarrow> good (step s e)"
begin

lemma run_good: "good s \<Longrightarrow> good (foldl step s es)"
  by (induction es arbitrary: s) (auto intro: step_good)

lemma run_prefix_good: "good s \<Longrightarrow> good (foldl step s (take n es))"
  by (rule run_good)

end

text \<open>
  A machine whose steps only keep the property where they fit the state: what does not fit is not asked for, so it
  leaves the state as it is.
\<close>

locale guarded_machine =
  fixes step :: "'s \<Rightarrow> 'e \<Rightarrow> 's"
    and fits :: "'s \<Rightarrow> 'e \<Rightarrow> bool"
    and good :: "'s \<Rightarrow> bool"
  assumes fit_step_good: "good s \<Longrightarrow> fits s e \<Longrightarrow> good (step s e)"

sublocale guarded_machine \<subseteq> machine "\<lambda>s e. if fits s e then step s e else s" good
  by unfold_locales (auto intro: fit_step_good)

end
