(* ===== verification/NodePath.thy ===== *)
theory NodePath
  imports Prelude
begin

text \<open>
  The POSIX half of Node's \<open>path\<close> module, as the runtime uses it: \<open>normalize\<close>, \<open>join\<close>,
  \<open>resolve\<close>, \<open>relative\<close>, \<open>dirname\<close> and \<open>basename\<close> on strings, and their normal form on
  lists of segments, which the confinement proofs work with.
\<close>

section \<open>The functions of the path module\<close>

abbreviation slash :: char where
  "slash \<equiv> CHR ''/''"

definition is_absolute :: "string \<Rightarrow> bool" where
  "is_absolute p \<longleftrightarrow> starts_with p ''/''"

text \<open>
  Node's \<open>normalizeString\<close>: empty segments and \<open>.\<close> are dropped, \<open>..\<close> removes the segment
  before it; at the top it is dropped too, or kept where going above the root is allowed.
  The segments read so far are kept in reverse.
\<close>

fun norm_segs :: "bool \<Rightarrow> string list \<Rightarrow> string list \<Rightarrow> string list" where
  "norm_segs up acc [] = rev acc"
| "norm_segs up acc (s # ss) =
     (if s = [] \<or> s = ''.'' then norm_segs up acc ss
      else if s = ''..'' then
        (case acc of
           [] \<Rightarrow> norm_segs up (if up then [''..''] else []) ss
         | a # as \<Rightarrow> if a = ''..'' then norm_segs up (s # acc) ss else norm_segs up as ss)
      else norm_segs up (s # acc) ss)"

definition normalize_string :: "string \<Rightarrow> bool \<Rightarrow> string" where
  "normalize_string p up = join ''/'' (norm_segs up [] (split_on slash p))"

definition path_normalize :: "string \<Rightarrow> string" where
  "path_normalize p =
     (if p = [] then ''.''
      else let abs = is_absolute p; trail = (last p = slash); r = normalize_string p (\<not> abs)
           in if r = [] then (if abs then ''/'' else if trail then ''./'' else ''.'')
              else let r' = (if trail then r @ ''/'' else r) in if abs then ''/'' @ r' else r')"

definition path_join :: "string list \<Rightarrow> string" where
  "path_join args =
     (let ne = filter (\<lambda>a. a \<noteq> []) args in if ne = [] then ''.'' else path_normalize (join ''/'' ne))"

fun resolve_from_right :: "string list \<Rightarrow> string \<Rightarrow> string \<times> bool" where
  "resolve_from_right [] acc = (acc, False)"
| "resolve_from_right (p # ps) acc =
     (if p = [] then resolve_from_right ps acc
      else if is_absolute p then (p @ ''/'' @ acc, True)
      else resolve_from_right ps (p @ ''/'' @ acc))"

definition path_resolve :: "string \<Rightarrow> string list \<Rightarrow> string" where
  "path_resolve cwd args =
     (let (s, abs) = resolve_from_right (rev args @ [cwd]) []; r = normalize_string s (\<not> abs)
      in if abs then ''/'' @ r else if r \<noteq> [] then r else ''.'')"

fun strip_common :: "'a list \<Rightarrow> 'a list \<Rightarrow> 'a list \<times> 'a list" where
  "strip_common (x # xs) (y # ys) = (if x = y then strip_common xs ys else (x # xs, y # ys))"
| "strip_common xs ys = (xs, ys)"

definition segs_of :: "string \<Rightarrow> string list" where
  "segs_of p = filter (\<lambda>s. s \<noteq> []) (split_on slash p)"

definition path_relative :: "string \<Rightarrow> string \<Rightarrow> string \<Rightarrow> string" where
  "path_relative cwd from to =
     (let (a, b) = strip_common (segs_of (path_resolve cwd [from])) (segs_of (path_resolve cwd [to]))
      in join ''/'' (replicate (length a) ''..'' @ b))"

definition strip_trailing :: "'a \<Rightarrow> 'a list \<Rightarrow> 'a list" where
  "strip_trailing c s = rev (dropWhile (\<lambda>d. d = c) (rev s))"

definition path_dirname :: "string \<Rightarrow> string" where
  "path_dirname p =
     (if p = [] then ''.''
      else case last_index_of slash (strip_trailing slash (tl p)) of
             Some i \<Rightarrow> if is_absolute p \<and> i = 0 then ''//'' else take (Suc i) p
           | None \<Rightarrow> if is_absolute p then ''/'' else ''.'')"

definition path_basename :: "string \<Rightarrow> string" where
  "path_basename p =
     (let q = strip_trailing slash p
      in case last_index_of slash q of None \<Rightarrow> q | Some i \<Rightarrow> drop (Suc i) q)"

section \<open>Clean paths\<close>

text \<open>
  A clean segment is one that names a directory entry; a clean path is an absolute path of
  clean segments, which is what \<open>resolve\<close> returns.
\<close>

definition clean_seg :: "string \<Rightarrow> bool" where
  "clean_seg s \<longleftrightarrow> s \<noteq> [] \<and> s \<noteq> ''.'' \<and> s \<noteq> ''..'' \<and> slash \<notin> set s"

definition abs_path :: "string list \<Rightarrow> string" where
  "abs_path ss = ''/'' @ join ''/'' ss"

abbreviation clean :: "string list \<Rightarrow> bool" where
  "clean ss \<equiv> (\<forall>s \<in> set ss. clean_seg s)"

lemma clean_segD:
  assumes "clean_seg s"
  shows "s \<noteq> []" and "s \<noteq> ''.''" and "s \<noteq> ''..''" and "slash \<notin> set s"
  using assms by (auto simp: clean_seg_def)

lemma clean_no_slash: "clean ss \<Longrightarrow> \<forall>w \<in> set ss. slash \<notin> set w"
  by (auto simp: clean_seg_def)

lemma norm_segs_append:
  "norm_segs up acc (xs @ ys) = norm_segs up (rev (norm_segs up acc xs)) ys"
  by (induction up acc xs rule: norm_segs.induct) (auto split: list.split)

lemma norm_segs_clean [path_simps]: "clean ss \<Longrightarrow> norm_segs up acc ss = rev acc @ ss"
  by (induction ss arbitrary: acc) (auto simp: clean_seg_def)

lemma norm_segs_Nil_seg [simp]: "norm_segs up acc ([] # ss) = norm_segs up acc ss"
  by simp

lemma norm_segs_from_base [path_simps]:
  "clean b \<Longrightarrow> norm_segs False [] (b @ ss) = norm_segs False (rev b) ss"
  by (simp only: norm_segs_append norm_segs_clean rev.simps append_Nil)

lemma norm_segs_trailing [path_simps]: "norm_segs up acc (ss @ [[]]) = norm_segs up acc ss"
  by (simp only: norm_segs_append norm_segs_Nil_seg norm_segs.simps(1) rev_rev_ident)

lemma norm_segs_is_clean:
  "\<forall>s \<in> set ss. slash \<notin> set s \<Longrightarrow> clean acc \<Longrightarrow> clean (norm_segs False acc ss)"
proof (induction ss arbitrary: acc)
  case Nil
  then show ?case by simp
next
  case (Cons s ss)
  have rest: "clean acc' \<Longrightarrow> clean (norm_segs False acc' ss)" for acc'
    using Cons.prems(1) by (intro Cons.IH) auto
  consider "s = [] \<or> s = ''.''" | "s = ''..''" | "clean_seg s"
    using Cons.prems(1) by (auto simp: clean_seg_def)
  then show ?case
  proof cases
    case 1
    then have eq: "norm_segs False acc (s # ss) = norm_segs False acc ss" by auto
    show ?thesis unfolding eq using Cons.prems(2) by (rule rest)
  next
    case 2
    show ?thesis
    proof (cases acc)
      case Nil
      with 2 have eq: "norm_segs False acc (s # ss) = norm_segs False [] ss" by simp
      show ?thesis unfolding eq by (rule rest) simp
    next
      case (Cons a as)
      with Cons.prems(2) have "a \<noteq> ''..''" and "clean as" by (auto simp: clean_seg_def)
      with 2 Cons have eq: "norm_segs False acc (s # ss) = norm_segs False as ss" by simp
      show ?thesis unfolding eq using \<open>clean as\<close> by (rule rest)
    qed
  next
    case 3
    then have eq: "norm_segs False acc (s # ss) = norm_segs False (s # acc) ss"
      by (simp add: clean_seg_def)
    from 3 Cons.prems(2) have "clean (s # acc)" by auto
    then show ?thesis unfolding eq by (rule rest)
  qed
qed

lemma norm_segs_filter: "norm_segs up acc (filter (\<lambda>s. s \<noteq> []) ss) = norm_segs up acc ss"
  by (induction up acc ss rule: norm_segs.induct) (auto split: list.split)

lemma split_abs_path [path_simps]:
  "clean ss \<Longrightarrow> split_on slash (abs_path ss) = [] # (if ss = [] then [[]] else ss)"
  using split_on_join [of ss slash] clean_no_slash [of ss]
  by (auto simp: abs_path_def)

lemma segs_of_abs_path [path_simps]: "clean ss \<Longrightarrow> segs_of (abs_path ss) = ss"
  by (auto simp: segs_of_def path_simps clean_seg_def intro!: filter_True)

lemma abs_path_inj: "clean xs \<Longrightarrow> clean ys \<Longrightarrow> abs_path xs = abs_path ys \<longleftrightarrow> xs = ys"
  by (metis segs_of_abs_path)

lemma abs_path_absolute [simp]: "is_absolute (abs_path ss)"
  by (simp add: is_absolute_def abs_path_def)

lemma abs_path_not_Nil [simp]: "abs_path ss \<noteq> []"
  by (simp add: abs_path_def)

lemma abs_path_append: "xs \<noteq> [] \<Longrightarrow> ys \<noteq> [] \<Longrightarrow> abs_path (xs @ ys) = abs_path xs @ ''/'' @ join ''/'' ys"
  by (simp add: abs_path_def join_append)

lemma resolve_abs [path_simps]:
  assumes "clean b"
  shows "path_resolve cwd [abs_path b] = abs_path b"
proof -
  have "split_on slash (abs_path b @ ''/'') = split_on slash (abs_path b) @ [[]]"
    using split_on_app [of slash "abs_path b" "[]"] by simp
  then have "norm_segs False [] (split_on slash (abs_path b @ ''/'')) = b"
    using assms by (cases "b = []") (simp_all add: path_simps)
  then show ?thesis
    by (simp add: path_resolve_def normalize_string_def abs_path_def)
       (simp add: is_absolute_def)
qed

text \<open>Resolving a relative path against a clean base: the segments are walked from the base.\<close>

lemma resolve_rel [path_simps]:
  assumes "clean b" and "\<not> is_absolute rel"
  shows "path_resolve cwd [abs_path b, rel] = abs_path (norm_segs False (rev b) (split_on slash rel))"
proof (cases "rel = []")
  case True
  with resolve_abs [OF assms(1), of cwd] show ?thesis
    by (simp add: path_resolve_def)
next
  case False
  have "split_on slash (abs_path b @ ''/'' @ rel @ ''/'') =
      split_on slash (abs_path b) @ split_on slash rel @ [[]]"
    using split_on_app [of slash "abs_path b" "rel @ ''/''"] split_on_app [of slash rel "[]"]
    by simp
  then have "norm_segs False [] (split_on slash (abs_path b @ ''/'' @ rel @ ''/'')) =
      norm_segs False (rev b) (split_on slash rel)"
    using assms(1) by (cases "b = []") (simp_all add: path_simps flip: append_assoc)
  with False assms(2) show ?thesis
    by (simp add: path_resolve_def normalize_string_def abs_path_def)
       (simp add: is_absolute_def)
qed

lemma clean_resolved:
  assumes "clean b"
  shows "clean (norm_segs False (rev b) (split_on slash rel))"
  using assms by (intro norm_segs_is_clean) (auto dest: split_on_no_sep)

text \<open>Below a directory in the sense of the code's \<open>startsWith\<close> test, on segments.\<close>

lemma starts_with_abs_path:
  assumes "clean b" and "clean j" and "b \<noteq> []"
  shows "starts_with (abs_path j) (abs_path b @ ''/'') \<longleftrightarrow> (\<exists>r. r \<noteq> [] \<and> j = b @ r)"
proof
  assume "starts_with (abs_path j) (abs_path b @ ''/'')"
  then obtain t where t: "abs_path j = abs_path b @ ''/'' @ t" by (auto simp: starts_with_iff)
  have "split_on slash (abs_path j) = split_on slash (abs_path b) @ split_on slash t"
    unfolding t using split_on_app [of slash "abs_path b" t] by simp
  with assms have e: "(if j = [] then [[]] else j) = b @ split_on slash t"
    by (simp add: path_simps)
  have "j \<noteq> []"
  proof
    assume "j = []"
    with e assms(3) have "b = [[]]" by (cases b) auto
    with assms(1) show False by (simp add: clean_seg_def)
  qed
  with e show "\<exists>r. r \<noteq> [] \<and> j = b @ r" by auto
next
  assume "\<exists>r. r \<noteq> [] \<and> j = b @ r"
  then obtain r where "r \<noteq> []" "j = b @ r" by blast
  then show "starts_with (abs_path j) (abs_path b @ ''/'')"
    using abs_path_append [OF assms(3)] by (simp add: starts_with_iff)
qed

lemma strip_common_append [simp]: "strip_common b (b @ r) = ([], r)"
  by (induction b) (cases r, auto)

lemma relative_abs [path_simps]:
  "clean b \<Longrightarrow> clean r \<Longrightarrow> path_relative cwd (abs_path b) (abs_path (b @ r)) = join ''/'' r"
  using resolve_abs [of "b @ r" cwd] segs_of_abs_path [of "b @ r"]
  by (simp add: path_relative_def resolve_abs segs_of_abs_path ball_Un)

lemma strip_trailing_plain: "s = [] \<or> last s \<noteq> c \<Longrightarrow> strip_trailing c s = s"
  by (cases s rule: rev_cases) (auto simp: strip_trailing_def)

lemma join_clean_not_Nil: "clean ss \<Longrightarrow> ss \<noteq> [] \<Longrightarrow> join sep ss \<noteq> []"
  by (cases ss rule: remdups_adj.cases) (auto simp: clean_seg_def)

lemma join_last: "clean ss \<Longrightarrow> ss \<noteq> [] \<Longrightarrow> last (join sep ss) = last (last ss)"
proof (induction sep ss rule: join.induct)
  case (3 sep w v ws)
  then have "join sep (v # ws) \<noteq> []" by (intro join_clean_not_Nil) auto
  with 3 show ?case by simp
qed auto

lemma last_no_slash: "clean_seg s \<Longrightarrow> last s \<noteq> slash"
  by (metis clean_seg_def last_in_set)

lemma basename_abs [path_simps]:
  assumes "clean (b @ [s])"
  shows "path_basename (abs_path (b @ [s])) = s"
proof -
  have s: "clean_seg s" using assms by simp
  have "last (abs_path (b @ [s])) \<noteq> slash"
    using join_last [OF assms, of "''/''"] last_no_slash [OF s] join_clean_not_Nil [OF assms, of "''/''"]
    by (simp add: abs_path_def)
  then have q: "strip_trailing slash (abs_path (b @ [s])) = abs_path (b @ [s])"
    by (simp add: strip_trailing_plain)
  obtain pre where pre: "abs_path (b @ [s]) = pre @ slash # s"
  proof (cases "b = []")
    case True
    then show ?thesis using that [of "[]"] by (simp add: abs_path_def)
  next
    case False
    then show ?thesis using that [of "abs_path b"] abs_path_append [of b "[s]"] by simp
  qed
  have "slash \<notin> set s" using s by (simp add: clean_seg_def)
  then show ?thesis
    unfolding path_basename_def q unfolding pre by (simp add: last_index_of_append)
qed

lemma dirname_abs [path_simps]:
  assumes "clean (b @ [s])"
  shows "path_dirname (abs_path (b @ [s])) = abs_path b"
proof -
  have s: "clean_seg s" and ns: "slash \<notin> set s" using assms by (auto simp: clean_seg_def)
  have "last (join ''/'' (b @ [s])) \<noteq> slash"
    using join_last [OF assms, of "''/''"] last_no_slash [OF s] by simp
  then have t: "strip_trailing slash (tl (abs_path (b @ [s]))) = join ''/'' (b @ [s])"
    by (simp add: abs_path_def strip_trailing_plain)
  show ?thesis
  proof (cases "b = []")
    case True
    then show ?thesis
      using t ns by (simp add: path_dirname_def last_index_of_None [THEN iffD2] abs_path_def is_absolute_def)
  next
    case False
    have j: "join ''/'' (b @ [s]) = join ''/'' b @ slash # s"
      using False by (simp add: join_append)
    have "join ''/'' b \<noteq> []"
      using assms False by (intro join_clean_not_Nil) auto
    then show ?thesis
      unfolding path_dirname_def t unfolding j using ns
      by (simp add: last_index_of_append) (simp add: abs_path_def j)
  qed
qed

lemma path_join_abs [path_simps]:
  assumes "clean r" and "clean ss" and "ss \<noteq> []"
  shows "path_join (abs_path r # ss) = abs_path (r @ ss)"
proof -
  have f: "filter (\<lambda>a. a \<noteq> []) (abs_path r # ss) = abs_path r # ss"
    using assms(2) by (auto simp: clean_seg_def intro!: filter_True)
  obtain t ts where ss: "ss = t # ts" using assms(3) by (cases ss) auto
  have j: "join ''/'' (abs_path r # ss) = abs_path r @ ''/'' @ join ''/'' ss"
    by (simp add: ss)
  have sp: "split_on slash (abs_path r @ ''/'' @ join ''/'' ss) = split_on slash (abs_path r) @ ss"
    using split_on_app [of slash "abs_path r" "join ''/'' ss"] split_on_join [OF assms(3) clean_no_slash [OF assms(2)]]
    by simp
  have "clean (r @ ss)" using assms by auto
  then have n: "norm_segs False [] (split_on slash (abs_path r @ ''/'' @ join ''/'' ss)) = r @ ss"
    unfolding sp using assms(1,2) by (cases "r = []") (simp_all add: path_simps)
  have lst: "last (abs_path r @ ''/'' @ join ''/'' ss) \<noteq> slash"
  proof -
    have l: "clean_seg (last ss)" using assms(2,3) by simp
    then have "last (join ''/'' ss) \<noteq> slash"
      using join_last [OF assms(2,3), of "''/''"] last_no_slash [OF l] by simp
    moreover have "join ''/'' ss \<noteq> []"
      using assms(2,3) by (rule join_clean_not_Nil)
    ultimately show ?thesis by simp
  qed
  have a: "is_absolute (abs_path r @ ''/'' @ join ''/'' ss)"
    by (simp add: is_absolute_def abs_path_def)
  have jn: "join ''/'' (r @ ss) \<noteq> []"
    using assms by (intro join_clean_not_Nil) auto
  show ?thesis
    unfolding path_join_def Let_def f j path_normalize_def normalize_string_def
    using a lst n jn by (simp add: Let_def) (simp add: abs_path_def)
qed

end
