(* ===== verification/Layout.thy ===== *)
theory Layout
  imports NodePath
begin

text \<open>
  The directories of the runtime pod (\<open>runtime/src/constants.ts\<close>): one function per exported
  path function, on the environment of the process, and the lemmas that say what isolates
  sessions and agents from each other on the shared volume.
\<close>

section \<open>The path functions\<close>

definition WORKSPACE_ROOT :: "env \<Rightarrow> string" where
  "WORKSPACE_ROOT env =
     (case mget env ''WORKSPACE_ROOT'' of None \<Rightarrow> ''/workspace-root'' | Some r \<Rightarrow> r)"

definition SANDBOX_WORKSPACE :: string where
  "SANDBOX_WORKSPACE = ''/workspace''"

definition sessionSharedDir :: "env \<Rightarrow> string \<Rightarrow> string" where
  "sessionSharedDir env sid = path_join [WORKSPACE_ROOT env, ''sessions'', sid, ''shared'']"

definition sessionClaudeDir :: "env \<Rightarrow> string \<Rightarrow> string \<Rightarrow> string" where
  "sessionClaudeDir env sid aid =
     path_join [WORKSPACE_ROOT env, ''sessions'', sid, ''agents'', aid, ''.claude'']"

definition sessionVenvDir :: "env \<Rightarrow> string \<Rightarrow> string \<Rightarrow> string" where
  "sessionVenvDir env sid aid =
     path_join [WORKSPACE_ROOT env, ''sessions'', sid, ''agents'', aid, ''.venv'']"

definition sessionTmp :: "string \<Rightarrow> string \<Rightarrow> string" where
  "sessionTmp sid aid = ''/tmp/'' @ aid @ ''_'' @ sid"

definition workflowArtifactsDir :: "env \<Rightarrow> string \<Rightarrow> string" where
  "workflowArtifactsDir env rid = path_join [WORKSPACE_ROOT env, ''workflows'', rid, ''artifacts'']"

definition workflowArtifactPath :: "env \<Rightarrow> string \<Rightarrow> string \<Rightarrow> string \<Rightarrow> string" where
  "workflowArtifactPath env rid node name = path_join [workflowArtifactsDir env rid, node, name]"

section \<open>Where they point\<close>

text \<open>
  The deployments set the root to an absolute normalised path (the default is one);
  \<open>root_segs env r\<close> says so and names its segments.
\<close>

definition root_segs :: "env \<Rightarrow> string list \<Rightarrow> bool" where
  "root_segs env r \<longleftrightarrow> WORKSPACE_ROOT env = abs_path r \<and> clean r"

lemma root_segs_default: "root_segs [] [''workspace-root'']"
  by (simp add: root_segs_def WORKSPACE_ROOT_def abs_path_def clean_seg_def)

lemma clean_names [simp]:
  "clean_seg ''sessions''" "clean_seg ''shared''" "clean_seg ''agents''" "clean_seg ''.claude''"
  "clean_seg ''.venv''" "clean_seg ''workflows''" "clean_seg ''artifacts''"
  by (simp_all add: clean_seg_def)

lemma sharedDir_segs [path_simps]:
  "root_segs env r \<Longrightarrow> clean_seg sid \<Longrightarrow>
     sessionSharedDir env sid = abs_path (r @ [''sessions'', sid, ''shared''])"
  by (simp add: sessionSharedDir_def root_segs_def path_join_abs)

lemma claudeDir_segs [path_simps]:
  "root_segs env r \<Longrightarrow> clean_seg sid \<Longrightarrow> clean_seg aid \<Longrightarrow>
     sessionClaudeDir env sid aid = abs_path (r @ [''sessions'', sid, ''agents'', aid, ''.claude''])"
  by (simp add: sessionClaudeDir_def root_segs_def path_join_abs)

lemma venvDir_segs [path_simps]:
  "root_segs env r \<Longrightarrow> clean_seg sid \<Longrightarrow> clean_seg aid \<Longrightarrow>
     sessionVenvDir env sid aid = abs_path (r @ [''sessions'', sid, ''agents'', aid, ''.venv''])"
  by (simp add: sessionVenvDir_def root_segs_def path_join_abs)

lemma artifactsDir_segs [path_simps]:
  "root_segs env r \<Longrightarrow> clean_seg rid \<Longrightarrow>
     workflowArtifactsDir env rid = abs_path (r @ [''workflows'', rid, ''artifacts''])"
  by (simp add: workflowArtifactsDir_def root_segs_def path_join_abs)

lemma artifactPath_segs [path_simps]:
  "root_segs env r \<Longrightarrow> clean_seg rid \<Longrightarrow> clean_seg node \<Longrightarrow> clean_seg name \<Longrightarrow>
     workflowArtifactPath env rid node name =
       abs_path (r @ [''workflows'', rid, ''artifacts'', node, name])"
  using path_join_abs [of "r @ [''workflows'', rid, ''artifacts'']" "[node, name]"]
  by (auto simp: workflowArtifactPath_def artifactsDir_segs root_segs_def)

text \<open>
  The per-agent and per-session directories a request can be about. \<open>below d p\<close>: the path \<open>p\<close>
  is the directory \<open>d\<close> or something in it, in the code's own \<open>startsWith\<close> sense.
\<close>

definition below :: "string \<Rightarrow> string \<Rightarrow> bool" where
  "below d p \<longleftrightarrow> p = d \<or> starts_with p (d @ ''/'')"

lemma below_abs:
  assumes "clean d" and "clean p" and "d \<noteq> []"
  shows "below (abs_path d) (abs_path p) \<longleftrightarrow> (\<exists>t. p = d @ t)"
  using starts_with_abs_path [OF assms(1,2,3)] abs_path_inj [OF assms(2,1)]
  by (auto simp: below_def)

lemma sessionTmp_inj:
  assumes "CHR ''_'' \<notin> set a" and "CHR ''_'' \<notin> set b" and "sessionTmp s a = sessionTmp t b"
  shows "s = t \<and> a = b"
proof -
  have e: "a @ CHR ''_'' # s = b @ CHR ''_'' # t"
    using assms(3) by (simp add: sessionTmp_def)
  from e have "index_of (CHR ''_'') (a @ CHR ''_'' # s) = index_of (CHR ''_'') (b @ CHR ''_'' # t)"
    by simp
  with assms(1,2) have "length a = length b" by (simp add: index_of_append)
  with e show ?thesis by simp
qed

end
