(* ===== verification/FileSystem.thy ===== *)
theory FileSystem
  imports NodePath "HOL-Library.Word"
begin

text \<open>
  The part of \<open>node:fs\<close> that the runtime calls, over a POSIX file system: a map from physical
  paths (lists of entry names) to nodes. Path arguments are resolved component by component as
  the kernel does it: \<open>..\<close> goes to the parent, a symbolic link in the middle of a path is
  followed, the last component only by the calls that follow links, and more than forty links
  are \<open>ELOOP\<close>. A node has a modification time in nanoseconds; the operations stamp what they
  write, and the directory they write it in, with the clock of the state.
\<close>

section \<open>State\<close>

type_synonym byte = "8 word"
type_synonym ppath = "string list"

datatype kind = Dir | File "byte list" | Symlink string | Special

type_synonym node = "kind \<times> nat"

record fs =
  nodes :: "(ppath, node) jmap"
  now :: nat

datatype errno = ENOENT | ENOTDIR | EISDIR | EEXIST | ENOTEMPTY | ELOOP | EINVAL

definition node_at :: "fs \<Rightarrow> ppath \<Rightarrow> node option" where
  "node_at f p = mget (nodes f) p"

definition set_node :: "ppath \<Rightarrow> node \<Rightarrow> fs \<Rightarrow> fs" where
  "set_node p n f = f\<lparr>nodes := mput p n (nodes f)\<rparr>"

definition drop_node :: "ppath \<Rightarrow> fs \<Rightarrow> fs" where
  "drop_node p f = f\<lparr>nodes := mdelete p (nodes f)\<rparr>"

definition fs_keys :: "fs \<Rightarrow> bool" where
  "fs_keys f \<longleftrightarrow> distinct (mkeys (nodes f))"

interpretation disk: registry node_at set_node drop_node fs_keys
  by unfold_locales
    (auto simp: node_at_def set_node_def drop_node_def fs_keys_def distinct_update distinct_delete)

fun is_dir :: "node \<Rightarrow> bool" where
  "is_dir (Dir, _) = True" | "is_dir _ = False"

fun is_file :: "node \<Rightarrow> bool" where
  "is_file (File _, _) = True" | "is_file _ = False"

fun is_link :: "node \<Rightarrow> bool" where
  "is_link (Symlink _, _) = True" | "is_link _ = False"

fun node_size :: "node \<Rightarrow> nat" where
  "node_size (File b, _) = length b" | "node_size (Symlink t, _) = length t" | "node_size _ = 0"

text \<open>\<open>Math.floor(stat.mtimeMs)\<close>.\<close>

definition mtime_ms :: "node \<Rightarrow> nat" where
  "mtime_ms n = snd n div 1000000"

section \<open>Path resolution\<close>

definition max_links :: nat where
  "max_links = 40"

fun walk :: "nat \<Rightarrow> (ppath, node) jmap \<Rightarrow> bool \<Rightarrow> ppath \<Rightarrow> string list \<Rightarrow> errno + ppath" where
  "walk fuel ns follow cur [] = Inr cur"
| "walk fuel ns follow cur (s # ss) =
     (if s = [] \<or> s = ''.'' then walk fuel ns follow cur ss
      else if s = ''..'' then walk fuel ns follow (butlast cur) ss
      else case mget ns (cur @ [s]) of
             None \<Rightarrow> if ss = [] then Inr (cur @ [s]) else Inl ENOENT
           | Some (Dir, _) \<Rightarrow> walk fuel ns follow (cur @ [s]) ss
           | Some (Symlink t, _) \<Rightarrow>
               if ss = [] \<and> \<not> follow then Inr (cur @ [s])
               else (case fuel of
                       0 \<Rightarrow> Inl ELOOP
                     | Suc k \<Rightarrow>
                         walk k ns follow (if is_absolute t then [] else cur) (split_on slash t @ ss))
           | Some _ \<Rightarrow> if ss = [] then Inr (cur @ [s]) else Inl ENOTDIR)"

definition locate :: "fs \<Rightarrow> bool \<Rightarrow> string \<Rightarrow> errno + ppath" where
  "locate f follow p = walk max_links (nodes f) follow [] (split_on slash p)"

definition stat_with :: "bool \<Rightarrow> fs \<Rightarrow> string \<Rightarrow> errno + node" where
  "stat_with follow f p =
     (case locate f follow p of
        Inl e \<Rightarrow> Inl e
      | Inr q \<Rightarrow> (case node_at f q of None \<Rightarrow> Inl ENOENT | Some n \<Rightarrow> Inr n))"

abbreviation lstatSync :: "fs \<Rightarrow> string \<Rightarrow> errno + node" where
  "lstatSync \<equiv> stat_with False"

abbreviation statSync :: "fs \<Rightarrow> string \<Rightarrow> errno + node" where
  "statSync \<equiv> stat_with True"

definition existsSync :: "fs \<Rightarrow> string \<Rightarrow> bool" where
  "existsSync f p = (case statSync f p of Inl _ \<Rightarrow> False | Inr _ \<Rightarrow> True)"

section \<open>Operations\<close>

text \<open>The entries of a directory, in the order of the map.\<close>

definition children :: "fs \<Rightarrow> ppath \<Rightarrow> string list" where
  "children f q = map last (filter (\<lambda>p. p \<noteq> [] \<and> butlast p = q) (mkeys (nodes f)))"

definition stamp_dir :: "ppath \<Rightarrow> fs \<Rightarrow> fs" where
  "stamp_dir q f = (case node_at f q of Some (Dir, _) \<Rightarrow> set_node q (Dir, now f) f | _ \<Rightarrow> f)"

definition put_entry :: "ppath \<Rightarrow> kind \<Rightarrow> fs \<Rightarrow> fs" where
  "put_entry q k f = stamp_dir (butlast q) (set_node q (k, now f) f)"

definition drop_tree :: "ppath \<Rightarrow> fs \<Rightarrow> fs" where
  "drop_tree q f = stamp_dir (butlast q) (f\<lparr>nodes := filter (\<lambda>(p, n). \<not> prefix q p) (nodes f)\<rparr>)"

definition mkdirSync :: "fs \<Rightarrow> string \<Rightarrow> errno + fs" where
  "mkdirSync f p =
     (case locate f False p of
        Inl e \<Rightarrow> Inl e
      | Inr q \<Rightarrow> if node_at f q = None then Inr (put_entry q Dir f) else Inl EEXIST)"

fun mkdirs :: "fs \<Rightarrow> string list \<Rightarrow> string list \<Rightarrow> errno + fs" where
  "mkdirs f pre [] = Inr f"
| "mkdirs f pre (s # ss) =
     (case statSync f (abs_path (pre @ [s])) of
        Inr n \<Rightarrow> if is_dir n then mkdirs f (pre @ [s]) ss else Inl (if ss = [] then EEXIST else ENOTDIR)
      | Inl ENOENT \<Rightarrow>
          (case mkdirSync f (abs_path (pre @ [s])) of
             Inl e \<Rightarrow> Inl e
           | Inr f' \<Rightarrow> mkdirs f' (pre @ [s]) ss)
      | Inl e \<Rightarrow> Inl e)"

text \<open>\<open>mkdirSync(p, { recursive: true })\<close>.\<close>

definition mkdir_recursive :: "fs \<Rightarrow> string \<Rightarrow> errno + fs" where
  "mkdir_recursive f p = mkdirs f [] (segs_of p)"

definition readdirSync :: "fs \<Rightarrow> string \<Rightarrow> errno + string list" where
  "readdirSync f p =
     (case locate f True p of
        Inl e \<Rightarrow> Inl e
      | Inr q \<Rightarrow>
          (case node_at f q of
             None \<Rightarrow> Inl ENOENT
           | Some n \<Rightarrow> if is_dir n then Inr (children f q) else Inl ENOTDIR))"

definition readFileSync :: "fs \<Rightarrow> string \<Rightarrow> errno + byte list" where
  "readFileSync f p =
     (case locate f True p of
        Inl e \<Rightarrow> Inl e
      | Inr q \<Rightarrow>
          (case node_at f q of
             None \<Rightarrow> Inl ENOENT
           | Some (File b, _) \<Rightarrow> Inr b
           | Some (Dir, _) \<Rightarrow> Inl EISDIR
           | Some _ \<Rightarrow> Inl EINVAL))"

definition writeFileSync :: "fs \<Rightarrow> string \<Rightarrow> byte list \<Rightarrow> errno + fs" where
  "writeFileSync f p b =
     (case locate f True p of
        Inl e \<Rightarrow> Inl e
      | Inr q \<Rightarrow>
          (case node_at f q of
             None \<Rightarrow> Inr (put_entry q (File b) f)
           | Some (File _, _) \<Rightarrow> Inr (set_node q (File b, now f) f)
           | Some (Dir, _) \<Rightarrow> Inl EISDIR
           | Some _ \<Rightarrow> Inl EINVAL))"

definition unlinkSync :: "fs \<Rightarrow> string \<Rightarrow> errno + fs" where
  "unlinkSync f p =
     (case locate f False p of
        Inl e \<Rightarrow> Inl e
      | Inr q \<Rightarrow>
          (case node_at f q of
             None \<Rightarrow> Inl ENOENT
           | Some n \<Rightarrow> if is_dir n then Inl EISDIR else Inr (stamp_dir (butlast q) (drop_node q f))))"

definition rmdirSync :: "fs \<Rightarrow> string \<Rightarrow> errno + fs" where
  "rmdirSync f p =
     (case locate f False p of
        Inl e \<Rightarrow> Inl e
      | Inr q \<Rightarrow>
          (case node_at f q of
             None \<Rightarrow> Inl ENOENT
           | Some n \<Rightarrow>
               if \<not> is_dir n then Inl ENOTDIR
               else if q = [] \<or> children f q \<noteq> [] then Inl ENOTEMPTY
               else Inr (stamp_dir (butlast q) (drop_node q f))))"

text \<open>\<open>rmSync(p, { recursive: true, force })\<close>: a link is removed, not followed.\<close>

definition rm_recursive :: "bool \<Rightarrow> fs \<Rightarrow> string \<Rightarrow> errno + fs" where
  "rm_recursive force f p =
     (case locate f False p of
        Inl e \<Rightarrow> if force \<and> e = ENOENT then Inr f else Inl e
      | Inr q \<Rightarrow>
          (case node_at f q of
             None \<Rightarrow> if force then Inr f else Inl ENOENT
           | Some n \<Rightarrow> if q = [] then Inl EINVAL else Inr (drop_tree q f)))"

text \<open>The move itself: the entries at and below \<open>a\<close> go to \<open>b\<close>; both directories are stamped.\<close>

definition move_tree :: "ppath \<Rightarrow> ppath \<Rightarrow> fs \<Rightarrow> fs" where
  "move_tree a b f =
     stamp_dir (butlast b) (stamp_dir (butlast a)
       (f\<lparr>nodes := map (\<lambda>(p, n). (if prefix a p then b @ drop (length a) p else p, n)) (nodes f)\<rparr>))"

definition renameSync :: "fs \<Rightarrow> string \<Rightarrow> string \<Rightarrow> errno + fs" where
  "renameSync f p1 p2 =
     (case locate f False p1 of
        Inl e \<Rightarrow> Inl e
      | Inr a \<Rightarrow>
          (case locate f False p2 of
             Inl e \<Rightarrow> Inl e
           | Inr b \<Rightarrow>
               (case node_at f a of
                  None \<Rightarrow> Inl ENOENT
                | Some n \<Rightarrow>
                    if a = b then Inr f
                    else if prefix a b then Inl EINVAL
                    else
                      (case node_at f b of
                         None \<Rightarrow> Inr (move_tree a b f)
                       | Some m \<Rightarrow>
                           if is_dir n \<and> \<not> is_dir m then Inl ENOTDIR
                           else if \<not> is_dir n \<and> is_dir m then Inl EISDIR
                           else if is_dir m \<and> children f b \<noteq> [] then Inl ENOTEMPTY
                           else if prefix b a then Inl ENOTEMPTY
                           else Inr (move_tree a b (drop_node b f))))))"

section \<open>Well-formed trees\<close>

text \<open>
  A tree: the root is a directory, every other node is a clean name in a directory.
\<close>

definition is_dir_at :: "fs \<Rightarrow> ppath \<Rightarrow> bool" where
  "is_dir_at f q \<longleftrightarrow> (case node_at f q of None \<Rightarrow> False | Some n \<Rightarrow> is_dir n)"

definition tree_ok :: "fs \<Rightarrow> bool" where
  "tree_ok f \<longleftrightarrow> fs_keys f \<and> is_dir_at f [] \<and>
     (\<forall>q s. node_at f (q @ [s]) \<noteq> None \<longrightarrow> clean_seg s \<and> is_dir_at f q)"

lemma is_dir_iff: "is_dir n \<longleftrightarrow> fst n = Dir"
  by (cases n; cases "fst n") auto

lemma is_dir_at_Some: "is_dir_at f q \<longleftrightarrow> (\<exists>t. node_at f q = Some (Dir, t))"
  by (auto simp: is_dir_at_def is_dir_iff split: option.split)

lemma tree_okD:
  assumes "tree_ok f"
  shows "fs_keys f" and "is_dir_at f []"
    and "node_at f (q @ [s]) \<noteq> None \<Longrightarrow> clean_seg s"
    and "node_at f (q @ [s]) \<noteq> None \<Longrightarrow> is_dir_at f q"
  using assms unfolding tree_ok_def by blast+

text \<open>How the invariant is kept: directories stay, and new nodes are put into directories.\<close>

lemma tree_ok_mono:
  assumes "tree_ok f" and "fs_keys g"
    and dirs: "\<And>p. is_dir_at f p \<Longrightarrow> is_dir_at g p"
    and new: "\<And>q s. node_at g (q @ [s]) \<noteq> None \<Longrightarrow>
           node_at f (q @ [s]) \<noteq> None \<or> clean_seg s \<and> is_dir_at g q"
  shows "tree_ok g"
  unfolding tree_ok_def
proof (intro conjI allI impI)
  show "is_dir_at g []" by (rule dirs [OF tree_okD(2) [OF assms(1)]])
  fix q s assume n: "node_at g (q @ [s]) \<noteq> None"
  show "clean_seg s" using new [OF n] tree_okD(3) [OF assms(1)] by blast
  show "is_dir_at g q" using new [OF n] tree_okD(4) [OF assms(1)] dirs by blast
qed (fact assms(2))

lemma node_at_set_node [simp]:
  "node_at (set_node p n f) q = (if q = p then Some n else node_at f q)"
  by (simp add: node_at_def set_node_def)

lemma node_at_drop_node [simp]:
  "node_at (drop_node p f) q = (if q = p then None else node_at f q)"
  by (simp add: node_at_def drop_node_def)

lemma is_dir_at_set_node [simp]:
  "is_dir_at (set_node p n f) q = (if q = p then is_dir n else is_dir_at f q)"
  by (simp add: is_dir_at_def)

lemma fs_keys_set_node [simp]: "fs_keys f \<Longrightarrow> fs_keys (set_node p n f)"
  by (rule disk.invar_install)

lemma fs_keys_drop_node [simp]: "fs_keys f \<Longrightarrow> fs_keys (drop_node p f)"
  by (rule disk.invar_forget)

lemma stamp_dir_alt: "stamp_dir p f = (if is_dir_at f p then set_node p (Dir, now f) f else f)"
  by (auto simp: stamp_dir_def is_dir_at_def split: option.split kind.split)

lemma now_simps [simp]:
  "now (set_node p n f) = now f" "now (drop_node p f) = now f" "now (stamp_dir p f) = now f"
  by (auto simp: set_node_def drop_node_def stamp_dir_alt)

lemma node_at_stamp_dir:
  "node_at (stamp_dir p f) q = (if q = p \<and> is_dir_at f p then Some (Dir, now f) else node_at f q)"
  by (simp add: stamp_dir_alt)

lemma stamp_dir_None [simp]: "node_at (stamp_dir p f) q = None \<longleftrightarrow> node_at f q = None"
  by (auto simp: node_at_stamp_dir is_dir_at_Some)

lemma fs_keys_stamp_dir [simp]: "fs_keys f \<Longrightarrow> fs_keys (stamp_dir p f)"
  by (simp add: stamp_dir_alt)

lemma is_dir_at_stamp [simp]: "is_dir_at (stamp_dir p f) q = is_dir_at f q"
  by (simp add: stamp_dir_alt)

lemma tree_ok_stamp [intro]: "tree_ok f \<Longrightarrow> tree_ok (stamp_dir p f)"
  by (rule tree_ok_mono) (auto simp: tree_okD(1))

lemma node_at_put_entry:
  "node_at (put_entry q k f) p =
     (if p = q then Some (if p = butlast q \<and> k = Dir then Dir else k, now f)
      else if p = butlast q \<and> is_dir_at f p then Some (Dir, now f)
      else node_at f p)"
  by (auto simp: put_entry_def node_at_stamp_dir is_dir_iff)

lemma is_dir_at_put_entry [simp]:
  "is_dir_at (put_entry q k f) p = (if p = q then k = Dir else is_dir_at f p)"
  by (auto simp: put_entry_def is_dir_iff)

lemma put_entry_None: "node_at (put_entry q k f) p = None \<longleftrightarrow> p \<noteq> q \<and> node_at f p = None"
  by (simp add: put_entry_def)

lemma fs_keys_put_entry [simp]: "fs_keys f \<Longrightarrow> fs_keys (put_entry q k f)"
  by (simp add: put_entry_def)

lemma tree_ok_put_entry:
  assumes "tree_ok f" and "is_dir_at f q" and "clean_seg s" and "\<not> is_dir_at f (q @ [s])"
  shows "tree_ok (put_entry (q @ [s]) k f)"
  by (rule tree_ok_mono [OF assms(1)])
    (use assms in \<open>auto simp: put_entry_None tree_okD(1) dest: is_dir_at_Some [THEN iffD1]\<close>)

lemma tree_ok_set_file:
  assumes "tree_ok f" and "node_at f q = Some n" and "\<not> is_dir n" and "\<not> is_dir m"
  shows "tree_ok (set_node q m f)"
  by (rule tree_ok_mono [OF assms(1)])
    (use assms in \<open>auto simp: tree_okD(1) is_dir_at_def split: if_splits\<close>)

text \<open>Removing nodes: what is left must not have lost its directory.\<close>

lemma tree_ok_remove:
  assumes "tree_ok f" and "fs_keys g" and "is_dir_at g []"
    and keep: "\<And>p. node_at g p \<noteq> None \<Longrightarrow> node_at f p \<noteq> None"
    and dirs: "\<And>q s. node_at g (q @ [s]) \<noteq> None \<Longrightarrow> is_dir_at f q \<Longrightarrow> is_dir_at g q"
  shows "tree_ok g"
  unfolding tree_ok_def
proof (intro conjI allI impI)
  fix q s assume n: "node_at g (q @ [s]) \<noteq> None"
  show "clean_seg s" by (rule tree_okD(3) [OF assms(1) keep [OF n]])
  show "is_dir_at g q" by (rule dirs [OF n tree_okD(4) [OF assms(1) keep [OF n]]])
qed (fact assms)+

lemma in_children_iff: "s \<in> set (children f q) \<longleftrightarrow> node_at f (q @ [s]) \<noteq> None"
proof -
  have "p \<noteq> [] \<and> butlast p = q \<and> s = last p \<longleftrightarrow> p = q @ [s]" for p
    by (cases p rule: rev_cases) auto
  then have "s \<in> last ` {p \<in> K. p \<noteq> [] \<and> butlast p = q} \<longleftrightarrow> q @ [s] \<in> K" for K
    by (simp add: image_iff)
  then show ?thesis by (simp only: children_def set_map set_filter node_at_def mget_None_iff not_not)
qed

lemma append_butlast_last_eq: "a \<noteq> [] \<Longrightarrow> b \<noteq> [] \<Longrightarrow> butlast a = butlast b \<Longrightarrow> last a = last b \<Longrightarrow> a = b"
  by (cases a rule: rev_cases; cases b rule: rev_cases) auto

lemma distinct_children: "fs_keys f \<Longrightarrow> distinct (children f q)"
  unfolding children_def fs_keys_def distinct_map [of last]
  by (intro conjI distinct_filter inj_onI) (simp_all add: append_butlast_last_eq)

lemma tree_ok_drop_leaf:
  assumes "tree_ok f" and "q \<noteq> []" and "\<And>s. node_at f (q @ [s]) = None"
  shows "tree_ok (drop_node q f)"
  by (rule tree_ok_remove [OF assms(1)])
    (use assms tree_okD(1,2) [OF assms(1)] in \<open>auto simp: is_dir_at_def split: if_splits\<close>)

lemma node_at_filter:
  "node_at (f\<lparr>nodes := filter (\<lambda>(p, n). \<not> prefix q p) (nodes f)\<rparr>) p =
     (if prefix q p then None else node_at f p)"
proof -
  have "map_of (filter (\<lambda>(p, n). \<not> prefix q p) m) p = (if prefix q p then None else map_of m p)"
    for m :: "(ppath, node) jmap"
    by (induction m) auto
  then show ?thesis by (simp add: node_at_def)
qed

lemma node_at_drop_tree:
  "node_at (drop_tree q f) p =
     (if prefix q p then None
      else if p = butlast q \<and> is_dir_at f p then Some (Dir, now f) else node_at f p)"
  by (auto simp: drop_tree_def node_at_stamp_dir node_at_filter is_dir_at_def)

lemma tree_ok_drop_tree:
  assumes "tree_ok f" and "q \<noteq> []"
  shows "tree_ok (drop_tree q f)"
  unfolding drop_tree_def
proof (rule tree_ok_stamp, rule tree_ok_remove [OF assms(1)])
  let ?g = "f\<lparr>nodes := filter (\<lambda>(p, n). \<not> prefix q p) (nodes f)\<rparr>"
  show "fs_keys ?g" using tree_okD(1) [OF assms(1)] by (simp add: fs_keys_def distinct_map_filter)
  show "is_dir_at ?g []" using tree_okD(2) [OF assms(1)] assms(2)
    by (simp add: is_dir_at_def node_at_filter)
  show "node_at f p \<noteq> None" if "node_at ?g p \<noteq> None" for p
    using that by (simp add: node_at_filter split: if_splits)
  show "is_dir_at ?g p" if "node_at ?g (p @ [s]) \<noteq> None" "is_dir_at f p" for p s
    using that by (auto simp: is_dir_at_def node_at_filter split: if_splits)
qed

section \<open>Where a path leads\<close>

definition link_at :: "fs \<Rightarrow> ppath \<Rightarrow> bool" where
  "link_at f q \<longleftrightarrow> (case node_at f q of None \<Rightarrow> False | Some n \<Rightarrow> is_link n)"

text \<open>
  A path that the kernel found is either a node or a new name in a directory.
\<close>

definition placed :: "fs \<Rightarrow> ppath \<Rightarrow> bool" where
  "placed f q \<longleftrightarrow> node_at f q \<noteq> None \<or> (\<exists>p s. q = p @ [s] \<and> is_dir_at f p \<and> clean_seg s)"

lemma is_dir_at_butlast:
  assumes "tree_ok f" and "is_dir_at f q"
  shows "is_dir_at f (butlast q)"
proof (cases q rule: rev_cases)
  case Nil
  with assms(2) show ?thesis by simp
next
  case (snoc p s)
  with assms(2) have "node_at f (p @ [s]) \<noteq> None" by (auto simp: is_dir_at_Some)
  with snoc show ?thesis using tree_okD(4) [OF assms(1)] by simp
qed

lemma walk_placed:
  "walk fuel (nodes f) follow cur ss = Inr q \<Longrightarrow> tree_ok f \<Longrightarrow> is_dir_at f cur \<Longrightarrow>
     \<forall>s \<in> set ss. slash \<notin> set s \<Longrightarrow> placed f q"
proof (induction fuel "nodes f" follow cur ss arbitrary: q rule: walk.induct)
  case (1 fuel follow cur)
  then show ?case by (auto simp: placed_def is_dir_at_Some)
next
  case (2 fuel follow cur s ss)
  have ss: "\<forall>s \<in> set ss. slash \<notin> set s" and s: "slash \<notin> set s" using "2.prems"(4) by auto
  consider "s = [] \<or> s = ''.''" | "s = ''..''" | "clean_seg s"
    using s by (auto simp: clean_seg_def)
  then show ?case
  proof cases
    case 1
    with "2.prems" show ?thesis using "2.hyps"(1) ss by (auto split: if_splits)
  next
    case 2
    with "2.prems" have "walk fuel (nodes f) follow (butlast cur) ss = Inr q" by simp
    with 2 show ?thesis
      using "2.hyps"(2) "2.prems" ss is_dir_at_butlast by auto
  next
    case 3
    show ?thesis
    proof (cases "mget (nodes f) (cur @ [s])")
      case None
      with 3 "2.prems"(1) have "ss = []" and "q = cur @ [s]"
        by (auto simp: clean_seg_def split: if_splits)
      with 3 "2.prems"(3) show ?thesis by (auto simp: placed_def)
    next
      case (Some n)
      then have n: "node_at f (cur @ [s]) = Some n" by (simp add: node_at_def)
      obtain k t where kt: "n = (k, t)" by (cases n)
      show ?thesis
      proof (cases k)
        case Dir
        with 3 Some kt "2.prems"(1) have "walk fuel (nodes f) follow (cur @ [s]) ss = Inr q"
          by (auto simp: clean_seg_def)
        with 3 Some kt Dir n show ?thesis
          using "2.hyps"(3) "2.prems" ss by (auto simp: clean_seg_def is_dir_at_Some)
      next
        case (Symlink tg)
        show ?thesis
        proof (cases "ss = [] \<and> \<not> follow")
          case True
          with 3 Some kt Symlink "2.prems"(1) have "q = cur @ [s]" by (auto simp: clean_seg_def)
          with n show ?thesis by (simp add: placed_def)
        next
          case False
          with 3 Some kt Symlink "2.prems"(1) obtain j where j: "fuel = Suc j"
            and w: "walk j (nodes f) follow (if is_absolute tg then [] else cur)
                (split_on slash tg @ ss) = Inr q"
            by (cases fuel) (auto simp: clean_seg_def)
          have "\<forall>s \<in> set (split_on slash tg @ ss). slash \<notin> set s"
            using ss split_on_no_sep by fastforce
          moreover have "is_dir_at f (if is_absolute tg then [] else cur)"
            using "2.prems"(2,3) tree_okD(2) by auto
          ultimately show ?thesis
            by (intro "2.hyps"(4) [OF _ _ Some kt [symmetric] Symlink False j w "2.prems"(2)])
              (use 3 in \<open>auto simp: clean_seg_def\<close>)
        qed
      next
        case (File b)
        with 3 Some kt "2.prems"(1) have "q = cur @ [s]" by (auto simp: clean_seg_def split: if_splits)
        with n show ?thesis by (simp add: placed_def)
      next
        case Special
        with 3 Some kt "2.prems"(1) have "q = cur @ [s]" by (auto simp: clean_seg_def split: if_splits)
        with n show ?thesis by (simp add: placed_def)
      qed
    qed
  qed
qed

lemma locate_placed: "locate f follow p = Inr q \<Longrightarrow> tree_ok f \<Longrightarrow> placed f q"
  unfolding locate_def by (rule walk_placed) (auto simp: tree_okD dest: split_on_no_sep)

text \<open>
  Without links on the way, a clean path leads to itself; an existing node has none.
\<close>

lemma walk_direct:
  "walk fuel (nodes f) follow cur ss = Inr q \<Longrightarrow> clean ss \<Longrightarrow>
     (\<And>r. prefix cur r \<Longrightarrow> r \<noteq> cur \<Longrightarrow> strict_prefix r (cur @ ss) \<Longrightarrow> \<not> link_at f r) \<Longrightarrow>
     (follow \<Longrightarrow> \<not> link_at f (cur @ ss)) \<Longrightarrow> q = cur @ ss"
proof (induction ss arbitrary: cur)
  case Nil
  then show ?case by simp
next
  case (Cons s ss)
  have s: "s \<noteq> []" "s \<noteq> ''.''" "s \<noteq> ''..''" and ss: "clean ss"
    using Cons.prems(2) by (auto simp: clean_seg_def)
  have no_link: "\<not> link_at f (cur @ [s])" if "follow \<or> ss \<noteq> []"
  proof (cases "ss = []")
    case True
    with that Cons.prems(4) show ?thesis by simp
  next
    case False
    then show ?thesis by (intro Cons.prems(3)) (auto simp: strict_prefix_def)
  qed
  show ?case
  proof (cases "mget (nodes f) (cur @ [s])")
    case None
    with Cons.prems(1) s show ?thesis by (auto split: if_splits)
  next
    case (Some n)
    then have n: "node_at f (cur @ [s]) = Some n" by (simp add: node_at_def)
    obtain k t where kt: "n = (k, t)" by (cases n)
    show ?thesis
    proof (cases k)
      case Dir
      with Some kt s Cons.prems(1) have w: "walk fuel (nodes f) follow (cur @ [s]) ss = Inr q" by simp
      have "q = (cur @ [s]) @ ss"
      proof (rule Cons.IH [OF w ss])
        show "\<not> link_at f r" if "prefix (cur @ [s]) r" "r \<noteq> cur @ [s]" "strict_prefix r ((cur @ [s]) @ ss)" for r
          using that by (intro Cons.prems(3)) (auto simp: prefix_def)
        show "\<not> link_at f ((cur @ [s]) @ ss)" if follow
          using Cons.prems(4) that by simp
      qed
      then show ?thesis by simp
    next
      case (Symlink tg)
      then have "link_at f (cur @ [s])" using n kt by (simp add: link_at_def)
      with no_link Some kt s Symlink Cons.prems(1) show ?thesis by (auto split: if_splits)
    next
      case (File b)
      with Some kt s Cons.prems(1) show ?thesis by (auto split: if_splits)
    next
      case Special
      with Some kt s Cons.prems(1) show ?thesis by (auto split: if_splits)
    qed
  qed
qed

lemma walk_dirs:
  "clean ss \<Longrightarrow> (\<And>r. prefix cur r \<Longrightarrow> r \<noteq> cur \<Longrightarrow> strict_prefix r (cur @ ss) \<Longrightarrow> is_dir_at f r) \<Longrightarrow>
     (follow \<Longrightarrow> \<not> link_at f (cur @ ss)) \<Longrightarrow> walk fuel (nodes f) follow cur ss = Inr (cur @ ss)"
proof (induction ss arbitrary: cur)
  case Nil
  then show ?case by simp
next
  case (Cons s ss)
  have s: "s \<noteq> []" "s \<noteq> ''.''" "s \<noteq> ''..''" and ss: "clean ss"
    using Cons.prems(1) by (auto simp: clean_seg_def)
  show ?case
  proof (cases "ss = []")
    case True
    then show ?thesis
      using s Cons.prems(3)
      by (cases "mget (nodes f) (cur @ [s])")
        (auto simp: link_at_def node_at_def split: prod.split kind.split)
  next
    case False
    have "is_dir_at f (cur @ [s])"
      using False by (intro Cons.prems(2)) (auto simp: strict_prefix_def)
    then obtain t where t: "mget (nodes f) (cur @ [s]) = Some (Dir, t)"
      by (auto simp: is_dir_at_Some node_at_def)
    have "walk fuel (nodes f) follow (cur @ [s]) ss = Inr ((cur @ [s]) @ ss)"
    proof (rule Cons.IH [OF ss])
      show "is_dir_at f r" if "prefix (cur @ [s]) r" "r \<noteq> cur @ [s]" "strict_prefix r ((cur @ [s]) @ ss)" for r
        using that by (intro Cons.prems(2)) (auto simp: prefix_def)
      show "\<not> link_at f ((cur @ [s]) @ ss)" if follow
        using Cons.prems(3) that by simp
    qed
    with t s show ?thesis by simp
  qed
qed

lemma locate_abs: "clean p \<Longrightarrow> locate f follow (abs_path p) = walk max_links (nodes f) follow [] p"
  by (cases "p = []") (simp_all add: locate_def split_abs_path)

text \<open>\<open>link_free f p\<close>: no component of the path before its last one is a symbolic link.\<close>

definition link_free :: "fs \<Rightarrow> ppath \<Rightarrow> bool" where
  "link_free f p \<longleftrightarrow> (\<forall>r. strict_prefix r p \<longrightarrow> \<not> link_at f r)"

lemma locate_link_free:
  assumes "clean p" and "link_free f p" and "follow \<Longrightarrow> \<not> link_at f p"
    and "locate f follow (abs_path p) = Inr q"
  shows "q = p"
proof -
  have "q = [] @ p"
  proof (rule walk_direct)
    show "walk max_links (nodes f) follow [] p = Inr q" using assms(1,4) by (simp add: locate_abs)
    show "\<not> link_at f r" if "strict_prefix r ([] @ p)" for r
      using assms(2) that by (simp add: link_free_def)
  qed (use assms in auto)
  then show ?thesis by simp
qed

lemma prefix_is_dir:
  assumes "tree_ok f" and "node_at f p \<noteq> None" and "strict_prefix q p"
  shows "is_dir_at f q"
  using assms(2,3)
proof (induction p rule: rev_induct)
  case Nil
  then show ?case by simp
next
  case (snoc s p)
  have d: "is_dir_at f p" by (rule tree_okD(4) [OF assms(1) snoc.prems(1)])
  from snoc.prems(2) have "q = p \<or> strict_prefix q p" by (auto simp: strict_prefix_def)
  with d snoc.IH show ?case by (auto simp: is_dir_at_Some)
qed

lemma clean_node:
  assumes "tree_ok f" and "node_at f p \<noteq> None"
  shows "clean p"
  using assms(2)
proof (induction p rule: rev_induct)
  case (snoc s p)
  have "is_dir_at f p" by (rule tree_okD(4) [OF assms(1) snoc.prems])
  with snoc.IH tree_okD(3) [OF assms(1) snoc.prems] show ?case by (auto simp: is_dir_at_Some)
qed simp

lemma dir_not_link: "is_dir_at f q \<Longrightarrow> \<not> link_at f q"
  by (auto simp: is_dir_at_Some link_at_def)

lemma node_link_free: "tree_ok f \<Longrightarrow> node_at f p \<noteq> None \<Longrightarrow> link_free f p"
  unfolding link_free_def using prefix_is_dir dir_not_link by blast

lemma locate_node:
  assumes "tree_ok f" and "node_at f p \<noteq> None" and "follow \<Longrightarrow> \<not> link_at f p"
  shows "locate f follow (abs_path p) = Inr p"
proof -
  have c: "clean p" by (rule clean_node [OF assms(1,2)])
  have "walk max_links (nodes f) follow [] p = Inr ([] @ p)"
    by (rule walk_dirs [OF c]) (use assms prefix_is_dir in auto)
  then show ?thesis by (simp add: locate_abs [OF c])
qed

lemma locate_new:
  assumes "tree_ok f" and "is_dir_at f p" and "clean_seg s" and "node_at f (p @ [s]) = None"
  shows "locate f follow (abs_path (p @ [s])) = Inr (p @ [s])"
proof -
  have np: "node_at f p \<noteq> None" using assms(2) by (auto simp: is_dir_at_Some)
  have c: "clean (p @ [s])" using clean_node [OF assms(1) np] assms(3) by simp
  have "walk max_links (nodes f) follow [] (p @ [s]) = Inr ([] @ (p @ [s]))"
  proof (rule walk_dirs [OF c])
    show "is_dir_at f r" if "strict_prefix r ([] @ (p @ [s]))" for r
    proof -
      from that have "r = p \<or> strict_prefix r p" by (auto simp: strict_prefix_def)
      then show ?thesis using assms(2) prefix_is_dir [OF assms(1) np] by blast
    qed
    show "\<not> link_at f ([] @ (p @ [s]))" using assms(4) by (simp add: link_at_def)
  qed
  then show ?thesis by (simp add: locate_abs [OF c])
qed

section \<open>Every operation keeps the tree\<close>

lemma tree_ok_put_new:
  assumes "tree_ok f" and "placed f q" and "node_at f q = None"
  shows "tree_ok (put_entry q k f)"
proof -
  obtain p s where "q = p @ [s]" "is_dir_at f p" "clean_seg s"
    using assms(2,3) by (auto simp: placed_def)
  then show ?thesis
    using tree_ok_put_entry [OF assms(1)] assms(3) by (auto simp: is_dir_at_Some)
qed

lemma mkdirSync_ok:
  assumes "mkdirSync f p = Inr g" and "tree_ok f"
  shows "tree_ok g"
  using assms by (auto simp: mkdirSync_def split: sum.splits if_splits
      intro!: tree_ok_put_new dest: locate_placed)

lemma mkdirs_ok: "mkdirs f pre ss = Inr g \<Longrightarrow> tree_ok f \<Longrightarrow> tree_ok g"
  by (induction f pre ss rule: mkdirs.induct)
    (auto split: sum.splits if_splits errno.splits dest: mkdirSync_ok)

lemma mkdir_recursive_ok: "mkdir_recursive f p = Inr g \<Longrightarrow> tree_ok f \<Longrightarrow> tree_ok g"
  unfolding mkdir_recursive_def by (rule mkdirs_ok)

lemma writeFileSync_ok:
  assumes "writeFileSync f p b = Inr g" and "tree_ok f"
  shows "tree_ok g"
proof -
  obtain q where q: "locate f True p = Inr q" using assms(1)
    by (auto simp: writeFileSync_def split: sum.splits)
  show ?thesis
  proof (cases "node_at f q")
    case None
    with assms q show ?thesis
      by (auto simp: writeFileSync_def intro!: tree_ok_put_new dest: locate_placed)
  next
    case (Some n)
    with assms q show ?thesis
      by (auto simp: writeFileSync_def split: prod.splits kind.splits intro!: tree_ok_set_file)
  qed
qed

lemma not_dir_no_children:
  assumes "tree_ok f" and "\<not> is_dir_at f q"
  shows "node_at f (q @ [s]) = None"
  using tree_okD(4) [OF assms(1)] assms(2) by blast

lemma children_empty: "children f q = [] \<longleftrightarrow> (\<forall>s. node_at f (q @ [s]) = None)"
  using in_children_iff [of _ f q] by (metis list.set_intros(1) neq_Nil_conv empty_iff empty_set)

lemma unlinkSync_ok:
  assumes "unlinkSync f p = Inr g" and "tree_ok f"
  shows "tree_ok g"
proof -
  obtain q n where q: "node_at f q = Some n" "\<not> is_dir n" "g = stamp_dir (butlast q) (drop_node q f)"
    using assms(1) by (auto simp: unlinkSync_def split: sum.splits option.splits if_splits)
  have nd: "\<not> is_dir_at f q" using q by (simp add: is_dir_at_def)
  then have "q \<noteq> []" using tree_okD(2) [OF assms(2)] by auto
  then have "tree_ok (drop_node q f)"
    using not_dir_no_children [OF assms(2) nd] by (intro tree_ok_drop_leaf [OF assms(2)])
  with q(3) show ?thesis by blast
qed

lemma rmdirSync_ok:
  assumes "rmdirSync f p = Inr g" and "tree_ok f"
  shows "tree_ok g"
proof -
  obtain q where q: "q \<noteq> []" "children f q = []" "g = stamp_dir (butlast q) (drop_node q f)"
    using assms(1) by (auto simp: rmdirSync_def split: sum.splits option.splits if_splits)
  from q(2) have leaf: "node_at f (q @ [s]) = None" for s unfolding children_empty by blast
  show ?thesis unfolding q(3) by (intro tree_ok_stamp tree_ok_drop_leaf [OF assms(2) q(1) leaf])
qed

lemma rm_recursive_ok:
  assumes "rm_recursive force f p = Inr g" and "tree_ok f"
  shows "tree_ok g"
  using assms
  by (auto simp: rm_recursive_def split: sum.splits option.splits if_splits intro: tree_ok_drop_tree)

text \<open>The move: what was at and below \<open>a\<close> is at and below \<open>b\<close>.\<close>

definition moved :: "ppath \<Rightarrow> ppath \<Rightarrow> fs \<Rightarrow> fs" where
  "moved a b f =
     f\<lparr>nodes := map (\<lambda>(p, n). (if prefix a p then b @ drop (length a) p else p, n)) (nodes f)\<rparr>"

lemma prefix_drop: "prefix a p \<Longrightarrow> a @ drop (length a) p = p"
  by (auto simp: prefix_def)

lemma node_at_moved:
  assumes "\<And>r. prefix b r \<Longrightarrow> node_at f r = None" and "\<not> prefix a b"
  shows "node_at (moved a b f) r =
    (if prefix b r then node_at f (a @ drop (length b) r) else if prefix a r then None else node_at f r)"
proof -
  have "map_of (map (\<lambda>(p, n). (if prefix a p then b @ drop (length a) p else p, n)) m) r =
      (if prefix b r then map_of m (a @ drop (length b) r) else if prefix a r then None else map_of m r)"
    if "\<And>p. p \<in> set (mkeys m) \<Longrightarrow> \<not> prefix b p" for m :: "(ppath, node) jmap"
    using that
  proof (induction m)
    case Nil
    then show ?case by simp
  next
    case (Cons e m)
    obtain p n where e: "e = (p, n)" by (cases e)
    have np: "\<not> prefix b p" using Cons.prems [of p] e by simp
    have "r = b @ drop (length a) p \<longleftrightarrow> prefix b r \<and> a @ drop (length b) r = p" if "prefix a p"
      using that by (auto simp: prefix_def)
    moreover have "r = p \<Longrightarrow> \<not> prefix b r" using np by simp
    ultimately show ?case
      using Cons by (auto simp: e)
  qed
  moreover have "\<not> prefix b p" if "p \<in> set (mkeys (nodes f))" for p
    using that assms(1) [of p] by (auto simp: node_at_def map_of_eq_None_iff)
  ultimately show ?thesis by (simp add: node_at_def moved_def)
qed

lemma fs_keys_moved:
  assumes "fs_keys f" and "\<And>r. prefix b r \<Longrightarrow> node_at f r = None"
  shows "fs_keys (moved a b f)"
proof -
  let ?h = "\<lambda>p. if prefix a p then b @ drop (length a) p else p"
  have nb: "\<not> prefix b p" if "p \<in> set (mkeys (nodes f))" for p
    using that assms(2) [of p] by (auto simp: node_at_def map_of_eq_None_iff)
  have "inj_on ?h (set (mkeys (nodes f)))"
  proof (rule inj_onI)
    fix x y assume x: "x \<in> set (mkeys (nodes f))" and y: "y \<in> set (mkeys (nodes f))" and e: "?h x = ?h y"
    show "x = y"
    proof (cases "prefix a x"; cases "prefix a y")
      assume "prefix a x" "prefix a y"
      with e show ?thesis by (metis prefix_drop same_append_eq)
    next
      assume "prefix a x" "\<not> prefix a y"
      with e have "prefix b y" by auto
      with nb [OF y] show ?thesis by simp
    next
      assume "\<not> prefix a x" "prefix a y"
      with e have "prefix b x" by (auto simp: prefix_def)
      with nb [OF x] show ?thesis by simp
    qed (use e in auto)
  qed
  moreover have "mkeys (nodes (moved a b f)) = map ?h (mkeys (nodes f))"
    by (auto simp: moved_def)
  moreover have "distinct (mkeys (nodes f))" using assms(1) by (simp add: fs_keys_def)
  ultimately show ?thesis
    unfolding fs_keys_def by (simp only: distinct_map [of ?h])
qed

lemma tree_ok_moved:
  assumes f: "tree_ok f" and free: "\<And>r. prefix b r \<Longrightarrow> node_at f r = None"
    and ab: "\<not> prefix a b" and b: "b = c @ [s]" "is_dir_at f c" "clean_seg s" and "a \<noteq> []"
  shows "tree_ok (moved a b f)"
  unfolding tree_ok_def
proof (intro conjI allI impI)
  note nm = node_at_moved [where b = b, OF free ab]
  have dir: "is_dir_at (moved a b f) q" if "is_dir_at f q" "\<not> prefix a q" for q
    using that nm free [of q] by (auto simp: is_dir_at_def)
  show "fs_keys (moved a b f)" using fs_keys_moved [OF tree_okD(1) [OF f] free] .
  show "is_dir_at (moved a b f) []" using dir tree_okD(2) [OF f] \<open>a \<noteq> []\<close> by simp
  fix q t assume n: "node_at (moved a b f) (q @ [t]) \<noteq> None"
  have *: "clean_seg t \<and> is_dir_at (moved a b f) q"
  proof (cases "prefix b (q @ [t])")
    case True
    show ?thesis
    proof (cases "b = q @ [t]")
      case True
      with b ab have "q = c" "t = s" "\<not> prefix a q" by (auto simp: prefix_def)
      with b dir show ?thesis by simp
    next
      case False
      with True have pq: "prefix b q" by (auto simp: prefix_snoc)
      with n nm have "node_at f ((a @ drop (length b) q) @ [t]) \<noteq> None"
        using True by (auto simp: prefix_length_le)
      with tree_okD(3,4) [OF f this] pq nm show ?thesis by (simp add: is_dir_at_def)
    qed
  next
    case False
    with n nm have "\<not> prefix a (q @ [t])" "node_at f (q @ [t]) \<noteq> None" by (auto split: if_splits)
    with tree_okD(3,4) [OF f this(2)] dir show ?thesis by (auto simp: prefix_snoc)
  qed
  then show "clean_seg t" and "is_dir_at (moved a b f) q" by auto
qed

lemma move_tree_moved: "move_tree a b f = stamp_dir (butlast b) (stamp_dir (butlast a) (moved a b f))"
  by (simp add: move_tree_def moved_def)

text \<open>Nothing lives below a place that is not a directory with entries.\<close>

lemma below_empty:
  assumes "tree_ok f" and "\<And>s. node_at f (b @ [s]) = None" and "strict_prefix b r"
  shows "node_at f r = None"
proof (rule ccontr)
  assume r: "node_at f r \<noteq> None"
  obtain s t where "r = (b @ [s]) @ t"
    using assms(3) by (auto simp: strict_prefix_def prefix_def) (metis append_Cons append_Nil neq_Nil_conv)
  then have "b @ [s] = r \<or> strict_prefix (b @ [s]) r"
    by (auto simp: strict_prefix_def simp del: append_assoc)
  with r prefix_is_dir [OF assms(1) r, of "b @ [s]"] assms(2) [of s] show False
    by (auto simp: is_dir_at_Some)
qed

lemma renameSync_ok:
  assumes "renameSync f p1 p2 = Inr g" and f: "tree_ok f"
  shows "tree_ok g"
proof -
  obtain a b n where a: "locate f False p1 = Inr a" and b: "locate f False p2 = Inr b"
    and n: "node_at f a = Some n" using assms(1)
    by (auto simp: renameSync_def split: sum.splits option.splits)
  show ?thesis
  proof (cases "a = b")
    case True
    with assms a b n show ?thesis by (simp add: renameSync_def)
  next
    case False
    with assms(1) a b n have ab: "\<not> prefix a b" by (auto simp: renameSync_def)
    then have "a \<noteq> []" by auto
    have pb: "placed f b" using b f by (rule locate_placed)
    show ?thesis
    proof (cases "node_at f b")
      case None
      with assms(1) a b n False ab have g: "g = move_tree a b f" by (simp add: renameSync_def)
      obtain c s where c: "b = c @ [s]" "is_dir_at f c" "clean_seg s"
        using pb None by (auto simp: placed_def)
      have free: "node_at f r = None" if "prefix b r" for r
        using that None below_empty [OF f, of b r] not_dir_no_children [OF f, of b]
        by (cases "r = b") (auto simp: is_dir_at_def strict_prefix_def)
      show ?thesis unfolding g move_tree_moved
        by (intro tree_ok_stamp tree_ok_moved [OF f free ab c]) (use \<open>a \<noteq> []\<close> in auto)
    next
      case (Some m)
      with assms(1) a b n False ab have g: "g = move_tree a b (drop_node b f)"
        and m: "is_dir m \<Longrightarrow> children f b = []" and ba: "\<not> prefix b a"
        by (auto simp: renameSync_def split: if_splits)
      have leaf: "node_at f (b @ [s]) = None" for s
        using m Some not_dir_no_children [OF f, of b s] by (auto simp: is_dir_at_def children_empty)
      have "b \<noteq> []" using ba by auto
      then have f': "tree_ok (drop_node b f)" by (rule tree_ok_drop_leaf [OF f _ leaf])
      obtain c s where bc: "b = c @ [s]" using \<open>b \<noteq> []\<close> by (cases b rule: rev_cases) auto
      with Some tree_okD(3,4) [OF f, of c s] have "is_dir_at f c" "clean_seg s" by auto
      with bc have c: "b = c @ [s]" "is_dir_at (drop_node b f) c" "clean_seg s"
        by (auto simp: is_dir_at_def)
      have free: "node_at (drop_node b f) r = None" if "prefix b r" for r
        using that below_empty [OF f leaf, of r] by (auto simp: strict_prefix_def)
      show ?thesis unfolding g move_tree_moved
        by (intro tree_ok_stamp tree_ok_moved [OF f' free ab c]) (use \<open>a \<noteq> []\<close> in auto)
    qed
  qed
qed

end
