(* ===== verification/FileOps.thy ===== *)
theory FileOps
  imports FileSystem
begin

text \<open>
  The operations of the file system on paths that no symbolic link diverts: on such a path the
  kernel arrives where the text of the path says, so each operation has a specification on the
  map of nodes alone. \<open>no_links f p\<close> says that neither the path nor a directory on the way is a
  link; \<open>grows\<close> and the frame lemmas say what an operation leaves alone.
\<close>

definition no_links :: "fs \<Rightarrow> ppath \<Rightarrow> bool" where
  "no_links f p \<longleftrightarrow> (\<forall>r. prefix r p \<longrightarrow> \<not> link_at f r)"

text \<open>Both predicates, and \<open>tree_ok\<close>, in a form that evaluates.\<close>

lemma no_links_code [code]: "no_links f p \<longleftrightarrow> (\<forall>r \<in> set (prefixes p). \<not> link_at f r)"
  by (auto simp: no_links_def)

lemma tree_ok_code [code]:
  "tree_ok f \<longleftrightarrow> fs_keys f \<and> is_dir_at f [] \<and>
     (\<forall>p \<in> set (mkeys (nodes f)). p = [] \<or> clean_seg (last p) \<and> is_dir_at f (butlast p))"
proof -
  have "(\<forall>q s. node_at f (q @ [s]) \<noteq> None \<longrightarrow> clean_seg s \<and> is_dir_at f q) \<longleftrightarrow>
      (\<forall>p. node_at f p \<noteq> None \<longrightarrow> p = [] \<or> clean_seg (last p) \<and> is_dir_at f (butlast p))"
    by (metis append_butlast_last_id butlast_snoc last_snoc snoc_eq_iff_butlast)
  then show ?thesis
    by (simp only: tree_ok_def node_at_def mget_None_iff not_not) blast
qed

lemma no_links_prefix: "no_links f p \<Longrightarrow> prefix q p \<Longrightarrow> no_links f q"
  unfolding no_links_def by (meson prefix_order.trans)

lemma no_links_free: "no_links f p \<Longrightarrow> link_free f p"
  unfolding no_links_def link_free_def by (simp add: strict_prefix_def)

lemma no_links_self: "no_links f p \<Longrightarrow> \<not> link_at f p"
  unfolding no_links_def by simp

lemma link_at_Some: "link_at f q \<longleftrightarrow> (\<exists>tg t. node_at f q = Some (Symlink tg, t))"
  by (auto simp: link_at_def split: option.splits elim: is_link.elims)

lemma is_link_iff: "is_link n \<longleftrightarrow> (\<exists>t. fst n = Symlink t)"
  by (cases n; cases "fst n") auto

lemma is_file_iff: "is_file n \<longleftrightarrow> (\<exists>b. fst n = File b)"
  by (cases n; cases "fst n") auto

lemma not_prefix_butlast: "p \<noteq> [] \<Longrightarrow> \<not> prefix p (butlast p)"
  using prefix_length_le [of p "butlast p"] by (cases p) auto

section \<open>Looking\<close>

lemma stat_node:
  assumes "tree_ok f" and "node_at f p = Some n" and "follow \<Longrightarrow> \<not> is_link n"
  shows "stat_with follow f (abs_path p) = Inr n"
proof -
  have "locate f follow (abs_path p) = Inr p"
    using assms by (intro locate_node) (auto simp: link_at_def)
  with assms(2) show ?thesis by (simp add: stat_with_def)
qed

lemma stat_new:
  assumes "tree_ok f" and "is_dir_at f p" and "clean_seg s" and "node_at f (p @ [s]) = None"
  shows "stat_with follow f (abs_path (p @ [s])) = Inl ENOENT"
  using locate_new [OF assms] assms(4) by (simp add: stat_with_def)

lemma stat_Inr:
  assumes "clean p" and "link_free f p" and "follow \<Longrightarrow> \<not> link_at f p"
    and "stat_with follow f (abs_path p) = Inr n"
  shows "node_at f p = Some n"
proof -
  obtain q where q: "locate f follow (abs_path p) = Inr q" "node_at f q = Some n"
    using assms(4) by (auto simp: stat_with_def split: sum.splits option.splits)
  then have "q = p" by (intro locate_link_free [OF assms(1-2), of follow]) (use assms(3) in auto)
  with q show ?thesis by simp
qed

lemma stat_None:
  assumes "tree_ok f" and "stat_with False f (abs_path p) = Inl e"
  shows "node_at f p = None"
  using stat_node [OF assms(1), of p _ False] assms(2) by (cases "node_at f p") auto

section \<open>Making directories\<close>

definition grows :: "fs \<Rightarrow> fs \<Rightarrow> bool" where
  "grows f g \<longleftrightarrow> now g = now f \<and> (\<forall>p k t. node_at f p = Some (k, t) \<longrightarrow> (\<exists>t'. node_at g p = Some (k, t')))"

lemma grows_refl [simp]: "grows f f"
  by (simp add: grows_def)

lemma grows_trans [trans]: "grows f g \<Longrightarrow> grows g k \<Longrightarrow> grows f k"
  unfolding grows_def by metis

lemma now_put_entry [simp]: "now (put_entry q k f) = now f"
  by (simp add: put_entry_def)

lemma grows_put_entry:
  assumes "node_at f q = None"
  shows "grows f (put_entry q k f)"
  using assms by (auto simp: grows_def node_at_put_entry is_dir_at_Some)

lemma no_links_put_dir:
  assumes "no_links f p"
  shows "no_links (put_entry q Dir f) p"
  using assms unfolding no_links_def
  by (auto simp: link_at_Some node_at_put_entry split: if_splits)

lemma mkdirSync_new:
  assumes "tree_ok f" and "is_dir_at f p" and "clean_seg s" and "node_at f (p @ [s]) = None"
  shows "mkdirSync f (abs_path (p @ [s])) = Inr (put_entry (p @ [s]) Dir f)"
  using locate_new [OF assms] assms(4) by (simp add: mkdirSync_def)

lemma mkdirSync_taken:
  assumes "tree_ok f" and "node_at f p \<noteq> None"
  shows "mkdirSync f (abs_path p) = Inl EEXIST"
  using locate_node [OF assms, of False] assms(2) by (auto simp: mkdirSync_def)

lemma mkdirs_spec:
  assumes "mkdirs f pre ss = Inr g" and "tree_ok f" and "clean ss" and "is_dir_at f pre"
    and "no_links f (pre @ ss)"
  shows "is_dir_at g (pre @ ss) \<and> grows f g \<and>
    (\<forall>p. \<not> prefix p (pre @ ss) \<longrightarrow> node_at g p = node_at f p)"
  using assms
proof (induction ss arbitrary: f pre)
  case (Cons s ss)
  let ?p = "pre @ [s]"
  have c: "clean_seg s" "clean ss" using Cons.prems(3) by simp_all
  have nl: "no_links f (?p @ ss)" using Cons.prems(5) by simp
  then have nlp: "\<not> link_at f ?p" unfolding no_links_def by simp
  show ?case
  proof (cases "node_at f ?p")
    case (Some n)
    then have "statSync f (abs_path ?p) = Inr n"
      using nlp Cons.prems(2) by (intro stat_node) (auto simp: link_at_def)
    with Cons.prems(1) have "is_dir n" "mkdirs f ?p ss = Inr g" by (auto split: if_splits)
    moreover from this Some have "is_dir_at f ?p" by (simp add: is_dir_at_def)
    ultimately show ?thesis using Cons.IH [of f ?p] Cons.prems(2) c nl by simp
  next
    case None
    note new = Cons.prems(2,4) c(1) None
    let ?f = "put_entry ?p Dir f"
    have m: "mkdirs ?f ?p ss = Inr g"
      using Cons.prems(1) stat_new [OF new, of True] mkdirSync_new [OF new] by simp
    have "tree_ok ?f" using mkdirSync_ok [OF mkdirSync_new [OF new] Cons.prems(2)] .
    moreover have "is_dir_at ?f ?p" by simp
    moreover have "no_links ?f (?p @ ss)" using nl by (rule no_links_put_dir)
    ultimately have *: "is_dir_at g (?p @ ss) \<and> grows ?f g \<and>
        (\<forall>p. \<not> prefix p (?p @ ss) \<longrightarrow> node_at g p = node_at ?f p)"
      using Cons.IH [OF m] c(2) by blast
    have "node_at ?f p = node_at f p" if "\<not> prefix p (?p @ ss)" for p
    proof -
      have "p \<noteq> ?p" "p \<noteq> pre" using that by auto
      then show ?thesis by (simp add: node_at_put_entry)
    qed
    with * grows_trans [OF grows_put_entry [OF None]] show ?thesis by auto
  qed
qed simp

lemma mkdirs_total:
  assumes "tree_ok f" and "clean ss" and "is_dir_at f pre" and "no_links f (pre @ ss)"
    and "\<And>r. prefix r (pre @ ss) \<Longrightarrow> node_at f r \<noteq> None \<Longrightarrow> is_dir_at f r"
  shows "\<exists>g. mkdirs f pre ss = Inr g"
  using assms
proof (induction ss arbitrary: f pre)
  case (Cons s ss)
  let ?p = "pre @ [s]"
  have c: "clean_seg s" "clean ss" using Cons.prems(2) by simp_all
  have nl: "no_links f (?p @ ss)" using Cons.prems(4) by simp
  show ?case
  proof (cases "node_at f ?p")
    case (Some n)
    then have d: "is_dir_at f ?p" using Cons.prems(5) [of ?p] by simp
    with Some have "statSync f (abs_path ?p) = Inr n" "is_dir n"
      using Cons.prems(1) by (auto intro!: stat_node simp: is_dir_at_Some)
    then show ?thesis using Cons.IH [of f ?p] Cons.prems(1,5) c nl d by simp
  next
    case None
    note new = Cons.prems(1,3) c(1) None
    let ?f = "put_entry ?p Dir f"
    have "\<exists>g. mkdirs ?f ?p ss = Inr g"
    proof (rule Cons.IH)
      show "tree_ok ?f" using mkdirSync_ok [OF mkdirSync_new [OF new] Cons.prems(1)] .
      show "no_links ?f (?p @ ss)" using nl by (rule no_links_put_dir)
      show "is_dir_at ?f r" if "prefix r (?p @ ss)" "node_at ?f r \<noteq> None" for r
        using that Cons.prems(5) [of r] put_entry_None [of ?p Dir f r] by auto
    qed (use c in auto)
    then show ?thesis using stat_new [OF new, of True] mkdirSync_new [OF new] by simp
  qed
qed simp

lemma mkdir_recursive_spec:
  assumes "mkdir_recursive f (abs_path p) = Inr g" and "tree_ok f" and "clean p" and "no_links f p"
  shows "is_dir_at g p" and "grows f g" and "\<not> prefix q p \<Longrightarrow> node_at g q = node_at f q"
  using mkdirs_spec [of f "[]" p g] assms tree_okD(2) [OF assms(2)]
  by (auto simp: mkdir_recursive_def segs_of_abs_path)

lemma mkdir_recursive_total:
  assumes "tree_ok f" and "clean p" and "no_links f p"
    and "\<And>r. prefix r p \<Longrightarrow> node_at f r \<noteq> None \<Longrightarrow> is_dir_at f r"
  shows "\<exists>g. mkdir_recursive f (abs_path p) = Inr g"
  using mkdirs_total [of f p "[]"] assms tree_okD(2) [OF assms(1)]
  by (simp add: mkdir_recursive_def segs_of_abs_path)

lemma mkdirs_existing:
  "tree_ok f \<Longrightarrow> is_dir_at f (pre @ ss) \<Longrightarrow> mkdirs f pre ss = Inr f"
proof (induction ss arbitrary: pre)
  case (Cons s ss)
  have n: "node_at f (pre @ s # ss) \<noteq> None" using Cons.prems(2) by (auto simp: is_dir_at_Some)
  have "is_dir_at f (pre @ [s])"
    using prefix_is_dir [OF Cons.prems(1) n, of "pre @ [s]"] Cons.prems(2)
    by (cases "ss = []") (auto simp: strict_prefix_def)
  then obtain t where "node_at f (pre @ [s]) = Some (Dir, t)" by (auto simp: is_dir_at_Some)
  then have "statSync f (abs_path (pre @ [s])) = Inr (Dir, t)"
    using Cons.prems(1) by (intro stat_node) auto
  with Cons show ?case by simp
qed simp

lemma mkdir_recursive_existing:
  assumes "tree_ok f" and "is_dir_at f p"
  shows "mkdir_recursive f (abs_path p) = Inr f"
proof -
  have "clean p" using clean_node [OF assms(1)] assms(2) by (auto simp: is_dir_at_Some)
  then show ?thesis
    using mkdirs_existing [OF assms(1), of "[]" p] assms(2)
    by (simp add: mkdir_recursive_def segs_of_abs_path)
qed

text \<open>Whatever \<open>mkdirSync(p, { recursive: true })\<close> meets, it never takes anything away.\<close>

lemma mkdirSync_grows: "mkdirSync f p = Inr g \<Longrightarrow> grows f g"
  by (auto simp: mkdirSync_def grows_put_entry split: sum.splits if_splits)

lemma mkdirs_grows: "mkdirs f pre ss = Inr g \<Longrightarrow> grows f g"
  by (induction f pre ss rule: mkdirs.induct)
    (auto split: sum.splits if_splits errno.splits dest: mkdirSync_grows intro: grows_trans)

lemma mkdir_recursive_grows: "mkdir_recursive f p = Inr g \<Longrightarrow> grows f g"
  unfolding mkdir_recursive_def by (rule mkdirs_grows)

lemma grows_node: "grows f g \<Longrightarrow> node_at f p = Some n \<Longrightarrow> \<exists>t. node_at g p = Some (fst n, t)"
  unfolding grows_def by (cases n) auto

lemma grows_no_links_back: "grows f g \<Longrightarrow> no_links g p \<Longrightarrow> no_links f p"
  unfolding no_links_def link_at_Some grows_def by metis

section \<open>Reading and writing\<close>

lemma readFileSync_node:
  assumes "tree_ok f" and "node_at f p = Some (File b, t)"
  shows "readFileSync f (abs_path p) = Inr b"
proof -
  have "locate f True (abs_path p) = Inr p"
    using assms by (intro locate_node) (auto simp: link_at_Some)
  with assms(2) show ?thesis by (simp add: readFileSync_def)
qed

lemma writeFileSync_spec:
  assumes "tree_ok f" and "is_dir_at f p" and "clean_seg s"
    and "case node_at f (p @ [s]) of None \<Rightarrow> True | Some n \<Rightarrow> is_file n"
  obtains g where "writeFileSync f (abs_path (p @ [s])) b = Inr g" and "tree_ok g"
    and "node_at g (p @ [s]) = Some (File b, now f)" and "now g = now f"
    and "\<And>q. q \<noteq> p @ [s] \<Longrightarrow> q \<noteq> p \<Longrightarrow> node_at g q = node_at f q"
    and "\<And>q. is_dir_at g q = is_dir_at f q"
proof -
  let ?q = "p @ [s]"
  have l: "locate f True (abs_path ?q) = Inr ?q"
  proof (cases "node_at f ?q = None")
    case True
    then show ?thesis by (rule locate_new [OF assms(1-3)])
  next
    case False
    with assms(4) show ?thesis
      by (intro locate_node [OF assms(1)]) (auto simp: link_at_Some)
  qed
  let ?g = "case node_at f ?q of None \<Rightarrow> put_entry ?q (File b) f | Some _ \<Rightarrow> set_node ?q (File b, now f) f"
  have w: "writeFileSync f (abs_path ?q) b = Inr ?g"
    using l assms(4) by (auto simp: writeFileSync_def is_file_iff split: option.splits)
  have "\<not> is_dir_at f ?q" using assms(4) by (auto simp: is_dir_at_Some)
  then show ?thesis
    by (intro that [OF w writeFileSync_ok [OF w assms(1)]])
      (auto simp: node_at_put_entry split: option.splits)
qed

section \<open>Removing and moving\<close>

lemma readdirSync_node: "tree_ok f \<Longrightarrow> is_dir_at f p \<Longrightarrow> readdirSync f (abs_path p) = Inr (children f p)"
  using locate_node [of f p True] dir_not_link [of f p]
  by (auto simp: readdirSync_def is_dir_at_Some)

lemma unlinkSync_node:
  assumes "tree_ok f" and "node_at f p = Some n" and "\<not> is_dir n"
  shows "unlinkSync f (abs_path p) = Inr (stamp_dir (butlast p) (drop_node p f))"
  using locate_node [of f p False] assms by (simp add: unlinkSync_def)

lemma rmdirSync_node:
  assumes "tree_ok f" and "is_dir_at f p" and "p \<noteq> []" and "children f p = []"
  shows "rmdirSync f (abs_path p) = Inr (stamp_dir (butlast p) (drop_node p f))"
  using locate_node [of f p False] assms by (auto simp: rmdirSync_def is_dir_at_Some)

lemma rm_recursive_node:
  assumes "tree_ok f" and "node_at f p \<noteq> None" and "p \<noteq> []"
  shows "rm_recursive force f (abs_path p) = Inr (drop_tree p f)"
  using locate_node [of f p False] assms by (auto simp: rm_recursive_def)

lemma renameSync_new:
  assumes "tree_ok f" and "node_at f a \<noteq> None" and "is_dir_at f p" and "clean_seg s"
    and "node_at f (p @ [s]) = None"
  shows "renameSync f (abs_path a) (abs_path (p @ [s])) =
    (if prefix a (p @ [s]) then Inl EINVAL else Inr (move_tree a (p @ [s]) f))"
proof -
  have "locate f False (abs_path a) = Inr a" using assms(1,2) by (intro locate_node) auto
  moreover have "locate f False (abs_path (p @ [s])) = Inr (p @ [s])"
    by (rule locate_new [OF assms(1,3-5)])
  ultimately show ?thesis using assms(2,5) by (auto simp: renameSync_def)
qed

end
