(* ===== verification/Codec.thy ===== *)
theory Codec
  imports Prelude "HOL-Library.Word"
begin

text \<open>
  The text encodings of the standard library that files go through: UTF-8 of a JavaScript
  string, as \<open>Buffer.from(s, "utf8")\<close> and \<open>buf.toString("utf8")\<close> compute it (a lone
  surrogate is written as U+FFFD, and each maximal ill-formed part is read as U+FFFD), and
  base64 as \<open>btoa\<close> writes it and \<open>Buffer.from(s, "base64")\<close> reads it (characters outside
  the alphabet are skipped). The web client's \<open>toBase64\<close> is translated here as well, and
  shown to be undone by the reader in the runtime.
\<close>

type_synonym octet = "8 word"
type_synonym text16 = "16 word list"

definition octet_of :: "nat \<Rightarrow> octet" where
  "octet_of n = word_of_nat n"

definition unit_of :: "nat \<Rightarrow> 16 word" where
  "unit_of n = word_of_nat n"

text \<open>A string of the model (code units below 256) as JavaScript text.\<close>

definition text_of :: "string \<Rightarrow> text16" where
  "text_of s = map (\<lambda>c. unit_of (of_char c)) s"

lemma unat_octet [simp]: "n < 256 \<Longrightarrow> unat (octet_of n) = n"
  by (simp add: octet_of_def unat_of_nat)

lemma unat_unit [simp]: "n < 65536 \<Longrightarrow> unat (unit_of n) = n"
  by (simp add: unit_of_def unat_of_nat)

lemma octet_of_unat [simp]: "octet_of (unat b) = b"
  by (simp add: octet_of_def)

lemma unit_of_unat [simp]: "unit_of (unat u) = u"
  by (simp add: unit_of_def)

lemma octet_bound: "unat (b :: octet) < 256"
  by (rule order_less_le_trans [OF unsigned_less]) simp

lemma unit_bound: "unat (u :: 16 word) < 65536"
  by (rule order_less_le_trans [OF unsigned_less]) simp

section \<open>UTF-8\<close>

definition high_surrogate :: "nat \<Rightarrow> bool" where
  "high_surrogate n \<longleftrightarrow> 55296 \<le> n \<and> n < 56320"

definition low_surrogate :: "nat \<Rightarrow> bool" where
  "low_surrogate n \<longleftrightarrow> 56320 \<le> n \<and> n < 57344"

definition code_point_bytes :: "nat \<Rightarrow> octet list" where
  "code_point_bytes c = map octet_of
     (if c < 128 then [c]
      else if c < 2048 then [192 + c div 64, 128 + c mod 64]
      else if c < 65536 then [224 + c div 4096, 128 + c div 64 mod 64, 128 + c mod 64]
      else [240 + c div 262144, 128 + c div 4096 mod 64, 128 + c div 64 mod 64, 128 + c mod 64])"

fun utf8_encode :: "text16 \<Rightarrow> octet list" where
  "utf8_encode [] = []"
| "utf8_encode (u # us) =
     (if high_surrogate (unat u) then
        (case us of
           [] \<Rightarrow> code_point_bytes 65533
         | v # vs \<Rightarrow>
             if low_surrogate (unat v)
             then code_point_bytes (65536 + (unat u - 55296) * 1024 + (unat v - 56320)) @ utf8_encode vs
             else code_point_bytes 65533 @ utf8_encode us)
      else code_point_bytes (if low_surrogate (unat u) then 65533 else unat u) @ utf8_encode us)"

definition units_of :: "nat \<Rightarrow> text16" where
  "units_of c =
     (if c < 65536 then [unit_of c]
      else [unit_of (55296 + (c - 65536) div 1024), unit_of (56320 + (c - 65536) mod 1024)])"

definition cont :: "octet \<Rightarrow> bool" where
  "cont b \<longleftrightarrow> 128 \<le> unat b \<and> unat b < 192"

definition second_ok :: "nat \<Rightarrow> octet \<Rightarrow> bool" where
  "second_ok b0 b \<longleftrightarrow>
     (if b0 = 224 then 160 \<le> unat b \<and> unat b < 192
      else if b0 = 237 then 128 \<le> unat b \<and> unat b < 160
      else if b0 = 240 then 144 \<le> unat b \<and> unat b < 192
      else if b0 = 244 then 128 \<le> unat b \<and> unat b < 144
      else cont b)"

fun utf8_decode :: "octet list \<Rightarrow> text16" where
  "utf8_decode [] = []"
| "utf8_decode (b0 # bs) =
     (let n = unat b0 in
      if n < 128 then unit_of n # utf8_decode bs
      else if 194 \<le> n \<and> n < 224 then
        (case bs of
           b1 # r1 \<Rightarrow>
             if cont b1 then units_of ((n - 192) * 64 + (unat b1 - 128)) @ utf8_decode r1
             else unit_of 65533 # utf8_decode bs
         | [] \<Rightarrow> [unit_of 65533])
      else if 224 \<le> n \<and> n < 240 then
        (case bs of
           b1 # r1 \<Rightarrow>
             if second_ok n b1 then
               (case r1 of
                  b2 # r2 \<Rightarrow>
                    if cont b2
                    then units_of ((n - 224) * 4096 + (unat b1 - 128) * 64 + (unat b2 - 128)) @ utf8_decode r2
                    else unit_of 65533 # utf8_decode r1
                | [] \<Rightarrow> [unit_of 65533])
             else unit_of 65533 # utf8_decode bs
         | [] \<Rightarrow> [unit_of 65533])
      else if 240 \<le> n \<and> n < 245 then
        (case bs of
           b1 # r1 \<Rightarrow>
             if second_ok n b1 then
               (case r1 of
                  b2 # r2 \<Rightarrow>
                    if cont b2 then
                      (case r2 of
                         b3 # r3 \<Rightarrow>
                           if cont b3
                           then units_of ((n - 240) * 262144 + (unat b1 - 128) * 4096
                                  + (unat b2 - 128) * 64 + (unat b3 - 128)) @ utf8_decode r3
                           else unit_of 65533 # utf8_decode r2
                       | [] \<Rightarrow> [unit_of 65533])
                    else unit_of 65533 # utf8_decode r1
                | [] \<Rightarrow> [unit_of 65533])
             else unit_of 65533 # utf8_decode bs
         | [] \<Rightarrow> [unit_of 65533])
      else unit_of 65533 # utf8_decode bs)"

text \<open>Well-formed text: every surrogate is half of a pair.\<close>

fun well_formed :: "text16 \<Rightarrow> bool" where
  "well_formed [] = True"
| "well_formed (u # us) =
     (if high_surrogate (unat u) then
        (case us of [] \<Rightarrow> False | v # vs \<Rightarrow> low_surrogate (unat v) \<and> well_formed vs)
      else \<not> low_surrogate (unat u) \<and> well_formed us)"

declare utf8_decode.simps(2) [simp del]

lemma decode1: "unat b0 < 128 \<Longrightarrow> utf8_decode (b0 # bs) = b0' # utf8_decode bs" if "unit_of (unat b0) = b0'"
  using that by (simp add: utf8_decode.simps(2))

lemma decode2:
  "194 \<le> unat b0 \<Longrightarrow> unat b0 < 224 \<Longrightarrow> cont b1 \<Longrightarrow>
     utf8_decode (b0 # b1 # bs) = units_of ((unat b0 - 192) * 64 + (unat b1 - 128)) @ utf8_decode bs"
  by (simp add: utf8_decode.simps(2))

lemma decode3:
  "224 \<le> unat b0 \<Longrightarrow> unat b0 < 240 \<Longrightarrow> second_ok (unat b0) b1 \<Longrightarrow> cont b2 \<Longrightarrow>
     utf8_decode (b0 # b1 # b2 # bs) =
       units_of ((unat b0 - 224) * 4096 + (unat b1 - 128) * 64 + (unat b2 - 128)) @ utf8_decode bs"
  by (simp add: utf8_decode.simps(2))

lemma decode4:
  "240 \<le> unat b0 \<Longrightarrow> unat b0 < 245 \<Longrightarrow> second_ok (unat b0) b1 \<Longrightarrow> cont b2 \<Longrightarrow> cont b3 \<Longrightarrow>
     utf8_decode (b0 # b1 # b2 # b3 # bs) =
       units_of ((unat b0 - 240) * 262144 + (unat b1 - 128) * 4096 + (unat b2 - 128) * 64
         + (unat b3 - 128)) @ utf8_decode bs"
  by (simp add: utf8_decode.simps(2))

lemma cont_octet: "n < 64 \<Longrightarrow> cont (octet_of (128 + n))"
  by (simp add: cont_def)

lemma digits3: "(c :: nat) div 4096 * 4096 + c div 64 mod 64 * 64 + c mod 64 = c"
proof -
  have "c div 4096 = c div 64 div 64" by (simp flip: div_mult2_eq)
  moreover have "c div 64 div 64 * 64 + c div 64 mod 64 = c div 64" by (rule div_mult_mod_eq)
  moreover have "c div 64 * 64 + c mod 64 = c" by (rule div_mult_mod_eq)
  ultimately show ?thesis by linarith
qed

lemma digits4:
  "(c :: nat) div 262144 * 262144 + c div 4096 mod 64 * 4096 + c div 64 mod 64 * 64 + c mod 64 = c"
proof -
  have "c div 262144 = c div 4096 div 64" by (simp flip: div_mult2_eq)
  moreover have "c div 4096 div 64 * 64 + c div 4096 mod 64 = c div 4096" by (rule div_mult_mod_eq)
  ultimately show ?thesis using digits3 [of c] by linarith
qed

lemma decode_code_point:
  assumes "c < 1114112" and "\<not> high_surrogate c" and "\<not> low_surrogate c"
  shows "utf8_decode (code_point_bytes c @ bs) = units_of c @ utf8_decode bs"
proof -
  consider "c < 128" | "128 \<le> c" "c < 2048" | "2048 \<le> c" "c < 65536" | "65536 \<le> c" by linarith
  then show ?thesis
  proof cases
    case 1
    then show ?thesis
      using decode1 [of "octet_of c" "unit_of c" bs] by (simp add: code_point_bytes_def units_of_def)
  next
    case 2
    then have b: "194 \<le> 192 + c div 64" "192 + c div 64 < 224" "c mod 64 < 64" by auto
    have e: "c div 64 * 64 + c mod 64 = c" by simp
    have "code_point_bytes c = [octet_of (192 + c div 64), octet_of (128 + c mod 64)]"
      using 2 by (simp add: code_point_bytes_def)
    then show ?thesis
      using b e decode2 [of "octet_of (192 + c div 64)" "octet_of (128 + c mod 64)" bs]
      by (simp add: cont_octet)
  next
    case 3
    then have b: "224 + c div 4096 < 240" "c div 64 mod 64 < 64" "c mod 64 < 64" by auto
    have e: "c div 4096 * 4096 + c div 64 mod 64 * 64 + c mod 64 = c" by (rule digits3)
    have m: "c mod 64 < 64" "c div 64 mod 64 < 64" by simp_all
    have "c div 4096 = 0 \<Longrightarrow> 32 \<le> c div 64 mod 64" using 3 e m by linarith
    moreover have "c div 4096 = 13 \<Longrightarrow> c div 64 mod 64 < 32"
      using assms(2,3) e m unfolding high_surrogate_def low_surrogate_def by linarith
    ultimately have s: "second_ok (224 + c div 4096) (octet_of (128 + c div 64 mod 64))"
      using b by (auto simp: second_ok_def cont_def)
    have "code_point_bytes c =
        [octet_of (224 + c div 4096), octet_of (128 + c div 64 mod 64), octet_of (128 + c mod 64)]"
      using 3 by (simp add: code_point_bytes_def)
    then show ?thesis
      using b e s
        decode3 [of "octet_of (224 + c div 4096)" "octet_of (128 + c div 64 mod 64)" "octet_of (128 + c mod 64)" bs]
      by (simp add: cont_octet)
  next
    case 4
    with assms(1) have b: "240 + c div 262144 < 245" "c div 4096 mod 64 < 64"
      "c div 64 mod 64 < 64" "c mod 64 < 64" by auto
    have e: "c div 262144 * 262144 + c div 4096 mod 64 * 4096 + c div 64 mod 64 * 64 + c mod 64 = c"
      by (rule digits4)
    have m: "c mod 64 < 64" "c div 64 mod 64 < 64" by simp_all
    have "c div 262144 = 0 \<Longrightarrow> 16 \<le> c div 4096 mod 64" using 4 e m by linarith
    moreover have "c div 262144 = 4 \<Longrightarrow> c div 4096 mod 64 < 16" using assms(1) e m by linarith
    ultimately have s: "second_ok (240 + c div 262144) (octet_of (128 + c div 4096 mod 64))"
      using b by (auto simp: second_ok_def cont_def)
    show ?thesis
      using 4 b e s
        decode4 [of "octet_of (240 + c div 262144)" "octet_of (128 + c div 4096 mod 64)"
          "octet_of (128 + c div 64 mod 64)" "octet_of (128 + c mod 64)" bs]
      by (simp add: code_point_bytes_def cont_octet)
  qed
qed

lemma units_of_pair:
  assumes "high_surrogate (unat u)" and "low_surrogate (unat v)"
  shows "units_of (65536 + (unat u - 55296) * 1024 + (unat v - 56320)) = [u, v]"
proof -
  obtain x where x: "unat u = 55296 + x" "x < 1024"
    using assms(1) by (intro that [of "unat u - 55296"]) (auto simp: high_surrogate_def)
  obtain y where y: "unat v = 56320 + y" "y < 1024"
    using assms(2) by (intro that [of "unat v - 56320"]) (auto simp: low_surrogate_def)
  have "unit_of (55296 + x) = u" "unit_of (56320 + y) = v"
    by (simp_all flip: x(1) y(1))
  moreover have "(x * 1024 + y) div 1024 = x" "(x * 1024 + y) mod 1024 = y"
    using y(2) by simp_all
  ultimately show ?thesis by (simp add: x y units_of_def)
qed

lemma utf8_decode_encode: "well_formed s \<Longrightarrow> utf8_decode (utf8_encode s) = s"
proof (induction s rule: utf8_encode.induct)
  case 1
  then show ?case by simp
next
  case (2 u us)
  show ?case
  proof (cases "high_surrogate (unat u)")
    case True
    with "2.prems" obtain v vs where us: "us = v # vs" and v: "low_surrogate (unat v)" "well_formed vs"
      by (auto split: list.splits)
    let ?c = "65536 + (unat u - 55296) * 1024 + (unat v - 56320)"
    have "?c < 1114112" "\<not> high_surrogate ?c" "\<not> low_surrogate ?c"
      using True v(1) by (auto simp: high_surrogate_def low_surrogate_def)
    then have "utf8_decode (utf8_encode (u # us)) = units_of ?c @ utf8_decode (utf8_encode vs)"
      using True us v(1) decode_code_point [of ?c] by simp
    with True us v "2.IH"(1) show ?thesis by (simp add: units_of_pair)
  next
    case False
    with "2.prems" have l: "\<not> low_surrogate (unat u)" and w: "well_formed us" by auto
    have "unat u < 1114112" using unit_bound [of u] by simp
    with False l have "utf8_decode (utf8_encode (u # us)) = units_of (unat u) @ utf8_decode (utf8_encode us)"
      using decode_code_point [of "unat u"] by simp
    with False l w "2.IH"(3) unit_bound [of u] show ?thesis by (simp add: units_of_def)
  qed
qed

section \<open>Base64\<close>

definition b64_char :: "nat \<Rightarrow> char" where
  "b64_char n = char_of
     (if n < 26 then 65 + n else if n < 52 then 71 + n else if n < 62 then n - 4
      else if n = 62 then 43 else 47)"

fun btoa :: "octet list \<Rightarrow> string" where
  "btoa [] = []"
| "btoa [a] = [b64_char (unat a div 4), b64_char (unat a mod 4 * 16), CHR ''='', CHR ''='']"
| "btoa [a, b] =
     [b64_char (unat a div 4), b64_char (unat a mod 4 * 16 + unat b div 16),
      b64_char (unat b mod 16 * 4), CHR ''='']"
| "btoa (a # b # c # bs) =
     [b64_char (unat a div 4), b64_char (unat a mod 4 * 16 + unat b div 16),
      b64_char (unat b mod 16 * 4 + unat c div 64), b64_char (unat c mod 64)] @ btoa bs"

text \<open>The value of a character in either base64 alphabet.\<close>

definition b64_value :: "16 word \<Rightarrow> nat option" where
  "b64_value u =
     (let n = unat u in
      if 65 \<le> n \<and> n < 91 then Some (n - 65)
      else if 97 \<le> n \<and> n < 123 then Some (n - 71)
      else if 48 \<le> n \<and> n < 58 then Some (n + 4)
      else if n = 43 \<or> n = 45 then Some 62
      else if n = 47 \<or> n = 95 then Some 63
      else None)"

fun b64_group :: "nat list \<Rightarrow> octet list" where
  "b64_group (a # b # c # d # r) =
     [octet_of (a * 4 + b div 16), octet_of (b mod 16 * 16 + c div 4),
      octet_of (c mod 4 * 64 + d)] @ b64_group r"
| "b64_group [a, b, c] = [octet_of (a * 4 + b div 16), octet_of (b mod 16 * 16 + c div 4)]"
| "b64_group [a, b] = [octet_of (a * 4 + b div 16)]"
| "b64_group _ = []"

definition base64_decode :: "text16 \<Rightarrow> octet list" where
  "base64_decode s = b64_group (List.map_filter b64_value s)"

text \<open>
  The web client's \<open>toBase64\<close>: the bytes become a binary string in chunks of \<open>0x8000\<close>, which
  \<open>btoa\<close> then encodes.
\<close>

function binary_chunks :: "nat \<Rightarrow> octet list \<Rightarrow> string" where
  "binary_chunks k bs =
     (if bs = [] \<or> k = 0 then []
      else map (\<lambda>b. char_of (unat b)) (take k bs) @ binary_chunks k (drop k bs))"
  by pat_completeness auto
termination
  by (relation "measure (\<lambda>(k, bs). length bs)") auto

declare binary_chunks.simps [simp del]

definition toBase64 :: "octet list \<Rightarrow> string" where
  "toBase64 bytes = btoa (map (\<lambda>c. octet_of (of_char c)) (binary_chunks 32768 bytes))"

lemma octet_char [simp]: "octet_of (of_char (char_of (unat (b :: octet)) :: char)) = b"
  using octet_bound [of b] by simp

lemma binary_chunks_all: "0 < k \<Longrightarrow> binary_chunks k bs = map (\<lambda>b. char_of (unat b)) bs"
proof (induction k bs rule: binary_chunks.induct)
  case (1 k bs)
  show ?case
  proof (cases "bs = []")
    case True
    then show ?thesis by (simp add: binary_chunks.simps)
  next
    case False
    with 1 have "binary_chunks k bs =
        map (\<lambda>b. char_of (unat b)) (take k bs) @ map (\<lambda>b. char_of (unat b)) (drop k bs)"
      by (simp add: binary_chunks.simps [of k bs])
    then show ?thesis by (simp flip: map_append)
  qed
qed

lemma toBase64_btoa: "toBase64 bytes = btoa bytes"
proof -
  have "map (\<lambda>c. octet_of (of_char c)) (map (\<lambda>b. char_of (unat b) :: char) bytes) = bytes"
    by (simp only: map_map comp_def octet_char map_ident)
  then show ?thesis by (simp only: toBase64_def binary_chunks_all)
qed

lemma b64_value_char: "n < 64 \<Longrightarrow> b64_value (unit_of (of_char (b64_char n))) = Some n"
  by (auto simp: b64_value_def b64_char_def Let_def)

lemma b64_value_pad: "b64_value (unit_of 61) = None"
  by (simp add: b64_value_def)

text \<open>The sextets of an octet put the octet together again.\<close>

lemma sextet_bounds:
  "(x :: nat) < 256 \<Longrightarrow> x div 4 < 64" "(x :: nat) mod 4 * 16 < 64" "(x :: nat) mod 16 * 4 < 64"
  "(y :: nat) < 256 \<Longrightarrow> x mod 4 * 16 + y div 16 < 64" "(y :: nat) < 256 \<Longrightarrow> x mod 16 * 4 + y div 64 < 64"
  "(x :: nat) mod 64 < 64"
proof -
  have m: "x mod 4 < 4" "x mod 16 < 16" by simp_all
  show "x mod 4 * 16 < 64" "x mod 16 * 4 < 64" using m by linarith+
  show "x mod 4 * 16 + y div 16 < 64" if "y < 256"
  proof -
    have "y div 16 < 16" using that by simp
    then show ?thesis using m by linarith
  qed
  show "x mod 16 * 4 + y div 64 < 64" if "y < 256"
  proof -
    have "y div 64 < 4" using that by simp
    then show ?thesis using m by linarith
  qed
qed simp_all

lemma sextet_first: "(y :: nat) < 16 \<Longrightarrow> x div 4 * 4 + (x mod 4 * 16 + y) div 16 = x"
proof -
  assume "y < 16"
  then have "(x mod 4 * 16 + y) div 16 = x mod 4" by simp
  then show ?thesis by simp
qed

lemma sextet_second: "(y :: nat) < 4 \<Longrightarrow> (a * 16 + x div 16) mod 16 * 16 + (x mod 16 * 4 + y) div 4 = x"
  if "x < 256"
proof -
  assume y: "y < 4"
  have "(a * 16 + x div 16) mod 16 = x div 16" using that by simp
  moreover have "(x mod 16 * 4 + y) div 4 = x mod 16" using y by simp
  ultimately show ?thesis by simp
qed

lemma sextet_third: "(x :: nat) < 256 \<Longrightarrow> (b * 4 + x div 64) mod 4 * 64 + x mod 64 = x"
proof -
  assume "x < 256"
  then have "(b * 4 + x div 64) mod 4 = x div 64" by simp
  then show ?thesis by simp
qed

lemma base64_decode_btoa: "base64_decode (text_of (btoa bs)) = bs"
proof (induction bs rule: btoa.induct)
  case (4 a b c bs)
  have o: "unat a < 256" "unat b < 256" "unat c < 256" by (rule octet_bound)+
  have "unat b div 16 < 16" "unat c div 64 < 4" using o by simp_all
  with 4 o show ?case
    by (simp add: base64_decode_def text_of_def b64_value_char map_filter_simps sextet_bounds
        sextet_first sextet_second sextet_third)
next
  case (3 a b)
  have o: "unat a < 256" "unat b < 256" by (rule octet_bound)+
  have "unat b div 16 < 16" using o by simp
  with o sextet_second [of "unat b" 0 "unat a mod 4"] show ?case
    by (simp add: base64_decode_def text_of_def b64_value_char b64_value_pad map_filter_simps
        sextet_bounds sextet_first)
next
  case (2 a)
  have "unat a < 256" by (rule octet_bound)
  with sextet_first [of 0 "unat a"] show ?case
    by (simp add: base64_decode_def text_of_def b64_value_char b64_value_pad map_filter_simps sextet_bounds)
qed (simp add: base64_decode_def text_of_def map_filter_simps)

end
