(* ===== verification/Workspace.thy ===== *)
theory Workspace
  imports Layout FileOps Codec
begin

text \<open>
  The workspace service of the runtime (\<open>runtime/src/workspace.ts\<close>): every exported operation
  as a function of the process (environment and current directory), the request and the file
  system, which returns the result or the error thrown, and the file system afterwards. An
  error is either a \<open>WorkspaceError\<close> or an error of \<open>node:fs\<close> that the code lets through.
\<close>

section \<open>Types\<close>

record host =
  host_env :: env
  host_cwd :: string

datatype WorkspaceErrorCode =
  invalid_path | not_found | not_a_directory | not_a_file | too_large | stale | exists | not_empty

text \<open>The \<open>meta\<close> of an error: the current modification time and size, null where there is none.\<close>

type_synonym error_meta = "(nat option \<times> nat option) option"

datatype fault = WorkspaceError WorkspaceErrorCode string error_meta | FsError errno

type_synonym 'a io = "fs \<Rightarrow> (fault + 'a) \<times> fs"

datatype entry_type = FileEntry | DirEntry

record TreeEntry =
  entry_name :: string
  entry_type :: entry_type
  entry_size :: "nat option"
  entry_mtime :: nat
  entry_hidden :: bool

record TreeListing =
  listing_path :: string
  listing_entries :: "TreeEntry list"

datatype encoding = Utf8 | Base64

record FileContents =
  contents_path :: string
  contents_content :: text16
  contents_encoding :: encoding
  contents_size :: nat
  contents_mtime :: nat
  contents_isBinary :: bool
  contents_truncated :: bool

record FileStat =
  stat_path :: string
  stat_size :: nat
  stat_mtime :: nat
  stat_isBinary :: bool

record ResolvedPath =
  diskBase :: string
  virtualBase :: string
  abs_of :: string

record WriteFileOptions =
  opt_content :: text16
  opt_encoding :: "encoding option"
  opt_expectedMtime :: "rat option"
  opt_overwrite :: "bool option"

text \<open>The stream of a download, named by the file it reads.\<close>

record DownloadHandle =
  dl_stream :: string
  dl_size :: nat
  dl_filename :: string

section \<open>Statements that throw\<close>

definition give :: "'a \<Rightarrow> 'a io" where
  "give x f = (Inr x, f)"

definition throw :: "fault \<Rightarrow> 'a io" where
  "throw e f = (Inl e, f)"

definition and_then :: "'a io \<Rightarrow> ('a \<Rightarrow> 'b io) \<Rightarrow> 'b io" where
  "and_then m k f = (case m f of (Inl e, g) \<Rightarrow> (Inl e, g) | (Inr x, g) \<Rightarrow> k x g)"

definition throw_if :: "bool \<Rightarrow> fault \<Rightarrow> unit io" where
  "throw_if b e f = (if b then Inl e else Inr (), f)"

text \<open>A call that only reads, and one that changes the file system.\<close>

definition reads :: "(fs \<Rightarrow> errno + 'a) \<Rightarrow> 'a io" where
  "reads q f = (case q f of Inl e \<Rightarrow> Inl (FsError e) | Inr x \<Rightarrow> Inr x, f)"

definition writes :: "(fs \<Rightarrow> errno + fs) \<Rightarrow> unit io" where
  "writes op f = (case op f of Inl e \<Rightarrow> (Inl (FsError e), f) | Inr g \<Rightarrow> (Inr (), g))"

text \<open>\<open>try { x = q() } catch { throw e }\<close>.\<close>

definition reads_or :: "(fs \<Rightarrow> errno + 'a) \<Rightarrow> fault \<Rightarrow> 'a io" where
  "reads_or q e f = (case q f of Inl _ \<Rightarrow> Inl e | Inr x \<Rightarrow> Inr x, f)"

definition wsError :: "WorkspaceErrorCode \<Rightarrow> string \<Rightarrow> fault" where
  "wsError c m = WorkspaceError c m None"

section \<open>Limits and path resolution\<close>

definition js_space :: "char \<Rightarrow> bool" where
  "js_space c \<longleftrightarrow> (let n = of_char c :: nat in (9 \<le> n \<and> n \<le> 13) \<or> n = 32 \<or> n = 160)"

definition digit_value :: "char \<Rightarrow> nat option" where
  "digit_value c = (let n = of_char c :: nat in if 48 \<le> n \<and> n \<le> 57 then Some (n - 48) else None)"

fun digits_of :: "string \<Rightarrow> nat list" where
  "digits_of [] = []"
| "digits_of (c # cs) = (case digit_value c of None \<Rightarrow> [] | Some d \<Rightarrow> d # digits_of cs)"

text \<open>\<open>parseInt(s, 10)\<close>: leading white space, a sign, the longest run of digits; NaN is None.\<close>

definition parseInt :: "string \<Rightarrow> int option" where
  "parseInt s =
     (let t = dropWhile js_space s;
          neg = (case t of c # _ \<Rightarrow> c = CHR ''-'' | [] \<Rightarrow> False);
          u = (case t of c # r \<Rightarrow> if c = CHR ''-'' \<or> c = CHR ''+'' then r else t | [] \<Rightarrow> []);
          n = int (foldl (\<lambda>a d. a * 10 + d) 0 (digits_of u))
      in if digits_of u = [] then None else Some (if neg then - n else n))"

definition DEFAULT_MAX_FILE_BYTES :: nat where
  "DEFAULT_MAX_FILE_BYTES = 2 * 1024 * 1024"

definition workspaceMaxFileBytes :: "env \<Rightarrow> nat" where
  "workspaceMaxFileBytes env =
     (let parsed = (case mget env ''WORKSPACE_MAX_FILE_BYTES'' of
                      None \<Rightarrow> None | Some raw \<Rightarrow> if raw = [] then None else parseInt raw)
      in case parsed of
           Some n \<Rightarrow> if n > 0 then nat n else DEFAULT_MAX_FILE_BYTES
         | None \<Rightarrow> DEFAULT_MAX_FILE_BYTES)"

definition isHiddenEntry :: "string \<Rightarrow> bool \<Rightarrow> bool" where
  "isHiddenEntry name isDir \<longleftrightarrow> isDir \<and> starts_with name ''.''"

definition strip_slashes :: "string \<Rightarrow> string" where
  "strip_slashes rel = dropWhile (\<lambda>c. c = slash) rel"

definition resolveInsideBase :: "string \<Rightarrow> string \<Rightarrow> string \<Rightarrow> fault + string" where
  "resolveInsideBase cwd base rel =
     (let stripped = strip_slashes rel;
          joined = path_resolve cwd [base, stripped];
          baseResolved = path_resolve cwd [base]
      in if joined \<noteq> baseResolved \<and> \<not> starts_with joined (baseResolved @ [slash])
         then Inl (wsError invalid_path ''path escapes session workspace'')
         else Inr joined)"

definition head_tail :: "string \<Rightarrow> string \<times> string" where
  "head_tail stripped =
     (case index_of slash stripped of
        None \<Rightarrow> (stripped, [])
      | Some i \<Rightarrow> (take i stripped, drop (Suc i) stripped))"

definition resolvePath :: "host \<Rightarrow> string \<Rightarrow> string option \<Rightarrow> string \<Rightarrow> ResolvedPath io" where
  "resolvePath h sid agentId rel =
     (let stripped = strip_slashes rel;
          (head, tail) = head_tail stripped
      in if head = ''.claude'' \<or> head = ''.venv'' then
           (if \<not> truthy agentId then
              throw (wsError invalid_path (''agent_id is required to read '' @ head))
            else
              let base = (if head = ''.claude'' then sessionClaudeDir (host_env h) sid (the agentId)
                          else sessionVenvDir (host_env h) sid (the agentId))
              in and_then (writes (\<lambda>f. mkdir_recursive f (path_resolve (host_cwd h) [base]))) (\<lambda>_.
                   case (if tail \<noteq> [] then resolveInsideBase (host_cwd h) base tail
                         else Inr (path_resolve (host_cwd h) [base])) of
                     Inl e \<Rightarrow> throw e
                   | Inr a \<Rightarrow> give \<lparr>diskBase = base, virtualBase = ''/'' @ head, abs_of = a\<rparr>))
         else
           let base = sessionSharedDir (host_env h) sid
           in and_then (writes (\<lambda>f. mkdir_recursive f (path_resolve (host_cwd h) [base]))) (\<lambda>_.
                case resolveInsideBase (host_cwd h) base stripped of
                  Inl e \<Rightarrow> throw e
                | Inr a \<Rightarrow> give \<lparr>diskBase = base, virtualBase = ''/'', abs_of = a\<rparr>))"

definition toVirtualPath :: "string \<Rightarrow> ResolvedPath \<Rightarrow> string" where
  "toVirtualPath cwd r =
     (let rel = path_relative cwd (diskBase r) (abs_of r);
          segments = filter (\<lambda>s. s \<noteq> []) (split_on slash rel)
      in if virtualBase r = ''/'' then (if segments = [] then ''/'' else ''/'' @ join ''/'' segments)
         else if segments = [] then virtualBase r
         else virtualBase r @ ''/'' @ join ''/'' segments)"

section \<open>Reading\<close>

definition looksBinary :: "byte list \<Rightarrow> bool" where
  "looksBinary buf = list_ex (\<lambda>b. b = 0) (take (min (length buf) 8192) buf)"

definition tree_entry :: "string \<Rightarrow> node \<Rightarrow> TreeEntry" where
  "tree_entry name child =
     \<lparr>entry_name = name,
      entry_type = (if is_dir child then DirEntry else FileEntry),
      entry_size = (if is_dir child then None else Some (node_size child)),
      entry_mtime = mtime_ms child,
      entry_hidden = isHiddenEntry name (is_dir child)\<rparr>"

text \<open>One turn of the loop over the names of the directory: the entry it pushes, if any.\<close>

definition list_step :: "fs \<Rightarrow> string \<Rightarrow> bool \<Rightarrow> string \<Rightarrow> TreeEntry option" where
  "list_step f dir includeHidden name =
     (case lstatSync f (path_join [dir, name]) of
        Inl _ \<Rightarrow> None
      | Inr child \<Rightarrow>
          if is_link child then None
          else if \<not> is_file child \<and> \<not> is_dir child then None
          else if isHiddenEntry name (is_dir child) \<and> \<not> includeHidden then None
          else Some (tree_entry name child))"

text \<open>The comparator, on the parameter \<open>localeCompare\<close> of the standard library's collation.\<close>

definition entry_compare :: "(string \<Rightarrow> string \<Rightarrow> int) \<Rightarrow> TreeEntry \<Rightarrow> TreeEntry \<Rightarrow> int" where
  "entry_compare localeCompare a b =
     (if entry_type a \<noteq> entry_type b then (if entry_type a = DirEntry then - 1 else 1)
      else localeCompare (entry_name a) (entry_name b))"

definition listTree ::
  "(string \<Rightarrow> string \<Rightarrow> int) \<Rightarrow> host \<Rightarrow> string \<Rightarrow> string option \<Rightarrow> string \<Rightarrow> bool \<Rightarrow> TreeListing io" where
  "listTree localeCompare h sid agentId relPath includeHidden =
     and_then (resolvePath h sid agentId relPath) (\<lambda>resolved.
     and_then (reads_or (\<lambda>f. lstatSync f (abs_of resolved))
                (wsError not_found ''path not found'')) (\<lambda>stat.
     and_then (throw_if (is_link stat) (wsError invalid_path ''symlinks are not traversed'')) (\<lambda>_.
     and_then (throw_if (\<not> is_dir stat) (wsError not_a_directory ''path is not a directory'')) (\<lambda>_.
     and_then (reads (\<lambda>f. readdirSync f (abs_of resolved))) (\<lambda>names.
     and_then (reads (\<lambda>f. Inr (List.map_filter (list_step f (abs_of resolved) includeHidden) names)))
       (\<lambda>entries.
     give \<lparr>listing_path = toVirtualPath (host_cwd h) resolved,
           listing_entries = js_sort (entry_compare localeCompare) entries\<rparr>))))))"

text \<open>The checks that reading, \<open>stat\<close> and download share: a regular file, not a link.\<close>

definition stat_regular :: "string \<Rightarrow> node io" where
  "stat_regular p =
     and_then (reads_or (\<lambda>f. lstatSync f p) (wsError not_found ''file not found'')) (\<lambda>stat.
     and_then (throw_if (is_link stat) (wsError invalid_path ''symlinks are not followed'')) (\<lambda>_.
     and_then (throw_if (\<not> is_file stat) (wsError not_a_file ''path is not a file'')) (\<lambda>_.
     give stat)))"

definition readFile :: "host \<Rightarrow> string \<Rightarrow> string option \<Rightarrow> string \<Rightarrow> FileContents io" where
  "readFile h sid agentId relPath =
     and_then (resolvePath h sid agentId relPath) (\<lambda>resolved.
     and_then (stat_regular (abs_of resolved)) (\<lambda>stat.
     let max = workspaceMaxFileBytes (host_env h) in
     and_then (throw_if (node_size stat > max)
                (wsError too_large (''file exceeds '' @ nat_string max @ '' bytes''))) (\<lambda>_.
     and_then (reads (\<lambda>f. readFileSync f (abs_of resolved))) (\<lambda>buf.
     give \<lparr>contents_path = toVirtualPath (host_cwd h) resolved,
           contents_content = (if looksBinary buf then [] else utf8_decode buf),
           contents_encoding = Utf8,
           contents_size = node_size stat,
           contents_mtime = mtime_ms stat,
           contents_isBinary = looksBinary buf,
           contents_truncated = False\<rparr>))))"

definition statFile :: "host \<Rightarrow> string \<Rightarrow> string option \<Rightarrow> string \<Rightarrow> FileStat io" where
  "statFile h sid agentId relPath =
     and_then (resolvePath h sid agentId relPath) (\<lambda>resolved.
     and_then (stat_regular (abs_of resolved)) (\<lambda>stat.
     and_then (if node_size stat > 0
               then and_then (reads (\<lambda>f. readFileSync f (abs_of resolved))) (\<lambda>bytes.
                      give (looksBinary (take (min (node_size stat) 8192) bytes)))
               else give False) (\<lambda>isBinary.
     give \<lparr>stat_path = toVirtualPath (host_cwd h) resolved,
           stat_size = node_size stat,
           stat_mtime = mtime_ms stat,
           stat_isBinary = isBinary\<rparr>)))"

definition openDownloadStream :: "host \<Rightarrow> string \<Rightarrow> string option \<Rightarrow> string \<Rightarrow> DownloadHandle io" where
  "openDownloadStream h sid agentId relPath =
     and_then (resolvePath h sid agentId relPath) (\<lambda>resolved.
     and_then (stat_regular (abs_of resolved)) (\<lambda>stat.
     give \<lparr>dl_stream = abs_of resolved,
           dl_size = node_size stat,
           dl_filename = path_basename (abs_of resolved)\<rparr>))"

section \<open>Writing\<close>

definition ensureNotVirtualRoot :: "string \<Rightarrow> ResolvedPath \<Rightarrow> unit io" where
  "ensureNotVirtualRoot cwd resolved =
     throw_if (path_resolve cwd [abs_of resolved] = path_resolve cwd [diskBase resolved])
       (wsError invalid_path ''cannot modify workspace root'')"

text \<open>\<open>lstatSync\<close> in a \<open>try\<close> whose handler leaves the result null.\<close>

definition lstat_opt :: "fs \<Rightarrow> string \<Rightarrow> node option" where
  "lstat_opt f p = (case lstatSync f p of Inl _ \<Rightarrow> None | Inr n \<Rightarrow> Some n)"

text \<open>The guard of \<open>writeFile\<close> against lost updates.\<close>

definition write_guard :: "WriteFileOptions \<Rightarrow> node option \<Rightarrow> unit io" where
  "write_guard opts currentStat =
     (if opt_overwrite opts = Some True then give ()
      else case opt_expectedMtime opts of
        Some expected \<Rightarrow>
          throw_if (map_option (\<lambda>n. of_nat (mtime_ms n)) currentStat \<noteq> Some expected)
            (WorkspaceError stale ''file has changed since last read''
              (Some (map_option mtime_ms currentStat, map_option node_size currentStat)))
      | None \<Rightarrow>
          throw_if (currentStat \<noteq> None)
            (WorkspaceError exists ''file already exists''
              (Some (map_option mtime_ms currentStat, map_option node_size currentStat))))"

definition content_bytes :: "WriteFileOptions \<Rightarrow> byte list" where
  "content_bytes opts =
     (case opt_encoding opts of
        Some Base64 \<Rightarrow> base64_decode (opt_content opts)
      | _ \<Rightarrow> utf8_encode (opt_content opts))"

definition writeFile ::
  "host \<Rightarrow> string \<Rightarrow> string option \<Rightarrow> string \<Rightarrow> WriteFileOptions \<Rightarrow> FileContents io" where
  "writeFile h sid agentId relPath opts =
     and_then (resolvePath h sid agentId relPath) (\<lambda>resolved.
     and_then (ensureNotVirtualRoot (host_cwd h) resolved) (\<lambda>_.
     and_then (reads (\<lambda>f. Inr (lstat_opt f (abs_of resolved)))) (\<lambda>currentStat.
     and_then (throw_if (case currentStat of None \<Rightarrow> False | Some n \<Rightarrow> is_link n)
                (wsError invalid_path ''symlinks are not followed'')) (\<lambda>_.
     and_then (throw_if (case currentStat of None \<Rightarrow> False | Some n \<Rightarrow> \<not> is_file n)
                (wsError not_a_file ''path is not a file'')) (\<lambda>_.
     and_then (write_guard opts currentStat) (\<lambda>_.
     let buf = content_bytes opts in
     and_then (writes (\<lambda>f. mkdir_recursive f (path_dirname (abs_of resolved)))) (\<lambda>_.
     and_then (writes (\<lambda>f. writeFileSync f (abs_of resolved) buf)) (\<lambda>_.
     and_then (reads (\<lambda>f. lstatSync f (abs_of resolved))) (\<lambda>newStat.
     give \<lparr>contents_path = toVirtualPath (host_cwd h) resolved,
           contents_content = (if looksBinary buf then [] else utf8_decode buf),
           contents_encoding = Utf8,
           contents_size = node_size newStat,
           contents_mtime = mtime_ms newStat,
           contents_isBinary = looksBinary buf,
           contents_truncated = False\<rparr>)))))))))"

text \<open>The handler around \<open>mkdirSync\<close> in \<open>createDirectory\<close>.\<close>

definition mkdir_fault :: "errno \<Rightarrow> fault" where
  "mkdir_fault code =
     (if code = EEXIST then wsError exists ''directory already exists''
      else if code = ENOENT then wsError not_found ''parent directory does not exist''
      else FsError code)"

definition createDirectory :: "host \<Rightarrow> string \<Rightarrow> string option \<Rightarrow> string \<Rightarrow> TreeEntry io" where
  "createDirectory h sid agentId relPath =
     and_then (resolvePath h sid agentId relPath) (\<lambda>resolved.
     and_then (ensureNotVirtualRoot (host_cwd h) resolved) (\<lambda>_.
     and_then (\<lambda>f. case mkdirSync f (abs_of resolved) of
                     Inl code \<Rightarrow> (Inl (mkdir_fault code), f)
                   | Inr g \<Rightarrow> (Inr (), g)) (\<lambda>_.
     and_then (reads (\<lambda>f. lstatSync f (abs_of resolved))) (\<lambda>stat.
     give \<lparr>entry_name = path_basename (abs_of resolved),
           entry_type = DirEntry,
           entry_size = None,
           entry_mtime = mtime_ms stat,
           entry_hidden = False\<rparr>))))"

definition deleteEntry :: "host \<Rightarrow> string \<Rightarrow> string option \<Rightarrow> string \<Rightarrow> bool \<Rightarrow> unit io" where
  "deleteEntry h sid agentId relPath recursive =
     and_then (resolvePath h sid agentId relPath) (\<lambda>resolved.
     and_then (ensureNotVirtualRoot (host_cwd h) resolved) (\<lambda>_.
     and_then (reads_or (\<lambda>f. lstatSync f (abs_of resolved))
                (wsError not_found ''path not found'')) (\<lambda>stat.
     and_then (throw_if (is_link stat) (wsError invalid_path ''symlinks are not followed'')) (\<lambda>_.
     if is_file stat then writes (\<lambda>f. unlinkSync f (abs_of resolved))
     else if is_dir stat then
       (if recursive then writes (\<lambda>f. rm_recursive False f (abs_of resolved))
        else
          and_then (reads (\<lambda>f. readdirSync f (abs_of resolved))) (\<lambda>names.
          and_then (throw_if (length names > 0) (wsError not_empty ''directory is not empty'')) (\<lambda>_.
          writes (\<lambda>f. rmdirSync f (abs_of resolved)))))
     else throw (wsError invalid_path ''unsupported entry type'')))))"

definition moveEntry :: "host \<Rightarrow> string \<Rightarrow> string option \<Rightarrow> string \<Rightarrow> string \<Rightarrow> unit io" where
  "moveEntry h sid agentId fromRel toRel =
     and_then (resolvePath h sid agentId fromRel) (\<lambda>fromResolved.
     and_then (resolvePath h sid agentId toRel) (\<lambda>toResolved.
     and_then (ensureNotVirtualRoot (host_cwd h) fromResolved) (\<lambda>_.
     and_then (ensureNotVirtualRoot (host_cwd h) toResolved) (\<lambda>_.
     and_then (throw_if (virtualBase fromResolved \<noteq> virtualBase toResolved)
                (wsError invalid_path ''cannot move across workspace roots'')) (\<lambda>_.
     and_then (reads_or (\<lambda>f. lstatSync f (abs_of fromResolved))
                (wsError not_found ''source not found'')) (\<lambda>fromStat.
     and_then (throw_if (is_link fromStat) (wsError invalid_path ''symlinks are not followed'')) (\<lambda>_.
     and_then (reads (\<lambda>f. Inr (lstat_opt f (abs_of toResolved)))) (\<lambda>destStat.
     and_then (throw_if (destStat \<noteq> None) (wsError exists ''destination already exists'')) (\<lambda>_.
     and_then (writes (\<lambda>f. mkdir_recursive f (path_dirname (abs_of toResolved)))) (\<lambda>_.
     writes (\<lambda>f. renameSync f (abs_of fromResolved) (abs_of toResolved))))))))))))"

end
