(* ===== verification/WorkspaceFacts.thy ===== *)
theory WorkspaceFacts
  imports Workspace
begin

text \<open>
  What the workspace service guarantees. The first part describes path resolution on segments;
  the properties of the operations follow from it and from the specifications of \<open>FileOps\<close>.
\<close>

section \<open>Statements that throw\<close>

named_theorems io_simps

lemma and_then_give [io_simps]: "and_then (give x) k f = k x f"
  by (simp add: and_then_def give_def)

lemma and_then_throw [io_simps]: "and_then (throw e) k f = (Inl e, f)"
  by (simp add: and_then_def throw_def)

lemma and_then_throw_if [io_simps]:
  "and_then (throw_if b e) k f = (if b then (Inl e, f) else k () f)"
  by (simp add: and_then_def throw_if_def)

lemma and_then_reads [io_simps]:
  "and_then (reads q) k f = (case q f of Inl e \<Rightarrow> (Inl (FsError e), f) | Inr x \<Rightarrow> k x f)"
  by (simp add: and_then_def reads_def split: sum.split)

lemma and_then_reads_or [io_simps]:
  "and_then (reads_or q e) k f = (case q f of Inl _ \<Rightarrow> (Inl e, f) | Inr x \<Rightarrow> k x f)"
  by (simp add: and_then_def reads_or_def split: sum.split)

lemma and_then_writes [io_simps]:
  "and_then (writes op) k f = (case op f of Inl e \<Rightarrow> (Inl (FsError e), f) | Inr g \<Rightarrow> k () g)"
  by (simp add: and_then_def writes_def split: sum.split)

lemma and_then_assoc [io_simps]:
  "and_then (and_then m k) l f = and_then m (\<lambda>x. and_then (k x) l) f"
  by (simp add: and_then_def split: prod.split sum.split)

lemma and_then_Inr:
  "and_then m k f = (Inr y, g) \<longleftrightarrow> (\<exists>x f'. m f = (Inr x, f') \<and> k x f' = (Inr y, g))"
  by (auto simp: and_then_def split: prod.splits sum.splits)

lemma resolved_then:
  "resolvePath h sid agentId rel f = (Inr R, g) \<Longrightarrow> and_then (resolvePath h sid agentId rel) k f = k R g"
  by (simp add: and_then_def)

lemma give_result [simp]: "give x f = (r, g) \<longleftrightarrow> r = Inr x \<and> g = f"
  by (auto simp: give_def)

lemma throw_result [simp]: "throw e f = (r, g) \<longleftrightarrow> r = Inl e \<and> g = f"
  by (auto simp: throw_def)

lemma throw_if_result [simp]: "throw_if b e f = (Inr u, g) \<longleftrightarrow> \<not> b \<and> g = f"
  by (auto simp: throw_if_def)

lemma reads_result [simp]: "reads q f = (Inr x, g) \<longleftrightarrow> q f = Inr x \<and> g = f"
  by (auto simp: reads_def split: sum.splits)

lemma reads_or_result [simp]: "reads_or q e f = (Inr x, g) \<longleftrightarrow> q f = Inr x \<and> g = f"
  by (auto simp: reads_or_def split: sum.splits)

lemma writes_result [simp]: "writes op f = (Inr u, g) \<longleftrightarrow> op f = Inr g"
  by (auto simp: writes_def split: sum.splits)

section \<open>Path resolution on segments\<close>

text \<open>
  A request the API lets through: the ids are single names (the API uses UUIDs), the root of
  the volume is an absolute path.
\<close>

definition request_ok :: "host \<Rightarrow> string list \<Rightarrow> string \<Rightarrow> string option \<Rightarrow> bool" where
  "request_ok h r sid agentId \<longleftrightarrow>
     root_segs (host_env h) r \<and> clean_seg sid \<and> (truthy agentId \<longrightarrow> clean_seg (the agentId))"

definition virtual_head :: "string \<Rightarrow> bool" where
  "virtual_head rel \<longleftrightarrow> fst (head_tail (strip_slashes rel)) \<in> {''.claude'', ''.venv''}"

text \<open>The directory a path is resolved in, and the rest of the path inside it.\<close>

definition base_segs :: "string list \<Rightarrow> string \<Rightarrow> string option \<Rightarrow> string \<Rightarrow> string list" where
  "base_segs r sid agentId rel =
     (if virtual_head rel
      then r @ [''sessions'', sid, ''agents'', the agentId, fst (head_tail (strip_slashes rel))]
      else r @ [''sessions'', sid, ''shared''])"

definition inner :: "string \<Rightarrow> string" where
  "inner rel = (if virtual_head rel then strip_slashes (snd (head_tail (strip_slashes rel)))
                else strip_slashes rel)"

definition target_segs :: "string list \<Rightarrow> string \<Rightarrow> string option \<Rightarrow> string \<Rightarrow> string list" where
  "target_segs r sid agentId rel =
     norm_segs False (rev (base_segs r sid agentId rel)) (split_on slash (inner rel))"

definition virtual_of :: "string \<Rightarrow> string" where
  "virtual_of rel = (if virtual_head rel then ''/'' @ fst (head_tail (strip_slashes rel)) else ''/'')"

lemma strip_slashes_relative [simp]: "\<not> is_absolute (strip_slashes s)"
proof (induction s)
  case (Cons c s)
  then show ?case by (auto simp: strip_slashes_def is_absolute_def)
qed (simp add: strip_slashes_def is_absolute_def)

lemma strip_slashes_idem [simp]: "strip_slashes (strip_slashes s) = strip_slashes s"
  by (simp add: strip_slashes_def dropWhile_idem)

lemma resolveInsideBase_segs:
  assumes "clean b" and "b \<noteq> []"
  shows "resolveInsideBase cwd (abs_path b) rel =
    (let j = norm_segs False (rev b) (split_on slash (strip_slashes rel))
     in if prefix b j then Inr (abs_path j)
        else Inl (wsError invalid_path ''path escapes session workspace''))"
proof -
  let ?j = "norm_segs False (rev b) (split_on slash (strip_slashes rel))"
  have c: "clean ?j" by (rule clean_resolved [OF assms(1)])
  have j: "path_resolve cwd [abs_path b, strip_slashes rel] = abs_path ?j"
    by (rule resolve_rel [OF assms(1)]) simp
  have s: "starts_with (abs_path ?j) (abs_path b @ [slash]) \<longleftrightarrow> (\<exists>t. t \<noteq> [] \<and> ?j = b @ t)"
    by (rule starts_with_abs_path [OF assms(1) c assms(2)])
  have "(abs_path ?j = abs_path b \<or> starts_with (abs_path ?j) (abs_path b @ [slash])) \<longleftrightarrow> prefix b ?j"
    unfolding s abs_path_inj [OF c assms(1)] prefix_def by (metis append_Nil2)
  then show ?thesis
    by (auto simp: resolveInsideBase_def Let_def j resolve_abs [OF assms(1)])
qed

lemma resolvePath_segs:
  assumes "request_ok h r sid agentId"
  shows "resolvePath h sid agentId rel f =
    (if virtual_head rel \<and> \<not> truthy agentId
     then (Inl (wsError invalid_path (''agent_id is required to read '' @ fst (head_tail (strip_slashes rel)))), f)
     else case mkdir_recursive f (abs_path (base_segs r sid agentId rel)) of
            Inl e \<Rightarrow> (Inl (FsError e), f)
          | Inr g \<Rightarrow>
              (if prefix (base_segs r sid agentId rel) (target_segs r sid agentId rel)
               then Inr \<lparr>diskBase = abs_path (base_segs r sid agentId rel), virtualBase = virtual_of rel,
                         abs_of = abs_path (target_segs r sid agentId rel)\<rparr>
               else Inl (wsError invalid_path ''path escapes session workspace''), g))"
proof -
  obtain hd tl where ht: "head_tail (strip_slashes rel) = (hd, tl)" by fastforce
  have root: "root_segs (host_env h) r" and sid: "clean_seg sid"
    using assms by (auto simp: request_ok_def)
  have r: "clean r" using root by (simp add: root_segs_def)
  show ?thesis
  proof (cases "virtual_head rel")
    case False
    let ?b = "base_segs r sid agentId rel"
    have b: "?b = r @ [''sessions'', sid, ''shared'']" using False by (simp add: base_segs_def)
    have cb: "clean ?b" "?b \<noteq> []" using r sid by (auto simp: b)
    have "inner rel = strip_slashes rel" using False by (simp add: inner_def)
    with False ht show ?thesis
      by (simp add: resolvePath_def virtual_head_def sharedDir_segs [OF root sid] flip: b)
        (simp add: io_simps resolve_abs [OF cb(1)] resolveInsideBase_segs [OF cb] target_segs_def
          virtual_of_def virtual_head_def ht Let_def give_def throw_def split: sum.split)
  next
    case True
    show ?thesis
    proof (cases "truthy agentId")
      case False
      with True ht show ?thesis
        by (auto simp: resolvePath_def virtual_head_def throw_def)
    next
      case t: True
      then have a: "clean_seg (the agentId)" using assms by (simp add: request_ok_def)
      let ?b = "base_segs r sid agentId rel"
      have hd: "hd = ''.claude'' \<or> hd = ''.venv''" using True ht by (simp add: virtual_head_def)
      have b: "?b = r @ [''sessions'', sid, ''agents'', the agentId, hd]"
        using True ht by (simp add: base_segs_def)
      have cb: "clean ?b" "?b \<noteq> []" using r sid a hd by (auto simp: b)
      have dir: "(if hd = ''.claude'' then sessionClaudeDir (host_env h) sid (the agentId)
          else sessionVenvDir (host_env h) sid (the agentId)) = abs_path ?b"
        using hd by (auto simp: b claudeDir_segs [OF root sid a] venvDir_segs [OF root sid a])
      have i: "inner rel = strip_slashes tl" using True ht by (simp add: inner_def)
      have e: "(if tl \<noteq> [] then resolveInsideBase cwd (abs_path ?b) tl
          else Inr (path_resolve cwd [abs_path ?b])) = resolveInsideBase cwd (abs_path ?b) tl" for cwd
      proof (cases "tl = []")
        case True
        then show ?thesis
          using cb by (simp add: resolveInsideBase_segs [OF cb] resolve_abs strip_slashes_def Let_def
              norm_segs_clean)
      qed simp
      show ?thesis
        using True t hd
        by (simp only: resolvePath_def ht Let_def split_conv dir simp_thms if_True if_False e)
          (simp add: io_simps resolve_abs [OF cb(1)] resolveInsideBase_segs [OF cb] target_segs_def
            virtual_of_def ht Let_def give_def throw_def i split: sum.split)
    qed
  qed
qed

lemma base_clean:
  assumes "request_ok h r sid agentId" and "virtual_head rel \<Longrightarrow> truthy agentId"
  shows "clean (base_segs r sid agentId rel)" and "base_segs r sid agentId rel \<noteq> []"
    and "clean (target_segs r sid agentId rel)"
proof -
  show c: "clean (base_segs r sid agentId rel)" and "base_segs r sid agentId rel \<noteq> []"
    using assms by (auto simp: base_segs_def request_ok_def root_segs_def virtual_head_def)
  show "clean (target_segs r sid agentId rel)"
    unfolding target_segs_def by (rule clean_resolved [OF c])
qed

text \<open>A path that resolved: what \<open>resolvePath\<close> returned, and how it left the file system.\<close>

lemma resolvePath_Inr:
  assumes "request_ok h r sid agentId"
  shows "resolvePath h sid agentId rel f = (Inr R, g) \<longleftrightarrow>
    (virtual_head rel \<longrightarrow> truthy agentId) \<and>
    mkdir_recursive f (abs_path (base_segs r sid agentId rel)) = Inr g \<and>
    prefix (base_segs r sid agentId rel) (target_segs r sid agentId rel) \<and>
    R = \<lparr>diskBase = abs_path (base_segs r sid agentId rel), virtualBase = virtual_of rel,
         abs_of = abs_path (target_segs r sid agentId rel)\<rparr>"
  by (auto simp: resolvePath_segs [OF assms] split: if_splits sum.splits)

text \<open>A small volume that the witnesses run on: one session with two files and a link.\<close>

definition demo_host :: host where
  "demo_host = \<lparr>host_env = [], host_cwd = ''/app''\<rparr>"

definition demo_shared :: ppath where
  "demo_shared = [''workspace-root'', ''sessions'', ''s1'', ''shared'']"

definition demo_fs :: fs where
  "demo_fs = \<lparr>nodes =
     [([], (Dir, 0)), ([''workspace-root''], (Dir, 0)), ([''workspace-root'', ''sessions''], (Dir, 0)),
      ([''workspace-root'', ''sessions'', ''s1''], (Dir, 0)), (demo_shared, (Dir, 0)),
      (demo_shared @ [''a.txt''], (File [104, 105], 7000000)),
      (demo_shared @ [''docs''], (Dir, 0)),
      (demo_shared @ [''docs'', ''b.bin''], (File [0, 1], 8000000)),
      (demo_shared @ [''out''], (Symlink ''/workspace-root/sessions'', 0))],
     now = 9000000\<rparr>"

lemma demo_request: "request_ok demo_host [''workspace-root''] ''s1'' None"
  using root_segs_default by (simp add: request_ok_def demo_host_def clean_seg_def)

lemma demo_tree: "tree_ok demo_fs"
  by code_simp

section \<open>Properties of path resolution\<close>

lemma norm_segs_no_dotdot:
  "''..'' \<notin> set ss \<Longrightarrow> norm_segs up acc ss = rev acc @ filter (\<lambda>s. s \<noteq> [] \<and> s \<noteq> ''.'') ss"
  by (induction up acc ss rule: norm_segs.induct) auto

lemma join_Cons_head: "\<exists>x. join sep ((c # cs) # ss) = c # x"
  by (cases ss) auto

lemma strip_slashes_join:
  assumes "clean ss"
  shows "strip_slashes (join ''/'' ss) = join ''/'' ss"
proof (cases ss)
  case (Cons s ts)
  with assms obtain c cs where s: "s = c # cs" "c \<noteq> slash" by (cases s) (auto simp: clean_seg_def)
  with Cons join_Cons_head [of "''/''" c cs ts] show ?thesis by (auto simp: strip_slashes_def)
qed (simp add: strip_slashes_def)

lemma strip_slashes_abs: "clean ss \<Longrightarrow> strip_slashes (abs_path ss) = join ''/'' ss"
  using strip_slashes_join [of ss] by (simp add: abs_path_def strip_slashes_def)

lemma head_tail_join:
  "clean_seg s \<Longrightarrow> head_tail (join ''/'' (s # ss)) = (s, join ''/'' ss)"
  using index_of_None [of slash s]
  by (cases ss) (auto simp: head_tail_def clean_seg_def index_of_append)

lemma split_on_join_clean: "clean t \<Longrightarrow> split_on slash (join ''/'' t) = (if t = [] then [[]] else t)"
  using split_on_join [of t slash] by (auto simp: clean_seg_def)

lemma norm_segs_join: "clean t \<Longrightarrow> norm_segs False acc (split_on slash (join ''/'' t)) = rev acc @ t"
  by (auto simp: split_on_join_clean norm_segs_clean)

lemma toVirtualPath_segs:
  assumes "clean (b @ t)" and "diskBase R = abs_path b" and "abs_of R = abs_path (b @ t)"
    and "virtualBase R = abs_path v" and "clean v"
  shows "toVirtualPath cwd R = abs_path (v @ t)"
proof -
  have "path_relative cwd (diskBase R) (abs_of R) = join ''/'' t"
    using relative_abs [of b t cwd] assms(1-3) by auto
  moreover have "filter (\<lambda>s. s \<noteq> []) (split_on slash (join ''/'' t)) = t"
    using assms(1) by (auto simp: split_on_join_clean clean_seg_def intro: filter_True)
  moreover have "abs_path v = ''/'' \<longleftrightarrow> v = []"
    using join_clean_not_Nil [OF assms(5), of "''/''"] by (auto simp: abs_path_def)
  ultimately show ?thesis
    by (cases "v = []"; cases "t = []")
      (simp_all add: toVirtualPath_def Let_def assms(4) abs_path_append, simp_all add: abs_path_def)
qed

text \<open>
  C1. Path resolution confines every request to its session. Whatever the path holds
  (\<open>..\<close>, empty or dotted segments, leading slashes), the result is a clean path at or below one of
  three directories of that session: its shared workspace, or the \<open>.claude\<close> or \<open>.venv\<close> directory
  of the agent that asked.
\<close>

theorem resolvePath_confined:
  assumes "request_ok h r sid agentId"
    and "fst (resolvePath h sid agentId rel f) = Inr R"
  shows "\<exists>b t. b \<in> {r @ [''sessions'', sid, ''shared''],
                   r @ [''sessions'', sid, ''agents'', the agentId, ''.claude''],
                   r @ [''sessions'', sid, ''agents'', the agentId, ''.venv'']} \<and>
           clean (b @ t) \<and> diskBase R = abs_path b \<and> abs_of R = abs_path (b @ t) \<and>
           below (diskBase R) (abs_of R)"
proof -
  let ?b = "base_segs r sid agentId rel"
  obtain g where "resolvePath h sid agentId rel f = (Inr R, g)"
    using assms(2) by (metis prod.collapse)
  then have v: "virtual_head rel \<longrightarrow> truthy agentId" and p: "prefix ?b (target_segs r sid agentId rel)"
    and R: "diskBase R = abs_path ?b" "abs_of R = abs_path (target_segs r sid agentId rel)"
    using resolvePath_Inr [OF assms(1)] by auto
  from p obtain t where t: "target_segs r sid agentId rel = ?b @ t" by (auto simp: prefix_def)
  have c: "clean ?b" "?b \<noteq> []" "clean (?b @ t)" using base_clean [OF assms(1)] v t by metis+
  have "below (abs_path ?b) (abs_path (?b @ t))" using below_abs [OF c(1,3,2)] by blast
  moreover have "?b \<in> {r @ [''sessions'', sid, ''shared''],
      r @ [''sessions'', sid, ''agents'', the agentId, ''.claude''],
      r @ [''sessions'', sid, ''agents'', the agentId, ''.venv'']}"
    by (auto simp: base_segs_def virtual_head_def)
  ultimately show ?thesis using R t c(3) by metis
qed

theorem resolvePath_confined_witness:
  "\<exists>R. fst (resolvePath \<lparr>host_env = [], host_cwd = ''/app''\<rparr> ''s1'' None ''a/../../shared/./b''
      \<lparr>nodes = [([], (Dir, 0))], now = 1\<rparr>) = Inr R \<and> below (diskBase R) (abs_of R)"
proof -
  let ?h = "\<lparr>host_env = [], host_cwd = ''/app''\<rparr>" and ?f = "\<lparr>nodes = [([], (Dir, 0))], now = 1\<rparr>"
  let ?R = "\<lparr>diskBase = ''/workspace-root/sessions/s1/shared'', virtualBase = ''/'',
             abs_of = ''/workspace-root/sessions/s1/shared/b''\<rparr>"
  have q: "request_ok ?h [''workspace-root''] ''s1'' None"
    using root_segs_default by (simp add: request_ok_def clean_seg_def)
  have e: "fst (resolvePath ?h ''s1'' None ''a/../../shared/./b'' ?f) = Inr ?R" by code_simp
  show ?thesis using e resolvePath_confined [OF q e] by blast
qed

text \<open>
  No path without a \<open>..\<close> segment is refused: it resolves inside its base directory to its own
  segments, the empty and \<open>.\<close> ones dropped. (A path below \<open>/.claude\<close> or \<open>/.venv\<close> needs the agent,
  and the base directory has to be there or to be creatable.)
\<close>

theorem resolvePath_accepts:
  assumes "request_ok h r sid agentId" and "virtual_head rel \<Longrightarrow> truthy agentId"
    and "''..'' \<notin> set (split_on slash (inner rel))"
    and "mkdir_recursive f (abs_path (base_segs r sid agentId rel)) = Inr g"
  shows "\<exists>R. resolvePath h sid agentId rel f = (Inr R, g) \<and>
    abs_of R = abs_path (base_segs r sid agentId rel @
      filter (\<lambda>s. s \<noteq> [] \<and> s \<noteq> ''.'') (split_on slash (inner rel)))"
  using assms
  by (auto simp: resolvePath_Inr [OF assms(1)] target_segs_def norm_segs_no_dotdot)

theorem resolvePath_accepts_witness:
  "\<exists>R. fst (resolvePath \<lparr>host_env = [], host_cwd = ''/app''\<rparr> ''s1'' (Some ''a1'') ''/.claude//x/./y''
      \<lparr>nodes = [([], (Dir, 0))], now = 1\<rparr>) = Inr R \<and>
    abs_of R = ''/workspace-root/sessions/s1/agents/a1/.claude/x/y''"
proof -
  let ?h = "\<lparr>host_env = [], host_cwd = ''/app''\<rparr>" and ?f = "\<lparr>nodes = [([], (Dir, 0))], now = 1\<rparr>"
  let ?rel = "''/.claude//x/./y''" and ?a = "Some ''a1''"
  have q: "request_ok ?h [''workspace-root''] ''s1'' ?a"
    using root_segs_default by (simp add: request_ok_def clean_seg_def)
  have v: "virtual_head ?rel \<Longrightarrow> truthy ?a" by simp
  have d: "''..'' \<notin> set (split_on slash (inner ?rel))" by code_simp
  have "\<exists>g. mkdir_recursive ?f (abs_path (base_segs [''workspace-root''] ''s1'' ?a ?rel)) = Inr g"
    by (rule mkdir_recursive_total) (code_simp, code_simp, code_simp,
      simp add: node_at_def is_dir_at_def split: if_splits)
  then obtain g where g: "mkdir_recursive ?f (abs_path (base_segs [''workspace-root''] ''s1'' ?a ?rel)) = Inr g"
    by blast
  have "abs_path (base_segs [''workspace-root''] ''s1'' ?a ?rel @
      filter (\<lambda>s. s \<noteq> [] \<and> s \<noteq> ''.'') (split_on slash (inner ?rel))) =
      ''/workspace-root/sessions/s1/agents/a1/.claude/x/y''" by code_simp
  with resolvePath_accepts [OF q v d g] show ?thesis by auto
qed

lemma virtual_path_of:
  assumes "clean t" and "virtual_head rel \<or> (t \<noteq> [] \<longrightarrow> hd t \<notin> {''.claude'', ''.venv''})"
  defines "vp \<equiv> abs_path ((if virtual_head rel then [fst (head_tail (strip_slashes rel))] else []) @ t)"
  shows "virtual_head vp \<longleftrightarrow> virtual_head rel" and "base_segs r sid agentId vp = base_segs r sid agentId rel"
    and "inner vp = join ''/'' t" and "virtual_of vp = virtual_of rel"
proof -
  obtain hd tl where ht: "head_tail (strip_slashes rel) = (hd, tl)" by fastforce
  have "head_tail (strip_slashes vp) =
      (if virtual_head rel then (hd, join ''/'' t)
       else case t of [] \<Rightarrow> ([], []) | s # u \<Rightarrow> (s, join ''/'' u))"
  proof (cases "virtual_head rel")
    case True
    then have "clean_seg hd" using ht by (auto simp: virtual_head_def)
    with True assms(1) ht show ?thesis
      by (simp add: vp_def strip_slashes_abs head_tail_join)
  next
    case False
    with assms(1) show ?thesis
      by (cases t) (simp_all add: vp_def strip_slashes_abs head_tail_join, simp add: head_tail_def)
  qed
  moreover have "strip_slashes vp = join ''/'' t" if "\<not> virtual_head rel"
    using that assms(1) by (simp add: vp_def strip_slashes_abs)
  ultimately show "virtual_head vp \<longleftrightarrow> virtual_head rel"
    and "base_segs r sid agentId vp = base_segs r sid agentId rel"
    and "inner vp = join ''/'' t" and "virtual_of vp = virtual_of rel"
    using ht assms(1,2) strip_slashes_join [OF assms(1)]
    by (auto simp: virtual_head_def base_segs_def inner_def virtual_of_def split: list.splits)
qed

text \<open>
  The virtual path that an answer carries leads back to where it came from: resolving it
  gives the same entry and changes nothing. The one exception is an entry of the shared
  workspace whose own first name is \<open>.claude\<close> or \<open>.venv\<close>, which the virtual layout hides.
\<close>

theorem virtualPath_roundtrip:
  assumes "request_ok h r sid agentId" and "tree_ok f"
    and "no_links f (base_segs r sid agentId rel)"
    and "resolvePath h sid agentId rel f = (Inr R, g)"
    and "abs_of R = abs_path (base_segs r sid agentId rel @ t)" and "clean t"
    and "virtual_head rel \<or> (t \<noteq> [] \<longrightarrow> hd t \<notin> {''.claude'', ''.venv''})"
  shows "resolvePath h sid agentId (toVirtualPath (host_cwd h) R) g = (Inr R, g)"
proof -
  let ?b = "base_segs r sid agentId rel"
  let ?v = "if virtual_head rel then [fst (head_tail (strip_slashes rel))] else []"
  let ?vp = "abs_path (?v @ t)"
  have v: "virtual_head rel \<longrightarrow> truthy agentId" and m: "mkdir_recursive f (abs_path ?b) = Inr g"
    and R: "R = \<lparr>diskBase = abs_path ?b, virtualBase = virtual_of rel, abs_of = abs_path (?b @ t)\<rparr>"
    using assms(4,5) resolvePath_Inr [OF assms(1)] by auto
  have c: "clean ?b" using base_clean(1) [OF assms(1)] v by blast
  have cv: "clean ?v" by (auto simp: virtual_head_def)
  have vp: "toVirtualPath (host_cwd h) R = ?vp"
  proof (rule toVirtualPath_segs)
    show "virtualBase R = abs_path ?v" by (simp add: R virtual_of_def abs_path_def)
  qed (use c cv assms(6) R in auto)
  note same = virtual_path_of [OF assms(6,7)]
  have "is_dir_at g ?b" using mkdir_recursive_spec(1) [OF m assms(2) c assms(3)] .
  then have "mkdir_recursive g (abs_path ?b) = Inr g"
    by (rule mkdir_recursive_existing [OF mkdir_recursive_ok [OF m assms(2)]])
  moreover have "target_segs r sid agentId ?vp = ?b @ t"
    using same norm_segs_join [OF assms(6), of "rev ?b"] by (simp add: target_segs_def)
  ultimately show ?thesis
    unfolding vp resolvePath_Inr [OF assms(1)] using same v R by simp
qed

theorem virtualPath_roundtrip_witness:
  "\<exists>R. resolvePath demo_host ''s1'' None ''docs/./b.bin'' demo_fs = (Inr R, demo_fs) \<and>
     resolvePath demo_host ''s1'' None (toVirtualPath (host_cwd demo_host) R) demo_fs = (Inr R, demo_fs)"
proof -
  let ?R = "\<lparr>diskBase = abs_path demo_shared, virtualBase = ''/'',
             abs_of = abs_path (demo_shared @ [''docs'', ''b.bin''])\<rparr>"
  let ?b = "base_segs [''workspace-root''] ''s1'' None ''docs/./b.bin''"
  have n: "no_links demo_fs ?b" by code_simp
  have e: "resolvePath demo_host ''s1'' None ''docs/./b.bin'' demo_fs = (Inr ?R, demo_fs)" by code_simp
  have a: "abs_of ?R = abs_path (?b @ [''docs'', ''b.bin''])" by code_simp
  have c: "clean [''docs'', ''b.bin'']" by code_simp
  have x: "virtual_head ''docs/./b.bin'' \<or>
      ([''docs'', ''b.bin''] \<noteq> [] \<longrightarrow> hd [''docs'', ''b.bin''] \<notin> {''.claude'', ''.venv''})" by simp
  from virtualPath_roundtrip [OF demo_request demo_tree n e a c x] e show ?thesis by blast
qed

section \<open>What each operation does\<close>

text \<open>
  The common opening of every operation: once the path has resolved, the rest runs on the
  physical path. \<open>at_target\<close> names the state in which it runs and says what resolution left.
\<close>

lemma resolved_state:
  assumes "request_ok h r sid agentId" and "tree_ok f" and "no_links f (target_segs r sid agentId rel)"
    and "resolvePath h sid agentId rel f = (Inr R, g)"
  shows "tree_ok g" and "grows f g" and "is_dir_at g (base_segs r sid agentId rel)"
    and "abs_of R = abs_path (target_segs r sid agentId rel)"
    and "diskBase R = abs_path (base_segs r sid agentId rel)"
    and "prefix (base_segs r sid agentId rel) (target_segs r sid agentId rel)"
    and "clean (target_segs r sid agentId rel)"
    and "clean (base_segs r sid agentId rel)"
    and "\<And>q. \<not> prefix q (base_segs r sid agentId rel) \<Longrightarrow> node_at g q = node_at f q"
    and "no_links g (target_segs r sid agentId rel)"
proof -
  let ?b = "base_segs r sid agentId rel" and ?p = "target_segs r sid agentId rel"
  have v: "virtual_head rel \<longrightarrow> truthy agentId" and m: "mkdir_recursive f (abs_path ?b) = Inr g"
    and p: "prefix ?b ?p" and R: "abs_of R = abs_path ?p" "diskBase R = abs_path ?b"
    using assms(4) resolvePath_Inr [OF assms(1)] by auto
  have c: "clean ?b" "clean ?p" using base_clean [OF assms(1)] v by blast+
  have nb: "no_links f ?b" using no_links_prefix [OF assms(3) p] .
  note spec = mkdir_recursive_spec [OF m assms(2) c(1) nb]
  show "tree_ok g" "grows f g" "is_dir_at g ?b" using mkdir_recursive_ok [OF m assms(2)] spec by auto
  show "abs_of R = abs_path ?p" "diskBase R = abs_path ?b" "prefix ?b ?p" "clean ?p" "clean ?b"
    using R p c by auto
  show other: "node_at g q = node_at f q" if "\<not> prefix q ?b" for q using spec(3) [OF that] .
  show "no_links g ?p" unfolding no_links_def
  proof (intro allI impI)
    fix q assume "prefix q ?p"
    show "\<not> link_at g q"
    proof (cases "prefix q ?b")
      case True
      then show ?thesis
        using prefix_is_dir [OF mkdir_recursive_ok [OF m assms(2)], of ?b q] spec(1) dir_not_link
        by (cases "q = ?b") (auto simp: strict_prefix_def is_dir_at_Some)
    next
      case False
      then show ?thesis using other [of q] assms(3) \<open>prefix q ?p\<close>
        by (simp add: no_links_def link_at_def)
    qed
  qed
qed

lemma target_not_root:
  assumes "clean b" and "clean p"
  shows "ensureNotVirtualRoot cwd \<lparr>diskBase = abs_path b, virtualBase = v, abs_of = abs_path p\<rparr> f =
    (if p = b then Inl (wsError invalid_path ''cannot modify workspace root'') else Inr (), f)"
  by (simp add: ensureNotVirtualRoot_def throw_if_def resolve_abs [OF assms(1)] resolve_abs [OF assms(2)]
      abs_path_inj [OF assms(2,1)])

lemma grows_is_dir: "grows f g \<Longrightarrow> is_dir_at f q \<Longrightarrow> is_dir_at g q"
  by (auto simp: grows_def is_dir_at_Some)

lemma lstat_opt_node:
  assumes "tree_ok f" and "clean p" and "link_free f p"
  shows "lstat_opt f (abs_path p) = node_at f p"
proof (cases "lstatSync f (abs_path p)")
  case (Inl e)
  with stat_None [OF assms(1) Inl] show ?thesis by (simp add: lstat_opt_def)
next
  case (Inr n)
  with stat_Inr [OF assms(2,3) _ Inr] show ?thesis by (simp add: lstat_opt_def)
qed

text \<open>Everything a write that succeeded did, step by step.\<close>

lemma writeFile_steps:
  assumes "request_ok h r sid agentId" and "tree_ok f" and "no_links f (target_segs r sid agentId rel)"
    and "writeFile h sid agentId rel opts f = (Inr c, g)"
  obtains R g0 g1 q s
  where "resolvePath h sid agentId rel f = (Inr R, g0)"
    and "target_segs r sid agentId rel = q @ [s]" and "prefix (base_segs r sid agentId rel) q"
    and "case node_at g0 (q @ [s]) of None \<Rightarrow> True | Some n \<Rightarrow> is_file n"
    and "write_guard opts (node_at g0 (q @ [s])) g0 = (Inr (), g0)"
    and "mkdir_recursive g0 (abs_path q) = Inr g1"
    and "writeFileSync g1 (abs_path (q @ [s])) (content_bytes opts) = Inr g"
    and "\<exists>n. lstatSync g (abs_path (q @ [s])) = Inr n \<and>
      c = \<lparr>contents_path = toVirtualPath (host_cwd h) R,
           contents_content = (if looksBinary (content_bytes opts) then [] else utf8_decode (content_bytes opts)),
           contents_encoding = Utf8, contents_size = node_size n, contents_mtime = mtime_ms n,
           contents_isBinary = looksBinary (content_bytes opts), contents_truncated = False\<rparr>"
proof -
  let ?p = "target_segs r sid agentId rel" and ?b = "base_segs r sid agentId rel"
  from assms(4) obtain R g0 where R: "resolvePath h sid agentId rel f = (Inr R, g0)"
    by (auto simp: writeFile_def and_then_Inr)
  note st = resolved_state [OF assms(1-3) R]
  have look: "lstat_opt g0 (abs_path ?p) = node_at g0 ?p"
    by (rule lstat_opt_node [OF st(1,7) no_links_free [OF st(10)]])
  have root: "ensureNotVirtualRoot (host_cwd h) R g0 =
      (if ?p = ?b then Inl (wsError invalid_path ''cannot modify workspace root'') else Inr (), g0)"
    using target_not_root [OF st(8,7), of "host_cwd h" "virtualBase R" g0] st(4,5) by (cases R) auto
  from assms(4) have run: "?p \<noteq> ?b"
    "case node_at g0 ?p of None \<Rightarrow> True | Some n \<Rightarrow> is_file n"
    "write_guard opts (node_at g0 ?p) g0 = (Inr (), g0)"
    and "\<exists>g1. mkdir_recursive g0 (path_dirname (abs_path ?p)) = Inr g1 \<and>
      writeFileSync g1 (abs_path ?p) (content_bytes opts) = Inr g"
    and fin: "\<exists>n. lstatSync g (abs_path ?p) = Inr n \<and>
      c = \<lparr>contents_path = toVirtualPath (host_cwd h) R,
           contents_content = (if looksBinary (content_bytes opts) then [] else utf8_decode (content_bytes opts)),
           contents_encoding = Utf8, contents_size = node_size n, contents_mtime = mtime_ms n,
           contents_isBinary = looksBinary (content_bytes opts), contents_truncated = False\<rparr>"
    by (auto simp: writeFile_def and_then_Inr R st(4) root look Let_def write_guard_def split: if_splits option.splits)
  then obtain g1 where g1: "mkdir_recursive g0 (path_dirname (abs_path ?p)) = Inr g1"
    "writeFileSync g1 (abs_path ?p) (content_bytes opts) = Inr g" by blast
  from st(6) run(1) obtain q s where q: "?p = q @ [s]" "prefix ?b q"
    by (metis prefix_snoc append_butlast_last_id prefix_bot.extremum_uniqueI)
  have "path_dirname (abs_path ?p) = abs_path q"
    using dirname_abs [of q s] st(7) q(1) by simp
  with g1 q run fin R that show ?thesis by metis
qed

lemma writeFile_effect:
  assumes "request_ok h r sid agentId" and "tree_ok f" and "no_links f (target_segs r sid agentId rel)"
    and "writeFile h sid agentId rel opts f = (Inr c, g)"
  defines "p \<equiv> target_segs r sid agentId rel"
  shows "tree_ok g" and "now g = now f" and "node_at g p = Some (File (content_bytes opts), now f)"
    and "\<And>q. \<not> prefix q p \<Longrightarrow> node_at g q = node_at f q"
    and "\<And>q. is_dir_at f q \<Longrightarrow> is_dir_at g q"
    and "case node_at f p of None \<Rightarrow> True | Some n \<Rightarrow> is_file n"
    and "write_guard opts (node_at f p) f = (Inr (), f)"
    and "\<exists>R. resolvePath h sid agentId rel g = (Inr R, g) \<and> abs_of R = abs_path p \<and>
      c = \<lparr>contents_path = toVirtualPath (host_cwd h) R,
           contents_content = (if looksBinary (content_bytes opts) then [] else utf8_decode (content_bytes opts)),
           contents_encoding = Utf8, contents_size = length (content_bytes opts),
           contents_mtime = mtime_ms (File (content_bytes opts), now f),
           contents_isBinary = looksBinary (content_bytes opts), contents_truncated = False\<rparr>"
proof -
  let ?b = "base_segs r sid agentId rel"
  from writeFile_steps [OF assms(1-4)] obtain R g0 g1 q s
    where R: "resolvePath h sid agentId rel f = (Inr R, g0)" and q: "p = q @ [s]" "prefix ?b q"
      and guard: "case node_at g0 p of None \<Rightarrow> True | Some n \<Rightarrow> is_file n"
        "write_guard opts (node_at g0 p) g0 = (Inr (), g0)"
      and m: "mkdir_recursive g0 (abs_path q) = Inr g1"
      and w: "writeFileSync g1 (abs_path p) (content_bytes opts) = Inr g"
      and c: "\<exists>n. lstatSync g (abs_path p) = Inr n \<and>
      c = \<lparr>contents_path = toVirtualPath (host_cwd h) R,
           contents_content = (if looksBinary (content_bytes opts) then [] else utf8_decode (content_bytes opts)),
           contents_encoding = Utf8, contents_size = node_size n, contents_mtime = mtime_ms n,
           contents_isBinary = looksBinary (content_bytes opts), contents_truncated = False\<rparr>"
    unfolding p_def by metis
  note st = resolved_state [OF assms(1-3) R, folded p_def]
  have cq: "clean q" "clean_seg s" using st(7) q(1) by auto
  have nq: "no_links g0 q" using st(10) q(1) no_links_prefix by (metis prefixI)
  note sm = mkdir_recursive_spec [OF m st(1) cq(1) nq]
  have npq: "\<not> prefix p q" using q(1) by (auto simp: prefix_def)
  have same: "node_at g1 p = node_at g0 p" using sm(3) [OF npq] .
  obtain g' where g': "writeFileSync g1 (abs_path p) (content_bytes opts) = Inr g'" "tree_ok g'"
    "node_at g' p = Some (File (content_bytes opts), now g1)" "now g' = now g1"
    "\<And>z. z \<noteq> p \<Longrightarrow> z \<noteq> q \<Longrightarrow> node_at g' z = node_at g1 z" "\<And>z. is_dir_at g' z = is_dir_at g1 z"
    using writeFileSync_spec [OF mkdir_recursive_ok [OF m st(1)] sm(1) cq(2), of "content_bytes opts"]
      guard(1) same q(1) by metis
  with w have e: "g' = g" by simp
  note g = g'(2-6) [unfolded e]
  have nw: "now g1 = now f" using sm(2) st(2) by (simp add: grows_def)
  show "tree_ok g" "now g = now f" "node_at g p = Some (File (content_bytes opts), now f)"
    using g nw by auto
  have npb: "\<not> prefix p ?b" using npq q(2) by (meson prefix_order.trans)
  then have f0: "node_at g0 p = node_at f p" by (rule st(9))
  show "case node_at f p of None \<Rightarrow> True | Some n \<Rightarrow> is_file n" using guard(1) f0 by simp
  show "write_guard opts (node_at f p) f = (Inr (), f)"
    using guard(2) f0 by (auto simp: write_guard_def split: if_splits option.splits)
  show "node_at g z = node_at f z" if "\<not> prefix z p" for z
  proof -
    have "z \<noteq> p" "z \<noteq> q" "\<not> prefix z q" using that q(1) by (auto dest: prefix_prefix)
    moreover from this q(2) have "\<not> prefix z ?b" by (meson prefix_order.trans)
    ultimately show ?thesis using g(4) sm(3) st(9) by metis
  qed
  show dirs: "is_dir_at g z" if "is_dir_at f z" for z
    using grows_is_dir [OF sm(2) grows_is_dir [OF st(2) that]] g(5) by simp
  have "is_dir_at g ?b" using grows_is_dir [OF sm(2) st(3)] g(5) by simp
  then have "mkdir_recursive g (abs_path ?b) = Inr g" by (rule mkdir_recursive_existing [OF g(1)])
  then have "resolvePath h sid agentId rel g = (Inr R, g)"
    using R unfolding resolvePath_Inr [OF assms(1)] by blast
  moreover have "lstatSync g (abs_path p) = Inr (File (content_bytes opts), now f)"
    using g(1,2) nw by (intro stat_node) auto
  ultimately show "\<exists>R. resolvePath h sid agentId rel g = (Inr R, g) \<and> abs_of R = abs_path p \<and>
      c = \<lparr>contents_path = toVirtualPath (host_cwd h) R,
           contents_content = (if looksBinary (content_bytes opts) then [] else utf8_decode (content_bytes opts)),
           contents_encoding = Utf8, contents_size = length (content_bytes opts),
           contents_mtime = mtime_ms (File (content_bytes opts), now f),
           contents_isBinary = looksBinary (content_bytes opts), contents_truncated = False\<rparr>"
    using c st(4) by auto
qed

text \<open>
  C2. No lost update. A write that succeeds without \<open>overwrite\<close> was based on the version on
  disk: either the client sent no modification time and the file was not there, or the file was
  there with exactly the modification time the client had read.
\<close>

theorem writeFile_no_lost_update:
  assumes "request_ok h r sid agentId" and "tree_ok f" and "no_links f (target_segs r sid agentId rel)"
    and "writeFile h sid agentId rel opts f = (Inr c, g)" and "opt_overwrite opts \<noteq> Some True"
  shows "(opt_expectedMtime opts = None \<and> node_at f (target_segs r sid agentId rel) = None) \<or>
    (\<exists>n. node_at f (target_segs r sid agentId rel) = Some n \<and> is_file n \<and>
       opt_expectedMtime opts = Some (of_nat (mtime_ms n)))"
  using writeFile_effect(6,7) [OF assms(1-4)] assms(5)
  by (auto simp: write_guard_def split: option.splits if_splits)

theorem writeFile_no_lost_update_witness:
  "\<exists>c g. writeFile demo_host ''s1'' None ''a.txt''
      \<lparr>opt_content = text_of ''new'', opt_encoding = None, opt_expectedMtime = Some 7, opt_overwrite = None\<rparr>
      demo_fs = (Inr c, g) \<and>
    (\<exists>n. node_at demo_fs (demo_shared @ [''a.txt'']) = Some n \<and> mtime_ms n = 7)"
proof -
  let ?o = "\<lparr>opt_content = text_of ''new'', opt_encoding = None, opt_expectedMtime = Some 7, opt_overwrite = None\<rparr>"
  have t: "target_segs [''workspace-root''] ''s1'' None ''a.txt'' = demo_shared @ [''a.txt'']" by code_simp
  have n: "no_links demo_fs (target_segs [''workspace-root''] ''s1'' None ''a.txt'')" by code_simp
  have "case fst (writeFile demo_host ''s1'' None ''a.txt'' ?o demo_fs) of Inl _ \<Rightarrow> False | Inr _ \<Rightarrow> True"
    by code_simp
  then obtain c g where w: "writeFile demo_host ''s1'' None ''a.txt'' ?o demo_fs = (Inr c, g)"
    by (metis prod.collapse sum.case(1) old.sum.exhaust)
  have "opt_overwrite ?o \<noteq> Some True" by simp
  from writeFile_no_lost_update [OF demo_request demo_tree n w this] w show ?thesis
    unfolding t by auto
qed

lemma io_InrI:
  assumes "case fst (m f) of Inl _ \<Rightarrow> False | Inr _ \<Rightarrow> True"
  shows "\<exists>x g. m f = (Inr x, g)"
  using assms by (cases "m f") (auto split: sum.splits)

text \<open>
  C4. Read your write: reading the path back after a write that succeeded returns the very
  answer the write gave (path, content, size, modification time), and changes nothing, as long
  as the file is within the size limit. The text comes back exactly, when it was sent as UTF-8,
  is well-formed and has no NUL among its first 8 KB.
\<close>

theorem readFile_after_writeFile:
  assumes "request_ok h r sid agentId" and "tree_ok f" and "no_links f (target_segs r sid agentId rel)"
    and "writeFile h sid agentId rel opts f = (Inr c, g)"
    and "length (content_bytes opts) \<le> workspaceMaxFileBytes (host_env h)"
  shows "readFile h sid agentId rel g = (Inr c, g) \<and>
    (opt_encoding opts \<noteq> Some Base64 \<and> well_formed (opt_content opts) \<and>
       \<not> looksBinary (utf8_encode (opt_content opts)) \<longrightarrow> contents_content c = opt_content opts)"
proof
  let ?p = "target_segs r sid agentId rel" and ?buf = "content_bytes opts"
  note eff = writeFile_effect [OF assms(1-4)]
  obtain R where R: "resolvePath h sid agentId rel g = (Inr R, g)" "abs_of R = abs_path ?p"
    and c: "c = \<lparr>contents_path = toVirtualPath (host_cwd h) R,
           contents_content = (if looksBinary ?buf then [] else utf8_decode ?buf),
           contents_encoding = Utf8, contents_size = length ?buf,
           contents_mtime = mtime_ms (File ?buf, now f),
           contents_isBinary = looksBinary ?buf, contents_truncated = False\<rparr>"
    using eff(8) by blast
  have "lstatSync g (abs_path ?p) = Inr (File ?buf, now f)" using eff(1,3) by (intro stat_node) auto
  moreover have "readFileSync g (abs_path ?p) = Inr ?buf" by (rule readFileSync_node [OF eff(1,3)])
  ultimately show "readFile h sid agentId rel g = (Inr c, g)"
    using assms(5) by (simp add: readFile_def resolved_then [OF R(1)] stat_regular_def io_simps R(2) c
        Let_def give_def)
  show "opt_encoding opts \<noteq> Some Base64 \<and> well_formed (opt_content opts) \<and>
       \<not> looksBinary (utf8_encode (opt_content opts)) \<longrightarrow> contents_content c = opt_content opts"
    by (auto simp: c content_bytes_def utf8_decode_encode split: option.splits encoding.splits)
qed

theorem readFile_after_writeFile_witness:
  "\<exists>c g. writeFile demo_host ''s1'' None ''docs/new/n.txt''
      \<lparr>opt_content = text_of ''hello'', opt_encoding = Some Utf8, opt_expectedMtime = None, opt_overwrite = None\<rparr>
      demo_fs = (Inr c, g) \<and> readFile demo_host ''s1'' None ''docs/new/n.txt'' g = (Inr c, g)"
proof -
  let ?o = "\<lparr>opt_content = text_of ''hello'', opt_encoding = Some Utf8, opt_expectedMtime = None, opt_overwrite = None\<rparr>"
  have n: "no_links demo_fs (target_segs [''workspace-root''] ''s1'' None ''docs/new/n.txt'')" by code_simp
  have "case fst (writeFile demo_host ''s1'' None ''docs/new/n.txt'' ?o demo_fs) of Inl _ \<Rightarrow> False | Inr _ \<Rightarrow> True"
    by code_simp
  from io_InrI [of "writeFile demo_host ''s1'' None ''docs/new/n.txt'' ?o", OF this] obtain c g
    where w: "writeFile demo_host ''s1'' None ''docs/new/n.txt'' ?o demo_fs = (Inr c, g)" by blast
  have "length (content_bytes ?o) \<le> workspaceMaxFileBytes (host_env demo_host)" by code_simp
  from readFile_after_writeFile [OF demo_request demo_tree n w this] w show ?thesis by blast
qed

text \<open>
  A write touches nothing else. Afterwards the file holds exactly the bytes of the request,
  stamped with the time of the write, and every entry other than the file and the directories
  above it is as it was; no directory disappears.
\<close>

theorem writeFile_frame:
  assumes "request_ok h r sid agentId" and "tree_ok f" and "no_links f (target_segs r sid agentId rel)"
    and "writeFile h sid agentId rel opts f = (Inr c, g)"
  shows "node_at g (target_segs r sid agentId rel) = Some (File (content_bytes opts), now f) \<and>
    (\<forall>q. \<not> prefix q (target_segs r sid agentId rel) \<longrightarrow> node_at g q = node_at f q) \<and>
    (\<forall>q. is_dir_at f q \<longrightarrow> is_dir_at g q)"
  using writeFile_effect(3-5) [OF assms] by blast

theorem writeFile_frame_witness:
  "\<exists>c g. writeFile demo_host ''s1'' None ''a.txt''
      \<lparr>opt_content = text_of ''x'', opt_encoding = None, opt_expectedMtime = None, opt_overwrite = Some True\<rparr>
      demo_fs = (Inr c, g) \<and> node_at g (demo_shared @ [''a.txt'']) = Some (File [120], 9000000) \<and>
    node_at g (demo_shared @ [''docs'', ''b.bin'']) = Some (File [0, 1], 8000000)"
proof -
  let ?o = "\<lparr>opt_content = text_of ''x'', opt_encoding = None, opt_expectedMtime = None, opt_overwrite = Some True\<rparr>"
  have n: "no_links demo_fs (target_segs [''workspace-root''] ''s1'' None ''a.txt'')" by code_simp
  have t: "target_segs [''workspace-root''] ''s1'' None ''a.txt'' = demo_shared @ [''a.txt'']" by code_simp
  have "case fst (writeFile demo_host ''s1'' None ''a.txt'' ?o demo_fs) of Inl _ \<Rightarrow> False | Inr _ \<Rightarrow> True"
    by code_simp
  from io_InrI [of "writeFile demo_host ''s1'' None ''a.txt'' ?o", OF this] obtain c g
    where w: "writeFile demo_host ''s1'' None ''a.txt'' ?o demo_fs = (Inr c, g)" by blast
  have b: "content_bytes ?o = [120]" "now demo_fs = 9000000" by code_simp+
  have o: "\<not> prefix (demo_shared @ [''docs'', ''b.bin'']) (demo_shared @ [''a.txt''])"
    "node_at demo_fs (demo_shared @ [''docs'', ''b.bin'']) = Some (File [0, 1], 8000000)" by code_simp+
  from writeFile_frame [OF demo_request demo_tree n w] w o show ?thesis unfolding t b by auto
qed

end
