(* ===== verification/WorkspaceProps.thy ===== *)
theory WorkspaceProps
  imports WorkspaceFacts
begin

text \<open>
  The rest of what the workspace service guarantees: invariants that every operation keeps,
  through an interface of preserved state predicates; what errors leave behind; deleting,
  moving and listing; and the limits of the link check.
\<close>

section \<open>Invariants of the service\<close>

definition keeps :: "(fs \<Rightarrow> bool) \<Rightarrow> 'a io \<Rightarrow> bool" where
  "keeps P m \<longleftrightarrow> (\<forall>f. P f \<longrightarrow> P (snd (m f)))"

lemma keepsD: "keeps P m \<Longrightarrow> P f \<Longrightarrow> P (snd (m f))"
  by (simp add: keeps_def)

named_theorems keeps_intros

lemma keeps_and_then [keeps_intros]: "keeps P m \<Longrightarrow> (\<And>x. keeps P (k x)) \<Longrightarrow> keeps P (and_then m k)"
  unfolding keeps_def and_then_def
  by (auto split: prod.splits sum.splits)

lemma keeps_pure [keeps_intros]:
  "keeps P (give x)" "keeps P (throw e)" "keeps P (throw_if b e)" "keeps P (reads q)" "keeps P (reads_or q e)"
  by (auto simp: keeps_def give_def throw_def throw_if_def reads_def reads_or_def)

lemma keeps_writes: "(\<And>f g. op f = Inr g \<Longrightarrow> P f \<Longrightarrow> P g) \<Longrightarrow> keeps P (writes op)"
  by (auto simp: keeps_def writes_def split: sum.splits)

lemma keeps_branches [keeps_intros]:
  "(b \<Longrightarrow> keeps P m) \<Longrightarrow> (\<not> b \<Longrightarrow> keeps P n) \<Longrightarrow> keeps P (if b then m else n)"
  "(\<And>e. keeps P (ml e)) \<Longrightarrow> (\<And>x. keeps P (mr x)) \<Longrightarrow> keeps P (case s of Inl e \<Rightarrow> ml e | Inr x \<Rightarrow> mr x)"
  by (auto split: sum.split)

text \<open>
  What a state predicate has to satisfy for the calls the service makes, and what follows for
  the service: a predicate that the calls of \<open>node:fs\<close> keep is kept by every operation,
  whether it returns or throws.
\<close>

locale store_invariant =
  fixes P :: "fs \<Rightarrow> bool"
  assumes mkdir: "mkdirSync f p = Inr g \<Longrightarrow> P f \<Longrightarrow> P g"
    and mkdir_all: "mkdir_recursive f p = Inr g \<Longrightarrow> P f \<Longrightarrow> P g"
    and write_file_bytes: "writeFileSync f p b = Inr g \<Longrightarrow> P f \<Longrightarrow> P g"
    and unlink: "unlinkSync f p = Inr g \<Longrightarrow> P f \<Longrightarrow> P g"
    and rmdir: "rmdirSync f p = Inr g \<Longrightarrow> P f \<Longrightarrow> P g"
    and rm: "rm_recursive force f p = Inr g \<Longrightarrow> P f \<Longrightarrow> P g"
    and rename: "renameSync f p q = Inr g \<Longrightarrow> P f \<Longrightarrow> P g"
begin

lemma resolve: "keeps P (resolvePath h sid agentId rel)"
  unfolding resolvePath_def Let_def
  by (cases "head_tail (strip_slashes rel)") (auto intro!: keeps_intros keeps_writes dest: mkdir_all)

lemma not_root: "keeps P (ensureNotVirtualRoot cwd R)"
  unfolding ensureNotVirtualRoot_def by (rule keeps_intros)

lemma regular: "keeps P (stat_regular p)"
  unfolding stat_regular_def by (intro keeps_intros)

lemma guard: "keeps P (write_guard opts st)"
  unfolding write_guard_def by (auto intro: keeps_intros split: option.split)

lemma list_tree: "keeps P (listTree lc h sid agentId rel hidden)"
  unfolding listTree_def by (intro keeps_intros resolve)

lemma read_file: "keeps P (readFile h sid agentId rel)"
  unfolding readFile_def Let_def by (intro keeps_intros resolve regular)

lemma stat_file: "keeps P (statFile h sid agentId rel)"
  unfolding statFile_def by (intro keeps_intros resolve regular)

lemma download: "keeps P (openDownloadStream h sid agentId rel)"
  unfolding openDownloadStream_def by (intro keeps_intros resolve regular)

lemma write_file: "keeps P (writeFile h sid agentId rel opts)"
  unfolding writeFile_def Let_def
  by (intro keeps_intros resolve not_root guard keeps_writes) (auto dest: mkdir_all write_file_bytes)

lemma create_directory: "keeps P (createDirectory h sid agentId rel)"
proof -
  have "keeps P (\<lambda>f. case mkdirSync f p of Inl code \<Rightarrow> (Inl (mkdir_fault code), f) | Inr g \<Rightarrow> (Inr (), g))"
    for p using mkdir by (auto simp: keeps_def split: sum.splits)
  then show ?thesis
    unfolding createDirectory_def by (intro keeps_intros resolve not_root)
qed

lemma delete_entry: "keeps P (deleteEntry h sid agentId rel recursive)"
  unfolding deleteEntry_def
  by (intro keeps_intros resolve not_root keeps_writes) (auto dest: unlink rmdir rm)

lemma move_entry: "keeps P (moveEntry h sid agentId from to)"
  unfolding moveEntry_def
  by (intro keeps_intros resolve not_root keeps_writes) (auto dest: mkdir_all rename)

end

interpretation tree: store_invariant tree_ok
  by unfold_locales (auto intro: mkdirSync_ok mkdir_recursive_ok writeFileSync_ok unlinkSync_ok
      rmdirSync_ok rm_recursive_ok renameSync_ok)

text \<open>The requests of the service as events, and the state after a sequence of them.\<close>

datatype ws_request =
    ListTree string "string option" string bool
  | ReadFile string "string option" string
  | StatFile string "string option" string
  | Download string "string option" string
  | WriteFile string "string option" string WriteFileOptions
  | CreateDirectory string "string option" string
  | DeleteEntry string "string option" string bool
  | MoveEntry string "string option" string string

fun serve :: "(string \<Rightarrow> string \<Rightarrow> int) \<Rightarrow> host \<Rightarrow> fs \<Rightarrow> ws_request \<Rightarrow> fs" where
  "serve lc h f (ListTree s a p i) = snd (listTree lc h s a p i f)"
| "serve lc h f (ReadFile s a p) = snd (readFile h s a p f)"
| "serve lc h f (StatFile s a p) = snd (statFile h s a p f)"
| "serve lc h f (Download s a p) = snd (openDownloadStream h s a p f)"
| "serve lc h f (WriteFile s a p opts) = snd (writeFile h s a p opts f)"
| "serve lc h f (CreateDirectory s a p) = snd (createDirectory h s a p f)"
| "serve lc h f (DeleteEntry s a p r) = snd (deleteEntry h s a p r f)"
| "serve lc h f (MoveEntry s a p q) = snd (moveEntry h s a p q f)"

interpretation service: machine "serve lc h" tree_ok for lc h
proof
  show "tree_ok (serve lc h f q)" if "tree_ok f" for f q
    using that
    by (cases q) (auto intro: keepsD [OF tree.list_tree] keepsD [OF tree.read_file]
        keepsD [OF tree.stat_file] keepsD [OF tree.download] keepsD [OF tree.write_file]
        keepsD [OF tree.create_directory] keepsD [OF tree.delete_entry] keepsD [OF tree.move_entry])
qed



section \<open>What an error leaves\<close>

definition error_safe :: "(fault \<Rightarrow> bool) \<Rightarrow> 'a io \<Rightarrow> bool" where
  "error_safe E m \<longleftrightarrow> (\<forall>f e g. m f = (Inl e, g) \<longrightarrow> E e \<longrightarrow> grows f g)"

definition only_grows :: "'a io \<Rightarrow> bool" where
  "only_grows m \<longleftrightarrow> (\<forall>f. grows f (snd (m f)))"

named_theorems safe_intros

lemma only_grows_pure [safe_intros]:
  "only_grows (give x)" "only_grows (throw e)" "only_grows (throw_if b e)" "only_grows (reads q)"
  "only_grows (reads_or q e)"
  by (auto simp: only_grows_def give_def throw_def throw_if_def reads_def reads_or_def)

lemma only_grows_mkdir [safe_intros]: "only_grows (writes (\<lambda>f. mkdir_recursive f p))"
  by (auto simp: only_grows_def writes_def split: sum.splits dest: mkdir_recursive_grows)

lemma only_grows_and_then [safe_intros]:
  assumes "only_grows m" and "\<And>x. only_grows (k x)"
  shows "only_grows (and_then m k)"
  unfolding only_grows_def
proof
  fix f
  obtain r f' where m: "m f = (r, f')" by (cases "m f")
  from assms(1) have a: "grows f f'" unfolding only_grows_def by (metis m snd_conv)
  show "grows f (snd (and_then m k f))"
  proof (cases r)
    case (Inr x)
    have "grows f' (snd (k x f'))" using assms(2) unfolding only_grows_def by blast
    with a m Inr show ?thesis by (auto simp: and_then_def intro: grows_trans)
  qed (use a m in \<open>simp add: and_then_def\<close>)
qed

lemma only_grows_branches [safe_intros]:
  "(b \<Longrightarrow> only_grows m) \<Longrightarrow> (\<not> b \<Longrightarrow> only_grows n) \<Longrightarrow> only_grows (if b then m else n)"
  "(\<And>e. only_grows (ml e)) \<Longrightarrow> (\<And>x. only_grows (mr x)) \<Longrightarrow> only_grows (case s of Inl e \<Rightarrow> ml e | Inr x \<Rightarrow> mr x)"
  by (auto split: sum.split)

lemma only_grows_resolve [safe_intros]: "only_grows (resolvePath h sid agentId rel)"
  unfolding resolvePath_def Let_def
  by (cases "head_tail (strip_slashes rel)") (auto intro!: safe_intros)

lemma only_grows_root [safe_intros]: "only_grows (ensureNotVirtualRoot cwd R)"
  unfolding ensureNotVirtualRoot_def by (rule safe_intros)

lemma only_grows_guard [safe_intros]: "only_grows (write_guard opts st)"
  unfolding write_guard_def by (auto intro: safe_intros split: option.split)

text \<open>A step that fails changes nothing itself; what ran before it only grew the tree.\<close>

lemma error_safe_grows: "only_grows m \<Longrightarrow> error_safe E m"
  unfolding only_grows_def error_safe_def by (metis snd_conv)

lemma error_safe_writes: "error_safe E (writes op)"
  by (auto simp: error_safe_def writes_def split: sum.splits)

lemma error_safe_if: "(b \<Longrightarrow> error_safe E m) \<Longrightarrow> (\<not> b \<Longrightarrow> error_safe E n) \<Longrightarrow> error_safe E (if b then m else n)"
  by simp

lemma error_safe_and_then:
  assumes "only_grows m" and "\<And>x. error_safe E (k x)"
  shows "error_safe E (and_then m k)"
  unfolding error_safe_def
proof (intro allI impI)
  fix f e g assume r: "and_then m k f = (Inl e, g)" "E e"
  obtain q f' where m: "m f = (q, f')" by (cases "m f")
  from assms(1) have a: "grows f f'" unfolding only_grows_def by (metis m snd_conv)
  show "grows f g"
  proof (cases q)
    case (Inr x)
    with r m have "k x f' = (Inl e, g)" by (simp add: and_then_def)
    with assms(2) r(2) a show ?thesis unfolding error_safe_def by (metis grows_trans)
  qed (use a m r in \<open>simp add: and_then_def\<close>)
qed

lemma error_safe_last:
  "(\<And>e. \<not> E (FsError e)) \<Longrightarrow> error_safe E (and_then (writes op) (\<lambda>_. and_then (reads q) (\<lambda>x. give (k x))))"
  by (auto simp: error_safe_def and_then_def writes_def reads_def give_def split: sum.splits prod.splits)

lemma writeFile_error_safe:
  "(\<And>e. \<not> E (FsError e)) \<Longrightarrow> error_safe E (writeFile h sid agentId rel opts)"
  unfolding writeFile_def Let_def
  by (intro error_safe_and_then safe_intros error_safe_last)

lemma createDirectory_error_safe: "error_safe E (createDirectory h sid agentId rel)"
proof -
  have "only_grows (\<lambda>f. case mkdirSync f p of Inl code \<Rightarrow> (Inl (mkdir_fault code), f) | Inr g \<Rightarrow> (Inr (), g))"
    for p by (auto simp: only_grows_def split: sum.splits dest: mkdirSync_grows)
  then show ?thesis
    unfolding createDirectory_def by (intro error_safe_grows safe_intros)
qed

lemma deleteEntry_error_safe: "error_safe E (deleteEntry h sid agentId rel recursive)"
  unfolding deleteEntry_def
  by (intro error_safe_and_then safe_intros error_safe_if error_safe_writes)
    (auto intro: error_safe_grows safe_intros)

lemma moveEntry_error_safe: "error_safe E (moveEntry h sid agentId from to)"
  unfolding moveEntry_def
  by (intro error_safe_and_then safe_intros error_safe_writes)



section \<open>Deleting\<close>

lemma resolved_root:
  assumes "request_ok h r sid agentId" and "tree_ok f" and "no_links f (target_segs r sid agentId rel)"
    and "resolvePath h sid agentId rel f = (Inr R, g)"
  shows "ensureNotVirtualRoot (host_cwd h) R k =
    (if target_segs r sid agentId rel = base_segs r sid agentId rel
     then Inl (wsError invalid_path ''cannot modify workspace root'') else Inr (), k)"
  using resolved_state(4,5,7,8) [OF assms]
    target_not_root [of "base_segs r sid agentId rel" "target_segs r sid agentId rel" "host_cwd h" "virtualBase R" k]
  by (cases R) auto

lemma proper_target:
  assumes "prefix b p" and "p \<noteq> b"
  obtains q s where "p = q @ [s]" and "prefix b q"
  using assms by (metis prefix_snoc append_butlast_last_id prefix_bot.extremum_uniqueI)

text \<open>The state in which a removal runs, and the three ways it ends.\<close>

lemma deleteEntry_steps:
  assumes "request_ok h r sid agentId" and "tree_ok f" and "no_links f (target_segs r sid agentId rel)"
    and "deleteEntry h sid agentId rel recursive f = (Inr (), g)"
  defines "p \<equiv> target_segs r sid agentId rel"
  obtains f0 n where "tree_ok f0" and "\<And>q. \<not> prefix q (base_segs r sid agentId rel) \<Longrightarrow> node_at f0 q = node_at f q"
    and "grows f f0" and "prefix (base_segs r sid agentId rel) p" and "p \<noteq> base_segs r sid agentId rel"
    and "node_at f0 p = Some n"
    and "g = stamp_dir (butlast p) (drop_node p f0) \<and> (\<forall>s. node_at f0 (p @ [s]) = None) \<or>
         is_dir n \<and> recursive \<and> g = drop_tree p f0"
proof -
  from assms(4) obtain R f0 where R: "resolvePath h sid agentId rel f = (Inr R, f0)"
    by (auto simp: deleteEntry_def and_then_Inr)
  note st = resolved_state [OF assms(1-3) R, folded p_def]
  from assms(4) have pb: "p \<noteq> base_segs r sid agentId rel"
    by (auto simp: deleteEntry_def and_then_Inr R resolved_root [OF assms(1-3) R] p_def split: if_splits)
  then have pn: "p \<noteq> []" using st(6) by auto
  have root: "ensureNotVirtualRoot (host_cwd h) R k = (Inr (), k)" for k
    using resolved_root [OF assms(1-3) R, of k] pb by (simp add: p_def)
  from assms(4) obtain n where n: "lstatSync f0 (abs_path p) = Inr n"
    by (auto simp: deleteEntry_def and_then_Inr R st(4) root)
  have np: "node_at f0 p = Some n"
    using stat_Inr [OF st(7) no_links_free [OF st(10)] _ n] by simp
  have run: "(if is_file n then writes (\<lambda>f. unlinkSync f (abs_path p))
     else if is_dir n then
       (if recursive then writes (\<lambda>f. rm_recursive False f (abs_path p))
        else
          and_then (reads (\<lambda>f. readdirSync f (abs_path p))) (\<lambda>names.
          and_then (throw_if (length names > 0) (wsError not_empty ''directory is not empty'')) (\<lambda>_.
          writes (\<lambda>f. rmdirSync f (abs_path p)))))
     else throw (wsError invalid_path ''unsupported entry type'')) f0 = (Inr (), g)"
  proof -
    have "\<not> is_link n" using no_links_self [OF st(10)] np by (simp add: link_at_def)
    moreover have "and_then (ensureNotVirtualRoot (host_cwd h) R) k f0 = k () f0" for k :: "unit \<Rightarrow> unit io"
      by (simp add: and_then_def root)
    ultimately show ?thesis
      using assms(4) unfolding deleteEntry_def resolved_then [OF R] st(4)
      by (simp add: io_simps n split del: if_split)
  qed
  have "g = stamp_dir (butlast p) (drop_node p f0) \<and> (\<forall>s. node_at f0 (p @ [s]) = None) \<or>
      is_dir n \<and> recursive \<and> g = drop_tree p f0"
  proof (cases "is_dir n")
    case False
    then have "\<not> is_dir_at f0 p" using np by (simp add: is_dir_at_def)
    then have "\<forall>s. node_at f0 (p @ [s]) = None" using not_dir_no_children [OF st(1)] by blast
    moreover from run False unlinkSync_node [OF st(1) np False]
    have "g = stamp_dir (butlast p) (drop_node p f0)" by (auto split: if_splits)
    ultimately show ?thesis by simp
  next
    case True
    then have d: "is_dir_at f0 p" "\<not> is_file n" using np by (auto simp: is_dir_at_def is_file_iff is_dir_iff)
    show ?thesis
    proof (cases recursive)
      case True
      with run d \<open>is_dir n\<close> rm_recursive_node [OF st(1) _ pn, of False] np show ?thesis by auto
    next
      case False
      with run d \<open>is_dir n\<close> readdirSync_node [OF st(1) d(1)] have c: "children f0 p = []"
        by (auto simp: and_then_Inr)
      with run d \<open>is_dir n\<close> False rmdirSync_node [OF st(1) d(1) pn c]
      have "g = stamp_dir (butlast p) (drop_node p f0)" by (auto simp: and_then_Inr)
      with c show ?thesis by (simp add: children_empty)
    qed
  qed
  with that st(1,2,6,9) pb np show ?thesis by blast
qed

text \<open>
  C15. A deletion that succeeds removed the entry and everything below it, and nothing else: the
  entry had been there, entries elsewhere are untouched, no directory outside is lost, and
  without \<open>recursive\<close> a directory had to be empty.
\<close>

theorem deleteEntry_exact:
  assumes "request_ok h r sid agentId" and "tree_ok f" and "no_links f (target_segs r sid agentId rel)"
    and "deleteEntry h sid agentId rel recursive f = (Inr (), g)"
  shows "node_at f (target_segs r sid agentId rel) \<noteq> None \<and>
    (\<forall>q. prefix (target_segs r sid agentId rel) q \<longrightarrow> node_at g q = None) \<and>
    (\<forall>q. \<not> prefix (target_segs r sid agentId rel) q \<and> \<not> prefix q (target_segs r sid agentId rel) \<longrightarrow>
       node_at g q = node_at f q) \<and>
    (\<forall>q. is_dir_at f q \<and> \<not> prefix (target_segs r sid agentId rel) q \<longrightarrow> is_dir_at g q) \<and>
    (recursive \<or> (\<forall>s. node_at f (target_segs r sid agentId rel @ [s]) = None))"
proof -
  let ?p = "target_segs r sid agentId rel" and ?b = "base_segs r sid agentId rel"
  obtain f0 n where f0: "tree_ok f0" "\<And>q. \<not> prefix q ?b \<Longrightarrow> node_at f0 q = node_at f q" "grows f f0"
    and p: "prefix ?b ?p" "?p \<noteq> ?b" and n: "node_at f0 ?p = Some n"
    and g: "g = stamp_dir (butlast ?p) (drop_node ?p f0) \<and> (\<forall>s. node_at f0 (?p @ [s]) = None) \<or>
         is_dir n \<and> recursive \<and> g = drop_tree ?p f0"
    by (rule deleteEntry_steps [OF assms]) (rule that)
  have bq: "\<not> prefix q ?b" if "prefix ?p q" for q
    using p that by (meson prefix_order.trans prefix_order.antisym)
  have "?p \<noteq> []" using p by auto
  then have nb: "\<not> prefix ?p (butlast ?p)" by (rule not_prefix_butlast)
  have gone: "node_at g q = None" if "prefix ?p q" for q
  proof (cases "q = ?p")
    case False
    with that have "strict_prefix ?p q" by (simp add: strict_prefix_def)
    then show ?thesis
      using g below_empty [OF f0(1), of ?p q] that nb by (auto simp: node_at_stamp_dir node_at_drop_tree)
  qed (use g nb in \<open>auto simp: node_at_stamp_dir node_at_drop_tree\<close>)
  have bl: "prefix (butlast ?p) ?p" by (rule prefixeq_butlast)
  have other: "node_at g q = node_at f0 q" if "\<not> prefix ?p q" "\<not> prefix q ?p" for q
    using g that bl by (auto simp: node_at_stamp_dir node_at_drop_tree)
  have dirs: "is_dir_at g q" if "is_dir_at f0 q" "\<not> prefix ?p q" for q
    using g that by (auto simp: is_dir_at_Some node_at_stamp_dir node_at_drop_tree split: if_splits)
  have "node_at f ?p \<noteq> None" using n f0(2) [of ?p] bq by auto
  moreover have "node_at g q = node_at f q" if "\<not> prefix ?p q" "\<not> prefix q ?p" for q
  proof -
    have "\<not> prefix q ?b" using that(2) p(1) by (meson prefix_order.trans)
    then show ?thesis using other [OF that] f0(2) by simp
  qed
  moreover have "recursive \<or> (\<forall>s. node_at f (?p @ [s]) = None)"
    using g f0(2) bq by (metis prefixI)
  ultimately show ?thesis using gone dirs grows_is_dir [OF f0(3)] by blast
qed

theorem deleteEntry_exact_witness:
  "\<exists>g. deleteEntry demo_host ''s1'' None ''docs'' True demo_fs = (Inr (), g) \<and>
    node_at g (demo_shared @ [''docs'', ''b.bin'']) = None \<and>
    node_at g (demo_shared @ [''a.txt'']) = Some (File [104, 105], 7000000)"
proof -
  have n: "no_links demo_fs (target_segs [''workspace-root''] ''s1'' None ''docs'')" by code_simp
  have t: "target_segs [''workspace-root''] ''s1'' None ''docs'' = demo_shared @ [''docs'']" by code_simp
  have "case fst (deleteEntry demo_host ''s1'' None ''docs'' True demo_fs) of Inl _ \<Rightarrow> False | Inr _ \<Rightarrow> True"
    by code_simp
  from io_InrI [of "deleteEntry demo_host ''s1'' None ''docs'' True", OF this] obtain g
    where g: "deleteEntry demo_host ''s1'' None ''docs'' True demo_fs = (Inr (), g)" by auto
  have x: "\<not> prefix (demo_shared @ [''docs'']) (demo_shared @ [''a.txt''])"
    "\<not> prefix (demo_shared @ [''a.txt'']) (demo_shared @ [''docs''])"
    "prefix (demo_shared @ [''docs'']) (demo_shared @ [''docs'', ''b.bin''])"
    "node_at demo_fs (demo_shared @ [''a.txt'']) = Some (File [104, 105], 7000000)" by code_simp+
  from deleteEntry_exact [OF demo_request demo_tree n g] g x show ?thesis unfolding t by metis
qed

section \<open>Moving\<close>

lemma resolved_links:
  assumes "request_ok h r sid agentId" and "tree_ok f" and "no_links f (target_segs r sid agentId rel)"
    and "resolvePath h sid agentId rel f = (Inr R, g)" and "no_links f p"
  shows "no_links g p"
  unfolding no_links_def
proof (intro allI impI)
  fix q assume q: "prefix q p"
  note st = resolved_state [OF assms(1-4)]
  show "\<not> link_at g q"
  proof (cases "prefix q (base_segs r sid agentId rel)")
    case True
    then have "prefix q (target_segs r sid agentId rel)" using st(6) by (meson prefix_order.trans)
    with st(10) show ?thesis by (simp add: no_links_def)
  next
    case False
    with st(9) [of q] assms(5) q show ?thesis by (simp add: no_links_def link_at_def)
  qed
qed

lemma never_Some: "(\<forall>a b. x \<noteq> Some (a, b)) \<longleftrightarrow> x = None"
  by (cases x) auto

lemma moveEntry_steps:
  assumes "request_ok h r sid agentId" and "tree_ok f"
    and "no_links f (target_segs r sid agentId from)" and "no_links f (target_segs r sid agentId to)"
    and "moveEntry h sid agentId from to f = (Inr (), g)"
  defines "a \<equiv> target_segs r sid agentId from" and "b \<equiv> target_segs r sid agentId to"
  obtains f2 q s where "tree_ok f2" and "grows f f2"
    and "\<And>z. \<not> prefix z a \<Longrightarrow> \<not> prefix z b \<Longrightarrow> node_at f2 z = node_at f z"
    and "\<And>z. node_at f2 (a @ z) = node_at f (a @ z)"
    and "node_at f a \<noteq> None" and "node_at f b = None" and "b = q @ [s]" and "is_dir_at f2 q"
    and "node_at f2 b = None" and "\<not> prefix a b" and "g = move_tree a b f2" and "a \<noteq> []"
proof -
  let ?ba = "base_segs r sid agentId from" and ?bb = "base_segs r sid agentId to"
  from assms(5) obtain R1 f0 R2 f1
    where R1: "resolvePath h sid agentId from f = (Inr R1, f0)"
      and R2: "resolvePath h sid agentId to f0 = (Inr R2, f1)"
    by (auto simp: moveEntry_def and_then_Inr)
  note s1 = resolved_state [OF assms(1-3) R1, folded a_def]
  note l0 = resolved_links [OF assms(1-3) R1]
  note s2 = resolved_state [OF assms(1) s1(1) l0 [OF assms(4)] R2, folded b_def]
  note l1 = resolved_links [OF assms(1) s1(1) l0 [OF assms(4)] R2]
  have r1: "ensureNotVirtualRoot (host_cwd h) R1 k = (if a = ?ba
      then Inl (wsError invalid_path ''cannot modify workspace root'') else Inr (), k)" for k
    using resolved_root [OF assms(1-3) R1] by (simp add: a_def)
  have r2: "ensureNotVirtualRoot (host_cwd h) R2 k = (if b = ?bb
      then Inl (wsError invalid_path ''cannot modify workspace root'') else Inr (), k)" for k
    using resolved_root [OF assms(1) s1(1) l0 [OF assms(4)] R2] by (simp add: b_def)
  have da: "link_free f1 a" "link_free f1 b"
    using l1 [OF l0 [OF assms(3)]] s2(10) no_links_free by (auto simp: a_def)
  note look = lstat_opt_node [OF s2(1,7) da(2)]
  from assms(5) have run: "a \<noteq> ?ba" "b \<noteq> ?bb" "\<exists>n. lstatSync f1 (abs_path a) = Inr n"
    "node_at f1 b = None"
    "\<exists>f2. mkdir_recursive f1 (path_dirname (abs_path b)) = Inr f2 \<and> renameSync f2 (abs_path a) (abs_path b) = Inr g"
    by (auto simp: moveEntry_def and_then_Inr R1 R2 r1 r2 s1(4) s2(4) look never_Some split: if_splits)
  from run(5) obtain f2 where f2: "mkdir_recursive f1 (path_dirname (abs_path b)) = Inr f2"
    "renameSync f2 (abs_path a) (abs_path b) = Inr g" by blast
  obtain q s where b: "b = q @ [s]" "prefix ?bb q" using proper_target [OF s2(6) run(2)] by metis
  obtain qa sa where a: "a = qa @ [sa]" "prefix ?ba qa" using proper_target [OF s1(6) run(1)] by metis
  have cq: "clean q" "clean_seg s" using s2(7) b(1) by auto
  have "path_dirname (abs_path b) = abs_path q" using dirname_abs [of q s] s2(7) b(1) by simp
  with f2 have m: "mkdir_recursive f1 (abs_path q) = Inr f2" by simp
  have nq: "no_links f1 q" using s2(10) b(1) no_links_prefix by (metis prefixI)
  note sm = mkdir_recursive_spec [OF m s2(1) cq(1) nq]
  have t2: "tree_ok f2" by (rule mkdir_recursive_ok [OF m s2(1)])
  have npq: "\<not> prefix b q" using b(1) by (auto simp: prefix_def)
  have nb2: "node_at f2 b = None" using sm(3) [OF npq] run(4) by simp
  obtain n where n: "lstatSync f1 (abs_path a) = Inr n" using run(3) by blast
  have na: "node_at f1 a = Some n" using stat_Inr [OF s1(7) da(1) _ n] by simp
  have na2: "node_at f2 a \<noteq> None" using grows_node [OF sm(2) na] by auto
  have nab: "\<not> prefix a b" and g: "g = move_tree a b f2"
    using renameSync_new [OF t2 na2 sm(1) cq(2)] nb2 f2(2) b(1) by (auto split: if_splits)
  have ext: "prefix (base_segs r sid agentId from) a" "prefix ?bb b" using s1(6) s2(6) by auto
  have npa: "\<not> prefix a ?ba" using a by (auto simp: prefix_def)
  have "\<not> prefix (a @ z) ?bb" "\<not> prefix (a @ z) q" "\<not> prefix (a @ z) ?ba" for z
  proof -
    show "\<not> prefix (a @ z) q" using nab b(1) by (metis append_prefixD prefix_snoc)
    then show "\<not> prefix (a @ z) ?bb" using b(2) by (meson prefix_order.trans)
    show "\<not> prefix (a @ z) ?ba" using npa by (metis append_prefixD)
  qed
  then have az: "node_at f2 (a @ z) = node_at f (a @ z)" for z
    using sm(3) s2(9) s1(9) by metis
  have other: "node_at f2 z = node_at f z" if "\<not> prefix z a" "\<not> prefix z b" for z
  proof -
    have "\<not> prefix z q" "\<not> prefix z ?bb" "\<not> prefix z ?ba"
      using that b(1) ext by (auto dest: prefix_prefix)
    then show ?thesis using sm(3) s2(9) s1(9) by metis
  qed
  have gr: "grows f f2" using s1(2) s2(2) sm(2) by (meson grows_trans)
  have "node_at f a \<noteq> None" using az [of "[]"] na2 by simp
  moreover have "node_at f b = None" using grows_node [OF gr, of b] nb2 by (cases "node_at f b") auto
  moreover have "a \<noteq> []" using a(1) by simp
  ultimately show ?thesis
    using that [OF t2 gr other az _ _ b(1) sm(1) nb2 nab g] by blast
qed

text \<open>
  C14. A move that succeeds carries the whole subtree over unchanged (contents and modification
  times), leaves nothing behind, and replaced nothing: the source was there, the destination was
  free and not inside the source. Entries off both paths are untouched.
\<close>

theorem moveEntry_exact:
  assumes "request_ok h r sid agentId" and "tree_ok f"
    and "no_links f (target_segs r sid agentId from)" and "no_links f (target_segs r sid agentId to)"
    and "moveEntry h sid agentId from to f = (Inr (), g)"
  defines "a \<equiv> target_segs r sid agentId from" and "b \<equiv> target_segs r sid agentId to"
  shows "node_at f a \<noteq> None \<and> node_at f b = None \<and> \<not> prefix a b \<and>
    (\<forall>z. node_at g (b @ z) = node_at f (a @ z)) \<and> (\<forall>z. node_at g (a @ z) = None) \<and>
    (\<forall>z. \<not> prefix a z \<and> \<not> prefix b z \<and> \<not> prefix z a \<and> \<not> prefix z b \<longrightarrow> node_at g z = node_at f z)"
proof -
  obtain f2 q s where f2: "tree_ok f2" "grows f f2"
      "\<And>z. \<not> prefix z a \<Longrightarrow> \<not> prefix z b \<Longrightarrow> node_at f2 z = node_at f z"
      "\<And>z. node_at f2 (a @ z) = node_at f (a @ z)"
    and ab: "node_at f a \<noteq> None" "node_at f b = None" "b = q @ [s]" "node_at f2 b = None"
      "\<not> prefix a b" "g = move_tree a b f2" "a \<noteq> []"
    by (rule moveEntry_steps [OF assms(1-5), folded a_def b_def]) (rule that)
  have below: "node_at f2 (b @ [t]) = None" for t
  proof (rule ccontr)
    assume "node_at f2 (b @ [t]) \<noteq> None"
    from tree_okD(4) [OF f2(1) this] ab(4) show False by (simp add: is_dir_at_Some)
  qed
  have free: "node_at f2 z = None" if "prefix b z" for z
    using that ab(4) below_empty [OF f2(1) below, of z] by (cases "z = b") (auto simp: strict_prefix_def)
  note mv = node_at_moved [where b = b and a = a and f = f2, OF free ab(5)]
  have na2: "node_at f2 a \<noteq> None" using f2(4) [of "[]"] ab(1) by simp
  have nba: "\<not> prefix b a" using free [of a] na2 by auto
  have bl: "prefix (butlast a) a" "prefix (butlast b) b" by (rule prefixeq_butlast)+
  have nbl: "\<not> prefix b (butlast b)" "\<not> prefix a (butlast a)" "\<not> prefix b (butlast a)" "\<not> prefix a (butlast b)"
  proof -
    show "\<not> prefix b (butlast b)" using ab(3) by (intro not_prefix_butlast) simp
    show "\<not> prefix a (butlast a)" by (rule not_prefix_butlast [OF ab(7)])
    show "\<not> prefix b (butlast a)" using nba bl(1) by (metis prefix_order.trans)
    show "\<not> prefix a (butlast b)" using ab(5) bl(2) by (metis prefix_order.trans)
  qed
  have st: "node_at g z = node_at (moved a b f2) z" if "z \<noteq> butlast a" "z \<noteq> butlast b" for z
    using that by (simp add: ab(6) move_tree_moved node_at_stamp_dir)
  have "node_at g (b @ z) = node_at f (a @ z)" for z
    using st [of "b @ z"] mv [of "b @ z"] nbl f2(4) [of z] by (metis append_eq_conv_conj prefixI)
  moreover have "node_at g (a @ z) = None" for z
  proof -
    have "\<not> prefix b (a @ z)"
      using ab(5) nba by (metis prefix_same_cases prefixI)
    then show ?thesis using st [of "a @ z"] mv [of "a @ z"] nbl by (metis prefixI)
  qed
  moreover have "node_at g z = node_at f z"
    if "\<not> prefix a z" "\<not> prefix b z" "\<not> prefix z a" "\<not> prefix z b" for z
    using st [of z] mv [of z] that f2(3) bl by metis
  ultimately show ?thesis using ab by blast
qed

theorem moveEntry_exact_witness:
  "\<exists>g. moveEntry demo_host ''s1'' None ''docs'' ''old/docs'' demo_fs = (Inr (), g) \<and>
    node_at g (demo_shared @ [''old'', ''docs'', ''b.bin'']) = Some (File [0, 1], 8000000) \<and>
    node_at g (demo_shared @ [''docs'', ''b.bin'']) = None"
proof -
  have n: "no_links demo_fs (target_segs [''workspace-root''] ''s1'' None ''docs'')"
    "no_links demo_fs (target_segs [''workspace-root''] ''s1'' None ''old/docs'')" by code_simp+
  have t: "target_segs [''workspace-root''] ''s1'' None ''docs'' = demo_shared @ [''docs'']"
    "target_segs [''workspace-root''] ''s1'' None ''old/docs'' = demo_shared @ [''old'', ''docs'']"
    by code_simp+
  have "case fst (moveEntry demo_host ''s1'' None ''docs'' ''old/docs'' demo_fs) of Inl _ \<Rightarrow> False | Inr _ \<Rightarrow> True"
    by code_simp
  from io_InrI [of "moveEntry demo_host ''s1'' None ''docs'' ''old/docs''", OF this] obtain g
    where g: "moveEntry demo_host ''s1'' None ''docs'' ''old/docs'' demo_fs = (Inr (), g)" by auto
  have b: "node_at demo_fs ((demo_shared @ [''docs'']) @ [''b.bin'']) = Some (File [0, 1], 8000000)"
    by code_simp
  have "\<forall>z. node_at g ((demo_shared @ [''old'', ''docs'']) @ z) = node_at demo_fs ((demo_shared @ [''docs'']) @ z)"
    and "\<forall>z. node_at g ((demo_shared @ [''docs'']) @ z) = None"
    using moveEntry_exact [OF demo_request demo_tree n g] unfolding t by blast+
  from this [THEN spec, of "[''b.bin'']"] b g show ?thesis by simp
qed

section \<open>Listing\<close>

lemma comparator_entries:
  assumes "comparator_ok lc"
  shows "comparator_ok (entry_compare lc)"
proof -
  have a: "lc x y \<le> 0 \<or> lc y x \<le> 0" and t: "lc x y \<le> 0 \<Longrightarrow> lc y z \<le> 0 \<Longrightarrow> lc x z \<le> 0" for x y z
    using assms unfolding comparator_ok_def by blast+
  show ?thesis
    unfolding comparator_ok_def
  proof (intro conjI allI impI)
    show "entry_compare lc x y \<le> 0 \<or> entry_compare lc y x \<le> 0" for x y
      using a by (cases "entry_type x"; cases "entry_type y") (auto simp: entry_compare_def)
    show "entry_compare lc x z \<le> 0" if "entry_compare lc x y \<le> 0" "entry_compare lc y z \<le> 0" for x y z
      using that t [of "entry_name x" "entry_name y" "entry_name z"]
      by (cases "entry_type x"; cases "entry_type y"; cases "entry_type z") (simp_all add: entry_compare_def)
  qed
qed

definition listed :: "bool \<Rightarrow> string \<Rightarrow> node \<Rightarrow> bool" where
  "listed includeHidden s n \<longleftrightarrow>
     is_file n \<or> is_dir n \<and> (includeHidden \<or> \<not> starts_with s ''.'')"

lemma list_step_node:
  assumes "tree_ok f" and "node_at f (p @ [s]) = Some n"
  shows "list_step f (abs_path p) hidden s = (if listed hidden s n then Some (tree_entry s n) else None)"
proof -
  have c: "clean (p @ [s])" by (rule clean_node [OF assms(1)]) (simp add: assms(2))
  then have "path_join [abs_path p, s] = abs_path (p @ [s])" using path_join_abs [of p "[s]"] by simp
  moreover have "lstatSync f (abs_path (p @ [s])) = Inr n" by (rule stat_node [OF assms]) simp
  moreover have "\<not> (is_file n \<and> is_dir n)" "\<not> (is_link n \<and> (is_file n \<or> is_dir n))"
    by (auto simp: is_file_iff is_dir_iff is_link_iff)
  ultimately show ?thesis
    by (auto simp: list_step_def listed_def isHiddenEntry_def)
qed



section \<open>When a write succeeds\<close>



section \<open>The limits of the link check\<close>

lemma walk_append:
  "clean ds \<Longrightarrow> (\<And>r. prefix cur r \<Longrightarrow> r \<noteq> cur \<Longrightarrow> prefix r (cur @ ds) \<Longrightarrow> is_dir_at f r) \<Longrightarrow>
     walk fuel (nodes f) follow cur (ds @ ss) = walk fuel (nodes f) follow (cur @ ds) ss"
proof (induction ds arbitrary: cur)
  case (Cons d ds)
  have d: "d \<noteq> []" "d \<noteq> ''.''" "d \<noteq> ''..''" and ds: "clean ds"
    using Cons.prems(1) by (auto simp: clean_seg_def)
  have "is_dir_at f (cur @ [d])" by (intro Cons.prems(2)) auto
  then obtain t where "mget (nodes f) (cur @ [d]) = Some (Dir, t)"
    by (auto simp: is_dir_at_Some node_at_def)
  with d have "walk fuel (nodes f) follow cur ((d # ds) @ ss) = walk fuel (nodes f) follow (cur @ [d]) (ds @ ss)"
    by simp
  also have "\<dots> = walk fuel (nodes f) follow ((cur @ [d]) @ ds) ss"
    using ds by (intro Cons.IH Cons.prems(2)) (auto simp: prefix_def)
  finally show ?case by simp
qed simp

lemma locate_through_link:
  assumes "tree_ok f" and "is_dir_at f b" and "node_at f (b @ [d]) = Some (Symlink (abs_path t), m)"
    and "node_at f (t @ [x]) = Some n" and "\<not> is_link n"
  shows "locate f follow (abs_path (b @ [d, x])) = Inr (t @ [x])"
proof -
  have bd: "clean (b @ [d])" and tx: "clean (t @ [x])" using clean_node [OF assms(1)] assms(3,4) by blast+
  then have d: "d \<noteq> []" "d \<noteq> ''.''" "d \<noteq> ''..''" and cb: "clean b" and ct: "clean t"
    by (auto simp: clean_seg_def)
  have bdir: "is_dir_at f r" if "prefix r b" for r
    using that assms(2) prefix_is_dir [OF assms(1), of b r]
    by (cases "r = b") (auto simp: strict_prefix_def is_dir_at_Some)
  have "clean (b @ [d, x])" using bd tx by auto
  then have "locate f follow (abs_path (b @ [d, x])) = walk max_links (nodes f) follow [] (b @ [d, x])"
    by (rule locate_abs)
  also have "\<dots> = walk max_links (nodes f) follow ([] @ b) [d, x]"
    using cb bdir by (intro walk_append) auto
  also have "\<dots> = walk 39 (nodes f) follow [] (split_on slash (abs_path t) @ [x])"
    using d assms(3) by (simp add: node_at_def max_links_def numeral_eq_Suc)
  also have "\<dots> = walk 39 (nodes f) follow [] (t @ [x])"
    using ct by (cases "t = []") (simp_all add: split_abs_path)
  also have "\<dots> = Inr ([] @ (t @ [x]))"
    using assms(4,5) prefix_is_dir [OF assms(1), of "t @ [x]"] tx
    by (intro walk_dirs) (auto simp: link_at_def)
  finally show ?thesis by simp
qed

text \<open>
  The link check looks at the last component only. Through a symbolic link to a directory
  inside the workspace (which an agent can make), a request reads any file next to the link's
  target, outside the session: the path resolves inside, \<open>lstat\<close> sees a regular file at its end,
  and the bytes of the other file come back. Asking for the link itself is refused.
\<close>

theorem readFile_through_link:
  assumes "request_ok h r sid agentId" and "tree_ok f"
    and "d \<notin> {''.claude'', ''.venv''}" and "is_dir_at f (r @ [''sessions'', sid, ''shared''])"
    and "node_at f (r @ [''sessions'', sid, ''shared'', d]) = Some (Symlink (abs_path t), m)"
    and "node_at f (t @ [x]) = Some (File bytes, tm)"
    and "length bytes \<le> workspaceMaxFileBytes (host_env h)"
  shows "(\<exists>c. readFile h sid agentId (d @ ''/'' @ x) f = (Inr c, f) \<and>
      contents_content c = (if looksBinary bytes then [] else utf8_decode bytes) \<and>
      contents_size c = length bytes) \<and>
    readFile h sid agentId d f = (Inl (wsError invalid_path ''symlinks are not followed''), f)"
proof -
  let ?b = "r @ [''sessions'', sid, ''shared'']"
  have bd: "node_at f (?b @ [d]) = Some (Symlink (abs_path t), m)" using assms(5) by simp
  have cd: "clean [d]" "clean [x]"
    using clean_node [OF assms(2), of "?b @ [d]"] clean_node [OF assms(2), of "t @ [x]"] bd assms(6) by auto
  have m: "mkdir_recursive f (abs_path ?b) = Inr f" by (rule mkdir_recursive_existing [OF assms(2,4)])
  have cb: "clean ?b" using clean_node [OF assms(2), of "?b @ [d]"] bd by auto
  have rel: "strip_slashes (join ''/'' [d, x]) = join ''/'' [d, x]" "strip_slashes (join ''/'' [d]) = join ''/'' [d]"
    using cd by (intro strip_slashes_join; simp)+
  have ht: "head_tail (join ''/'' [d, x]) = (d, join ''/'' [x])" "head_tail (join ''/'' [d]) = (d, join ''/'' [])"
    using cd by (intro head_tail_join; simp)+
  have vh: "\<not> virtual_head (join ''/'' [d, x])" "\<not> virtual_head (join ''/'' [d])"
    using rel ht assms(3) by (auto simp: virtual_head_def)
  then have bs: "base_segs r sid agentId (join ''/'' [d, x]) = ?b" "base_segs r sid agentId (join ''/'' [d]) = ?b"
    by (simp_all add: base_segs_def)
  have ts: "target_segs r sid agentId (join ''/'' [d, x]) = ?b @ [d, x]"
    "target_segs r sid agentId (join ''/'' [d]) = ?b @ [d]"
    using norm_segs_join [of "[d, x]" "rev ?b"] norm_segs_join [of "[d]" "rev ?b"] cd vh rel bs
    by (simp_all only: target_segs_def inner_def if_False) simp_all
  let ?R = "\<lambda>p. \<lparr>diskBase = abs_path ?b, virtualBase = ''/'', abs_of = abs_path p\<rparr>"
  have R: "resolvePath h sid agentId (join ''/'' [d, x]) f = (Inr (?R (?b @ [d, x])), f)"
    "resolvePath h sid agentId (join ''/'' [d]) f = (Inr (?R (?b @ [d])), f)"
    unfolding resolvePath_Inr [OF assms(1)] bs ts using vh m by (simp_all add: virtual_of_def)
  have l: "locate f follow (abs_path (?b @ [d, x])) = Inr (t @ [x])" for follow
    by (rule locate_through_link [OF assms(2,4) bd assms(6)]) simp
  have s1: "lstatSync f (abs_path (?b @ [d, x])) = Inr (File bytes, tm)"
    "readFileSync f (abs_path (?b @ [d, x])) = Inr bytes"
    using assms(6) by (simp_all only: stat_with_def readFileSync_def l) simp_all
  have s2: "lstatSync f (abs_path (?b @ [d])) = Inr (Symlink (abs_path t), m)"
    by (rule stat_node [OF assms(2) bd]) simp
  have "readFile h sid agentId (join ''/'' [d]) f = (Inl (wsError invalid_path ''symlinks are not followed''), f)"
    using s2 by (simp only: readFile_def resolved_then [OF R(2)]) (simp add: stat_regular_def io_simps)
  moreover have "\<exists>c. readFile h sid agentId (join ''/'' [d, x]) f = (Inr c, f) \<and>
      contents_content c = (if looksBinary bytes then [] else utf8_decode bytes) \<and>
      contents_size c = length bytes"
    using s1 assms(7) by (simp only: readFile_def resolved_then [OF R(1)])
      (simp add: stat_regular_def io_simps Let_def give_def)
  ultimately show ?thesis by simp
qed

theorem readFile_through_link_witness:
  "let f = set_node [''workspace-root'', ''sessions'', ''s1'', ''shared'', ''up'']
             (Symlink ''/workspace-root/secret'', 0)
             (set_node [''workspace-root'', ''secret''] (Dir, 0)
               (set_node [''workspace-root'', ''secret'', ''key''] (File [107], 0) demo_fs))
   in \<exists>c. readFile demo_host ''s1'' None ''up/key'' f = (Inr c, f) \<and> contents_content c = text_of ''k''"
proof -
  let ?f = "set_node [''workspace-root'', ''sessions'', ''s1'', ''shared'', ''up'']
             (Symlink ''/workspace-root/secret'', 0)
             (set_node [''workspace-root'', ''secret''] (Dir, 0)
               (set_node [''workspace-root'', ''secret'', ''key''] (File [107], 0) demo_fs))"
  have t: "tree_ok ?f" by code_simp
  have d: "''up'' \<notin> {''.claude'', ''.venv''}" by simp
  have b: "is_dir_at ?f ([''workspace-root''] @ [''sessions'', ''s1'', ''shared''])" by code_simp
  have l: "node_at ?f ([''workspace-root''] @ [''sessions'', ''s1'', ''shared'', ''up'']) =
      Some (Symlink (abs_path [''workspace-root'', ''secret'']), 0)" by code_simp
  have k: "node_at ?f ([''workspace-root'', ''secret''] @ [''key'']) = Some (File [107], 0)" by code_simp
  have w: "length [107 :: byte] \<le> workspaceMaxFileBytes (host_env demo_host)" by code_simp
  have u: "(if looksBinary [107] then [] else utf8_decode [107]) = text_of ''k''" by code_simp
  from readFile_through_link [OF demo_request t d b l k w] show ?thesis
    unfolding u Let_def by auto
qed

text \<open>
  Two more limits, on the small volume. A path that starts with \<open>./\<close> goes around the redirection
  of \<open>.claude\<close> to the agent's directory: it writes into the shared workspace without an agent
  id and answers with the virtual path of the agent's file. And moving a directory into itself
  is not recognised: the directories of the destination are made inside the source before the
  rename fails with an error that the server answers with 500.
\<close>

lemma claude_alias:
  "(\<exists>c g. writeFile demo_host ''s1'' None ''./.claude/x''
      \<lparr>opt_content = text_of ''k'', opt_encoding = None, opt_expectedMtime = None, opt_overwrite = None\<rparr> demo_fs =
      (Inr c, g) \<and> contents_path c = ''/.claude/x'' \<and>
      node_at g (demo_shared @ [''.claude'', ''x'']) = Some (File [107], 9000000)) \<and>
   fst (readFile demo_host ''s1'' None ''/.claude/x'' demo_fs) =
     Inl (wsError invalid_path ''agent_id is required to read .claude'')"
proof -
  let ?w = "writeFile demo_host ''s1'' None ''./.claude/x''
      \<lparr>opt_content = text_of ''k'', opt_encoding = None, opt_expectedMtime = None, opt_overwrite = None\<rparr> demo_fs"
  have "case ?w of (Inl _, g) \<Rightarrow> False
      | (Inr c, g) \<Rightarrow> contents_path c = ''/.claude/x'' \<and>
          node_at g (demo_shared @ [''.claude'', ''x'']) = Some (File [107], 9000000)" by code_simp
  moreover have "fst (readFile demo_host ''s1'' None ''/.claude/x'' demo_fs) =
     Inl (wsError invalid_path ''agent_id is required to read .claude'')" by code_simp
  ultimately show ?thesis by (cases ?w) (auto split: sum.splits)
qed

lemma move_into_itself:
  "fst (moveEntry demo_host ''s1'' None ''docs'' ''docs/x/y'' demo_fs) = Inl (FsError EINVAL) \<and>
   is_dir_at (snd (moveEntry demo_host ''s1'' None ''docs'' ''docs/x/y'' demo_fs)) (demo_shared @ [''docs'', ''x''])"
  by code_simp

end
