(* ===== verification/Sessions.thy ===== *)
theory Sessions
  imports Layout FileOps
begin

text \<open>
  The session registry of the runtime (\<open>runtime/src/session-manager.ts\<close>): the mutex that
  serialises the requests of one entry, and the manager that keeps one entry per session and
  agent. Entries refer to their mutex by its place in a store, as the objects of the program
  share it by reference; a waiter is named by the request that waits.
\<close>

section \<open>The mutex\<close>

record 'w mutex =
  mx_locked :: bool
  mx_queue :: "'w list"

definition createMutex :: "'w mutex" where
  "createMutex = \<lparr>mx_locked = False, mx_queue = []\<rparr>"

text \<open>
  One attempt of a waiter: it gets the lock (its promise resolves, the second result), or it is
  queued. A release frees the lock and lets the first waiter try.
\<close>

definition tryAcquire :: "'w \<Rightarrow> 'w mutex \<Rightarrow> 'w mutex \<times> 'w option" where
  "tryAcquire w m =
     (if \<not> mx_locked m then (m\<lparr>mx_locked := True\<rparr>, Some w)
      else (m\<lparr>mx_queue := mx_queue m @ [w]\<rparr>, None))"

definition release :: "'w mutex \<Rightarrow> 'w mutex \<times> 'w option" where
  "release m =
     (let m' = m\<lparr>mx_locked := False\<rparr>
      in case mx_queue m' of
           [] \<Rightarrow> (m', None)
         | next # rest \<Rightarrow> tryAcquire next (m'\<lparr>mx_queue := rest\<rparr>))"

text \<open>Nobody waits for a free lock.\<close>

definition mutex_ok :: "'w mutex \<Rightarrow> bool" where
  "mutex_ok m \<longleftrightarrow> (mx_queue m \<noteq> [] \<longrightarrow> mx_locked m)"

lemma createMutex_ok [simp]: "mutex_ok createMutex"
  by (simp add: mutex_ok_def createMutex_def)

lemma tryAcquire_ok: "mutex_ok m \<Longrightarrow> mutex_ok (fst (tryAcquire w m))"
  by (simp add: mutex_ok_def tryAcquire_def)

lemma release_ok: "mutex_ok (fst (release m))"
  by (auto simp: mutex_ok_def release_def tryAcquire_def Let_def split: list.split)

text \<open>
  What a client of a first-come first-served lock relies on: \<open>line s\<close> is the queue with the holder
  in front; asking appends to it, letting go removes its head, and whoever comes to the front
  is told so.
\<close>

locale fifo_lock =
  fixes line :: "'s \<Rightarrow> 'w list" and ask :: "'w \<Rightarrow> 's \<Rightarrow> 's" and let_go :: "'s \<Rightarrow> 's"
    and told :: "'s \<Rightarrow> 'w list" and good :: "'s \<Rightarrow> bool"
  assumes ask_line: "good s \<Longrightarrow> line (ask w s) = line s @ [w]"
    and let_go_line: "good s \<Longrightarrow> line (let_go s) = tl (line s)"
    and ask_told: "good s \<Longrightarrow> told (ask w s) = told s @ (if line s = [] then [w] else [])"
    and let_go_told: "good s \<Longrightarrow> told (let_go s) = told s @ take 1 (tl (line s))"
    and ask_good: "good s \<Longrightarrow> good (ask w s)"
    and let_go_good: "good s \<Longrightarrow> good (let_go s)"
begin

lemma asks_line: "good s \<Longrightarrow> line (fold ask ws s) = line s @ ws \<and> good (fold ask ws s)"
  by (induction ws arbitrary: s) (simp_all add: ask_line ask_good)

lemma let_gos_line: "good s \<Longrightarrow> line ((let_go ^^ n) s) = drop n (line s) \<and> good ((let_go ^^ n) s)"
proof (induction n)
  case (Suc n)
  then show ?case by (simp add: let_go_line let_go_good drop_Suc tl_drop)
qed simp

text \<open>Every waiter is served, in the order of arrival, after as many releases as are ahead of it.\<close>

lemma served_in_order: "good s \<Longrightarrow> told ((let_go ^^ n) s) = told s @ take n (tl (line s))"
proof (induction n)
  case (Suc n)
  have "told ((let_go ^^ Suc n) s) = told ((let_go ^^ n) s) @ take 1 (drop n (tl (line s)))"
    using let_go_told [of "(let_go ^^ n) s"] let_gos_line [OF Suc.prems, of n] by (simp add: tl_drop)
  with Suc show ?case by (simp flip: take_add)
qed simp

end

text \<open>The mutex with the request that holds it, and the requests told so far.\<close>

type_synonym 'w lock_run = "'w mutex \<times> 'w option \<times> 'w list"

fun run_line :: "'w lock_run \<Rightarrow> 'w list" where
  "run_line (m, holder, told) = (case holder of None \<Rightarrow> [] | Some w \<Rightarrow> [w]) @ mx_queue m"

fun run_ask :: "'w \<Rightarrow> 'w lock_run \<Rightarrow> 'w lock_run" where
  "run_ask w (m, holder, told) =
     (case tryAcquire w m of
        (m', Some x) \<Rightarrow> (m', Some x, told @ [x])
      | (m', None) \<Rightarrow> (m', holder, told))"

fun run_let_go :: "'w lock_run \<Rightarrow> 'w lock_run" where
  "run_let_go (m, holder, told) =
     (case release m of
        (m', Some x) \<Rightarrow> (m', Some x, told @ [x])
      | (m', None) \<Rightarrow> (m', None, told))"

fun run_told :: "'w lock_run \<Rightarrow> 'w list" where
  "run_told (m, holder, told) = told"

fun run_good :: "'w lock_run \<Rightarrow> bool" where
  "run_good (m, holder, told) \<longleftrightarrow> mutex_ok m \<and> (mx_locked m \<longleftrightarrow> holder \<noteq> None)"

lemma run_laws:
  assumes "run_good s"
  shows "run_line (run_ask w s) = run_line s @ [w]"
    and "run_line (run_let_go s) = tl (run_line s)"
    and "run_told (run_ask w s) = run_told s @ (if run_line s = [] then [w] else [])"
    and "run_told (run_let_go s) = run_told s @ take 1 (tl (run_line s))"
    and "run_good (run_ask w s)" and "run_good (run_let_go s)"
proof -
  obtain m h t where s: "s = (m, h, t)" by (metis prod_cases3)
  show "run_line (run_ask w s) = run_line s @ [w]"
    and "run_line (run_let_go s) = tl (run_line s)"
    and "run_told (run_ask w s) = run_told s @ (if run_line s = [] then [w] else [])"
    and "run_told (run_let_go s) = run_told s @ take 1 (tl (run_line s))"
    and "run_good (run_ask w s)" and "run_good (run_let_go s)"
    using assms unfolding s
    by (auto simp: tryAcquire_def release_def mutex_ok_def Let_def split: option.splits list.splits)
qed

interpretation mutex: fifo_lock run_line run_ask run_let_go run_told run_good
  by unfold_locales (simp_all add: run_laws)

text \<open>
  C12. The mutex serves its waiters first come, first served, and forgets nobody. Of any
  requests that ask for a fresh mutex, the first holds it at once, and each release hands it to
  the next in the order of arrival, until all have had it.
\<close>

theorem mutex_first_come_first_served:
  "run_told ((run_let_go ^^ n) (fold run_ask ws (createMutex, None, []))) = take (Suc n) ws"
proof -
  let ?s0 = "(createMutex, None, []) :: 'a lock_run"
  have g: "run_good ?s0" by (simp add: createMutex_def mutex_ok_def)
  have l: "run_line ?s0 = []" by (simp add: createMutex_def)
  have t: "run_told (fold run_ask ws s) = run_told s @ (if run_line s = [] then take 1 ws else [])"
    if "run_good s" for s and ws :: "'a list"
    using that by (induction ws arbitrary: s) (simp_all add: run_laws)
  have "run_told ((run_let_go ^^ n) (fold run_ask ws ?s0)) =
      run_told (fold run_ask ws ?s0) @ take n (tl (run_line (fold run_ask ws ?s0)))"
    using mutex.served_in_order mutex.asks_line [OF g] by blast
  also have "\<dots> = take 1 ws @ take n (tl ws)"
    using t [OF g] mutex.asks_line [OF g] l by simp
  also have "\<dots> = take (Suc n) ws" by (cases ws) simp_all
  finally show ?thesis .
qed

section \<open>The manager\<close>

record SessionEntry =
  se_sessionId :: string
  se_agentId :: string
  se_sharedDir :: string
  se_createdAt :: rat
  se_lock :: nat

text \<open>The manager's state: its map, the store of mutexes, and the volume.\<close>

record manager =
  mgr_sessions :: "(string, SessionEntry) jmap"
  mgr_locks :: "nat mutex list"
  mgr_disk :: fs

definition entryKey :: "string \<Rightarrow> string \<Rightarrow> string" where
  "entryKey sid aid = sid @ ''/'' @ aid"

definition activeCount :: "manager \<Rightarrow> nat" where
  "activeCount m = length (mgr_sessions m)"

definition get_entry :: "string \<Rightarrow> string \<Rightarrow> manager \<Rightarrow> SessionEntry option" where
  "get_entry sid aid m = mget (mgr_sessions m) (entryKey sid aid)"

text \<open>\<open>mkdirSync(p, { recursive: true })\<close> one after the other; an error ends the sequence.\<close>

fun mkdir_each :: "string \<Rightarrow> string list \<Rightarrow> fs \<Rightarrow> (errno \<times> fs) + fs" where
  "mkdir_each cwd [] f = Inr f"
| "mkdir_each cwd (p # ps) f =
     (case mkdir_recursive f (path_resolve cwd [p]) of
        Inl e \<Rightarrow> Inl (e, f)
      | Inr g \<Rightarrow> mkdir_each cwd ps g)"

definition session_dirs :: "env \<Rightarrow> string \<Rightarrow> string \<Rightarrow> string list" where
  "session_dirs env sid aid =
     [sessionSharedDir env sid, sessionClaudeDir env sid aid, sessionTmp sid aid,
      path_dirname (sessionVenvDir env sid aid)]"

definition getOrCreate ::
  "env \<Rightarrow> string \<Rightarrow> nat \<Rightarrow> string \<Rightarrow> string \<Rightarrow> manager \<Rightarrow> (errno + SessionEntry) \<times> manager" where
  "getOrCreate env cwd nowMs sid aid m =
     (case mget (mgr_sessions m) (entryKey sid aid) of
        Some existing \<Rightarrow> (Inr existing, m)
      | None \<Rightarrow>
          (case mkdir_each cwd (session_dirs env sid aid) (mgr_disk m) of
             Inl (e, f) \<Rightarrow> (Inl e, m\<lparr>mgr_disk := f\<rparr>)
           | Inr f \<Rightarrow>
               let entry = \<lparr>se_sessionId = sid, se_agentId = aid,
                            se_sharedDir = sessionSharedDir env sid,
                            se_createdAt = of_nat nowMs / 1000, se_lock = length (mgr_locks m)\<rparr>
               in (Inr entry,
                   m\<lparr>mgr_sessions := mput (entryKey sid aid) entry (mgr_sessions m),
                     mgr_locks := mgr_locks m @ [createMutex], mgr_disk := f\<rparr>)))"

fun rm_each :: "string \<Rightarrow> string list \<Rightarrow> fs \<Rightarrow> (errno \<times> fs) + fs" where
  "rm_each cwd [] f = Inr f"
| "rm_each cwd (p # ps) f =
     (if existsSync f (path_resolve cwd [p]) then
        (case rm_recursive True f (path_resolve cwd [p]) of
           Inl e \<Rightarrow> Inl (e, f)
         | Inr g \<Rightarrow> rm_each cwd ps g)
      else rm_each cwd ps f)"

definition remove_entry ::
  "env \<Rightarrow> string \<Rightarrow> string \<Rightarrow> string \<Rightarrow> bool \<Rightarrow> manager \<Rightarrow> (errno + bool) \<times> manager" where
  "remove_entry env cwd sid aid cleanupFiles m =
     (case mget (mgr_sessions m) (entryKey sid aid) of
        None \<Rightarrow> (Inr False, m)
      | Some entry \<Rightarrow>
          let m' = m\<lparr>mgr_sessions := mdelete (entryKey sid aid) (mgr_sessions m)\<rparr>
          in if cleanupFiles then
               (case rm_each cwd [sessionClaudeDir env sid aid, sessionVenvDir env sid aid, sessionTmp sid aid]
                       (mgr_disk m') of
                  Inl (e, f) \<Rightarrow> (Inl e, m'\<lparr>mgr_disk := f\<rparr>)
                | Inr f \<Rightarrow> (Inr True, m'\<lparr>mgr_disk := f\<rparr>))
             else (Inr True, m'))"

definition listSessions :: "manager \<Rightarrow> (string \<times> string \<times> rat) list" where
  "listSessions m = map (\<lambda>(k, e). (se_sessionId e, se_agentId e, se_createdAt e)) (mgr_sessions m)"

text \<open>
  \<open>gracefulShutdown\<close> looks at the number of entries every 500 ms until it is zero or the deadline
  has passed. \<open>counts i\<close> is what it finds at its \<open>i\<close>-th look; the result says whether the sessions
  drained (no warning) and how long it waited.
\<close>

function shutdown_wait :: "(nat \<Rightarrow> nat) \<Rightarrow> nat \<Rightarrow> nat \<Rightarrow> nat \<Rightarrow> bool \<times> nat" where
  "shutdown_wait counts timeout i elapsed =
     (if elapsed < timeout
      then (if counts i = 0 then (True, elapsed) else shutdown_wait counts timeout (Suc i) (elapsed + 500))
      else (False, elapsed))"
  by pat_completeness auto
termination
  by (relation "measure (\<lambda>(counts, timeout, i, elapsed). timeout - elapsed)") auto

declare shutdown_wait.simps [simp del]

definition gracefulShutdown :: "(nat \<Rightarrow> nat) \<Rightarrow> nat \<Rightarrow> bool \<times> nat" where
  "gracefulShutdown counts timeout = shutdown_wait counts timeout 0 0"

lemma shutdown_wait_spec:
  "fst (shutdown_wait counts timeout i e) \<longleftrightarrow> (\<exists>k. e + 500 * k < timeout \<and> counts (i + k) = 0)"
proof (induction counts timeout i e rule: shutdown_wait.induct)
  case (1 counts timeout i e)
  show ?case
  proof (cases "e < timeout \<and> counts i \<noteq> 0")
    case True
    have "(\<exists>k. e + 500 * k < timeout \<and> counts (i + k) = 0) \<longleftrightarrow>
        (\<exists>k. e + 500 + 500 * k < timeout \<and> counts (Suc i + k) = 0)" (is "?l \<longleftrightarrow> ?r")
    proof
      assume ?l
      then obtain k where k: "e + 500 * k < timeout" "counts (i + k) = 0" by blast
      with True have "k \<noteq> 0" by (intro notI) simp
      then obtain j where "k = Suc j" by (cases k) auto
      with k show ?r by (intro exI [of _ j]) simp
    next
      assume ?r
      then obtain k where "e + 500 + 500 * k < timeout" "counts (Suc i + k) = 0" by blast
      then show ?l by (intro exI [of _ "Suc k"]) simp
    qed
    with True 1 show ?thesis by (simp add: shutdown_wait.simps [of counts timeout i e])
  next
    case False
    then show ?thesis
      by (auto simp: shutdown_wait.simps [of counts timeout i e] intro: exI [of _ 0])
  qed
qed

lemma shutdown_wait_bound: "snd (shutdown_wait counts timeout i e) \<le> max e (timeout + 499)"
proof (induction counts timeout i e rule: shutdown_wait.induct)
  case (1 counts timeout i e)
  then show ?case
    by (cases "e < timeout"; cases "counts i = 0")
      (simp_all add: shutdown_wait.simps [of counts timeout i e])
qed

text \<open>
  Shutdown drains exactly when it can: it reports a drained server iff one of its looks
  before the deadline finds no entry, it stops at the first such look, and it never waits longer
  than one polling interval past the deadline.
\<close>

theorem gracefulShutdown_drains:
  "(fst (gracefulShutdown counts timeout) \<longleftrightarrow> (\<exists>k. 500 * k < timeout \<and> counts k = 0)) \<and>
   snd (gracefulShutdown counts timeout) \<le> timeout + 499"
  using shutdown_wait_spec [of counts timeout 0 0] shutdown_wait_bound [of counts timeout 0 0]
  by (simp add: gracefulShutdown_def)

section \<open>The manager as a registry\<close>

definition manager_ok :: "manager \<Rightarrow> bool" where
  "manager_ok m \<longleftrightarrow> distinct (mkeys (mgr_sessions m)) \<and>
     (\<forall>(k, e) \<in> set (mgr_sessions m).
        k = entryKey (se_sessionId e) (se_agentId e) \<and> se_lock e < length (mgr_locks m)) \<and>
     distinct (map (\<lambda>(k, e). se_lock e) (mgr_sessions m)) \<and> (\<forall>x \<in> set (mgr_locks m). mutex_ok x) \<and>
     tree_ok (mgr_disk m)"

lemma mkdir_each_ok:
  "tree_ok f \<Longrightarrow> (case mkdir_each cwd ps f of Inl (e, g) \<Rightarrow> tree_ok g | Inr g \<Rightarrow> tree_ok g)"
proof (induction cwd ps f rule: mkdir_each.induct)
  case (2 cwd p ps f)
  then show ?case
    using mkdir_recursive_ok [of f "path_resolve cwd [p]"] by (auto split: sum.splits)
qed simp

lemma rm_each_ok:
  "tree_ok f \<Longrightarrow> (case rm_each cwd ps f of Inl (e, g) \<Rightarrow> tree_ok g | Inr g \<Rightarrow> tree_ok g)"
proof (induction cwd ps f rule: rm_each.induct)
  case (2 cwd p ps f)
  then show ?case
    using rm_recursive_ok [of True f "path_resolve cwd [p]"] by (auto split: sum.splits)
qed simp


lemma getOrCreate_ok:
  assumes "manager_ok m"
  shows "manager_ok (snd (getOrCreate env cwd t sid aid m))"
proof (cases "mget (mgr_sessions m) (entryKey sid aid)")
  case (Some e)
  with assms show ?thesis by (simp add: getOrCreate_def)
next
  case None
  let ?r = "mkdir_each cwd (session_dirs env sid aid) (mgr_disk m)"
  have t: "case ?r of Inl (e, g) \<Rightarrow> tree_ok g | Inr g \<Rightarrow> tree_ok g"
    by (rule mkdir_each_ok) (use assms in \<open>simp add: manager_ok_def\<close>)
  have new: "entryKey sid aid \<notin> set (mkeys (mgr_sessions m))" using None by (simp add: mget_None_iff)
  have old: "\<forall>(k, e) \<in> set (mgr_sessions m). se_lock e < length (mgr_locks m)"
    using assms by (auto simp: manager_ok_def)
  show ?thesis
  proof (cases ?r)
    case (Inl ef)
    with t assms None show ?thesis
      by (cases ef) (simp add: getOrCreate_def manager_ok_def)
  next
    case (Inr f)
    with t assms None new old show ?thesis
      by (auto simp: getOrCreate_def manager_ok_def Let_def mput_new less_SucI)
  qed
qed

lemma mdelete_subset: "set (mdelete k m) \<subseteq> set m"
  by (auto simp: AList.delete_eq)

lemma remove_entry_ok:
  assumes "manager_ok m"
  shows "manager_ok (snd (remove_entry env cwd sid aid cleanup m))"
proof (cases "mget (mgr_sessions m) (entryKey sid aid)")
  case None
  with assms show ?thesis by (simp add: remove_entry_def)
next
  case (Some e)
  let ?m = "m\<lparr>mgr_sessions := mdelete (entryKey sid aid) (mgr_sessions m)\<rparr>"
  let ?r = "rm_each cwd [sessionClaudeDir env sid aid, sessionVenvDir env sid aid, sessionTmp sid aid] (mgr_disk m)"
  have "distinct (map (\<lambda>(k, e). se_lock e) (mdelete (entryKey sid aid) (mgr_sessions m)))"
    using assms unfolding AList.delete_eq manager_ok_def by (simp add: distinct_map_filter)
  then have ok: "manager_ok ?m"
    using assms mdelete_subset [of "entryKey sid aid" "mgr_sessions m"]
    by (fastforce simp: manager_ok_def distinct_mdelete)
  have t: "case ?r of Inl (e, g) \<Rightarrow> tree_ok g | Inr g \<Rightarrow> tree_ok g"
    by (rule rm_each_ok) (use assms in \<open>simp add: manager_ok_def\<close>)
  have disk: "manager_ok (?m\<lparr>mgr_disk := f\<rparr>)" if "tree_ok f" for f
    using ok that by (simp add: manager_ok_def)
  show ?thesis
  proof (cases cleanup)
    case False
    with Some ok show ?thesis by (simp add: remove_entry_def)
  next
    case True
    then show ?thesis
      using Some t disk by (cases ?r) (auto simp: remove_entry_def simp del: rm_each.simps)
  qed
qed

lemma getOrCreate_Inr:
  "getOrCreate env cwd t sid aid m = (Inr e, m') \<Longrightarrow>
     get_entry sid aid m' = Some e \<and>
     (\<forall>s a. entryKey s a \<noteq> entryKey sid aid \<longrightarrow> get_entry s a m' = get_entry s a m)"
  by (auto simp: getOrCreate_def get_entry_def Let_def update_conv' split: option.splits sum.splits prod.splits)

text \<open>
  The registry gives every request of a session and agent the same entry, and so the same
  mutex, until the entry is removed: after \<open>getOrCreate\<close> the entry is found, asking again returns it
  and changes nothing, the entries of other keys are as before, and no two entries share a
  mutex; once removed it is gone, and the others stay.
\<close>

theorem session_registry:
  assumes "manager_ok m" and "getOrCreate env cwd t sid aid m = (Inr e, m')"
  shows "get_entry sid aid m' = Some e \<and> getOrCreate env cwd t' sid aid m' = (Inr e, m') \<and>
    (\<forall>s a. entryKey s a \<noteq> entryKey sid aid \<longrightarrow> get_entry s a m' = get_entry s a m) \<and>
    manager_ok m' \<and> distinct (map (\<lambda>(k, e). se_lock e) (mgr_sessions m')) \<and>
    (\<forall>m''. remove_entry env cwd sid aid False m' = (Inr True, m'') \<longrightarrow>
       get_entry sid aid m'' = None \<and>
       (\<forall>s a. entryKey s a \<noteq> entryKey sid aid \<longrightarrow> get_entry s a m'' = get_entry s a m))"
proof -
  note g = getOrCreate_Inr [OF assms(2)]
  have ok: "manager_ok m'" using getOrCreate_ok [OF assms(1), of env cwd t sid aid] assms(2) by simp
  have again: "getOrCreate env cwd t' sid aid m' = (Inr e, m')"
    using g by (simp add: getOrCreate_def get_entry_def)
  have "get_entry sid aid m'' = None \<and>
      (\<forall>s a. entryKey s a \<noteq> entryKey sid aid \<longrightarrow> get_entry s a m'' = get_entry s a m)"
    if "remove_entry env cwd sid aid False m' = (Inr True, m'')" for m''
  proof -
    have "m'' = m'\<lparr>mgr_sessions := mdelete (entryKey sid aid) (mgr_sessions m')\<rparr>"
      using that g by (auto simp: remove_entry_def get_entry_def)
    with g show ?thesis by (simp add: get_entry_def mget_mdelete)
  qed
  with g ok again show ?thesis unfolding manager_ok_def by blast
qed

definition empty_manager :: manager where
  "empty_manager = \<lparr>mgr_sessions = [], mgr_locks = [], mgr_disk = \<lparr>nodes = [([], (Dir, 0))], now = 5\<rparr>\<rparr>"

lemma empty_manager_ok: "manager_ok empty_manager"
proof -
  have "tree_ok (mgr_disk empty_manager)" by code_simp
  then show ?thesis by (simp add: manager_ok_def empty_manager_def)
qed

theorem session_registry_witness:
  "\<exists>e m. getOrCreate [] ''/app'' 1000 ''s1'' ''a1'' empty_manager = (Inr e, m) \<and>
     getOrCreate [] ''/app'' 2000 ''s1'' ''a1'' m = (Inr e, m) \<and> se_createdAt e = 1"
proof -
  let ?e = "\<lparr>se_sessionId = ''s1'', se_agentId = ''a1'',
    se_sharedDir = ''/workspace-root/sessions/s1/shared'', se_createdAt = 1, se_lock = 0\<rparr>"
  have "fst (getOrCreate [] ''/app'' 1000 ''s1'' ''a1'' empty_manager) = Inr ?e" by code_simp
  then obtain m where m: "getOrCreate [] ''/app'' 1000 ''s1'' ''a1'' empty_manager = (Inr ?e, m)"
    by (metis prod.collapse)
  from session_registry [OF empty_manager_ok m] have "getOrCreate [] ''/app'' 2000 ''s1'' ''a1'' m = (Inr ?e, m)"
    by blast
  with m show ?thesis by auto
qed

section \<open>Cleaning up\<close>

lemma no_links_drop_tree: "no_links f p \<Longrightarrow> no_links (drop_tree q f) p"
  by (auto simp: no_links_def link_at_Some node_at_drop_tree split: if_splits)

lemma existsSync_node:
  assumes "tree_ok f" and "clean p" and "no_links f p"
  shows "existsSync f (abs_path p) \<longleftrightarrow> node_at f p \<noteq> None"
proof (cases "node_at f p")
  case (Some n)
  then have "statSync f (abs_path p) = Inr n"
    using assms no_links_self [of f p] by (intro stat_node) (auto simp: link_at_def)
  with Some show ?thesis by (simp add: existsSync_def)
next
  case None
  show ?thesis
  proof (cases "statSync f (abs_path p)")
    case (Inr n)
    then have "node_at f p = Some n"
      using stat_Inr [OF assms(2) no_links_free [OF assms(3)] _ Inr] no_links_self [OF assms(3)] by simp
    with None show ?thesis by simp
  qed (simp add: existsSync_def None)
qed

lemma rm_each_spec:
  "tree_ok f \<Longrightarrow> (\<And>p. p \<in> set ps \<Longrightarrow> clean p \<and> p \<noteq> [] \<and> no_links f p) \<Longrightarrow>
     rm_each cwd (map abs_path ps) f = Inr g \<Longrightarrow>
     (\<forall>p \<in> set ps. \<forall>q. prefix p q \<longrightarrow> node_at g q = None) \<and>
     (\<forall>q. (\<forall>p \<in> set ps. \<not> prefix p q \<and> \<not> strict_prefix q p) \<longrightarrow> node_at g q = node_at f q) \<and>
     (\<forall>q. node_at f q = None \<longrightarrow> node_at g q = None)"
proof (induction ps arbitrary: f)
  case (Cons p ps)
  have p: "clean p" "p \<noteq> []" "no_links f p" using Cons.prems(2) [of p] by simp_all
  have none: "node_at f q = None" if "node_at f p = None" "prefix p q" for q
  proof (rule ccontr)
    assume n: "node_at f q \<noteq> None"
    with that have "strict_prefix p q" by (auto simp: strict_prefix_def)
    from prefix_is_dir [OF Cons.prems(1) n this] that(1) show False by (simp add: is_dir_at_Some)
  qed
  let ?f = "if node_at f p = None then f else drop_tree p f"
  have "rm_each cwd (map abs_path ps) ?f = Inr g"
    using Cons.prems(3) rm_recursive_node [OF Cons.prems(1) _ p(2), of True]
    by (auto simp: resolve_abs [OF p(1)] existsSync_node [OF Cons.prems(1) p(1,3)] split: if_splits)
  moreover have "tree_ok ?f"
    using rm_recursive_ok [OF rm_recursive_node [OF Cons.prems(1) _ p(2), of True] Cons.prems(1)] Cons.prems(1)
    by simp
  moreover have "clean q \<and> q \<noteq> [] \<and> no_links ?f q" if "q \<in> set ps" for q
    using Cons.prems(2) [of q] that no_links_drop_tree by simp
  ultimately have *: "(\<forall>p \<in> set ps. \<forall>q. prefix p q \<longrightarrow> node_at g q = None) \<and>
     (\<forall>q. (\<forall>p \<in> set ps. \<not> prefix p q \<and> \<not> strict_prefix q p) \<longrightarrow> node_at g q = node_at ?f q) \<and>
     (\<forall>q. node_at ?f q = None \<longrightarrow> node_at g q = None)"
    by (intro Cons.IH) auto
  have bl: "strict_prefix (butlast p) p"
    using p(2) prefixeq_butlast [of p] not_prefix_butlast [OF p(2)] by (metis prefix_order.le_less prefix_order.order_refl)
  have gone: "node_at ?f q = None" if "prefix p q" for q using none [OF _ that] that by (simp add: node_at_drop_tree)
  have same: "node_at ?f q = node_at f q" if "\<not> prefix p q" "\<not> strict_prefix q p" for q
    using that bl by (auto simp: node_at_drop_tree)
  have still: "node_at ?f q = None" if "node_at f q = None" for q
    using that by (auto simp: node_at_drop_tree is_dir_at_Some)
  show ?case using * gone same still by auto
qed simp

lemma sessionTmp_segs:
  assumes "clean_seg sid" and "clean_seg aid"
  shows "sessionTmp sid aid = abs_path [''tmp'', aid @ ''_'' @ sid]" and "clean [''tmp'', aid @ ''_'' @ sid]"
proof -
  obtain c cs d ds where cs: "aid = c # cs" "sid = d # ds"
    using assms clean_segD(1) by (metis neq_Nil_conv)
  with assms show "clean [''tmp'', aid @ ''_'' @ sid]"
    by (auto simp: clean_seg_def)
qed (simp add: sessionTmp_def abs_path_def)

text \<open>
  Removing a session entry with its files deletes the \<open>.claude\<close>, \<open>.venv\<close> and temporary
  directories of that agent in that session, with everything in them, and nothing else: the
  shared workspace of every session and the directories of every other agent are untouched.
\<close>

theorem cleanup_confined:
  assumes "root_segs env r" and "clean_seg sid" and "clean_seg aid" and "r \<noteq> []" and "hd r \<noteq> ''tmp''"
    and "manager_ok m"
    and "no_links (mgr_disk m) (r @ [''sessions'', sid, ''agents'', aid, ''.claude''])"
    and "no_links (mgr_disk m) (r @ [''sessions'', sid, ''agents'', aid, ''.venv''])"
    and "no_links (mgr_disk m) [''tmp'', aid @ ''_'' @ sid]"
    and "remove_entry env cwd sid aid True m = (Inr True, m')"
  shows "(\<forall>d \<in> {r @ [''sessions'', sid, ''agents'', aid, ''.claude''],
               r @ [''sessions'', sid, ''agents'', aid, ''.venv''], [''tmp'', aid @ ''_'' @ sid]}.
            \<forall>q. node_at (mgr_disk m') (d @ q) = None) \<and>
    (\<forall>s q. node_at (mgr_disk m') (r @ [''sessions'', s, ''shared''] @ q) =
           node_at (mgr_disk m) (r @ [''sessions'', s, ''shared''] @ q)) \<and>
    (\<forall>s a q. a \<noteq> aid \<longrightarrow>
       node_at (mgr_disk m') (r @ [''sessions'', s, ''agents'', a] @ q) =
       node_at (mgr_disk m) (r @ [''sessions'', s, ''agents'', a] @ q))"
proof -
  let ?ds = "[r @ [''sessions'', sid, ''agents'', aid, ''.claude''],
    r @ [''sessions'', sid, ''agents'', aid, ''.venv''], [''tmp'', aid @ ''_'' @ sid]]"
  have r: "clean r" using assms(1) by (simp add: root_segs_def)
  have t: "tree_ok (mgr_disk m)" using assms(6) by (simp add: manager_ok_def)
  have dirs: "[sessionClaudeDir env sid aid, sessionVenvDir env sid aid, sessionTmp sid aid] = map abs_path ?ds"
    by (simp add: claudeDir_segs [OF assms(1-3)] venvDir_segs [OF assms(1-3)] sessionTmp_segs(1) [OF assms(2,3)])
  have "rm_each cwd (map abs_path ?ds) (mgr_disk m) = Inr (mgr_disk m')"
    using assms(10) by (auto simp: remove_entry_def dirs Let_def simp del: rm_each.simps list.map
        split: option.splits sum.splits prod.splits)
  moreover have "clean p \<and> p \<noteq> [] \<and> no_links (mgr_disk m) p" if "p \<in> set ?ds" for p
    using that r assms(2,3,7-9) sessionTmp_segs(2) [OF assms(2,3)] by auto
  ultimately have spec: "(\<forall>p \<in> set ?ds. \<forall>q. prefix p q \<longrightarrow> node_at (mgr_disk m') q = None) \<and>
     (\<forall>q. (\<forall>p \<in> set ?ds. \<not> prefix p q \<and> \<not> strict_prefix q p) \<longrightarrow>
        node_at (mgr_disk m') q = node_at (mgr_disk m) q)"
    using rm_each_spec [OF t, of ?ds cwd "mgr_disk m'"] by blast
  obtain h rs where rc: "r = h # rs" "h \<noteq> ''tmp''" using assms(4,5) by (cases r) auto
  have off: "\<forall>p \<in> set ?ds. \<not> prefix p (r @ z) \<and> \<not> strict_prefix (r @ z) p"
    if "\<not> prefix [''sessions'', sid, ''agents'', aid, ''.claude''] z"
      "\<not> strict_prefix z [''sessions'', sid, ''agents'', aid, ''.claude'']"
      "\<not> prefix [''sessions'', sid, ''agents'', aid, ''.venv''] z"
      "\<not> strict_prefix z [''sessions'', sid, ''agents'', aid, ''.venv'']" for z
    using that rc(2) by (simp add: strict_prefix_def) (simp add: rc(1))
  have keep: "node_at (mgr_disk m') (r @ z) = node_at (mgr_disk m) (r @ z)"
    if "\<not> prefix [''sessions'', sid, ''agents'', aid, ''.claude''] z"
      "\<not> strict_prefix z [''sessions'', sid, ''agents'', aid, ''.claude'']"
      "\<not> prefix [''sessions'', sid, ''agents'', aid, ''.venv''] z"
      "\<not> strict_prefix z [''sessions'', sid, ''agents'', aid, ''.venv'']" for z
    using spec off [OF that] by blast
  show ?thesis
  proof (intro conjI allI impI)
    show "\<forall>d \<in> {r @ [''sessions'', sid, ''agents'', aid, ''.claude''],
               r @ [''sessions'', sid, ''agents'', aid, ''.venv''], [''tmp'', aid @ ''_'' @ sid]}.
            \<forall>q. node_at (mgr_disk m') (d @ q) = None"
      using spec by (auto simp del: append_assoc)
    show "node_at (mgr_disk m') (r @ [''sessions'', s, ''shared''] @ q) =
        node_at (mgr_disk m) (r @ [''sessions'', s, ''shared''] @ q)" for s q
      by (rule keep) (simp_all add: strict_prefix_def)
    show "node_at (mgr_disk m') (r @ [''sessions'', s, ''agents'', a] @ q) =
        node_at (mgr_disk m) (r @ [''sessions'', s, ''agents'', a] @ q)" if "a \<noteq> aid" for s a q
      using that by (intro keep) (simp_all add: strict_prefix_def)
  qed
qed

theorem cleanup_confined_witness:
  "\<exists>m m'. getOrCreate [] ''/app'' 0 ''s1'' ''a1'' empty_manager = (Inr \<lparr>se_sessionId = ''s1'', se_agentId = ''a1'',
      se_sharedDir = ''/workspace-root/sessions/s1/shared'', se_createdAt = 0, se_lock = 0\<rparr>, m) \<and>
    remove_entry [] ''/app'' ''s1'' ''a1'' True m = (Inr True, m') \<and>
    node_at (mgr_disk m') [''tmp'', ''a1_s1''] = None \<and>
    node_at (mgr_disk m') [''workspace-root'', ''sessions'', ''s1'', ''shared''] \<noteq> None"
proof -
  let ?e = "\<lparr>se_sessionId = ''s1'', se_agentId = ''a1'',
      se_sharedDir = ''/workspace-root/sessions/s1/shared'', se_createdAt = 0, se_lock = 0\<rparr>"
  let ?m = "snd (getOrCreate [] ''/app'' 0 ''s1'' ''a1'' empty_manager)"
  let ?m' = "snd (remove_entry [] ''/app'' ''s1'' ''a1'' True ?m)"
  have g: "getOrCreate [] ''/app'' 0 ''s1'' ''a1'' empty_manager = (Inr ?e, ?m)"
    by (rule prod_eqI) (code_simp, simp)
  have c: "clean_seg ''s1''" "clean_seg ''a1''" by (simp_all add: clean_seg_def)
  have r: "[''workspace-root''] \<noteq> []" "hd [''workspace-root''] \<noteq> ''tmp''" by simp_all
  have ok: "manager_ok ?m" by (rule getOrCreate_ok [OF empty_manager_ok])
  have n: "no_links (mgr_disk ?m) ([''workspace-root''] @ [''sessions'', ''s1'', ''agents'', ''a1'', ''.claude''])"
    "no_links (mgr_disk ?m) ([''workspace-root''] @ [''sessions'', ''s1'', ''agents'', ''a1'', ''.venv''])"
    "no_links (mgr_disk ?m) [''tmp'', ''a1'' @ ''_'' @ ''s1'']" by code_simp+
  have "fst (remove_entry [] ''/app'' ''s1'' ''a1'' True ?m) = Inr True" by code_simp
  then have d: "remove_entry [] ''/app'' ''s1'' ''a1'' True ?m = (Inr True, ?m')" by (metis prod.collapse)
  note x = cleanup_confined [OF root_segs_default c r ok n d]
  have "node_at (mgr_disk ?m) [''workspace-root'', ''sessions'', ''s1'', ''shared''] \<noteq> None" by code_simp
  moreover have "node_at (mgr_disk ?m') ([''workspace-root''] @ [''sessions'', ''s1'', ''shared''] @ []) =
      node_at (mgr_disk ?m) ([''workspace-root''] @ [''sessions'', ''s1'', ''shared''] @ [])"
    using x by blast
  moreover have "node_at (mgr_disk ?m') ([''tmp'', ''a1'' @ ''_'' @ ''s1''] @ []) = None" using x by blast
  ultimately show ?thesis using g d by (intro exI [of _ ?m] exI [of _ ?m']) simp
qed

end
