(* ===== verification/MessageServer.thy ===== *)
theory MessageServer
  imports Sessions
begin

text \<open>
  The life of a message request in \<open>runtime/src/server.ts\<close>: the handler of \<open>POST /message\<close> cut at
  its suspension points (waiting for the mutex, waiting for the next chunk), the abort and
  session routes, and the map of abort controllers they share. Requests and their controllers
  are named by a number; one event runs one synchronous piece of a handler.
\<close>

section \<open>State\<close>

text \<open>Where a request is: session, agent and the mutex of the entry it got.\<close>

datatype phase =
    Waiting string string nat
  | Granted string string nat
  | Streaming string string nat
  | Ended

record server =
  srv_manager :: manager
  srv_controllers :: "(string, nat) jmap"
  srv_aborted :: "nat list"
  srv_phase :: "(nat, phase) jmap"
  srv_written :: "(nat \<times> string) list"

datatype reply = Reply nat string "string list"

definition abortKey :: "string \<Rightarrow> string \<Rightarrow> string" where
  "abortKey sid aid = sid @ ''/'' @ aid"

definition phase_of :: "server \<Rightarrow> nat \<Rightarrow> phase option" where
  "phase_of s r = mget (srv_phase s) r"

definition set_phase :: "nat \<Rightarrow> phase \<Rightarrow> server \<Rightarrow> server" where
  "set_phase r p s = s\<lparr>srv_phase := mput r p (srv_phase s)\<rparr>"

definition lock_of :: "server \<Rightarrow> nat \<Rightarrow> nat mutex" where
  "lock_of s l = mgr_locks (srv_manager s) ! l"

definition set_lock :: "nat \<Rightarrow> nat mutex \<Rightarrow> server \<Rightarrow> server" where
  "set_lock l x s = s\<lparr>srv_manager := (srv_manager s)\<lparr>mgr_locks := (mgr_locks (srv_manager s))[l := x]\<rparr>\<rparr>"

section \<open>The message handler\<close>

text \<open>The promise of a waiter resolves: its handler can run on.\<close>

definition wake :: "nat option \<Rightarrow> server \<Rightarrow> server" where
  "wake w s =
     (case w of
        None \<Rightarrow> s
      | Some r \<Rightarrow>
          (case phase_of s r of
             Some (Waiting sid aid l) \<Rightarrow> set_phase r (Granted sid aid l) s
           | _ \<Rightarrow> s))"

text \<open>Up to \<open>await entry._lock.acquire()\<close>; the body has been found complete.\<close>

definition message_arrive ::
  "env \<Rightarrow> string \<Rightarrow> nat \<Rightarrow> nat \<Rightarrow> string \<Rightarrow> string \<Rightarrow> server \<Rightarrow> server" where
  "message_arrive env cwd t r sid aid s =
     (case getOrCreate env cwd t sid aid (srv_manager s) of
        (Inl e, m) \<Rightarrow> set_phase r Ended (s\<lparr>srv_manager := m\<rparr>)
      | (Inr entry, m) \<Rightarrow>
          let s1 = set_phase r (Waiting sid aid (se_lock entry)) (s\<lparr>srv_manager := m\<rparr>);
              (x, w) = tryAcquire r (lock_of s1 (se_lock entry))
          in wake w (set_lock (se_lock entry) x s1))"

text \<open>After the await: the controller is made and entered under the key of session and agent.\<close>

definition message_resume :: "nat \<Rightarrow> string \<Rightarrow> string \<Rightarrow> nat \<Rightarrow> server \<Rightarrow> server" where
  "message_resume r sid aid l s =
     set_phase r (Streaming sid aid l)
       (s\<lparr>srv_controllers := mput (abortKey sid aid) r (srv_controllers s)\<rparr>)"

text \<open>The \<open>finally\<close> block, and the end of the response.\<close>

definition message_finish ::
  "env \<Rightarrow> string \<Rightarrow> nat \<Rightarrow> string \<Rightarrow> string \<Rightarrow> nat \<Rightarrow> server \<Rightarrow> server" where
  "message_finish env cwd r sid aid l s =
     (let s1 = set_phase r Ended (s\<lparr>srv_controllers := mdelete (abortKey sid aid) (srv_controllers s)\<rparr>);
          (x, w) = release (lock_of s1 l);
          s2 = wake w (set_lock l x s1)
      in s2\<lparr>srv_manager := snd (remove_entry env cwd sid aid False (srv_manager s2))\<rparr>)"

text \<open>The body of the loop for one chunk of the agent: stop when aborted, else write it.\<close>

definition message_chunk ::
  "env \<Rightarrow> string \<Rightarrow> nat \<Rightarrow> string \<Rightarrow> string \<Rightarrow> nat \<Rightarrow> string \<Rightarrow> server \<Rightarrow> server" where
  "message_chunk env cwd r sid aid l c s =
     (if r \<in> set (srv_aborted s) then message_finish env cwd r sid aid l s
      else s\<lparr>srv_written := srv_written s @ [(r, ''data: '' @ c @ [CHR 0x0A, CHR 0x0A])]\<rparr>)"

text \<open>
  The response closes: the listener, registered after the await, aborts the request's own
  controller. Before that there is no listener, and nothing happens.
\<close>

definition message_close :: "nat \<Rightarrow> server \<Rightarrow> server" where
  "message_close r s =
     (case phase_of s r of
        Some (Streaming _ _ _) \<Rightarrow>
          if r \<in> set (srv_aborted s) then s else s\<lparr>srv_aborted := srv_aborted s @ [r]\<rparr>
      | _ \<Rightarrow> s)"

section \<open>The abort and session routes\<close>

definition abort_one :: "string \<Rightarrow> string \<Rightarrow> server \<Rightarrow> reply \<times> server" where
  "abort_one sid aid s =
     (case mget (srv_controllers s) (abortKey sid aid) of
        None \<Rightarrow> (Reply 404 ''No active stream for this session/agent'' [], s)
      | Some c \<Rightarrow>
          (Reply 200 ''aborted'' [aid],
           s\<lparr>srv_aborted := srv_aborted s @ [c],
             srv_controllers := mdelete (abortKey sid aid) (srv_controllers s)\<rparr>))"

text \<open>The loop over a snapshot of the keys.\<close>

fun abort_keys :: "string \<Rightarrow> string list \<Rightarrow> server \<Rightarrow> string list \<times> server" where
  "abort_keys sid [] s = ([], s)"
| "abort_keys sid (k # ks) s =
     (if starts_with k (sid @ ''/'') then
        let s1 = (case mget (srv_controllers s) k of
                    None \<Rightarrow> s
                  | Some c \<Rightarrow> s\<lparr>srv_aborted := srv_aborted s @ [c],
                               srv_controllers := mdelete k (srv_controllers s)\<rparr>);
            (aborted, s2) = abort_keys sid ks s1
        in (drop (length sid + 1) k # aborted, s2)
      else abort_keys sid ks s)"

definition abort_session :: "string \<Rightarrow> server \<Rightarrow> reply \<times> server" where
  "abort_session sid s =
     (case abort_keys sid (mkeys (srv_controllers s)) s of
        (aborted, s') \<Rightarrow>
          if aborted = [] then (Reply 404 ''No active streams for this session'' [], s')
          else (Reply 200 ''aborted'' aborted, s'))"

definition abort_route :: "string \<Rightarrow> string option \<Rightarrow> server \<Rightarrow> reply \<times> server" where
  "abort_route sid agentId s =
     (if truthy agentId then abort_one sid (the agentId) s else abort_session sid s)"

definition delete_session_route ::
  "env \<Rightarrow> string \<Rightarrow> string \<Rightarrow> string option \<Rightarrow> server \<Rightarrow> reply \<times> server" where
  "delete_session_route env cwd sid agentId s =
     (if \<not> truthy agentId then (Reply 400 ''agent_id is required (query or body)'' [], s)
      else case remove_entry env cwd sid (the agentId) True (srv_manager s) of
             (Inl _, m) \<Rightarrow> (Reply 500 '''' [], s\<lparr>srv_manager := m\<rparr>)
           | (Inr removed, m) \<Rightarrow>
               (if removed then Reply 200 ''removed'' [] else Reply 404 ''session not found'' [],
                s\<lparr>srv_manager := m\<rparr>))"

definition metrics_route :: "server \<Rightarrow> nat \<times> nat" where
  "metrics_route s = (activeCount (srv_manager s), activeCount (srv_manager s))"

section \<open>The server as a state machine\<close>

datatype srv_event =
    Message nat nat string string
  | Resume nat
  | AgentChunk nat string
  | AgentEnd nat
  | ClientClose nat
  | Abort string "string option"
  | DeleteSession string "string option"

inductive srv_step :: "env \<Rightarrow> string \<Rightarrow> server \<Rightarrow> srv_event \<Rightarrow> server \<Rightarrow> bool"
  for env cwd where
  arrive: "phase_of s r = None \<Longrightarrow>
     srv_step env cwd s (Message t r sid aid) (message_arrive env cwd t r sid aid s)"
| resume: "phase_of s r = Some (Granted sid aid l) \<Longrightarrow>
     srv_step env cwd s (Resume r) (message_resume r sid aid l s)"
| chunk: "phase_of s r = Some (Streaming sid aid l) \<Longrightarrow>
     srv_step env cwd s (AgentChunk r c) (message_chunk env cwd r sid aid l c s)"
| finish: "phase_of s r = Some (Streaming sid aid l) \<Longrightarrow>
     srv_step env cwd s (AgentEnd r) (message_finish env cwd r sid aid l s)"
| close: "srv_step env cwd s (ClientClose r) (message_close r s)"
| abort: "srv_step env cwd s (Abort sid agentId) (snd (abort_route sid agentId s))"
| delete: "srv_step env cwd s (DeleteSession sid agentId) (snd (delete_session_route env cwd sid agentId s))"

inductive_cases srv_stepE: "srv_step env cwd s e s'"

definition start_server :: server where
  "start_server = \<lparr>srv_manager = empty_manager, srv_controllers = [], srv_aborted = [],
     srv_phase = [], srv_written = []\<rparr>"

inductive srv_reach :: "env \<Rightarrow> string \<Rightarrow> server \<Rightarrow> bool" for env cwd where
  start: "srv_reach env cwd start_server"
| step: "srv_reach env cwd s \<Longrightarrow> srv_step env cwd s e s' \<Longrightarrow> srv_reach env cwd s'"

section \<open>One holder per mutex\<close>

fun holds :: "phase option \<Rightarrow> nat \<Rightarrow> bool" where
  "holds (Some (Granted _ _ k)) l = (k = l)"
| "holds (Some (Streaming _ _ k)) l = (k = l)"
| "holds _ l = False"

fun waits :: "phase option \<Rightarrow> nat \<Rightarrow> bool" where
  "waits (Some (Waiting _ _ k)) l = (k = l)"
| "waits _ l = False"

text \<open>The waiters of a mutex are its queue, and it is locked just when one request holds it.\<close>

definition lock_inv :: "nat mutex \<Rightarrow> (nat \<Rightarrow> phase option) \<Rightarrow> nat \<Rightarrow> bool" where
  "lock_inv x ph l \<longleftrightarrow> mutex_ok x \<and> distinct (mx_queue x) \<and> (\<forall>r. r \<in> set (mx_queue x) \<longleftrightarrow> waits (ph r) l) \<and>
     (mx_locked x \<longleftrightarrow> (\<exists>r. holds (ph r) l)) \<and> (\<forall>r r'. holds (ph r) l \<longrightarrow> holds (ph r') l \<longrightarrow> r = r')"

definition locks_inv :: "nat mutex list \<Rightarrow> (nat \<Rightarrow> phase option) \<Rightarrow> bool" where
  "locks_inv ls ph \<longleftrightarrow> (\<forall>r l. holds (ph r) l \<or> waits (ph r) l \<longrightarrow> l < length ls) \<and>
     (\<forall>l < length ls. lock_inv (ls ! l) ph l)"

text \<open>A change of one request's phase and one mutex leaves the other mutexes alone.\<close>

lemma locks_inv_update:
  assumes "locks_inv ls ph" and "l < length ls" and "lock_inv x ph' l"
    and "\<And>r k. k \<noteq> l \<Longrightarrow> holds (ph' r) k = holds (ph r) k \<and> waits (ph' r) k = waits (ph r) k"
  shows "locks_inv (ls[l := x]) ph'"
  unfolding locks_inv_def
proof (intro conjI allI impI)
  show "k < length (ls[l := x])" if "holds (ph' r) k \<or> waits (ph' r) k" for r k
    using that assms(1,2) assms(4) [of k r] by (cases "k = l") (auto simp: locks_inv_def)
  show "lock_inv (ls[l := x] ! k) ph' k" if "k < length (ls[l := x])" for k
  proof (cases "k = l")
    case False
    then show ?thesis using assms(1,4) that by (simp add: locks_inv_def lock_inv_def)
  qed (use assms(2,3) in simp)
qed

lemma locks_inv_phases:
  assumes "locks_inv ls ph" and "\<And>z k. holds (ph' z) k = holds (ph z) k \<and> waits (ph' z) k = waits (ph z) k"
  shows "locks_inv ls ph'"
  using assms by (simp add: locks_inv_def lock_inv_def)

lemma locks_inv_append:
  assumes "locks_inv ls ph"
  shows "locks_inv (ls @ [createMutex]) ph"
proof -
  have "\<not> holds (ph r) (length ls)" "\<not> waits (ph r) (length ls)" for r
    using assms by (auto simp: locks_inv_def)
  then have "lock_inv createMutex ph (length ls)" by (simp add: lock_inv_def createMutex_def mutex_ok_def)
  with assms show ?thesis
    by (auto simp: locks_inv_def nth_append less_Suc_eq)
qed

fun woken :: "phase option \<Rightarrow> phase option" where
  "woken (Some (Waiting sid aid l)) = Some (Granted sid aid l)"
| "woken p = p"

definition wake_ph :: "nat option \<Rightarrow> (nat \<Rightarrow> phase option) \<Rightarrow> nat \<Rightarrow> phase option" where
  "wake_ph w ph = (case w of None \<Rightarrow> ph | Some r \<Rightarrow> ph(r := woken (ph r)))"

lemma woken_other:
  "waits p l \<Longrightarrow> k \<noteq> l \<Longrightarrow> holds (woken p) k = holds p k \<and> waits (woken p) k = waits p k"
  by (cases p rule: woken.cases) auto

lemma wake_ph_other:
  "w = None \<or> (\<exists>q. w = Some q \<and> waits (ph q) l) \<Longrightarrow> k \<noteq> l \<Longrightarrow>
     holds (wake_ph w ph z) k = holds (ph z) k \<and> waits (wake_ph w ph z) k = waits (ph z) k"
  using woken_other by (auto simp: wake_ph_def split: if_splits)

lemma lock_inv_try:
  assumes "lock_inv x ph l" and "ph r = None" and "tryAcquire r x = (y, w)"
  shows "lock_inv y (wake_ph w (ph(r := Some (Waiting sid aid l)))) l"
proof -
  have "holds (ph z) l \<Longrightarrow> z \<noteq> r" for z using assms(2) by auto
  with assms show ?thesis
    by (auto simp: lock_inv_def tryAcquire_def wake_ph_def mutex_ok_def split: if_splits)
qed

lemma lock_inv_release:
  assumes "lock_inv x ph l" and "holds (ph r) l" and "release x = (y, w)"
  shows "lock_inv y (wake_ph w (ph(r := Some Ended))) l"
proof (cases "mx_queue x")
  case Nil
  with assms show ?thesis
    by (auto simp: lock_inv_def release_def Let_def wake_ph_def mutex_ok_def)
next
  case (Cons q qs)
  then have y: "y = \<lparr>mx_locked = True, mx_queue = qs\<rparr>" "w = Some q"
    using assms(3) by (auto simp: release_def tryAcquire_def Let_def)
  have q: "waits (ph q) l" "q \<notin> set qs" "distinct qs" "\<And>z. z \<in> set qs \<longleftrightarrow> z \<noteq> q \<and> waits (ph z) l"
    using assms(1) Cons by (auto simp: lock_inv_def)
  then obtain sid aid where pq: "ph q = Some (Waiting sid aid l)"
    by (cases "ph q" rule: woken.cases) auto
  with assms(2) have "q \<noteq> r" by auto
  moreover have "\<not> waits (ph r) l" using assms(2) by (cases "ph r" rule: woken.cases) auto
  moreover have "holds (ph z) l \<Longrightarrow> z = r" for z using assms(1,2) by (auto simp: lock_inv_def)
  ultimately show ?thesis
    using q pq by (auto simp: y lock_inv_def wake_ph_def mutex_ok_def)
qed

definition server_inv :: "server \<Rightarrow> bool" where
  "server_inv s \<longleftrightarrow> manager_ok (srv_manager s) \<and> locks_inv (mgr_locks (srv_manager s)) (phase_of s)"

lemma phase_of_set_phase [simp]: "phase_of (set_phase r p s) = (phase_of s)(r := Some p)"
  by (auto simp: phase_of_def set_phase_def update_conv')

lemma phase_of_fields [simp]:
  "phase_of (s\<lparr>srv_manager := m\<rparr>) = phase_of s"
  "phase_of (s\<lparr>srv_controllers := c\<rparr>) = phase_of s"
  "phase_of (s\<lparr>srv_aborted := a\<rparr>) = phase_of s"
  "phase_of (s\<lparr>srv_written := x\<rparr>) = phase_of s"
  "phase_of (set_lock l y s) = phase_of s"
  by (auto simp: phase_of_def set_lock_def)

lemma manager_set_phase [simp]: "srv_manager (set_phase r p s) = srv_manager s"
  by (simp add: set_phase_def)

lemma phase_of_wake [simp]: "phase_of (wake w s) = wake_ph w (phase_of s)"
  by (cases w) (auto simp: wake_def wake_ph_def split: option.split phase.split)

lemma manager_wake [simp]: "srv_manager (wake w s) = srv_manager s"
  by (auto simp: wake_def split: option.split phase.split)

lemma manager_ok_set_lock:
  assumes "manager_ok m" and "mutex_ok x"
  shows "manager_ok (m\<lparr>mgr_locks := (mgr_locks m)[l := x]\<rparr>)"
proof -
  have "mutex_ok y" if "y \<in> set ((mgr_locks m)[l := x])" for y
    using that assms set_update_subset_insert [of "mgr_locks m" l x] by (auto simp: manager_ok_def)
  then show ?thesis using assms(1) by (simp add: manager_ok_def)
qed

lemma getOrCreate_locks:
  assumes "getOrCreate env cwd t sid aid m = (q, m')"
  shows "mgr_locks m' = mgr_locks m \<or> mgr_locks m' = mgr_locks m @ [createMutex]"
  using assms by (auto simp: getOrCreate_def Let_def split: option.splits sum.splits prod.splits)

lemma getOrCreate_lock_bound:
  assumes "manager_ok m" and "getOrCreate env cwd t sid aid m = (Inr e, m')"
  shows "se_lock e < length (mgr_locks m')"
  using assms
  by (auto simp: getOrCreate_def Let_def manager_ok_def split: option.splits sum.splits prod.splits
      dest: map_of_SomeD)

lemma remove_entry_locks: "mgr_locks (snd (remove_entry env cwd sid aid cleanup m)) = mgr_locks m"
  by (auto simp: remove_entry_def Let_def split: option.split sum.split prod.split)

lemma message_arrive_inv:
  assumes "server_inv s" and "phase_of s r = None"
  shows "server_inv (message_arrive env cwd t r sid aid s)"
proof -
  let ?m = "srv_manager s"
  obtain q m where g: "getOrCreate env cwd t sid aid ?m = (q, m)" by fastforce
  have ok: "manager_ok m"
    using getOrCreate_ok [of ?m env cwd t sid aid] assms(1) g by (simp add: server_inv_def)
  have li: "locks_inv (mgr_locks m) (phase_of s)"
    using getOrCreate_locks [OF g] assms(1) locks_inv_append by (auto simp: server_inv_def)
  show ?thesis
  proof (cases q)
    case (Inl e)
    have "locks_inv (mgr_locks m) ((phase_of s)(r := Some Ended))"
      by (rule locks_inv_phases [OF li]) (simp add: assms(2))
    with g Inl ok show ?thesis by (simp add: message_arrive_def server_inv_def)
  next
    case (Inr e)
    let ?l = "se_lock e"
    have b: "?l < length (mgr_locks m)"
      using getOrCreate_lock_bound [of ?m env cwd t sid aid e m] assms(1) g Inr by (simp add: server_inv_def)
    obtain x w where x: "tryAcquire r (mgr_locks m ! ?l) = (x, w)" by fastforce
    have old: "lock_inv (mgr_locks m ! ?l) (phase_of s) ?l" using li b by (simp add: locks_inv_def)
    note new = lock_inv_try [OF old assms(2) x, of sid aid]
    have w: "w = None \<or> w = Some r" using x by (auto simp: tryAcquire_def split: if_splits)
    have "locks_inv ((mgr_locks m)[?l := x]) (wake_ph w ((phase_of s)(r := Some (Waiting sid aid ?l))))"
      by (rule locks_inv_update [OF li b new]) (use w assms(2) in \<open>auto simp: wake_ph_def split: if_splits\<close>)
    moreover have "mutex_ok x" using new by (simp add: lock_inv_def)
    ultimately show ?thesis
      using g Inr x manager_ok_set_lock [OF ok]
      by (simp add: message_arrive_def server_inv_def Let_def lock_of_def set_lock_def)
  qed
qed

lemma message_finish_inv:
  assumes "server_inv s" and "phase_of s r = Some (Streaming sid aid l)"
  shows "server_inv (message_finish env cwd r sid aid l s)"
proof -
  let ?m = "srv_manager s"
  have li: "locks_inv (mgr_locks ?m) (phase_of s)" and ok: "manager_ok ?m" using assms(1) by (auto simp: server_inv_def)
  have h: "holds (phase_of s r) l" using assms(2) by simp
  then have b: "l < length (mgr_locks ?m)" using li by (auto simp: locks_inv_def)
  obtain x w where x: "release (mgr_locks ?m ! l) = (x, w)" by fastforce
  have old: "lock_inv (mgr_locks ?m ! l) (phase_of s) l" using li b by (simp add: locks_inv_def)
  note new = lock_inv_release [OF old h x]
  have w: "w = None \<or> (\<exists>q. w = Some q \<and> waits (phase_of s q) l)"
    using x old by (auto simp: release_def tryAcquire_def Let_def lock_inv_def split: list.splits)
  have "locks_inv ((mgr_locks ?m)[l := x]) (wake_ph w ((phase_of s)(r := Some Ended)))"
  proof (rule locks_inv_update [OF li b new])
    fix z k assume "k \<noteq> l"
    let ?ph = "(phase_of s)(r := Some Ended)"
    have "waits (?ph q) l" if "waits (phase_of s q) l" for q
      using that assms(2) by (cases "q = r") auto
    with w have "w = None \<or> (\<exists>q. w = Some q \<and> waits (?ph q) l)" by blast
    from wake_ph_other [OF this \<open>k \<noteq> l\<close>]
    have "holds (wake_ph w ?ph z) k = holds (?ph z) k \<and> waits (wake_ph w ?ph z) k = waits (?ph z) k" .
    moreover have "holds (?ph z) k = holds (phase_of s z) k \<and> waits (?ph z) k = waits (phase_of s z) k"
      using assms(2) \<open>k \<noteq> l\<close> by simp
    ultimately show "holds (wake_ph w ?ph z) k = holds (phase_of s z) k \<and>
        waits (wake_ph w ?ph z) k = waits (phase_of s z) k" by simp
  qed
  moreover have "mutex_ok x" using new by (simp add: lock_inv_def)
  ultimately show ?thesis
    using x manager_ok_set_lock [OF ok] remove_entry_ok remove_entry_locks
    by (simp add: message_finish_def server_inv_def Let_def lock_of_def set_lock_def)
qed

lemma server_inv_cong:
  assumes "server_inv s" and "manager_ok (srv_manager s')"
    and "mgr_locks (srv_manager s') = mgr_locks (srv_manager s)" and "phase_of s' = phase_of s"
  shows "server_inv s'"
  using assms by (simp add: server_inv_def)

lemma abort_keys_frame:
  "srv_manager (snd (abort_keys sid ks s)) = srv_manager s \<and> phase_of (snd (abort_keys sid ks s)) = phase_of s"
proof (induction sid ks s rule: abort_keys.induct)
  case (2 sid k ks s)
  then show ?case
    by (auto simp: Let_def split: option.splits prod.split)
qed simp

lemma abort_route_frame:
  "srv_manager (snd (abort_route sid a s)) = srv_manager s \<and> phase_of (snd (abort_route sid a s)) = phase_of s"
  using abort_keys_frame [of sid "mkeys (srv_controllers s)" s]
  by (auto simp: abort_route_def abort_one_def abort_session_def split: option.split prod.split)

lemma srv_step_inv:
  assumes "srv_step env cwd s e s'" and "server_inv s"
  shows "server_inv s'"
  using assms
proof (cases rule: srv_step.cases)
  case (resume r sid aid l)
  have "locks_inv (mgr_locks (srv_manager s)) ((phase_of s)(r := Some (Streaming sid aid l)))"
    by (rule locks_inv_phases [of _ "phase_of s"]) (use assms(2) resume(3) in \<open>auto simp: server_inv_def\<close>)
  with assms(2) resume(2) show ?thesis by (simp add: message_resume_def server_inv_def)
next
  case (chunk r sid aid l c)
  show ?thesis
  proof (cases "r \<in> set (srv_aborted s)")
    case True
    with chunk message_finish_inv [OF assms(2) chunk(3)] show ?thesis by (simp add: message_chunk_def)
  next
    case False
    with chunk assms(2) show ?thesis by (simp add: message_chunk_def server_inv_def)
  qed
next
  case (close r)
  then show ?thesis using assms(2)
    by (auto simp: message_close_def server_inv_def split: option.splits phase.splits)
next
  case (abort sid a)
  with assms(2) abort_route_frame [of sid a s] show ?thesis by (auto simp: server_inv_def)
next
  case (delete sid a)
  with assms(2) show ?thesis
    using remove_entry_ok [of "srv_manager s" env cwd sid "the a" True]
      remove_entry_locks [of env cwd sid "the a" True "srv_manager s"]
    by (auto simp: delete_session_route_def server_inv_def split: prod.splits sum.splits)
qed (use assms(2) message_arrive_inv message_finish_inv in auto)

lemma srv_reach_inv: "srv_reach env cwd s \<Longrightarrow> server_inv s"
proof (induction rule: srv_reach.induct)
  case start
  have "phase_of start_server r = None" for r by (simp add: phase_of_def start_server_def)
  then show ?case
    using empty_manager_ok by (simp add: server_inv_def start_server_def locks_inv_def empty_manager_def)
next
  case (step s e s')
  then show ?case using srv_step_inv by blast
qed

text \<open>
  C10. Requests that share an entry run one at a time: in every reachable state at most one request
  holds an entry's mutex, and every request that waits for it is in its queue while somebody
  holds it, so the release that comes will not forget it.
\<close>

theorem one_request_per_entry:
  assumes "srv_reach env cwd s"
  shows "(holds (phase_of s r) l \<and> holds (phase_of s r') l \<longrightarrow> r = r') \<and>
    (waits (phase_of s r) l \<longrightarrow> r \<in> set (mx_queue (lock_of s l)) \<and> (\<exists>q. holds (phase_of s q) l))"
proof -
  have inv: "locks_inv (mgr_locks (srv_manager s)) (phase_of s)"
    using srv_reach_inv [OF assms] by (simp add: server_inv_def)
  have li: "lock_inv (lock_of s l) (phase_of s) l" if "holds (phase_of s z) l \<or> waits (phase_of s z) l" for z
    using inv that unfolding locks_inv_def lock_of_def by blast
  have "waits (phase_of s r) l \<longrightarrow> r \<in> set (mx_queue (lock_of s l)) \<and> (\<exists>q. holds (phase_of s q) l)"
  proof
    assume w: "waits (phase_of s r) l"
    have x: "lock_inv (lock_of s l) (phase_of s) l" using li w by blast
    then have q: "r \<in> set (mx_queue (lock_of s l))" using w unfolding lock_inv_def by blast
    then have "mx_locked (lock_of s l)" using x unfolding lock_inv_def mutex_ok_def by auto
    with x q show "r \<in> set (mx_queue (lock_of s l)) \<and> (\<exists>q. holds (phase_of s q) l)"
      unfolding lock_inv_def by blast
  qed
  moreover have "holds (phase_of s r) l \<and> holds (phase_of s r') l \<longrightarrow> r = r'"
    using li unfolding lock_inv_def by blast
  ultimately show ?thesis by blast
qed

text \<open>Events as a function, to follow concrete runs.\<close>

definition srv_exec :: "env \<Rightarrow> string \<Rightarrow> srv_event \<Rightarrow> server \<Rightarrow> server option" where
  "srv_exec env cwd e s =
     (case e of
        Message t r sid aid \<Rightarrow>
          if phase_of s r = None then Some (message_arrive env cwd t r sid aid s) else None
      | Resume r \<Rightarrow>
          (case phase_of s r of Some (Granted sid aid l) \<Rightarrow> Some (message_resume r sid aid l s) | _ \<Rightarrow> None)
      | AgentChunk r c \<Rightarrow>
          (case phase_of s r of
             Some (Streaming sid aid l) \<Rightarrow> Some (message_chunk env cwd r sid aid l c s) | _ \<Rightarrow> None)
      | AgentEnd r \<Rightarrow>
          (case phase_of s r of
             Some (Streaming sid aid l) \<Rightarrow> Some (message_finish env cwd r sid aid l s) | _ \<Rightarrow> None)
      | ClientClose r \<Rightarrow> Some (message_close r s)
      | Abort sid a \<Rightarrow> Some (snd (abort_route sid a s))
      | DeleteSession sid a \<Rightarrow> Some (snd (delete_session_route env cwd sid a s)))"

fun srv_run :: "env \<Rightarrow> string \<Rightarrow> srv_event list \<Rightarrow> server \<Rightarrow> server option" where
  "srv_run env cwd [] s = Some s"
| "srv_run env cwd (e # es) s =
     (case srv_exec env cwd e s of None \<Rightarrow> None | Some s' \<Rightarrow> srv_run env cwd es s')"

lemma srv_exec_iff: "srv_exec env cwd e s = Some s' \<longleftrightarrow> srv_step env cwd s e s'"
proof
  show "srv_exec env cwd e s = Some s' \<Longrightarrow> srv_step env cwd s e s'"
    by (cases e) (auto simp: srv_exec_def intro: srv_step.intros split: if_splits option.splits phase.splits)
  show "srv_step env cwd s e s' \<Longrightarrow> srv_exec env cwd e s = Some s'"
    by (cases rule: srv_step.cases, assumption) (simp_all add: srv_exec_def)
qed

lemma srv_run_reach: "srv_run env cwd es s = Some s' \<Longrightarrow> srv_reach env cwd s \<Longrightarrow> srv_reach env cwd s'"
proof (induction es arbitrary: s)
  case (Cons e es)
  then obtain t where "srv_exec env cwd e s = Some t" "srv_run env cwd es t = Some s'"
    by (auto split: option.splits)
  with Cons show ?case by (metis srv_exec_iff srv_reach.step)
qed simp

theorem one_request_per_entry_witness:
  "\<exists>s. srv_reach [] ''/app'' s \<and> waits (phase_of s 2) 0 \<and> 2 \<in> set (mx_queue (lock_of s 0))"
proof -
  let ?es = "[Message 0 1 ''s1'' ''a1'', Resume 1, Message 0 2 ''s1'' ''a1'']"
  have "case srv_run [] ''/app'' ?es start_server of None \<Rightarrow> False | Some s \<Rightarrow> waits (phase_of s 2) 0" by code_simp
  then obtain s where s: "srv_run [] ''/app'' ?es start_server = Some s" "waits (phase_of s 2) 0"
    by (auto split: option.splits)
  have "srv_reach [] ''/app'' s" by (rule srv_run_reach [OF s(1) srv_reach.start])
  with one_request_per_entry [OF this, of 2 0 2] s(2) show ?thesis by blast
qed

text \<open>
  C11. Requests of one session and agent are not serialised in general. When a request ends, its
  handler removes the entry although others still wait for its mutex; the next request gets a
  new entry with a mutex of its own, and runs beside the one that waited. Their controllers
  share a key: an abort reaches only the later one, and when the earlier one ends it takes the
  controller and the entry of the later one away, which then runs on, uncounted and out of
  reach of an abort.
\<close>

theorem session_not_serialised:
  "\<exists>s s'. srv_reach [] ''/app'' s \<and>
     phase_of s 2 = Some (Streaming ''s1'' ''a1'' 0) \<and> phase_of s 3 = Some (Streaming ''s1'' ''a1'' 1) \<and>
     srv_aborted (snd (abort_route ''s1'' (Some ''a1'') s)) = [3] \<and>
     srv_step [] ''/app'' s (AgentEnd 2) s' \<and>
     phase_of s' 3 = Some (Streaming ''s1'' ''a1'' 1) \<and> metrics_route s' = (0, 0) \<and>
     fst (abort_route ''s1'' (Some ''a1'') s') = Reply 404 ''No active stream for this session/agent'' []"
proof -
  let ?es = "[Message 0 1 ''s1'' ''a1'', Resume 1, Message 0 2 ''s1'' ''a1'', AgentEnd 1, Resume 2,
    Message 0 3 ''s1'' ''a1'', Resume 3]"
  let ?s = "the (srv_run [] ''/app'' ?es start_server)"
  let ?t = "the (srv_exec [] ''/app'' (AgentEnd 2) ?s)"
  have r: "\<not> Option.is_none (srv_run [] ''/app'' ?es start_server)"
    "\<not> Option.is_none (srv_exec [] ''/app'' (AgentEnd 2) ?s)" by code_simp+
  have p: "phase_of ?s 2 = Some (Streaming ''s1'' ''a1'' 0)" "phase_of ?s 3 = Some (Streaming ''s1'' ''a1'' 1)"
    "srv_aborted (snd (abort_route ''s1'' (Some ''a1'') ?s)) = [3]"
    "phase_of ?t 3 = Some (Streaming ''s1'' ''a1'' 1)" "metrics_route ?t = (0, 0)"
    "fst (abort_route ''s1'' (Some ''a1'') ?t) = Reply 404 ''No active stream for this session/agent'' []"
    by code_simp+
  have run: "srv_run [] ''/app'' ?es start_server = Some ?s"
    using r(1) by (cases "srv_run [] ''/app'' ?es start_server") (auto simp only: Option.is_none_simps option.sel)
  have "srv_exec [] ''/app'' (AgentEnd 2) ?s = Some ?t"
    using r(2) by (cases "srv_exec [] ''/app'' (AgentEnd 2) ?s") (auto simp only: Option.is_none_simps option.sel)
  then have "srv_step [] ''/app'' ?s (AgentEnd 2) ?t" by (simp only: srv_exec_iff)
  with srv_run_reach [OF run srv_reach.start] p show ?thesis by blast
qed

section \<open>Aborting\<close>

definition written_by :: "nat \<Rightarrow> server \<Rightarrow> string list" where
  "written_by r s = map snd (filter (\<lambda>(q, c). q = r) (srv_written s))"

lemma srv_fields [simp]:
  "srv_aborted (set_phase r p s) = srv_aborted s" "srv_written (set_phase r p s) = srv_written s"
  "srv_aborted (set_lock l x s) = srv_aborted s" "srv_written (set_lock l x s) = srv_written s"
  by (simp_all add: set_phase_def set_lock_def)

lemma wake_fields [simp]: "srv_aborted (wake w s) = srv_aborted s" "srv_written (wake w s) = srv_written s"
  by (auto simp: wake_def split: option.split phase.split)

lemma finish_fields [simp]:
  "srv_aborted (message_finish env cwd r sid aid l s) = srv_aborted s"
  "srv_written (message_finish env cwd r sid aid l s) = srv_written s"
  by (simp_all add: message_finish_def Let_def split: prod.split)

lemma arrive_fields [simp]:
  "srv_aborted (message_arrive env cwd t r sid aid s) = srv_aborted s"
  "srv_written (message_arrive env cwd t r sid aid s) = srv_written s"
  by (simp_all add: message_arrive_def Let_def split: prod.split sum.split)

lemma abort_keys_spec:
  "distinct ks \<Longrightarrow> abort_keys sid ks s = (out, t) \<Longrightarrow>
     set (srv_aborted s) \<subseteq> set (srv_aborted t) \<and> srv_written t = srv_written s \<and>
     (\<forall>k. mget (srv_controllers t) k =
        (if k \<in> set ks \<and> starts_with k (sid @ ''/'') then None else mget (srv_controllers s) k)) \<and>
     (\<forall>k c. k \<in> set ks \<and> starts_with k (sid @ ''/'') \<and> mget (srv_controllers s) k = Some c \<longrightarrow>
        c \<in> set (srv_aborted t))"
proof (induction ks arbitrary: s out)
  case (Cons k ks)
  show ?case
  proof (cases "starts_with k (sid @ ''/'')")
    case False
    with Cons show ?thesis by auto
  next
    case True
    let ?s = "case mget (srv_controllers s) k of None \<Rightarrow> s
      | Some c \<Rightarrow> s\<lparr>srv_aborted := srv_aborted s @ [c], srv_controllers := mdelete k (srv_controllers s)\<rparr>"
    obtain o' where o: "abort_keys sid ks ?s = (o', t)"
      using Cons.prems(2) True by (auto simp: Let_def split: prod.splits)
    have c: "mget (srv_controllers ?s) j = (if j = k then None else mget (srv_controllers s) j)" for j
      by (auto simp: mget_mdelete split: option.split)
    have a: "set (srv_aborted s) \<subseteq> set (srv_aborted ?s)" "srv_written ?s = srv_written s"
      "\<And>x. mget (srv_controllers s) k = Some x \<Longrightarrow> x \<in> set (srv_aborted ?s)"
      by (auto split: option.split)
    have "distinct ks" "k \<notin> set ks" using Cons.prems(1) by auto
    with Cons.IH [OF _ o] a c True show ?thesis by (auto split: if_splits)
  qed
qed simp

lemma abort_route_fields:
  "srv_written (snd (abort_route sid a s)) = srv_written s \<and>
   set (srv_aborted s) \<subseteq> set (srv_aborted (snd (abort_route sid a s)))"
proof -
  have "srv_written (snd (abort_keys sid ks t)) = srv_written t \<and>
      set (srv_aborted t) \<subseteq> set (srv_aborted (snd (abort_keys sid ks t)))" for ks and t :: server
  proof (induction sid ks t rule: abort_keys.induct)
    case (2 sid k ks t)
    then show ?case by (auto simp: Let_def split: option.splits prod.splits)
  qed simp
  from this [of "mkeys (srv_controllers s)" s] show ?thesis
    by (auto simp: abort_route_def abort_one_def abort_session_def split: option.split prod.splits)
qed

lemma aborted_silent:
  assumes "srv_step env cwd s e s'" and "r \<in> set (srv_aborted s)"
  shows "written_by r s' = written_by r s \<and> r \<in> set (srv_aborted s')"
  using assms
proof (cases rule: srv_step.cases)
  case (abort sid a)
  with abort_route_fields [of sid a s] assms(2) show ?thesis by (auto simp: written_by_def)
next
  case (close q)
  with assms(2) show ?thesis by (auto simp: message_close_def written_by_def split: option.split phase.split)
next
  case (delete sid a)
  with assms(2) show ?thesis
    by (auto simp: delete_session_route_def written_by_def split: prod.split sum.split)
qed (use assms(2) in \<open>auto simp: written_by_def message_resume_def message_chunk_def\<close>)

text \<open>
  An abort takes effect and stays: the route aborts the controller entered for the session
  and agent and answers 200, and whatever happens afterwards, the client of that request is sent
  not one more chunk.
\<close>

theorem abort_silences:
  assumes "mget (srv_controllers s) (abortKey sid aid) = Some r" and "aid \<noteq> []"
    and "srv_run env cwd es (snd (abort_route sid (Some aid) s)) = Some s'"
  shows "fst (abort_route sid (Some aid) s) = Reply 200 ''aborted'' [aid] \<and> written_by r s' = written_by r s"
proof -
  let ?t = "snd (abort_route sid (Some aid) s)"
  have t: "fst (abort_route sid (Some aid) s) = Reply 200 ''aborted'' [aid]"
    "r \<in> set (srv_aborted ?t)" "written_by r ?t = written_by r s"
    using assms(1,2) by (simp_all add: abort_route_def abort_one_def written_by_def)
  have "written_by r s' = written_by r u"
    if "srv_run env cwd es u = Some s'" "r \<in> set (srv_aborted u)" for u
    using that
  proof (induction es arbitrary: u)
    case (Cons e es)
    then obtain v where "srv_exec env cwd e u = Some v" "srv_run env cwd es v = Some s'"
      by (auto split: option.splits)
    with Cons aborted_silent [of env cwd u e v r] srv_exec_iff [of env cwd e u v] show ?case by metis
  qed simp
  with assms(3) t show ?thesis by metis
qed

theorem abort_silences_witness:
  "\<exists>s s'. srv_run [] ''/app'' [Message 0 1 ''s1'' ''a1'', Resume 1, AgentChunk 1 ''x''] start_server = Some s \<and>
     srv_run [] ''/app'' [AgentChunk 1 ''y''] (snd (abort_route ''s1'' (Some ''a1'') s)) = Some s' \<and>
     written_by 1 s' = [''data: x'' @ [CHR 0x0A, CHR 0x0A]]"
proof -
  let ?s = "the (srv_run [] ''/app'' [Message 0 1 ''s1'' ''a1'', Resume 1, AgentChunk 1 ''x''] start_server)"
  let ?t = "the (srv_run [] ''/app'' [AgentChunk 1 ''y''] (snd (abort_route ''s1'' (Some ''a1'') ?s)))"
  have n: "\<not> Option.is_none (srv_run [] ''/app'' [Message 0 1 ''s1'' ''a1'', Resume 1, AgentChunk 1 ''x''] start_server)"
    "\<not> Option.is_none (srv_run [] ''/app'' [AgentChunk 1 ''y''] (snd (abort_route ''s1'' (Some ''a1'') ?s)))"
    by code_simp+
  have some: "x = Some (the x)" if "\<not> Option.is_none x" for x :: "server option" using that by (cases x) simp_all
  note r = some [OF n(1)] some [OF n(2)]
  have c: "mget (srv_controllers ?s) (abortKey ''s1'' ''a1'') = Some 1" by code_simp
  have w: "written_by 1 ?s = [''data: x'' @ [CHR 0x0A, CHR 0x0A]]" by code_simp
  have a: "''a1'' \<noteq> []" by simp
  from abort_silences [OF c a r(2)] w r show ?thesis by metis
qed

text \<open>
  A client that leaves while its request waits for the mutex is not noticed: the listener for
  the closed response is registered after the wait, so the request runs, and writes, to the end.
\<close>

lemma close_while_waiting_is_lost:
  "\<exists>s. srv_run [] ''/app'' [Message 0 1 ''s1'' ''a1'', Resume 1, Message 0 2 ''s1'' ''a1'', ClientClose 2,
       AgentEnd 1, Resume 2, AgentChunk 2 ''x''] start_server = Some s \<and>
     srv_aborted s = [] \<and> written_by 2 s \<noteq> []"
proof -
  have "case srv_run [] ''/app'' [Message 0 1 ''s1'' ''a1'', Resume 1, Message 0 2 ''s1'' ''a1'', ClientClose 2,
       AgentEnd 1, Resume 2, AgentChunk 2 ''x''] start_server of
      None \<Rightarrow> False | Some s \<Rightarrow> srv_aborted s = [] \<and> written_by 2 s \<noteq> []" by code_simp
  then show ?thesis by (auto split: option.splits)
qed

text \<open>
  Aborting a session without naming an agent aborts every stream that is entered under that
  session, drops their entries, and leaves the streams of other sessions alone; it answers 404
  just when there was none.
\<close>

theorem abort_session_exact:
  assumes "distinct (mkeys (srv_controllers s))" and "abort_session sid s = (reply, t)"
  shows "(\<forall>k c. starts_with k (sid @ ''/'') \<and> mget (srv_controllers s) k = Some c \<longrightarrow>
       c \<in> set (srv_aborted t) \<and> mget (srv_controllers t) k = None) \<and>
    (\<forall>k. \<not> starts_with k (sid @ ''/'') \<longrightarrow> mget (srv_controllers t) k = mget (srv_controllers s) k) \<and>
    (reply = Reply 404 ''No active streams for this session'' [] \<longleftrightarrow>
       (\<forall>k \<in> set (mkeys (srv_controllers s)). \<not> starts_with k (sid @ ''/'')))"
proof -
  obtain out where o: "abort_keys sid (mkeys (srv_controllers s)) s = (out, t)"
    and reply: "reply = (if out = [] then Reply 404 ''No active streams for this session'' []
                         else Reply 200 ''aborted'' out)"
    using assms(2) by (auto simp: abort_session_def split: prod.splits if_splits)
  have e: "out = [] \<longleftrightarrow> (\<forall>k \<in> set ks. \<not> starts_with k (sid @ ''/''))"
    if "abort_keys sid ks u = (out, v)" for ks u v out
    using that by (induction ks arbitrary: u out) (auto simp: Let_def split: if_splits prod.splits)
  have k: "mget (srv_controllers s) k = Some c \<Longrightarrow> k \<in> set (mkeys (srv_controllers s))" for k c
    by (metis mget_None_iff option.distinct(1))
  note sp = abort_keys_spec [OF assms(1) o]
  have "c \<in> set (srv_aborted t) \<and> mget (srv_controllers t) j = None"
    if "starts_with j (sid @ ''/'') \<and> mget (srv_controllers s) j = Some c" for j c
    using sp k [of j c] that by (metis (no_types, lifting))
  moreover have "mget (srv_controllers t) j = mget (srv_controllers s) j" if "\<not> starts_with j (sid @ ''/'')" for j
    using sp that by metis
  moreover have "reply = Reply 404 ''No active streams for this session'' [] \<longleftrightarrow>
      (\<forall>k \<in> set (mkeys (srv_controllers s)). \<not> starts_with k (sid @ ''/''))"
    unfolding e [OF o, symmetric] reply by simp
  ultimately show ?thesis by blast
qed

theorem abort_session_exact_witness:
  "\<exists>t. abort_session ''s1'' (start_server\<lparr>srv_controllers := [(''s1/a1'', 1), (''s2/a1'', 2), (''s1/a2'', 3)]\<rparr>) =
     (Reply 200 ''aborted'' [''a1'', ''a2''], t) \<and> 3 \<in> set (srv_aborted t) \<and>
   mget (srv_controllers t) ''s2/a1'' = Some 2"
proof -
  let ?s = "start_server\<lparr>srv_controllers := [(''s1/a1'', 1), (''s2/a1'', 2), (''s1/a2'', 3)]\<rparr>"
  let ?t = "snd (abort_session ''s1'' ?s)"
  have "fst (abort_session ''s1'' ?s) = Reply 200 ''aborted'' [''a1'', ''a2'']" by code_simp
  then have e: "abort_session ''s1'' ?s = (Reply 200 ''aborted'' [''a1'', ''a2''], ?t)" by (metis prod.collapse)
  have d: "distinct (mkeys (srv_controllers ?s))" by simp
  have k: "starts_with ''s1/a2'' (''s1'' @ ''/'')" "\<not> starts_with ''s2/a1'' (''s1'' @ ''/'')"
    "mget (srv_controllers ?s) ''s1/a2'' = Some 3" "mget (srv_controllers ?s) ''s2/a1'' = Some 2" by code_simp+
  from abort_session_exact [OF d e] k e show ?thesis by metis
qed

end
