(* ===== verification/Routes.thy ===== *)
theory Routes
  imports WorkspaceProps Sessions
begin

text \<open>
  The workspace and artifact routes of \<open>runtime/src/server.ts\<close>: reading the request, calling the
  workspace service and answering with a status and a body; the probes of \<open>runtime/src/health.ts\<close>.
\<close>

section \<open>Requests and answers\<close>

text \<open>The query string of a reading route, and the JSON bodies of the writing ones.\<close>

record ws_query =
  q_session_id :: "string option"
  q_agent_id :: "string option"
  q_path :: "string option"
  q_flag :: "string option"

record put_body =
  p_session_id :: "string option"
  p_agent_id :: "string option"
  p_path :: "string option"
  p_content :: "text16 option"
  p_encoding :: "encoding option"
  p_expected_mtime :: "rat option"
  p_overwrite :: "bool option"

record entry_body =
  b_session_id :: "string option"
  b_agent_id :: "string option"
  b_path :: "string option"
  b_recursive :: "bool option"

record move_body =
  m_session_id :: "string option"
  m_agent_id :: "string option"
  m_from :: "string option"
  m_to :: "string option"

datatype body =
    BTree TreeListing
  | BFile FileContents
  | BStat FileStat
  | BEntry TreeEntry
  | BStatus string
  | BError string "WorkspaceErrorCode option" error_meta
  | BStream "(string \<times> string) list" string

type_synonym response = "nat \<times> body"

definition str_or :: "string \<Rightarrow> string option \<Rightarrow> string" where
  "str_or d x = (case x of None \<Rightarrow> d | Some s \<Rightarrow> s)"

text \<open>\<open>x || null\<close> on a string.\<close>

definition or_null :: "string option \<Rightarrow> string option" where
  "or_null x = (if truthy x then x else None)"

fun status_of :: "WorkspaceErrorCode \<Rightarrow> nat" where
  "status_of invalid_path = 400"
| "status_of not_found = 404"
| "status_of too_large = 413"
| "status_of stale = 409"
| "status_of exists = 409"
| "status_of not_empty = 409"
| "status_of _ = 400"

fun handleWorkspaceError :: "fault \<Rightarrow> response" where
  "handleWorkspaceError (WorkspaceError code msg meta) = (status_of code, BError msg (Some code) meta)"
| "handleWorkspaceError (FsError _) = (500, BError ''internal error'' None None)"

text \<open>\<open>try { res.json(call()) } catch (err) { handleWorkspaceError(err, res) }\<close>.\<close>

definition answer :: "'a io \<Rightarrow> ('a \<Rightarrow> response) \<Rightarrow> fs \<Rightarrow> response \<times> fs" where
  "answer call ok f = (case call f of (Inl e, g) \<Rightarrow> (handleWorkspaceError e, g) | (Inr x, g) \<Rightarrow> (ok x, g))"

definition bad_request :: "string \<Rightarrow> fs \<Rightarrow> response \<times> fs" where
  "bad_request msg f = ((400, BError msg None None), f)"

section \<open>The routes\<close>

definition tree_route :: "(string \<Rightarrow> string \<Rightarrow> int) \<Rightarrow> host \<Rightarrow> ws_query \<Rightarrow> fs \<Rightarrow> response \<times> fs" where
  "tree_route lc h q =
     (let sid = str_or [] (q_session_id q); relPath = str_or ''/'' (q_path q);
          includeHidden = (q_flag q = Some ''1'' \<or> q_flag q = Some ''true'')
      in if sid = [] then bad_request ''session_id is required''
         else answer (listTree lc h sid (or_null (q_agent_id q)) relPath includeHidden) (\<lambda>l. (200, BTree l)))"

definition file_route :: "host \<Rightarrow> ws_query \<Rightarrow> fs \<Rightarrow> response \<times> fs" where
  "file_route h q =
     (let sid = str_or [] (q_session_id q); relPath = str_or [] (q_path q)
      in if sid = [] \<or> relPath = [] then bad_request ''session_id and path are required''
         else answer (readFile h sid (or_null (q_agent_id q)) relPath) (\<lambda>c. (200, BFile c)))"

definition stat_route :: "host \<Rightarrow> ws_query \<Rightarrow> fs \<Rightarrow> response \<times> fs" where
  "stat_route h q =
     (let sid = str_or [] (q_session_id q); relPath = str_or [] (q_path q)
      in if sid = [] \<or> relPath = [] then bad_request ''session_id and path are required''
         else answer (statFile h sid (or_null (q_agent_id q)) relPath) (\<lambda>c. (200, BStat c)))"

definition put_route :: "host \<Rightarrow> put_body \<Rightarrow> fs \<Rightarrow> response \<times> fs" where
  "put_route h b =
     (if \<not> truthy (p_session_id b) \<or> \<not> truthy (p_path b) \<or> p_content b = None
      then bad_request ''session_id, path, and content are required''
      else answer (writeFile h (the (p_session_id b)) (p_agent_id b) (the (p_path b))
             \<lparr>opt_content = the (p_content b), opt_encoding = p_encoding b,
              opt_expectedMtime = p_expected_mtime b, opt_overwrite = p_overwrite b\<rparr>) (\<lambda>c. (200, BFile c)))"

definition dir_route :: "host \<Rightarrow> entry_body \<Rightarrow> fs \<Rightarrow> response \<times> fs" where
  "dir_route h b =
     (if \<not> truthy (b_session_id b) \<or> \<not> truthy (b_path b) then bad_request ''session_id and path are required''
      else answer (createDirectory h (the (b_session_id b)) (b_agent_id b) (the (b_path b))) (\<lambda>e. (200, BEntry e)))"

definition delete_route :: "host \<Rightarrow> entry_body \<Rightarrow> fs \<Rightarrow> response \<times> fs" where
  "delete_route h b =
     (if \<not> truthy (b_session_id b) \<or> \<not> truthy (b_path b) then bad_request ''session_id and path are required''
      else answer (deleteEntry h (the (b_session_id b)) (b_agent_id b) (the (b_path b)) (b_recursive b = Some True))
             (\<lambda>_. (200, BStatus ''deleted'')))"

definition move_route :: "host \<Rightarrow> move_body \<Rightarrow> fs \<Rightarrow> response \<times> fs" where
  "move_route h b =
     (if \<not> truthy (m_session_id b) \<or> \<not> truthy (m_from b) \<or> \<not> truthy (m_to b)
      then bad_request ''session_id, from, and to are required''
      else answer (moveEntry h (the (m_session_id b)) (m_agent_id b) (the (m_from b)) (the (m_to b)))
             (\<lambda>_. (200, BStatus ''moved'')))"

section \<open>Downloads\<close>

definition INLINE_MIME_BY_EXT :: "(string \<times> string) list" where
  "INLINE_MIME_BY_EXT =
     [(''pdf'', ''application/pdf''), (''png'', ''image/png''), (''jpg'', ''image/jpeg''),
      (''jpeg'', ''image/jpeg''), (''gif'', ''image/gif''), (''webp'', ''image/webp''),
      (''svg'', ''image/svg+xml''), (''bmp'', ''image/bmp''), (''ico'', ''image/x-icon'')]"

definition inlineMimeFor :: "string \<Rightarrow> string option" where
  "inlineMimeFor filename =
     (case last_index_of (CHR ''.'') filename of
        None \<Rightarrow> None
      | Some dot \<Rightarrow> map_of INLINE_MIME_BY_EXT (to_lower (drop (Suc dot) filename)))"

definition unreserved :: "nat \<Rightarrow> bool" where
  "unreserved n \<longleftrightarrow> (65 \<le> n \<and> n \<le> 90) \<or> (97 \<le> n \<and> n \<le> 122) \<or> (48 \<le> n \<and> n \<le> 57) \<or>
     n \<in> {45, 95, 46, 33, 126, 42, 39, 40, 41}"

definition hex_char :: "nat \<Rightarrow> char" where
  "hex_char d = char_of (if d < 10 then 48 + d else 55 + d)"

definition encodeURIComponent :: "string \<Rightarrow> string" where
  "encodeURIComponent s =
     concat (map (\<lambda>b. let n = unat b in
                    if unreserved n then [char_of n]
                    else [CHR ''%'', hex_char (n div 16), hex_char (n mod 16)])
               (utf8_encode (text_of s)))"

definition download_headers :: "bool \<Rightarrow> DownloadHandle \<Rightarrow> (string \<times> string) list" where
  "download_headers inline handle =
     (let inlineMime = (if inline then inlineMimeFor (dl_filename handle) else None);
          disposition = (if truthy inlineMime then ''inline'' else ''attachment'')
      in [(''Content-Type'', str_or ''application/octet-stream'' inlineMime),
          (''Content-Length'', nat_string (dl_size handle)),
          (''Content-Disposition'',
           disposition @ ''; filename*=UTF-8'' @ [CHR 0x27, CHR 0x27] @ encodeURIComponent (dl_filename handle))])"

definition download_route :: "host \<Rightarrow> ws_query \<Rightarrow> fs \<Rightarrow> response \<times> fs" where
  "download_route h q =
     (let sid = str_or [] (q_session_id q); relPath = str_or [] (q_path q); inline = (q_flag q = Some ''true'')
      in if sid = [] \<or> relPath = [] then bad_request ''session_id and path are required''
         else answer (openDownloadStream h sid (or_null (q_agent_id q)) relPath)
                (\<lambda>handle. (200, BStream (download_headers inline handle) (dl_stream handle))))"

section \<open>Workflow artifacts\<close>

text \<open>\<open>/^[A-Za-z0-9_-]+$/\<close>.\<close>

definition run_id_ok :: "string \<Rightarrow> bool" where
  "run_id_ok s \<longleftrightarrow> s \<noteq> [] \<and>
     list_all (\<lambda>c. let n = of_char c :: nat in
        (65 \<le> n \<and> n \<le> 90) \<or> (97 \<le> n \<and> n \<le> 122) \<or> (48 \<le> n \<and> n \<le> 57) \<or> n = 95 \<or> n = 45) s"

definition artifacts_route :: "host \<Rightarrow> string \<Rightarrow> fs \<Rightarrow> response \<times> fs" where
  "artifacts_route h rootRunId f =
     (if \<not> run_id_ok rootRunId then ((400, BError ''invalid root_run_id'' None None), f)
      else
        let target = path_resolve (host_cwd h) [workflowArtifactsDir (host_env h) rootRunId] in
        if \<not> existsSync f target then ((404, BError ''artifacts not found'' None None), f)
        else case rm_recursive True f target of
               Inl e \<Rightarrow> ((500, BError '''' None None), f)
             | Inr g \<Rightarrow> ((200, BStatus ''removed''), g))"

section \<open>Probes\<close>

definition health_route :: response where
  "health_route = (200, BStatus ''ok'')"

definition ready_route :: "bool \<Rightarrow> response" where
  "ready_route ready = (if \<not> ready then (503, BStatus ''not_ready'') else (200, BStatus ''ready''))"

text \<open>\<open>POST /shutdown\<close>: the server is no longer ready; the answer counts the sessions.\<close>

definition shutdown_route :: "manager \<Rightarrow> bool \<times> response \<times> nat" where
  "shutdown_route m = (False, (200, BStatus ''shutting_down''), activeCount m)"

section \<open>Properties\<close>

lemma run_id_clean:
  assumes "run_id_ok s"
  shows "clean_seg s"
proof -
  have c: "x \<noteq> slash \<and> x \<noteq> CHR ''.''" if "x \<in> set s" for x
    using assms that by (auto simp: run_id_ok_def list_all_iff Let_def)
  then have "slash \<notin> set s" "CHR ''.'' \<notin> set s" by auto
  moreover have "s \<noteq> []" using assms by (simp add: run_id_ok_def)
  ultimately show ?thesis by (auto simp: clean_seg_def)
qed

text \<open>
  Deleting the artifacts of a workflow run is confined to that run, with no assumption on
  the id in the URL: only an id that is a single plain name gets past the check, and then the
  answer 200 means that this run's artifact directory is gone with everything in it, while
  nothing outside it changed but the time stamp of its parent; with any other answer nothing
  changed at all.
\<close>

theorem artifacts_route_confined:
  assumes "root_segs (host_env h) r" and "tree_ok f" and "no_links f (r @ [''workflows'', rid, ''artifacts''])"
    and "artifacts_route h rid f = ((st, b), g)"
  shows "(st = 200 \<longrightarrow> clean_seg rid \<and>
      (\<forall>q. node_at g (r @ [''workflows'', rid, ''artifacts''] @ q) = None) \<and>
      (\<forall>q. \<not> prefix (r @ [''workflows'', rid, ''artifacts'']) q \<and> q \<noteq> r @ [''workflows'', rid] \<longrightarrow>
         node_at g q = node_at f q)) \<and>
    (st \<noteq> 200 \<longrightarrow> g = f) \<and> (\<not> run_id_ok rid \<longrightarrow> st = 400)"
proof (cases "run_id_ok rid")
  case False
  with assms(4) show ?thesis by (simp add: artifacts_route_def)
next
  case True
  note c = run_id_clean [OF True]
  let ?p = "r @ [''workflows'', rid, ''artifacts'']"
  have p: "clean ?p" "?p \<noteq> []" using assms(1) c by (auto simp: root_segs_def)
  have t: "path_resolve (host_cwd h) [workflowArtifactsDir (host_env h) rid] = abs_path ?p"
    by (simp only: artifactsDir_segs [OF assms(1) c] resolve_abs [OF p(1)])
  have bl: "butlast ?p = r @ [''workflows'', rid]" by (simp add: butlast_append)
  show ?thesis
  proof (cases "node_at f ?p")
    case None
    with assms(4) True show ?thesis
      by (simp add: artifacts_route_def t existsSync_node [OF assms(2) p(1) assms(3)] del: append_assoc)
  next
    case (Some n)
    then have "rm_recursive True f (abs_path ?p) = Inr (drop_tree ?p f)"
      by (intro rm_recursive_node [OF assms(2) _ p(2)]) simp
    with assms(4) True Some have g: "g = drop_tree ?p f" "st = 200"
      by (simp_all add: artifacts_route_def t existsSync_node [OF assms(2) p(1) assms(3)])
    have "node_at g (?p @ q) = None" for q by (simp only: g node_at_drop_tree prefixI [OF refl] if_True)
    moreover have "node_at g q = node_at f q" if "\<not> prefix ?p q \<and> q \<noteq> r @ [''workflows'', rid]" for q
      using that by (simp add: g node_at_drop_tree bl)
    ultimately show ?thesis using c g True by simp
  qed
qed

theorem artifacts_route_confined_witness:
  "\<exists>g. artifacts_route demo_host ''run-1'' (set_node [''workspace-root'', ''workflows''] (Dir, 0)
         (set_node [''workspace-root'', ''workflows'', ''run-1''] (Dir, 0)
           (set_node [''workspace-root'', ''workflows'', ''run-1'', ''artifacts''] (Dir, 0) demo_fs))) =
      ((200, BStatus ''removed''), g) \<and>
    node_at g (demo_shared @ [''a.txt'']) = Some (File [104, 105], 7000000)"
proof -
  let ?f = "set_node [''workspace-root'', ''workflows''] (Dir, 0)
         (set_node [''workspace-root'', ''workflows'', ''run-1''] (Dir, 0)
           (set_node [''workspace-root'', ''workflows'', ''run-1'', ''artifacts''] (Dir, 0) demo_fs))"
  let ?g = "snd (artifacts_route demo_host ''run-1'' ?f)"
  have "fst (artifacts_route demo_host ''run-1'' ?f) = (200, BStatus ''removed'')" by code_simp
  then have e: "artifacts_route demo_host ''run-1'' ?f = ((200, BStatus ''removed''), ?g)" by (metis prod.collapse)
  have r: "root_segs (host_env demo_host) [''workspace-root'']" using demo_request by (simp add: request_ok_def)
  have t: "tree_ok ?f" by code_simp
  have n: "no_links ?f ([''workspace-root''] @ [''workflows'', ''run-1'', ''artifacts''])" by code_simp
  have a: "node_at ?f (demo_shared @ [''a.txt'']) = Some (File [104, 105], 7000000)"
    "\<not> prefix ([''workspace-root''] @ [''workflows'', ''run-1'', ''artifacts'']) (demo_shared @ [''a.txt''])"
    "demo_shared @ [''a.txt''] \<noteq> [''workspace-root''] @ [''workflows'', ''run-1'']" by code_simp+
  from artifacts_route_confined [OF r t n e] a have "node_at ?g (demo_shared @ [''a.txt'']) = Some (File [104, 105], 7000000)"
    by simp
  with e show ?thesis by blast
qed

definition printable :: "char \<Rightarrow> bool" where
  "printable c \<longleftrightarrow> (32 :: nat) \<le> of_char c \<and> (of_char c :: nat) < 127"

lemma unreserved_printable: "unreserved n \<Longrightarrow> printable (char_of n)"
  by (auto simp: unreserved_def printable_def)

lemma hex_printable: "d < 16 \<Longrightarrow> printable (hex_char d)"
  by (auto simp: hex_char_def printable_def)

lemma encoded_chars:
  assumes "c \<in> set (encodeURIComponent s)"
  shows "printable c \<and> c \<notin> {CHR 0x22, CHR 0x3B, CHR 0x5C, CHR 0x2C}"
proof -
  obtain b :: octet where b: "c \<in> set (let n = unat b in if unreserved n then [char_of n]
      else [CHR ''%'', hex_char (n div 16), hex_char (n mod 16)])"
    using assms by (auto simp: encodeURIComponent_def)
  let ?n = "unat b"
  have n: "?n < 256" by (rule octet_bound)
  have "\<forall>d \<in> set [0..<16]. hex_char d \<notin> {CHR 0x22, CHR 0x3B, CHR 0x5C, CHR 0x2C}" by code_simp
  then have h: "hex_char d \<notin> {CHR 0x22, CHR 0x3B, CHR 0x5C, CHR 0x2C}" if "d < 16" for d
    using that by simp
  show ?thesis
  proof (cases "unreserved ?n")
    case True
    moreover have "c \<notin> {CHR 0x22, CHR 0x3B, CHR 0x5C, CHR 0x2C}" if "c = char_of ?n" for c :: char
    proof
      assume "c \<in> {CHR 0x22, CHR 0x3B, CHR 0x5C, CHR 0x2C}"
      then have "of_char c \<in> {34, 59, 92, 44 :: nat}" by auto
      moreover have "of_char c = ?n" using that n by simp
      ultimately show False using True by (auto simp: unreserved_def)
    qed
    ultimately show ?thesis using b unreserved_printable by (simp add: Let_def)
  next
    case False
    have "?n div 16 < 16" "?n mod 16 < 16" using n by simp_all
    with False b h hex_printable show ?thesis by (auto simp: Let_def printable_def)
  qed
qed

text \<open>
  A file name cannot forge response headers. Whatever the downloaded file is called (line
  breaks, quotes, semicolons, any bytes), every header value is one line of printable ASCII, the
  encoded name holds no quote, backslash, comma or semicolon, and the content type is one of
  the fixed list or \<open>application/octet-stream\<close>.
\<close>

theorem download_headers_safe:
  "list_all (\<lambda>(name, value). list_all printable value) (download_headers inline handle) \<and>
   set (encodeURIComponent (dl_filename handle)) \<inter> {CHR 0x22, CHR 0x3B, CHR 0x5C, CHR 0x2C} = {} \<and>
   (\<exists>t. (''Content-Type'', t) \<in> set (download_headers inline handle) \<and>
      t \<in> insert ''application/octet-stream'' (snd ` set INLINE_MIME_BY_EXT))"
proof -
  let ?m = "if inline then inlineMimeFor (dl_filename handle) else None"
  have m: "str_or ''application/octet-stream'' ?m \<in> insert ''application/octet-stream'' (snd ` set INLINE_MIME_BY_EXT)"
  proof (cases ?m)
    case (Some t)
    then obtain k where "map_of INLINE_MIME_BY_EXT k = Some t"
      by (auto simp: inlineMimeFor_def split: if_splits option.splits)
    then have "t \<in> snd ` set INLINE_MIME_BY_EXT" by (force dest: map_of_SomeD)
    with Some show ?thesis by (simp only: str_or_def option.case insert_iff) simp
  qed (simp only: str_or_def option.case insert_iff, simp)
  have types: "\<forall>t \<in> insert ''application/octet-stream'' (snd ` set INLINE_MIME_BY_EXT). \<forall>c \<in> set t. printable c"
    by code_simp
  have num: "\<forall>c \<in> set (nat_string n). printable c" for n
  proof (induction n rule: nat_string.induct)
    case (1 n)
    have "printable (digit_char (n mod 10))" by (simp add: digit_char_def printable_def)
    with 1 show ?case by (subst nat_string.simps) (simp add: digit_char_def printable_def)
  qed
  have disp: "\<forall>c \<in> set (''inline'' @ ''attachment'' @ ''; filename*=UTF-8'' @ [CHR 0x27, CHR 0x27]). printable c"
    by code_simp
  have enc: "\<forall>c \<in> set (encodeURIComponent (dl_filename handle)). printable c \<and> c \<notin> {CHR 0x22, CHR 0x3B, CHR 0x5C, CHR 0x2C}"
    using encoded_chars by blast
  have vals: "\<forall>(name, value) \<in> set (download_headers inline handle). \<forall>c \<in> set value. printable c"
    unfolding download_headers_def Let_def
    using types m num disp enc by (simp only: list.set insert_iff ball_simps split: if_split) auto
  have lines: "list_all (\<lambda>(name, value). list_all printable value) (download_headers inline handle)"
    using vals by (auto simp: list_all_iff)
  have quotes: "set (encodeURIComponent (dl_filename handle)) \<inter> {CHR 0x22, CHR 0x3B, CHR 0x5C, CHR 0x2C} = {}"
    using enc by blast
  show ?thesis using lines quotes m unfolding download_headers_def Let_def by auto
qed

end
