(* ===== verification/Accumulator.thy ===== *)
theory Accumulator
  imports Prelude
begin

text \<open>
  The chunks of an answer (\<open>runtime/src/types/sse-chunk.ts\<close>) and the accumulator that extracts
  them from the messages of the agent SDK (\<open>runtime/src/streaming-accumulator.ts\<close>): token deltas
  where the backend streams them, the difference of cumulative snapshots where it does not,
  and tool calls once per id. The SDK's messages are JSON values.
\<close>

section \<open>Chunks\<close>

text \<open>One constructor per event type the runtime sends; optional fields are options.\<close>

datatype SSEChunk =
    QueryStarted
  | Chunk string
  | Thinking string
  | ToolUse "json option" "json option" "string option" "string option"
  | ToolResult "json option" string bool "string option"
  | ToolProgress "json option" "json option" "json option" "json option"
  | ErrorEvent string
  | ResultEvent "json option" "json option" "json option" "json option" "json option"

fun chunk_text :: "SSEChunk \<Rightarrow> string" where
  "chunk_text (Chunk s) = s"
| "chunk_text _ = []"

fun thinking_text :: "SSEChunk \<Rightarrow> string" where
  "thinking_text (Thinking s) = s"
| "thinking_text _ = []"

fun tool_ids :: "SSEChunk \<Rightarrow> string option list" where
  "tool_ids (ToolUse _ _ i _) = [i]"
| "tool_ids _ = []"

section \<open>The accumulator\<close>

record StreamingAccumulator =
  emittedTextLen :: nat
  emittedThinkingLen :: nat
  hasStreamDeltas :: bool
  emittedToolIds :: "string option list"
  fullResponse :: string

definition newAccumulator :: StreamingAccumulator where
  "newAccumulator = \<lparr>emittedTextLen = 0, emittedThinkingLen = 0, hasStreamDeltas = False,
     emittedToolIds = [], fullResponse = []\<rparr>"

definition jfield :: "json \<Rightarrow> string \<Rightarrow> string option" where
  "jfield v k = jstr (jget v k)"

text \<open>JavaScript's truth of a field: present, and not null, false, zero or the empty string.\<close>

fun jtruthy :: "json option \<Rightarrow> bool" where
  "jtruthy None = False"
| "jtruthy (Some JNull) = False"
| "jtruthy (Some (JBool b)) = b"
| "jtruthy (Some (JNum n)) = (n \<noteq> 0)"
| "jtruthy (Some (JStr s)) = (s \<noteq> [])"
| "jtruthy (Some _) = True"

definition consumeStreamEvent ::
  "json \<Rightarrow> StreamingAccumulator \<Rightarrow> StreamingAccumulator \<times> SSEChunk option" where
  "consumeStreamEvent event a =
     (if jfield event ''type'' \<noteq> Some ''content_block_delta'' \<or> \<not> jtruthy (jget event ''delta'') then (a, None)
      else
        let delta = the (jget event ''delta'') in
        if jfield delta ''type'' = Some ''text_delta'' \<and> truthy (jfield delta ''text'') then
          let text = the (jfield delta ''text'')
          in (a\<lparr>hasStreamDeltas := True, emittedTextLen := emittedTextLen a + length text,
                fullResponse := fullResponse a @ text\<rparr>, Some (Chunk text))
        else if jfield delta ''type'' = Some ''thinking_delta'' \<and> truthy (jfield delta ''thinking'') then
          let thinking = the (jfield delta ''thinking'')
          in (a\<lparr>hasStreamDeltas := True, emittedThinkingLen := emittedThinkingLen a + length thinking\<rparr>,
              Some (Thinking thinking))
        else (a, None))"

text \<open>
  A snapshot block. A text block without a text makes \<open>text.length\<close> throw, which ends the
  answer (None).
\<close>

definition consumeAssistantBlock ::
  "json \<Rightarrow> string option \<Rightarrow> StreamingAccumulator \<Rightarrow> (StreamingAccumulator \<times> SSEChunk option) option" where
  "consumeAssistantBlock block parentId a =
     (let type = jfield block ''type'' in
      if type = Some ''thinking'' \<and> \<not> hasStreamDeltas a then
        let thinking = (case jfield block ''thinking'' of None \<Rightarrow> [] | Some s \<Rightarrow> s);
            seen = (if length thinking < emittedThinkingLen a then 0 else emittedThinkingLen a)
        in if length thinking > seen
           then Some (a\<lparr>emittedThinkingLen := length thinking\<rparr>, Some (Thinking (drop seen thinking)))
           else Some (a\<lparr>emittedThinkingLen := seen\<rparr>, None)
      else if type = Some ''text'' \<and> \<not> hasStreamDeltas a then
        (case jfield block ''text'' of
           None \<Rightarrow> None
         | Some text \<Rightarrow>
             let seen = (if length text < emittedTextLen a then 0 else emittedTextLen a)
             in if length text > seen
                then Some (a\<lparr>emittedTextLen := length text, fullResponse := fullResponse a @ drop seen text\<rparr>,
                           Some (Chunk (drop seen text)))
                else Some (a\<lparr>emittedTextLen := seen\<rparr>, None))
      else if type = Some ''tool_use'' then
        let i = jfield block ''id'' in
        if i \<in> set (emittedToolIds a) then Some (a, None)
        else Some (a\<lparr>emittedToolIds := emittedToolIds a @ [i]\<rparr>,
                   Some (ToolUse (jget block ''name'') (jget block ''input'') i
                     (if truthy parentId then parentId else None)))
      else Some (a, None))"

definition resetForNewTurn :: "StreamingAccumulator \<Rightarrow> StreamingAccumulator" where
  "resetForNewTurn a = a\<lparr>emittedTextLen := 0, emittedThinkingLen := 0\<rparr>"

section \<open>Runs of the accumulator\<close>

datatype acc_input = StreamEvent json | AssistantBlock json "string option" | NewTurn

text \<open>The state and the chunks so far; a thrown error leaves both.\<close>

type_synonym acc_state = "StreamingAccumulator \<times> SSEChunk list"

fun feed :: "acc_state \<Rightarrow> acc_input \<Rightarrow> acc_state" where
  "feed (a, out) (StreamEvent e) =
     (case consumeStreamEvent e a of (a', c) \<Rightarrow> (a', out @ (case c of None \<Rightarrow> [] | Some x \<Rightarrow> [x])))"
| "feed (a, out) (AssistantBlock b p) =
     (case consumeAssistantBlock b p a of
        None \<Rightarrow> (a, out)
      | Some (a', c) \<Rightarrow> (a', out @ (case c of None \<Rightarrow> [] | Some x \<Rightarrow> [x])))"
| "feed (a, out) NewTurn = (resetForNewTurn a, out)"

text \<open>What the accumulator remembers is what it has sent.\<close>

fun in_step :: "acc_state \<Rightarrow> bool" where
  "in_step (a, out) \<longleftrightarrow> fullResponse a = concat (map chunk_text out) \<and>
     emittedToolIds a = concat (map tool_ids out) \<and> distinct (emittedToolIds a)"

interpretation acc: machine feed in_step
proof
  fix s e assume "in_step s"
  then show "in_step (feed s e)"
    by (cases s; cases e)
      (auto simp: consumeStreamEvent_def consumeAssistantBlock_def resetForNewTurn_def Let_def
        split: option.split)
qed

lemma in_step_new: "in_step (newAccumulator, [])"
  by (simp add: newAccumulator_def)

text \<open>
  Whatever the SDK sends, in whatever order, the accumulated answer is exactly the text the
  client was sent, chunk after chunk, and no tool call is announced twice.
\<close>

theorem accumulator_in_step:
  "fullResponse (fst (foldl feed (newAccumulator, []) es)) =
     concat (map chunk_text (snd (foldl feed (newAccumulator, []) es))) \<and>
   distinct (concat (map tool_ids (snd (foldl feed (newAccumulator, []) es))))"
proof -
  have "in_step (foldl feed (newAccumulator, []) es)" by (rule acc.run_good [OF in_step_new])
  then show ?thesis by (cases "foldl feed (newAccumulator, []) es") auto
qed

definition text_block :: "string \<Rightarrow> json" where
  "text_block t = JObj [(''type'', JStr ''text''), (''text'', JStr t)]"

definition text_delta :: "string \<Rightarrow> json" where
  "text_delta t = JObj [(''type'', JStr ''content_block_delta''),
     (''delta'', JObj [(''type'', JStr ''text_delta''), (''text'', JStr t)])]"

lemma consume_text_block:
  "\<not> hasStreamDeltas a \<Longrightarrow>
     consumeAssistantBlock (text_block t) p a =
       (let seen = (if length t < emittedTextLen a then 0 else emittedTextLen a)
        in if length t > seen
           then Some (a\<lparr>emittedTextLen := length t, fullResponse := fullResponse a @ drop seen t\<rparr>,
                      Some (Chunk (drop seen t)))
           else Some (a\<lparr>emittedTextLen := seen\<rparr>, None))"
  by (simp add: consumeAssistantBlock_def text_block_def jfield_def Let_def)

text \<open>Snapshots that each extend the one before.\<close>

fun cumulative :: "string \<Rightarrow> string list \<Rightarrow> bool" where
  "cumulative t [] = True"
| "cumulative t (s # ss) = (prefix t s \<and> cumulative s ss)"

lemma snapshots_diff:
  "cumulative t ss \<Longrightarrow> \<not> hasStreamDeltas a \<Longrightarrow> emittedTextLen a = length t \<Longrightarrow>
     (\<exists>b out'. foldl feed (a, out) (map (\<lambda>s. AssistantBlock (text_block s) p) ss) = (b, out @ out') \<and>
        t @ concat (map chunk_text out') = last (t # ss) \<and> \<not> hasStreamDeltas b)"
proof (induction ss arbitrary: t a out)
  case (Cons s ss)
  from Cons.prems obtain u where s: "s = t @ u" by (auto simp: prefix_def)
  let ?a = "a\<lparr>emittedTextLen := length s, fullResponse := fullResponse a @ u\<rparr>"
  let ?o = "if u = [] then [] else [Chunk u]"
  have f: "feed (a, out) (AssistantBlock (text_block s) p) = (?a, out @ ?o)"
    using Cons.prems(2,3) by (simp add: consume_text_block s Let_def)
  have "cumulative s ss" "\<not> hasStreamDeltas ?a" "emittedTextLen ?a = length s" using Cons.prems by auto
  from Cons.IH [OF this, of "out @ ?o"] obtain b o' where
    "foldl feed (?a, out @ ?o) (map (\<lambda>s. AssistantBlock (text_block s) p) ss) = (b, (out @ ?o) @ o')"
    "s @ concat (map chunk_text o') = last (s # ss)" "\<not> hasStreamDeltas b" by blast
  then show ?case using f s by (intro exI [of _ b] exI [of _ "?o @ o'"]) (simp split: if_splits)
qed simp

text \<open>
  On a backend without deltas, the cumulative snapshots of a text block are sent without
  loss or repetition: if each snapshot extends the one before it, the chunks put together are
  the last snapshot, however the text was cut.
\<close>

theorem snapshots_exact:
  assumes "cumulative [] ss" and "ss \<noteq> []"
  shows "concat (map chunk_text (snd (foldl feed (newAccumulator, [])
           (map (\<lambda>s. AssistantBlock (text_block s) p) ss)))) = last ss"
proof -
  obtain b out' where
    "foldl feed (newAccumulator, []) (map (\<lambda>s. AssistantBlock (text_block s) p) ss) = (b, [] @ out')"
    "[] @ concat (map chunk_text out') = last ([] # ss)"
    using snapshots_diff [OF assms(1), of newAccumulator "[]" p] by (auto simp: newAccumulator_def)
  with assms(2) show ?thesis by simp
qed

theorem snapshots_exact_witness:
  "concat (map chunk_text (snd (foldl feed (newAccumulator, [])
     (map (\<lambda>s. AssistantBlock (text_block s) None) [''He'', ''Hello'', ''Hello'', ''Hello you''])))) = ''Hello you''"
  using snapshots_exact [of "[''He'', ''Hello'', ''Hello'', ''Hello you'']" None] by simp

lemma sticky_feed: "hasStreamDeltas (fst s) \<Longrightarrow> hasStreamDeltas (fst (feed s e))"
  by (cases s; cases e)
    (auto simp: consumeStreamEvent_def consumeAssistantBlock_def resetForNewTurn_def Let_def split: option.split)

lemma sticky_silent:
  "hasStreamDeltas (fst s) \<Longrightarrow> (\<And>e. e \<in> set es \<Longrightarrow> \<exists>b p. e = AssistantBlock b p) \<Longrightarrow>
     concat (map chunk_text (snd (foldl feed s es))) = concat (map chunk_text (snd s)) \<and>
     concat (map thinking_text (snd (foldl feed s es))) = concat (map thinking_text (snd s))"
proof (induction es arbitrary: s)
  case (Cons e es)
  obtain b p where e: "e = AssistantBlock b p" using Cons.prems(2) [of e] by auto
  have "concat (map chunk_text (snd (feed s e))) = concat (map chunk_text (snd s)) \<and>
      concat (map thinking_text (snd (feed s e))) = concat (map thinking_text (snd s))"
    using Cons.prems(1) by (cases s) (auto simp: e consumeAssistantBlock_def Let_def)
  then show ?case using Cons.IH [of "feed s e"] Cons.prems sticky_feed by simp
qed simp

text \<open>
  Text that was streamed is not sent again: once a delta has arrived, no snapshot adds text
  or thinking to the answer, in this turn or a later one.
\<close>

theorem snapshots_silent_after_delta:
  assumes "t \<noteq> []" and "\<And>e. e \<in> set es \<Longrightarrow> \<exists>b p. e = AssistantBlock b p"
  shows "concat (map chunk_text (snd (foldl feed (newAccumulator, []) (StreamEvent (text_delta t) # NewTurn # es)))) = t"
proof -
  let ?s = "foldl feed (newAccumulator, []) [StreamEvent (text_delta t), NewTurn]"
  have s: "hasStreamDeltas (fst ?s)" "concat (map chunk_text (snd ?s)) = t"
    using assms(1) by (simp_all add: consumeStreamEvent_def text_delta_def jfield_def resetForNewTurn_def)
  have "foldl feed (newAccumulator, []) (StreamEvent (text_delta t) # NewTurn # es) = foldl feed ?s es" by simp
  with sticky_silent [OF s(1) assms(2)] s(2) show ?thesis by metis
qed

theorem snapshots_silent_after_delta_witness:
  "concat (map chunk_text (snd (foldl feed (newAccumulator, [])
     [StreamEvent (text_delta ''Hi''), NewTurn, AssistantBlock (text_block ''Hi there'') None]))) = ''Hi''"
  using snapshots_silent_after_delta [of "''Hi''" "[AssistantBlock (text_block ''Hi there'') None]"] by simp

text \<open>
  A new text block is only recognised when it is shorter than what was sent before. In one
  turn, after a first block, a second one that is no shorter loses as many characters as the
  first one has: the client gets only the rest.
\<close>

theorem longer_block_loses_start:
  assumes "length t \<le> length u"
  shows "concat (map chunk_text (snd (foldl feed (newAccumulator, [])
           [AssistantBlock (text_block t) p, AssistantBlock (text_block u) p]))) = t @ drop (length t) u"
  using assms by (simp add: consume_text_block newAccumulator_def Let_def)

theorem longer_block_loses_start_witness:
  "concat (map chunk_text (snd (foldl feed (newAccumulator, [])
     [AssistantBlock (text_block ''Looking.'') None, AssistantBlock (text_block ''Found 3 files.'') None]))) =
   ''Looking.files.''"
proof -
  have "length ''Looking.'' \<le> length ''Found 3 files.''" by simp
  from longer_block_loses_start [OF this, of None] show ?thesis by simp
qed

end
