(* ===== verification/Agent.thy ===== *)
theory Agent
  imports Workspace Accumulator
begin

text \<open>
  The agent runner (\<open>runtime/src/agent.ts\<close>): what is prepared on the volume for a message, the
  environment, the tools and the options that the agent SDK is started with, and the loop that
  turns the SDK's messages into chunks. The SDK itself, the MCP servers it talks to and the
  zod schemas are not part of the program: a started query is the list of its messages and how
  it ends.
\<close>

section \<open>Configuration\<close>

record ModelConfig =
  mc_model :: "string option"
  mc_backend :: "string option"
  mc_max_output_tokens :: "nat option"
  mc_api_base :: "string option"
  mc_api_key :: "string option"

record WorkflowRunRef =
  wr_root_run_id :: string
  wr_node_id :: string

record ArtifactSpec =
  as_name :: string
  as_description :: "string option"

record InputArtifactRef =
  ia_upstream_node_id :: string
  ia_artifact_name :: string

record AccessibleAgent =
  aa_slug :: string
  aa_name :: string
  aa_description :: "string option"

record StructuredOutputField =
  sf_name :: string
  sf_is_list :: bool
  sf_description :: "string option"

record StructuredOutputConfig =
  so_name :: string
  so_description :: "string option"
  so_fields :: "StructuredOutputField list"

record AgentConfig =
  ac_agent_id :: string
  ac_model_config :: "ModelConfig option"
  ac_instruction :: "string option"
  ac_tools :: "string list option"
  ac_mcp_servers :: "(string, json) jmap"
  ac_user_token :: "string option"
  ac_user_external_id :: "string option"
  ac_github_token :: "string option"
  ac_accessible_agents :: "AccessibleAgent list"
  ac_is_sub_agent :: bool
  ac_workflow_run :: "WorkflowRunRef option"
  ac_artifacts :: "ArtifactSpec list"
  ac_input_artifacts :: "InputArtifactRef list"
  ac_max_turns :: "int option"

text \<open>The constants read from the environment of the process: unset and empty are the same.\<close>

definition env_or :: "env \<Rightarrow> string \<Rightarrow> string option" where
  "env_or e k = (case mget e k of None \<Rightarrow> None | Some v \<Rightarrow> if v = [] then None else Some v)"

definition GITHUB_HOST :: "env \<Rightarrow> string" where
  "GITHUB_HOST e = (case env_or e ''GITHUB_HOST'' of None \<Rightarrow> ''github.com'' | Some h \<Rightarrow> h)"

definition MODEL_TIER_KEYS :: "string list" where
  "MODEL_TIER_KEYS =
     [''ANTHROPIC_MODEL'', ''ANTHROPIC_SMALL_FAST_MODEL'', ''ANTHROPIC_DEFAULT_HAIKU_MODEL'',
      ''ANTHROPIC_DEFAULT_SONNET_MODEL'', ''ANTHROPIC_DEFAULT_OPUS_MODEL'', ''CLAUDE_CODE_SUBAGENT_MODEL'']"

definition PASSTHROUGH_KEYS :: "string list" where
  "PASSTHROUGH_KEYS = [''PATH'']"

section \<open>Tools and servers\<close>

definition CLAUDE_MCP_PREFIX :: string where
  "CLAUDE_MCP_PREFIX = ''mcp__gateway__''"

fun extractGatewayAllowedTools :: "string list option \<Rightarrow> string list" where
  "extractGatewayAllowedTools None = []"
| "extractGatewayAllowedTools (Some tools) =
     List.map_filter (\<lambda>t. if starts_with t CLAUDE_MCP_PREFIX then Some (drop (length CLAUDE_MCP_PREFIX) t) else None) tools"

definition spread_into :: "('a \<times> 'b) list \<Rightarrow> ('a, 'b) jmap \<Rightarrow> ('a, 'b) jmap" where
  "spread_into kvs m = foldl (\<lambda>m (k, v). mput k v m) m kvs"

text \<open>The servers handed to the SDK, or the error thrown; None where there are none.\<close>

definition buildMcpServers :: "env \<Rightarrow> AgentConfig \<Rightarrow> string + (string, json) jmap option" where
  "buildMcpServers e cfg =
     (let servers = spread_into (ac_mcp_servers cfg) [];
          allowed = extractGatewayAllowedTools (ac_tools cfg);
          url = env_or e ''MCP_GATEWAY_URL''
      in if length allowed > 0 then
           (if url = None then Inl ''Agent has gateway-bound MCP tools but MCP_GATEWAY_URL is not set''
            else
              let bearer = (if truthy (ac_user_token cfg) then ac_user_token cfg else env_or e ''MCP_GATEWAY_API_KEY'');
                  headers =
                    [(''X-Aviary-Allowed-Tools'', JStr (join '','' allowed))] @
                    (if truthy bearer then [(''Authorization'', JStr (''Bearer '' @ the bearer))] else []) @
                    (if truthy (ac_user_external_id cfg)
                     then [(''X-Aviary-User-Sub'', JStr (the (ac_user_external_id cfg)))] else [])
              in Inr (Some (mput ''gateway''
                   (JObj [(''type'', JStr ''http''), (''url'', JStr (the url @ ''/mcp'')), (''headers'', JObj headers)])
                   servers)))
         else Inr (if length servers > 0 then Some servers else None))"

definition systemToolCliName :: "string \<Rightarrow> string" where
  "systemToolCliName toolName = ''mcp__system__'' @ toolName"

text \<open>A tool of the in-process server: its name, its description, and the names of its arguments.\<close>

type_synonym sys_tool = "string \<times> string \<times> string list"

definition buildStructuredOutputTools :: "StructuredOutputConfig list \<Rightarrow> sys_tool list" where
  "buildStructuredOutputTools configs =
     map (\<lambda>cfg.
       (so_name cfg,
        (case so_description cfg of
           None \<Rightarrow> ''Call this tool to emit a structured `'' @ so_name cfg @ ''` payload.''
         | Some d \<Rightarrow> d),
        mkeys (spread_into (map (\<lambda>fd. (sf_name fd, sf_is_list fd)) (so_fields cfg)) []))) configs"

section \<open>History and artifacts\<close>

definition hasSessionHistory :: "host \<Rightarrow> fs \<Rightarrow> string \<Rightarrow> string \<Rightarrow> bool" where
  "hasSessionHistory h f claudeDir sid =
     (let projectsDir = path_join [claudeDir, ''projects'']
      in if \<not> existsSync f (path_resolve (host_cwd h) [projectsDir]) then False
         else case readdirSync f (path_resolve (host_cwd h) [projectsDir]) of
                Inl _ \<Rightarrow> False
              | Inr ds \<Rightarrow>
                  list_ex (\<lambda>d. existsSync f
                    (path_resolve (host_cwd h) [path_join [projectsDir, d, sid @ ''.jsonl'']])) ds)"

definition resolveSandboxWorkspacePath :: "string \<Rightarrow> string \<Rightarrow> string \<Rightarrow> string + string" where
  "resolveSandboxWorkspacePath cwd sharedDir sourcePath =
     (let rel = (if sourcePath = ''/workspace'' then Inr []
                 else if starts_with sourcePath ''/workspace/'' then Inr (drop (length ''/workspace/'') sourcePath)
                 else if is_absolute sourcePath then Inl ''source_path must be inside /workspace''
                 else Inr sourcePath)
      in case rel of
           Inl e \<Rightarrow> Inl e
         | Inr rel \<Rightarrow>
             let resolvedShared = path_resolve cwd [sharedDir];
                 resolved = path_resolve cwd [resolvedShared, rel]
             in if resolved \<noteq> resolvedShared \<and> \<not> starts_with resolved (resolvedShared @ [slash])
                then Inl ''source_path escapes /workspace''
                else Inr resolved)"

text \<open>
  \<open>fsp.cp(src, dst, { recursive: true })\<close>: every entry at and below the source is made anew at the
  destination, links as links; copying a directory into itself is refused.
\<close>

definition copy_all :: "fs \<Rightarrow> string \<Rightarrow> string \<Rightarrow> errno + fs" where
  "copy_all f src dst =
     (case mkdir_recursive f (path_dirname dst) of
        Inl e \<Rightarrow> Inl e
      | Inr f1 \<Rightarrow>
          (case (locate f1 False src, locate f1 False dst) of
             (Inr a, Inr b) \<Rightarrow>
               if node_at f1 a = None then Inl ENOENT
               else if prefix a b then Inl EINVAL
               else Inr (foldl (\<lambda>g (p, k, t). put_entry (b @ drop (length a) p) k g) f1
                          (filter (\<lambda>(p, n). prefix a p) (nodes f1)))
           | (Inl e, _) \<Rightarrow> Inl e
           | (_, Inl e) \<Rightarrow> Inl e))"

text \<open>\<open>fsp.copyFile(src, dst)\<close>.\<close>

definition copyFile :: "fs \<Rightarrow> string \<Rightarrow> string \<Rightarrow> errno + fs" where
  "copyFile f src dst =
     (case readFileSync f src of Inl e \<Rightarrow> Inl e | Inr b \<Rightarrow> writeFileSync f dst b)"

definition copy_entry :: "string \<Rightarrow> string \<Rightarrow> unit io" where
  "copy_entry src dst =
     and_then (reads (\<lambda>f. statSync f src)) (\<lambda>stat.
     if is_dir stat then writes (\<lambda>f. copy_all f src dst) else writes (\<lambda>f. copyFile f src dst))"

text \<open>The answer of a tool: its text, and whether it is an error.\<close>

type_synonym tool_result = "string \<times> bool"

definition errno_message :: "fault \<Rightarrow> string" where
  "errno_message e = (case e of WorkspaceError _ m _ \<Rightarrow> m
     | FsError c \<Rightarrow> (case c of ENOENT \<Rightarrow> ''ENOENT'' | ENOTDIR \<Rightarrow> ''ENOTDIR'' | EISDIR \<Rightarrow> ''EISDIR''
         | EEXIST \<Rightarrow> ''EEXIST'' | ENOTEMPTY \<Rightarrow> ''ENOTEMPTY'' | ELOOP \<Rightarrow> ''ELOOP'' | EINVAL \<Rightarrow> ''EINVAL''))"

text \<open>The handler of the tool \<open>save_as_artifact\<close>; a dash stands for the em dash of its message.\<close>

definition save_as_artifact ::
  "host \<Rightarrow> string \<Rightarrow> string \<Rightarrow> string \<Rightarrow> string \<Rightarrow> string \<Rightarrow> fs \<Rightarrow> tool_result \<times> fs" where
  "save_as_artifact h sharedDir rootRunId nodeId artifact_name source_path f =
     (case resolveSandboxWorkspacePath (host_cwd h) sharedDir source_path of
        Inl m \<Rightarrow> ((''save_as_artifact: '' @ m, True), f)
      | Inr src \<Rightarrow>
          if \<not> existsSync f src then ((''save_as_artifact: '' @ source_path @ '' does not exist'', True), f)
          else
            let dst = path_resolve (host_cwd h) [workflowArtifactPath (host_env h) rootRunId nodeId artifact_name] in
            case and_then (writes (\<lambda>f. rm_recursive True f dst)) (\<lambda>_.
                 and_then (writes (\<lambda>f. mkdir_recursive f (path_dirname dst))) (\<lambda>_.
                 copy_entry src dst)) f of
              (Inl e, g) \<Rightarrow> ((''save_as_artifact: copy failed - '' @ errno_message e, True), g)
            | (Inr _, g) \<Rightarrow> ((''Saved artifact `'' @ artifact_name @ ''`.'', False), g))"

definition buildArtifactTool :: "ArtifactSpec list \<Rightarrow> sys_tool" where
  "buildArtifactTool artifacts =
     (''save_as_artifact'',
      ''Save a file or directory from /workspace as a named workflow artifact. '' @
      ''Downstream steps that depend on this node will see the saved content at '' @
      ''`/workspace/{artifact_name}` in their own sandbox. Call once per artifact.'' @ [CHR 0x0A, CHR 0x0A] @
      ''Declared artifacts:'' @ [CHR 0x0A] @
      join [CHR 0x0A] (map (\<lambda>a. ''  - `'' @ as_name a @ ''`'' @
        (if truthy (as_description a) then '' - '' @ the (as_description a) else [])) artifacts),
      [''artifact_name'', ''source_path''])"

fun copyInputArtifacts :: "host \<Rightarrow> InputArtifactRef list \<Rightarrow> string \<Rightarrow> string \<Rightarrow> unit io" where
  "copyInputArtifacts h [] rootRunId sharedDir = give ()"
| "copyInputArtifacts h (ref # refs) rootRunId sharedDir =
     (let from_cwd = (\<lambda>p. path_resolve (host_cwd h) [p]);
          src = from_cwd (path_join [workflowArtifactsDir (host_env h) rootRunId, ia_upstream_node_id ref, ia_artifact_name ref]);
          dst = from_cwd (path_join [sharedDir, ia_artifact_name ref])
      in and_then (reads (\<lambda>f. Inr (existsSync f src))) (\<lambda>present.
         if \<not> present then copyInputArtifacts h refs rootRunId sharedDir
         else
           and_then (writes (\<lambda>f. rm_recursive True f dst)) (\<lambda>_.
           and_then (copy_entry src dst) (\<lambda>_.
           copyInputArtifacts h refs rootRunId sharedDir))))"

section \<open>The prompt\<close>

record Attachment =
  at_type :: string
  at_media_type :: string
  at_data :: string

record ContentPart =
  cp_text :: "string option"
  cp_attachments :: "Attachment list option"

definition attachmentsToBlocks :: "Attachment list \<Rightarrow> json list" where
  "attachmentsToBlocks atts =
     map (\<lambda>a. JObj [(''type'', JStr ''image''),
                   (''source'', JObj [(''type'', JStr ''base64''), (''media_type'', JStr (at_media_type a)),
                                      (''data'', JStr (at_data a))])])
       (filter (\<lambda>a. at_type a = ''image'') atts)"

definition part_blocks :: "ContentPart \<Rightarrow> json list" where
  "part_blocks part =
     (if truthy (cp_attachments part) then attachmentsToBlocks (the (cp_attachments part)) else []) @
     (if truthy (cp_text part) then [JObj [(''type'', JStr ''text''), (''text'', JStr (the (cp_text part)))]] else [])"

definition buildMessageContent :: "ContentPart list \<Rightarrow> json" where
  "buildMessageContent parts =
     (let hasAttachments = list_ex (\<lambda>p. truthy (cp_attachments p)) parts
      in if \<not> hasAttachments \<and> length parts = 1 \<and> truthy (cp_text (hd parts))
         then JStr (the (cp_text (hd parts)))
         else JArr (concat (map part_blocks parts)))"

section \<open>The model and the environment of the query\<close>

record resolved_model =
  rm_model :: string
  rm_base_url :: "string option"
  rm_api_key :: string

text \<open>
  Direct mode when the request brings its own endpoint or key, else the gateway, which wants the
  backend in front of a model name that has none.
\<close>

definition resolveModel :: "env \<Rightarrow> ModelConfig option \<Rightarrow> string + resolved_model" where
  "resolveModel e cfg =
     (case cfg of
        None \<Rightarrow> Inl ''agent_config.model_config.model and .backend are required''
      | Some mc \<Rightarrow>
          if \<not> truthy (mc_model mc) \<or> \<not> truthy (mc_backend mc)
          then Inl ''agent_config.model_config.model and .backend are required''
          else
            let model = the (mc_model mc);
                useDirectMode = (mc_api_base mc \<noteq> None \<or> mc_api_key mc \<noteq> None);
                resolvedModel = (if useDirectMode then model
                                 else if has_sub model ''/'' then model
                                 else the (mc_backend mc) @ ''/'' @ model);
                baseUrl = (case mc_api_base mc of None \<Rightarrow> env_or e ''LLM_GATEWAY_URL'' | Some b \<Rightarrow> Some b);
                apiKey = (case mc_api_key mc of None \<Rightarrow> env_or e ''LLM_GATEWAY_API_KEY'' | Some k \<Rightarrow> Some k)
            in if \<not> truthy apiKey
               then Inl ''No API key available - set LLM_GATEWAY_API_KEY or provide model_config.api_key''
               else Inr \<lparr>rm_model = resolvedModel, rm_base_url = baseUrl, rm_api_key = the apiKey\<rparr>)"

definition customHeaderLines :: "AgentConfig \<Rightarrow> string" where
  "customHeaderLines cfg =
     join [CHR 0x0A]
       ((if truthy (ac_user_external_id cfg) then [''X-Aviary-User-Sub: '' @ the (ac_user_external_id cfg)] else []) @
        (if truthy (ac_user_token cfg) then [''X-Aviary-User-Token: '' @ the (ac_user_token cfg)] else []))"

text \<open>The environment of the CLI: later entries replace earlier ones.\<close>

definition buildEnv ::
  "env \<Rightarrow> AgentConfig \<Rightarrow> resolved_model \<Rightarrow> nat option \<Rightarrow> string \<Rightarrow> string \<Rightarrow> string option \<Rightarrow> env" where
  "buildEnv e cfg rm maxTokens sid aid artifactsDir =
     spread_into
       ((if truthy (rm_base_url rm) then [(''ANTHROPIC_BASE_URL'', the (rm_base_url rm))] else []) @
        [(''ANTHROPIC_API_KEY'', rm_api_key rm)] @
        (if customHeaderLines cfg \<noteq> [] then [(''ANTHROPIC_CUSTOM_HEADERS'', customHeaderLines cfg)] else []) @
        [(''SESSION_WORKSPACE'', sessionSharedDir e sid),
         (''SESSION_CLAUDE_DIR'', sessionClaudeDir e sid aid),
         (''SESSION_VENV_DIR'', sessionVenvDir e sid aid),
         (''SESSION_TMP'', sessionTmp sid aid)] @
        (case artifactsDir of None \<Rightarrow> [] | Some d \<Rightarrow> [(''SESSION_ARTIFACTS_DIR'', d)]) @
        [(''CLAUDE_CODE_DISABLE_NONESSENTIAL_TRAFFIC'', ''1''), (''CLAUDE_CODE_MAX_RETRIES'', ''2'')] @
        (case maxTokens of None \<Rightarrow> [] | Some n \<Rightarrow> [(''CLAUDE_CODE_MAX_OUTPUT_TOKENS'', nat_string n)]) @
        map (\<lambda>k. (k, rm_model rm)) MODEL_TIER_KEYS @
        map (\<lambda>k. (k, the (mget e k))) (filter (\<lambda>k. truthy (mget e k)) PASSTHROUGH_KEYS) @
        (if truthy (ac_github_token cfg) then
           [(''GITHUB_TOKEN'', the (ac_github_token cfg)), (''GH_TOKEN'', the (ac_github_token cfg))] @
           (if GITHUB_HOST e \<noteq> ''github.com'' then
              [(''GH_HOST'', GITHUB_HOST e), (''GH_ENTERPRISE_TOKEN'', the (ac_github_token cfg)),
               (''GITHUB_ENTERPRISE_TOKEN'', the (ac_github_token cfg))] else []) @
           [(''GIT_CONFIG_COUNT'', ''1''),
            (''GIT_CONFIG_KEY_0'', ''credential.https://'' @ GITHUB_HOST e @ ''.helper''),
            (''GIT_CONFIG_VALUE_0'', ''/app/scripts/git-credential-github.sh'')]
         else [])) []"

section \<open>Preparing a message\<close>

text \<open>
  The servers of the query: those of the configuration, and the in-process server with its
  tools.
\<close>

datatype mcp_server = Configured json | InProcess "sys_tool list"

record query_options =
  qo_model :: string
  qo_systemPrompt :: string
  qo_allowedTools :: "string list option"
  qo_disallowedTools :: "string list"
  qo_mcpServers :: "(string, mcp_server) jmap option"
  qo_env :: env
  qo_session_id_arg :: "string option"
  qo_resume :: "string option"
  qo_maxTurns :: "int option"
  qo_hooks :: bool

text \<open>Some agent's sub-agents are offered to it, unless it is itself a sub-agent.\<close>

definition offers_agents :: "AgentConfig \<Rightarrow> bool" where
  "offers_agents cfg \<longleftrightarrow> length (ac_accessible_agents cfg) > 0 \<and> \<not> ac_is_sub_agent cfg"

definition systemPrompt :: "AgentConfig \<Rightarrow> string" where
  "systemPrompt cfg =
     (case ac_instruction cfg of None \<Rightarrow> [] | Some s \<Rightarrow> s) @
     (if offers_agents cfg then
        [CHR 0x0A, CHR 0x0A] @ ''## Available Sub-Agents'' @ [CHR 0x0A] @
        ''You can delegate tasks to these agents using the corresponding mcp__system__a2a_{slug} tool:'' @ [CHR 0x0A] @
        join [CHR 0x0A] (map (\<lambda>a. ''- @'' @ aa_slug a @ '': '' @
          (if truthy (aa_description a) then the (aa_description a) else aa_name a)) (ac_accessible_agents cfg))
      else [])"

text \<open>The tools of the in-process server: sub-agents, structured outputs, artifacts.\<close>

definition a2a_tools :: "AccessibleAgent list \<Rightarrow> sys_tool list" where
  "a2a_tools agents =
     map (\<lambda>a. (''a2a_'' @ aa_slug a,
               (if truthy (aa_description a) then the (aa_description a) else ''Call agent: '' @ aa_name a),
               [''message''])) agents"

definition system_tools :: "AgentConfig \<Rightarrow> StructuredOutputConfig list \<Rightarrow> sys_tool list" where
  "system_tools cfg structured =
     (if offers_agents cfg then a2a_tools (ac_accessible_agents cfg) else []) @
     buildStructuredOutputTools (filter (\<lambda>c. so_name c \<noteq> []) structured) @
     (if filter (\<lambda>a. as_name a \<noteq> []) (ac_artifacts cfg) \<noteq> [] \<and>
         (case ac_workflow_run cfg of None \<Rightarrow> False | Some w \<Rightarrow> wr_root_run_id w \<noteq> [])
      then [buildArtifactTool (filter (\<lambda>a. as_name a \<noteq> []) (ac_artifacts cfg))] else [])"

definition session_paths :: "env \<Rightarrow> string \<Rightarrow> string \<Rightarrow> string list" where
  "session_paths e sid aid =
     [sessionSharedDir e sid, sessionClaudeDir e sid aid, sessionTmp sid aid, path_dirname (sessionVenvDir e sid aid)]"

fun mkdir_all :: "host \<Rightarrow> string list \<Rightarrow> unit io" where
  "mkdir_all h [] = give ()"
| "mkdir_all h (p # ps) =
     and_then (writes (\<lambda>f. mkdir_recursive f (path_resolve (host_cwd h) [p]))) (\<lambda>_. mkdir_all h ps)"

text \<open>An error thrown with a message.\<close>

definition throw_message :: "string \<Rightarrow> 'a io" where
  "throw_message m = throw (WorkspaceError invalid_path m None)"

definition prepare_artifacts :: "host \<Rightarrow> AgentConfig \<Rightarrow> string \<Rightarrow> string option io" where
  "prepare_artifacts h cfg shared =
     (let inputArtifacts = filter (\<lambda>a. ia_upstream_node_id a \<noteq> [] \<and> ia_artifact_name a \<noteq> []) (ac_input_artifacts cfg)
      in case ac_workflow_run cfg of
           None \<Rightarrow> give None
         | Some w \<Rightarrow>
             if wr_root_run_id w = [] then give None
             else
               let dir = workflowArtifactsDir (host_env h) (wr_root_run_id w) in
               and_then (writes (\<lambda>f. mkdir_recursive f (path_resolve (host_cwd h) [dir]))) (\<lambda>_.
               and_then (if inputArtifacts \<noteq> [] then copyInputArtifacts h inputArtifacts (wr_root_run_id w) shared
                         else give ()) (\<lambda>_.
               give (Some dir))))"

text \<open>\<open>processMessage\<close> up to the start of the query.\<close>

definition prepareQuery ::
  "host \<Rightarrow> string \<Rightarrow> AgentConfig \<Rightarrow> StructuredOutputConfig list \<Rightarrow> query_options io" where
  "prepareQuery h sid cfg structured =
     (let e = host_env h; aid = ac_agent_id cfg; shared = sessionSharedDir e sid;
          claudeDir = sessionClaudeDir e sid aid
      in and_then (mkdir_all h (session_paths e sid aid)) (\<lambda>_.
         case resolveModel e (ac_model_config cfg) of
           Inl m \<Rightarrow> throw_message m
         | Inr rm \<Rightarrow>
             and_then (reads (\<lambda>f. Inr (hasSessionHistory h f claudeDir sid))) (\<lambda>canResume.
             and_then (prepare_artifacts h cfg shared) (\<lambda>artifactsDir.
             case buildMcpServers e cfg of
               Inl m \<Rightarrow> throw_message m
             | Inr servers \<Rightarrow>
                 if offers_agents cfg \<and> \<not> truthy (mget e ''AVIARY_SUPERVISOR_URL'') then
                   throw_message ''AVIARY_SUPERVISOR_URL must be set when accessible_agents is provided''
                 else
                   let tools = system_tools cfg structured;
                       configured = map (\<lambda>(k, v). (k, Configured v)) (case servers of None \<Rightarrow> [] | Some m \<Rightarrow> m);
                       mcpServers = (if tools \<noteq> [] then mput ''system'' (InProcess tools) configured else configured);
                       allowedTools = (case ac_tools cfg of None \<Rightarrow> [] | Some ts \<Rightarrow> ts) @
                                      map (\<lambda>(n, d, args). systemToolCliName n) tools
                   in give
                     \<lparr>qo_model = rm_model rm,
                      qo_systemPrompt = systemPrompt cfg,
                      qo_allowedTools = (if allowedTools \<noteq> [] then Some allowedTools else None),
                      qo_disallowedTools = [''WebSearch''],
                      qo_mcpServers = (if mcpServers \<noteq> [] then Some mcpServers else None),
                      qo_env = buildEnv e cfg rm
                        (case ac_model_config cfg of None \<Rightarrow> None | Some mc \<Rightarrow> mc_max_output_tokens mc) sid aid artifactsDir,
                      qo_session_id_arg = (if canResume then None else Some sid),
                      qo_resume = (if canResume then Some sid else None),
                      qo_maxTurns = (case ac_max_turns cfg of Some n \<Rightarrow> if n > 0 then Some n else None | None \<Rightarrow> None),
                      qo_hooks = offers_agents cfg\<rparr>))))"

section \<open>The loop over the messages of the query\<close>

text \<open>
  What one message does: the accumulator and the chunks yielded, and whether it threw. The
  parameter \<open>stringify\<close> is \<open>JSON.stringify\<close>.
\<close>

fun assistant_blocks ::
  "json list \<Rightarrow> string option \<Rightarrow> StreamingAccumulator \<Rightarrow> StreamingAccumulator \<times> SSEChunk list \<times> bool" where
  "assistant_blocks [] p a = (a, [], False)"
| "assistant_blocks (b # bs) p a =
     (case consumeAssistantBlock b p a of
        None \<Rightarrow> (a, [], True)
      | Some (a', c) \<Rightarrow>
          (case assistant_blocks bs p a' of
             (a'', out, threw) \<Rightarrow> (a'', (case c of None \<Rightarrow> [] | Some x \<Rightarrow> [x]) @ out, threw)))"

definition content_blocks :: "json option \<Rightarrow> json list" where
  "content_blocks c = (case c of Some (JArr bs) \<Rightarrow> bs | _ \<Rightarrow> [])"

definition tool_result_chunk :: "(json \<Rightarrow> string) \<Rightarrow> string option \<Rightarrow> json \<Rightarrow> SSEChunk option" where
  "tool_result_chunk stringify parentId block =
     (if jfield block ''type'' = Some ''tool_result'' then
        Some (ToolResult (jget block ''tool_use_id'')
          (case jget block ''content'' of
             Some (JStr s) \<Rightarrow> s
           | None \<Rightarrow> stringify (JStr [])
           | Some JNull \<Rightarrow> stringify (JStr [])
           | Some v \<Rightarrow> stringify v)
          (jtruthy (jget block ''is_error''))
          (if truthy parentId then parentId else None))
      else None)"

definition message_content :: "json \<Rightarrow> json option" where
  "message_content msg = (case jget msg ''message'' of None \<Rightarrow> None | Some m \<Rightarrow> jget m ''content'')"

definition consumeMessage ::
  "(json \<Rightarrow> string) \<Rightarrow> json \<Rightarrow> StreamingAccumulator \<Rightarrow> StreamingAccumulator \<times> SSEChunk list \<times> bool" where
  "consumeMessage stringify msg a =
     (let type = jfield msg ''type''; parentId = jfield msg ''parent_tool_use_id'' in
      if type = Some ''stream_event'' then
        (case jget msg ''event'' of
           None \<Rightarrow> (a, [], True)
         | Some event \<Rightarrow>
             (case consumeStreamEvent event a of (a', c) \<Rightarrow> (a', (case c of None \<Rightarrow> [] | Some x \<Rightarrow> [x]), False)))
      else if type = Some ''assistant'' \<and> jtruthy (message_content msg) then
        assistant_blocks (content_blocks (message_content msg)) parentId a
      else if type = Some ''user'' \<and> jtruthy (message_content msg) then
        (resetForNewTurn a,
         List.map_filter (tool_result_chunk stringify parentId) (content_blocks (message_content msg)), False)
      else if type = Some ''tool_progress'' then
        (a, [ToolProgress (jget msg ''tool_use_id'') (jget msg ''tool_name'') (jget msg ''parent_tool_use_id'')
               (jget msg ''elapsed_time_seconds'')], False)
      else if type = Some ''result'' then
        let first = (if truthy (jfield msg ''result'') \<and> fullResponse a = [] then [Chunk (the (jfield msg ''result''))] else [])
        in (a\<lparr>fullResponse := fullResponse a @ concat (map chunk_text first)\<rparr>,
            first @ [ResultEvent (jget msg ''session_id'') (jget msg ''duration_ms'') (jget msg ''num_turns'')
                       (jget msg ''total_cost_usd'') (jget msg ''usage'')], False)
      else (a, [], False))"

text \<open>
  The whole stream: the messages of the query, how it ended (an error thrown by the SDK, or
  none), and whether the request had been aborted by then.
\<close>

fun stream_messages ::
  "(json \<Rightarrow> string) \<Rightarrow> json list \<Rightarrow> StreamingAccumulator \<Rightarrow> StreamingAccumulator \<times> SSEChunk list \<times> bool" where
  "stream_messages stringify [] a = (a, [], False)"
| "stream_messages stringify (m # ms) a =
     (case consumeMessage stringify m a of
        (a', out, True) \<Rightarrow> (a', out, True)
      | (a', out, False) \<Rightarrow>
          (case stream_messages stringify ms a' of (a'', out', threw) \<Rightarrow> (a'', out @ out', threw)))"

definition stream_end :: "bool \<Rightarrow> string option \<Rightarrow> SSEChunk list" where
  "stream_end aborted err =
     (case err of
        None \<Rightarrow> []
      | Some message \<Rightarrow> if aborted then [Chunk ''[Cancelled by user]''] else [ErrorEvent message])"

definition processStream :: "(json \<Rightarrow> string) \<Rightarrow> json list \<Rightarrow> string option \<Rightarrow> bool \<Rightarrow> SSEChunk list" where
  "processStream stringify msgs err aborted =
     (case stream_messages stringify msgs newAccumulator of
        (a, out, threw) \<Rightarrow>
          QueryStarted # out @ stream_end aborted (if threw then Some ''TypeError'' else err))"

section \<open>Properties\<close>

text \<open>
  \<open>save_as_artifact\<close> reads inside the shared workspace only. Whatever path the model passes,
  the source is at or below the session's shared directory; a path under \<open>/workspace\<close> means the
  same as the path relative to it, and any other absolute path is refused.
\<close>

theorem sandbox_path_confined:
  assumes "clean b" and "b \<noteq> []"
  shows "(\<forall>q. resolveSandboxWorkspacePath cwd (abs_path b) p = Inr q \<longrightarrow>
      (\<exists>t. clean (b @ t) \<and> q = abs_path (b @ t))) \<and>
    (\<not> is_absolute p \<longrightarrow> resolveSandboxWorkspacePath cwd (abs_path b) (''/workspace/'' @ p) =
       resolveSandboxWorkspacePath cwd (abs_path b) p) \<and>
    (is_absolute p \<and> p \<noteq> ''/workspace'' \<and> \<not> starts_with p ''/workspace/'' \<longrightarrow>
       resolveSandboxWorkspacePath cwd (abs_path b) p = Inl ''source_path must be inside /workspace'')"
proof (intro conjI allI impI)
  have inside: "\<exists>t. clean (b @ t) \<and> q = abs_path (b @ t)"
    if q: "q = path_resolve cwd [abs_path b, rel]" and
      w: "q = abs_path b \<or> starts_with q (abs_path b @ [slash])" for q rel
  proof -
    obtain j where j: "clean j" "q = abs_path j"
    proof (cases "is_absolute rel")
      case False
      then show ?thesis using that clean_resolved [OF assms(1), of rel] q resolve_rel [OF assms(1) False, of cwd] by blast
    next
      case True
      have "rel \<noteq> []" using True by (auto simp: is_absolute_def)
      with True have "path_resolve cwd [abs_path b, rel] = path_resolve cwd [rel]"
        by (simp add: path_resolve_def)
      moreover have "\<exists>j. clean j \<and> path_resolve cwd [rel] = abs_path j"
      proof (intro exI conjI)
        show "clean (norm_segs False [] (split_on slash (rel @ ''/'')))"
          using split_on_no_sep [of _ slash "rel @ ''/''"] by (intro norm_segs_is_clean) auto
        show "path_resolve cwd [rel] = abs_path (norm_segs False [] (split_on slash (rel @ ''/'')))"
          using True \<open>rel \<noteq> []\<close> by (simp add: path_resolve_def abs_path_def normalize_string_def)
      qed
      ultimately show ?thesis using that q by metis
    qed
    from w show ?thesis
      using j starts_with_abs_path [OF assms(1) j(1) assms(2)] abs_path_inj [OF j(1) assms(1)]
      by (metis append_Nil2)
  qed
  show "\<exists>t. clean (b @ t) \<and> q = abs_path (b @ t)"
    if "resolveSandboxWorkspacePath cwd (abs_path b) p = Inr q" for q
    using that inside
    by (auto simp: resolveSandboxWorkspacePath_def Let_def resolve_abs [OF assms(1)] split: if_splits sum.splits)
  show "resolveSandboxWorkspacePath cwd (abs_path b) (''/workspace/'' @ p) =
      resolveSandboxWorkspacePath cwd (abs_path b) p" if "\<not> is_absolute p"
  proof -
    have "p \<noteq> ''/workspace''" "\<not> starts_with p ''/workspace/''"
      using that by (auto simp: is_absolute_def starts_with_iff)
    moreover have "''/workspace/'' @ p \<noteq> ''/workspace''" by simp
    moreover have "starts_with (''/workspace/'' @ p) ''/workspace/''" by (rule starts_with_append)
    ultimately show ?thesis using that
      by (simp only: resolveSandboxWorkspacePath_def if_True if_False append_eq_conv_conj [THEN iffD1, OF refl] simp_thms)
        simp
  qed
  show "resolveSandboxWorkspacePath cwd (abs_path b) p = Inl ''source_path must be inside /workspace''"
    if "is_absolute p \<and> p \<noteq> ''/workspace'' \<and> \<not> starts_with p ''/workspace/''"
    using that by (simp only: resolveSandboxWorkspacePath_def if_True if_False simp_thms) (simp add: Let_def)
qed

theorem sandbox_path_confined_witness:
  "resolveSandboxWorkspacePath ''/app'' ''/r/s'' ''/etc/passwd'' = Inl ''source_path must be inside /workspace'' \<and>
   (\<exists>t. abs_path ([''r'', ''s''] @ t) = ''/r/s/b'' \<and>
      resolveSandboxWorkspacePath ''/app'' ''/r/s'' ''/workspace/a/../b'' = Inr (abs_path ([''r'', ''s''] @ t)))"
proof -
  have c: "clean [''r'', ''s'']" "[''r'', ''s''] \<noteq> []" by (simp_all add: clean_seg_def)
  have b: "abs_path [''r'', ''s''] = ''/r/s''" by code_simp
  have e: "resolveSandboxWorkspacePath ''/app'' ''/r/s'' ''/workspace/a/../b'' = Inr ''/r/s/b''" by code_simp
  have p: "is_absolute ''/etc/passwd'' \<and> ''/etc/passwd'' \<noteq> ''/workspace'' \<and> \<not> starts_with ''/etc/passwd'' ''/workspace/''"
    by code_simp
  note x = sandbox_path_confined [OF c, where cwd = "''/app''", unfolded b]
  from x [of "''/etc/passwd''"] p have "resolveSandboxWorkspacePath ''/app'' ''/r/s'' ''/etc/passwd'' =
      Inl ''source_path must be inside /workspace''" by blast
  moreover obtain t where "''/r/s/b'' = abs_path ([''r'', ''s''] @ t)" using x [of "''/workspace/a/../b''"] e by blast
  ultimately show ?thesis using e by metis
qed

lemma mget_spread_into: "mget (spread_into kvs m) k = (case map_of (rev kvs) k of None \<Rightarrow> mget m k | Some v \<Rightarrow> Some v)"
proof (induction kvs arbitrary: m)
  case (Cons kv kvs)
  then show ?case
    by (cases kv) (simp add: spread_into_def update_conv' map_add_def split: option.split)
qed (simp add: spread_into_def)

lemma spread_keys: "set (mkeys (spread_into kvs m)) = fst ` set kvs \<union> set (mkeys m)"
proof (induction kvs arbitrary: m)
  case (Cons kv kvs)
  then show ?case
    by (cases kv) (auto simp: spread_into_def dom_update)
qed (simp add: spread_into_def)

definition query_env_keys :: "string set" where
  "query_env_keys = set
     ([''ANTHROPIC_BASE_URL'', ''ANTHROPIC_API_KEY'', ''ANTHROPIC_CUSTOM_HEADERS'', ''SESSION_WORKSPACE'',
       ''SESSION_CLAUDE_DIR'', ''SESSION_VENV_DIR'', ''SESSION_TMP'', ''SESSION_ARTIFACTS_DIR'',
       ''CLAUDE_CODE_DISABLE_NONESSENTIAL_TRAFFIC'', ''CLAUDE_CODE_MAX_RETRIES'', ''CLAUDE_CODE_MAX_OUTPUT_TOKENS'',
       ''PATH''] @ MODEL_TIER_KEYS)"

definition github_env_keys :: "string set" where
  "github_env_keys = {''GITHUB_TOKEN'', ''GH_TOKEN'', ''GH_HOST'', ''GH_ENTERPRISE_TOKEN'', ''GITHUB_ENTERPRISE_TOKEN'',
     ''GIT_CONFIG_COUNT'', ''GIT_CONFIG_KEY_0'', ''GIT_CONFIG_VALUE_0''}"

text \<open>
  The sandboxed CLI inherits nothing of the runtime's environment but \<open>PATH\<close>: every variable
  it gets is on a fixed list (the GitHub ones only with the user's own token), so the
  runtime's other secrets stay outside; and each model tier, the background and sub-agent ones
  included, is the resolved model.
\<close>

theorem query_env_closed:
  "set (mkeys (buildEnv e cfg rm n sid aid d)) \<subseteq> query_env_keys \<union> (if truthy (ac_github_token cfg) then github_env_keys else {}) \<and>
   list_all (\<lambda>k. mget (buildEnv e cfg rm n sid aid d) k = Some (rm_model rm)) MODEL_TIER_KEYS \<and>
   mget (buildEnv e cfg rm n sid aid d) ''SESSION_WORKSPACE'' = Some (sessionSharedDir e sid)"
proof (intro conjI)
  show "set (mkeys (buildEnv e cfg rm n sid aid d)) \<subseteq> query_env_keys \<union> (if truthy (ac_github_token cfg) then github_env_keys else {})"
    unfolding buildEnv_def spread_keys
    by (auto simp: query_env_keys_def github_env_keys_def PASSTHROUGH_KEYS_def split: if_splits option.splits)
  show "list_all (\<lambda>k. mget (buildEnv e cfg rm n sid aid d) k = Some (rm_model rm)) MODEL_TIER_KEYS"
    unfolding buildEnv_def mget_spread_into
    by (simp add: MODEL_TIER_KEYS_def PASSTHROUGH_KEYS_def map_add_def)
  show "mget (buildEnv e cfg rm n sid aid d) ''SESSION_WORKSPACE'' = Some (sessionSharedDir e sid)"
    unfolding buildEnv_def mget_spread_into
    by (simp add: MODEL_TIER_KEYS_def PASSTHROUGH_KEYS_def map_add_def split: option.split)
qed

declare in_step.simps [simp del]

lemma assistant_blocks_step:
  "assistant_blocks bs p a = (a', out, threw) \<Longrightarrow> in_step (a, before) \<Longrightarrow> in_step (a', before @ out)"
proof (induction bs arbitrary: a before out)
  case (Cons b bs)
  show ?case
  proof (cases "consumeAssistantBlock b p a")
    case None
    with Cons.prems show ?thesis by simp
  next
    case (Some r)
    obtain a1 c where r: "r = (a1, c)" by fastforce
    let ?c = "case c of None \<Rightarrow> [] | Some x \<Rightarrow> [x]"
    obtain out' where o: "assistant_blocks bs p a1 = (a', out', threw)" "out = ?c @ out'"
      using Cons.prems(1) Some r by (auto split: prod.splits)
    have "feed (a, before) (AssistantBlock b p) = (a1, before @ ?c)" using Some r by simp
    with acc.step_good [OF Cons.prems(2), of "AssistantBlock b p"] have "in_step (a1, before @ ?c)" by simp
    from Cons.IH [OF o(1) this] o(2) show ?thesis by simp
  qed
qed simp

lemma tool_results_silent:
  "concat (map chunk_text (List.map_filter (tool_result_chunk st p) bs)) = [] \<and>
   concat (map tool_ids (List.map_filter (tool_result_chunk st p) bs)) = []"
  by (induction bs) (auto simp: map_filter_simps tool_result_chunk_def)

lemma consumeMessage_step:
  assumes "consumeMessage st m a = (a', out, threw)" and "in_step (a, before)"
  shows "in_step (a', before @ out)"
proof -
  let ?t = "jfield m ''type''"
  have stream: "in_step (a', before @ out)"
    if "jget m ''event'' = Some e" "consumeStreamEvent e a = (a1, c)"
      "a' = a1" "out = (case c of None \<Rightarrow> [] | Some x \<Rightarrow> [x])" for e a1 c
    using acc.step_good [OF assms(2), of "StreamEvent e"] that by simp
  have turn: "in_step (resetForNewTurn a, before)" using acc.step_good [OF assms(2), of NewTurn] by simp
  consider (s) "?t = Some ''stream_event''" | (u) "?t = Some ''user''" "jtruthy (message_content m)"
    | (r) "?t = Some ''result''"
    | (b) "?t = Some ''assistant''" "jtruthy (message_content m)"
    | (p) "?t = Some ''tool_progress''" | (none) "a' = a" "out = []"
    using assms(1) by (auto simp: consumeMessage_def Let_def split: if_splits)
  then show ?thesis
  proof cases
    case s
    show ?thesis
    proof (cases "jget m ''event''")
      case None
      with assms s show ?thesis by (simp add: consumeMessage_def)
    next
      case (Some e)
      obtain a1 c where e: "consumeStreamEvent e a = (a1, c)" by fastforce
      with assms(1) s Some have "a' = a1" "out = (case c of None \<Rightarrow> [] | Some x \<Rightarrow> [x])"
        by (simp_all add: consumeMessage_def)
      from stream [OF Some e this] show ?thesis .
    qed
  next
    case u
    with assms(1) turn tool_results_silent show ?thesis by (auto simp: consumeMessage_def in_step.simps)
  next
    case r
    with assms show ?thesis by (auto simp: consumeMessage_def Let_def in_step.simps)
  next
    case b
    with assms assistant_blocks_step show ?thesis by (auto simp: consumeMessage_def)
  next
    case p
    with assms show ?thesis by (auto simp: consumeMessage_def in_step.simps)
  qed (use assms(2) in simp)
qed

lemma stream_messages_step:
  "stream_messages st ms a = (a', out, threw) \<Longrightarrow> in_step (a, before) \<Longrightarrow> in_step (a', before @ out)"
proof (induction ms arbitrary: a before out)
  case (Cons m ms)
  obtain a1 o1 t1 where m: "consumeMessage st m a = (a1, o1, t1)" by (metis prod_cases3)
  note one = consumeMessage_step [OF m Cons.prems(2)]
  show ?case
  proof (cases t1)
    case True
    with Cons.prems(1) m one show ?thesis by simp
  next
    case False
    with Cons.prems(1) m obtain o2 where "stream_messages st ms a1 = (a', o2, threw)" "out = o1 @ o2"
      by (auto split: prod.splits)
    with Cons.IH [OF _ one] show ?thesis by simp
  qed
qed simp

text \<open>
  The chunks of a whole answer are consistent, whatever messages the SDK produces and
  however the query ends: the first says the query has started, the text sent is the accumulated
  answer (followed by the cancellation note exactly when an aborted query threw), no tool call
  is announced twice, and an error is reported exactly when the query threw without an abort,
  as the last chunk.
\<close>

theorem processStream_consistent:
  fixes err :: "string option" and aborted :: bool
  assumes "stream_messages stringify msgs newAccumulator = (a, out, threw)"
  defines "chunks \<equiv> processStream stringify msgs err aborted"
  shows "hd chunks = QueryStarted \<and>
    concat (map chunk_text chunks) =
      fullResponse a @ (if (threw \<or> err \<noteq> None) \<and> aborted then ''[Cancelled by user]'' else []) \<and>
    distinct (concat (map tool_ids chunks)) \<and>
    ((\<exists>m. last chunks = ErrorEvent m) \<longleftrightarrow> (threw \<or> err \<noteq> None) \<and> \<not> aborted)"
proof -
  have "in_step (a, [] @ out)"
    by (rule stream_messages_step [OF assms(1)]) (rule in_step_new)
  then have i: "fullResponse a = concat (map chunk_text out)" "distinct (concat (map tool_ids out))"
    by (auto simp: in_step.simps)
  have c: "chunks = QueryStarted # out @ stream_end aborted (if threw then Some ''TypeError'' else err)"
    using assms(1) by (simp add: chunks_def processStream_def)
  have ne: "ErrorEvent m \<notin> set out" for m
  proof -
    have block: "consumeAssistantBlock b p a = Some (a', Some x) \<Longrightarrow> x \<noteq> ErrorEvent m" for b p a a' x
      by (auto simp: consumeAssistantBlock_def Let_def split: if_splits option.splits)
    have blocks: "assistant_blocks bs p a = (a', o', t) \<Longrightarrow> ErrorEvent m \<notin> set o'" for bs p a a' o' t
      by (induction bs arbitrary: a o') (auto split: option.splits prod.splits dest: block)
    have results: "ErrorEvent m \<notin> set (List.map_filter (tool_result_chunk stringify p) bs)" for p bs
      by (induction bs) (auto simp: map_filter_simps tool_result_chunk_def)
    have one: "consumeMessage stringify q a = (a', o', t) \<Longrightarrow> ErrorEvent m \<notin> set o'" for q a a' o' t
      using results by (auto simp: consumeMessage_def consumeStreamEvent_def Let_def split: if_splits option.splits dest: blocks)
    have "stream_messages stringify ms a = (a', o', t) \<Longrightarrow> ErrorEvent m \<notin> set o'" for ms a a' o' t
      by (induction ms arbitrary: a o') (auto split: prod.splits bool.splits dest: one)
    with assms(1) show ?thesis by blast
  qed
  have l: "last (QueryStarted # out) \<noteq> ErrorEvent m" for m
    using ne [of m] by (metis SSEChunk.distinct(11) last.simps last_in_set)
  show ?thesis
    using i l by (cases threw; cases err; cases aborted) (auto simp: c stream_end_def last_append)
qed

theorem processStream_consistent_witness:
  "concat (map chunk_text (processStream (\<lambda>v. []) [JObj [(''type'', JStr ''result''), (''result'', JStr ''done'')]]
     (Some ''exit 1'') False)) = ''done'' \<and>
   (\<exists>m. last (processStream (\<lambda>v. []) [JObj [(''type'', JStr ''result''), (''result'', JStr ''done'')]]
     (Some ''exit 1'') False) = ErrorEvent m)"
proof -
  let ?ms = "[JObj [(''type'', JStr ''result''), (''result'', JStr ''done'')]]"
  let ?a = "newAccumulator\<lparr>fullResponse := ''done''\<rparr>"
  have e: "stream_messages (\<lambda>v. []) ?ms newAccumulator =
      (?a, [Chunk ''done'', ResultEvent None None None None None], False)"
    by (simp add: consumeMessage_def jfield_def Let_def newAccumulator_def)
  from processStream_consistent [OF e, of "Some ''exit 1''" False] show ?thesis
    by (simp add: newAccumulator_def)
qed

section \<open>A limit of the artifact copies\<close>

text \<open>
  The names of artifacts are joined to the shared directory unchecked, unlike the source path of
  \<open>save_as_artifact\<close>: a name that starts with \<open>..\<close> deletes and replaces a directory outside it.
\<close>

definition artifact_fs :: fs where
  "artifact_fs = (let r = ''workspace-root'' in \<lparr>nodes =
     [([], (Dir, 0)), ([r], (Dir, 0)), ([r, ''sessions''], (Dir, 0)), ([r, ''sessions'', ''s1''], (Dir, 0)),
      ([r, ''sessions'', ''s1'', ''shared''], (Dir, 0)), ([r, ''sessions'', ''s1'', ''agents''], (Dir, 0)),
      ([r, ''sessions'', ''s1'', ''agents'', ''a1''], (Dir, 0)),
      ([r, ''workflows''], (Dir, 0)), ([r, ''workflows'', ''w1''], (Dir, 0)),
      ([r, ''workflows'', ''w1'', ''artifacts''], (Dir, 0)),
      ([r, ''workflows'', ''w1'', ''artifacts'', ''n1''], (Dir, 0)),
      ([r, ''workflows'', ''w1'', ''artifacts'', ''agents''], (File [120], 0))], now = 1\<rparr>)"

lemma artifact_name_escapes:
  "let g = snd (copyInputArtifacts \<lparr>host_env = [], host_cwd = ''/app''\<rparr>
        [\<lparr>ia_upstream_node_id = ''n1'', ia_artifact_name = ''../agents''\<rparr>] ''w1''
        ''/workspace-root/sessions/s1/shared'' artifact_fs)
   in node_at g [''workspace-root'', ''sessions'', ''s1'', ''agents'', ''a1''] = None \<and>
      node_at g [''workspace-root'', ''sessions'', ''s1'', ''agents''] = Some (File [120], 1)"
  by code_simp

end
