(* ===== verification/SubAgents.thy ===== *)
theory SubAgents
  imports Accumulator
begin

text \<open>
  Calls from agent to agent (\<open>runtime/src/a2a-tools.ts\<close>): reading the sub-agent's event stream
  piece by piece, the text a call returns in each way it can end, and the queues that pair the
  calls of a tool with the ids the SDK announced for them. The HTTP exchange is the outcome it
  has; \<open>parse\<close> is \<open>JSON.parse\<close>, None where it throws.
\<close>

section \<open>The event stream\<close>

definition newline :: char where
  "newline = CHR 0x0A"

definition sse_line :: "(string \<Rightarrow> json option) \<Rightarrow> string \<Rightarrow> string \<Rightarrow> string" where
  "sse_line parse result line =
     (if \<not> starts_with line ''data: '' then result
      else case parse (drop 6 line) of
             None \<Rightarrow> result
           | Some chunk \<Rightarrow>
               if jfield chunk ''type'' = Some ''chunk'' \<and> truthy (jfield chunk ''content'')
               then result @ the (jfield chunk ''content'') else result)"

text \<open>The loop body: the buffer and the result so far, and one decoded piece of the body.\<close>

definition read_piece :: "(string \<Rightarrow> json option) \<Rightarrow> string \<times> string \<Rightarrow> string \<Rightarrow> string \<times> string" where
  "read_piece parse st piece =
     (let lines = split_on newline (fst st @ piece)
      in (last lines, foldl (sse_line parse) (snd st) (butlast lines)))"

definition read_stream :: "(string \<Rightarrow> json option) \<Rightarrow> string list \<Rightarrow> string \<times> string" where
  "read_stream parse pieces = foldl (read_piece parse) ([], []) pieces"

datatype a2a_outcome =
    HttpError nat string
  | NoBody
  | Body "string list"
  | TimedOut
  | Failed string

definition callSubAgent :: "(string \<Rightarrow> json option) \<Rightarrow> nat \<Rightarrow> string \<Rightarrow> a2a_outcome \<Rightarrow> string" where
  "callSubAgent parse timeoutSeconds slug outcome =
     (case outcome of
        HttpError status errText \<Rightarrow>
          ''Error calling agent @'' @ slug @ '': HTTP '' @ nat_string status @ '' - '' @ errText
      | NoBody \<Rightarrow> ''Error: No response stream''
      | Body pieces \<Rightarrow>
          let result = snd (read_stream parse pieces)
          in if result \<noteq> [] then result else ''(No response from sub-agent)''
      | TimedOut \<Rightarrow> ''Error: Sub-agent @'' @ slug @ '' timed out after '' @ nat_string timeoutSeconds @ ''s''
      | Failed message \<Rightarrow> ''Error calling agent @'' @ slug @ '': '' @ message)"

section \<open>The queues of ids\<close>

type_synonym id_queues = "(string, string list) jmap"

definition buildQueues :: "string list \<Rightarrow> id_queues" where
  "buildQueues slugs = foldl (\<lambda>q slug. mput (''a2a_'' @ slug) [] q) [] slugs"

fun replace_first :: "string \<Rightarrow> string \<Rightarrow> string" where
  "replace_first p [] = (if p = [] then [] else [])"
| "replace_first p (c # cs) =
     (if starts_with (c # cs) p then drop (length p) (c # cs) else c # replace_first p cs)"

definition enqueueToolUseId :: "string \<Rightarrow> string \<Rightarrow> id_queues \<Rightarrow> id_queues" where
  "enqueueToolUseId mcpToolName i q =
     (let localName = replace_first ''mcp__system__'' mcpToolName
      in case mget q localName of None \<Rightarrow> q | Some ids \<Rightarrow> mput localName (ids @ [i]) q)"

text \<open>The start of a call: its id is the next one announced, or a fresh one (the parameter).\<close>

definition takeToolUseId :: "string \<Rightarrow> string \<Rightarrow> id_queues \<Rightarrow> string \<times> id_queues" where
  "takeToolUseId slug fresh q =
     (case mget q (''a2a_'' @ slug) of
        None \<Rightarrow> (''a2a_'' @ fresh, q)
      | Some [] \<Rightarrow> (''a2a_'' @ fresh, q)
      | Some (i # ids) \<Rightarrow> (if i = [] then ''a2a_'' @ fresh else i, mput (''a2a_'' @ slug) ids q))"

section \<open>Properties\<close>

lemma split_on_not_Nil: "split_on c s \<noteq> []"
  by (cases s) (auto split: list.split)

lemma split_on_continue:
  "split_on c (s @ t) = butlast (split_on c s) @ split_on c (last (split_on c s) @ t)"
proof (induction s)
  case (Cons d s)
  obtain w ws where w: "split_on c s = w # ws" using split_on_not_Nil [of c s] by (cases "split_on c s") auto
  show ?case
  proof (cases "ws = []")
    case True
    with w have "s = w" "c \<notin> set s" using join_split_on [of c s] split_on_no_sep [of w c s] by auto
    with Cons w True show ?thesis by (auto split: list.split)
  next
    case False
    obtain v vs where v: "split_on c (s @ t) = v # vs" using split_on_not_Nil [of c "s @ t"] by (cases "split_on c (s @ t)") auto
    with Cons w False show ?thesis by (auto split: list.split)
  qed
qed simp

lemma read_pieces:
  "foldl (read_piece parse) (buf, res) pieces =
     (last (split_on newline (buf @ concat pieces)),
      foldl (sse_line parse) res (butlast (split_on newline (buf @ concat pieces))))"
  if "newline \<notin> set buf"
  using that
proof (induction pieces arbitrary: buf res)
  case Nil
  have "split_on newline buf = [buf]" if "newline \<notin> set buf" for buf
    using that split_on_join [of "[buf]" newline] by simp
  with Nil show ?case by simp
next
  case (Cons p ps)
  let ?ls = "split_on newline (buf @ p)"
  have l: "newline \<notin> set (last ?ls)"
    using split_on_no_sep [of "last ?ls" newline "buf @ p"] split_on_not_Nil by simp
  have s: "split_on newline (buf @ concat (p # ps)) = butlast ?ls @ split_on newline (last ?ls @ concat ps)"
    using split_on_continue [of newline "buf @ p" "concat ps"] by simp
  have "foldl (read_piece parse) (buf, res) (p # ps) =
      foldl (read_piece parse) (last ?ls, foldl (sse_line parse) res (butlast ?ls)) ps"
    by (simp add: read_piece_def Let_def)
  with Cons.IH [OF l] show ?case
    unfolding s by (simp add: butlast_append split_on_not_Nil)
qed

text \<open>
  The text of a sub-agent does not depend on how the network cuts its stream: whatever the
  pieces are, the result is that of the complete lines of the whole body, each read once and in
  order.
\<close>

theorem read_stream_cut_independent:
  "snd (read_stream parse pieces) = foldl (sse_line parse) [] (butlast (split_on newline (concat pieces)))"
  using read_pieces [of "[]" parse "[]" pieces] by (simp add: read_stream_def)

text \<open>Ids announced for tools, then calls: each call of an agent takes the next id of that agent.\<close>

definition announced :: "(string \<times> string) list \<Rightarrow> string \<Rightarrow> string list" where
  "announced events slug = map snd (filter (\<lambda>(s, i). s = slug) events)"

lemma replace_first_prefix: "p \<noteq> [] \<Longrightarrow> replace_first p (p @ s) = s"
  by (cases p) auto

lemma buildQueues_mget: "mget (buildQueues slugs) k = (if k \<in> (\<lambda>s. ''a2a_'' @ s) ` set slugs then Some [] else None)"
proof -
  have "mget (foldl (\<lambda>q slug. mput (''a2a_'' @ slug) [] q) m slugs) k =
      (if k \<in> (\<lambda>s. ''a2a_'' @ s) ` set slugs then Some [] else mget m k)" for m
    by (induction slugs arbitrary: m) (auto simp: update_conv' simp del: append.simps)
  from this [of "[]"] show ?thesis by (simp only: buildQueues_def map_of.simps)
qed

lemma enqueue_all:
  "mget (foldl (\<lambda>q (s, i). enqueueToolUseId (''mcp__system__a2a_'' @ s) i q) q0 events) (''a2a_'' @ slug) =
     map_option (\<lambda>ids. ids @ announced events slug) (mget q0 (''a2a_'' @ slug))"
proof (induction events arbitrary: q0)
  case (Cons e events)
  obtain s i where e: "e = (s, i)" by fastforce
  have r: "replace_first ''mcp__system__'' (''mcp__system__a2a_'' @ s) = ''a2a_'' @ s"
    using replace_first_prefix [of "''mcp__system__''" "''a2a_'' @ s"] by simp
  have "mget (enqueueToolUseId (''mcp__system__a2a_'' @ s) i q0) (''a2a_'' @ slug) =
      map_option (\<lambda>ids. ids @ announced [(s, i)] slug) (mget q0 (''a2a_'' @ slug))"
    unfolding enqueueToolUseId_def r Let_def
    by (auto simp: announced_def update_conv' split: option.split)
  then show ?case
    unfolding e by (simp only: foldl.simps split_conv Cons.IH) (simp add: announced_def option.map_comp comp_def)
qed (simp add: announced_def option.map_ident)

fun take_ids :: "string \<Rightarrow> nat \<Rightarrow> id_queues \<Rightarrow> string list" where
  "take_ids slug 0 q = []"
| "take_ids slug (Suc n) q = (case takeToolUseId slug ''fresh'' q of (i, q') \<Rightarrow> i # take_ids slug n q')"

lemma take_ids_queue:
  "mget q (''a2a_'' @ slug) = Some ids \<Longrightarrow> [] \<notin> set ids \<Longrightarrow> n \<le> length ids \<Longrightarrow> take_ids slug n q = take n ids"
proof (induction n arbitrary: q ids)
  case (Suc n)
  then obtain i js where ids: "ids = i # js" by (cases ids) auto
  with Suc.prems have "takeToolUseId slug ''fresh'' q = (i, mput (''a2a_'' @ slug) js q)"
    by (auto simp: takeToolUseId_def)
  with Suc ids show ?case by (simp add: update_conv')
qed simp

text \<open>
  Each call of a sub-agent is tied to its own announcement: when the SDK has announced tool
  uses for several agents in any interleaving, the calls of one agent take the ids announced for
  that agent, in order, and never one of another agent.
\<close>

theorem calls_paired_in_order:
  assumes "slug \<in> set slugs" and "[] \<notin> set (announced events slug)" and "n \<le> length (announced events slug)"
  shows "take_ids slug n (foldl (\<lambda>q (s, i). enqueueToolUseId (''mcp__system__a2a_'' @ s) i q) (buildQueues slugs) events) =
    take n (announced events slug)"
proof (rule take_ids_queue)
  show "mget (foldl (\<lambda>q (s, i). enqueueToolUseId (''mcp__system__a2a_'' @ s) i q) (buildQueues slugs) events) (''a2a_'' @ slug) =
      Some (announced events slug)"
    unfolding enqueue_all buildQueues_mget using assms(1) by simp
qed (use assms(2,3) in auto)

theorem calls_paired_in_order_witness:
  "take_ids ''b'' 2 (foldl (\<lambda>q (s, i). enqueueToolUseId (''mcp__system__a2a_'' @ s) i q) (buildQueues [''a'', ''b''])
     [(''b'', ''t1''), (''a'', ''t2''), (''b'', ''t3'')]) = [''t1'', ''t3'']"
proof -
  let ?es = "[(''b'', ''t1''), (''a'', ''t2''), (''b'', ''t3'')]"
  have a: "announced ?es ''b'' = [''t1'', ''t3'']" by code_simp
  have "''b'' \<in> set [''a'', ''b'']" "[] \<notin> set (announced ?es ''b'')" "2 \<le> length (announced ?es ''b'')"
    unfolding a by simp_all
  from calls_paired_in_order [OF this] show ?thesis unfolding a by simp
qed

end
