(* ===== verification/WebClient.thy ===== *)
theory WebClient
  imports Routes Accumulator
begin

text \<open>
  The web client's access to the workspace: the HTTP client and its errors
  (\<open>web/src/lib/http\<close>), the requests of the workspace (\<open>features/workspace/lib/workspace-api.ts\<close>),
  the display of paths (\<open>paths.ts\<close>) and the choice of viewer, icon and language
  (\<open>file-icons.ts\<close>). \<open>fetch\<close> is the browser's: a call is its request, and the reply is an
  argument.
\<close>

section \<open>The HTTP client\<close>

datatype error_class = PlainApiError | UnauthorizedError | NotFoundError | NetworkError

record ApiError =
  ae_class :: error_class
  ae_status :: nat
  ae_message :: string
  ae_detail :: "json option"

record WorkspaceApiError =
  we_status :: nat
  we_code :: "string option"
  we_message :: string
  we_currentMtime :: "rat option"
  we_currentSize :: "rat option"

text \<open>What a call may reject with; \<open>JsError\<close> is an error that the language throws, with its message.\<close>

datatype web_error = Api ApiError | Workspace WorkspaceApiError | JsError string

fun error_message :: "web_error \<Rightarrow> string" where
  "error_message (Api e) = ae_message e"
| "error_message (Workspace e) = we_message e"
| "error_message (JsError m) = m"

definition newApiError :: "nat \<Rightarrow> string \<Rightarrow> json option \<Rightarrow> ApiError" where
  "newApiError status msg detail =
     \<lparr>ae_class = PlainApiError, ae_status = status, ae_message = msg, ae_detail = detail\<rparr>"

definition newUnauthorizedError :: ApiError where
  "newUnauthorizedError =
     \<lparr>ae_class = UnauthorizedError, ae_status = 401, ae_message = ''Unauthorized'', ae_detail = None\<rparr>"

definition newNotFoundError :: "string \<Rightarrow> ApiError" where
  "newNotFoundError msg = \<lparr>ae_class = NotFoundError, ae_status = 404, ae_message = msg, ae_detail = None\<rparr>"

definition newNetworkError :: "string \<Rightarrow> ApiError" where
  "newNetworkError msg = \<lparr>ae_class = NetworkError, ae_status = 0, ae_message = msg, ae_detail = None\<rparr>"

definition extractErrorMessage :: "web_error option \<Rightarrow> string" where
  "extractErrorMessage err = (case err of Some e \<Rightarrow> error_message e | None \<Rightarrow> ''Unknown error'')"

text \<open>
  A reply: none (with the message of the error, if it was one), or the status, its text and the
  body, read as JSON for the errors and at the type the caller declares for the result.
\<close>

datatype 'a reply = NoReply "string option" | Reply nat string "json option" "'a option"

text \<open>\<open>String(v)\<close> of a value that is not a string is \<open>to_str\<close>.\<close>

definition js_string :: "(json \<Rightarrow> string) \<Rightarrow> json \<Rightarrow> string" where
  "js_string to_str v = (case v of JStr s \<Rightarrow> s | _ \<Rightarrow> to_str v)"

text \<open>\<open>body.detail || d\<close> as a message: a body that is null throws.\<close>

definition detail_or :: "(json \<Rightarrow> string) \<Rightarrow> string \<Rightarrow> json \<Rightarrow> web_error + string" where
  "detail_or to_str d body =
     (if body = JNull then Inl (JsError ''Cannot read properties of null'')
      else Inr (case jget body ''detail'' of
                  Some v \<Rightarrow> if jtruthy (Some v) then js_string to_str v else d
                | None \<Rightarrow> d))"

definition apiFetch :: "(json \<Rightarrow> string) \<Rightarrow> 'a reply \<Rightarrow> web_error + 'a option" where
  "apiFetch to_str r =
     (case r of
        NoReply m \<Rightarrow> Inl (Api (newNetworkError (str_or ''Network failed'' m)))
      | Reply status statusText err_body result \<Rightarrow>
          if status = 401 then Inl (Api newUnauthorizedError)
          else if status = 404 then
            (case detail_or to_str ''Not found'' (case err_body of Some b \<Rightarrow> b | None \<Rightarrow> JObj []) of
               Inl e \<Rightarrow> Inl e
             | Inr msg \<Rightarrow> Inl (Api (newNotFoundError msg)))
          else if \<not> (200 \<le> status \<and> status < 300) then
            (let body = (case err_body of Some b \<Rightarrow> b | None \<Rightarrow> JObj [(''detail'', JStr statusText)])
             in case detail_or to_str ''API error'' body of
                  Inl e \<Rightarrow> Inl e
                | Inr msg \<Rightarrow> Inl (Api (newApiError status msg (Some body))))
          else if status = 204 then Inr None
          else (case result of
                  Some x \<Rightarrow> Inr (Some x)
                | None \<Rightarrow> Inl (JsError ''Unexpected token in JSON'')))"

datatype http_method = GET | POST | PUT | PATCH | DELETE

record 'b http_request =
  rq_method :: http_method
  rq_url :: string
  rq_body :: "'b option"

text \<open>\<open>doFetch\<close> prefixes every path; the body of the \<open>http\<close> methods is a non-null object or absent.\<close>

definition http_call :: "http_method \<Rightarrow> string \<Rightarrow> 'b option \<Rightarrow> 'b http_request" where
  "http_call m path body = \<lparr>rq_method = m, rq_url = ''/api'' @ path, rq_body = body\<rparr>"

section \<open>Requests of the workspace\<close>

text \<open>\<open>application/x-www-form-urlencoded\<close>, as \<open>URLSearchParams.toString\<close> writes it.\<close>

definition form_unreserved :: "nat \<Rightarrow> bool" where
  "form_unreserved n \<longleftrightarrow> (48 \<le> n \<and> n < 58) \<or> (65 \<le> n \<and> n < 91) \<or> (97 \<le> n \<and> n < 123)
     \<or> n \<in> {42, 45, 46, 95}"

definition form_encode :: "string \<Rightarrow> string" where
  "form_encode s = concat (map (\<lambda>b. let n = unat b in
     if n = 32 then [CHR ''+'']
     else if form_unreserved n then [char_of n]
     else [CHR ''%'', hex_char (n div 16), hex_char (n mod 16)]) (utf8_encode (text_of s)))"

definition search_params :: "(string \<times> string) list \<Rightarrow> string" where
  "search_params ps = join ''&'' (map (\<lambda>(k, v). form_encode k @ ''='' @ form_encode v) ps)"

text \<open>The type of a JSON number field of the error body.\<close>

fun jnum :: "json option \<Rightarrow> rat option" where
  "jnum (Some (JNum n)) = Some n"
| "jnum _ = None"

text \<open>\<open>x ?? y\<close>: null and undefined give way.\<close>

fun present :: "json option \<Rightarrow> json option" where
  "present (Some JNull) = None"
| "present v = v"

definition asWorkspaceError :: "(json \<Rightarrow> string) \<Rightarrow> web_error \<Rightarrow> WorkspaceApiError option" where
  "asWorkspaceError to_str err =
     (case err of
        Api e \<Rightarrow>
          let field = (\<lambda>k. case ae_detail e of None \<Rightarrow> None | Some d \<Rightarrow> jget d k);
              message = (case present (field ''error'') of
                           Some v \<Rightarrow> js_string to_str v
                         | None \<Rightarrow> (case present (field ''detail'') of
                             Some v \<Rightarrow> js_string to_str v
                           | None \<Rightarrow> ae_message e))
          in Some \<lparr>we_status = ae_status e,
                   we_code = map_option (js_string to_str) (present (field ''code'')),
                   we_message = message,
                   we_currentMtime = jnum (field ''current_mtime''),
                   we_currentSize = jnum (field ''current_size'')\<rparr>
      | _ \<Rightarrow> None)"

text \<open>\<open>run\<close>: an API error is rethrown as a workspace error, any other as it is.\<close>

definition run_op :: "(json \<Rightarrow> string) \<Rightarrow> 'a reply \<Rightarrow> web_error + 'a option" where
  "run_op to_str r =
     (case apiFetch to_str r of
        Inr x \<Rightarrow> Inr x
      | Inl err \<Rightarrow> (case asWorkspaceError to_str err of
          Some wrapped \<Rightarrow> Inl (Workspace wrapped)
        | None \<Rightarrow> Inl err))"

definition ws_url :: "string \<Rightarrow> string \<Rightarrow> string" where
  "ws_url sid what = ''/sessions/'' @ sid @ ''/workspace/'' @ what"

definition getTree :: "string \<Rightarrow> string \<Rightarrow> bool \<Rightarrow> unit http_request" where
  "getTree sid rel includeHidden =
     http_call GET (ws_url sid ''tree?'' @ search_params
       [(''path'', rel), (''include_hidden'', if includeHidden then ''true'' else ''false'')]) None"

definition getFile :: "string \<Rightarrow> string \<Rightarrow> unit http_request" where
  "getFile sid rel = http_call GET (ws_url sid ''file?'' @ search_params [(''path'', rel)]) None"

definition stat_file :: "string \<Rightarrow> string \<Rightarrow> unit http_request" where
  "stat_file sid rel = http_call GET (ws_url sid ''stat?'' @ search_params [(''path'', rel)]) None"

record SaveFileArgs =
  sa_content :: text16
  sa_encoding :: "encoding option"
  sa_expectedMtime :: "rat option"
  sa_overwrite :: "bool option"

record save_body =
  sb_path :: string
  sb_content :: text16
  sb_encoding :: encoding
  sb_overwrite :: bool
  sb_expected_mtime :: "rat option"

definition saveFile :: "string \<Rightarrow> string \<Rightarrow> SaveFileArgs \<Rightarrow> save_body http_request" where
  "saveFile sid rel args =
     http_call PUT (ws_url sid ''file'')
       (Some \<lparr>sb_path = rel, sb_content = sa_content args,
              sb_encoding = (case sa_encoding args of Some e \<Rightarrow> e | None \<Rightarrow> Utf8),
              sb_overwrite = (sa_overwrite args = Some True),
              sb_expected_mtime = sa_expectedMtime args\<rparr>)"

definition createDir :: "string \<Rightarrow> string \<Rightarrow> json http_request" where
  "createDir sid rel = http_call POST (ws_url sid ''dir'') (Some (JObj [(''path'', JStr rel)]))"

definition delete_entry :: "string \<Rightarrow> string \<Rightarrow> bool \<Rightarrow> json http_request" where
  "delete_entry sid rel recursive =
     http_call DELETE (ws_url sid ''entry'') (Some (JObj [(''path'', JStr rel), (''recursive'', JBool recursive)]))"

definition move_entry :: "string \<Rightarrow> string \<Rightarrow> string \<Rightarrow> json http_request" where
  "move_entry sid from to =
     http_call POST (ws_url sid ''move'') (Some (JObj [(''from'', JStr from), (''to'', JStr to)]))"

definition MAX_UPLOAD_BYTES :: nat where
  "MAX_UPLOAD_BYTES = 10 * 1024 * 1024"

text \<open>A browser \<open>File\<close> is its bytes.\<close>

definition uploadFile :: "string \<Rightarrow> string \<Rightarrow> octet list \<Rightarrow> bool \<Rightarrow> web_error + save_body http_request" where
  "uploadFile sid rel bytes overwrite =
     (if length bytes > MAX_UPLOAD_BYTES then
        Inl (Workspace \<lparr>we_status = 413, we_code = Some ''too_large'',
               we_message = ''File exceeds '' @ nat_string (MAX_UPLOAD_BYTES div (1024 * 1024)) @ '' MB upload limit'',
               we_currentMtime = None, we_currentSize = None\<rparr>)
      else Inr (saveFile sid rel
             \<lparr>sa_content = text_of (toBase64 bytes), sa_encoding = Some Base64,
              sa_expectedMtime = None, sa_overwrite = Some overwrite\<rparr>))"

definition downloadFileUrl :: "string \<Rightarrow> string \<Rightarrow> bool \<Rightarrow> string" where
  "downloadFileUrl sid rel inline =
     ''/api'' @ ws_url sid ''download?'' @ search_params
       ((''path'', rel) # (if inline then [(''inline'', ''true'')] else []))"

section \<open>Paths and file types\<close>

definition joinPath :: "string \<Rightarrow> string \<Rightarrow> string" where
  "joinPath parent name = (if parent = ''/'' then CHR ''/'' # name else parent @ CHR ''/'' # name)"

definition trim_slashes :: "string \<Rightarrow> string" where
  "trim_slashes s = rev (dropWhile (\<lambda>c. c = CHR ''/'') (rev s))"

definition parentOf :: "string \<Rightarrow> string" where
  "parentOf p =
     (if p = ''/'' \<or> CHR ''/'' \<notin> set p then ''/''
      else case last_index_of (CHR ''/'') (trim_slashes p) of
             None \<Rightarrow> ''/''
           | Some idx \<Rightarrow> if idx = 0 then ''/'' else take idx (trim_slashes p))"

definition basename_of :: "string \<Rightarrow> string" where
  "basename_of p = (case last_index_of (CHR ''/'') p of None \<Rightarrow> p | Some i \<Rightarrow> drop (Suc i) p)"

definition sandboxPath :: "string \<Rightarrow> string" where
  "sandboxPath p =
     (if p = ''/'' then ''/workspace''
      else ''/workspace'' @ (if starts_with p ''/'' then [] else ''/'') @ p)"

definition CODE_EXT :: "string list" where
  "CODE_EXT = [''ts'', ''tsx'', ''js'', ''jsx'', ''mjs'', ''cjs'', ''py'', ''pyi'', ''go'', ''rs'', ''c'', ''cc'',
     ''cpp'', ''h'', ''hpp'', ''java'', ''kt'', ''scala'', ''rb'', ''php'', ''swift'', ''dart'', ''sh'', ''bash'',
     ''zsh'', ''fish'', ''sql'', ''ps1'', ''vue'', ''svelte'', ''css'', ''scss'', ''sass'', ''less'', ''html'',
     ''htm'', ''xml'', ''yaml'', ''yml'', ''toml'', ''ini'', ''conf'', ''dockerfile'']"

definition IMAGE_EXT :: "string list" where
  "IMAGE_EXT = [''png'', ''jpg'', ''jpeg'', ''gif'', ''svg'', ''webp'', ''ico'', ''bmp'']"

datatype BinaryViewer = PdfViewer | ImageViewer

definition binaryViewerFor :: "string \<Rightarrow> BinaryViewer option" where
  "binaryViewerFor p =
     (case last_index_of (CHR ''.'') p of
        None \<Rightarrow> None
      | Some dot \<Rightarrow>
          let ext = to_lower (drop (Suc dot) p)
          in if ext = ''pdf'' then Some PdfViewer
             else if ext \<in> set IMAGE_EXT then Some ImageViewer
             else None)"

datatype file_icon = FileJson | FileImage | FileCode | FileText | FileIcon

definition fileIconFor :: "string \<Rightarrow> file_icon" where
  "fileIconFor name =
     (let lower = to_lower name;
          ext = (case last_index_of (CHR ''.'') lower of None \<Rightarrow> [] | Some dot \<Rightarrow> drop (Suc dot) lower)
      in if ext = ''json'' then FileJson
         else if ext \<in> set IMAGE_EXT then FileImage
         else if ext \<in> set CODE_EXT then FileCode
         else if ext \<in> {''md'', ''markdown'', ''txt'', ''log''} then FileText
         else FileIcon)"

definition LANGUAGE_BY_EXT :: "(string \<times> string) list" where
  "LANGUAGE_BY_EXT =
    [(''ts'', ''typescript''), (''tsx'', ''typescript''), (''js'', ''javascript''), (''jsx'', ''javascript''),
     (''mjs'', ''javascript''), (''cjs'', ''javascript''), (''py'', ''python''), (''go'', ''go''), (''rs'', ''rust''),
     (''java'', ''java''), (''kt'', ''kotlin''), (''rb'', ''ruby''), (''php'', ''php''), (''swift'', ''swift''),
     (''c'', ''c''), (''cc'', ''cpp''), (''cpp'', ''cpp''), (''h'', ''cpp''), (''hpp'', ''cpp''), (''cs'', ''csharp''),
     (''sh'', ''shell''), (''bash'', ''shell''), (''zsh'', ''shell''), (''sql'', ''sql''), (''json'', ''json''),
     (''yaml'', ''yaml''), (''yml'', ''yaml''), (''toml'', ''ini''), (''ini'', ''ini''), (''md'', ''markdown''),
     (''markdown'', ''markdown''), (''html'', ''html''), (''htm'', ''html''), (''xml'', ''xml''), (''css'', ''css''),
     (''scss'', ''scss''), (''less'', ''less''), (''vue'', ''html''), (''svelte'', ''html''),
     (''dockerfile'', ''dockerfile'')]"

text \<open>
  The table is a plain object, so a name that \<open>Object.prototype\<close> defines is found there: the
  result then is an inherited value and not a string (\<open>None\<close>).
\<close>

definition inherited_keys :: "string list" where
  "inherited_keys = [''constructor'', ''__proto__'']"

definition monacoLanguageFor :: "string \<Rightarrow> string option" where
  "monacoLanguageFor name =
     (let lower = to_lower name
      in if lower = ''dockerfile'' then Some ''dockerfile''
         else case last_index_of (CHR ''.'') lower of
                None \<Rightarrow> Some ''plaintext''
              | Some dot \<Rightarrow>
                  let ext = drop (Suc dot) lower
                  in if ext \<in> set inherited_keys then None
                     else Some (str_or ''plaintext'' (map_of LANGUAGE_BY_EXT ext)))"

section \<open>Errors across the wire\<close>

text \<open>The body that \<open>handleWorkspaceError\<close> sends.\<close>

fun code_name :: "WorkspaceErrorCode \<Rightarrow> string" where
  "code_name invalid_path = ''invalid_path''"
| "code_name not_found = ''not_found''"
| "code_name not_a_directory = ''not_a_directory''"
| "code_name not_a_file = ''not_a_file''"
| "code_name too_large = ''too_large''"
| "code_name stale = ''stale''"
| "code_name exists = ''exists''"
| "code_name not_empty = ''not_empty''"

definition num_or_null :: "nat option \<Rightarrow> json" where
  "num_or_null x = (case x of None \<Rightarrow> JNull | Some n \<Rightarrow> JNum (of_nat n))"

fun error_payload :: "fault \<Rightarrow> json" where
  "error_payload (WorkspaceError code msg meta) =
     JObj ([(''error'', JStr msg), (''code'', JStr (code_name code))] @
       (case meta of None \<Rightarrow> []
        | Some (m, s) \<Rightarrow> [(''current_mtime'', num_or_null m), (''current_size'', num_or_null s)]))"
| "error_payload (FsError _) = JObj [(''error'', JStr ''internal error'')]"

text \<open>The reply of a workspace call that failed with \<open>e\<close>; the API relays status and body.\<close>

definition error_reply :: "fault \<Rightarrow> 'a reply" where
  "error_reply e = Reply (fst (handleWorkspaceError e)) [] (Some (error_payload e)) None"

definition meta_field :: "(nat option \<times> nat option \<Rightarrow> nat option) \<Rightarrow> error_meta \<Rightarrow> rat option" where
  "meta_field get meta = (case meta of None \<Rightarrow> None | Some m \<Rightarrow> map_option of_nat (get m))"

text \<open>
  C30. The web client sees the error that the runtime threw: its status, its code, its message and
  the current modification time and size, for every workspace error but one. A missing file is
  turned into a bare \<open>NotFoundError\<close>, which drops the code and the message. An error of the file
  system arrives as status 500 without a code.
\<close>

theorem workspace_errors_recovered:
  "run_op to_str (error_reply (WorkspaceError code msg meta)) = Inl (Workspace
     (if code = not_found
      then \<lparr>we_status = 404, we_code = None, we_message = ''Not found'', we_currentMtime = None, we_currentSize = None\<rparr>
      else \<lparr>we_status = status_of code, we_code = Some (code_name code), we_message = msg,
             we_currentMtime = meta_field fst meta, we_currentSize = meta_field snd meta\<rparr>)) \<and>
   run_op to_str (error_reply (FsError e)) = Inl (Workspace
     \<lparr>we_status = 500, we_code = None, we_message = ''internal error'', we_currentMtime = None, we_currentSize = None\<rparr>)"
proof
  have num: "jnum (Some (num_or_null x)) = map_option of_nat x" for x
    by (cases x) (simp_all add: num_or_null_def)
  show "run_op to_str (error_reply (WorkspaceError code msg meta)) = Inl (Workspace
     (if code = not_found
      then \<lparr>we_status = 404, we_code = None, we_message = ''Not found'', we_currentMtime = None, we_currentSize = None\<rparr>
      else \<lparr>we_status = status_of code, we_code = Some (code_name code), we_message = msg,
             we_currentMtime = meta_field fst meta, we_currentSize = meta_field snd meta\<rparr>))"
    by (cases code; cases meta)
      (auto simp: error_reply_def run_op_def apiFetch_def detail_or_def asWorkspaceError_def newNotFoundError_def
        newApiError_def js_string_def meta_field_def num Let_def)
  show "run_op to_str (error_reply (FsError e)) = Inl (Workspace
     \<lparr>we_status = 500, we_code = None, we_message = ''internal error'', we_currentMtime = None, we_currentSize = None\<rparr>)"
    by (simp add: error_reply_def run_op_def apiFetch_def detail_or_def asWorkspaceError_def newApiError_def
        js_string_def)
qed

end
