(* ===== verification/Editor.thy ===== *)
theory Editor
  imports WebClient
begin

text \<open>
  The editor of the workspace panel (\<open>features/workspace/hooks/use-workspace-editor.ts\<close>): rows of
  panes of tabs. An operation is a function of the state; an updater given to \<open>setRows\<close> runs on
  the state as it is when it is applied, and what a callback closes over (\<open>rows\<close> and
  \<open>activePaneId\<close> of the render that made it) is an argument named \<open>seen\<close>. A load or a save has two
  halves: the call, which gives the request that is awaited, and the continuation, which gets
  the answer in a later state.
\<close>

section \<open>State\<close>

record EditorTab =
  tab_path :: string
  tab_loading :: bool
  tab_error :: "string option"
  tab_savedContent :: "text16 option"
  tab_savedMtime :: "nat option"
  tab_draft :: "text16 option"
  tab_isBinary :: bool
  tab_size :: nat
  tab_pinned :: bool

record EditorPane =
  pane_id :: string
  pane_tabs :: "EditorTab list"
  pane_active :: "string option"

record EditorRow =
  row_id :: string
  row_panes :: "EditorPane list"

datatype SplitDirection = Horizontal | Vertical

datatype SaveResult =
    Saved
  | Conflict "rat option" "rat option" string
  | SaveError string
  | Noop

datatype SplitResult = SplitOk | MaxCols | MaxRows

definition MAX_COLS :: nat where "MAX_COLS = 3"
definition MAX_ROWS :: nat where "MAX_ROWS = 2"

text \<open>
  \<open>globalIdCounter\<close> belongs to the module; \<open>generationsRef\<close> is keyed by pane and path. The key is
  the string \<open>pane::path\<close>, and no pane id holds a colon, so the pair determines it.
\<close>

record editor =
  ed_rows :: "EditorRow list"
  ed_active :: string
  ed_generations :: "(string \<times> string, nat) jmap"
  ed_counter :: nat

definition emptyTab :: "string \<Rightarrow> bool \<Rightarrow> EditorTab" where
  "emptyTab p pinned = \<lparr>tab_path = p, tab_loading = True, tab_error = None, tab_savedContent = None,
     tab_savedMtime = None, tab_draft = None, tab_isBinary = False, tab_size = 0, tab_pinned = pinned\<rparr>"

text \<open>\<open>genId\<close>: the prefix, the clock in base 36 (an argument) and the counter.\<close>

definition genId :: "string \<Rightarrow> string \<Rightarrow> nat \<Rightarrow> string" where
  "genId pre clock n = pre @ ''_'' @ clock @ ''_'' @ nat_string n"

definition initial_rows :: "EditorRow list" where
  "initial_rows = [\<lparr>row_id = ''row_root'',
     row_panes = [\<lparr>pane_id = ''pane_root'', pane_tabs = [], pane_active = None\<rparr>]\<rparr>]"

definition initialState :: "nat \<Rightarrow> editor" where
  "initialState n = \<lparr>ed_rows = initial_rows, ed_active = ''pane_root'', ed_generations = [], ed_counter = n\<rparr>"

section \<open>Lookups\<close>

text \<open>\<open>findIndex\<close>.\<close>

fun find_index :: "('a \<Rightarrow> bool) \<Rightarrow> 'a list \<Rightarrow> nat option" where
  "find_index P [] = None"
| "find_index P (x # xs) = (if P x then Some 0 else map_option Suc (find_index P xs))"

definition has_id :: "string \<Rightarrow> EditorPane \<Rightarrow> bool" where
  "has_id pid p \<longleftrightarrow> pane_id p = pid"

definition has_path :: "string \<Rightarrow> EditorTab \<Rightarrow> bool" where
  "has_path path t \<longleftrightarrow> tab_path t = path"

text \<open>The row index, the pane index and the pane.\<close>

fun findPaneIn :: "EditorRow list \<Rightarrow> string \<Rightarrow> (nat \<times> nat \<times> EditorPane) option" where
  "findPaneIn [] pid = None"
| "findPaneIn (r # rs) pid =
     (case find_index (has_id pid) (row_panes r) of
        Some k \<Rightarrow> Some (0, k, row_panes r ! k)
      | None \<Rightarrow> map_option (\<lambda>(ri, k, p). (Suc ri, k, p)) (findPaneIn rs pid))"

definition allPanes :: "EditorRow list \<Rightarrow> EditorPane list" where
  "allPanes rows = concat (map row_panes rows)"

definition findTabPane :: "EditorRow list \<Rightarrow> string \<Rightarrow> EditorPane option" where
  "findTabPane rows path = find (\<lambda>p. list_ex (has_path path) (pane_tabs p)) (allPanes rows)"

definition nextActiveAfterRemoval :: "EditorTab list \<Rightarrow> nat \<Rightarrow> string option" where
  "nextActiveAfterRemoval tabs removedIdx =
     (if length tabs \<le> 1 then None
      else if removedIdx < length tabs - 1 then Some (tab_path (tabs ! (removedIdx + 1)))
      else if removedIdx = 0 then None
      else if removedIdx - 1 < length tabs then Some (tab_path (tabs ! (removedIdx - 1)))
      else None)"

text \<open>\<open>rows.map(row => ({ ...row, panes: row.panes.map(f) }))\<close>.\<close>

definition map_panes :: "(EditorPane \<Rightarrow> EditorPane) \<Rightarrow> EditorRow list \<Rightarrow> EditorRow list" where
  "map_panes f rows = map (\<lambda>r. r\<lparr>row_panes := map f (row_panes r)\<rparr>) rows"

text \<open>\<open>p => p.id !== paneId ? p : f(p)\<close>.\<close>

definition on_pane :: "string \<Rightarrow> (EditorPane \<Rightarrow> EditorPane) \<Rightarrow> EditorPane \<Rightarrow> EditorPane" where
  "on_pane pid f p = (if has_id pid p then f p else p)"

definition set_pane :: "EditorTab list \<Rightarrow> string option \<Rightarrow> EditorPane \<Rightarrow> EditorPane" where
  "set_pane tabs active p = p\<lparr>pane_tabs := tabs, pane_active := active\<rparr>"

definition dropPane :: "EditorRow list \<Rightarrow> string \<Rightarrow> EditorRow list" where
  "dropPane rows pid =
     (let next = filter (\<lambda>r. row_panes r \<noteq> [])
                   (map (\<lambda>r. r\<lparr>row_panes := filter (\<lambda>p. \<not> has_id pid p) (row_panes r)\<rparr>) rows)
      in if next = [] then initial_rows else next)"

text \<open>\<open>allPanes(rows)[0].id\<close>; every caller passes rows that hold a pane.\<close>

definition chooseFallbackPane :: "EditorRow list \<Rightarrow> string" where
  "chooseFallbackPane rows = pane_id (hd (allPanes rows))"

section \<open>Loading\<close>

text \<open>\<open>patchTab\<close> with the patch as a function on the tab.\<close>

definition patchTab :: "string \<Rightarrow> string \<Rightarrow> (EditorTab \<Rightarrow> EditorTab) \<Rightarrow> editor \<Rightarrow> editor" where
  "patchTab pid path patch ed = ed\<lparr>ed_rows :=
     map_panes (on_pane pid (\<lambda>p. p\<lparr>pane_tabs := map (\<lambda>t. if has_path path t then patch t else t) (pane_tabs p)\<rparr>))
       (ed_rows ed)\<rparr>"

definition applyFileContents :: "string \<Rightarrow> string \<Rightarrow> FileContents \<Rightarrow> editor \<Rightarrow> editor" where
  "applyFileContents pid path file =
     patchTab pid path (\<lambda>t. t\<lparr>tab_loading := False, tab_error := None,
       tab_savedContent := Some (contents_content file), tab_savedMtime := Some (contents_mtime file),
       tab_draft := None, tab_isBinary := contents_isBinary file, tab_size := contents_size file\<rparr>)"

definition applyFileStat :: "string \<Rightarrow> string \<Rightarrow> FileStat \<Rightarrow> editor \<Rightarrow> editor" where
  "applyFileStat pid path st =
     patchTab pid path (\<lambda>t. t\<lparr>tab_loading := False, tab_error := None,
       tab_savedContent := Some [], tab_savedMtime := Some (stat_mtime st),
       tab_draft := None, tab_isBinary := True, tab_size := stat_size st\<rparr>)"

text \<open>A load that is awaited: its session, its pane and path, its generation, and what was asked.\<close>

record load_call =
  lc_session :: string
  lc_pane :: string
  lc_path :: string
  lc_gen :: nat
  lc_viewerOnly :: bool

datatype load_answer = GotContents FileContents | GotStat FileStat

definition nextGeneration :: "string \<times> string \<Rightarrow> editor \<Rightarrow> nat \<times> editor" where
  "nextGeneration key ed =
     (let g = (case mget (ed_generations ed) key of Some n \<Rightarrow> n | None \<Rightarrow> 0) + 1
      in (g, ed\<lparr>ed_generations := mput key g (ed_generations ed)\<rparr>))"

definition loadFile :: "string \<Rightarrow> string \<Rightarrow> string \<Rightarrow> editor \<Rightarrow> load_call \<times> editor" where
  "loadFile session pid path ed =
     (let (gen, ed1) = nextGeneration (pid, path) ed
      in (\<lparr>lc_session = session, lc_pane = pid, lc_path = path, lc_gen = gen,
           lc_viewerOnly = (binaryViewerFor path \<noteq> None)\<rparr>,
          patchTab pid path (\<lambda>t. t\<lparr>tab_loading := True, tab_error := None\<rparr>) ed1))"

text \<open>The continuation of a load, when the answer or an error comes back.\<close>

definition loadFile_done :: "load_call \<Rightarrow> string + load_answer \<Rightarrow> editor \<Rightarrow> editor" where
  "loadFile_done c ans ed =
     (if mget (ed_generations ed) (lc_pane c, lc_path c) \<noteq> Some (lc_gen c) then ed
      else case ans of
        Inl message \<Rightarrow> patchTab (lc_pane c) (lc_path c) (\<lambda>t. t\<lparr>tab_loading := False, tab_error := Some message\<rparr>) ed
      | Inr (GotStat st) \<Rightarrow> applyFileStat (lc_pane c) (lc_path c) st ed
      | Inr (GotContents file) \<Rightarrow> applyFileContents (lc_pane c) (lc_path c) file ed)"

section \<open>Operations on tabs\<close>

definition focusPane :: "string \<Rightarrow> editor \<Rightarrow> editor" where
  "focusPane pid ed = ed\<lparr>ed_active := pid\<rparr>"

text \<open>What \<open>openFile\<close> does to the pane it targets: activate, replace the preview tab, or append.\<close>

definition open_in_pane :: "string \<Rightarrow> bool \<Rightarrow> EditorPane \<Rightarrow> EditorPane" where
  "open_in_pane path pin pane =
     (case find (has_path path) (pane_tabs pane) of
        Some existingTab \<Rightarrow>
          pane\<lparr>pane_tabs := (if pin \<and> \<not> tab_pinned existingTab
                 then map (\<lambda>t. if has_path path t then t\<lparr>tab_pinned := True\<rparr> else t) (pane_tabs pane)
                 else pane_tabs pane),
               pane_active := Some path\<rparr>
      | None \<Rightarrow>
          (case (if pin then None else find_index (\<lambda>t. \<not> tab_pinned t) (pane_tabs pane)) of
             Some previewIdx \<Rightarrow>
               pane\<lparr>pane_tabs := (pane_tabs pane)[previewIdx := emptyTab path pin], pane_active := Some path\<rparr>
           | None \<Rightarrow>
               pane\<lparr>pane_tabs := pane_tabs pane @ [emptyTab path pin], pane_active := Some path\<rparr>))"

text \<open>The path whose generation is forgotten when its preview tab is replaced.\<close>

definition replaced_preview :: "string \<Rightarrow> bool \<Rightarrow> EditorPane \<Rightarrow> string option" where
  "replaced_preview path pin pane =
     (if pin \<or> list_ex (has_path path) (pane_tabs pane) then None
      else map_option (\<lambda>i. tab_path (pane_tabs pane ! i)) (find_index (\<lambda>t. \<not> tab_pinned t) (pane_tabs pane)))"

definition openFile ::
  "string \<Rightarrow> EditorRow list \<times> string \<Rightarrow> string \<Rightarrow> bool \<Rightarrow> string option \<Rightarrow> editor \<Rightarrow> load_call option \<times> editor" where
  "openFile session seen path pin target ed =
     (let existing = findTabPane (fst seen) path;
          pid = (case existing of
                   Some p \<Rightarrow> pane_id p
                 | None \<Rightarrow> (case target of Some q \<Rightarrow> q | None \<Rightarrow> snd seen));
          gone = List.map_filter (replaced_preview path pin) (filter (has_id pid) (allPanes (ed_rows ed)));
          ed1 = ed\<lparr>ed_rows := map_panes (on_pane pid (open_in_pane path pin)) (ed_rows ed),
                   ed_active := pid,
                   ed_generations := foldl (\<lambda>m p. mdelete (pid, p) m) (ed_generations ed) gone\<rparr>
      in if existing = None then (let (c, ed2) = loadFile session pid path ed1 in (Some c, ed2))
         else (None, ed1))"

definition pinTab :: "string \<Rightarrow> string \<Rightarrow> editor \<Rightarrow> editor" where
  "pinTab pid path = patchTab pid path (\<lambda>t. t\<lparr>tab_pinned := True\<rparr>)"

text \<open>The tail of \<open>closeTab\<close> and \<open>closePaths\<close>: an empty pane is dropped, with the focus if it had it.\<close>

definition after_close ::
  "string \<Rightarrow> string \<Rightarrow> EditorTab list \<Rightarrow> string option \<Rightarrow> editor \<Rightarrow> editor" where
  "after_close seen_active pid remaining nextActive ed =
     (if remaining = [] then
        (let next = dropPane (ed_rows ed) pid
         in ed\<lparr>ed_rows := next,
               ed_active := (if seen_active = pid then chooseFallbackPane next else ed_active ed)\<rparr>)
      else ed\<lparr>ed_rows := map_panes (on_pane pid (set_pane remaining nextActive)) (ed_rows ed)\<rparr>)"

definition closeTab :: "string \<Rightarrow> string \<Rightarrow> string \<Rightarrow> editor \<Rightarrow> editor" where
  "closeTab seen_active pid path ed =
     (case findPaneIn (ed_rows ed) pid of
        None \<Rightarrow> ed
      | Some (_, _, pane) \<Rightarrow>
          (case find_index (has_path path) (pane_tabs pane) of
             None \<Rightarrow> ed
           | Some idx \<Rightarrow>
               after_close seen_active pid
                 (take idx (pane_tabs pane) @ drop (Suc idx) (pane_tabs pane))
                 (if pane_active pane = Some path then nextActiveAfterRemoval (pane_tabs pane) idx
                  else pane_active pane)
                 (ed\<lparr>ed_generations := mdelete (pid, path) (ed_generations ed)\<rparr>)))"

text \<open>The tab that \<open>closePaths\<close> activates: the next survivor, else the previous one.\<close>

definition survivor :: "string list \<Rightarrow> EditorTab list \<Rightarrow> string option \<Rightarrow> string option" where
  "survivor paths tabs active =
     (case active of
        None \<Rightarrow> None
      | Some a \<Rightarrow>
          if a = [] \<or> a \<notin> set paths then active
          else
            let keep = (\<lambda>t. tab_path t \<notin> set paths);
                i = (case find_index (has_path a) tabs of Some k \<Rightarrow> Suc k | None \<Rightarrow> 0);
                before = (case find_index (has_path a) tabs of Some k \<Rightarrow> take k tabs | None \<Rightarrow> butlast tabs)
            in map_option tab_path (case find keep (drop i tabs) of
                 Some t \<Rightarrow> Some t
               | None \<Rightarrow> find keep (rev before)))"

definition closePaths :: "string \<Rightarrow> string \<Rightarrow> string list \<Rightarrow> editor \<Rightarrow> editor" where
  "closePaths seen_active pid paths ed =
     (if paths = [] then ed
      else case findPaneIn (ed_rows ed) pid of
        None \<Rightarrow> ed
      | Some (_, _, pane) \<Rightarrow>
          after_close seen_active pid
            (filter (\<lambda>t. tab_path t \<notin> set paths) (pane_tabs pane))
            (survivor paths (pane_tabs pane) (pane_active pane))
            (ed\<lparr>ed_generations := foldl (\<lambda>m p. mdelete (pid, p) m) (ed_generations ed) paths\<rparr>))"

text \<open>
  \<open>reorderTabs\<close>: \<open>new Map(tabs.map(t => [t.path, t]))\<close>, then the listed paths are taken out in
  order and the rest follows.
\<close>

fun take_paths :: "string list \<Rightarrow> (string, EditorTab) jmap \<Rightarrow> EditorTab list \<times> (string, EditorTab) jmap" where
  "take_paths [] m = ([], m)"
| "take_paths (p # ps) m =
     (case mget m p of
        None \<Rightarrow> take_paths ps m
      | Some t \<Rightarrow> (let (ts, m') = take_paths ps (mdelete p m) in (t # ts, m')))"

definition by_path :: "EditorTab list \<Rightarrow> (string, EditorTab) jmap" where
  "by_path tabs = foldl (\<lambda>m t. mput (tab_path t) t m) [] tabs"

definition reordered :: "string list \<Rightarrow> EditorTab list \<Rightarrow> EditorTab list" where
  "reordered paths tabs = (let (ts, m) = take_paths paths (by_path tabs) in ts @ map snd m)"

definition reorderTabs :: "string \<Rightarrow> string list \<Rightarrow> editor \<Rightarrow> editor" where
  "reorderTabs pid orderedPaths ed = ed\<lparr>ed_rows :=
     map_panes (on_pane pid (\<lambda>p. p\<lparr>pane_tabs := reordered orderedPaths (pane_tabs p)\<rparr>)) (ed_rows ed)\<rparr>"

definition activate :: "string \<Rightarrow> string \<Rightarrow> editor \<Rightarrow> editor" where
  "activate pid path ed =
     ed\<lparr>ed_rows := map_panes (on_pane pid (\<lambda>p. p\<lparr>pane_active := Some path\<rparr>)) (ed_rows ed), ed_active := pid\<rparr>"

definition edit_tab :: "text16 \<Rightarrow> EditorTab \<Rightarrow> EditorTab" where
  "edit_tab value t =
     (let draft = (if tab_savedContent t = Some value then None else Some value)
      in t\<lparr>tab_draft := draft, tab_pinned := tab_pinned t \<or> draft \<noteq> None\<rparr>)"

definition setDraft :: "string \<Rightarrow> string \<Rightarrow> text16 \<Rightarrow> editor \<Rightarrow> editor" where
  "setDraft pid path value = patchTab pid path (edit_tab value)"

section \<open>Saving\<close>

text \<open>
  The call: the tab is looked up in the rows of the render that made the callback. The result is
  the arguments of \<open>saveFile\<close>, or an answer at once.
\<close>

definition save_call ::
  "EditorRow list \<Rightarrow> string \<Rightarrow> string \<Rightarrow> rat option option \<Rightarrow> SaveResult + SaveFileArgs" where
  "save_call seen pid path override =
     (case findPaneIn seen pid of
        None \<Rightarrow> Inl (SaveError ''Pane not found'')
      | Some (_, _, pane) \<Rightarrow>
          (case find (has_path path) (pane_tabs pane) of
             None \<Rightarrow> Inl (SaveError ''Tab not found'')
           | Some tab \<Rightarrow>
               if tab_draft tab = None \<and> override = None then Inl Noop
               else Inr \<lparr>sa_content = (case tab_draft tab of Some d \<Rightarrow> d
                           | None \<Rightarrow> (case tab_savedContent tab of Some s \<Rightarrow> s | None \<Rightarrow> [])),
                         sa_encoding = Some Utf8,
                         sa_expectedMtime = (case override of Some m \<Rightarrow> m
                           | None \<Rightarrow> map_option of_nat (tab_savedMtime tab)),
                         sa_overwrite = Some (override \<noteq> None)\<rparr>))"

text \<open>The continuation, when \<open>saveFile\<close> has answered.\<close>

definition save_done :: "string \<Rightarrow> string \<Rightarrow> web_error + FileContents \<Rightarrow> editor \<Rightarrow> SaveResult \<times> editor" where
  "save_done pid path ans ed =
     (case ans of
        Inr file \<Rightarrow> (Saved, applyFileContents pid path file ed)
      | Inl (Workspace e) \<Rightarrow>
          (if we_status e = 409 \<and> (we_code e = Some ''stale'' \<or> we_code e = Some ''exists'')
           then Conflict (we_currentMtime e) (we_currentSize e) (the (we_code e))
           else SaveError (we_message e), ed)
      | Inl err \<Rightarrow> (SaveError (error_message err), ed))"

section \<open>Renaming, splitting and moving\<close>

definition rename_in_pane :: "string \<Rightarrow> string \<Rightarrow> EditorPane \<Rightarrow> EditorPane" where
  "rename_in_pane oldPath newPath pane =
     (if \<not> list_ex (has_path oldPath) (pane_tabs pane) then pane
      else pane\<lparr>pane_tabs := map (\<lambda>t. if has_path oldPath t then t\<lparr>tab_path := newPath\<rparr> else t) (pane_tabs pane),
                pane_active := (if pane_active pane = Some oldPath then Some newPath else pane_active pane)\<rparr>)"

definition rename_generation ::
  "string \<Rightarrow> string \<Rightarrow> (string \<times> string, nat) jmap \<Rightarrow> EditorPane \<Rightarrow> (string \<times> string, nat) jmap" where
  "rename_generation oldPath newPath m pane =
     (if \<not> list_ex (has_path oldPath) (pane_tabs pane) then m
      else case mget m (pane_id pane, oldPath) of
        None \<Rightarrow> m
      | Some g \<Rightarrow> mdelete (pane_id pane, oldPath) (mput (pane_id pane, newPath) g m))"

definition renameTab :: "string \<Rightarrow> string \<Rightarrow> editor \<Rightarrow> editor" where
  "renameTab oldPath newPath ed = ed\<lparr>
     ed_rows := map_panes (rename_in_pane oldPath newPath) (ed_rows ed),
     ed_generations := foldl (rename_generation oldPath newPath) (ed_generations ed) (allPanes (ed_rows ed))\<rparr>"

text \<open>The tabs and the active path of a pane that a tab leaves.\<close>

definition without_tab :: "string \<Rightarrow> EditorPane \<Rightarrow> EditorTab list \<times> string option" where
  "without_tab path pane =
     (filter (\<lambda>t. \<not> has_path path t) (pane_tabs pane),
      if pane_active pane = Some path
      then nextActiveAfterRemoval (pane_tabs pane)
             (case find_index (has_path path) (pane_tabs pane) of Some i \<Rightarrow> i | None \<Rightarrow> 0)
      else pane_active pane)"

text \<open>\<open>xs.splice(i, 0, x)\<close>.\<close>

definition insert_at :: "nat \<Rightarrow> 'a \<Rightarrow> 'a list \<Rightarrow> 'a list" where
  "insert_at i x xs = take i xs @ x # drop i xs"

text \<open>The clock readings of the two calls of \<open>genId\<close> are arguments.\<close>

definition splitTab ::
  "string \<Rightarrow> string \<Rightarrow> string \<Rightarrow> string \<Rightarrow> SplitDirection \<Rightarrow> editor \<Rightarrow> SplitResult \<times> editor" where
  "splitTab clock clock' fromPid path dir ed =
     (case findPaneIn (ed_rows ed) fromPid of
        None \<Rightarrow> (SplitOk, ed)
      | Some (rowIdx, paneIdx, pane) \<Rightarrow>
          (case find (has_path path) (pane_tabs pane) of
             None \<Rightarrow> (SplitOk, ed)
           | Some tab \<Rightarrow>
               if dir = Horizontal \<and> MAX_COLS \<le> length (row_panes (ed_rows ed ! rowIdx)) then (MaxCols, ed)
               else if dir = Vertical \<and> MAX_ROWS \<le> length (ed_rows ed) then (MaxRows, ed)
               else
                 let sole = (length (pane_tabs pane) = 1);
                     (srcTabs, srcActive) = (if sole then (pane_tabs pane, pane_active pane) else without_tab path pane);
                     n = ed_counter ed;
                     newId = genId ''pane'' clock (n + 1);
                     newPane = \<lparr>pane_id = newId, pane_tabs = [tab], pane_active = Some path\<rparr>;
                     src = map (on_pane fromPid (set_pane srcTabs srcActive));
                     row = ed_rows ed ! rowIdx
                 in (SplitOk,
                     if dir = Horizontal then
                       ed\<lparr>ed_rows := (ed_rows ed)[rowIdx := row\<lparr>row_panes := insert_at (paneIdx + 1) newPane (src (row_panes row))\<rparr>],
                          ed_active := newId, ed_counter := n + 1\<rparr>
                     else
                       ed\<lparr>ed_rows := insert_at (rowIdx + 1) \<lparr>row_id = genId ''row'' clock' (n + 2), row_panes = [newPane]\<rparr>
                            ((ed_rows ed)[rowIdx := row\<lparr>row_panes := src (row_panes row)\<rparr>]),
                          ed_active := newId, ed_counter := n + 2\<rparr>)))"

text \<open>\<open>afterDrop\<close>: the tab is in the target already, so it only leaves the source.\<close>

definition afterDrop :: "EditorRow list \<Rightarrow> string \<Rightarrow> string \<Rightarrow> string \<Rightarrow> EditorRow list" where
  "afterDrop rows fromPid path toPid =
     (case findPaneIn rows fromPid of
        None \<Rightarrow> rows
      | Some (_, _, pane) \<Rightarrow>
          let (srcTabs, srcActive) = without_tab path pane;
              stripped = map_panes (\<lambda>p. if has_id fromPid p then set_pane srcTabs srcActive p
                           else if has_id toPid p then p\<lparr>pane_active := Some path\<rparr> else p) rows
          in if srcTabs = [] then dropPane stripped fromPid else stripped)"

definition moveTab :: "string \<Rightarrow> string \<Rightarrow> string \<Rightarrow> int option \<Rightarrow> editor \<Rightarrow> editor" where
  "moveTab fromPid toPid path toIndex ed =
     (if fromPid = toPid then ed
      else
        (case (findPaneIn (ed_rows ed) fromPid, findPaneIn (ed_rows ed) toPid) of
           (Some (_, _, src), Some (_, _, dst)) \<Rightarrow>
             (case find (has_path path) (pane_tabs src) of
                None \<Rightarrow> ed
              | Some tab \<Rightarrow>
                  if list_ex (has_path path) (pane_tabs dst)
                  then ed\<lparr>ed_rows := afterDrop (ed_rows ed) fromPid path toPid\<rparr>
                  else
                    let (srcTabs, srcActive) = without_tab path src;
                        len = length (pane_tabs dst);
                        insertIdx = (case toIndex of None \<Rightarrow> len | Some i \<Rightarrow> min (nat i) len);
                        dstTabs = insert_at insertIdx tab (pane_tabs dst);
                        gens = mdelete (fromPid, path) (ed_generations ed)
                    in if srcTabs = []
                       then ed\<lparr>ed_rows :=
                              dropPane (map_panes (on_pane toPid (set_pane dstTabs (Some path))) (ed_rows ed)) fromPid,
                              ed_generations := gens\<rparr>
                       else ed\<lparr>ed_rows :=
                              map_panes (\<lambda>p. if has_id fromPid p then set_pane srcTabs srcActive p
                                else if has_id toPid p then set_pane dstTabs (Some path) p else p) (ed_rows ed),
                              ed_generations := gens\<rparr>)
         | _ \<Rightarrow> ed)\<lparr>ed_active := toPid\<rparr>)"

section \<open>Derived values\<close>

definition findTab :: "EditorRow list \<Rightarrow> string \<Rightarrow> string \<Rightarrow> EditorTab option" where
  "findTab rows pid path =
     (case findPaneIn rows pid of None \<Rightarrow> None | Some (_, _, p) \<Rightarrow> find (has_path path) (pane_tabs p))"

definition activeTab :: "editor \<Rightarrow> EditorTab option" where
  "activeTab ed =
     (case findPaneIn (ed_rows ed) (ed_active ed) of
        None \<Rightarrow> None
      | Some (_, _, p) \<Rightarrow>
          if truthy (pane_active p) then find (has_path (the (pane_active p))) (pane_tabs p) else None)"

definition hasDirty :: "EditorRow list \<Rightarrow> bool" where
  "hasDirty rows = list_ex (\<lambda>r. list_ex (\<lambda>p. list_ex (\<lambda>t. tab_draft t \<noteq> None) (pane_tabs p)) (row_panes r)) rows"

definition isTabDirty :: "EditorRow list \<Rightarrow> string \<Rightarrow> string \<Rightarrow> bool" where
  "isTabDirty rows pid path = (case findTab rows pid path of None \<Rightarrow> False | Some t \<Rightarrow> tab_draft t \<noteq> None)"

definition canSplitHorizontal :: "EditorRow list \<Rightarrow> string \<Rightarrow> bool" where
  "canSplitHorizontal rows pid =
     (case findPaneIn rows pid of None \<Rightarrow> False | Some (ri, _, _) \<Rightarrow> length (row_panes (rows ! ri)) < MAX_COLS)"

definition canSplitVertical :: "EditorRow list \<Rightarrow> bool" where
  "canSplitVertical rows \<longleftrightarrow> length rows < MAX_ROWS"

end
