(* ===== verification/EditorFacts.thy ===== *)
theory EditorFacts
  imports Editor
begin

text \<open>
  What the editor keeps: the layout is a grid of at most two rows of one to three panes with
  different ids, the focused pane exists, every pane holds each file at most once and activates
  one of its own tabs, and a tab with unsaved changes is pinned, so that the preview slot never
  holds them. The operations keep it, whatever the answers of the server.
\<close>

section \<open>Lookups\<close>

lemma find_index_None: "find_index P xs = None \<longleftrightarrow> (\<forall>x \<in> set xs. \<not> P x)"
  by (induction xs) auto

lemma find_index_Some: "find_index P xs = Some i \<Longrightarrow> i < length xs \<and> P (xs ! i) \<and> (\<forall>j < i. \<not> P (xs ! j))"
  by (induction xs arbitrary: i) (auto simp: less_Suc_eq_0_disj split: if_splits)

lemma find_index_ex: "x \<in> set xs \<Longrightarrow> P x \<Longrightarrow> \<exists>i. find_index P xs = Some i"
  by (metis find_index_None option.exhaust)

definition pane_ids :: "EditorRow list \<Rightarrow> string list" where
  "pane_ids rows = map pane_id (allPanes rows)"

definition open_paths :: "EditorPane \<Rightarrow> string list" where
  "open_paths p = map tab_path (pane_tabs p)"

lemma allPanes_Cons [simp]: "allPanes (r # rs) = row_panes r @ allPanes rs"
  and allPanes_Nil [simp]: "allPanes [] = []"
  and allPanes_append [simp]: "allPanes (xs @ ys) = allPanes xs @ allPanes ys"
  by (simp_all add: allPanes_def)

lemma findPaneIn_Some:
  "findPaneIn rows pid = Some (ri, k, p) \<Longrightarrow>
     ri < length rows \<and> k < length (row_panes (rows ! ri)) \<and> row_panes (rows ! ri) ! k = p \<and>
     pane_id p = pid \<and> p \<in> set (allPanes rows)"
proof (induction rows arbitrary: ri)
  case (Cons r rs)
  show ?case
  proof (cases "find_index (has_id pid) (row_panes r)")
    case None
    with Cons show ?thesis by auto
  next
    case (Some j)
    with Cons.prems find_index_Some [OF Some] show ?thesis by (auto simp: has_id_def)
  qed
qed simp

lemma findPaneIn_None: "findPaneIn rows pid = None \<longleftrightarrow> pid \<notin> set (pane_ids rows)"
proof (induction rows)
  case (Cons r rs)
  show ?case
  proof (cases "find_index (has_id pid) (row_panes r)")
    case None
    then have "pid \<notin> pane_id ` set (row_panes r)" by (auto simp: find_index_None has_id_def)
    with Cons None show ?thesis by (simp add: pane_ids_def)
  next
    case (Some k)
    then have "pid \<in> pane_id ` set (row_panes r)"
      using find_index_Some [OF Some] by (auto simp: has_id_def intro: image_eqI [OF _ nth_mem])
    with Some show ?thesis by (simp add: pane_ids_def)
  qed
qed (simp add: pane_ids_def)

lemma allPanes_map_panes [simp]: "allPanes (map_panes f rows) = map f (allPanes rows)"
  by (induction rows) (simp_all add: map_panes_def)

lemma map_panes_shape [simp]:
  "length (map_panes f rows) = length rows" "map_panes f rows = [] \<longleftrightarrow> rows = []"
  by (simp_all add: map_panes_def)

section \<open>The invariant\<close>

definition tab_ok :: "EditorTab \<Rightarrow> bool" where
  "tab_ok t \<longleftrightarrow> tab_path t \<noteq> [] \<and> (tab_draft t = None \<or> tab_pinned t)"

definition pane_ok :: "EditorPane \<Rightarrow> bool" where
  "pane_ok p \<longleftrightarrow> distinct (open_paths p) \<and> list_all tab_ok (pane_tabs p) \<and>
     (case pane_active p of None \<Rightarrow> pane_tabs p = [] | Some a \<Rightarrow> a \<in> set (open_paths p))"

definition row_ok :: "EditorRow \<Rightarrow> bool" where
  "row_ok r \<longleftrightarrow> row_panes r \<noteq> [] \<and> length (row_panes r) \<le> MAX_COLS"

definition rows_ok :: "EditorRow list \<Rightarrow> bool" where
  "rows_ok rows \<longleftrightarrow> rows \<noteq> [] \<and> length rows \<le> MAX_ROWS \<and> list_all row_ok rows \<and>
     distinct (pane_ids rows) \<and> list_all pane_ok (allPanes rows)"

text \<open>An id that \<open>genId\<close> has made, or the one of the first pane.\<close>

definition known_id :: "nat \<Rightarrow> string \<Rightarrow> bool" where
  "known_id n pid \<longleftrightarrow> pid = ''pane_root'' \<or> (\<exists>clock k. k \<le> n \<and> pid = genId ''pane'' clock k)"

definition editor_ok :: "editor \<Rightarrow> bool" where
  "editor_ok ed \<longleftrightarrow> rows_ok (ed_rows ed) \<and> ed_active ed \<in> set (pane_ids (ed_rows ed)) \<and>
     list_all (known_id (ed_counter ed)) (pane_ids (ed_rows ed))"

lemma rows_ok_initial: "rows_ok initial_rows"
  by (simp add: rows_ok_def initial_rows_def row_ok_def pane_ok_def pane_ids_def open_paths_def MAX_ROWS_def MAX_COLS_def)

lemma pane_ids_initial [simp]: "pane_ids initial_rows = [''pane_root'']"
  by (simp add: initial_rows_def pane_ids_def)

lemma editor_ok_initial: "editor_ok (initialState n)"
  by (simp add: editor_ok_def initialState_def rows_ok_initial known_id_def)

lemma pane_okD: "rows_ok rows \<Longrightarrow> p \<in> set (allPanes rows) \<Longrightarrow> pane_ok p"
  by (simp add: rows_ok_def list_all_iff)

subsection \<open>Fresh ids\<close>

lemma digit_code: "k < 10 \<Longrightarrow> of_char (digit_char k) = 48 + k"
  by (simp add: digit_char_def)

lemma nat_string_digits: "c \<in> set (nat_string n) \<Longrightarrow> 48 \<le> (of_char c :: nat) \<and> (of_char c :: nat) < 58"
proof (induction n rule: nat_string.induct)
  case (1 n)
  have "c \<in> set (nat_string (n div 10)) \<and> \<not> n < 10 \<or> c = digit_char (n mod 10)"
    using "1.prems" by (subst (asm) nat_string.simps) (auto split: if_splits)
  then show ?case using "1.IH" digit_code [of "n mod 10"] by auto
qed

fun string_nat :: "string \<Rightarrow> nat" where
  "string_nat s = foldl (\<lambda>a c. 10 * a + (of_char c - 48)) 0 s"

lemma string_nat_string: "string_nat (nat_string k) = k"
proof (induction k rule: nat_string.induct)
  case (1 k)
  show ?case
  proof (cases "k < 10")
    case True
    then show ?thesis using digit_code [of k] by (subst nat_string.simps) simp
  next
    case False
    then show ?thesis using 1 digit_code [of "k mod 10"] by (subst nat_string.simps) simp
  qed
qed

lemma nat_string_inj: "nat_string m = nat_string n \<Longrightarrow> m = n"
  by (metis string_nat_string)

definition last_part :: "string \<Rightarrow> string" where
  "last_part s = rev (takeWhile (\<lambda>c. c \<noteq> CHR ''_'') (rev s))"

lemma last_part_genId: "last_part (genId pre clock n) = nat_string n"
proof -
  have "CHR ''_'' \<notin> set (nat_string n)" using nat_string_digits by force
  then have "takeWhile (\<lambda>c. c \<noteq> CHR ''_'') (rev (nat_string n) @ CHR ''_'' # x) = rev (nat_string n)" for x
    by (subst takeWhile_append2) auto
  then show ?thesis by (simp add: last_part_def genId_def)
qed

lemma root_not_generated: "genId pre clock n \<noteq> ''pane_root''"
proof
  assume "genId pre clock n = ''pane_root''"
  then have "nat_string n = ''root''" using last_part_genId [of pre clock n] by (simp add: last_part_def)
  then have "CHR ''r'' \<in> set (nat_string n)" by simp
  then show False using nat_string_digits by fastforce
qed

lemma fresh_id:
  assumes "known_id n pid"
  shows "pid \<noteq> genId ''pane'' clock (n + 1)"
proof
  assume e: "pid = genId ''pane'' clock (n + 1)"
  with assms obtain c k where "k \<le> n" "genId ''pane'' c k = genId ''pane'' clock (n + 1)"
    unfolding known_id_def using root_not_generated by metis
  then have "nat_string k = nat_string (n + 1)" by (metis last_part_genId)
  with \<open>k \<le> n\<close> show False by (auto dest: nat_string_inj)
qed

lemma known_id_mono: "known_id n pid \<Longrightarrow> n \<le> m \<Longrightarrow> known_id m pid"
  unfolding known_id_def using order_trans by blast

lemma known_id_new: "n \<le> m \<Longrightarrow> known_id m (genId ''pane'' clock n)"
  unfolding known_id_def by blast

subsection \<open>Layout changes\<close>

lemma rows_ok_map_panes:
  assumes "rows_ok rows" and "\<And>p. p \<in> set (allPanes rows) \<Longrightarrow> pane_id (f p) = pane_id p \<and> pane_ok (f p)"
  shows "rows_ok (map_panes f rows)" and "pane_ids (map_panes f rows) = pane_ids rows"
proof -
  show ids: "pane_ids (map_panes f rows) = pane_ids rows"
    using assms(2) by (simp add: pane_ids_def)
  have "list_all row_ok (map_panes f rows)"
    using assms(1) by (auto simp: rows_ok_def list_all_iff map_panes_def row_ok_def)
  with ids show "rows_ok (map_panes f rows)"
    using assms by (simp add: rows_ok_def list_all_iff)
qed

lemma pane_ids_mem: "p \<in> set (allPanes rows) \<Longrightarrow> pane_id p \<in> set (pane_ids rows)"
  by (simp add: pane_ids_def)

lemma allPanes_dropPane:
  "allPanes (dropPane rows pid) =
     (let rest = filter (\<lambda>p. pane_id p \<noteq> pid) (allPanes rows)
      in if rest = [] then allPanes initial_rows else rest)"
proof -
  have e: "allPanes (filter (\<lambda>r. row_panes r \<noteq> []) (map (\<lambda>r. r\<lparr>row_panes := filter (\<lambda>p. \<not> has_id pid p) (row_panes r)\<rparr>) rs))
      = filter (\<lambda>p. pane_id p \<noteq> pid) (allPanes rs)" for rs
    by (induction rs) (auto simp: has_id_def)
  have n: "filter (\<lambda>r. row_panes r \<noteq> []) rs = [] \<longleftrightarrow> allPanes rs = []" for rs
    by (induction rs) auto
  show ?thesis unfolding dropPane_def Let_def
    using e [of rows] n [of "map (\<lambda>r. r\<lparr>row_panes := filter (\<lambda>p. \<not> has_id pid p) (row_panes r)\<rparr>) rows"]
    by (auto simp: allPanes_def [of "filter _ _"])
qed

lemma pane_ids_dropPane:
  "set (pane_ids (dropPane rows pid)) =
     (if set (pane_ids rows) \<subseteq> {pid} then {''pane_root''} else set (pane_ids rows) - {pid})"
  by (auto simp: pane_ids_def allPanes_dropPane Let_def initial_rows_def filter_empty_conv)

lemma rows_ok_dropPane:
  assumes "rows_ok rows"
  shows "rows_ok (dropPane rows pid)"
proof (cases "filter (\<lambda>p. pane_id p \<noteq> pid) (allPanes rows) = []")
  case True
  let ?next = "filter (\<lambda>r. row_panes r \<noteq> []) (map (\<lambda>r. r\<lparr>row_panes := filter (\<lambda>p. \<not> has_id pid p) (row_panes r)\<rparr>) rows)"
  have "?next = []" using True by (induction rows) (auto simp: has_id_def)
  then show ?thesis by (simp add: dropPane_def rows_ok_initial Let_def)
next
  case False
  let ?next = "filter (\<lambda>r. row_panes r \<noteq> []) (map (\<lambda>r. r\<lparr>row_panes := filter (\<lambda>p. \<not> has_id pid p) (row_panes r)\<rparr>) rows)"
  have ne: "?next \<noteq> []"
    using False by (induction rows) (auto simp: has_id_def)
  then have d: "dropPane rows pid = ?next" unfolding dropPane_def Let_def by (rule if_not_P)
  have len: "length ?next \<le> length rows" by (rule order_trans [OF length_filter_le]) simp
  have rk: "list_all row_ok ?next"
  proof -
    have "length (filter (\<lambda>p. \<not> has_id pid p) (row_panes r)) \<le> MAX_COLS" if "r \<in> set rows" for r
      using assms that length_filter_le [of _ "row_panes r"] le_trans
      unfolding rows_ok_def list_all_iff row_ok_def by blast
    then show ?thesis by (auto simp: list_all_iff row_ok_def)
  qed
  have ap: "allPanes ?next = filter (\<lambda>p. pane_id p \<noteq> pid) (allPanes rows)"
    using False allPanes_dropPane [of rows pid] unfolding d Let_def by argo
  have dp: "distinct (pane_ids ?next)" "list_all pane_ok (allPanes ?next)"
    unfolding pane_ids_def ap using assms
    by (simp_all add: rows_ok_def pane_ids_def distinct_map_filter list_all_iff)
  have "length rows \<le> MAX_ROWS" using assms by (simp add: rows_ok_def)
  with len have "length ?next \<le> MAX_ROWS" by (rule order_trans)
  with ne rk dp show ?thesis unfolding d rows_ok_def by blast
qed

subsection \<open>Tabs that leave a pane\<close>

lemma next_active:
  assumes "distinct (map tab_path tabs)" and "i < length tabs"
  shows "case nextActiveAfterRemoval tabs i of None \<Rightarrow> length tabs \<le> 1
    | Some a \<Rightarrow> a \<in> tab_path ` set tabs \<and> a \<noteq> tab_path (tabs ! i)"
proof -
  have other: "tab_path (tabs ! j) \<noteq> tab_path (tabs ! i)" if "j < length tabs" "j \<noteq> i" for j
    using assms that by (metis length_map nth_eq_iff_index_eq nth_map)
  show ?thesis
    unfolding nextActiveAfterRemoval_def using assms(2) other [of "i + 1"] other [of "i - 1"] by auto
qed

lemma filter_path_index:
  assumes "distinct (map tab_path tabs)" and "find_index (has_path path) tabs = Some i"
  shows "take i tabs @ drop (Suc i) tabs = filter (\<lambda>t. \<not> has_path path t) tabs"
  using assms
proof (induction tabs arbitrary: i)
  case (Cons t ts)
  show ?case
  proof (cases "has_path path t")
    case True
    then have "\<forall>u \<in> set ts. \<not> has_path path u"
      using Cons.prems(1) unfolding has_path_def by (metis distinct.simps(2) image_eqI list.set_map list.simps(9))
    with True Cons.prems(2) show ?thesis by (simp add: filter_id_conv)
  next
    case False
    with Cons show ?thesis by auto
  qed
qed simp

lemma pane_ok_without_tab:
  assumes "pane_ok p" and "find_index (has_path path) (pane_tabs p) = Some i"
  shows "pane_ok (set_pane (filter (\<lambda>t. \<not> has_path path t) (pane_tabs p))
    (if pane_active p = Some path then nextActiveAfterRemoval (pane_tabs p) i else pane_active p) p)"
proof -
  let ?rest = "filter (\<lambda>t. \<not> has_path path t) (pane_tabs p)"
  have i: "i < length (pane_tabs p)" "tab_path (pane_tabs p ! i) = path"
    using find_index_Some [OF assms(2)] by (auto simp: has_path_def)
  have d: "distinct (map tab_path (pane_tabs p))" and oks: "list_all tab_ok (pane_tabs p)"
    and act: "case pane_active p of None \<Rightarrow> pane_tabs p = [] | Some a \<Rightarrow> a \<in> tab_path ` set (pane_tabs p)"
    using assms(1) by (auto simp: pane_ok_def open_paths_def split: option.splits)
  have paths: "tab_path ` set ?rest = tab_path ` set (pane_tabs p) - {path}"
    by (auto simp: has_path_def)
  have one: "?rest = []" if "length (pane_tabs p) \<le> 1"
    using that i by (cases "pane_tabs p") (auto simp: has_path_def)
  have "case (if pane_active p = Some path then nextActiveAfterRemoval (pane_tabs p) i else pane_active p) of
      None \<Rightarrow> ?rest = [] | Some a \<Rightarrow> a \<in> tab_path ` set ?rest"
    using next_active [OF d i(1)] i(2) act one unfolding paths by (auto split: option.splits)
  then show ?thesis
    using d oks by (auto simp: pane_ok_def set_pane_def open_paths_def distinct_map_filter list_all_iff
        split: option.splits if_splits)
qed

section \<open>The operations keep the invariant\<close>

text \<open>A change inside panes that keeps their ids and the pane invariant.\<close>

lemma editor_ok_panes:
  assumes "editor_ok ed" and "\<And>p. pane_ok p \<Longrightarrow> pane_id (f p) = pane_id p \<and> pane_ok (f p)"
    and "a \<in> set (pane_ids (ed_rows ed))"
  shows "editor_ok (ed\<lparr>ed_rows := map_panes f (ed_rows ed), ed_active := a, ed_generations := g\<rparr>)"
  using assms rows_ok_map_panes [of "ed_rows ed" f] pane_okD [of "ed_rows ed"]
  by (auto simp: editor_ok_def)

lemma pane_ok_map_tabs:
  assumes "pane_ok p" and "\<And>t. tab_ok t \<Longrightarrow> tab_ok (g t) \<and> tab_path (g t) = tab_path t"
  shows "pane_ok (p\<lparr>pane_tabs := map g (pane_tabs p)\<rparr>)"
proof -
  have "\<forall>t \<in> set (pane_tabs p). tab_ok t" using assms(1) by (simp add: pane_ok_def list_all_iff)
  then have "open_paths (p\<lparr>pane_tabs := map g (pane_tabs p)\<rparr>) = open_paths p" "\<forall>t \<in> set (pane_tabs p). tab_ok (g t)"
    using assms(2) by (simp_all add: open_paths_def)
  then show ?thesis using assms(1) by (simp add: pane_ok_def list_all_iff split: option.splits)
qed

lemma pane_ok_active: "pane_ok p \<Longrightarrow> a \<in> set (open_paths p) \<Longrightarrow> pane_ok (p\<lparr>pane_active := Some a\<rparr>)"
  by (simp add: pane_ok_def open_paths_def)

lemma pane_ok_setI:
  "distinct (map tab_path ts) \<Longrightarrow> list_all tab_ok ts \<Longrightarrow>
     (case a of None \<Rightarrow> ts = [] | Some x \<Rightarrow> x \<in> set (map tab_path ts)) \<Longrightarrow> pane_ok (set_pane ts a p)"
  by (simp add: pane_ok_def set_pane_def open_paths_def split: option.splits)

lemma editor_ok_patch:
  assumes "editor_ok ed" and "\<And>t. tab_ok t \<Longrightarrow> tab_ok (patch t) \<and> tab_path (patch t) = tab_path t"
  shows "editor_ok (patchTab pid path patch ed)"
proof -
  let ?f = "on_pane pid (\<lambda>p. p\<lparr>pane_tabs := map (\<lambda>t. if has_path path t then patch t else t) (pane_tabs p)\<rparr>)"
  have "pane_id (?f p) = pane_id p \<and> pane_ok (?f p)" if "pane_ok p" for p
    using pane_ok_map_tabs [OF that, of "\<lambda>t. if has_path path t then patch t else t"] assms(2) that
    by (simp add: on_pane_def)
  then have "editor_ok (ed\<lparr>ed_rows := map_panes ?f (ed_rows ed), ed_active := ed_active ed, ed_generations := ed_generations ed\<rparr>)"
    by (rule editor_ok_panes [OF assms(1)]) (use assms(1) in \<open>simp_all add: editor_ok_def\<close>)
  then show ?thesis by (simp add: patchTab_def)
qed

lemma editor_ok_generations: "editor_ok (ed\<lparr>ed_generations := g\<rparr>) \<longleftrightarrow> editor_ok ed"
  by (simp add: editor_ok_def)

lemma editor_ok_contents: "editor_ok ed \<Longrightarrow> editor_ok (applyFileContents pid path file ed)"
  unfolding applyFileContents_def by (rule editor_ok_patch) (auto simp: tab_ok_def)

lemma editor_ok_loadFile:
  assumes "editor_ok ed"
  shows "editor_ok (snd (loadFile session pid path ed))"
  unfolding loadFile_def nextGeneration_def Let_def split_conv snd_conv
  using assms by (intro editor_ok_patch) (simp_all add: editor_ok_generations tab_ok_def)

lemma editor_ok_load_done: "editor_ok ed \<Longrightarrow> editor_ok (loadFile_done c ans ed)"
  unfolding loadFile_done_def applyFileStat_def
  by (auto simp: tab_ok_def intro!: editor_ok_patch editor_ok_contents split: sum.split load_answer.split)

lemma pane_ok_open:
  assumes "pane_ok p" and "path \<noteq> []"
  shows "pane_id (open_in_pane path pin p) = pane_id p \<and> pane_ok (open_in_pane path pin p)"
proof (cases "find (has_path path) (pane_tabs p)")
  case (Some t)
  then have "path \<in> set (open_paths p)"
    by (auto simp: find_Some_iff open_paths_def has_path_def intro: image_eqI [OF _ nth_mem])
  moreover have "pane_ok (p\<lparr>pane_tabs := map (\<lambda>t. if has_path path t then t\<lparr>tab_pinned := True\<rparr> else t) (pane_tabs p)\<rparr>)"
    by (rule pane_ok_map_tabs [OF assms(1)]) (simp add: tab_ok_def)
  moreover have "open_paths (p\<lparr>pane_tabs := map (\<lambda>t. if has_path path t then t\<lparr>tab_pinned := True\<rparr> else t) (pane_tabs p)\<rparr>) = open_paths p"
    by (simp add: open_paths_def)
  ultimately show ?thesis
    using assms(1) Some pane_ok_active [of p path] pane_ok_active [of "p\<lparr>pane_tabs := map (\<lambda>t. if has_path path t then t\<lparr>tab_pinned := True\<rparr> else t) (pane_tabs p)\<rparr>" path]
    by (simp add: open_in_pane_def)
next
  case None
  then have new: "path \<notin> set (open_paths p)"
    by (auto simp: find_None_iff open_paths_def has_path_def)
  have e: "tab_ok (emptyTab path pin)" using assms(2) by (simp add: tab_ok_def emptyTab_def)
  show ?thesis
  proof (cases "if pin then None else find_index (\<lambda>t. \<not> tab_pinned t) (pane_tabs p)")
    case (Some i)
    then have i: "i < length (pane_tabs p)" by (auto split: if_splits dest: find_index_Some)
    have "distinct ((open_paths p)[i := path])"
      using assms(1) new by (simp add: pane_ok_def distinct_list_update)
    moreover have "tab_path ` set ((pane_tabs p)[i := emptyTab path pin]) = set ((open_paths p)[i := path])"
      by (simp add: open_paths_def map_update emptyTab_def flip: set_map)
    moreover have "list_all tab_ok ((pane_tabs p)[i := emptyTab path pin])"
      using assms(1) e set_update_subset_insert [of "pane_tabs p" i] by (auto simp: pane_ok_def list_all_iff)
    ultimately show ?thesis
      using None Some i by (simp add: open_in_pane_def pane_ok_def open_paths_def map_update emptyTab_def set_update_memI)
  next
    case none: None
    show ?thesis
      using assms(1) None none new e by (auto simp: open_in_pane_def pane_ok_def open_paths_def emptyTab_def)
  qed
qed

lemma findTabPane_mem: "findTabPane rows path = Some p \<Longrightarrow> p \<in> set (allPanes rows)"
  by (auto simp: findTabPane_def find_Some_iff)

lemma editor_ok_open:
  assumes "editor_ok ed" and "path \<noteq> []" and "case target of None \<Rightarrow> True | Some q \<Rightarrow> q \<in> set (pane_ids (ed_rows ed))"
  shows "editor_ok (snd (openFile session (ed_rows ed, ed_active ed) path pin target ed))"
proof -
  define pid where "pid = (case findTabPane (ed_rows ed) path of Some p \<Rightarrow> pane_id p
    | None \<Rightarrow> (case target of Some q \<Rightarrow> q | None \<Rightarrow> ed_active ed))"
  have "pid \<in> set (pane_ids (ed_rows ed))"
    using assms(1,3) findTabPane_mem pane_ids_mem unfolding pid_def editor_ok_def
    by (auto split: option.splits)
  then have ok: "editor_ok (ed\<lparr>ed_rows := map_panes (on_pane pid (open_in_pane path pin)) (ed_rows ed), ed_active := pid, ed_generations := g\<rparr>)" for g
    using pane_ok_open assms(2) by (intro editor_ok_panes [OF assms(1)]) (auto simp: on_pane_def)
  show ?thesis
    unfolding openFile_def Let_def fst_conv snd_conv pid_def [symmetric]
    using ok editor_ok_loadFile [OF ok] by (simp add: split_beta)
qed

subsection \<open>Closing\<close>

lemma pane_unique:
  assumes "rows_ok rows" and "findPaneIn rows pid = Some (ri, k, pane)" and "p \<in> set (allPanes rows)" and "pane_id p = pid"
  shows "p = pane"
proof -
  have "inj_on pane_id (set (allPanes rows))" using assms(1) by (simp add: rows_ok_def pane_ids_def distinct_map)
  then show ?thesis using assms(3,4) findPaneIn_Some [OF assms(2)] by (auto dest: inj_onD)
qed

lemma editor_ok_set_pane:
  assumes "editor_ok ed" and "findPaneIn (ed_rows ed) pid = Some (ri, k, pane)"
    and "pane_ok (set_pane tabs act pane)"
  shows "editor_ok (ed\<lparr>ed_rows := map_panes (on_pane pid (set_pane tabs act)) (ed_rows ed)\<rparr>)"
proof -
  have r: "rows_ok (ed_rows ed)" using assms(1) by (simp add: editor_ok_def)
  have "pane_id (on_pane pid (set_pane tabs act) p) = pane_id p \<and> pane_ok (on_pane pid (set_pane tabs act) p)"
    if "p \<in> set (allPanes (ed_rows ed))" for p
    using that pane_unique [OF r assms(2) that] pane_okD [OF r that] assms(3)
    by (auto simp: on_pane_def has_id_def set_pane_def)
  from rows_ok_map_panes [OF r this] show ?thesis using assms(1) by (simp add: editor_ok_def)
qed

lemma allPanes_not_Nil: "rows_ok rows \<Longrightarrow> allPanes rows \<noteq> []"
  by (cases rows) (auto simp: rows_ok_def row_ok_def)

lemma fallback_mem: "rows_ok rows \<Longrightarrow> chooseFallbackPane rows \<in> set (pane_ids rows)"
  using allPanes_not_Nil [of rows] by (auto simp: chooseFallbackPane_def pane_ids_def)

lemma known_dropPane:
  "list_all (known_id n) (pane_ids rows) \<Longrightarrow> list_all (known_id n) (pane_ids (dropPane rows pid))"
  by (auto simp: list_all_iff pane_ids_dropPane known_id_def split: if_splits)

lemma editor_ok_drop:
  assumes "editor_ok ed" and "a \<in> set (pane_ids (dropPane (ed_rows ed) pid))"
  shows "editor_ok (ed\<lparr>ed_rows := dropPane (ed_rows ed) pid, ed_active := a\<rparr>)"
  using assms known_dropPane rows_ok_dropPane by (simp add: editor_ok_def)

lemma editor_ok_drop_other:
  assumes "editor_ok (ed\<lparr>ed_rows := rows, ed_active := a\<rparr>)" and "a \<noteq> pid"
  shows "editor_ok (ed\<lparr>ed_rows := dropPane rows pid, ed_active := a\<rparr>)"
proof -
  have "a \<in> set (pane_ids rows)" using assms(1) by (simp add: editor_ok_def)
  with assms(2) have "a \<in> set (pane_ids (dropPane rows pid))" by (auto simp: pane_ids_dropPane)
  with editor_ok_drop [OF assms(1), of a pid] show ?thesis by simp
qed

lemma editor_ok_after_close:
  assumes "editor_ok ed" and "findPaneIn (ed_rows ed) pid = Some (ri, k, pane)"
    and "remaining \<noteq> [] \<Longrightarrow> pane_ok (set_pane remaining act pane)"
  shows "editor_ok (after_close (ed_active ed) pid remaining act ed)"
proof (cases "remaining = []")
  case True
  have r: "rows_ok (ed_rows ed)" and a: "ed_active ed \<in> set (pane_ids (ed_rows ed))"
    using assms(1) by (simp_all add: editor_ok_def)
  have "(if ed_active ed = pid then chooseFallbackPane (dropPane (ed_rows ed) pid) else ed_active ed)
      \<in> set (pane_ids (dropPane (ed_rows ed) pid))"
  proof (cases "ed_active ed = pid")
    case True
    then show ?thesis using fallback_mem [OF rows_ok_dropPane [OF r]] by simp
  next
    case False
    with a show ?thesis by (auto simp: pane_ids_dropPane)
  qed
  from editor_ok_drop [OF assms(1) this] True show ?thesis by (simp add: after_close_def Let_def)
next
  case False
  then show ?thesis using editor_ok_set_pane [OF assms(1,2)] assms(3) by (simp add: after_close_def)
qed

lemma found_pane_ok: "editor_ok ed \<Longrightarrow> findPaneIn (ed_rows ed) pid = Some (ri, k, pane) \<Longrightarrow> pane_ok pane"
  using findPaneIn_Some pane_okD by (metis editor_ok_def)

lemma editor_ok_close:
  assumes "editor_ok ed"
  shows "editor_ok (closeTab (ed_active ed) pid path ed)"
proof (cases "findPaneIn (ed_rows ed) pid")
  case None
  then show ?thesis using assms by (simp add: closeTab_def)
next
  case (Some x)
  then obtain ri k pane where f: "findPaneIn (ed_rows ed) pid = Some (ri, k, pane)" by (cases x) auto
  have p: "pane_ok pane" by (rule found_pane_ok [OF assms f])
  show ?thesis
  proof (cases "find_index (has_path path) (pane_tabs pane)")
    case None
    with f assms show ?thesis by (simp add: closeTab_def)
  next
    case (Some i)
    let ?ed = "ed\<lparr>ed_generations := mdelete (pid, path) (ed_generations ed)\<rparr>"
    have "take i (pane_tabs pane) @ drop (Suc i) (pane_tabs pane) = filter (\<lambda>t. \<not> has_path path t) (pane_tabs pane)"
      using p Some by (intro filter_path_index) (simp_all add: pane_ok_def open_paths_def)
    then show ?thesis
      using editor_ok_after_close [of ?ed pid ri k pane] pane_ok_without_tab [OF p Some] f assms Some
      by (simp add: closeTab_def editor_ok_generations)
  qed
qed

lemma survivor_ok:
  assumes "pane_ok p" and "filter (\<lambda>t. tab_path t \<notin> set paths) (pane_tabs p) \<noteq> []"
  shows "pane_ok (set_pane (filter (\<lambda>t. tab_path t \<notin> set paths) (pane_tabs p))
    (survivor paths (pane_tabs p) (pane_active p)) p)"
proof -
  let ?keep = "\<lambda>t. tab_path t \<notin> set paths"
  obtain a where a: "pane_active p = Some a" "a \<in> tab_path ` set (pane_tabs p)"
    using assms by (auto simp: pane_ok_def open_paths_def split: option.splits)
  have ne: "a \<noteq> []" using a(2) assms(1) by (auto simp: pane_ok_def list_all_iff tab_ok_def)
  have "\<exists>t \<in> set (pane_tabs p). ?keep t \<and> survivor paths (pane_tabs p) (pane_active p) = Some (tab_path t)"
  proof (cases "a \<in> set paths")
    case False
    then show ?thesis using a ne by (auto simp: survivor_def)
  next
    case True
    from a(2) obtain i where i: "find_index (has_path a) (pane_tabs p) = Some i"
      using find_index_ex [of _ "pane_tabs p" "has_path a"] by (auto simp: has_path_def)
    have at: "tab_path (pane_tabs p ! i) = a" "i < length (pane_tabs p)"
      using find_index_Some [OF i] by (auto simp: has_path_def)
    obtain t where t: "t \<in> set (pane_tabs p)" "?keep t" using assms(2) by (auto simp: filter_empty_conv)
    have "pane_tabs p = take i (pane_tabs p) @ pane_tabs p ! i # drop (Suc i) (pane_tabs p)"
      using at(2) by (rule id_take_nth_drop)
    with t at True have split: "t \<in> set (take i (pane_tabs p)) \<or> t \<in> set (drop (Suc i) (pane_tabs p))"
      by (metis Un_iff set_ConsD set_append)
    show ?thesis
    proof (cases "find ?keep (drop (Suc i) (pane_tabs p))")
      case (Some u)
      then have "u \<in> set (pane_tabs p) \<and> ?keep u" by (auto simp: find_Some_iff intro: in_set_dropD)
      with Some show ?thesis using a ne True i by (auto simp: survivor_def)
    next
      case None
      with split t have "\<exists>u. find ?keep (rev (take i (pane_tabs p))) = Some u"
        by (auto simp: find_None_iff simp flip: not_None_eq)
      then obtain u where u: "find ?keep (rev (take i (pane_tabs p))) = Some u" by blast
      then have "u \<in> set (pane_tabs p) \<and> ?keep u"
        by (metis find_Some_iff in_set_takeD nth_mem set_rev)
      with None u show ?thesis using a ne True i by (auto simp: survivor_def)
    qed
  qed
  then show ?thesis
    using assms(1) by (auto simp: pane_ok_def set_pane_def open_paths_def distinct_map_filter list_all_iff)
qed

lemma editor_ok_closePaths:
  assumes "editor_ok ed"
  shows "editor_ok (closePaths (ed_active ed) pid paths ed)"
proof (cases "findPaneIn (ed_rows ed) pid")
  case None
  then show ?thesis using assms by (simp add: closePaths_def)
next
  case (Some x)
  then obtain ri k pane where f: "findPaneIn (ed_rows ed) pid = Some (ri, k, pane)" by (cases x) auto
  have p: "pane_ok pane" by (rule found_pane_ok [OF assms f])
  show ?thesis
    using editor_ok_after_close [of "ed\<lparr>ed_generations := foldl (\<lambda>m p. mdelete (pid, p) m) (ed_generations ed) paths\<rparr>" pid ri k pane]
      survivor_ok [OF p, of paths] f assms
    by (simp add: closePaths_def editor_ok_generations)
qed

subsection \<open>Reordering and renaming\<close>


lemma by_path_plain:
  "distinct (map fst m @ map tab_path tabs) \<Longrightarrow>
     foldl (\<lambda>m t. mput (tab_path t) t m) m tabs = m @ map (\<lambda>t. (tab_path t, t)) tabs"
proof (induction tabs arbitrary: m)
  case (Cons t ts)
  have "mput (tab_path t) t m = m @ [(tab_path t, t)]"
    using Cons.prems by (intro mput_new) auto
  with Cons show ?case by simp
qed simp

lemma mset_take_out:
  "distinct (map fst m) \<Longrightarrow> mget m k = Some v \<Longrightarrow>
     mset (map snd m) = add_mset v (mset (map snd (mdelete k m)))"
proof (induction m)
  case (Cons x m)
  show ?case
  proof (cases "fst x = k")
    case True
    then have "k \<notin> fst ` set m" using Cons.prems(1) by auto
    then have "mdelete k m = m" by (rule delete_id)
    with True Cons.prems show ?thesis by (cases x) (simp add: AList.delete_eq)
  next
    case False
    with Cons show ?thesis by (cases x) (simp add: AList.delete_eq)
  qed
qed simp

lemma mset_take_paths:
  "distinct (map fst m) \<Longrightarrow> take_paths ps m = (ts, m') \<Longrightarrow>
     mset ts + mset (map snd m') = mset (map snd m)"
proof (induction ps m arbitrary: ts m' rule: take_paths.induct)
  case (2 p ps m)
  show ?case
  proof (cases "mget m p")
    case None
    with 2 show ?thesis by simp
  next
    case (Some t)
    obtain us m1 where u: "take_paths ps (mdelete p m) = (us, m1)" by (cases "take_paths ps (mdelete p m)")
    have "mset us + mset (map snd m1) = mset (map snd (mdelete p m))"
      using 2(2) [OF Some _ u] distinct_mdelete [OF "2.prems"(1)] by simp
    with u Some "2.prems" mset_take_out [OF "2.prems"(1) Some] show ?thesis by auto
  qed
qed simp

lemma mset_reordered:
  assumes "distinct (map tab_path tabs)"
  shows "mset (reordered paths tabs) = mset tabs"
proof -
  have b: "by_path tabs = map (\<lambda>t. (tab_path t, t)) tabs"
    unfolding by_path_def using by_path_plain [of "[]" tabs] assms by simp
  obtain ts m where t: "take_paths paths (by_path tabs) = (ts, m)" by (cases "take_paths paths (by_path tabs)")
  have "mset ts + mset (map snd m) = mset (map snd (by_path tabs))"
    using assms by (intro mset_take_paths [OF _ t]) (simp add: b comp_def)
  then show ?thesis unfolding reordered_def t by (simp add: b comp_def)
qed

lemma pane_ok_permuted:
  assumes "pane_ok p" and "mset tabs = mset (pane_tabs p)"
  shows "pane_ok (p\<lparr>pane_tabs := tabs\<rparr>)"
proof -
  have "mset (map tab_path tabs) = mset (open_paths p)" using assms(2) by (simp add: open_paths_def)
  then have "distinct (map tab_path tabs)" "set (map tab_path tabs) = set (open_paths p)"
    using assms(1) mset_eq_imp_distinct_iff mset_eq_setD unfolding pane_ok_def by blast+
  moreover have "set tabs = set (pane_tabs p)" "tabs = [] \<longleftrightarrow> pane_tabs p = []"
    using assms(2) by (auto dest: mset_eq_setD)
  ultimately show ?thesis
    using assms(1) by (simp add: pane_ok_def open_paths_def list_all_iff split: option.splits)
qed

lemma editor_ok_reorder:
  assumes "editor_ok ed"
  shows "editor_ok (reorderTabs pid paths ed)"
proof -
  let ?f = "on_pane pid (\<lambda>p. p\<lparr>pane_tabs := reordered paths (pane_tabs p)\<rparr>)"
  have "pane_id (?f p) = pane_id p \<and> pane_ok (?f p)" if "pane_ok p" for p
    using pane_ok_permuted [OF that] mset_reordered [of "pane_tabs p" paths] that
    by (auto simp: on_pane_def pane_ok_def open_paths_def)
  from editor_ok_panes [OF assms this, of "ed_active ed" "ed_generations ed"]
  show ?thesis using assms by (simp add: reorderTabs_def editor_ok_def)
qed

lemma pane_ok_rename:
  assumes "pane_ok p" and "newPath \<noteq> []" and "newPath \<notin> set (open_paths p)"
  shows "pane_id (rename_in_pane oldPath newPath p) = pane_id p \<and> pane_ok (rename_in_pane oldPath newPath p)"
proof -
  let ?g = "\<lambda>t. if has_path oldPath t then t\<lparr>tab_path := newPath\<rparr> else t"
  let ?h = "\<lambda>x. if x = oldPath then newPath else x"
  have m: "map tab_path (map ?g (pane_tabs p)) = map ?h (open_paths p)"
    by (simp add: open_paths_def has_path_def)
  have "inj_on ?h (set (open_paths p))" using assms(3) by (auto simp: inj_on_def)
  then have d: "distinct (map ?h (open_paths p))" using assms(1) by (simp add: pane_ok_def distinct_map)
  have t: "list_all tab_ok (map ?g (pane_tabs p))"
    using assms(1,2) by (auto simp: pane_ok_def list_all_iff tab_ok_def)
  have a: "case (if pane_active p = Some oldPath then Some newPath else pane_active p) of
      None \<Rightarrow> map ?g (pane_tabs p) = [] | Some a \<Rightarrow> a \<in> set (map ?h (open_paths p))"
    using assms(1) by (auto simp: pane_ok_def split: option.splits)
  have "pane_ok (set_pane (map ?g (pane_tabs p)) (if pane_active p = Some oldPath then Some newPath else pane_active p) p)"
    using d t a unfolding m [symmetric] by (rule pane_ok_setI)
  then show ?thesis
    using assms(1) by (simp add: rename_in_pane_def set_pane_def)
qed

lemma editor_ok_rename:
  assumes "editor_ok ed" and "newPath \<noteq> []" and "findTabPane (ed_rows ed) newPath = None"
  shows "editor_ok (renameTab oldPath newPath ed)"
proof -
  have r: "rows_ok (ed_rows ed)" using assms(1) by (simp add: editor_ok_def)
  have "newPath \<notin> set (open_paths p)" if "p \<in> set (allPanes (ed_rows ed))" for p
    using assms(3) that by (auto simp: findTabPane_def find_None_iff open_paths_def list_ex_iff has_path_def)
  then have "pane_id (rename_in_pane oldPath newPath p) = pane_id p \<and> pane_ok (rename_in_pane oldPath newPath p)"
    if "p \<in> set (allPanes (ed_rows ed))" for p
    using that pane_ok_rename [OF pane_okD [OF r that] assms(2)] by blast
  from rows_ok_map_panes [OF r this] show ?thesis using assms(1) by (simp add: renameTab_def editor_ok_def)
qed

subsection \<open>Splitting and moving\<close>

lemma mset_insert_at: "mset (insert_at i x xs) = add_mset x (mset xs)"
proof -
  have "mset (take i xs) + mset (drop i xs) = mset xs" by (metis append_take_drop_id mset_append)
  then show ?thesis by (simp add: insert_at_def)
qed

lemma set_insert_at: "set (insert_at i x xs) = insert x (set xs)"
  by (metis mset_insert_at set_mset_add_mset_insert set_mset_mset)

lemma length_insert_at [simp]: "length (insert_at i x xs) = Suc (length xs)"
  by (metis mset_insert_at size_add_mset size_mset)

lemma insert_at_not_Nil [simp]: "insert_at i x xs \<noteq> []"
  by (simp add: insert_at_def)

lemma map_insert_at: "map f (insert_at i x xs) = insert_at i (f x) (map f xs)"
  by (simp add: insert_at_def take_map drop_map)

lemma allPanes_update:
  "i < length rows \<Longrightarrow> allPanes (rows[i := r]) = allPanes (take i rows) @ row_panes r @ allPanes (drop (Suc i) rows)"
  by (simp add: upd_conv_take_nth_drop)

lemma allPanes_split:
  "i < length rows \<Longrightarrow> allPanes rows = allPanes (take i rows) @ row_panes (rows ! i) @ allPanes (drop (Suc i) rows)"
  by (metis allPanes_update list_update_id)

lemma mset_allPanes_insert: "mset (allPanes (insert_at i r rows)) = mset (row_panes r) + mset (allPanes rows)"
proof -
  have "allPanes rows = allPanes (take i rows) @ allPanes (drop i rows)"
    by (metis allPanes_append append_take_drop_id)
  then show ?thesis by (simp add: insert_at_def)
qed

lemma rows_ok_mset:
  assumes "mset (allPanes rows) = mset ps" and "distinct (map pane_id ps)" and "list_all pane_ok ps"
    and "rows \<noteq> []" and "length rows \<le> MAX_ROWS" and "list_all row_ok rows"
  shows "rows_ok rows"
proof -
  have "mset (pane_ids rows) = mset (map pane_id ps)" using assms(1) by (simp add: pane_ids_def)
  then have "distinct (pane_ids rows)" using assms(2) mset_eq_imp_distinct_iff by blast
  moreover have "set (allPanes rows) = set ps" using assms(1) by (rule mset_eq_setD)
  ultimately show ?thesis using assms(3-6) by (simp add: rows_ok_def list_all_iff)
qed

text \<open>The rows after a split, with the new pane and the source's remaining tabs.\<close>

lemma without_tab_ok:
  assumes "pane_ok p" and "find (has_path path) (pane_tabs p) = Some tab" and "without_tab path p = (ts, a)"
  shows "pane_ok (set_pane ts a p)"
proof -
  obtain i where i: "find_index (has_path path) (pane_tabs p) = Some i"
    using assms(2) find_index_None [of "has_path path" "pane_tabs p"] by (auto simp: find_Some_iff)
  from pane_ok_without_tab [OF assms(1) i] assms(3) i show ?thesis
    by (auto simp: without_tab_def)
qed

lemma found_tab: "find (has_path path) tabs = Some tab \<Longrightarrow> tab \<in> set tabs \<and> tab_path tab = path"
  by (auto simp: find_Some_iff has_path_def)

lemma pane_ok_single: "tab_ok t \<Longrightarrow> pane_ok \<lparr>pane_id = pid, pane_tabs = [t], pane_active = Some (tab_path t)\<rparr>"
  by (simp add: pane_ok_def open_paths_def)

lemma allPanes_source:
  fixes g :: "EditorPane \<Rightarrow> EditorPane"
  assumes r: "rows_ok rows" and f: "findPaneIn rows pid = Some (ri, k, pane)"
  defines "src \<equiv> map (on_pane pid g)"
  shows "allPanes (rows[ri := (rows ! ri)\<lparr>row_panes := src (row_panes (rows ! ri))\<rparr>]) = src (allPanes rows)"
proof -
  have ri: "ri < length rows" and id: "pane_id pane = pid" using findPaneIn_Some [OF f] by simp_all
  have sp: "allPanes rows = allPanes (take ri rows) @ row_panes (rows ! ri) @ allPanes (drop (Suc ri) rows)"
    by (rule allPanes_split [OF ri])
  have "pane \<in> set (row_panes (rows ! ri))" using findPaneIn_Some [OF f] nth_mem by metis
  moreover have "distinct (pane_ids rows)" using r by (simp add: rows_ok_def)
  ultimately have "pid \<notin> pane_id ` (set (allPanes (take ri rows)) \<union> set (allPanes (drop (Suc ri) rows)))"
    using id unfolding pane_ids_def sp by auto
  then have "src (allPanes (take ri rows)) = allPanes (take ri rows)"
    "src (allPanes (drop (Suc ri) rows)) = allPanes (drop (Suc ri) rows)"
    by (auto simp: src_def on_pane_def has_id_def intro!: map_idI)
  then have "src (allPanes (take ri rows) @ row_panes (rows ! ri) @ allPanes (drop (Suc ri) rows)) =
      allPanes (take ri rows) @ src (row_panes (rows ! ri)) @ allPanes (drop (Suc ri) rows)"
    by (simp add: src_def)
  then show ?thesis unfolding allPanes_update [OF ri] sp [symmetric] by simp
qed

lemma editor_ok_new_pane:
  assumes "editor_ok ed" and "pane_ok new" and "pane_id new = genId ''pane'' clock (ed_counter ed + 1)"
    and "map pane_id ps = pane_ids (ed_rows ed)" and "list_all pane_ok ps"
    and "mset (allPanes rows') = mset (new # ps)" and "rows' \<noteq> []" and "length rows' \<le> MAX_ROWS"
    and "list_all row_ok rows'" and "ed_counter ed + 1 \<le> m"
  shows "editor_ok (ed\<lparr>ed_rows := rows', ed_active := pane_id new, ed_counter := m\<rparr>)"
proof -
  have old: "list_all (known_id (ed_counter ed)) (pane_ids (ed_rows ed))" "distinct (pane_ids (ed_rows ed))"
    using assms(1) by (auto simp: editor_ok_def rows_ok_def)
  then have new: "pane_id new \<notin> set (pane_ids (ed_rows ed))"
    using fresh_id [of "ed_counter ed" _ clock] assms(3) by (auto simp: list_all_iff)
  have "rows_ok rows'"
    using assms(2,4-9) old(2) new by (intro rows_ok_mset [of rows' "new # ps"]) simp_all
  moreover have ids: "set (pane_ids rows') = insert (pane_id new) (set (pane_ids (ed_rows ed)))"
  proof -
    have "mset (pane_ids rows') = mset (map pane_id (new # ps))" using assms(6) by (simp add: pane_ids_def)
    then have "set (pane_ids rows') = set (map pane_id (new # ps))" by (rule mset_eq_setD)
    with assms(4) show ?thesis by simp
  qed
  moreover have "known_id m i" if "i \<in> set (pane_ids rows')" for i
    using that old(1) assms(3,10) known_id_mono [of "ed_counter ed" i m] known_id_new [of "ed_counter ed + 1" m clock]
    unfolding ids by (auto simp: list_all_iff)
  ultimately show ?thesis by (simp add: editor_ok_def list_all_iff)
qed

lemma split_source_ok:
  assumes "pane_ok p" and "find (has_path path) (pane_tabs p) = Some tab"
    and "(if length (pane_tabs p) = 1 then (pane_tabs p, pane_active p) else without_tab path p) = (ts, a)"
  shows "pane_ok (set_pane ts a p)"
  using assms(1,3) without_tab_ok [OF assms(1,2), of ts a] by (auto simp: set_pane_def split: if_splits)

lemma splitTab_cases:
  obtains "snd (splitTab clock clock' pid path dir ed) = ed"
  | ri k pane tab where "findPaneIn (ed_rows ed) pid = Some (ri, k, pane)"
      "find (has_path path) (pane_tabs pane) = Some tab"
      "\<not> (dir = Horizontal \<and> MAX_COLS \<le> length (row_panes (ed_rows ed ! ri)))"
      "\<not> (dir = Vertical \<and> MAX_ROWS \<le> length (ed_rows ed))"
proof (cases "findPaneIn (ed_rows ed) pid")
  case None
  then show ?thesis using that(1) by (simp add: splitTab_def)
next
  case (Some x)
  then obtain ri k pane where f: "findPaneIn (ed_rows ed) pid = Some (ri, k, pane)" by (cases x) auto
  show ?thesis
  proof (cases "find (has_path path) (pane_tabs pane)")
    case None
    with f show ?thesis using that(1) by (simp add: splitTab_def)
  next
    case (Some tab)
    show ?thesis
    proof (cases "dir = Horizontal \<and> MAX_COLS \<le> length (row_panes (ed_rows ed ! ri)) \<or> dir = Vertical \<and> MAX_ROWS \<le> length (ed_rows ed)")
      case True
      with f Some show ?thesis using that(1) by (auto simp: splitTab_def)
    next
      case False
      with that(2) [OF f Some] show ?thesis by blast
    qed
  qed
qed

text \<open>The panes after a split that takes effect: the old ones, the source without the tab, and a new one.\<close>

lemma splitTab_panes:
  fixes clock :: string
  assumes r: "rows_ok (ed_rows ed)" and split: "findPaneIn (ed_rows ed) pid = Some (ri, k, pane)"
      "find (has_path path) (pane_tabs pane) = Some tab"
      "\<not> (dir = Horizontal \<and> MAX_COLS \<le> length (row_panes (ed_rows ed ! ri)))"
      "\<not> (dir = Vertical \<and> MAX_ROWS \<le> length (ed_rows ed))"
    and ta: "(if length (pane_tabs pane) = 1 then (pane_tabs pane, pane_active pane) else without_tab path pane) = (ts, a)"
  defines "new \<equiv> \<lparr>pane_id = genId ''pane'' clock (ed_counter ed + 1), pane_tabs = [tab], pane_active = Some path\<rparr>"
  shows "\<exists>rows' m. snd (splitTab clock clock' pid path dir ed) = ed\<lparr>ed_rows := rows', ed_active := pane_id new, ed_counter := m\<rparr> \<and>
    mset (allPanes rows') = mset (new # map (on_pane pid (set_pane ts a)) (allPanes (ed_rows ed))) \<and>
    rows' \<noteq> [] \<and> length rows' \<le> MAX_ROWS \<and> list_all row_ok rows' \<and> ed_counter ed + 1 \<le> m"
proof -
  let ?rows = "ed_rows ed"
  let ?row = "?rows ! ri"
  let ?src = "map (on_pane pid (set_pane ts a))"
  have ri: "ri < length ?rows" using findPaneIn_Some [OF split(1)] by simp
  have rk: "row_panes ?row \<noteq> []" "length (row_panes ?row) \<le> MAX_COLS" "length ?rows \<le> MAX_ROWS" "list_all row_ok ?rows"
    using r ri by (auto simp: rows_ok_def row_ok_def list_all_iff)
  have upd: "list_all row_ok (?rows[ri := q])" if "row_ok q" for q
    using rk(4) that set_update_subset_insert [of ?rows ri q] by (auto simp: list_all_iff)
  show ?thesis
  proof (cases dir)
    case Horizontal
    let ?r = "?row\<lparr>row_panes := insert_at (k + 1) new (?src (row_panes ?row))\<rparr>"
    have "mset (allPanes (?rows[ri := ?r])) = mset (new # ?src (allPanes ?rows))"
      unfolding allPanes_source [OF r split(1), symmetric] allPanes_update [OF ri] by (simp add: mset_insert_at)
    moreover have "row_ok ?r" using split(3) Horizontal by (auto simp: row_ok_def insert_at_def)
    moreover have "snd (splitTab clock clock' pid path dir ed) = ed\<lparr>ed_rows := ?rows[ri := ?r], ed_active := pane_id new, ed_counter := ed_counter ed + 1\<rparr>"
      using split ta Horizontal by (simp add: splitTab_def Let_def new_def split_beta)
    ultimately show ?thesis using upd [of ?r] rk(3) ri by (metis (no_types) length_list_update list_update_nonempty order_refl r rows_ok_def)
  next
    case Vertical
    let ?r = "?row\<lparr>row_panes := ?src (row_panes ?row)\<rparr>"
    let ?nr = "\<lparr>row_id = genId ''row'' clock' (ed_counter ed + 2), row_panes = [new]\<rparr>"
    let ?rows' = "insert_at (ri + 1) ?nr (?rows[ri := ?r])"
    have panes: "mset (allPanes ?rows') = mset (new # ?src (allPanes ?rows))"
      unfolding mset_allPanes_insert allPanes_source [OF r split(1)] by simp
    have "row_ok ?r" "row_ok ?nr" using rk by (auto simp: row_ok_def MAX_COLS_def)
    then have rows: "list_all row_ok ?rows'" using upd [of ?r] by (auto simp: list_all_iff set_insert_at)
    have len: "length ?rows' \<le> MAX_ROWS" using split(4) Vertical by simp
    have eq: "snd (splitTab clock clock' pid path dir ed) = ed\<lparr>ed_rows := ?rows', ed_active := pane_id new, ed_counter := ed_counter ed + 2\<rparr>"
      using split ta Vertical by (simp add: splitTab_def Let_def new_def split_beta)
    show ?thesis
      by (intro exI conjI) (rule eq, rule panes, rule insert_at_not_Nil, rule len, rule rows, simp)
  qed
qed

lemma editor_ok_split:
  assumes "editor_ok ed"
  shows "editor_ok (snd (splitTab clock clock' pid path dir ed))"
proof (rule splitTab_cases [of clock clock' pid path dir ed])
  assume "snd (splitTab clock clock' pid path dir ed) = ed"
  with assms show ?thesis by simp
next
  fix ri k pane tab
  assume split: "findPaneIn (ed_rows ed) pid = Some (ri, k, pane)"
    "find (has_path path) (pane_tabs pane) = Some tab"
    "\<not> (dir = Horizontal \<and> MAX_COLS \<le> length (row_panes (ed_rows ed ! ri)))"
    "\<not> (dir = Vertical \<and> MAX_ROWS \<le> length (ed_rows ed))"
  have r: "rows_ok (ed_rows ed)" using assms by (simp add: editor_ok_def)
  have p: "pane_ok pane" by (rule found_pane_ok [OF assms split(1)])
  obtain ts a where ta: "(if length (pane_tabs pane) = 1 then (pane_tabs pane, pane_active pane) else without_tab path pane) = (ts, a)"
    by (cases "if length (pane_tabs pane) = 1 then (pane_tabs pane, pane_active pane) else without_tab path pane")
  let ?new = "\<lparr>pane_id = genId ''pane'' clock (ed_counter ed + 1), pane_tabs = [tab], pane_active = Some path\<rparr>"
  let ?ps = "map (on_pane pid (set_pane ts a)) (allPanes (ed_rows ed))"
  from splitTab_panes [OF r split ta, of clock clock'] obtain rows' m
    where s: "snd (splitTab clock clock' pid path dir ed) = ed\<lparr>ed_rows := rows', ed_active := pane_id ?new, ed_counter := m\<rparr>"
      "mset (allPanes rows') = mset (?new # ?ps)" "rows' \<noteq> []" "length rows' \<le> MAX_ROWS" "list_all row_ok rows'"
      "ed_counter ed + 1 \<le> m" by blast
  have "tab_ok tab" "tab_path tab = path"
    using found_tab [OF split(2)] p by (auto simp: pane_ok_def list_all_iff)
  then have new: "pane_ok ?new" using pane_ok_single [of tab] by simp
  have ps: "map pane_id ?ps = pane_ids (ed_rows ed)" "list_all pane_ok ?ps"
    using pane_unique [OF r split(1)] pane_okD [OF r] split_source_ok [OF p split(2) ta]
    by (auto simp: list_all_iff on_pane_def has_id_def set_pane_def pane_ids_def)
  show ?thesis
    unfolding s(1) by (rule editor_ok_new_pane [OF assms new _ ps s(2-6)]) simp
qed

lemma pane_ok_insert:
  assumes "pane_ok p" and "tab_ok t" and "tab_path t \<notin> set (open_paths p)"
  shows "pane_ok (set_pane (insert_at i t (pane_tabs p)) (Some (tab_path t)) p)"
proof (rule pane_ok_setI)
  have "mset (map tab_path (insert_at i t (pane_tabs p))) = mset (tab_path t # open_paths p)"
    by (simp add: mset_insert_at open_paths_def)
  then show "distinct (map tab_path (insert_at i t (pane_tabs p)))"
    using assms(1,3) mset_eq_imp_distinct_iff unfolding pane_ok_def by (metis distinct.simps(2))
qed (use assms in \<open>auto simp: pane_ok_def list_all_iff set_insert_at\<close>)

text \<open>A move that takes effect, by the two ways it can.\<close>

lemma editor_ok_afterDrop:
  assumes "editor_ok ed" and "findPaneIn (ed_rows ed) fromPid = Some (ri, k, src)" and "fromPid \<noteq> toPid"
    and "find (has_path path) (pane_tabs src) = Some tab" and "toPid \<in> set (pane_ids (ed_rows ed))"
    and "\<And>p. p \<in> set (allPanes (ed_rows ed)) \<Longrightarrow> pane_id p = toPid \<Longrightarrow> path \<in> set (open_paths p)"
  shows "editor_ok (ed\<lparr>ed_rows := afterDrop (ed_rows ed) fromPid path toPid, ed_active := toPid\<rparr>)"
proof -
  let ?rows = "ed_rows ed"
  have r: "rows_ok ?rows" using assms(1) by (simp add: editor_ok_def)
  have p: "pane_ok src" by (rule found_pane_ok [OF assms(1,2)])
  obtain ts a where w: "without_tab path src = (ts, a)" by (cases "without_tab path src")
  let ?f = "\<lambda>p. if has_id fromPid p then set_pane ts a p else if has_id toPid p then p\<lparr>pane_active := Some path\<rparr> else p"
  have "pane_id (?f p) = pane_id p \<and> pane_ok (?f p)" if "p \<in> set (allPanes ?rows)" for p
    using without_tab_ok [OF p assms(4) w] pane_unique [OF r assms(2) that] pane_okD [OF r that] assms(6) [OF that]
      pane_ok_active [of p path] by (auto simp: has_id_def set_pane_def)
  note m = rows_ok_map_panes [OF r this]
  have ok: "editor_ok (ed\<lparr>ed_rows := map_panes ?f ?rows, ed_active := toPid\<rparr>)"
    using m assms(1,5) by (simp add: editor_ok_def)
  have "editor_ok (ed\<lparr>ed_rows := dropPane (map_panes ?f ?rows) fromPid, ed_active := toPid\<rparr>)"
    using ok assms(3) by (intro editor_ok_drop_other) auto
  with ok show ?thesis by (simp add: afterDrop_def assms(2) w Let_def)
qed

lemma editor_ok_moved:
  fixes i :: nat
  assumes "editor_ok ed" and "findPaneIn (ed_rows ed) fromPid = Some (ri, k, src)" and "fromPid \<noteq> toPid"
    and "find (has_path path) (pane_tabs src) = Some tab" and "findPaneIn (ed_rows ed) toPid = Some (rj, l, dst)"
    and "path \<notin> set (open_paths dst)" and "without_tab path src = (ts, a)"
  defines "dst' \<equiv> insert_at i tab (pane_tabs dst)"
  defines "both \<equiv> \<lambda>p. if has_id fromPid p then set_pane ts a p else if has_id toPid p then set_pane dst' (Some path) p else p"
  shows "editor_ok (ed\<lparr>ed_rows := map_panes both (ed_rows ed), ed_active := toPid\<rparr>)"
    and "editor_ok (ed\<lparr>ed_rows := dropPane (map_panes (on_pane toPid (set_pane dst' (Some path))) (ed_rows ed)) fromPid, ed_active := toPid\<rparr>)"
proof -
  let ?rows = "ed_rows ed"
  have r: "rows_ok ?rows" using assms(1) by (simp add: editor_ok_def)
  have src: "pane_ok src" "tab_ok tab" "tab_path tab = path"
    using found_pane_ok [OF assms(1,2)] found_tab [OF assms(4)] by (auto simp: pane_ok_def list_all_iff)
  have d: "pane_ok (set_pane dst' (Some path) dst)"
    using pane_ok_insert [OF found_pane_ok [OF assms(1,5)] src(2)] src(3) assms(6) by (simp add: dst'_def)
  have to: "toPid \<in> set (pane_ids ?rows)" using findPaneIn_None [of ?rows toPid] assms(5) by simp
  have "pane_id (both p) = pane_id p \<and> pane_ok (both p)" if "p \<in> set (allPanes ?rows)" for p
    using without_tab_ok [OF src(1) assms(4,7)] pane_unique [OF r assms(2) that] pane_unique [OF r assms(5) that]
      pane_okD [OF r that] d by (auto simp: both_def has_id_def set_pane_def)
  from rows_ok_map_panes [OF r this]
  show "editor_ok (ed\<lparr>ed_rows := map_panes both ?rows, ed_active := toPid\<rparr>)"
    using assms(1) to by (simp add: editor_ok_def)
  let ?g = "on_pane toPid (set_pane dst' (Some path))"
  have "pane_id (?g p) = pane_id p \<and> pane_ok (?g p)" if "p \<in> set (allPanes ?rows)" for p
    using pane_unique [OF r assms(5) that] pane_okD [OF r that] d by (auto simp: on_pane_def has_id_def set_pane_def)
  note m = rows_ok_map_panes [OF r this]
  have ok: "editor_ok (ed\<lparr>ed_rows := map_panes ?g ?rows, ed_active := toPid\<rparr>)"
    using m assms(1) to by (simp add: editor_ok_def)
  show "editor_ok (ed\<lparr>ed_rows := dropPane (map_panes ?g ?rows) fromPid, ed_active := toPid\<rparr>)"
    using ok assms(3) by (intro editor_ok_drop_other) auto
qed

lemma editor_ok_focus: "editor_ok ed \<Longrightarrow> pid \<in> set (pane_ids (ed_rows ed)) \<Longrightarrow> editor_ok (focusPane pid ed)"
  by (simp add: focusPane_def editor_ok_def)

lemma editor_ok_with_generations: "editor_ok (ed\<lparr>ed_rows := r, ed_active := a\<rparr>) \<Longrightarrow> editor_ok (ed\<lparr>ed_rows := r, ed_generations := g, ed_active := a\<rparr>)"
  by (simp add: editor_ok_def)

lemma editor_ok_move:
  assumes "editor_ok ed" and "toPid \<in> set (pane_ids (ed_rows ed))"
  shows "editor_ok (moveTab fromPid toPid path toIndex ed)"
proof -
  have r: "rows_ok (ed_rows ed)" using assms(1) by (simp add: editor_ok_def)
  obtain rj l dst where t: "findPaneIn (ed_rows ed) toPid = Some (rj, l, dst)"
    using assms(2) findPaneIn_None [of "ed_rows ed" toPid] by (cases "findPaneIn (ed_rows ed) toPid") auto
  show ?thesis
  proof (cases "fromPid = toPid \<or> findTab (ed_rows ed) fromPid path = None")
    case True
    then show ?thesis
      using assms t editor_ok_focus [OF assms] by (auto simp: moveTab_def findTab_def focusPane_def split: option.splits)
  next
    case False
    then obtain ri k src tab where s: "findPaneIn (ed_rows ed) fromPid = Some (ri, k, src)"
      "find (has_path path) (pane_tabs src) = Some tab" "fromPid \<noteq> toPid"
      by (auto simp: findTab_def split: option.splits)
    obtain ts a where w: "without_tab path src = (ts, a)" by (cases "without_tab path src")
    show ?thesis
    proof (cases "list_ex (has_path path) (pane_tabs dst)")
      case True
      then have "path \<in> set (open_paths dst)" by (auto simp: list_ex_iff open_paths_def has_path_def)
      then have "editor_ok (ed\<lparr>ed_rows := afterDrop (ed_rows ed) fromPid path toPid, ed_active := toPid\<rparr>)"
        using pane_unique [OF r t] by (intro editor_ok_afterDrop [OF assms(1) s(1,3,2) assms(2)]) auto
      with s t True show ?thesis by (simp add: moveTab_def)
    next
      case False
      then have "path \<notin> set (open_paths dst)" by (auto simp: list_ex_iff open_paths_def has_path_def)
      note moved = editor_ok_moved [OF assms(1) s(1,3,2) t this w]
      from s t False w show ?thesis
        using moved [THEN editor_ok_with_generations] by (simp add: moveTab_def Let_def) 
    qed
  qed
qed

end
