(* ===== verification/EditorProps.thy ===== *)
theory EditorProps
  imports EditorFacts
begin

text \<open>
  The editor as a machine driven by the user's actions and the server's answers, and what follows
  for the user's unsaved text: which actions keep it, and where the code loses it.
\<close>

section \<open>Events\<close>

text \<open>
  An action is handled after the render that precedes it, so the values it closes over are those
  of the current state. \<open>LoadAnswer\<close> and \<open>SaveAnswer\<close> may carry any answer to any request, also to
  one of an earlier session.
\<close>

datatype editor_event =
    Focus string
  | Open string string bool "string option"
  | Pin string string
  | Close string string
  | CloseMany string "string list"
  | Reorder string "string list"
  | Activate string string
  | Type string string text16
  | Reload string string string
  | LoadAnswer load_call "string + load_answer"
  | SaveAnswer string string "web_error + FileContents"
  | Rename string string
  | Split string string string string SplitDirection
  | Move string string string "int option"
  | SwitchSession

text \<open>What the panel offers: panes and tabs that exist, and new names that are not open.\<close>

fun offered :: "editor \<Rightarrow> editor_event \<Rightarrow> bool" where
  "offered ed (Focus pid) = (pid \<in> set (pane_ids (ed_rows ed)))"
| "offered ed (Open s path pin target) =
     (path \<noteq> [] \<and> (case target of None \<Rightarrow> True | Some q \<Rightarrow> q \<in> set (pane_ids (ed_rows ed))))"
| "offered ed (Activate pid path) = (findTab (ed_rows ed) pid path \<noteq> None)"
| "offered ed (Rename old new) = (new \<noteq> [] \<and> findTabPane (ed_rows ed) new = None)"
| "offered ed (Move from to path i) = (to \<in> set (pane_ids (ed_rows ed)))"
| "offered ed _ = True"

fun handle :: "editor \<Rightarrow> editor_event \<Rightarrow> editor" where
  "handle ed (Focus pid) = focusPane pid ed"
| "handle ed (Open s path pin target) = snd (openFile s (ed_rows ed, ed_active ed) path pin target ed)"
| "handle ed (Pin pid path) = pinTab pid path ed"
| "handle ed (Close pid path) = closeTab (ed_active ed) pid path ed"
| "handle ed (CloseMany pid paths) = closePaths (ed_active ed) pid paths ed"
| "handle ed (Reorder pid paths) = reorderTabs pid paths ed"
| "handle ed (Activate pid path) = activate pid path ed"
| "handle ed (Type pid path v) = setDraft pid path v ed"
| "handle ed (Reload s pid path) = snd (loadFile s pid path ed)"
| "handle ed (LoadAnswer c ans) = loadFile_done c ans ed"
| "handle ed (SaveAnswer pid path ans) = snd (save_done pid path ans ed)"
| "handle ed (Rename old new) = renameTab old new ed"
| "handle ed (Split k k' pid path dir) = snd (splitTab k k' pid path dir ed)"
| "handle ed (Move from to path i) = moveTab from to path i ed"
| "handle ed SwitchSession = initialState (ed_counter ed)"

definition editor_step :: "editor \<Rightarrow> editor_event \<Rightarrow> editor" where
  "editor_step ed e = (if offered ed e then handle ed e else ed)"

lemma map_panes_cong:
  assumes "\<And>p. p \<in> set (allPanes rows) \<Longrightarrow> f p = g p"
  shows "map_panes f rows = map_panes g rows"
proof -
  have "map f (row_panes r) = map g (row_panes r)" if "r \<in> set rows" for r
    using assms that by (auto simp: allPanes_def)
  then show ?thesis unfolding map_panes_def by simp
qed

lemma editor_ok_activate:
  assumes "editor_ok ed" and "findTab (ed_rows ed) pid path \<noteq> None"
  shows "editor_ok (activate pid path ed)"
proof -
  obtain ri k pane t where f: "findPaneIn (ed_rows ed) pid = Some (ri, k, pane)" "find (has_path path) (pane_tabs pane) = Some t"
    using assms(2) by (auto simp: findTab_def split: option.splits)
  have "pane_ok (set_pane (pane_tabs pane) (Some path) pane)"
    using found_pane_ok [OF assms(1) f(1)] found_tab [OF f(2)]
    by (intro pane_ok_setI) (auto simp: pane_ok_def open_paths_def)
  note ok = editor_ok_set_pane [OF assms(1) f(1) this]
  have r: "rows_ok (ed_rows ed)" using assms(1) by (simp add: editor_ok_def)
  have "on_pane pid (set_pane (pane_tabs pane) (Some path)) p = on_pane pid (\<lambda>p. p\<lparr>pane_active := Some path\<rparr>) p"
    if "p \<in> set (allPanes (ed_rows ed))" for p
    using pane_unique [OF r f(1) that] by (auto simp: on_pane_def has_id_def set_pane_def)
  then have "map_panes (on_pane pid (set_pane (pane_tabs pane) (Some path))) (ed_rows ed)
      = map_panes (on_pane pid (\<lambda>p. p\<lparr>pane_active := Some path\<rparr>)) (ed_rows ed)"
    by (rule map_panes_cong)
  moreover have "pid \<in> set (pane_ids (ed_rows ed))" using findPaneIn_None [of "ed_rows ed" pid] f(1) by auto
  ultimately show ?thesis
    using ok rows_ok_map_panes(2) [OF r, of "on_pane pid (\<lambda>p. p\<lparr>pane_active := Some path\<rparr>)"]
    by (simp add: activate_def editor_ok_def pane_ids_def on_pane_def comp_def if_distrib cong: if_cong)
qed

interpretation editing: machine editor_step editor_ok
proof
  show "editor_ok (editor_step ed e)" if ok: "editor_ok ed" for ed e
  proof (cases "offered ed e")
    case True
    then show ?thesis
      using ok
    proof (cases e)
      case (SaveAnswer pid path ans)
      have "snd (save_done pid path ans ed) = ed \<or> (\<exists>file. snd (save_done pid path ans ed) = applyFileContents pid path file ed)"
        by (auto simp: save_done_def split: sum.split web_error.split)
      with SaveAnswer ok show ?thesis using editor_ok_contents by (auto simp: editor_step_def)
    next
      case (Type pid path v)
      with ok show ?thesis
        by (auto simp: editor_step_def setDraft_def edit_tab_def tab_ok_def Let_def intro!: editor_ok_patch)
    qed (auto simp: editor_step_def pinTab_def tab_ok_def editor_ok_initial intro!: editor_ok_focus editor_ok_open
        editor_ok_patch editor_ok_close editor_ok_closePaths editor_ok_reorder editor_ok_activate editor_ok_loadFile
        editor_ok_load_done editor_ok_rename editor_ok_split editor_ok_move)
  qed (simp add: editor_step_def ok)
qed


section \<open>Unsaved text\<close>

text \<open>The unsaved drafts, with the files they belong to.\<close>

definition draft_of :: "EditorTab \<Rightarrow> (string \<times> text16) set" where
  "draft_of t = (case tab_draft t of None \<Rightarrow> {} | Some d \<Rightarrow> {(tab_path t, d)})"

definition drafts :: "EditorTab list \<Rightarrow> (string \<times> text16) set" where
  "drafts ts = \<Union> (draft_of ` set ts)"

definition unsaved :: "EditorRow list \<Rightarrow> (string \<times> text16) set" where
  "unsaved rows = \<Union> ((\<lambda>p. drafts (pane_tabs p)) ` set (allPanes rows))"

text \<open>
  The events that are meant to keep every draft: all but closing, typing over, renaming, the
  switch of the session, and an answer that replaces the text; a move counts when the target
  does not have the file open.
\<close>

fun keeps_edits :: "editor \<Rightarrow> editor_event \<Rightarrow> bool" where
  "keeps_edits ed (LoadAnswer c (Inl m)) = True"
| "keeps_edits ed (LoadAnswer c (Inr a)) = (mget (ed_generations ed) (lc_pane c, lc_path c) \<noteq> Some (lc_gen c))"
| "keeps_edits ed (SaveAnswer pid path (Inl e)) = True"
| "keeps_edits ed (Move from to path i) = (findTab (ed_rows ed) to path = None)"
| "keeps_edits ed (Focus pid) = True"
| "keeps_edits ed (Open s path pin target) = True"
| "keeps_edits ed (Pin pid path) = True"
| "keeps_edits ed (Reorder pid paths) = True"
| "keeps_edits ed (Activate pid path) = True"
| "keeps_edits ed (Reload s pid path) = True"
| "keeps_edits ed (Split k k' pid path dir) = True"
| "keeps_edits ed _ = False"

lemma drafts_simps [simp]:
  "drafts [] = {}" "drafts (t # ts) = draft_of t \<union> drafts ts" "drafts (ts @ us) = drafts ts \<union> drafts us"
  by (auto simp: drafts_def)

lemma drafts_map: "(\<And>t. draft_of (g t) = draft_of t) \<Longrightarrow> drafts (map g ts) = drafts ts"
  by (induction ts) auto

lemma drafts_mset: "mset ts = mset us \<Longrightarrow> drafts ts = drafts us"
  unfolding drafts_def by (metis mset_eq_setD)

lemma drafts_insert_at [simp]: "drafts (insert_at i t ts) = draft_of t \<union> drafts ts"
  by (simp add: drafts_def set_insert_at)

lemma unsaved_map_panes:
  assumes "\<And>p. p \<in> set (allPanes rows) \<Longrightarrow> drafts (pane_tabs p) \<subseteq> drafts (pane_tabs (f p))"
  shows "unsaved rows \<subseteq> unsaved (map_panes f rows)"
  using assms by (fastforce simp: unsaved_def)

lemma unsaved_patch:
  assumes "\<And>t. draft_of (patch t) = draft_of t"
  shows "unsaved (ed_rows ed) \<subseteq> unsaved (ed_rows (patchTab pid path patch ed))"
proof -
  have "drafts (map (\<lambda>t. if has_path path t then patch t else t) ts) = drafts ts" for ts
    by (rule drafts_map) (simp add: assms)
  then show ?thesis by (auto simp: patchTab_def on_pane_def intro!: unsaved_map_panes [THEN subsetD])
qed

lemma unsaved_loadFile: "unsaved (ed_rows ed) \<subseteq> unsaved (ed_rows (snd (loadFile s pid path ed)))"
proof -
  have "unsaved (ed_rows ed) = unsaved (ed_rows (snd (nextGeneration (pid, path) ed)))"
    by (simp add: nextGeneration_def Let_def)
  also have "\<dots> \<subseteq> unsaved (ed_rows (snd (loadFile s pid path ed)))"
    unfolding loadFile_def
    by (simp add: split_beta) (rule unsaved_patch, simp add: draft_of_def split: option.split)
  finally show ?thesis .
qed

lemma unsaved_loadFile_from: "U \<subseteq> unsaved (ed_rows ed) \<Longrightarrow> U \<subseteq> unsaved (ed_rows (snd (loadFile s pid path ed)))"
  using unsaved_loadFile by (rule subset_trans [rotated])

lemma open_keeps_drafts:
  assumes "pane_ok p"
  shows "drafts (pane_tabs p) \<subseteq> drafts (pane_tabs (open_in_pane path pin p))"
proof (cases "find (has_path path) (pane_tabs p)")
  case (Some x)
  have "drafts (map (\<lambda>t. if has_path path t then t\<lparr>tab_pinned := True\<rparr> else t) ts) = drafts ts" for ts
    by (rule drafts_map) (simp add: draft_of_def split: option.split)
  then show ?thesis using Some by (simp add: open_in_pane_def)
next
  case None
  show ?thesis
  proof (cases "if pin then None else find_index (\<lambda>t. \<not> tab_pinned t) (pane_tabs p)")
    case (Some i)
    then have i: "i < length (pane_tabs p)" "\<not> tab_pinned (pane_tabs p ! i)"
      by (auto split: if_splits dest: find_index_Some)
    then have "draft_of (pane_tabs p ! i) = {}"
      using assms by (auto simp: pane_ok_def list_all_iff tab_ok_def draft_of_def split: option.split)
    moreover have "drafts (pane_tabs p) = drafts (take i (pane_tabs p)) \<union> draft_of (pane_tabs p ! i) \<union> drafts (drop (Suc i) (pane_tabs p))"
      by (subst id_take_nth_drop [OF i(1)]) (simp only: drafts_simps Un_assoc)
    ultimately show ?thesis using None Some i(1) by (auto simp: open_in_pane_def upd_conv_take_nth_drop)
  next
    case none: None
    then show ?thesis using None by (auto simp: open_in_pane_def)
  qed
qed

lemma drafts_without:
  assumes "distinct (map tab_path ts)" and "find (has_path path) ts = Some tab"
  shows "drafts ts = draft_of tab \<union> drafts (filter (\<lambda>t. \<not> has_path path t) ts)"
proof -
  have "t = tab" if "t \<in> set ts" "has_path path t" for t
    using that found_tab [OF assms(2)] assms(1) by (auto simp: has_path_def distinct_map dest: inj_onD)
  then have "set ts = insert tab (set (filter (\<lambda>t. \<not> has_path path t) ts))"
    using found_tab [OF assms(2)] by auto
  then show ?thesis unfolding drafts_def by (metis Union_insert image_insert)
qed

lemma drafts_without_tab:
  assumes "pane_ok p" and "find (has_path path) (pane_tabs p) = Some tab" and "without_tab path p = (ts, a)"
  shows "drafts (pane_tabs p) = draft_of tab \<union> drafts ts"
  using drafts_without [of "pane_tabs p" path tab] assms by (auto simp: pane_ok_def open_paths_def without_tab_def)

lemma unsaved_split:
  assumes "editor_ok ed"
  shows "unsaved (ed_rows ed) \<subseteq> unsaved (ed_rows (snd (splitTab clock clock' pid path dir ed)))"
proof (rule splitTab_cases [of clock clock' pid path dir ed])
  assume "snd (splitTab clock clock' pid path dir ed) = ed"
  then show ?thesis by simp
next
  fix ri k pane tab
  assume split: "findPaneIn (ed_rows ed) pid = Some (ri, k, pane)"
    "find (has_path path) (pane_tabs pane) = Some tab"
    "\<not> (dir = Horizontal \<and> MAX_COLS \<le> length (row_panes (ed_rows ed ! ri)))"
    "\<not> (dir = Vertical \<and> MAX_ROWS \<le> length (ed_rows ed))"
  have r: "rows_ok (ed_rows ed)" using assms by (simp add: editor_ok_def)
  have p: "pane_ok pane" by (rule found_pane_ok [OF assms split(1)])
  obtain ts a where ta: "(if length (pane_tabs pane) = 1 then (pane_tabs pane, pane_active pane) else without_tab path pane) = (ts, a)"
    by (cases "if length (pane_tabs pane) = 1 then (pane_tabs pane, pane_active pane) else without_tab path pane")
  from splitTab_panes [OF r split ta, of clock clock'] obtain rows' m
    where s: "ed_rows (snd (splitTab clock clock' pid path dir ed)) = rows'"
      "mset (allPanes rows') = mset (\<lparr>pane_id = genId ''pane'' clock (ed_counter ed + 1), pane_tabs = [tab], pane_active = Some path\<rparr>
         # map (on_pane pid (set_pane ts a)) (allPanes (ed_rows ed)))" by force
  have u: "unsaved rows' = draft_of tab \<union> \<Union> ((\<lambda>p. drafts (pane_tabs (on_pane pid (set_pane ts a) p))) ` set (allPanes (ed_rows ed)))"
    unfolding unsaved_def mset_eq_setD [OF s(2)] by (simp add: image_image)
  have "drafts (pane_tabs q) \<subseteq> draft_of tab \<union> drafts (pane_tabs (on_pane pid (set_pane ts a) q))"
    if "q \<in> set (allPanes (ed_rows ed))" for q
    using pane_unique [OF r split(1) that] ta drafts_without_tab [OF p split(2), of ts a]
    by (auto simp: on_pane_def has_id_def set_pane_def split: if_splits)
  then show ?thesis unfolding s(1) u by (auto simp: unsaved_def)
qed

lemma kept_by_dropPane: "p \<in> set (allPanes rows) \<Longrightarrow> pane_id p \<noteq> pid \<Longrightarrow> p \<in> set (allPanes (dropPane rows pid))"
  by (auto simp: allPanes_dropPane Let_def filter_empty_conv)

lemma unsaved_dropPane:
  assumes "\<And>p. p \<in> set (allPanes rows) \<Longrightarrow> pane_id p = pid \<Longrightarrow> drafts (pane_tabs p) \<subseteq> unsaved (dropPane rows pid)"
  shows "unsaved rows \<subseteq> unsaved (dropPane rows pid)"
proof -
  have "drafts (pane_tabs p) \<subseteq> unsaved (dropPane rows pid)" if "p \<in> set (allPanes rows)" for p
  proof (cases "pane_id p = pid")
    case False
    with that have "p \<in> set (allPanes (dropPane rows pid))" by (rule kept_by_dropPane)
    then show ?thesis by (auto simp: unsaved_def)
  qed (use assms that in blast)
  then show ?thesis by (auto simp: unsaved_def [of rows])
qed

lemma unsaved_mem: "p \<in> set (allPanes rows) \<Longrightarrow> drafts (pane_tabs p) \<subseteq> unsaved rows"
  by (auto simp: unsaved_def)

lemma unsaved_moved:
  assumes ok: "editor_ok ed" and src: "findPaneIn (ed_rows ed) fromPid = Some (ri, k, src)" and ne: "fromPid \<noteq> toPid"
    and tab: "find (has_path path) (pane_tabs src) = Some tab" and dst: "findPaneIn (ed_rows ed) toPid = Some (rj, l, dst)"
    and w: "without_tab path src = (ts, a)"
  shows "unsaved (ed_rows ed) \<subseteq> unsaved (map_panes (\<lambda>p. if has_id fromPid p then set_pane ts a p
        else if has_id toPid p then set_pane (insert_at i tab (pane_tabs dst)) (Some path) p else p) (ed_rows ed))"
      (is "_ \<subseteq> unsaved ?both")
    and "ts = [] \<Longrightarrow> unsaved (ed_rows ed) \<subseteq> unsaved (dropPane (map_panes
        (on_pane toPid (set_pane (insert_at i tab (pane_tabs dst)) (Some path))) (ed_rows ed)) fromPid)"
proof -
  let ?rows = "ed_rows ed"
  let ?dst = "set_pane (insert_at i tab (pane_tabs dst)) (Some path) dst"
  have r: "rows_ok ?rows" using ok by (simp add: editor_ok_def)
  have d: "drafts (pane_tabs src) = draft_of tab \<union> drafts ts"
    by (rule drafts_without_tab [OF found_pane_ok [OF ok src] tab w])
  note uniq = pane_unique [OF r src] pane_unique [OF r dst]
  have dmem: "dst \<in> set (allPanes ?rows)" "pane_id dst = toPid" using findPaneIn_Some [OF dst] by auto
  have "?dst \<in> set (allPanes ?both)"
    using dmem ne by (auto simp: has_id_def intro!: image_eqI [of _ _ dst])
  then have tabin: "draft_of tab \<subseteq> unsaved ?both"
    using unsaved_mem [of ?dst ?both] by (simp add: set_pane_def)
  have "drafts (pane_tabs q) \<subseteq> unsaved ?both" if q: "q \<in> set (allPanes ?rows)" for q
  proof -
    let ?q = "if has_id fromPid q then set_pane ts a q
        else if has_id toPid q then set_pane (insert_at i tab (pane_tabs dst)) (Some path) q else q"
    have "?q \<in> set (allPanes ?both)" using q by simp
    then have "drafts (pane_tabs ?q) \<subseteq> unsaved ?both" by (rule unsaved_mem)
    with tabin d uniq [OF q] show ?thesis by (auto simp: has_id_def set_pane_def split: if_splits)
  qed
  then show "unsaved ?rows \<subseteq> unsaved ?both" by (auto simp: unsaved_def [of ?rows])
  assume "ts = []"
  let ?g = "on_pane toPid (set_pane (insert_at i tab (pane_tabs dst)) (Some path))"
  let ?rows1 = "map_panes ?g ?rows"
  have "drafts (pane_tabs q) \<subseteq> drafts (pane_tabs (?g q))" if "q \<in> set (allPanes ?rows)" for q
    using uniq(2) [OF that] by (auto simp: on_pane_def has_id_def set_pane_def)
  then have "unsaved ?rows \<subseteq> unsaved ?rows1" by (rule unsaved_map_panes)
  also have "\<dots> \<subseteq> unsaved (dropPane ?rows1 fromPid)"
  proof (rule unsaved_dropPane)
    fix q assume q: "q \<in> set (allPanes ?rows1)" "pane_id q = fromPid"
    then obtain q0 where q0: "q0 \<in> set (allPanes ?rows)" "q = ?g q0" by auto
    then have "q = q0" "q0 = src"
      using q(2) uniq(1) [OF q0(1)] ne by (auto simp: on_pane_def has_id_def set_pane_def split: if_splits)
    then have "drafts (pane_tabs q) = draft_of tab" using d \<open>ts = []\<close> by simp
    also have "?dst \<in> set (allPanes ?rows1)"
      using dmem by (auto simp: on_pane_def has_id_def intro!: image_eqI [of _ _ dst])
    then have "?dst \<in> set (allPanes (dropPane ?rows1 fromPid))"
      by (rule kept_by_dropPane) (use dmem(2) ne in \<open>simp add: set_pane_def\<close>)
    then have "draft_of tab \<subseteq> unsaved (dropPane ?rows1 fromPid)"
      using unsaved_mem [of ?dst "dropPane ?rows1 fromPid"] by (simp add: set_pane_def)
    finally show "drafts (pane_tabs q) \<subseteq> unsaved (dropPane ?rows1 fromPid)" .
  qed
  finally show "unsaved ?rows \<subseteq> unsaved (dropPane ?rows1 fromPid)" .
qed

lemma unsaved_move:
  assumes "editor_ok ed" and "findTab (ed_rows ed) toPid path = None"
  shows "unsaved (ed_rows ed) \<subseteq> unsaved (ed_rows (moveTab fromPid toPid path i ed))"
proof (cases "fromPid = toPid \<or> findTab (ed_rows ed) fromPid path = None \<or> findPaneIn (ed_rows ed) toPid = None")
  case True
  then show ?thesis
    by (auto simp: moveTab_def findTab_def split: option.splits prod.splits)
next
  case False
  then obtain ri k src tab rj l dst where s: "findPaneIn (ed_rows ed) fromPid = Some (ri, k, src)"
    "find (has_path path) (pane_tabs src) = Some tab" "fromPid \<noteq> toPid" "findPaneIn (ed_rows ed) toPid = Some (rj, l, dst)"
    by (auto simp: findTab_def split: option.splits)
  obtain ts a where w: "without_tab path src = (ts, a)" by (cases "without_tab path src")
  have "\<not> list_ex (has_path path) (pane_tabs dst)"
    using assms(2) s(4) by (auto simp: findTab_def find_None_iff list_ex_iff)
  with s w unsaved_moved [OF assms(1) s(1,3,2,4) w] show ?thesis by (simp add: moveTab_def Let_def)
qed

lemma unsaved_reorder:
  assumes "editor_ok ed"
  shows "unsaved (ed_rows ed) \<subseteq> unsaved (ed_rows (reorderTabs pid paths ed))"
proof -
  have r: "rows_ok (ed_rows ed)" using assms by (simp add: editor_ok_def)
  have "drafts (reordered paths (pane_tabs p)) = drafts (pane_tabs p)" if "p \<in> set (allPanes (ed_rows ed))" for p
    using pane_okD [OF r that] by (intro drafts_mset mset_reordered) (simp add: pane_ok_def open_paths_def)
  then show ?thesis by (auto simp: reorderTabs_def on_pane_def intro!: unsaved_map_panes [THEN subsetD])
qed

lemma unsaved_open:
  assumes "editor_ok ed"
  shows "unsaved (ed_rows ed) \<subseteq> unsaved (ed_rows (snd (openFile s seen path pin target ed)))"
proof -
  have r: "rows_ok (ed_rows ed)" using assms by (simp add: editor_ok_def)
  have "unsaved (ed_rows ed) \<subseteq> unsaved (map_panes (on_pane pid (open_in_pane path pin)) (ed_rows ed))" for pid
    using open_keeps_drafts pane_okD [OF r] by (intro unsaved_map_panes) (auto simp: on_pane_def)
  then show ?thesis
    unfolding openFile_def Let_def by (simp add: split_beta unsaved_loadFile_from)
qed

text \<open>
  C7. Unsaved text survives everything but what is meant to discard it: opening other files (also
  through the preview slot), focusing, pinning, reordering, splitting, moving to a pane that does
  not have the file, starting a reload, an error answer, and the answer to a superseded load all
  keep every unsaved draft of every pane.
\<close>

theorem unsaved_text_kept:
  assumes "editor_ok ed" and "keeps_edits ed e"
  shows "unsaved (ed_rows ed) \<subseteq> unsaved (ed_rows (editor_step ed e))"
proof (cases "offered ed e")
  case False
  then show ?thesis by (simp add: editor_step_def)
next
  case True
  have same: "draft_of (t\<lparr>tab_pinned := True\<rparr>) = draft_of t" "draft_of (t\<lparr>tab_loading := b, tab_error := m\<rparr>) = draft_of t" for t b m
    by (simp_all add: draft_of_def split: option.split)
  have "unsaved (ed_rows ed) \<subseteq> unsaved (ed_rows (handle ed e))"
  proof (cases e)
    case (LoadAnswer c ans)
    with assms(2) show ?thesis
      by (cases ans) (simp_all add: loadFile_done_def same unsaved_patch)
  next
    case (SaveAnswer pid path ans)
    with assms(2) show ?thesis by (cases ans) (simp_all add: save_done_def split: web_error.split)
  next
    case (Activate pid path)
    have "unsaved (ed_rows ed) \<subseteq> unsaved (ed_rows (activate pid path ed))"
      unfolding activate_def by (auto simp: on_pane_def intro!: unsaved_map_panes [THEN subsetD])
    with Activate show ?thesis by simp
  next
    case (Pin pid path)
    then show ?thesis by (simp add: pinTab_def same unsaved_patch)
  next
    case (Split k k' pid path dir)
    then show ?thesis by (simp add: unsaved_split assms(1))
  next
    case (Move fromPid toPid path i)
    with assms show ?thesis by (simp add: unsaved_move)
  next
    case (Open s path pin target)
    then show ?thesis by (simp add: unsaved_open assms(1))
  next
    case (Reorder pid paths)
    then show ?thesis by (simp add: unsaved_reorder assms(1))
  qed (use assms(2) in \<open>simp_all add: focusPane_def unsaved_loadFile\<close>)
  with True show ?thesis by (simp add: editor_step_def)
qed

text \<open>A pinned tab with unsaved text beside a preview tab.\<close>

definition demo_editor :: editor where
  "demo_editor = foldl editor_step (initialState 0)
     [Open ''s1'' ''/a.md'' True None, Type ''pane_root'' ''/a.md'' (text_of ''draft''), Open ''s1'' ''/b.md'' False None]"

lemma demo_editor_ok: "editor_ok demo_editor"
  unfolding demo_editor_def by (rule editing.run_good [OF editor_ok_initial])

theorem unsaved_text_kept_witness:
  "unsaved (ed_rows demo_editor) \<subseteq> unsaved (ed_rows (editor_step demo_editor (Open ''s1'' ''/c.md'' False None))) \<and>
   (''/a.md'', text_of ''draft'') \<in> unsaved (ed_rows demo_editor)"
proof
  show "unsaved (ed_rows demo_editor) \<subseteq> unsaved (ed_rows (editor_step demo_editor (Open ''s1'' ''/c.md'' False None)))"
    by (rule unsaved_text_kept [OF demo_editor_ok]) simp
  show "(''/a.md'', text_of ''draft'') \<in> unsaved (ed_rows demo_editor)" by code_simp
qed

section \<open>Where typed text is lost\<close>

lemma findPaneIn_map_panes:
  assumes "\<And>p. pane_id (f p) = pane_id p"
  shows "findPaneIn (map_panes f rows) pid = map_option (\<lambda>(i, k, p). (i, k, f p)) (findPaneIn rows pid)"
proof (induction rows)
  case (Cons r rs)
  have "find_index (has_id pid) (map f ps) = find_index (has_id pid) ps" for ps
    by (induction ps) (simp_all add: has_id_def assms)
  moreover have "k < length ps" if "find_index (has_id pid) ps = Some k" for ps k
    using find_index_Some [OF that] by simp
  ultimately show ?case using Cons
    by (cases "findPaneIn rs pid") (auto simp: map_panes_def split: option.split)
qed (simp add: map_panes_def)

lemma find_map_tab:
  "(\<And>t. tab_path (g t) = tab_path t) \<Longrightarrow>
     find (has_path path) (map (\<lambda>t. if has_path path t then g t else t) ts) = map_option g (find (has_path path) ts)"
  by (induction ts) (auto simp: has_path_def)

lemma findTab_patch:
  assumes "\<And>t. tab_path (g t) = tab_path t"
  shows "findTab (ed_rows (patchTab pid path g ed)) pid path = map_option g (findTab (ed_rows ed) pid path)"
proof -
  have "pane_id (on_pane pid (\<lambda>p. p\<lparr>pane_tabs := map h (pane_tabs p)\<rparr>) p) = pane_id p" for p h
    by (simp add: on_pane_def)
  note f = findPaneIn_map_panes [OF this]
  have id: "has_id pid p" if "findPaneIn (ed_rows ed) pid = Some (i, k, p)" for i k p
    using findPaneIn_Some [OF that] by (simp add: has_id_def)
  show ?thesis
    by (auto simp: findTab_def patchTab_def f on_pane_def find_map_tab [OF assms] dest: id split: option.splits)
qed

text \<open>
  Text typed while a save is in flight is lost. The user saves, goes on typing \<open>v\<close>, and the
  server answers with the file it wrote: the editor reports \<open>Saved\<close>, and the tab has no draft and
  shows the text as it was sent, whatever was typed since.
\<close>

theorem save_discards_typing:
  assumes "save_call (ed_rows ed) pid path None = Inr args" and "contents_content file = sa_content args"
  shows "fst (save_done pid path (Inr file) (setDraft pid path v ed)) = Saved \<and>
    (\<exists>t. findTab (ed_rows (snd (save_done pid path (Inr file) (setDraft pid path v ed)))) pid path = Some t \<and>
       tab_draft t = None \<and> tab_savedContent t = Some (sa_content args))"
proof -
  obtain t where "findTab (ed_rows ed) pid path = Some t"
    using assms(1) by (auto simp: save_call_def findTab_def split: option.splits prod.splits)
  then show ?thesis
    using assms(2) by (simp add: save_done_def applyFileContents_def setDraft_def findTab_patch edit_tab_def Let_def)
qed

theorem save_discards_typing_witness:
  "(\<exists>t. findTab (ed_rows (snd (save_done ''pane_root'' ''/a.md'' (Inr \<lparr>contents_path = ''/a.md'',
       contents_content = text_of ''draft'', contents_encoding = Utf8, contents_size = 5, contents_mtime = 9,
       contents_isBinary = False, contents_truncated = False\<rparr>)
       (setDraft ''pane_root'' ''/a.md'' (text_of ''draft, and more'') demo_editor)))) ''pane_root'' ''/a.md'' = Some t \<and>
     tab_draft t = None \<and> tab_savedContent t = Some (text_of ''draft''))"
proof -
  have "case save_call (ed_rows demo_editor) ''pane_root'' ''/a.md'' None of Inl _ \<Rightarrow> False
      | Inr args \<Rightarrow> sa_content args = text_of ''draft''" by code_simp
  then obtain args where "save_call (ed_rows demo_editor) ''pane_root'' ''/a.md'' None = Inr args"
    "sa_content args = text_of ''draft''" by (auto split: sum.splits)
  with save_discards_typing [OF this(1), of "\<lparr>contents_path = ''/a.md'',
       contents_content = text_of ''draft'', contents_encoding = Utf8, contents_size = 5, contents_mtime = 9,
       contents_isBinary = False, contents_truncated = False\<rparr>" "text_of ''draft, and more''"]
  show ?thesis by simp
qed

text \<open>
  The answer to a load can reach another session. The generations start again from one when
  the session changes, and a request carries no session: with the same file open in the first
  pane of both sessions, the answer to the old session's request is taken for the new one's, and
  the new session's tab shows the old session's file.
\<close>

theorem load_crosses_sessions:
  assumes "path \<noteq> []" and "binaryViewerFor path = None"
  shows "\<exists>c1 e1 c2 e2 t.
    openFile s1 (initial_rows, ''pane_root'') path pin None (initialState n) = (Some c1, e1) \<and>
    openFile s2 (initial_rows, ''pane_root'') path pin None (editor_step e1 SwitchSession) = (Some c2, e2) \<and>
    lc_session c1 = s1 \<and> lc_session c2 = s2 \<and>
    findTab (ed_rows (loadFile_done c1 (Inr (GotContents file)) e2)) ''pane_root'' path = Some t \<and>
    tab_savedContent t = Some (contents_content file) \<and> \<not> tab_loading t"
proof -
  have one: "openFile s (initial_rows, ''pane_root'') path pin None (initialState m) =
      (Some \<lparr>lc_session = s, lc_pane = ''pane_root'', lc_path = path, lc_gen = 1, lc_viewerOnly = False\<rparr>,
       \<lparr>ed_rows = [\<lparr>row_id = ''row_root'', row_panes = [\<lparr>pane_id = ''pane_root'',
          pane_tabs = [emptyTab path pin], pane_active = Some path\<rparr>]\<rparr>],
        ed_active = ''pane_root'', ed_generations = [((''pane_root'', path), 1)], ed_counter = m\<rparr>)" for s m
    using assms(2)
    by (simp add: openFile_def Let_def findTabPane_def initialState_def loadFile_def nextGeneration_def patchTab_def
        replaced_preview_def List.map_filter_def open_in_pane_def on_pane_def has_id_def has_path_def emptyTab_def
        map_panes_def initial_rows_def allPanes_def)
  show ?thesis
    unfolding one
    by (simp add: editor_step_def one loadFile_done_def applyFileContents_def findTab_patch)
      (simp add: findTab_def has_id_def has_path_def emptyTab_def)
qed

theorem load_crosses_sessions_witness:
  "\<exists>c1 e1 c2 e2 t.
    openFile ''s1'' (initial_rows, ''pane_root'') ''/.env'' True None (initialState 0) = (Some c1, e1) \<and>
    openFile ''s2'' (initial_rows, ''pane_root'') ''/.env'' True None (editor_step e1 SwitchSession) = (Some c2, e2) \<and>
    lc_session c1 = ''s1'' \<and> lc_session c2 = ''s2'' \<and>
    findTab (ed_rows (loadFile_done c1 (Inr (GotContents \<lparr>contents_path = ''/.env'', contents_content = text_of ''KEY=1'',
       contents_encoding = Utf8, contents_size = 5, contents_mtime = 9, contents_isBinary = False,
       contents_truncated = False\<rparr>)) e2)) ''pane_root'' ''/.env'' = Some t \<and>
    tab_savedContent t = Some (text_of ''KEY=1'') \<and> \<not> tab_loading t"
proof -
  have "binaryViewerFor ''/.env'' = None" by code_simp
  from load_crosses_sessions [OF _ this, of "''s1''" True 0 "''s2''" "\<lparr>contents_path = ''/.env'', contents_content = text_of ''KEY=1'',
       contents_encoding = Utf8, contents_size = 5, contents_mtime = 9, contents_isBinary = False,
       contents_truncated = False\<rparr>"] show ?thesis by simp
qed

section \<open>Answers that nobody takes\<close>

text \<open>Of two loads of the same tab, only the later one's answer counts.\<close>

lemma superseded_load_ignored:
  assumes "loadFile s pid path ed = (c1, e1)" and "loadFile s' pid path e1 = (c2, e2)"
  shows "loadFile_done c1 ans e2 = e2" and "loadFile_done c2 (Inr (GotContents file)) e2 = applyFileContents pid path file e2"
  using assms by (auto simp: loadFile_def nextGeneration_def Let_def loadFile_done_def patchTab_def)

lemma rename_forgets:
  "oldPath \<noteq> newPath \<Longrightarrow> mget m (pid, oldPath) = None \<or> (\<exists>p \<in> set ps. pane_id p = pid \<and> list_ex (has_path oldPath) (pane_tabs p)) \<Longrightarrow>
     mget (foldl (rename_generation oldPath newPath) m ps) (pid, oldPath) = None"
proof (induction ps arbitrary: m)
  case (Cons q qs)
  have "mget (rename_generation oldPath newPath m q) (pid, oldPath) = None"
    if "mget m (pid, oldPath) = None \<or> pane_id q = pid \<and> list_ex (has_path oldPath) (pane_tabs q)"
    using that Cons.prems(1) by (auto simp: rename_generation_def split: option.split)
  with Cons show ?case by auto
qed simp

text \<open>
  A file renamed while it loads stays in the loading state: the generation moves to the new name,
  the answer looks for the old one. The same happens to a tab that is moved to another pane.
\<close>

lemma rename_strands_load:
  assumes "oldPath \<noteq> newPath" and "p \<in> set (allPanes (ed_rows ed))" and "pane_id p = lc_pane c"
    and "list_ex (has_path oldPath) (pane_tabs p)" and "lc_path c = oldPath"
  shows "loadFile_done c ans (renameTab oldPath newPath ed) = renameTab oldPath newPath ed"
proof -
  have "\<exists>p \<in> set (allPanes (ed_rows ed)). pane_id p = lc_pane c \<and> list_ex (has_path oldPath) (pane_tabs p)"
    using assms(2-4) by blast
  then have "mget (ed_generations (renameTab oldPath newPath ed)) (lc_pane c, oldPath) = None"
    using rename_forgets [OF assms(1)] by (simp add: renameTab_def)
  then show ?thesis using assms(5) by (simp add: loadFile_done_def)
qed

lemma move_strands_load:
  assumes "findPaneIn (ed_rows ed) fromPid = Some (ri, k, src)" and "findPaneIn (ed_rows ed) toPid = Some (rj, l, dst)"
    and "find (has_path path) (pane_tabs src) = Some tab" and "\<not> list_ex (has_path path) (pane_tabs dst)"
    and "fromPid \<noteq> toPid" and "lc_pane c = fromPid" and "lc_path c = path"
  shows "loadFile_done c ans (moveTab fromPid toPid path i ed) = moveTab fromPid toPid path i ed"
  using assms by (simp add: loadFile_done_def moveTab_def Let_def split: prod.split)

text \<open>
  The panel closes the tabs of a deleted folder in one handler, so the later calls still see the
  focus of the render before: the focus then is left on a pane that is gone.
\<close>

lemma stale_close_leaves_focus:
  "let ed = foldl editor_step (initialState 0)
         [Open ''s1'' ''/d/a'' True None, Open ''s1'' ''/d/b'' True None, Split ''k'' ''k'' ''pane_root'' ''/d/b'' Horizontal,
          Open ''s1'' ''/keep'' True None, Split ''k'' ''k'' ''pane_k_1'' ''/keep'' Horizontal];
       seen = ed_active (editor_step ed (Focus ''pane_k_1''));
       gone = closeTab seen ''pane_root'' ''/d/a'' (closeTab seen ''pane_k_1'' ''/d/b'' (editor_step ed (Focus ''pane_k_1'')))
   in pane_ids (ed_rows gone) = [''pane_k_2''] \<and> ed_active gone = ''pane_root''"
  by code_simp

end
