(* ===== verification/Workflow.thy ===== *)
theory Workflow
  imports Codec Accumulator
begin

text \<open>
  The workflow builder of the web client: the graph and its node types
  (\<open>features/workflows/lib/types.ts\<close>, \<open>node-registry.ts\<close>), the assistant's plans
  (\<open>assistant-plan.ts\<close>), the undo history (\<open>use-workflow-history.ts\<close>), the debounced save
  (\<open>use-auto-save.ts\<close>) and the operations of \<open>providers/workflow-builder-provider.tsx\<close>. React Flow
  is not part of the program: its \<open>addEdge\<close> is a parameter.
\<close>

section \<open>The graph\<close>

type_synonym node_data = "(string, json) jmap"

record wf_node =
  nd_id :: string
  nd_type :: string
  nd_position :: "rat \<times> rat"
  nd_data :: node_data
  nd_selected :: bool

record wf_edge =
  eg_id :: string
  eg_source :: string
  eg_target :: string
  eg_sourceHandle :: "string option"
  eg_targetHandle :: "string option"
  eg_selected :: bool

definition NODE_TYPES :: "string list" where
  "NODE_TYPES = [''manual_trigger'', ''webhook_trigger'', ''agent_step'', ''condition'', ''merge'',
     ''payload_parser'', ''template'']"

record node_definition =
  df_type :: string
  df_label :: string
  df_category :: string
  df_defaultData :: node_data

definition registry_entry :: "string \<Rightarrow> string \<Rightarrow> string \<Rightarrow> node_data \<Rightarrow> node_definition" where
  "registry_entry t label category rest =
     \<lparr>df_type = t, df_label = label, df_category = category, df_defaultData = (''label'', JStr label) # rest\<rparr>"

definition NODE_REGISTRY :: "node_definition list" where
  "NODE_REGISTRY =
    [registry_entry ''manual_trigger'' ''Manual Trigger'' ''trigger'' [],
     registry_entry ''webhook_trigger'' ''Webhook Trigger'' ''trigger'' [(''path'', JStr ''/webhook'')],
     registry_entry ''agent_step'' ''Agent Step'' ''agent''
       [(''instruction'', JStr []), (''model_config'', JObj [(''backend'', JStr []), (''model'', JStr [])]),
        (''mcp_tool_ids'', JArr []), (''prompt_template'', JStr ''{{input}}'')],
     registry_entry ''condition'' ''Condition'' ''control'' [(''expression'', JStr [])],
     registry_entry ''merge'' ''Merge'' ''control'' [],
     registry_entry ''payload_parser'' ''Payload Parser'' ''transform'' [(''mapping'', JObj [])],
     registry_entry ''template'' ''Template'' ''transform'' [(''template'', JStr [])]]"

definition NODE_CATEGORIES :: "(string \<times> string) list" where
  "NODE_CATEGORIES = [(''trigger'', ''Triggers''), (''agent'', ''Agent''), (''control'', ''Control''),
     (''transform'', ''Transform'')]"

section \<open>Plans of the assistant\<close>

datatype PlanOp =
    AddNode string string "rat \<times> rat" node_data
  | UpdateNode string node_data
  | DeleteNode string
  | AddEdge "string option" string string "string option" "string option"
  | DeleteEdge string

definition quoted :: "string \<Rightarrow> string" where
  "quoted s = [CHR 0x27] @ s @ [CHR 0x27]"

definition step_error :: "nat \<Rightarrow> string \<Rightarrow> string \<Rightarrow> string \<Rightarrow> string" where
  "step_error i what name problem = ''step['' @ nat_string i @ ''] '' @ what @ '' '' @ quoted name @ '' '' @ problem"

text \<open>\<open>validatePlan\<close> from step \<open>i\<close> on, with the sets of live nodes and edges: the error, or none.\<close>

fun validate_from :: "nat \<Rightarrow> PlanOp list \<Rightarrow> string list \<Rightarrow> string list \<Rightarrow> string option" where
  "validate_from i [] liveNodes liveEdges = None"
| "validate_from i (AddNode n t p d # ops) liveNodes liveEdges =
     (if n \<in> set liveNodes then Some (step_error i ''add_node id'' n ''already exists'')
      else validate_from (i + 1) ops (n # liveNodes) liveEdges)"
| "validate_from i (UpdateNode n d # ops) liveNodes liveEdges =
     (if n \<notin> set liveNodes then Some (step_error i ''update_node id'' n ''does not exist'')
      else validate_from (i + 1) ops liveNodes liveEdges)"
| "validate_from i (DeleteNode n # ops) liveNodes liveEdges =
     (if n \<notin> set liveNodes then Some (step_error i ''delete_node id'' n ''does not exist'')
      else validate_from (i + 1) ops (removeAll n liveNodes) liveEdges)"
| "validate_from i (AddEdge eid s t sh th # ops) liveNodes liveEdges =
     (if s \<notin> set liveNodes then Some (step_error i ''add_edge source'' s ''does not exist'')
      else if t \<notin> set liveNodes then Some (step_error i ''add_edge target'' t ''does not exist'')
      else if truthy eid \<and> the eid \<in> set liveEdges then Some (step_error i ''add_edge id'' (the eid) ''conflicts'')
      else validate_from (i + 1) ops liveNodes (if truthy eid then the eid # liveEdges else liveEdges))"
| "validate_from i (DeleteEdge e # ops) liveNodes liveEdges =
     (if e \<notin> set liveEdges then Some (step_error i ''delete_edge id'' e ''does not exist'')
      else validate_from (i + 1) ops liveNodes (removeAll e liveEdges))"

definition validatePlan :: "PlanOp list \<Rightarrow> wf_node list \<Rightarrow> wf_edge list \<Rightarrow> string option" where
  "validatePlan plan nodes edges = validate_from 0 plan (map nd_id nodes) (map eg_id edges)"

text \<open>\<open>{ ...a, ...b }\<close>.\<close>

definition spread :: "('k \<times> 'v) list \<Rightarrow> ('k \<times> 'v) list \<Rightarrow> ('k \<times> 'v) list" where
  "spread a b = foldl (\<lambda>m (k, v). mput k v m) a b"

text \<open>One step of \<open>applyPlan\<close>; the clock reading of a generated edge id is an argument.\<close>

fun apply_op :: "nat \<Rightarrow> PlanOp \<Rightarrow> wf_node list \<times> wf_edge list \<Rightarrow> wf_node list \<times> wf_edge list" where
  "apply_op clock (AddNode i t p d) (n, e) =
     (n @ [\<lparr>nd_id = i, nd_type = t, nd_position = p, nd_data = d, nd_selected = False\<rparr>], e)"
| "apply_op clock (UpdateNode i d) (n, e) =
     (map (\<lambda>x. if nd_id x = i then x\<lparr>nd_data := spread (nd_data x) d\<rparr> else x) n, e)"
| "apply_op clock (DeleteNode i) (n, e) =
     (filter (\<lambda>x. nd_id x \<noteq> i) n, filter (\<lambda>x. eg_source x \<noteq> i \<and> eg_target x \<noteq> i) e)"
| "apply_op clock (AddEdge eid s t sh th) (n, e) =
     (n, e @ [\<lparr>eg_id = (case eid of Some i \<Rightarrow> i
                 | None \<Rightarrow> ''xy-edge__'' @ s @ ''-'' @ t @ ''-'' @ nat_string clock),
               eg_source = s, eg_target = t, eg_sourceHandle = sh, eg_targetHandle = th, eg_selected = False\<rparr>])"
| "apply_op clock (DeleteEdge i) (n, e) = (n, filter (\<lambda>x. eg_id x \<noteq> i) e)"

fun apply_ops :: "nat list \<Rightarrow> PlanOp list \<Rightarrow> wf_node list \<times> wf_edge list \<Rightarrow> wf_node list \<times> wf_edge list" where
  "apply_ops clocks [] g = g"
| "apply_ops clocks (op # ops) g =
     apply_ops (tl clocks) ops (apply_op (if clocks = [] then 0 else hd clocks) op g)"

definition applyPlan :: "nat list \<Rightarrow> PlanOp list \<Rightarrow> wf_node list \<Rightarrow> wf_edge list \<Rightarrow> wf_node list \<times> wf_edge list" where
  "applyPlan clocks plan nodes edges = apply_ops clocks plan (nodes, edges)"

datatype plan_tone = ToneAdd | ToneModify | ToneRemove

record PlanOpSummary =
  ps_tone :: plan_tone
  ps_verb :: string
  ps_detail :: text16

text \<open>The dash and the arrow of the texts are beyond the code units of \<open>string\<close>.\<close>

definition em_dash :: text16 where "em_dash = text_of '' '' @ [unit_of 8212] @ text_of '' ''"
definition arrow :: text16 where "arrow = text_of '' '' @ [unit_of 8594] @ text_of '' ''"

definition patch_preview :: "string list \<Rightarrow> string" where
  "patch_preview keys =
     (if length keys \<le> 3 then join '', '' keys
      else join '', '' (take 3 keys) @ '' +'' @ nat_string (length keys - 3))"

fun describePlanOp :: "PlanOp \<Rightarrow> PlanOpSummary" where
  "describePlanOp (AddNode i t p d) =
     (let name = (case jstr (mget d ''label'') of Some l \<Rightarrow> if l \<noteq> [] then CHR 0x22 # l @ [CHR 0x22] else i | None \<Rightarrow> i)
      in \<lparr>ps_tone = ToneAdd, ps_verb = ''Add node'', ps_detail = text_of (t @ '' '' @ name)\<rparr>)"
| "describePlanOp (UpdateNode i d) =
     (let preview = patch_preview (mkeys d)
      in \<lparr>ps_tone = ToneModify, ps_verb = ''Modify'',
          ps_detail = text_of i @ em_dash @ text_of (if preview = [] then ''(empty patch)'' else preview)\<rparr>)"
| "describePlanOp (DeleteNode i) = \<lparr>ps_tone = ToneRemove, ps_verb = ''Remove node'', ps_detail = text_of i\<rparr>"
| "describePlanOp (AddEdge eid s t sh th) =
     \<lparr>ps_tone = ToneAdd, ps_verb = ''Connect'', ps_detail = text_of s @ arrow @ text_of t\<rparr>"
| "describePlanOp (DeleteEdge i) =
     \<lparr>ps_tone = ToneRemove, ps_verb = ''Disconnect'', ps_detail = text_of (''edge '' @ i)\<rparr>"

section \<open>Undo history\<close>

type_synonym graph_snapshot = "wf_node list \<times> wf_edge list"

record wf_history =
  past :: "graph_snapshot list"
  future :: "graph_snapshot list"

definition MAX_HISTORY :: nat where "MAX_HISTORY = 50"

text \<open>\<open>xs.slice(-k)\<close> for a positive \<open>k\<close>.\<close>

definition slice_last :: "nat \<Rightarrow> 'a list \<Rightarrow> 'a list" where
  "slice_last k xs = drop (length xs - k) xs"

definition history_push :: "graph_snapshot \<Rightarrow> wf_history \<Rightarrow> wf_history" where
  "history_push s h = \<lparr>past = slice_last (MAX_HISTORY - 1) (past h) @ [s], future = []\<rparr>"

text \<open>The snapshot that is applied, if there is one, and the history after.\<close>

definition history_undo :: "graph_snapshot \<Rightarrow> wf_history \<Rightarrow> graph_snapshot option \<times> wf_history" where
  "history_undo current h =
     (if past h = [] then (None, h)
      else (Some (last (past h)), \<lparr>past = butlast (past h), future = future h @ [current]\<rparr>))"

definition history_redo :: "graph_snapshot \<Rightarrow> wf_history \<Rightarrow> graph_snapshot option \<times> wf_history" where
  "history_redo current h =
     (if future h = [] then (None, h)
      else (Some (last (future h)), \<lparr>past = past h @ [current], future = butlast (future h)\<rparr>))"

section \<open>The saved definition\<close>

text \<open>
  \<open>safeClone\<close> on plain JSON. An item of an array is cloned as a record when it is any object,
  also when it is itself an array: then its entries are keyed by index.
\<close>

definition keyed :: "'a list \<Rightarrow> (string \<times> 'a) list" where
  "keyed xs = zip (map nat_string [0..<length xs]) xs"

fun safe_value :: "json \<Rightarrow> json"
  and safe_item :: "json \<Rightarrow> json"
  and safe_values :: "json list \<Rightarrow> json list"
  and safe_items :: "json list \<Rightarrow> json list"
  and safeClone :: "(string \<times> json) list \<Rightarrow> (string \<times> json) list" where
  "safe_value (JArr xs) = JArr (safe_items xs)"
| "safe_value (JObj kvs) = JObj (safeClone kvs)"
| "safe_value v = v"
| "safe_item (JArr xs) = JObj (keyed (safe_values xs))"
| "safe_item (JObj kvs) = JObj (safeClone kvs)"
| "safe_item v = v"
| "safe_values [] = []"
| "safe_values (v # vs) = safe_value v # safe_values vs"
| "safe_items [] = []"
| "safe_items (v # vs) = safe_item v # safe_items vs"
| "safeClone [] = []"
| "safeClone ((k, v) # kvs) = (k, safe_value v) # safeClone kvs"

record saved_node =
  sn_id :: string
  sn_type :: string
  sn_position :: "rat \<times> rat"
  sn_data :: node_data

record saved_edge =
  se_id :: string
  se_source :: string
  se_target :: string
  se_sourceHandle :: "string option"
  se_targetHandle :: "string option"

definition stripForSave :: "wf_node list \<Rightarrow> wf_edge list \<Rightarrow> saved_node list \<times> saved_edge list" where
  "stripForSave nodes edges =
     (map (\<lambda>n. \<lparr>sn_id = nd_id n, sn_type = nd_type n, sn_position = nd_position n, sn_data = safeClone (nd_data n)\<rparr>) nodes,
      map (\<lambda>e. \<lparr>se_id = eg_id e, se_source = eg_source e, se_target = eg_target e,
                 se_sourceHandle = eg_sourceHandle e, se_targetHandle = eg_targetHandle e\<rparr>) edges)"

section \<open>The builder\<close>

text \<open>
  The graph, the history, the snapshot taken when a drag starts, and the save whose timer runs;
  a later \<open>scheduleSave\<close> replaces it.
\<close>

record builder =
  b_nodes :: "wf_node list"
  b_edges :: "wf_edge list"
  b_history :: wf_history
  b_preDrag :: "graph_snapshot option"
  b_pending :: "graph_snapshot option"

definition newBuilder :: "wf_node list \<Rightarrow> wf_edge list \<Rightarrow> builder" where
  "newBuilder nodes edges = \<lparr>b_nodes = nodes, b_edges = edges, b_history = \<lparr>past = [], future = []\<rparr>,
     b_preDrag = None, b_pending = None\<rparr>"

definition selectedNodeId :: "builder \<Rightarrow> string option" where
  "selectedNodeId b = map_option nd_id (find nd_selected (b_nodes b))"

definition scheduleSave :: "wf_node list \<Rightarrow> wf_edge list \<Rightarrow> builder \<Rightarrow> builder" where
  "scheduleSave nodes edges b = b\<lparr>b_pending := Some (nodes, edges)\<rparr>"

definition cancelPendingSave :: "builder \<Rightarrow> builder" where
  "cancelPendingSave b = b\<lparr>b_pending := None\<rparr>"

text \<open>The timer fires: what is sent to the server.\<close>

definition save_fires :: "builder \<Rightarrow> (saved_node list \<times> saved_edge list) option \<times> builder" where
  "save_fires b = (map_option (\<lambda>(n, e). stripForSave n e) (b_pending b), b\<lparr>b_pending := None\<rparr>)"

definition commit :: "wf_node list \<Rightarrow> wf_edge list \<Rightarrow> builder \<Rightarrow> builder" where
  "commit nextNodes nextEdges b = scheduleSave nextNodes nextEdges
     (b\<lparr>b_nodes := nextNodes, b_edges := nextEdges, b_history := history_push (b_nodes b, b_edges b) (b_history b)\<rparr>)"

definition onNodeDragStart :: "builder \<Rightarrow> builder" where
  "onNodeDragStart b = b\<lparr>b_preDrag := Some (b_nodes b, b_edges b)\<rparr>"

definition has_moved :: "wf_node list \<Rightarrow> wf_node list \<Rightarrow> bool" where
  "has_moved pre nodes \<longleftrightarrow> list_ex (\<lambda>n. case find (\<lambda>p. nd_id p = nd_id n) pre of
     None \<Rightarrow> False | Some old \<Rightarrow> nd_position old \<noteq> nd_position n) nodes"

definition onNodeDragStop :: "builder \<Rightarrow> builder" where
  "onNodeDragStop b =
     (case b_preDrag b of
        None \<Rightarrow> b
      | Some pre \<Rightarrow>
          (if has_moved (fst pre) (b_nodes b)
           then scheduleSave (b_nodes b) (b_edges b) (b\<lparr>b_history := history_push pre (b_history b)\<rparr>)
           else b)\<lparr>b_preDrag := None\<rparr>)"

definition apply_snapshot :: "graph_snapshot option \<times> wf_history \<Rightarrow> builder \<Rightarrow> builder" where
  "apply_snapshot r b =
     (case r of
        (None, h) \<Rightarrow> b\<lparr>b_history := h\<rparr>
      | (Some (n, e), h) \<Rightarrow> scheduleSave n e (b\<lparr>b_nodes := n, b_edges := e, b_history := h\<rparr>))"

definition undo :: "builder \<Rightarrow> builder" where
  "undo b = apply_snapshot (history_undo (b_nodes b, b_edges b) (b_history b)) b"

definition redo :: "builder \<Rightarrow> builder" where
  "redo b = apply_snapshot (history_redo (b_nodes b, b_edges b) (b_history b)) b"

subsection \<open>Connecting\<close>

definition add_target :: "string \<Rightarrow> string \<Rightarrow> (string, string list) jmap \<Rightarrow> (string, string list) jmap" where
  "add_target s t adj = mput s ((case mget adj s of None \<Rightarrow> [] | Some xs \<Rightarrow> xs) @ [t]) adj"

definition adjacency :: "wf_edge list \<Rightarrow> (string, string list) jmap" where
  "adjacency edges = foldl (\<lambda>adj e. add_target (eg_source e) (eg_target e) adj) [] edges"

definition successors :: "(string, string list) jmap \<Rightarrow> string \<Rightarrow> string list" where
  "successors adj n = (case mget adj n of None \<Rightarrow> [] | Some xs \<Rightarrow> xs)"

text \<open>The search: the queue is worked off until \<open>source\<close> turns up or it is empty.\<close>

function search :: "(string, string list) jmap \<Rightarrow> string \<Rightarrow> string list \<Rightarrow> string list \<Rightarrow> bool" where
  "search adj source visited [] = False"
| "search adj source visited (n # queue) =
     (if n = source then True
      else if n \<in> set visited then search adj source visited queue
      else search adj source (n # visited) (queue @ successors adj n))"
  by pat_completeness auto
termination
proof (relation "measures [\<lambda>(adj, source, visited, queue). card (set (mkeys adj) - set visited),
    \<lambda>(adj, source, visited, queue). length queue]", goal_cases)
  case (3 adj source visited n queue)
  show ?case
  proof (cases "n \<in> set (mkeys adj)")
    case True
    then have "card (set (mkeys adj) - set (n # visited)) < card (set (mkeys adj) - set visited)"
      using 3(2) by (intro psubset_card_mono) auto
    then show ?thesis by simp
  next
    case False
    then have "mget adj n = None" by (simp add: mget_None_iff)
    then have "successors adj n = []" by (simp add: successors_def)
    moreover have "set (mkeys adj) - set (n # visited) = set (mkeys adj) - set visited" using False by auto
    ultimately show ?thesis by simp
  qed
qed simp_all

definition wouldCycle :: "wf_edge list \<Rightarrow> string \<Rightarrow> string \<Rightarrow> bool" where
  "wouldCycle edges source target = search (add_target source target (adjacency edges)) source [] [target]"

text \<open>A connection of React Flow: the two ends and their handles.\<close>

record connection =
  cn_source :: "string option"
  cn_target :: "string option"
  cn_sourceHandle :: "string option"
  cn_targetHandle :: "string option"

definition onConnect :: "(connection \<Rightarrow> wf_edge list \<Rightarrow> wf_edge list) \<Rightarrow> connection \<Rightarrow> builder \<Rightarrow> builder" where
  "onConnect addEdge c b =
     (if \<not> truthy (cn_source c) \<or> \<not> truthy (cn_target c) then b
      else if wouldCycle (b_edges b) (the (cn_source c)) (the (cn_target c)) then b
      else commit (b_nodes b) (addEdge c (b_edges b)) b)"

subsection \<open>Editing\<close>

text \<open>The workflow's own model, as backend and name, goes into a new agent step.\<close>

definition addNode :: "nat \<Rightarrow> string \<Rightarrow> string \<Rightarrow> string \<Rightarrow> rat \<times> rat \<Rightarrow> builder \<Rightarrow> builder" where
  "addNode clock backend model t position b =
     (case find (\<lambda>d. df_type d = t) NODE_REGISTRY of
        None \<Rightarrow> b
      | Some def \<Rightarrow>
          let data = (if t = ''agent_step'' \<and> backend \<noteq> [] \<and> model \<noteq> []
                      then spread (df_defaultData def)
                             [(''model_config'', JObj [(''backend'', JStr backend), (''model'', JStr model)])]
                      else df_defaultData def);
              newNode = \<lparr>nd_id = t @ ''_'' @ nat_string clock, nd_type = t, nd_position = position,
                         nd_data = data, nd_selected = True\<rparr>;
              deselected = map (\<lambda>n. n\<lparr>nd_selected := False\<rparr>) (b_nodes b)
          in commit (deselected @ [newNode]) (b_edges b) b)"

definition deleteSelected :: "builder \<Rightarrow> builder" where
  "deleteSelected b =
     (let ids = map nd_id (filter nd_selected (b_nodes b));
          eids = map eg_id (filter eg_selected (b_edges b))
      in if ids = [] \<and> eids = [] then b
         else commit (filter (\<lambda>n. \<not> nd_selected n) (b_nodes b))
                (filter (\<lambda>e. eg_id e \<notin> set eids \<and> eg_source e \<notin> set ids \<and> eg_target e \<notin> set ids) (b_edges b)) b)"

definition applyPlan_builder :: "nat list \<Rightarrow> PlanOp list \<Rightarrow> builder \<Rightarrow> string option \<times> builder" where
  "applyPlan_builder clocks plan b =
     (case validatePlan plan (b_nodes b) (b_edges b) of
        Some err \<Rightarrow> (Some err, b)
      | None \<Rightarrow> (let (n, e) = applyPlan clocks plan (b_nodes b) (b_edges b) in (None, commit n e b)))"

definition updateNodeData :: "string \<Rightarrow> string \<Rightarrow> json \<Rightarrow> builder \<Rightarrow> builder" where
  "updateNodeData nodeId key value b =
     commit (map (\<lambda>n. if nd_id n = nodeId then n\<lparr>nd_data := mput key value (nd_data n)\<rparr> else n) (b_nodes b)) (b_edges b) b"

end
