(* ===== verification/WorkflowProps.thy ===== *)
theory WorkflowProps
  imports Workflow
begin

text \<open>
  What the builder guarantees: the search behind \<open>onConnect\<close> finds exactly the connections that
  would close a cycle, so editing by hand keeps the graph acyclic, through undo and redo; plans
  that pass the check keep the graph well formed but not acyclic; the history is bounded and undo
  is undone by redo; and what the save keeps of a node's data.
\<close>

section \<open>Cycles\<close>

definition edge_rel :: "wf_edge list \<Rightarrow> (string \<times> string) set" where
  "edge_rel edges = (\<lambda>e. (eg_source e, eg_target e)) ` set edges"

definition adj_rel :: "(string, string list) jmap \<Rightarrow> (string \<times> string) set" where
  "adj_rel adj = {(a, b). b \<in> set (successors adj a)}"

lemma adj_rel_add: "adj_rel (add_target s t adj) = insert (s, t) (adj_rel adj)"
  by (auto simp: adj_rel_def successors_def add_target_def split: option.splits if_splits)

lemma adj_rel_adjacency: "adj_rel (adjacency edges) = edge_rel edges"
proof -
  have "adj_rel (foldl (\<lambda>adj e. add_target (eg_source e) (eg_target e) adj) adj edges) = edge_rel edges \<union> adj_rel adj" for adj
    by (induction edges arbitrary: adj) (auto simp: adj_rel_add edge_rel_def)
  from this [of "[]"] show ?thesis by (simp add: adjacency_def adj_rel_def successors_def)
qed

text \<open>A path to the source that starts among the visited leaves them through the queue.\<close>

lemma leaves_visited:
  assumes "(v, s) \<in> (adj_rel adj)\<^sup>*" and "v \<in> V" and "s \<notin> V"
    and "\<And>a b. a \<in> V \<Longrightarrow> (a, b) \<in> adj_rel adj \<Longrightarrow> b \<in> V \<union> Q"
  shows "\<exists>q \<in> Q. (q, s) \<in> (adj_rel adj)\<^sup>*"
  using assms(1,2)
proof (induction rule: converse_rtrancl_induct)
  case base
  with assms(3) show ?case by blast
next
  case (step y z)
  from assms(4) [OF step.prems step.hyps(1)] step show ?case by blast
qed

lemma search_reaches:
  assumes "source \<notin> set visited"
    and "\<And>a b. a \<in> set visited \<Longrightarrow> (a, b) \<in> adj_rel adj \<Longrightarrow> b \<in> set visited \<union> set queue"
  shows "search adj source visited queue \<longleftrightarrow> (\<exists>q \<in> set queue. (q, source) \<in> (adj_rel adj)\<^sup>*)"
  using assms
proof (induction adj source visited queue rule: search.induct)
  case (2 adj source visited n queue)
  show ?case
  proof (cases "n = source")
    case True
    then show ?thesis by simp
  next
    case ne: False
    show ?thesis
    proof (cases "n \<in> set visited")
      case True
      then have cl: "b \<in> set visited \<union> set queue" if "a \<in> set visited" "(a, b) \<in> adj_rel adj" for a b
        using "2.prems"(2) [OF that] True by auto
      have "\<exists>q \<in> set queue. (q, source) \<in> (adj_rel adj)\<^sup>*" if "(n, source) \<in> (adj_rel adj)\<^sup>*"
        using that True "2.prems"(1) cl by (rule leaves_visited)
      then have "(\<exists>q \<in> set (n # queue). (q, source) \<in> (adj_rel adj)\<^sup>*) \<longleftrightarrow> (\<exists>q \<in> set queue. (q, source) \<in> (adj_rel adj)\<^sup>*)"
        by (simp only: list.set) blast
      with ne True "2.IH"(1) [OF ne True "2.prems"(1) cl] show ?thesis by simp
    next
      case False
      have cl: "b \<in> set (n # visited) \<union> set (queue @ successors adj n)"
        if "a \<in> set (n # visited)" "(a, b) \<in> adj_rel adj" for a b
        using that "2.prems"(2) [of a b] by (auto simp: adj_rel_def)
      have "source \<notin> set (n # visited)" using ne "2.prems"(1) by auto
      note ih = "2.IH"(2) [OF ne False this cl]
      have "(n, source) \<in> (adj_rel adj)\<^sup>* \<longleftrightarrow> (\<exists>q \<in> set (successors adj n). (q, source) \<in> (adj_rel adj)\<^sup>*)"
      proof
        assume "(n, source) \<in> (adj_rel adj)\<^sup>*"
        with ne obtain z where "(n, z) \<in> adj_rel adj" "(z, source) \<in> (adj_rel adj)\<^sup>*" by (metis converse_rtranclE)
        then show "\<exists>q \<in> set (successors adj n). (q, source) \<in> (adj_rel adj)\<^sup>*" by (auto simp: adj_rel_def)
      next
        assume "\<exists>q \<in> set (successors adj n). (q, source) \<in> (adj_rel adj)\<^sup>*"
        then obtain q where "(n, q) \<in> adj_rel adj" "(q, source) \<in> (adj_rel adj)\<^sup>*" by (auto simp: adj_rel_def)
        then show "(n, source) \<in> (adj_rel adj)\<^sup>*" by (rule converse_rtrancl_into_rtrancl)
      qed
      then have "(\<exists>q \<in> set (n # queue). (q, source) \<in> (adj_rel adj)\<^sup>*) \<longleftrightarrow>
          (\<exists>q \<in> set (queue @ successors adj n). (q, source) \<in> (adj_rel adj)\<^sup>*)"
        by (simp only: list.set set_append) blast
      with ne False ih show ?thesis by simp
    qed
  qed
qed simp

lemma wouldCycle_path: "wouldCycle edges source target \<longleftrightarrow> (target, source) \<in> (edge_rel edges)\<^sup>*"
proof -
  have "wouldCycle edges source target \<longleftrightarrow> (target, source) \<in> (insert (source, target) (edge_rel edges))\<^sup>*"
    unfolding wouldCycle_def by (subst search_reaches) (simp_all add: adj_rel_add adj_rel_adjacency)
  also have "\<dots> \<longleftrightarrow> (target, source) \<in> (edge_rel edges)\<^sup>*"
    by (auto simp: rtrancl_insert)
  finally show ?thesis .
qed

text \<open>
  C25. The check of \<open>onConnect\<close> is exact, on any graph, with or without cycles: the search ends, and
  it reports a cycle iff the target already reaches the source along the edges, that is, iff the
  new edge would close a cycle.
\<close>

theorem wouldCycle_exact:
  "wouldCycle edges source target \<longleftrightarrow> (target, source) \<in> (edge_rel edges)\<^sup>*"
  by (rule wouldCycle_path)

lemma acyclic_connect: "acyclic (edge_rel es) \<Longrightarrow> \<not> wouldCycle es s t \<Longrightarrow> acyclic (insert (s, t) (edge_rel es))"
  by (simp add: acyclic_insert wouldCycle_path)

section \<open>The graph stays acyclic\<close>

text \<open>
  What the documentation of React Flow says of \<open>addEdge\<close>: the edge is appended, or the edges stay
  as they are when the connection is there already.
\<close>

definition addEdge_documented :: "(connection \<Rightarrow> wf_edge list \<Rightarrow> wf_edge list) \<Rightarrow> bool" where
  "addEdge_documented addEdge \<longleftrightarrow> (\<forall>c es. addEdge c es = es \<or>
     (\<exists>e. addEdge c es = es @ [e] \<and> Some (eg_source e) = cn_source c \<and> Some (eg_target e) = cn_target c))"

text \<open>
  The user's edits. \<open>FlowChange\<close> is what React Flow applies itself (dragging, selecting, measuring,
  removing): any new state of the nodes, and a part of the edges.
\<close>

datatype builder_event =
    Connect connection
  | NewNode nat string "rat \<times> rat"
  | SetData string string json
  | DeleteSelection
  | DragStart
  | DragStop
  | Undo
  | Redo
  | SaveTimer
  | CancelSave
  | FlowChange "wf_node list" "wf_edge \<Rightarrow> bool"
  | Plan "nat list" "PlanOp list"

fun edit :: "(connection \<Rightarrow> wf_edge list \<Rightarrow> wf_edge list) \<Rightarrow> string \<Rightarrow> string \<Rightarrow> builder \<Rightarrow> builder_event \<Rightarrow> builder" where
  "edit addEdge backend model b (Connect c) = onConnect addEdge c b"
| "edit addEdge backend model b (NewNode clock t p) = addNode clock backend model t p b"
| "edit addEdge backend model b (SetData i k v) = updateNodeData i k v b"
| "edit addEdge backend model b DeleteSelection = deleteSelected b"
| "edit addEdge backend model b DragStart = onNodeDragStart b"
| "edit addEdge backend model b DragStop = onNodeDragStop b"
| "edit addEdge backend model b Undo = undo b"
| "edit addEdge backend model b Redo = redo b"
| "edit addEdge backend model b SaveTimer = snd (save_fires b)"
| "edit addEdge backend model b CancelSave = cancelPendingSave b"
| "edit addEdge backend model b (FlowChange ns keep) = b\<lparr>b_nodes := ns, b_edges := filter keep (b_edges b)\<rparr>"
| "edit addEdge backend model b (Plan clocks plan) = snd (applyPlan_builder clocks plan b)"

text \<open>A property of edge lists that the graph, every snapshot and the queued save have.\<close>

definition everywhere :: "(wf_edge list \<Rightarrow> bool) \<Rightarrow> builder \<Rightarrow> bool" where
  "everywhere P b \<longleftrightarrow> P (b_edges b) \<and> list_all (P \<circ> snd) (past (b_history b)) \<and>
     list_all (P \<circ> snd) (future (b_history b)) \<and> pred_option (P \<circ> snd) (b_preDrag b) \<and>
     pred_option (P \<circ> snd) (b_pending b)"

lemma set_slice_last: "set (slice_last k xs) \<subseteq> set xs"
  by (simp add: slice_last_def set_drop_subset)

lemma everywhere_push:
  "everywhere P b \<Longrightarrow> P (snd s) \<Longrightarrow> everywhere P (b\<lparr>b_history := history_push s (b_history b)\<rparr>)"
  using set_slice_last [of "MAX_HISTORY - 1" "past (b_history b)"]
  by (auto simp: everywhere_def history_push_def list_all_iff)

lemma everywhere_commit: "everywhere P b \<Longrightarrow> P es \<Longrightarrow> everywhere P (commit ns es b)"
  using everywhere_push [of P b "(b_nodes b, b_edges b)"]
  by (auto simp: commit_def scheduleSave_def everywhere_def)

lemma last_snapshot: "list_all (P \<circ> snd) xs \<Longrightarrow> xs \<noteq> [] \<Longrightarrow> last xs = (n, e) \<Longrightarrow> P e"
  by (metis comp_apply last_in_set list_all_iff snd_conv)

lemma list_all_butlast: "list_all Q xs \<Longrightarrow> list_all Q (butlast xs)"
  by (auto simp: list_all_iff dest: in_set_butlastD)

lemma everywhere_undo: "everywhere P b \<Longrightarrow> everywhere P (undo b)"
  using last_snapshot [of P "past (b_history b)"] list_all_butlast [of "P \<circ> snd" "past (b_history b)"]
  by (cases "last (past (b_history b))")
    (simp add: undo_def history_undo_def apply_snapshot_def scheduleSave_def everywhere_def)

lemma everywhere_redo: "everywhere P b \<Longrightarrow> everywhere P (redo b)"
  using last_snapshot [of P "future (b_history b)"] list_all_butlast [of "P \<circ> snd" "future (b_history b)"]
  by (cases "last (future (b_history b))")
    (simp add: redo_def history_redo_def apply_snapshot_def scheduleSave_def everywhere_def)

text \<open>Every event but an accepted plan.\<close>

fun by_hand :: "builder_event \<Rightarrow> bool" where
  "by_hand (Plan clocks plan) = False"
| "by_hand _ = True"

text \<open>
  An interface: a property of edge lists that survives the loss of edges. What keeps it in a
  connection keeps it in the whole builder.
\<close>

locale edge_property =
  fixes P :: "wf_edge list \<Rightarrow> bool" and addEdge :: "connection \<Rightarrow> wf_edge list \<Rightarrow> wf_edge list"
  assumes fewer: "P es \<Longrightarrow> P (filter keep es)"
    and connected: "P es \<Longrightarrow> truthy (cn_source c) \<Longrightarrow> truthy (cn_target c) \<Longrightarrow>
      \<not> wouldCycle es (the (cn_source c)) (the (cn_target c)) \<Longrightarrow> P (addEdge c es)"
begin

lemma edit_keeps:
  assumes "everywhere P b" and "by_hand e"
  shows "everywhere P (edit addEdge backend model b e)"
proof (cases e)
  case (Connect c)
  have "P (b_edges b)" using assms(1) by (simp add: everywhere_def)
  with Connect assms(1) show ?thesis by (auto simp: onConnect_def intro!: everywhere_commit connected)
next
  case (DragStop)
  show ?thesis
  proof (cases "b_preDrag b")
    case (Some pre)
    have "P (snd pre)" using assms(1) Some by (simp add: everywhere_def)
    then have "everywhere P (b\<lparr>b_history := history_push pre (b_history b)\<rparr>)" by (rule everywhere_push [OF assms(1)])
    with DragStop Some assms(1) show ?thesis by (auto simp: onNodeDragStop_def scheduleSave_def everywhere_def)
  qed (use DragStop assms(1) in \<open>simp add: onNodeDragStop_def\<close>)
next
  case DeleteSelection
  have "P (b_edges b)" using assms(1) by (simp add: everywhere_def)
  with DeleteSelection assms(1) show ?thesis
    by (auto simp: deleteSelected_def Let_def intro!: everywhere_commit fewer)
next
  case (NewNode clock t p)
  have "P (b_edges b)" using assms(1) by (simp add: everywhere_def)
  with NewNode assms(1) show ?thesis by (auto simp: addNode_def Let_def intro!: everywhere_commit split: option.split)
next
  case (SetData i k v)
  have "P (b_edges b)" using assms(1) by (simp add: everywhere_def)
  with SetData assms(1) show ?thesis by (auto simp: updateNodeData_def intro!: everywhere_commit)
next
  case (FlowChange ns keep)
  with assms(1) show ?thesis by (auto simp: everywhere_def intro: fewer)
next
  case (Plan clocks plan)
  with assms(2) show ?thesis by simp
next
  case Undo
  with assms(1) show ?thesis by (simp add: everywhere_undo)
next
  case Redo
  with assms(1) show ?thesis by (simp add: everywhere_redo)
qed (use assms(1) in \<open>simp_all add: onNodeDragStart_def save_fires_def cancelPendingSave_def everywhere_def\<close>)

lemma edits_keep:
  "everywhere P b \<Longrightarrow> list_all by_hand es \<Longrightarrow>
     everywhere P (foldl (edit addEdge backend model) b es)"
  by (induction es arbitrary: b) (auto intro: edit_keeps)

end

lemma acyclic_edge_property:
  assumes "addEdge_documented addEdge"
  shows "edge_property (\<lambda>es. acyclic (edge_rel es)) addEdge"
proof
  show "acyclic (edge_rel (filter keep es))" if "acyclic (edge_rel es)" for keep es
    using that by (rule acyclic_subset) (auto simp: edge_rel_def)
  show "acyclic (edge_rel (addEdge c es))"
    if "acyclic (edge_rel es)" "truthy (cn_source c)" "truthy (cn_target c)"
      "\<not> wouldCycle es (the (cn_source c)) (the (cn_target c))" for c es
  proof -
    from assms consider "addEdge c es = es"
      | e where "addEdge c es = es @ [e]" "Some (eg_source e) = cn_source c" "Some (eg_target e) = cn_target c"
      unfolding addEdge_documented_def by blast
    then show ?thesis
    proof cases
      case 2
      then have "eg_source e = the (cn_source c)" "eg_target e = the (cn_target c)" by (metis option.sel)+
      then have "edge_rel (addEdge c es) = insert (the (cn_source c), the (cn_target c)) (edge_rel es)"
        using 2(1) by (simp add: edge_rel_def)
      with acyclic_connect that show ?thesis by simp
    qed (use that in simp)
  qed
qed

text \<open>React Flow's function as its documentation gives it: one edge per pair of ends and handles.\<close>

definition flow_addEdge :: "connection \<Rightarrow> wf_edge list \<Rightarrow> wf_edge list" where
  "flow_addEdge c es =
     (if list_ex (\<lambda>e. Some (eg_source e) = cn_source c \<and> Some (eg_target e) = cn_target c \<and>
                   eg_sourceHandle e = cn_sourceHandle c \<and> eg_targetHandle e = cn_targetHandle c) es
         \<or> cn_source c = None \<or> cn_target c = None then es
      else es @ [\<lparr>eg_id = ''xy-edge__'' @ the (cn_source c) @ ''-'' @ the (cn_target c), eg_source = the (cn_source c),
                 eg_target = the (cn_target c), eg_sourceHandle = cn_sourceHandle c,
                 eg_targetHandle = cn_targetHandle c, eg_selected = False\<rparr>])"

lemma flow_addEdge_documented: "addEdge_documented flow_addEdge"
  by (auto simp: addEdge_documented_def flow_addEdge_def)

interpretation acyclic_flow: edge_property "\<lambda>es. acyclic (edge_rel es)" flow_addEdge
  by (rule acyclic_edge_property [OF flow_addEdge_documented])

text \<open>
  C24. Editing by hand never closes a cycle. Starting from an acyclic workflow, after any sequence of
  connections, new nodes, edits, deletions, drags, undos and redos, the graph on the canvas is
  acyclic, and so are all snapshots of the history and the definition that is queued to be saved.
\<close>

theorem edits_stay_acyclic:
  assumes "addEdge_documented addEdge" and "acyclic (edge_rel edges)" and "list_all by_hand es"
    and "b = foldl (edit addEdge backend model) (newBuilder nodes edges) es"
  shows "acyclic (edge_rel (b_edges b)) \<and>
    list_all (\<lambda>s. acyclic (edge_rel (snd s))) (past (b_history b) @ future (b_history b)) \<and>
    pred_option (\<lambda>s. acyclic (edge_rel (snd s))) (b_pending b)"
proof -
  have "everywhere (\<lambda>es. acyclic (edge_rel es)) (newBuilder nodes edges)"
    using assms(2) by (simp add: everywhere_def newBuilder_def)
  from edge_property.edits_keep [OF acyclic_edge_property [OF assms(1)] this assms(3), of backend model]
  have "everywhere (\<lambda>es. acyclic (edge_rel es)) b" unfolding assms(4) .
  then show ?thesis
    by (simp_all add: everywhere_def comp_def)
qed

definition demo_connect :: "string \<Rightarrow> string \<Rightarrow> builder_event" where
  "demo_connect s t = Connect \<lparr>cn_source = Some s, cn_target = Some t, cn_sourceHandle = None, cn_targetHandle = None\<rparr>"

definition demo_edits :: "builder_event list" where
  "demo_edits = [NewNode 1 ''merge'' (0, 0), NewNode 2 ''template'' (9, 9), demo_connect ''merge_1'' ''template_2'',
     demo_connect ''template_2'' ''merge_1'', Undo, Redo]"

theorem edits_stay_acyclic_witness:
  "acyclic (edge_rel (b_edges (foldl (edit flow_addEdge [] []) (newBuilder [] []) demo_edits))) \<and>
   map (\<lambda>e. (eg_source e, eg_target e)) (b_edges (foldl (edit flow_addEdge [] []) (newBuilder [] []) demo_edits))
     = [(''merge_1'', ''template_2'')]"
proof
  have "acyclic (edge_rel [])" by (simp add: edge_rel_def acyclic_def)
  moreover have "list_all by_hand demo_edits" by (simp add: demo_edits_def demo_connect_def)
  ultimately show "acyclic (edge_rel (b_edges (foldl (edit flow_addEdge [] []) (newBuilder [] []) demo_edits)))"
    by (rule edits_stay_acyclic [OF flow_addEdge_documented _ _ refl, THEN conjunct1])
  show "map (\<lambda>e. (eg_source e, eg_target e)) (b_edges (foldl (edit flow_addEdge [] []) (newBuilder [] []) demo_edits))
     = [(''merge_1'', ''template_2'')]" by code_simp
qed

section \<open>Plans\<close>

definition graph_ok :: "wf_node list \<Rightarrow> wf_edge list \<Rightarrow> bool" where
  "graph_ok nodes edges \<longleftrightarrow> distinct (map nd_id nodes) \<and>
     list_all (\<lambda>e. eg_source e \<in> nd_id ` set nodes \<and> eg_target e \<in> nd_id ` set nodes) edges"

fun names_edge :: "PlanOp \<Rightarrow> bool" where
  "names_edge (AddEdge eid s t sh th) = truthy eid"
| "names_edge _ = True"

lemma ids_update [simp]: "map nd_id (map (\<lambda>x. if nd_id x = i then x\<lparr>nd_data := f x\<rparr> else x) n) = map nd_id n"
  by simp

lemma validated_graph:
  assumes "validate_from i plan live lived = None" and "set live = nd_id ` set n" and "graph_ok n e"
    and "apply_ops clocks plan (n, e) = (n', e')"
  shows "graph_ok n' e'"
  using assms
proof (induction i plan live lived arbitrary: clocks n e rule: validate_from.induct)
  case (2 i x t p d ops live lived)
  then have c: "\<not> x \<in> set live" and v: "validate_from (i + 1) ops (x # live) lived = None" by (auto split: if_splits)
  show ?case
    by (rule "2.IH" [OF c v _ _ "2.prems"(4) [unfolded apply_ops.simps apply_op.simps]])
      (use "2.prems"(2,3) c in \<open>auto simp: graph_ok_def list_all_iff\<close>)
next
  case (3 i x d ops live lived)
  then have c: "\<not> x \<notin> set live" and v: "validate_from (i + 1) ops live lived = None" by (auto split: if_splits)
  have same: "nd_id ` set (map (\<lambda>y. if nd_id y = x then y\<lparr>nd_data := spread (nd_data y) d\<rparr> else y) n) = nd_id ` set n"
    by (metis ids_update set_map)
  show ?case
    by (rule "3.IH" [OF c v _ _ "3.prems"(4) [unfolded apply_ops.simps apply_op.simps]])
      (use "3.prems"(2,3) in \<open>simp_all only: graph_ok_def same ids_update\<close>)
next
  case (4 i x ops live lived)
  then have c: "\<not> x \<notin> set live" and v: "validate_from (i + 1) ops (removeAll x live) lived = None" by (auto split: if_splits)
  show ?case
    by (rule "4.IH" [OF c v _ _ "4.prems"(4) [unfolded apply_ops.simps apply_op.simps]])
      (use "4.prems"(2,3) in \<open>auto simp: graph_ok_def list_all_iff distinct_map_filter\<close>)
next
  case (5 i eid s t sh th ops live lived)
  then have c: "\<not> s \<notin> set live" "\<not> t \<notin> set live" "\<not> (truthy eid \<and> the eid \<in> set lived)"
    and v: "validate_from (i + 1) ops live (if truthy eid then the eid # lived else lived) = None" by (auto split: if_splits)
  show ?case
    by (rule "5.IH" [OF c v _ _ "5.prems"(4) [unfolded apply_ops.simps apply_op.simps]])
      (use "5.prems"(2,3) c in \<open>auto simp: graph_ok_def list_all_iff\<close>)
next
  case (6 i x ops live lived)
  then have c: "\<not> x \<notin> set lived" and v: "validate_from (i + 1) ops live (removeAll x lived) = None" by (auto split: if_splits)
  show ?case
    by (rule "6.IH" [OF c v _ _ "6.prems"(4) [unfolded apply_ops.simps apply_op.simps]])
      (use "6.prems"(2,3) in \<open>auto simp: graph_ok_def list_all_iff\<close>)
qed simp

lemma validated_edge_ids:
  assumes "validate_from i plan live lived = None" and "list_all names_edge plan" and "set (map eg_id e) \<subseteq> set lived"
    and "distinct (map eg_id e)" and "apply_ops clocks plan (n, e) = (n', e')"
  shows "distinct (map eg_id e')"
  using assms
proof (induction i plan live lived arbitrary: clocks n e rule: validate_from.induct)
  case (2 i x t p d ops live lived)
  then have c: "\<not> x \<in> set live" and v: "validate_from (i + 1) ops (x # live) lived = None" by (auto split: if_splits)
  show ?case
    by (rule "2.IH" [OF c v _ _ _ "2.prems"(5) [unfolded apply_ops.simps apply_op.simps]]) (use "2.prems" in auto)
next
  case (3 i x d ops live lived)
  then have c: "\<not> x \<notin> set live" and v: "validate_from (i + 1) ops live lived = None" by (auto split: if_splits)
  show ?case
    by (rule "3.IH" [OF c v _ _ _ "3.prems"(5) [unfolded apply_ops.simps apply_op.simps]]) (use "3.prems" in auto)
next
  case (4 i x ops live lived)
  then have c: "\<not> x \<notin> set live" and v: "validate_from (i + 1) ops (removeAll x live) lived = None" by (auto split: if_splits)
  show ?case
    by (rule "4.IH" [OF c v _ _ _ "4.prems"(5) [unfolded apply_ops.simps apply_op.simps]])
      (use "4.prems"(2-4) in \<open>auto simp: distinct_map_filter\<close>)
next
  case (5 i eid s t sh th ops live lived)
  then have c: "\<not> s \<notin> set live" "\<not> t \<notin> set live" "\<not> (truthy eid \<and> the eid \<in> set lived)"
    and v: "validate_from (i + 1) ops live (if truthy eid then the eid # lived else lived) = None" by (auto split: if_splits)
  obtain k where k: "eid = Some k" "k \<notin> set lived" using c(3) "5.prems"(2) by (cases eid) auto
  show ?case
    by (rule "5.IH" [OF c v _ _ _ "5.prems"(5) [unfolded apply_ops.simps apply_op.simps]])
      (use "5.prems"(2-4) k in auto)
next
  case (6 i x ops live lived)
  then have c: "\<not> x \<notin> set lived" and v: "validate_from (i + 1) ops live (removeAll x lived) = None" by (auto split: if_splits)
  show ?case
    by (rule "6.IH" [OF c v _ _ _ "6.prems"(5) [unfolded apply_ops.simps apply_op.simps]])
      (use "6.prems"(2-4) in \<open>auto simp: distinct_map_filter\<close>)
qed simp

text \<open>
  C26. A plan that passes the check keeps the graph well formed: in the result no two nodes have the
  same id and every edge joins two nodes that exist; and if every edge the plan adds is named, the
  ids of the edges stay different.
\<close>

theorem plan_keeps_graph:
  assumes "validatePlan plan nodes edges = None" and "graph_ok nodes edges"
    and "applyPlan clocks plan nodes edges = (nodes', edges')"
  shows "graph_ok nodes' edges' \<and>
    (list_all names_edge plan \<longrightarrow> distinct (map eg_id edges) \<longrightarrow> distinct (map eg_id edges'))"
  using validated_graph [of 0 plan "map nd_id nodes" "map eg_id edges" nodes edges clocks nodes' edges']
    validated_edge_ids [of 0 plan "map nd_id nodes" "map eg_id edges" edges clocks nodes nodes' edges'] assms
  by (auto simp: validatePlan_def applyPlan_def)

definition demo_plan :: "PlanOp list" where
  "demo_plan = [AddNode ''a'' ''merge'' (0, 0) [], AddNode ''b'' ''merge'' (0, 0) [], AddNode ''c'' ''merge'' (0, 0) [],
     AddEdge (Some ''e1'') ''a'' ''b'' None None, AddEdge (Some ''e2'') ''b'' ''c'' None None,
     UpdateNode ''a'' [(''label'', JStr ''A'')], DeleteNode ''c'', AddEdge (Some ''e3'') ''b'' ''a'' None None]"

theorem plan_keeps_graph_witness:
  "graph_ok (fst (applyPlan [] demo_plan [] [])) (snd (applyPlan [] demo_plan [] [])) \<and>
   map nd_id (fst (applyPlan [] demo_plan [] [])) = [''a'', ''b''] \<and>
   map eg_id (snd (applyPlan [] demo_plan [] [])) = [''e1'', ''e3'']"
proof (intro conjI)
  have "validatePlan demo_plan [] [] = None" by code_simp
  moreover have "graph_ok [] []" by (simp add: graph_ok_def)
  ultimately show "graph_ok (fst (applyPlan [] demo_plan [] [])) (snd (applyPlan [] demo_plan [] []))"
    using plan_keeps_graph [of demo_plan "[]" "[]" "[]"] by (metis prod.collapse)
qed (code_simp+)

text \<open>
  The same check lets plans through that close a cycle, which \<open>onConnect\<close> refuses: two edges in
  opposite directions are accepted on the canvas as one plan, while drawing the second by hand is
  refused.
\<close>

theorem plan_may_close_cycle:
  "\<exists>nodes plan b. applyPlan_builder [] plan (newBuilder nodes []) = (None, b) \<and>
     \<not> acyclic (edge_rel (b_edges b)) \<and>
     wouldCycle (filter (\<lambda>e. eg_id e = ''e1'') (b_edges b)) ''b'' ''a'' \<and> map eg_id (b_edges b) = [''e1'', ''e2'']"
proof -
  let ?n = "\<lambda>i. \<lparr>nd_id = i, nd_type = ''merge'', nd_position = (0, 0), nd_data = [], nd_selected = False\<rparr>"
  let ?plan = "[AddEdge (Some ''e1'') ''a'' ''b'' None None, AddEdge (Some ''e2'') ''b'' ''a'' None None]"
  let ?b = "snd (applyPlan_builder [] ?plan (newBuilder [?n ''a'', ?n ''b''] []))"
  have ok: "fst (applyPlan_builder [] ?plan (newBuilder [?n ''a'', ?n ''b''] [])) = None" by code_simp
  have "map (\<lambda>e. (eg_source e, eg_target e)) (b_edges ?b) = [(''a'', ''b''), (''b'', ''a'')]" by code_simp
  then have "edge_rel (b_edges ?b) = {(''a'', ''b''), (''b'', ''a'')}"
    unfolding edge_rel_def set_map [symmetric] by simp
  then have steps: "(''a'', ''b'') \<in> edge_rel (b_edges ?b)" "(''b'', ''a'') \<in> edge_rel (b_edges ?b)" by simp_all
  have "(''a'', ''a'') \<in> (edge_rel (b_edges ?b))\<^sup>+"
    by (rule trancl_into_trancl [OF r_into_trancl [OF steps(1)] steps(2)])
  then have "\<not> acyclic (edge_rel (b_edges ?b))" by (auto simp: acyclic_def)
  moreover have "wouldCycle (filter (\<lambda>e. eg_id e = ''e1'') (b_edges ?b)) ''b'' ''a'' \<and> map eg_id (b_edges ?b) = [''e1'', ''e2'']"
    by code_simp
  ultimately show ?thesis using ok by (metis prod.collapse)
qed

section \<open>The history\<close>

definition history_bounded :: "builder \<Rightarrow> bool" where
  "history_bounded b \<longleftrightarrow> length (past (b_history b)) + length (future (b_history b)) \<le> MAX_HISTORY"

lemma push_bounded: "length (past (history_push s h)) + length (future (history_push s h)) \<le> MAX_HISTORY"
  by (simp add: history_push_def slice_last_def MAX_HISTORY_def)

lemma commit_bounded: "history_bounded (commit ns es b)"
  using push_bounded by (simp add: history_bounded_def commit_def scheduleSave_def)

interpretation history: machine "edit addEdge backend model" history_bounded for addEdge backend model
proof
  show "history_bounded (edit addEdge backend model b e)" if b: "history_bounded b" for b e
  proof (cases e)
    case Undo
    with b show ?thesis
      by (cases "past (b_history b)" rule: rev_cases)
        (auto simp: undo_def history_undo_def apply_snapshot_def scheduleSave_def history_bounded_def)
  next
    case Redo
    with b show ?thesis
      by (cases "future (b_history b)" rule: rev_cases)
        (auto simp: redo_def history_redo_def apply_snapshot_def scheduleSave_def history_bounded_def)
  next
    case DragStop
    with b push_bounded show ?thesis
      by (auto simp: onNodeDragStop_def scheduleSave_def history_bounded_def split: option.split)
  qed (use b in \<open>auto simp: onConnect_def addNode_def updateNodeData_def deleteSelected_def applyPlan_builder_def Let_def
      commit_bounded onNodeDragStart_def save_fires_def cancelPendingSave_def
      split: option.split prod.split\<close>, auto simp: history_bounded_def)
qed

text \<open>
  The history never holds more than fifty snapshots, undone ones included, whatever the user
  does, although \<open>redo\<close> and \<open>undo\<close> push without trimming.
\<close>

theorem history_stays_bounded:
  "history_bounded (foldl (edit addEdge backend model) (newBuilder nodes edges) es)"
  by (rule history.run_good) (simp add: history_bounded_def newBuilder_def)

text \<open>
  Undo takes a change back, and redo brings it forth again: after any committed change, undo
  shows the nodes and edges from before it, and redo restores the builder, with its history and
  the queued save, as it was after the change.
\<close>

theorem undo_redo_roundtrip:
  "(b_nodes (undo (commit ns es b)), b_edges (undo (commit ns es b))) = (b_nodes b, b_edges b) \<and>
   redo (undo (commit ns es b)) = commit ns es b"
  by (simp add: undo_def redo_def history_undo_def history_redo_def apply_snapshot_def scheduleSave_def commit_def
      history_push_def)

section \<open>What a save keeps\<close>

text \<open>No array is an item of an array.\<close>

fun is_array :: "json \<Rightarrow> bool" where
  "is_array (JArr xs) = True"
| "is_array _ = False"

fun flat_arrays :: "json \<Rightarrow> bool" where
  "flat_arrays (JArr xs) = (list_all (\<lambda>x. \<not> is_array x \<and> flat_arrays x) xs)"
| "flat_arrays (JObj kvs) = (list_all (\<lambda>(k, v). flat_arrays v) kvs)"
| "flat_arrays _ = True"

lemma safe_exact:
  "safe_value v = v \<longleftrightarrow> flat_arrays v"
  "safe_item v = v \<longleftrightarrow> \<not> is_array v \<and> flat_arrays v"
  "safe_values vs = vs \<longleftrightarrow> list_all flat_arrays vs"
  "safe_items vs = vs \<longleftrightarrow> list_all (\<lambda>x. \<not> is_array x \<and> flat_arrays x) vs"
  "safeClone kvs = kvs \<longleftrightarrow> list_all (\<lambda>(k, v). flat_arrays v) kvs"
  by (induction v and v and vs and vs and kvs rule: safe_value_safe_item_safe_values_safe_items_safeClone.induct)
    auto

text \<open>
  A save keeps the data of a node exactly when no array in it is an item of another array; a
  nested array is sent as an object with its indices as keys.
\<close>

theorem save_keeps_flat_data:
  "safeClone d = d \<longleftrightarrow> list_all (\<lambda>(k, v). flat_arrays v) d"
  by (rule safe_exact(5))

lemma nested_array_is_saved_as_object:
  "safeClone [(''rows'', JArr [JArr [JNum 1, JNum 2]])] = [(''rows'', JArr [JObj [(''0'', JNum 1), (''1'', JNum 2)]])]"
  by code_simp

end
