(* ===== verification/ChatBlocks.thy ===== *)
theory ChatBlocks
  imports WebClient Accumulator
begin

text \<open>
  The blocks of a chat message in the web client: the block types (\<open>types/chat.ts\<close>), the messages
  of the socket (\<open>lib/ws/types.ts\<close>), the tree of sub-agent calls
  (\<open>features/chat/lib/build-block-tree.ts\<close>), the hook that collects blocks from the stream
  (\<open>hooks/use-streaming-blocks.ts\<close>), saving and restoring them (\<open>restore-blocks.ts\<close>), and grouping
  and searching them (\<open>group-blocks.ts\<close>, \<open>match-block.ts\<close>).
\<close>

section \<open>Blocks and socket messages\<close>

datatype tool_status = Running | Complete

record ToolCallBlock =
  tc_id :: string
  tc_name :: string
  tc_input :: json
  tc_status :: tool_status
  tc_result :: "string option"
  tc_is_error :: "bool option"
  tc_elapsed :: "rat option"
  tc_parent :: "string option"

text \<open>Every block has an id first; the children of a tool call are in the tree below.\<close>

datatype StreamBlock =
    TextBlock string string
  | ToolCall ToolCallBlock
  | ThinkingBlock string string
  | ErrorBlock string string

datatype ConnectionStatus =
    Connecting | Provisioning | Spawning | Waiting | Ready | Offline | Disconnected | Reconnecting

text \<open>Attachments are JSON values here.\<close>

datatype WSMessage =
    WsStatus ConnectionStatus "string option"
  | WsMessage string "json option"
  | WsChunk string
  | WsUserMessage string string string "json option"
  | WsStreamStarted string string
  | WsToolUse string json "string option" "string option"
  | WsToolResult string string "bool option" "string option"
  | WsToolProgress string string "string option" rat
  | WsThinking string
  | WsDone string
  | WsError string "string option" "string option"
  | WsReplayStart
  | WsReplayEnd
  | WsStreamComplete string string
  | WsCancelled "string option"

record TodoItem =
  td_content :: json
  td_status :: json

section \<open>The tree of blocks\<close>

text \<open>A node without children has no \<open>children\<close> property.\<close>

datatype BlockTree = Leaf StreamBlock | Node ToolCallBlock "BlockTree list"

text \<open>
  While the tree is built, the clones of the tool calls live in a \<open>Map\<close> by id and refer to each
  other: a node is its block and the ids of its children, and an item of the top level is a block
  of the list or a reference to a node.
\<close>

type_synonym tool_map = "(string, ToolCallBlock \<times> string list) jmap"

datatype top_item = Plain StreamBlock | Ref string

definition clone_tools :: "StreamBlock list \<Rightarrow> tool_map" where
  "clone_tools flat = foldl (\<lambda>m b. case b of ToolCall t \<Rightarrow> mput (tc_id t) (t, []) m | _ \<Rightarrow> m) [] flat"

definition push_child :: "string \<Rightarrow> string \<Rightarrow> tool_map \<Rightarrow> tool_map" where
  "push_child p c m = (case mget m p of Some (t, cs) \<Rightarrow> mput p (t, cs @ [c]) m | None \<Rightarrow> m)"

definition nested_under :: "tool_map \<Rightarrow> ToolCallBlock \<Rightarrow> bool" where
  "nested_under m t \<longleftrightarrow> truthy (tc_parent t) \<and> mget m (the (tc_parent t)) \<noteq> None"

fun place :: "tool_map \<times> top_item list \<Rightarrow> StreamBlock \<Rightarrow> tool_map \<times> top_item list" where
  "place (m, tops) (ToolCall t) =
     (if nested_under m t then (push_child (the (tc_parent t)) (tc_id t) m, tops)
      else (m, tops @ [Ref (tc_id t)]))"
| "place (m, tops) b = (m, tops @ [Plain b])"

text \<open>
  The object graph read as a tree. A path that repeats no node has at most as many nodes as there
  are tool calls, so with that fuel \<open>None\<close> means that the graph has a cycle below the top level.
\<close>

fun read_node :: "nat \<Rightarrow> tool_map \<Rightarrow> string \<Rightarrow> BlockTree option" where
  "read_node 0 m i = None"
| "read_node (Suc fuel) m i =
     (case mget m i of
        None \<Rightarrow> None
      | Some (t, cs) \<Rightarrow> map_option (Node t) (those (map (read_node fuel m) cs)))"

fun read_item :: "nat \<Rightarrow> tool_map \<Rightarrow> top_item \<Rightarrow> BlockTree option" where
  "read_item fuel m (Plain b) = Some (Leaf b)"
| "read_item fuel m (Ref i) = read_node fuel m i"

definition buildBlockTree :: "StreamBlock list \<Rightarrow> BlockTree list option" where
  "buildBlockTree flat =
     (let (m, tops) = foldl place (clone_tools flat, []) flat
      in those (map (read_item (length m) m) tops))"

section \<open>Collecting blocks from the stream\<close>

text \<open>
  The hook's state: the blocks so far, the tree on the screen, the to-do list, and whether a frame
  is requested.
\<close>

record streaming =
  sb_blocks :: "StreamBlock list"
  sb_shown :: "BlockTree list option"
  sb_todos :: "TodoItem list"
  sb_frame :: bool

definition newStreaming :: streaming where
  "newStreaming = \<lparr>sb_blocks = [], sb_shown = Some [], sb_todos = [], sb_frame = False\<rparr>"

definition scheduleRender :: "streaming \<Rightarrow> streaming" where
  "scheduleRender s = s\<lparr>sb_frame := True\<rparr>"

definition render_frame :: "streaming \<Rightarrow> streaming" where
  "render_frame s = (if sb_frame s then s\<lparr>sb_shown := buildBlockTree (sb_blocks s), sb_frame := False\<rparr> else s)"

definition updateBlocks :: "(StreamBlock list \<Rightarrow> StreamBlock list) \<Rightarrow> streaming \<Rightarrow> streaming" where
  "updateBlocks f s = scheduleRender (s\<lparr>sb_blocks := f (sb_blocks s)\<rparr>)"

fun complete_tool :: "StreamBlock \<Rightarrow> StreamBlock" where
  "complete_tool (ToolCall t) = (if tc_status t = Running then ToolCall (t\<lparr>tc_status := Complete\<rparr>) else ToolCall t)"
| "complete_tool b = b"

text \<open>A new id is made of the clock and of a random suffix, both arguments.\<close>

definition add_thinking :: "string \<Rightarrow> string \<Rightarrow> string \<Rightarrow> StreamBlock list \<Rightarrow> StreamBlock list" where
  "add_thinking clock rand content prev =
     (case rev prev of
        ThinkingBlock i c # _ \<Rightarrow> butlast prev @ [ThinkingBlock i (c @ content)]
      | _ \<Rightarrow> prev @ [ThinkingBlock (''thinking-'' @ clock @ ''-'' @ rand) content])"

definition add_text :: "string \<Rightarrow> string \<Rightarrow> string \<Rightarrow> StreamBlock list \<Rightarrow> StreamBlock list" where
  "add_text clock rand content prev =
     (let resolved = map complete_tool prev
      in case rev resolved of
           TextBlock i c # _ \<Rightarrow> butlast resolved @ [TextBlock i (c @ content)]
         | _ \<Rightarrow> resolved @ [TextBlock (''text-'' @ clock @ ''-'' @ rand) content])"

definition new_tool :: "string \<Rightarrow> string \<Rightarrow> json \<Rightarrow> string option \<Rightarrow> string option \<Rightarrow> ToolCallBlock" where
  "new_tool clock name input tool_use_id parent =
     \<lparr>tc_id = (if truthy tool_use_id then the tool_use_id else ''tool-'' @ clock), tc_name = name, tc_input = input,
      tc_status = Running, tc_result = None, tc_is_error = None, tc_elapsed = None,
      tc_parent = (if truthy parent then parent else None)\<rparr>"

text \<open>The items of a \<open>TodoWrite\<close> call; a null item throws.\<close>

fun todo_item :: "json \<Rightarrow> TodoItem option" where
  "todo_item JNull = None"
| "todo_item t = Some \<lparr>td_content = (case present (jget t ''content'') of Some c \<Rightarrow> c | None \<Rightarrow> JStr []),
     td_status = (case present (jget t ''status'') of Some c \<Rightarrow> c | None \<Rightarrow> JStr ''pending'')\<rparr>"

fun set_result :: "string \<Rightarrow> string \<Rightarrow> bool option \<Rightarrow> StreamBlock \<Rightarrow> StreamBlock" where
  "set_result i content err (ToolCall t) =
     (if tc_id t = i then ToolCall (t\<lparr>tc_status := Complete, tc_result := Some content, tc_is_error := err\<rparr>) else ToolCall t)"
| "set_result i content err b = b"

fun set_elapsed :: "string \<Rightarrow> rat \<Rightarrow> StreamBlock \<Rightarrow> StreamBlock" where
  "set_elapsed i n (ToolCall t) = (if tc_id t = i then ToolCall (t\<lparr>tc_elapsed := Some n\<rparr>) else ToolCall t)"
| "set_elapsed i n b = b"

text \<open>The name of the last tool call with the id, which is what the callback is told.\<close>

definition completed_name :: "string \<Rightarrow> StreamBlock list \<Rightarrow> string option" where
  "completed_name i blocks =
     foldl (\<lambda>n b. case b of ToolCall t \<Rightarrow> if tc_id t = i then Some (tc_name t) else n | _ \<Rightarrow> n) None blocks"

text \<open>What a message leads to beside the new state: the callback, or an exception.\<close>

datatype handled = Quiet | ToolCompleted string | Thrown

fun handleMessage :: "string \<Rightarrow> string \<Rightarrow> WSMessage \<Rightarrow> streaming \<Rightarrow> handled \<times> streaming" where
  "handleMessage clock rand (WsThinking content) s = (Quiet, updateBlocks (add_thinking clock rand content) s)"
| "handleMessage clock rand (WsChunk content) s = (Quiet, updateBlocks (add_text clock rand content) s)"
| "handleMessage clock rand (WsToolUse name input i parent) s =
     (let s' = updateBlocks (\<lambda>prev. prev @ [ToolCall (new_tool clock name input i parent)]) s
      in if name = ''TodoWrite''
         then (case jget input ''todos'' of
                 Some (JArr ts) \<Rightarrow> (case those (map todo_item ts) of
                     Some items \<Rightarrow> (Quiet, s'\<lparr>sb_todos := items\<rparr>)
                   | None \<Rightarrow> (Thrown, s'))
               | _ \<Rightarrow> (Quiet, s'))
         else (Quiet, s'))"
| "handleMessage clock rand (WsToolResult i content err parent) s =
     (let name = completed_name i (sb_blocks s)
      in (if truthy name then ToolCompleted (the name) else Quiet, updateBlocks (map (set_result i content err)) s))"
| "handleMessage clock rand (WsToolProgress i name parent n) s = (Quiet, updateBlocks (map (set_elapsed i n)) s)"
| "handleMessage clock rand _ s = (Quiet, s)"

definition reset_blocks :: "streaming \<Rightarrow> streaming" where
  "reset_blocks s = s\<lparr>sb_blocks := [], sb_shown := Some [], sb_todos := [], sb_frame := False\<rparr>"

definition finalize :: "streaming \<Rightarrow> streaming" where
  "finalize s = s\<lparr>sb_blocks := map complete_tool (sb_blocks s)\<rparr>"

fun text_content :: "StreamBlock \<Rightarrow> string" where
  "text_content (TextBlock i c) = c"
| "text_content _ = []"

definition flattenText :: "streaming \<Rightarrow> string" where
  "flattenText s = concat (map text_content (sb_blocks s))"

section \<open>Saving and restoring\<close>

text \<open>White space for \<open>trim()\<close>, of the code units below 256.\<close>

definition js_space :: "char \<Rightarrow> bool" where
  "js_space c \<longleftrightarrow> of_char c \<in> {9, 10, 11, 12, 13, 32, 160 :: nat}"

fun worth_saving :: "StreamBlock \<Rightarrow> bool" where
  "worth_saving (TextBlock i c) \<longleftrightarrow> \<not> list_all js_space c"
| "worth_saving (ThinkingBlock i c) \<longleftrightarrow> \<not> list_all js_space c"
| "worth_saving b \<longleftrightarrow> True"

fun block_meta :: "StreamBlock \<Rightarrow> json" where
  "block_meta (TextBlock i c) = JObj [(''type'', JStr ''text''), (''content'', JStr c)]"
| "block_meta (ThinkingBlock i c) = JObj [(''type'', JStr ''thinking''), (''content'', JStr c)]"
| "block_meta (ErrorBlock i c) = JObj [(''type'', JStr ''error''), (''message'', JStr c)]"
| "block_meta (ToolCall t) = JObj
     ([(''type'', JStr ''tool_call''), (''name'', JStr (tc_name t)), (''input'', tc_input t), (''tool_use_id'', JStr (tc_id t))]
      @ (case tc_result t of Some r \<Rightarrow> [(''result'', JStr r)] | None \<Rightarrow> [])
      @ (if tc_is_error t = Some True then [(''is_error'', JBool True)] else [])
      @ (if truthy (tc_parent t) then [(''parent_tool_use_id'', JStr (the (tc_parent t)))] else []))"

definition getBlocksMeta :: "StreamBlock list \<Rightarrow> json list" where
  "getBlocksMeta blocks = map block_meta (filter worth_saving blocks)"

text \<open>\<open>String(v ?? d)\<close>.\<close>

definition string_or :: "(json \<Rightarrow> string) \<Rightarrow> json option \<Rightarrow> string" where
  "string_or to_str v = (case present v of Some x \<Rightarrow> js_string to_str x | None \<Rightarrow> [])"

text \<open>One saved block; the error carries the index.\<close>

definition restore_block ::
  "(json \<Rightarrow> string) \<Rightarrow> bool \<Rightarrow> string \<Rightarrow> nat \<times> json \<Rightarrow> nat + StreamBlock" where
  "restore_block to_str cancelled pre ib =
     (case ib of (i, b) \<Rightarrow>
       if jget b ''type'' = Some (JStr ''tool_call'')
       then (case (jstr (jget b ''tool_use_id''), jstr (jget b ''name'')) of
               (Some tid, Some name) \<Rightarrow>
                 let hasResult = (present (jget b ''result'') \<noteq> None)
                 in Inr (ToolCall \<lparr>tc_id = tid, tc_name = name,
                      tc_input = (case present (jget b ''input'') of Some v \<Rightarrow> v | None \<Rightarrow> JObj []), tc_status = Complete,
                      tc_result = (if hasResult then Some (string_or to_str (jget b ''result''))
                                   else if cancelled then Some ''[Cancelled]'' else None),
                      tc_is_error = (if jget b ''is_error'' = Some (JBool True) then Some True
                                     else if \<not> hasResult \<and> cancelled then Some True else None),
                      tc_elapsed = None, tc_parent = jstr (jget b ''parent_tool_use_id'')\<rparr>)
             | _ \<Rightarrow> Inl i)
       else if jget b ''type'' = Some (JStr ''thinking'')
       then Inr (ThinkingBlock (pre @ ''thinking-'' @ nat_string i) (string_or to_str (jget b ''content'')))
       else if jget b ''type'' = Some (JStr ''error'')
       then Inr (ErrorBlock (pre @ ''error-'' @ nat_string i)
              (string_or to_str (if present (jget b ''message'') \<noteq> None then jget b ''message'' else jget b ''content'')))
       else Inr (TextBlock (pre @ ''text-'' @ nat_string i) (string_or to_str (jget b ''content''))))"

fun restore_all :: "(nat \<times> json \<Rightarrow> nat + StreamBlock) \<Rightarrow> (nat \<times> json) list \<Rightarrow> nat + StreamBlock list" where
  "restore_all f [] = Inr []"
| "restore_all f (x # xs) =
     (case f x of
        Inl e \<Rightarrow> Inl e
      | Inr b \<Rightarrow> (case restore_all f xs of Inl e \<Rightarrow> Inl e | Inr bs \<Rightarrow> Inr (b # bs)))"

definition restoreBlocks ::
  "(json \<Rightarrow> string) \<Rightarrow> json list \<Rightarrow> bool \<Rightarrow> string option \<Rightarrow> nat + BlockTree list option" where
  "restoreBlocks to_str raw cancelled messageId =
     (let pre = (if truthy messageId then the messageId @ ''-'' else [])
      in map_sum id buildBlockTree
           (restore_all (restore_block to_str cancelled pre) (zip [0..<length raw] raw)))"

section \<open>Grouping and searching\<close>

datatype RenderItem = BlockItem BlockTree | ToolGroup "BlockTree list"

definition DEFAULT_GROUP_THRESHOLD :: nat where "DEFAULT_GROUP_THRESHOLD = 3"

fun is_tool :: "BlockTree \<Rightarrow> bool" where
  "is_tool (Node t cs) = True"
| "is_tool (Leaf b) = False"

definition flush_group :: "nat \<Rightarrow> RenderItem list \<times> BlockTree list \<Rightarrow> RenderItem list \<times> BlockTree list" where
  "flush_group threshold rp =
     (case rp of (result, pending) \<Rightarrow>
        if pending = [] then (result, pending)
        else if threshold \<le> length pending then (result @ [ToolGroup pending], [])
        else (result @ map BlockItem pending, []))"

definition group_step :: "nat \<Rightarrow> RenderItem list \<times> BlockTree list \<Rightarrow> BlockTree \<Rightarrow> RenderItem list \<times> BlockTree list" where
  "group_step threshold rp block =
     (if is_tool block then (fst rp, snd rp @ [block])
      else (case flush_group threshold rp of (result, pending) \<Rightarrow> (result @ [BlockItem block], pending)))"

definition groupConsecutiveToolCalls :: "nat \<Rightarrow> BlockTree list \<Rightarrow> RenderItem list" where
  "groupConsecutiveToolCalls threshold blocks =
     fst (flush_group threshold (foldl (group_step threshold) ([], []) blocks))"

text \<open>
  The search in tool calls: \<open>toLowerCase\<close> and \<open>JSON.stringify\<close> are the arguments \<open>lower\<close> and
  \<open>stringify\<close>; the input came from JSON, so \<open>stringify\<close> does not throw.
\<close>

fun toolCallMatches :: "(string \<Rightarrow> string) \<Rightarrow> (json \<Rightarrow> string) \<Rightarrow> ToolCallBlock \<Rightarrow> BlockTree list \<Rightarrow> string \<Rightarrow> bool"
  and anyBlockMatches :: "(string \<Rightarrow> string) \<Rightarrow> (json \<Rightarrow> string) \<Rightarrow> BlockTree list \<Rightarrow> string \<Rightarrow> bool" where
  "toolCallMatches lower stringify t cs q =
     (if q = [] then False
      else if has_sub (lower (tc_name t)) q then True
      else if has_sub (lower (stringify (tc_input t))) q then True
      else if (case tc_result t of Some r \<Rightarrow> has_sub (lower r) q | None \<Rightarrow> False) then True
      else anyBlockMatches lower stringify cs q)"
| "anyBlockMatches lower stringify [] q = False"
| "anyBlockMatches lower stringify (Leaf (TextBlock i c) # bs) q =
     (if has_sub (lower c) q then True else anyBlockMatches lower stringify bs q)"
| "anyBlockMatches lower stringify (Leaf (ThinkingBlock i c) # bs) q =
     (if has_sub (lower c) q then True else anyBlockMatches lower stringify bs q)"
| "anyBlockMatches lower stringify (Leaf (ErrorBlock i c) # bs) q =
     (if has_sub (lower c) q then True else anyBlockMatches lower stringify bs q)"
| "anyBlockMatches lower stringify (Leaf (ToolCall t) # bs) q =
     (if toolCallMatches lower stringify t [] q then True else anyBlockMatches lower stringify bs q)"
| "anyBlockMatches lower stringify (Node t cs # bs) q =
     (if toolCallMatches lower stringify t cs q then True else anyBlockMatches lower stringify bs q)"

end
