(* ===== verification/ChatSession.thy ===== *)
theory ChatSession
  imports ChatBlocks
begin

text \<open>
  A chat session in the web client: the message list (\<open>features/chat/hooks/use-chat-history.ts\<close>)
  and what the messages of the socket do to it and to the streamed blocks
  (\<open>hooks/use-chat-messages.ts\<close>). Requests to the server are cut at their await: the call and the
  answer are separate steps, so that anything can happen in between.
\<close>

section \<open>The message list\<close>

datatype sender_type = SentByUser | SentByAgent

record Message =
  ms_id :: string
  ms_session_id :: string
  ms_sender_type :: sender_type
  ms_sender_id :: "string option"
  ms_content :: string
  ms_metadata :: "(string \<times> json) list"
  ms_created_at :: string

text \<open>The draft that a rolled-back message becomes.\<close>

record RestoreDraft =
  rd_content :: string
  rd_attachments :: "json option"

text \<open>A session is its JSON object; \<open>hs_guard\<close> is \<open>loadingEarlierRef\<close>.\<close>

record history =
  hs_session :: "(string \<times> json) list option"
  hs_messages :: "Message list"
  hs_loading :: bool
  hs_hasMore :: bool
  hs_loadingEarlier :: bool
  hs_restoreDraft :: "RestoreDraft option"
  hs_guard :: bool

definition newHistory :: history where
  "newHistory = \<lparr>hs_session = None, hs_messages = [], hs_loading = True, hs_hasMore = False,
     hs_loadingEarlier = False, hs_restoreDraft = None, hs_guard = False\<rparr>"

record SessionDetail =
  sd_session :: "(string \<times> json) list"
  sd_messages :: "Message list"
  sd_has_more :: bool

text \<open>The effect of a new session id, and the answer to its request; an answer of a session left since is cancelled.\<close>

definition open_session :: "history \<Rightarrow> history" where
  "open_session h = h\<lparr>hs_messages := [], hs_loading := True, hs_hasMore := False\<rparr>"

definition detail_done :: "bool \<Rightarrow> SessionDetail option \<Rightarrow> history \<Rightarrow> history" where
  "detail_done cancelled got h =
     (if cancelled then h
      else (case got of
              Some d \<Rightarrow> h\<lparr>hs_session := Some (sd_session d), hs_messages := sd_messages d,
                           hs_loading := False, hs_hasMore := sd_has_more d\<rparr>
            | None \<Rightarrow> h\<lparr>hs_loading := False\<rparr>))"

definition reload_done :: "SessionDetail option \<Rightarrow> history \<Rightarrow> history" where
  "reload_done got h =
     (case got of
        Some d \<Rightarrow> h\<lparr>hs_messages := sd_messages d, hs_hasMore := sd_has_more d\<rparr>
      | None \<Rightarrow> h)"

text \<open>The call of \<open>loadEarlier\<close>: the date that the page must precede, if a request is made.\<close>

definition loadEarlier_call :: "history \<Rightarrow> string option \<times> history" where
  "loadEarlier_call h =
     (if hs_guard h \<or> \<not> hs_hasMore h then (None, h)
      else (case hs_messages h of
              [] \<Rightarrow> (None, h)
            | oldest # _ \<Rightarrow> (Some (ms_created_at oldest), h\<lparr>hs_loadingEarlier := True, hs_guard := True\<rparr>)))"

definition prepend_page :: "Message list \<Rightarrow> Message list \<Rightarrow> Message list" where
  "prepend_page page prev = filter (\<lambda>m. ms_id m \<notin> ms_id ` set prev) page @ prev"

definition loadEarlier_done :: "(Message list \<times> bool) option \<Rightarrow> history \<Rightarrow> history" where
  "loadEarlier_done page h =
     (case page of
        Some (ms, has_more) \<Rightarrow> h\<lparr>hs_messages := prepend_page ms (hs_messages h), hs_hasMore := has_more\<rparr>
      | None \<Rightarrow> h)\<lparr>hs_loadingEarlier := False, hs_guard := False\<rparr>"

text \<open>\<open>{ ...session, ...patch }\<close>.\<close>

definition patchSession :: "(string \<times> json) list \<Rightarrow> history \<Rightarrow> history" where
  "patchSession p h = h\<lparr>hs_session := map_option (\<lambda>s. foldl (\<lambda>m (k, v). mput k v m) s p) (hs_session h)\<rparr>"

definition appendMessage :: "Message \<Rightarrow> history \<Rightarrow> history" where
  "appendMessage m h = h\<lparr>hs_messages := hs_messages h @ [m]\<rparr>"

definition appendUniqueMessage :: "Message \<Rightarrow> history \<Rightarrow> history" where
  "appendUniqueMessage m h =
     (if list_ex (\<lambda>x. ms_id x = ms_id m) (hs_messages h) then h else h\<lparr>hs_messages := hs_messages h @ [m]\<rparr>)"

definition transient :: "Message \<Rightarrow> bool" where
  "transient m \<longleftrightarrow> jtruthy (map_of (ms_metadata m) ''transient'')"

definition dropTransientMessages :: "history \<Rightarrow> history" where
  "dropTransientMessages h = h\<lparr>hs_messages := filter (\<lambda>m. \<not> transient m) (hs_messages h)\<rparr>"

definition by_user :: "Message \<Rightarrow> bool" where
  "by_user m \<longleftrightarrow> ms_sender_type m = SentByUser"

text \<open>\<open>[...prev].reverse().findIndex(p)\<close>.\<close>

fun find_index :: "('a \<Rightarrow> bool) \<Rightarrow> 'a list \<Rightarrow> nat option" where
  "find_index P [] = None"
| "find_index P (x # xs) = (if P x then Some 0 else map_option Suc (find_index P xs))"

text \<open>The error bubble takes the place of the user's last message; its id and date are arguments.\<close>

definition error_bubble :: "string \<Rightarrow> string \<Rightarrow> string \<Rightarrow> string \<Rightarrow> Message" where
  "error_bubble uuid date sessionId errorText =
     \<lparr>ms_id = uuid, ms_session_id = sessionId, ms_sender_type = SentByUser, ms_sender_id = None, ms_content = errorText,
      ms_metadata = [(''transient'', JBool True)], ms_created_at = date\<rparr>"

definition rollbackLastUserMessage :: "string \<Rightarrow> string \<Rightarrow> string \<Rightarrow> string \<Rightarrow> history \<Rightarrow> history" where
  "rollbackLastUserMessage uuid date sessionId errorText h =
     (let prev = hs_messages h
      in case find_index by_user (rev prev) of
           None \<Rightarrow> h
         | Some lastUserIdx \<Rightarrow>
             let idx = length prev - 1 - lastUserIdx; removed = prev ! idx
             in h\<lparr>hs_messages := take idx prev @ drop (idx + 1) prev @ [error_bubble uuid date sessionId errorText],
                  hs_restoreDraft := Some \<lparr>rd_content = ms_content removed,
                    rd_attachments = map_of (ms_metadata removed) ''attachments''\<rparr>\<rparr>)"

definition clearRestoreDraft :: "history \<Rightarrow> history" where
  "clearRestoreDraft h = h\<lparr>hs_restoreDraft := None\<rparr>"

section \<open>The session\<close>

record chat =
  ct_history :: history
  ct_stream :: streaming
  ct_isStreaming :: bool
  ct_streamId :: "string option"

definition newChat :: chat where
  "newChat = \<lparr>ct_history = newHistory, ct_stream = newStreaming, ct_isStreaming = False, ct_streamId = None\<rparr>"

text \<open>What a message causes outside: a request, a callback, or an exception.\<close>

datatype chat_effect = ReloadHistory | RefreshUser | ToolDone string | HandlerThrew

definition end_turn :: "chat \<Rightarrow> chat" where
  "end_turn c = c\<lparr>ct_stream := reset_blocks (ct_stream c), ct_isStreaming := False, ct_streamId := None\<rparr>"

definition change_session :: "chat \<Rightarrow> chat" where
  "change_session c = end_turn c"

definition agent_message :: "string \<Rightarrow> string \<Rightarrow> string \<Rightarrow> string \<Rightarrow> (string \<times> json) list \<Rightarrow> Message" where
  "agent_message i date sessionId content metadata =
     \<lparr>ms_id = i, ms_session_id = sessionId, ms_sender_type = SentByAgent, ms_sender_id = None, ms_content = content,
      ms_metadata = metadata, ms_created_at = date\<rparr>"

definition forward_to_blocks :: "string \<Rightarrow> string \<Rightarrow> WSMessage \<Rightarrow> chat \<Rightarrow> chat_effect list \<times> chat" where
  "forward_to_blocks clock rand m c =
     (case handleMessage clock rand m (ct_stream c) of
        (Quiet, s) \<Rightarrow> ([], c\<lparr>ct_stream := s\<rparr>)
      | (ToolCompleted n, s) \<Rightarrow> ([ToolDone n], c\<lparr>ct_stream := s\<rparr>)
      | (Thrown, s) \<Rightarrow> ([HandlerThrew], c\<lparr>ct_stream := s\<rparr>))"

text \<open>The surroundings of one call: the session, the clock, a date, a random suffix, a random id.\<close>

record moment =
  mo_session :: string
  mo_clock :: string
  mo_now :: string
  mo_rand :: string
  mo_uuid :: string

definition on_done :: "moment \<Rightarrow> string \<Rightarrow> chat \<Rightarrow> chat" where
  "on_done mo messageId c =
     (let s = finalize (ct_stream c); finalContent = flattenText s; savedBlocks = getBlocksMeta (sb_blocks s);
          metadata = (if savedBlocks \<noteq> [] then [(''blocks'', JArr savedBlocks)] else [])
      in end_turn (c\<lparr>ct_history :=
           (if finalContent \<noteq> [] \<or> savedBlocks \<noteq> []
            then appendUniqueMessage (agent_message messageId (mo_now mo) (mo_session mo) finalContent metadata) (ct_history c)
            else ct_history c)\<rparr>))"

definition on_error :: "moment \<Rightarrow> string \<Rightarrow> string option \<Rightarrow> string option \<Rightarrow> chat \<Rightarrow> chat_effect list \<times> chat" where
  "on_error mo message messageId rollback c =
     (if has_sub (to_lower message) ''session expired'' then ([RefreshUser], end_turn c)
      else if truthy messageId then
        (let s = finalize (ct_stream c);
             allBlocks = getBlocksMeta (sb_blocks s) @ [JObj [(''type'', JStr ''error''), (''message'', JStr message)]]
         in ([], end_turn (c\<lparr>ct_history := appendUniqueMessage
               (agent_message (the messageId) (mo_now mo) (mo_session mo) (flattenText s)
                  [(''blocks'', JArr allBlocks), (''error'', JBool True)]) (ct_history c)\<rparr>)))
      else if truthy rollback then
        ([], end_turn (c\<lparr>ct_history :=
           rollbackLastUserMessage (mo_uuid mo) (mo_now mo) (mo_session mo) message (ct_history c)\<rparr>))
      else ([], end_turn (c\<lparr>ct_history := appendMessage
             (agent_message (mo_uuid mo) (mo_now mo) (mo_session mo) message [(''error'', JBool True)]) (ct_history c)\<rparr>)))"

definition on_cancelled :: "moment \<Rightarrow> string option \<Rightarrow> chat \<Rightarrow> chat" where
  "on_cancelled mo messageId c =
     (let partialContent = flattenText (ct_stream c); partialBlocks = getBlocksMeta (sb_blocks (ct_stream c));
          cancelMeta = (''cancelled'', JBool True) # (if partialBlocks \<noteq> [] then [(''blocks'', JArr partialBlocks)] else [])
      in end_turn (c\<lparr>ct_history :=
           (if partialContent \<noteq> [] \<or> partialBlocks \<noteq> []
            then appendUniqueMessage (agent_message (if truthy messageId then the messageId else mo_uuid mo)
                   (mo_now mo) (mo_session mo) partialContent cancelMeta) (ct_history c)
            else ct_history c)\<rparr>))"

definition handle_chat :: "moment \<Rightarrow> WSMessage \<Rightarrow> chat \<Rightarrow> chat_effect list \<times> chat" where
  "handle_chat mo m c =
     (case m of
        WsStatus st text \<Rightarrow> (if st = Disconnected then ([ReloadHistory], end_turn c) else ([], c))
      | WsUserMessage sender messageId content attachments \<Rightarrow>
          ([], c\<lparr>ct_history := appendMessage \<lparr>ms_id = messageId, ms_session_id = mo_session mo,
                   ms_sender_type = SentByUser, ms_sender_id = Some sender, ms_content = content,
                   ms_metadata = (if jtruthy attachments then [(''attachments'', the attachments)] else []),
                   ms_created_at = mo_now mo\<rparr> (ct_history c), ct_isStreaming := True\<rparr>)
      | WsStreamStarted streamId agentId \<Rightarrow> ([], c\<lparr>ct_isStreaming := True, ct_streamId := Some streamId\<rparr>)
      | WsDone messageId \<Rightarrow> ([], on_done mo messageId c)
      | WsError message messageId rollback \<Rightarrow> on_error mo message messageId rollback c
      | WsReplayStart \<Rightarrow> ([], c\<lparr>ct_stream := reset_blocks (ct_stream c), ct_isStreaming := True\<rparr>)
      | WsReplayEnd \<Rightarrow> ([], c)
      | WsCancelled messageId \<Rightarrow> ([], on_cancelled mo messageId c)
      | WsStreamComplete content messageId \<Rightarrow>
          ([], c\<lparr>ct_history := appendUniqueMessage (agent_message messageId (mo_now mo) (mo_session mo) content [])
                  (ct_history c), ct_isStreaming := False\<rparr>)
      | WsMessage content attachments \<Rightarrow> ([], c)
      | _ \<Rightarrow> forward_to_blocks (mo_clock mo) (mo_rand mo) m c)"

text \<open>Sending: whether the socket is open is an argument; the result and what goes out.\<close>

definition send_message :: "ConnectionStatus \<Rightarrow> bool \<Rightarrow> string \<Rightarrow> json list \<Rightarrow> chat \<Rightarrow> (bool \<times> json option) \<times> chat" where
  "send_message status ws_open content attachments c =
     (if status \<noteq> Ready then ((False, None), c)
      else (let c' = c\<lparr>ct_history := clearRestoreDraft (dropTransientMessages (ct_history c))\<rparr>;
                msg = JObj ([(''type'', JStr ''message''), (''content'', JStr content)] @
                        (if attachments \<noteq> [] then [(''attachments'', JArr attachments)] else []))
            in if ws_open then ((True, Some msg), c'\<lparr>ct_isStreaming := True\<rparr>) else ((False, None), c')))"

definition cancel_stream :: "bool \<Rightarrow> chat \<Rightarrow> json option" where
  "cancel_stream ws_open c =
     (if truthy (ct_streamId c) \<and> ws_open
      then Some (JObj [(''type'', JStr ''cancel''), (''stream_id'', JStr (the (ct_streamId c)))]) else None)"

definition canCancel :: "chat \<Rightarrow> bool" where
  "canCancel c \<longleftrightarrow> ct_streamId c \<noteq> None"

end
