(* ===== verification/ChatBlocksProps.thy ===== *)
theory ChatBlocksProps
  imports ChatBlocks
begin

text \<open>
  What holds of chat blocks: the tree of a stream keeps every block and nests it under its parent;
  the text that is saved is the text that was streamed; the screen is never behind without a
  frame on its way; a saved answer is restored as the tree that was shown; grouping is the grouping
  by runs; and the search finds exactly the texts of the tree.
\<close>

section \<open>The tree in closed form\<close>

lemma those_iff: "those (map f xs) = Some ys \<longleftrightarrow> list_all2 (\<lambda>x y. f x = Some y) xs ys"
proof (induction xs arbitrary: ys)
  case (Cons x xs)
  show ?case
    by (cases ys) (auto simp: Cons.IH [symmetric] split: option.splits)
qed (auto simp: list_all2_Nil)

fun tools :: "StreamBlock list \<Rightarrow> ToolCallBlock list" where
  "tools [] = []"
| "tools (ToolCall t # bs) = t # tools bs"
| "tools (b # bs) = tools bs"

lemma tools_append [simp]: "tools (xs @ ys) = tools xs @ tools ys"
  by (induction xs rule: tools.induct) auto

lemma set_tools: "t \<in> set (tools flat) \<longleftrightarrow> ToolCall t \<in> set flat"
  by (induction flat rule: tools.induct) auto

abbreviation tool_ids_of :: "StreamBlock list \<Rightarrow> string list" where
  "tool_ids_of flat \<equiv> map tc_id (tools flat)"

definition kids :: "StreamBlock list \<Rightarrow> string \<Rightarrow> ToolCallBlock list" where
  "kids flat i = filter (\<lambda>c. tc_parent c = Some i \<and> i \<noteq> []) (tools flat)"

lemma kids_append: "kids (xs @ ys) i = kids xs i @ kids ys i"
  by (simp add: kids_def)

fun top_level :: "StreamBlock list \<Rightarrow> StreamBlock \<Rightarrow> bool" where
  "top_level flat (ToolCall t) \<longleftrightarrow> \<not> (truthy (tc_parent t) \<and> the (tc_parent t) \<in> set (tool_ids_of flat))"
| "top_level flat b \<longleftrightarrow> True"

fun item_of :: "StreamBlock \<Rightarrow> top_item" where
  "item_of (ToolCall t) = Ref (tc_id t)"
| "item_of b = Plain b"

lemma clone_snoc:
  "clone_tools (flat @ [b]) = (case b of ToolCall t \<Rightarrow> mput (tc_id t) (t, []) (clone_tools flat) | _ \<Rightarrow> clone_tools flat)"
  by (cases b; simp add: clone_tools_def)

lemma clone_exact:
  assumes "distinct (tool_ids_of flat)"
  shows "clone_tools flat = map (\<lambda>t. (tc_id t, (t, []))) (tools flat)"
  using assms
proof (induction flat rule: rev_induct)
  case Nil
  then show ?case by (simp add: clone_tools_def)
next
  case (snoc b flat)
  have fresh: "AList.update k v m = m @ [(k, v)]" if "k \<notin> fst ` set m" for k v and m :: tool_map
    using that by (induction m) auto
  from snoc show ?case by (cases b) (auto simp: clone_snoc fresh image_iff)
qed

text \<open>After the blocks \<open>pre\<close> have been placed.\<close>

definition placed :: "StreamBlock list \<Rightarrow> StreamBlock list \<Rightarrow> tool_map \<times> top_item list" where
  "placed flat pre =
     (map (\<lambda>t. (tc_id t, (t, map tc_id (kids pre (tc_id t))))) (tools flat), map item_of (filter (top_level flat) pre))"

lemma mget_tools: "mget (map (\<lambda>t. (tc_id t, f t)) ts) i = map_option f (find (\<lambda>t. tc_id t = i) ts)"
  by (induction ts) auto

lemma update_tools:
  assumes "distinct (map tc_id ts)" and "u \<in> set ts"
  shows "AList.update (tc_id u) v (map (\<lambda>t. (tc_id t, f t)) ts) = map (\<lambda>t. (tc_id t, if tc_id t = tc_id u then v else f t)) ts"
  using assms
proof (induction ts)
  case (Cons t ts)
  have "map (\<lambda>t. (tc_id t, f t)) ts = map (\<lambda>t. (tc_id t, if tc_id t = tc_id t' then v else f t)) ts" if "tc_id t' \<notin> tc_id ` set ts" for t'
    using that by (intro map_cong refl) force
  with Cons show ?case by (cases "tc_id t = tc_id u") (auto simp: image_iff)
qed simp

lemma find_id: "distinct (map tc_id ts) \<Longrightarrow> t \<in> set ts \<Longrightarrow> find (\<lambda>u. tc_id u = tc_id t) ts = Some t"
  by (induction ts) auto

lemma find_id_None: "find (\<lambda>u. tc_id u = i) ts = None \<longleftrightarrow> i \<notin> tc_id ` set ts"
  by (auto simp: find_None_iff)

lemma place_step:
  assumes "distinct (tool_ids_of flat)"
  shows "place (placed flat pre) b = placed flat (pre @ [b])"
proof (cases b)
  case (ToolCall c)
  show ?thesis
  proof (cases "top_level flat b")
    case True
    then have "kids [b] (tc_id t) = []" if "t \<in> set (tools flat)" for t
      using that ToolCall by (auto simp: kids_def)
    then have "kids (pre @ [b]) (tc_id t) = kids pre (tc_id t)" if "t \<in> set (tools flat)" for t
      using that by (simp add: kids_append)
    moreover have "\<not> nested_under (fst (placed flat pre)) c"
      using True ToolCall by (auto simp: nested_under_def placed_def mget_tools find_id_None)
    ultimately show ?thesis using True ToolCall by (simp add: placed_def cong: map_cong)
  next
    case False
    then obtain u where u: "u \<in> set (tools flat)" "tc_parent c = Some (tc_id u)" "tc_id u \<noteq> []"
      using ToolCall by (cases "tc_parent c") auto
    have get: "mget (fst (placed flat pre)) (tc_id u) = Some (u, map tc_id (kids pre (tc_id u)))"
      by (simp add: placed_def mget_tools find_id [OF assms u(1)])
    then have "nested_under (fst (placed flat pre)) c" using u by (simp add: nested_under_def)
    then have "place (placed flat pre) b =
        (mput (tc_id u) (u, map tc_id (kids pre (tc_id u)) @ [tc_id c]) (fst (placed flat pre)), snd (placed flat pre))"
      using ToolCall u get by (cases "placed flat pre") (simp add: push_child_def)
    also have "\<dots> = placed flat (pre @ [b])"
    proof -
      have "(if tc_id t = tc_id u then (u, map tc_id (kids pre (tc_id u)) @ [tc_id c]) else (t, map tc_id (kids pre (tc_id t))))
          = (t, map tc_id (kids (pre @ [b]) (tc_id t)))" if "t \<in> set (tools flat)" for t
      proof (cases "tc_id t = tc_id u")
        case True
        then have "t = u" using find_id [OF assms that] find_id [OF assms u(1)] by (metis option.sel)
        with u ToolCall show ?thesis by (simp add: kids_def)
      qed (use u ToolCall in \<open>simp add: kids_def\<close>)
      with False show ?thesis
        by (simp add: placed_def update_tools [OF assms u(1)] cong: map_cong)
    qed
    finally show ?thesis .
  qed
qed (simp_all add: placed_def kids_def)

lemma place_all: "distinct (tool_ids_of flat) \<Longrightarrow> foldl place (placed flat pre) bs = placed flat (pre @ bs)"
  by (induction bs arbitrary: pre) (simp_all add: place_step)

text \<open>The tree of a tool call and the forest of a list, without the map.\<close>

fun tree :: "nat \<Rightarrow> StreamBlock list \<Rightarrow> ToolCallBlock \<Rightarrow> BlockTree option" where
  "tree 0 flat t = None"
| "tree (Suc f) flat t = map_option (Node t) (those (map (tree f flat) (kids flat (tc_id t))))"

fun item_tree :: "nat \<Rightarrow> StreamBlock list \<Rightarrow> StreamBlock \<Rightarrow> BlockTree option" where
  "item_tree f flat (ToolCall t) = tree f flat t"
| "item_tree f flat b = Some (Leaf b)"

lemma read_node_tree:
  assumes "distinct (tool_ids_of flat)" and "t \<in> set (tools flat)"
  shows "read_node f (fst (placed flat flat)) (tc_id t) = tree f flat t"
  using assms(2)
proof (induction f arbitrary: t)
  case (Suc f)
  have "mget (fst (placed flat flat)) (tc_id t) = Some (t, map tc_id (kids flat (tc_id t)))"
    by (simp add: placed_def mget_tools find_id [OF assms(1) Suc.prems])
  moreover have "map (read_node f (fst (placed flat flat))) (map tc_id (kids flat (tc_id t))) = map (tree f flat) (kids flat (tc_id t))"
    using Suc.IH by (simp add: kids_def)
  ultimately show ?case by (simp only: read_node.simps tree.simps option.case prod.case)
qed simp

lemma build_forest:
  assumes "distinct (tool_ids_of flat)"
  shows "buildBlockTree flat = those (map (item_tree (length (tools flat)) flat) (filter (top_level flat) flat))"
proof -
  have "placed flat [] = (clone_tools flat, [])" by (simp add: placed_def clone_exact [OF assms] kids_def)
  with place_all [OF assms, of "[]" flat] have fold: "foldl place (clone_tools flat, []) flat = placed flat flat" by simp
  have item: "read_item n (fst (placed flat flat)) (item_of b) = item_tree n flat b" if "b \<in> set flat" for n b
    by (cases b) (use that in \<open>simp_all add: read_node_tree [OF assms] set_tools\<close>)
  have "length (fst (placed flat flat)) = length (tools flat)" by (simp add: placed_def)
  moreover have "map (read_item n (fst (placed flat flat))) (snd (placed flat flat)) =
      map (item_tree n flat) (filter (top_level flat) flat)" for n
    using item by (simp add: placed_def [of flat flat])
  ultimately show ?thesis by (simp add: buildBlockTree_def case_prod_unfold Let_def fold)
qed

section \<open>Nothing is lost\<close>

fun flat_tree :: "BlockTree \<Rightarrow> StreamBlock list" where
  "flat_tree (Leaf b) = [b]"
| "flat_tree (Node t cs) = ToolCall t # concat (map flat_tree cs)"

fun root :: "BlockTree \<Rightarrow> StreamBlock" where
  "root (Leaf b) = b"
| "root (Node t cs) = ToolCall t"

text \<open>Every child of a node is a tool call that names it as its parent.\<close>

fun nested_ok :: "BlockTree \<Rightarrow> bool" where
  "nested_ok (Leaf b) = True"
| "nested_ok (Node t cs) = (list_all (\<lambda>c. is_tool c \<and> (case root c of ToolCall u \<Rightarrow> tc_parent u = Some (tc_id t) | _ \<Rightarrow> False)) cs
     \<and> list_all nested_ok cs)"

text \<open>
  The order of a stream: every id is new, and a parent is not named before it arrives.
\<close>

fun arrives :: "StreamBlock list \<Rightarrow> bool" where
  "arrives [] = True"
| "arrives (ToolCall t # bs) = (tc_id t \<notin> set (tool_ids_of bs) \<and>
     (truthy (tc_parent t) \<longrightarrow> the (tc_parent t) \<notin> insert (tc_id t) (set (tool_ids_of bs))) \<and> arrives bs)"
| "arrives (b # bs) = arrives bs"

lemma arrives_distinct: "arrives flat \<Longrightarrow> distinct (tool_ids_of flat)"
  by (induction flat rule: arrives.induct) auto

lemma arrives_snoc:
  "arrives (flat @ [ToolCall b]) \<longleftrightarrow> arrives flat \<and> tc_id b \<notin> set (tool_ids_of flat) \<and>
     kids (flat @ [ToolCall b]) (tc_id b) = []"
proof (induction flat rule: arrives.induct)
  case 1
  show ?case by (cases "tc_parent b") (auto simp: kids_def)
next
  case (2 t bs)
  then show ?case by (cases "tc_parent t") (auto simp: kids_def)
qed (simp_all add: kids_def)

lemma arrives_snoc_other:
  assumes "tools [b] = []"
  shows "arrives (flat @ [b]) = arrives flat"
proof (induction flat rule: arrives.induct)
  case 1
  show ?case using assms by (cases b) simp_all
qed (use assms in simp_all)

lemma list_all2_set2: "list_all2 P xs ys \<Longrightarrow> y \<in> set ys \<Longrightarrow> \<exists>x \<in> set xs. P x y"
  by (induction rule: list_all2_induct) auto

lemma tree_shape:
  "tree f flat t = Some tr \<Longrightarrow> nested_ok tr \<and> root tr = ToolCall t \<and> is_tool tr"
proof (induction f arbitrary: t tr)
  case (Suc f)
  then obtain cs where cs: "list_all2 (\<lambda>x y. tree f flat x = Some y) (kids flat (tc_id t)) cs" "tr = Node t cs"
    by (auto simp: those_iff)
  have "nested_ok c \<and> is_tool c \<and> (\<exists>u. root c = ToolCall u \<and> tc_parent u = Some (tc_id t))" if c: "c \<in> set cs" for c
  proof -
    obtain x where "x \<in> set (kids flat (tc_id t))" "tree f flat x = Some c"
      using list_all2_set2 [OF cs(1) c] by blast
    with Suc.IH show ?thesis by (auto simp: kids_def)
  qed
  with cs(2) show ?case by (fastforce simp: list_all_iff)
qed simp

lemma replicate_plus: "replicate_mset (m + n) x = replicate_mset m x + replicate_mset n x"
  by (induction m) auto

text \<open>A block that arrives joins each tree once for every node that is its parent.\<close>

definition hits :: "ToolCallBlock \<Rightarrow> StreamBlock list \<Rightarrow> nat" where
  "hits b bs = length (filter (\<lambda>u. tc_parent b = Some (tc_id u) \<and> tc_id u \<noteq> []) (tools bs))"

lemma hits_simps [simp]:
  "hits b [] = 0" "hits b (xs @ ys) = hits b xs + hits b ys"
  "hits b (ToolCall u # xs) = (if tc_parent b = Some (tc_id u) \<and> tc_id u \<noteq> [] then 1 else 0) + hits b xs"
  by (simp_all add: hits_def)

lemma tree_grows:
  assumes "kids (flat @ [ToolCall b]) (tc_id b) = []" and "tree f flat t = Some tr" and "tc_id t \<noteq> tc_id b"
    and "tc_id b \<notin> set (tool_ids_of flat)"
  shows "\<exists>tr'. tree (Suc f) (flat @ [ToolCall b]) t = Some tr' \<and>
    mset (flat_tree tr') = mset (flat_tree tr) + replicate_mset (hits b (flat_tree tr)) (ToolCall b)"
  using assms(2,3)
proof (induction f arbitrary: t tr)
  case (Suc f)
  let ?flat = "flat @ [ToolCall b]"
  obtain cs where cs: "list_all2 (\<lambda>x y. tree f flat x = Some y) (kids flat (tc_id t)) cs" and tr: "tr = Node t cs"
    using Suc.prems(1) by (auto simp: those_iff)
  have "\<exists>cs'. list_all2 (\<lambda>x y. tree (Suc f) ?flat x = Some y) ks cs' \<and>
      mset (concat (map flat_tree cs')) = mset (concat (map flat_tree ds)) +
        replicate_mset (hits b (concat (map flat_tree ds))) (ToolCall b)"
    if "list_all2 (\<lambda>x y. tree f flat x = Some y) ks ds" "set ks \<subseteq> set (tools flat)" for ks ds
    using that
  proof (induction ks ds rule: list_all2_induct)
    case (Cons k ks d ds)
    have "k \<in> set (tools flat)" using Cons.prems by simp
    then have "tc_id k \<noteq> tc_id b" using assms(4) by (metis image_eqI set_map)
    from Suc.IH [OF Cons.hyps(1) this] obtain d' where d': "tree (Suc f) ?flat k = Some d'"
      "mset (flat_tree d') = mset (flat_tree d) + replicate_mset (hits b (flat_tree d)) (ToolCall b)" by blast
    from Cons.IH Cons.prems obtain cs' where "list_all2 (\<lambda>x y. tree (Suc f) ?flat x = Some y) ks cs'"
      "mset (concat (map flat_tree cs')) = mset (concat (map flat_tree ds)) +
        replicate_mset (hits b (concat (map flat_tree ds))) (ToolCall b)" by auto
    with d' have "list_all2 (\<lambda>x y. tree (Suc f) ?flat x = Some y) (k # ks) (d' # cs') \<and>
      mset (concat (map flat_tree (d' # cs'))) = mset (concat (map flat_tree (d # ds))) +
        replicate_mset (hits b (concat (map flat_tree (d # ds)))) (ToolCall b)"
      by (simp add: replicate_plus del: tree.simps)
    then show ?case by blast
  qed simp
  note rest = this [OF cs]
  obtain cs' where cs': "list_all2 (\<lambda>x y. tree (Suc f) ?flat x = Some y) (kids flat (tc_id t)) cs'"
    "mset (concat (map flat_tree cs')) = mset (concat (map flat_tree cs)) +
        replicate_mset (hits b (concat (map flat_tree cs))) (ToolCall b)"
    using rest by (auto simp: kids_def)
  have own: "tree (Suc f) ?flat b = Some (Node b [])" by (simp add: assms(1))
  show ?case
  proof (cases "tc_parent b = Some (tc_id t) \<and> tc_id t \<noteq> []")
    case True
    then have "kids ?flat (tc_id t) = kids flat (tc_id t) @ [b]" by (simp add: kids_def)
    moreover have "list_all2 (\<lambda>x y. tree (Suc f) ?flat x = Some y) (kids flat (tc_id t) @ [b]) (cs' @ [Node b []])"
      using cs'(1) own by (simp add: list_all2_appendI)
    ultimately have "tree (Suc (Suc f)) ?flat t = Some (Node t (cs' @ [Node b []]))"
      by (simp only: tree.simps(2) [of "Suc f"] those_iff [THEN iffD2] option.map)
    with True cs'(2) tr show ?thesis by simp
  next
    case False
    then have "kids ?flat (tc_id t) = kids flat (tc_id t)" by (auto simp: kids_def)
    with cs'(1) have "tree (Suc (Suc f)) ?flat t = Some (Node t cs')"
      by (simp only: tree.simps(2) [of "Suc f"] those_iff [THEN iffD2] option.map)
    with False cs'(2) tr show ?thesis by auto
  qed
qed simp

text \<open>The forest of a list of blocks, and what one more block does to it.\<close>

definition forest :: "nat \<Rightarrow> StreamBlock list \<Rightarrow> BlockTree list option" where
  "forest f flat = those (map (item_tree f flat) (filter (top_level flat) flat))"

lemma forest_iff:
  "forest f flat = Some ts \<longleftrightarrow> list_all2 (\<lambda>x y. item_tree f flat x = Some y) (filter (top_level flat) flat) ts"
  by (simp add: forest_def those_iff)

lemma kids_other: "tools [b] = [] \<Longrightarrow> kids (flat @ [b]) = kids flat"
  by (rule ext) (simp add: kids_def)

lemma tree_other: "tools [b] = [] \<Longrightarrow> tree f (flat @ [b]) t = tree f flat t"
proof (induction f arbitrary: t)
  case (Suc f)
  then have "tree f (flat @ [b]) = tree f flat" by (intro ext)
  with Suc.prems show ?case by (simp add: kids_other)
qed simp

lemma top_level_snoc:
  "x \<in> set flat \<Longrightarrow> kids (flat @ [ToolCall b]) (tc_id b) = [] \<Longrightarrow>
     top_level (flat @ [ToolCall b]) x = top_level flat x"
proof (cases x)
  case (ToolCall t)
  assume "x \<in> set flat" "kids (flat @ [ToolCall b]) (tc_id b) = []"
  with ToolCall have "t \<in> set (tools flat)" "\<not> (tc_parent t = Some (tc_id b) \<and> tc_id b \<noteq> [])"
    by (auto simp: set_tools kids_def filter_empty_conv)
  with ToolCall show ?thesis by (cases "tc_parent t") auto
qed auto

lemma forest_grows:
  assumes "kids (flat @ [ToolCall b]) (tc_id b) = []" and "tc_id b \<notin> set (tool_ids_of flat)"
    and "list_all2 (\<lambda>x y. item_tree f flat x = Some y) bs ts" and "set bs \<subseteq> set flat"
  shows "\<exists>ts'. list_all2 (\<lambda>x y. item_tree (Suc f) (flat @ [ToolCall b]) x = Some y) bs ts' \<and>
    mset (concat (map flat_tree ts')) = mset (concat (map flat_tree ts)) +
      replicate_mset (hits b (concat (map flat_tree ts))) (ToolCall b)"
  using assms(3,4)
proof (induction bs ts rule: list_all2_induct)
  case (Cons x bs t ts)
  have "\<exists>t'. item_tree (Suc f) (flat @ [ToolCall b]) x = Some t' \<and>
      mset (flat_tree t') = mset (flat_tree t) + replicate_mset (hits b (flat_tree t)) (ToolCall b)"
  proof (cases x)
    case (ToolCall u)
    have "u \<in> set (tools flat)" using Cons.prems ToolCall by (simp add: set_tools)
    then have "tc_id u \<noteq> tc_id b" using assms(2) by (metis image_eqI set_map)
    moreover have "tree f flat u = Some t" using Cons.hyps(1) ToolCall by simp
    ultimately show ?thesis using tree_grows [OF assms(1) _ _ assms(2)] ToolCall by (simp del: tree.simps)
  qed (use Cons.hyps(1) in \<open>auto simp: hits_def\<close>)
  then obtain t' where t': "item_tree (Suc f) (flat @ [ToolCall b]) x = Some t'"
    "mset (flat_tree t') = mset (flat_tree t) + replicate_mset (hits b (flat_tree t)) (ToolCall b)" by blast
  from Cons.IH Cons.prems obtain ts' where "list_all2 (\<lambda>x y. item_tree (Suc f) (flat @ [ToolCall b]) x = Some y) bs ts'"
    "mset (concat (map flat_tree ts')) = mset (concat (map flat_tree ts)) +
      replicate_mset (hits b (concat (map flat_tree ts))) (ToolCall b)" by auto
  with t' have "list_all2 (\<lambda>x y. item_tree (Suc f) (flat @ [ToolCall b]) x = Some y) (x # bs) (t' # ts') \<and>
    mset (concat (map flat_tree (t' # ts'))) = mset (concat (map flat_tree (t # ts))) +
      replicate_mset (hits b (concat (map flat_tree (t # ts)))) (ToolCall b)"
    by (simp add: replicate_plus)
  then show ?case by blast
qed simp

lemma hits_mset: "mset xs = mset ys \<Longrightarrow> hits b xs = hits b ys"
proof -
  have "hits b xs = size (filter_mset (\<lambda>x. \<exists>u. x = ToolCall u \<and> tc_parent b = Some (tc_id u) \<and> tc_id u \<noteq> []) (mset xs))" for xs
    by (induction xs rule: tools.induct) (auto simp: hits_def)
  then show "mset xs = mset ys \<Longrightarrow> hits b xs = hits b ys" by simp
qed

lemma hits_flat:
  assumes "distinct (tool_ids_of flat)"
  shows "hits b flat = (if top_level flat (ToolCall b) then 0 else 1)"
proof (cases "truthy (tc_parent b)")
  case True
  then obtain p where p: "tc_parent b = Some p" "p \<noteq> []" by (cases "tc_parent b") auto
  from assms have "hits b flat = (if p \<in> set (tool_ids_of flat) then 1 else 0)"
    by (induction flat rule: tools.induct) (use p in \<open>auto simp: hits_def\<close>)
  with p show ?thesis by simp
next
  case False
  then have "hits b flat = 0" by (cases "tc_parent b") (auto simp: hits_def)
  with False show ?thesis by simp
qed

lemma forest_complete:
  "arrives flat \<Longrightarrow> \<exists>ts. forest (length (tools flat)) flat = Some ts \<and> mset (concat (map flat_tree ts)) = mset flat"
proof (induction flat rule: rev_induct)
  case Nil
  then show ?case by (simp add: forest_def)
next
  case (snoc b flat)
  let ?f = "length (tools flat)"
  show ?case
  proof (cases "\<exists>t. b = ToolCall t")
    case False
    then have nt: "tools [b] = []" by (cases b) auto
    with snoc.prems have "arrives flat" by (simp only: arrives_snoc_other)
    with snoc.IH obtain ts where ts: "forest ?f flat = Some ts" "mset (concat (map flat_tree ts)) = mset flat" by blast
    have "item_tree ?f (flat @ [b]) = item_tree ?f flat"
    proof
      show "item_tree ?f (flat @ [b]) x = item_tree ?f flat x" for x
        by (cases x) (simp_all add: tree_other [OF nt])
    qed
    moreover have "top_level (flat @ [b]) = top_level flat"
    proof
      show "top_level (flat @ [b]) x = top_level flat x" for x using nt by (cases x) auto
    qed
    moreover have "top_level flat b" "item_tree ?f flat b = Some (Leaf b)" using False by (cases b; simp)+
    ultimately have "forest ?f (flat @ [b]) = Some (ts @ [Leaf b])"
      using ts(1) by (simp add: forest_iff list_all2_appendI)
    with ts(2) nt show ?thesis by simp
  next
    case True
    then obtain t where b: "b = ToolCall t" by blast
    let ?flat = "flat @ [ToolCall t]"
    have "arrives ?flat" using snoc.prems b by simp
    then have ar: "arrives flat" "tc_id t \<notin> set (tool_ids_of flat)" "kids ?flat (tc_id t) = []"
      unfolding arrives_snoc by blast+
    from snoc.IH [OF ar(1)] obtain ts where ts: "forest ?f flat = Some ts" "mset (concat (map flat_tree ts)) = mset flat" by blast
    have "set (filter (top_level flat) flat) \<subseteq> set flat" by auto
    with forest_grows [OF ar(3,2) ts(1) [unfolded forest_iff]]
    obtain ts' where ts': "list_all2 (\<lambda>x y. item_tree (Suc ?f) ?flat x = Some y) (filter (top_level flat) flat) ts'"
      "mset (concat (map flat_tree ts')) = mset flat + replicate_mset (hits t flat) (ToolCall t)"
      using ts(2) hits_mset [OF ts(2), of t] by auto
    have top: "filter (top_level ?flat) flat = filter (top_level flat) flat"
      by (rule filter_cong [OF refl]) (simp add: top_level_snoc ar(3))
    have hits: "hits t flat = (if top_level flat (ToolCall t) then 0 else 1)"
      by (rule hits_flat [OF arrives_distinct [OF ar(1)]])
    have self: "top_level ?flat (ToolCall t) = top_level flat (ToolCall t)"
      using ar(3) by (cases "tc_parent t") (auto simp: kids_def)
    have own: "item_tree (Suc ?f) ?flat (ToolCall t) = Some (Node t [])" using ar(3) by simp
    show ?thesis
    proof (cases "top_level flat (ToolCall t)")
      case True
      then have "forest (Suc ?f) ?flat = Some (ts' @ [Node t []])"
        using top self own ts'(1) by (simp add: forest_iff list_all2_appendI del: tree.simps top_level.simps item_tree.simps)
      with True hits ts'(2) b show ?thesis by (simp del: top_level.simps)
    next
      case False
      then have "forest (Suc ?f) ?flat = Some ts'"
        using top self ts'(1) by (simp add: forest_iff del: tree.simps top_level.simps item_tree.simps)
      with False hits ts'(2) b show ?thesis by (simp del: top_level.simps)
    qed
  qed
qed

lemma forest_shape:
  assumes "forest f flat = Some ts"
  shows "map root ts = filter (top_level flat) flat \<and> list_all nested_ok ts"
proof -
  have "list_all2 (\<lambda>x y. root y = x \<and> nested_ok y) (filter (top_level flat) flat) ts"
    using assms unfolding forest_iff
  proof (rule list_all2_mono)
    show "root y = x \<and> nested_ok y" if "item_tree f flat x = Some y" for x y
      using that tree_shape by (cases x) auto
  qed
  then show ?thesis by (induction rule: list_all2_induct) auto
qed

text \<open>
  C19. The tree of a stream loses nothing: when every call arrives under a new id and after its
  parent, the tree is built (there is no cycle), it holds each block exactly once, the blocks
  without a known parent are its top level in their order, and every child is a tool call that
  names the node above it as its parent.
\<close>

theorem block_tree_complete:
  assumes "arrives flat"
  shows "\<exists>ts. buildBlockTree flat = Some ts \<and> mset (concat (map flat_tree ts)) = mset flat \<and>
    map root ts = filter (top_level flat) flat \<and> list_all nested_ok ts"
  using forest_complete [OF assms] forest_shape [of "length (tools flat)" flat]
    build_forest [OF arrives_distinct [OF assms]]
  by (auto simp: forest_def)

lemma restored_tree:
  assumes "arrives flat"
  shows "\<exists>ts. buildBlockTree flat = Some ts \<and> mset (concat (map flat_tree ts)) = mset flat \<and> list_all nested_ok ts"
  using forest_complete [OF assms] forest_shape [of "length (tools flat)" flat] build_forest [OF arrives_distinct [OF assms]]
  by (auto simp: forest_def)

lemma block_tree_exists: "arrives flat \<Longrightarrow> \<exists>ts. buildBlockTree flat = Some ts"
  using forest_complete build_forest [OF arrives_distinct] by (auto simp: forest_def)

definition demo_tool :: "string \<Rightarrow> string option \<Rightarrow> StreamBlock" where
  "demo_tool i p = ToolCall \<lparr>tc_id = i, tc_name = ''Agent'', tc_input = JObj [], tc_status = Running, tc_result = None,
     tc_is_error = None, tc_elapsed = None, tc_parent = p\<rparr>"

definition demo_stream :: "StreamBlock list" where
  "demo_stream = [TextBlock ''t0'' ''hi'', demo_tool ''a'' None, demo_tool ''b'' (Some ''a''), ThinkingBlock ''h'' ''hm'',
     demo_tool ''c'' (Some ''b''), demo_tool ''d'' (Some ''gone'')]"

lemma demo_arrives: "arrives demo_stream" "arrives (TextBlock ''x'' '' '' # demo_stream)"
  by (code_simp, code_simp)

theorem block_tree_complete_witness:
  "(\<exists>ts. buildBlockTree demo_stream = Some ts \<and> mset (concat (map flat_tree ts)) = mset demo_stream) \<and>
   filter (top_level demo_stream) demo_stream = [TextBlock ''t0'' ''hi'', demo_tool ''a'' None, ThinkingBlock ''h'' ''hm'',
     demo_tool ''d'' (Some ''gone'')]"
proof
  show "\<exists>ts. buildBlockTree demo_stream = Some ts \<and> mset (concat (map flat_tree ts)) = mset demo_stream"
    using block_tree_complete [OF demo_arrives(1)] by blast
qed code_simp

text \<open>Outside this order blocks can vanish: a call that is its own parent is in no tree.\<close>

lemma own_parent_lost: "buildBlockTree [demo_tool ''a'' (Some ''a''), TextBlock ''t'' ''x''] = Some [Leaf (TextBlock ''t'' ''x'')]"
  by code_simp

lemma repeated_id_cycle: "buildBlockTree [demo_tool ''a'' None, demo_tool ''a'' (Some ''a'')] = None"
  by code_simp

section \<open>The stream\<close>

fun chunk_of :: "WSMessage \<Rightarrow> string" where
  "chunk_of (WsChunk c) = c"
| "chunk_of _ = []"

fun thought_of :: "WSMessage \<Rightarrow> string" where
  "thought_of (WsThinking c) = c"
| "thought_of _ = []"

fun thinking_content :: "StreamBlock \<Rightarrow> string" where
  "thinking_content (ThinkingBlock i c) = c"
| "thinking_content _ = []"

text \<open>What happens to the hook: a message with the clock and a random suffix, or a frame.\<close>

datatype stream_event = Incoming string string WSMessage | Frame | ResetBlocks

fun stream_step :: "streaming \<Rightarrow> stream_event \<Rightarrow> streaming" where
  "stream_step s (Incoming clock rand m) = snd (handleMessage clock rand m s)"
| "stream_step s Frame = render_frame s"
| "stream_step s ResetBlocks = reset_blocks s"

fun event_chunk :: "stream_event \<Rightarrow> string" where
  "event_chunk (Incoming clock rand m) = chunk_of m"
| "event_chunk _ = []"

fun event_thought :: "stream_event \<Rightarrow> string" where
  "event_thought (Incoming clock rand m) = thought_of m"
| "event_thought _ = []"

lemma complete_contents [simp]:
  "text_content (complete_tool b) = text_content b" "thinking_content (complete_tool b) = thinking_content b"
  by (cases b; simp)+

lemma set_contents [simp]:
  "text_content (set_result i c e b) = text_content b" "thinking_content (set_result i c e b) = thinking_content b"
  "text_content (set_elapsed i n b) = text_content b" "thinking_content (set_elapsed i n b) = thinking_content b"
  by (cases b; simp)+

lemma add_text_contents:
  "concat (map text_content (add_text clock rand c bs)) = concat (map text_content bs) @ c"
  "concat (map thinking_content (add_text clock rand c bs)) = concat (map thinking_content bs)"
proof -
  have "concat (map text_content (add_text clock rand c bs)) = concat (map text_content bs) @ c \<and>
    concat (map thinking_content (add_text clock rand c bs)) = concat (map thinking_content bs)"
  proof (cases bs rule: rev_cases)
    case (snoc ys y)
    show ?thesis
      by (cases y) (simp_all add: snoc add_text_def Let_def comp_def)
  qed (simp add: add_text_def)
  then show "concat (map text_content (add_text clock rand c bs)) = concat (map text_content bs) @ c"
    "concat (map thinking_content (add_text clock rand c bs)) = concat (map thinking_content bs)" by simp_all
qed

lemma add_thinking_contents:
  "concat (map thinking_content (add_thinking clock rand c bs)) = concat (map thinking_content bs) @ c"
  "concat (map text_content (add_thinking clock rand c bs)) = concat (map text_content bs)"
proof -
  have "concat (map thinking_content (add_thinking clock rand c bs)) = concat (map thinking_content bs) @ c \<and>
    concat (map text_content (add_thinking clock rand c bs)) = concat (map text_content bs)"
  proof (cases bs rule: rev_cases)
    case (snoc ys y)
    show ?thesis by (cases y) (simp_all add: snoc add_thinking_def)
  qed (simp add: add_thinking_def)
  then show "concat (map thinking_content (add_thinking clock rand c bs)) = concat (map thinking_content bs) @ c"
    "concat (map text_content (add_thinking clock rand c bs)) = concat (map text_content bs)" by simp_all
qed

lemma blocks_after:
  "sb_blocks (snd (handleMessage clock rand m s)) =
     (case m of WsThinking c \<Rightarrow> add_thinking clock rand c (sb_blocks s)
      | WsChunk c \<Rightarrow> add_text clock rand c (sb_blocks s)
      | WsToolUse n i t p \<Rightarrow> sb_blocks s @ [ToolCall (new_tool clock n i t p)]
      | WsToolResult i c e p \<Rightarrow> map (set_result i c e) (sb_blocks s)
      | WsToolProgress i n p x \<Rightarrow> map (set_elapsed i x) (sb_blocks s)
      | _ \<Rightarrow> sb_blocks s)"
  by (cases m) (simp_all add: updateBlocks_def scheduleRender_def Let_def split: option.split json.split)

lemma step_text:
  "e \<noteq> ResetBlocks \<Longrightarrow> flattenText (stream_step s e) = flattenText s @ event_chunk e"
proof (cases e)
  case (Incoming clock rand m)
  then show ?thesis
    by (cases m) (simp_all add: flattenText_def blocks_after add_text_contents add_thinking_contents comp_def
        del: handleMessage.simps)
qed (simp_all add: flattenText_def render_frame_def)

lemma step_thinking:
  "e \<noteq> ResetBlocks \<Longrightarrow> concat (map thinking_content (sb_blocks (stream_step s e))) =
     concat (map thinking_content (sb_blocks s)) @ event_thought e"
proof (cases e)
  case (Incoming clock rand m)
  then show ?thesis
    by (cases m) (simp_all add: blocks_after add_text_contents add_thinking_contents comp_def
        del: handleMessage.simps)
qed (simp_all add: render_frame_def)

lemma run_texts:
  "list_all (\<lambda>e. e \<noteq> ResetBlocks) es \<Longrightarrow>
     flattenText (foldl stream_step s es) = flattenText s @ concat (map event_chunk es) \<and>
     concat (map thinking_content (sb_blocks (foldl stream_step s es))) =
       concat (map thinking_content (sb_blocks s)) @ concat (map event_thought es)"
  by (induction es arbitrary: s) (simp_all add: step_text step_thinking)

text \<open>
  What is saved is what was streamed: after any messages and frames that follow a reset, the
  text of the blocks is the chunks joined in order, and the thinking is the thoughts joined in
  order, however they are interleaved with each other and with tool calls.
\<close>

theorem stream_text_kept:
  "flattenText (foldl stream_step (reset_blocks s) (filter (\<lambda>e. e \<noteq> ResetBlocks) es)) = concat (map event_chunk es) \<and>
   concat (map thinking_content (sb_blocks (foldl stream_step (reset_blocks s) (filter (\<lambda>e. e \<noteq> ResetBlocks) es)))) =
     concat (map event_thought es)"
proof -
  have drop: "concat (map f (filter (\<lambda>e. e \<noteq> ResetBlocks) es)) = concat (map f es)" if "f ResetBlocks = []" for f :: "stream_event \<Rightarrow> string"
    using that by (induction es) auto
  have "list_all (\<lambda>e. e \<noteq> ResetBlocks) (filter (\<lambda>e. e \<noteq> ResetBlocks) es)" by (simp add: list_all_iff)
  from run_texts [OF this, of "reset_blocks s"] show ?thesis
    by (simp add: drop) (simp add: flattenText_def reset_blocks_def)
qed

definition display_in_step :: "streaming \<Rightarrow> bool" where
  "display_in_step s \<longleftrightarrow> sb_frame s \<or> sb_shown s = buildBlockTree (sb_blocks s)"

lemma build_empty: "buildBlockTree [] = Some []"
  by (simp add: buildBlockTree_def clone_tools_def)

interpretation display: machine stream_step display_in_step
proof
  show "display_in_step (stream_step s e)" if "display_in_step s" for s e
  proof (cases e)
    case (Incoming clock rand m)
    with that show ?thesis
      by (cases m) (simp_all add: display_in_step_def updateBlocks_def scheduleRender_def Let_def split: option.split json.split)
  next
    case Frame
    with that show ?thesis by (auto simp: display_in_step_def render_frame_def)
  next
    case ResetBlocks
    then show ?thesis by (simp add: display_in_step_def reset_blocks_def build_empty)
  qed
qed

text \<open>
  The screen never falls behind for good: at any time after any messages, resets and frames,
  either the tree on the screen is the tree of the blocks, or a frame that will draw it is
  requested.
\<close>

theorem display_follows:
  "display_in_step (foldl stream_step newStreaming es)"
  by (rule display.run_good) (simp add: display_in_step_def newStreaming_def build_empty)

section \<open>Restoring\<close>

definition norm_tool :: "ToolCallBlock \<Rightarrow> ToolCallBlock" where
  "norm_tool t = t\<lparr>tc_input := (if tc_input t = JNull then JObj [] else tc_input t), tc_status := Complete,
     tc_is_error := (if tc_is_error t = Some True then Some True else None), tc_elapsed := None,
     tc_parent := (if truthy (tc_parent t) then tc_parent t else None)\<rparr>"

lemma norm_tool_simps [simp]:
  "tc_id (norm_tool t) = tc_id t" "truthy (tc_parent (norm_tool t)) = truthy (tc_parent t)"
  "truthy (tc_parent t) \<Longrightarrow> tc_parent (norm_tool t) = tc_parent t"
  by (simp_all add: norm_tool_def)

text \<open>A block without its generated id and without what is shown only while it streams.\<close>

fun saved_view :: "StreamBlock \<Rightarrow> StreamBlock" where
  "saved_view (ToolCall t) = ToolCall (norm_tool t)"
| "saved_view (TextBlock i c) = TextBlock [] c"
| "saved_view (ThinkingBlock i c) = ThinkingBlock [] c"
| "saved_view (ErrorBlock i c) = ErrorBlock [] c"

fun saved_tree :: "BlockTree \<Rightarrow> BlockTree" where
  "saved_tree (Leaf b) = Leaf (saved_view b)"
| "saved_tree (Node t cs) = Node (norm_tool t) (map saved_tree cs)"

definition saved_map :: "tool_map \<Rightarrow> tool_map" where
  "saved_map m = map (\<lambda>(k, v). (k, (norm_tool (fst v), snd v))) m"

fun saved_item :: "top_item \<Rightarrow> top_item" where
  "saved_item (Plain b) = Plain (saved_view b)"
| "saved_item (Ref i) = Ref i"

lemma mget_saved: "mget (saved_map m) k = map_option (\<lambda>v. (norm_tool (fst v), snd v)) (mget m k)"
  unfolding saved_map_def by (simp add: map_of_map)

lemma mput_saved: "mput k (norm_tool t, cs) (saved_map m) = saved_map (mput k (t, cs) m)"
  unfolding saved_map_def by (induction m) auto

lemma clone_saved: "clone_tools (map saved_view flat) = saved_map (clone_tools flat)"
proof (induction flat rule: rev_induct)
  case (snoc b flat)
  then show ?case by (cases b) (simp_all add: clone_snoc mput_saved)
qed (simp add: clone_tools_def saved_map_def)

lemma place_saved:
  "place (saved_map m, map saved_item ts) (saved_view b) = (saved_map m', map saved_item ts')" if "place (m, ts) b = (m', ts')"
proof (cases b)
  case (ToolCall t)
  have "nested_under (saved_map m) (norm_tool t) = nested_under m t"
    by (auto simp: nested_under_def mget_saved)
  moreover have "push_child p c (saved_map m) = saved_map (push_child p c m)" for p c
    by (auto simp: push_child_def mget_saved mput_saved split: option.split)
  ultimately show ?thesis using that ToolCall by (auto simp: nested_under_def split: if_splits)
qed (use that in auto)

lemma places_saved:
  "foldl place (m, ts) bs = (m', ts') \<Longrightarrow>
     foldl place (saved_map m, map saved_item ts) (map saved_view bs) = (saved_map m', map saved_item ts')"
proof (induction bs arbitrary: m ts)
  case (Cons b bs)
  then show ?case by (cases "place (m, ts) b") (auto simp: place_saved)
qed simp

lemma read_saved: "read_node f (saved_map m) i = map_option saved_tree (read_node f m i)"
proof (induction f arbitrary: i)
  case (Suc f)
  have "those (map (read_node f (saved_map m)) is) = map_option (map saved_tree) (those (map (read_node f m) is))" for "is"
    by (induction "is") (auto simp: Suc.IH option.map_comp comp_def split: option.splits)
  then show ?case by (auto simp: mget_saved option.map_comp comp_def split: option.split)
qed simp

lemma build_saved: "buildBlockTree (map saved_view flat) = map_option (map saved_tree) (buildBlockTree flat)"
proof -
  obtain m ts where mt: "foldl place (clone_tools flat, []) flat = (m, ts)" by fastforce
  have item: "read_item n (saved_map m) (saved_item x) = map_option saved_tree (read_item n m x)" for n x
    by (cases x) (simp_all add: read_saved)
  have "those (map (read_item n (saved_map m)) (map saved_item xs)) = map_option (map saved_tree) (those (map (read_item n m) xs))" for n xs
    by (induction xs) (auto simp: item option.map_comp comp_def split: option.splits)
  with mt places_saved [OF mt] show ?thesis
    by (simp add: buildBlockTree_def clone_saved) (simp add: saved_map_def)
qed

text \<open>Blocks that are not worth saving are leaves of the top level.\<close>

fun kept_tree :: "BlockTree \<Rightarrow> bool" where
  "kept_tree (Leaf b) = worth_saving b"
| "kept_tree (Node t cs) = True"

fun kept_item :: "top_item \<Rightarrow> bool" where
  "kept_item (Plain b) = worth_saving b"
| "kept_item (Ref i) = True"

lemma clone_kept: "clone_tools (filter worth_saving flat) = clone_tools flat"
proof (induction flat rule: rev_induct)
  case (snoc b flat)
  then show ?case by (cases b) (simp_all add: clone_snoc)
qed simp

lemma places_kept:
  "foldl place (m, ts) bs = (m', ts') \<Longrightarrow>
     foldl place (m, filter kept_item ts) (filter worth_saving bs) = (m', filter kept_item ts')"
proof (induction bs arbitrary: m ts)
  case (Cons b bs)
  then show ?case
    by (cases b) (force simp: Cons.IH [symmetric] dest: Cons.IH)+
qed simp

lemma read_item_kept: "read_item n m x = Some t \<Longrightarrow> kept_tree t = kept_item x"
  by (cases x; cases n) (auto split: option.splits)

lemma build_kept: "buildBlockTree (filter worth_saving flat) = map_option (filter kept_tree) (buildBlockTree flat)" if "buildBlockTree flat \<noteq> None"
proof -
  obtain m ts where mt: "foldl place (clone_tools flat, []) flat = (m, ts)" by fastforce
  have kept: "those (map (read_item n m) (filter kept_item xs)) = Some (filter kept_tree ys)"
    if "list_all2 (\<lambda>x y. read_item n m x = Some y) xs ys" for n xs ys
    using that by (induction rule: list_all2_induct) (auto simp: read_item_kept)
  from that mt obtain ys where "those (map (read_item (length m) m) ts) = Some ys"
    by (auto simp: buildBlockTree_def)
  then have "list_all2 (\<lambda>x y. read_item (length m) m x = Some y) ts ys" by (simp only: those_iff)
  from kept [OF this] \<open>those _ = Some ys\<close> mt places_kept [OF mt] show ?thesis
    by (simp add: buildBlockTree_def clone_kept)
qed

lemma restore_all_iff: "restore_all f xs = Inr ys \<longleftrightarrow> list_all2 (\<lambda>x y. f x = Inr y) xs ys"
proof (induction xs arbitrary: ys)
  case (Cons x xs)
  show ?case by (cases ys; cases "f x"; cases "restore_all f xs") (auto simp: Cons.IH [symmetric])
qed auto

lemma meta_fields:
  "jget (block_meta (ToolCall t)) ''type'' = Some (JStr ''tool_call'')"
  "jget (block_meta (ToolCall t)) ''tool_use_id'' = Some (JStr (tc_id t))"
  "jget (block_meta (ToolCall t)) ''name'' = Some (JStr (tc_name t))"
  "jget (block_meta (ToolCall t)) ''input'' = Some (tc_input t)"
  "jget (block_meta (ToolCall t)) ''result'' = map_option JStr (tc_result t)"
  "jget (block_meta (ToolCall t)) ''is_error'' = (if tc_is_error t = Some True then Some (JBool True) else None)"
  "jget (block_meta (ToolCall t)) ''parent_tool_use_id'' = (if truthy (tc_parent t) then Some (JStr (the (tc_parent t))) else None)"
  by (simp_all split: option.split)

lemma present_Some: "present (Some v) = (if v = JNull then None else Some v)"
  by (cases v) simp_all

lemma restored_tool:
  "restore_block to_str False pre (i, block_meta (ToolCall t)) = Inr (ToolCall (norm_tool t))"
  unfolding restore_block_def prod.case meta_fields
  by (cases "tc_result t"; cases "tc_parent t")
    (simp_all add: present_Some string_or_def js_string_def norm_tool_def)

lemma restore_meta:
  "\<exists>r. restore_block to_str False pre (i, block_meta b) = Inr r \<and> saved_view r = saved_view b"
proof (cases b)
  case (ToolCall t)
  have "norm_tool (norm_tool t) = norm_tool t" by (simp add: norm_tool_def)
  with ToolCall show ?thesis by (simp only: restored_tool) simp
qed (simp_all add: restore_block_def string_or_def js_string_def)

text \<open>Saved blocks that read like those on the screen are restored to what was shown.\<close>

lemma restored_fields: "jget b = jget b' \<Longrightarrow> restore_block to_str c pre (i, b) = restore_block to_str c pre (i, b')"
  by (simp only: restore_block_def prod.case)

lemma restored_list:
  assumes "list_all2 (\<lambda>b c. jget b = jget (block_meta c)) js cs" "length is = length js"
  shows "\<exists>rs. list_all2 (\<lambda>x y. restore_block to_str False pre x = Inr y) (zip is js) rs \<and>
    map saved_view rs = map saved_view cs"
  using assms
proof (induction js cs arbitrary: "is" rule: list_all2_induct)
  case (Cons j js c cs)
  then obtain i ks where iks: "is = i # ks" "length ks = length js" by (cases "is") auto
  with Cons.IH obtain rs where "list_all2 (\<lambda>x y. restore_block to_str False pre x = Inr y) (zip ks js) rs"
    "map saved_view rs = map saved_view cs" by blast
  moreover obtain r where "restore_block to_str False pre (i, j) = Inr r" "saved_view r = saved_view c"
    using restore_meta [of to_str pre i c] restored_fields [OF Cons.hyps(1), of to_str False pre i] by auto
  ultimately have "list_all2 (\<lambda>x y. restore_block to_str False pre x = Inr y) (zip is (j # js)) (r # rs) \<and>
    map saved_view (r # rs) = map saved_view (c # cs)" using iks by simp
  then show ?case by blast
qed simp

lemma saved_alike_restored:
  assumes "list_all2 (\<lambda>b c. jget b = jget (block_meta c)) js (filter worth_saving blocks)" "buildBlockTree blocks = Some shown"
  shows "\<exists>ts. restoreBlocks to_str js False messageId = Inr (Some ts) \<and>
    map saved_tree ts = map saved_tree (filter kept_tree shown)"
proof -
  let ?kept = "filter worth_saving blocks" and ?pre = "if truthy messageId then the messageId @ ''-'' else []"
  from restored_list [OF assms(1), of "[0..<length js]" to_str ?pre] obtain rs where
    rs: "restore_all (restore_block to_str False ?pre) (zip [0..<length js] js) = Inr rs"
    "map saved_view rs = map saved_view ?kept"
    unfolding restore_all_iff by auto
  from build_kept assms(2) have "buildBlockTree ?kept = Some (filter kept_tree shown)" by simp
  then have "map_option (map saved_tree) (buildBlockTree rs) = Some (map saved_tree (filter kept_tree shown))"
    using build_saved [of rs] build_saved [of ?kept] rs(2) by simp
  with rs(1) show ?thesis by (auto simp: restoreBlocks_def Let_def)
qed



section \<open>Grouping\<close>

text \<open>Grouping by runs: each longest run of tool calls is one group, or stays apart when it is short.\<close>

function grouped :: "nat \<Rightarrow> BlockTree list \<Rightarrow> RenderItem list" where
  "grouped n [] = []"
| "grouped n (b # bs) =
     (if is_tool b
      then (let run = b # takeWhile is_tool bs
            in (if n \<le> length run then [ToolGroup run] else map BlockItem run) @ grouped n (dropWhile is_tool bs))
      else BlockItem b # grouped n bs)"
  by pat_completeness auto
termination by (relation "measure (\<lambda>(n, bs). length bs)") (auto simp: le_imp_less_Suc length_dropWhile_le)

fun members :: "RenderItem \<Rightarrow> BlockTree list" where
  "members (BlockItem b) = [b]"
| "members (ToolGroup bs) = bs"

definition pending_items :: "nat \<Rightarrow> BlockTree list \<Rightarrow> RenderItem list" where
  "pending_items n run = (if run = [] then [] else if n \<le> length run then [ToolGroup run] else map BlockItem run)"

lemma flush_pending: "flush_group n (rs, ps) = (rs @ pending_items n ps, [])"
  by (simp add: flush_group_def pending_items_def)

lemma group_fold:
  "fst (flush_group n (foldl (group_step n) (rs, ps) bs)) =
     rs @ pending_items n (ps @ takeWhile is_tool bs) @ grouped n (dropWhile is_tool bs)"
proof (induction bs arbitrary: rs ps)
  case (Cons b bs)
  show ?case
  proof (cases "is_tool b")
    case False
    have "pending_items n (takeWhile is_tool bs) @ grouped n (dropWhile is_tool bs) = grouped n bs"
      by (cases bs) (simp_all add: pending_items_def Let_def)
    moreover have "group_step n (rs, ps) b = (rs @ pending_items n ps @ [BlockItem b], [])"
      using False by (simp add: group_step_def flush_pending)
    ultimately show ?thesis using False by (simp add: Cons.IH)
  next
    case True
    then have "group_step n (rs, ps) b = (rs, ps @ [b])" by (simp add: group_step_def)
    with True show ?thesis by (simp add: Cons.IH)
  qed
qed (simp add: flush_pending)

lemma group_exact: "groupConsecutiveToolCalls n blocks = grouped n blocks"
proof -
  have "pending_items n (takeWhile is_tool blocks) @ grouped n (dropWhile is_tool blocks) = grouped n blocks"
    by (cases blocks) (simp_all add: pending_items_def Let_def)
  then show ?thesis by (simp add: groupConsecutiveToolCalls_def group_fold)
qed

lemma grouped_members: "concat (map members (grouped n bs)) = bs"
  by (induction n bs rule: grouped.induct) (auto simp: Let_def comp_def takeWhile_dropWhile_id)

lemma groups_of_tools: "ToolGroup run \<in> set (grouped n bs) \<Longrightarrow> list_all is_tool run"
proof (induction n bs rule: grouped.induct)
  case (2 n b bs)
  show ?case
  proof (cases "is_tool b")
    case True
    let ?run = "b # takeWhile is_tool bs"
    have "list_all is_tool ?run" using True by (auto simp: list_all_iff dest: set_takeWhileD)
    moreover from 2(3) True have "run = ?run \<or> ToolGroup run \<in> set (grouped n (dropWhile is_tool bs))"
      by (simp add: Let_def split: if_splits) auto
    ultimately show ?thesis using 2(1) [OF True refl] by blast
  next
    case False
    with 2(2) [OF False] 2(3) show ?thesis by simp
  qed
qed simp

text \<open>
  Grouping the blocks of an answer equals the grouping by runs: every longest run of
  consecutive tool calls becomes one group when it reaches the threshold and stays a row of single
  blocks otherwise, and every other block stays as it is; so the members of the items, in order,
  are the blocks.
\<close>

theorem grouping_by_runs:
  "groupConsecutiveToolCalls n blocks = grouped n blocks \<and>
   concat (map members (groupConsecutiveToolCalls n blocks)) = blocks"
  by (simp add: group_exact grouped_members)

section \<open>Search\<close>

text \<open>Every text of a tree that the search looks at.\<close>

fun block_texts :: "(json \<Rightarrow> string) \<Rightarrow> StreamBlock \<Rightarrow> string list" where
  "block_texts stringify (TextBlock i c) = [c]"
| "block_texts stringify (ThinkingBlock i c) = [c]"
| "block_texts stringify (ErrorBlock i c) = [c]"
| "block_texts stringify (ToolCall t) =
     [tc_name t, stringify (tc_input t)] @ (case tc_result t of Some r \<Rightarrow> [r] | None \<Rightarrow> [])"

definition found_in :: "(string \<Rightarrow> string) \<Rightarrow> (json \<Rightarrow> string) \<Rightarrow> string \<Rightarrow> StreamBlock list \<Rightarrow> bool" where
  "found_in lower stringify q bs \<longleftrightarrow> list_ex (\<lambda>b. list_ex (\<lambda>x. has_sub (lower x) q) (block_texts stringify b)) bs"

lemma search_exact:
  "q \<noteq> [] \<Longrightarrow> toolCallMatches lower stringify t cs q = found_in lower stringify q (flat_tree (Node t cs))"
  "q \<noteq> [] \<Longrightarrow> anyBlockMatches lower stringify bs q = found_in lower stringify q (concat (map flat_tree bs))"
  by (induction lower stringify t cs q and lower stringify bs q rule: toolCallMatches_anyBlockMatches.induct)
    (auto simp: found_in_def split: option.splits)

text \<open>
  The search in a tool call finds the query exactly when it occurs in a name, an input, a
  result or a text of the call or of any call and block below it, and never for the empty query.
\<close>

theorem search_finds_all:
  "toolCallMatches lower stringify t cs q =
     (q \<noteq> [] \<and> found_in lower stringify q (flat_tree (Node t cs)))"
proof (cases "q = []")
  case False
  with search_exact(1) [OF False] show ?thesis by blast
qed simp

end
