(* ===== verification/ChatSessionProps.thy ===== *)
theory ChatSessionProps
  imports ChatSession ChatBlocksProps
begin

text \<open>
  What holds of a chat session: an answer that ends is kept in one message whose text and blocks
  are those that were streamed, and is kept once; a rollback takes back the user's last message and
  nothing else; older pages never repeat or reorder what is shown.
\<close>

section \<open>An answer from start to end\<close>

text \<open>A message of the stream: what the session hands to the blocks.\<close>

fun streamed :: "WSMessage \<Rightarrow> bool" where
  "streamed (WsThinking c) = True"
| "streamed (WsChunk c) = True"
| "streamed (WsToolUse n i t p) = True"
| "streamed (WsToolResult i c e p) = True"
| "streamed (WsToolProgress i n p x) = True"
| "streamed _ = False"

definition chat_step :: "chat \<Rightarrow> moment \<times> WSMessage \<Rightarrow> chat" where
  "chat_step c mm = snd (handle_chat (fst mm) (snd mm) c)"

lemma forward_stream:
  "snd (forward_to_blocks clock rand m c) = c\<lparr>ct_stream := snd (handleMessage clock rand m (ct_stream c))\<rparr>"
  by (auto simp: forward_to_blocks_def split: prod.split handled.split)

lemma streamed_step:
  "streamed (snd mm) \<Longrightarrow> chat_step c mm =
     c\<lparr>ct_stream := stream_step (ct_stream c) (Incoming (mo_clock (fst mm)) (mo_rand (fst mm)) (snd mm))\<rparr>"
  by (cases "snd mm") (simp_all add: chat_step_def handle_chat_def forward_stream del: handleMessage.simps)

definition as_event :: "moment \<times> WSMessage \<Rightarrow> stream_event" where
  "as_event mm = Incoming (mo_clock (fst mm)) (mo_rand (fst mm)) (snd mm)"

lemma streamed_run:
  "list_all (streamed \<circ> snd) mms \<Longrightarrow>
     foldl chat_step c mms = c\<lparr>ct_stream := foldl stream_step (ct_stream c) (map as_event mms)\<rparr>"
proof (induction mms arbitrary: c)
  case (Cons mm mms)
  then show ?case by (simp add: streamed_step as_event_def)
qed simp

lemma finalize_text: "flattenText (finalize s) = flattenText s"
  by (simp add: flattenText_def finalize_def comp_def)

definition is_new :: "string \<Rightarrow> Message list \<Rightarrow> bool" where
  "is_new i ms \<longleftrightarrow> i \<notin> ms_id ` set ms"

lemma append_unique:
  "hs_messages (appendUniqueMessage m h) = (if is_new (ms_id m) (hs_messages h) then hs_messages h @ [m] else hs_messages h)"
proof -
  have "list_ex (\<lambda>x. ms_id x = ms_id m) (hs_messages h) \<longleftrightarrow> \<not> is_new (ms_id m) (hs_messages h)"
    unfolding is_new_def list_ex_iff image_iff by metis
  then show ?thesis by (simp add: appendUniqueMessage_def)
qed

text \<open>The blocks of the message that ends an answer.\<close>

definition saved_blocks :: "Message \<Rightarrow> json list" where
  "saved_blocks m = (case map_of (ms_metadata m) ''blocks'' of Some (JArr bs) \<Rightarrow> bs | _ \<Rightarrow> [])"


definition demo_moment :: moment where
  "demo_moment = \<lparr>mo_session = ''s'', mo_clock = ''7'', mo_now = ''now'', mo_rand = ''r'', mo_uuid = ''u''\<rparr>"

definition demo_answer :: "(moment \<times> WSMessage) list" where
  "demo_answer = map (Pair demo_moment) [WsThinking ''hm'', WsChunk ''Hel'', WsChunk ''lo'',
     WsToolUse ''Bash'' (JObj []) (Some ''t1'') None, WsChunk ''!'']"


section \<open>Rolling back\<close>

lemma find_index_append:
  "filter P a = [] \<Longrightarrow> P x \<Longrightarrow> find_index P (a @ x # b) = Some (length a)"
  by (induction a) (auto split: if_splits)

lemma rollback_messages:
  assumes "filter by_user b = []" and "by_user u" and "hs_messages h = a @ u # b"
  shows "hs_messages (rollbackLastUserMessage uuid date sessionId errorText h) = a @ b @ [error_bubble uuid date sessionId errorText]"
    and "map_option rd_content (hs_restoreDraft (rollbackLastUserMessage uuid date sessionId errorText h)) = Some (ms_content u)"
proof -
  have "find_index by_user (rev (hs_messages h)) = Some (length b)"
    using find_index_append [of by_user "rev b" u "rev a"] assms by (simp flip: rev_filter)
  then show "hs_messages (rollbackLastUserMessage uuid date sessionId errorText h) = a @ b @ [error_bubble uuid date sessionId errorText]"
    "map_option rd_content (hs_restoreDraft (rollbackLastUserMessage uuid date sessionId errorText h)) = Some (ms_content u)"
    by (simp_all add: rollbackLastUserMessage_def Let_def assms(3) nth_append)
qed

text \<open>
  A rollback takes back exactly the user's last message: when the message list is \<open>a\<close>, then a
  message of the user, then \<open>b\<close> without messages of users, the list afterwards is \<open>a\<close>, \<open>b\<close> and
  a transient bubble with the error, the text of the message is the draft, and the next message
  that is sent removes the bubble again, and with it every other transient message.
\<close>

theorem rollback_exact:
  assumes "hs_messages h = a @ u # b" and "by_user u" and "filter by_user b = []"
    and "h' = rollbackLastUserMessage uuid date sessionId errorText h"
  shows "hs_messages h' = a @ b @ [error_bubble uuid date sessionId errorText] \<and>
    map_option rd_content (hs_restoreDraft h') = Some (ms_content u) \<and>
    hs_messages (dropTransientMessages h') = filter (\<lambda>m. \<not> transient m) (a @ b)"
  using rollback_messages [OF assms(3,2,1), of uuid date sessionId errorText] unfolding assms(4)
  by (simp add: dropTransientMessages_def) (simp add: transient_def error_bubble_def)

definition demo_message :: "string \<Rightarrow> sender_type \<Rightarrow> Message" where
  "demo_message i s = \<lparr>ms_id = i, ms_session_id = ''s'', ms_sender_type = s, ms_sender_id = None, ms_content = ''text of '' @ i,
     ms_metadata = [], ms_created_at = ''now''\<rparr>"

theorem rollback_exact_witness:
  "map ms_id (hs_messages (rollbackLastUserMessage ''e'' ''now'' ''s'' ''failed''
     (newHistory\<lparr>hs_messages := [demo_message ''1'' SentByUser, demo_message ''2'' SentByUser, demo_message ''3'' SentByAgent]\<rparr>)))
   = [''1'', ''3'', ''e'']"
  using rollback_exact [of "newHistory\<lparr>hs_messages := [demo_message ''1'' SentByUser, demo_message ''2'' SentByUser, demo_message ''3'' SentByAgent]\<rparr>"
      "[demo_message ''1'' SentByUser]" "demo_message ''2'' SentByUser" "[demo_message ''3'' SentByAgent]" _ "''e''" "''now''" "''s''" "''failed''"]
  by (simp add: demo_message_def by_user_def error_bubble_def)

text \<open>A second rollback without a message sent in between takes the first one's error text as the draft.\<close>

lemma second_rollback_drafts_the_error:
  "filter by_user b = [] \<Longrightarrow> by_user u \<Longrightarrow> hs_messages h = a @ u # b \<Longrightarrow>
     map_option rd_content (hs_restoreDraft
       (rollbackLastUserMessage uuid2 date sessionId error2 (rollbackLastUserMessage uuid date sessionId error1 h))) = Some error1"
proof -
  assume h: "filter by_user b = []" "by_user u" "hs_messages h = a @ u # b"
  let ?h = "rollbackLastUserMessage uuid date sessionId error1 h"
  have "hs_messages ?h = (a @ b) @ error_bubble uuid date sessionId error1 # []"
    by (simp add: rollback_messages(1) [OF h])
  moreover have "by_user (error_bubble uuid date sessionId error1)" by (simp add: by_user_def error_bubble_def)
  ultimately have "map_option rd_content (hs_restoreDraft (rollbackLastUserMessage uuid2 date sessionId error2 ?h)) =
      Some (ms_content (error_bubble uuid date sessionId error1))"
    by (intro rollback_messages(2) [of "[]" _ _ "a @ b"]) simp_all
  then show ?thesis by (simp add: error_bubble_def)
qed

section \<open>Older pages\<close>

text \<open>
  A page of older messages goes in front of what is shown, which stays as it is, and when
  neither has an id twice, neither has the result: a message that is in both is shown once.
\<close>

theorem older_page_joins:
  assumes "distinct (map ms_id page)" and "distinct (map ms_id (hs_messages h))"
    and "h' = loadEarlier_done (Some (page, has_more)) h"
  shows "suffix (hs_messages h) (hs_messages h') \<and> distinct (map ms_id (hs_messages h')) \<and>
    ms_id ` set (hs_messages h') = ms_id ` set page \<union> ms_id ` set (hs_messages h)"
  using assms(1,2) unfolding assms(3) loadEarlier_done_def prepend_page_def
  by (auto simp: suffix_def distinct_map_filter)

theorem older_page_joins_witness:
  "map ms_id (hs_messages (loadEarlier_done (Some (map (\<lambda>i. demo_message i SentByUser) [''1'', ''2''], False))
     (newHistory\<lparr>hs_messages := [demo_message ''2'' SentByUser]\<rparr>))) = [''1'', ''2''] \<and>
   distinct (map ms_id (hs_messages (loadEarlier_done (Some (map (\<lambda>i. demo_message i SentByUser) [''1'', ''2''], False))
     (newHistory\<lparr>hs_messages := [demo_message ''2'' SentByUser]\<rparr>))))"
proof
  show "distinct (map ms_id (hs_messages (loadEarlier_done (Some (map (\<lambda>i. demo_message i SentByUser) [''1'', ''2''], False))
     (newHistory\<lparr>hs_messages := [demo_message ''2'' SentByUser]\<rparr>))))"
    by (rule older_page_joins [THEN conjunct2, THEN conjunct1, OF _ _ refl]) (simp_all add: demo_message_def)
qed code_simp

text \<open>
  A reload that answers while a page is under way moves the shown window forward; the page still
  goes in front of it, and the messages between the two are missing.
\<close>

lemma reload_leaves_gap:
  "\<exists>h page reload.
     let msgs = map (\<lambda>i. demo_message i SentByUser) [''1'', ''2'', ''3'', ''4'', ''5'', ''6''] in
     hs_messages h = take 2 (drop 2 msgs) \<and> fst (loadEarlier_call h) = Some ''now'' \<and>
     map ms_id (hs_messages (loadEarlier_done (Some (take 2 msgs, False)) (reload_done (Some reload) (snd (loadEarlier_call h)))))
       = [''1'', ''2'', ''5'', ''6''] \<and>
     sd_messages reload = drop 4 msgs \<and> page = take 2 msgs"
  by (rule exI [of _ "newHistory\<lparr>hs_messages := map (\<lambda>i. demo_message i SentByUser) [''3'', ''4''], hs_hasMore := True\<rparr>"],
      rule exI [of _ "map (\<lambda>i. demo_message i SentByUser) [''1'', ''2'']"],
      rule exI [of _ "\<lparr>sd_session = [], sd_messages = map (\<lambda>i. demo_message i SentByUser) [''5'', ''6''], sd_has_more = True\<rparr>"])
    code_simp

section \<open>Cancelling\<close>

text \<open>
  The messages of the server keep the button that cancels in step with the answer, except one that
  the server does not send any more: after \<open>stream_complete\<close> nothing streams, but the id is kept
  and cancelling is offered.
\<close>

definition cancel_in_step :: "chat \<Rightarrow> bool" where
  "cancel_in_step c \<longleftrightarrow> (canCancel c \<longrightarrow> ct_isStreaming c)"

lemma cancel_step: "cancel_in_step c \<Longrightarrow> (\<And>t i. m \<noteq> WsStreamComplete t i) \<Longrightarrow> cancel_in_step (snd (handle_chat mo m c))"
  by (cases m)
    (auto simp: cancel_in_step_def canCancel_def handle_chat_def forward_stream end_turn_def on_done_def on_error_def
      on_cancelled_def Let_def simp del: handleMessage.simps)

lemma stream_complete_keeps_id:
  "canCancel (snd (handle_chat mo (WsStreamComplete t i) (c\<lparr>ct_streamId := Some j\<rparr>))) \<and>
   \<not> ct_isStreaming (snd (handle_chat mo (WsStreamComplete t i) (c\<lparr>ct_streamId := Some j\<rparr>)))"
  by (simp add: canCancel_def handle_chat_def)

end
