(* ===== verification/ChatSocket.thy ===== *)
theory ChatSocket
  imports ChatBlocks
begin

text \<open>
  The connection of a chat session: the hook that keeps a socket open and reconnects with backoff
  (\<open>features/chat/hooks/use-session-websocket.ts\<close>, \<open>lib/ws/session-socket.ts\<close>), the debounced
  status (\<open>hooks/use-connection-status.ts\<close>), and the search in a session
  (\<open>hooks/use-chat-search.ts\<close>). Sockets and timers are numbered in the order they are created, so
  that several can be alive at once, as they can in the browser.
\<close>

section \<open>The socket\<close>

definition BACKOFF_DELAYS_MS :: "nat list" where
  "BACKOFF_DELAYS_MS = [500, 1000, 2000, 4000, 8000, 16000, 30000]"

text \<open>A socket the browser has not closed; \<open>wk_reconnect\<close> is what its handlers remember.\<close>

record web_socket =
  wk_id :: nat
  wk_reconnect :: bool

text \<open>
  One run of the effect, for one session: its cancellation flag, the refs, what the hook shows, and
  what it has delivered to its owner (messages, and how often \<open>onReconnected\<close> was called). The
  timers that run are kept beside the refs, which hold the last one only. An interval keeps the
  seconds that remain.
\<close>

record session_socket =
  ss_cancelled :: bool
  ss_attempt :: nat
  ss_once :: bool
  ss_status :: ConnectionStatus
  ss_message :: "string option"
  ss_reconnectIn :: "nat option"
  ss_sockets :: "web_socket list"
  ss_wsRef :: "nat option"
  ss_timers :: "(nat \<times> nat) list"
  ss_timerRef :: "nat option"
  ss_counts :: "(nat \<times> nat) list"
  ss_countRef :: "nat option"
  ss_next :: nat
  ss_delivered :: "WSMessage list"
  ss_reconnected :: nat

definition idle_socket :: session_socket where
  "idle_socket = \<lparr>ss_cancelled = False, ss_attempt = 0, ss_once = False, ss_status = Connecting, ss_message = None,
     ss_reconnectIn = None, ss_sockets = [], ss_wsRef = None, ss_timers = [], ss_timerRef = None, ss_counts = [],
     ss_countRef = None, ss_next = 0, ss_delivered = [], ss_reconnected = 0\<rparr>"

definition clear_timer :: "nat option \<Rightarrow> (nat \<times> nat) list \<Rightarrow> (nat \<times> nat) list" where
  "clear_timer r ts = filter (\<lambda>t. Some (fst t) \<noteq> r) ts"

definition clearReconnectTimers :: "session_socket \<Rightarrow> session_socket" where
  "clearReconnectTimers s = s\<lparr>ss_reconnectIn := None, ss_timers := clear_timer (ss_timerRef s) (ss_timers s),
     ss_timerRef := None, ss_counts := clear_timer (ss_countRef s) (ss_counts s), ss_countRef := None\<rparr>"

text \<open>\<open>connect\<close>: the socket is created at once, and \<open>wsRef\<close> set when the promise resolves.\<close>

definition connect :: "session_socket \<Rightarrow> session_socket" where
  "connect s =
     (if ss_cancelled s then s
      else (let s' = clearReconnectTimers s
            in s'\<lparr>ss_status := (if ss_once s then Reconnecting else Connecting), ss_message := None,
                  ss_sockets := ss_sockets s' @ [\<lparr>wk_id = ss_next s', wk_reconnect = ss_once s\<rparr>],
                  ss_next := ss_next s' + 1\<rparr>))"

definition scheduleReconnect :: "session_socket \<Rightarrow> session_socket" where
  "scheduleReconnect s =
     (if ss_cancelled s then s
      else (let idx = min (ss_attempt s) (length BACKOFF_DELAYS_MS - 1);
                delayMs = BACKOFF_DELAYS_MS ! idx;
                remaining = (delayMs + 999) div 1000
            in s\<lparr>ss_attempt := ss_attempt s + 1, ss_status := Reconnecting, ss_message := None,
                 ss_reconnectIn := Some remaining, ss_timers := ss_timers s @ [(ss_next s + 1, delayMs)],
                 ss_timerRef := Some (ss_next s + 1), ss_counts := ss_counts s @ [(ss_next s, remaining)],
                 ss_countRef := Some (ss_next s), ss_next := ss_next s + 2\<rparr>))"

definition deliver :: "WSMessage \<Rightarrow> session_socket \<Rightarrow> session_socket" where
  "deliver m s = s\<lparr>ss_delivered := ss_delivered s @ [m]\<rparr>"

definition socket_of :: "session_socket \<Rightarrow> nat \<Rightarrow> web_socket option" where
  "socket_of s i = find (\<lambda>k. wk_id k = i) (ss_sockets s)"

definition on_message :: "nat \<Rightarrow> WSMessage \<Rightarrow> session_socket \<Rightarrow> session_socket" where
  "on_message i m s =
     (case socket_of s i of
        None \<Rightarrow> s
      | Some k \<Rightarrow>
          if ss_cancelled s then s
          else deliver m (case m of
                 WsStatus st msg \<Rightarrow>
                   let s' = s\<lparr>ss_status := st, ss_message := (if truthy msg then msg else None)\<rparr>
                   in if st = Ready
                      then s'\<lparr>ss_attempt := 0, ss_once := True,
                              ss_reconnected := ss_reconnected s' + (if wk_reconnect k then 1 else 0)\<rparr>
                      else s'
               | _ \<Rightarrow> s))"

definition drop_socket :: "nat \<Rightarrow> session_socket \<Rightarrow> session_socket" where
  "drop_socket i s = s\<lparr>ss_sockets := filter (\<lambda>k. wk_id k \<noteq> i) (ss_sockets s)\<rparr>"

text \<open>The browser closes a socket; or creating it threw, so that there is none.\<close>

definition on_close :: "nat \<Rightarrow> session_socket \<Rightarrow> session_socket" where
  "on_close i s =
     (if socket_of s i = None then s
      else let s' = drop_socket i s
           in if ss_cancelled s then s' else scheduleReconnect (deliver (WsStatus Disconnected None) s'))"

definition on_open_failed :: "nat \<Rightarrow> session_socket \<Rightarrow> session_socket" where
  "on_open_failed i s =
     (if socket_of s i = None then s
      else let s' = drop_socket i s in if ss_cancelled s then s' else scheduleReconnect s')"

definition on_resolved :: "nat \<Rightarrow> session_socket \<Rightarrow> session_socket" where
  "on_resolved i s = (if ss_cancelled s then drop_socket i s else s\<lparr>ss_wsRef := Some i\<rparr>)"

text \<open>A second of the countdown \<open>i\<close> has passed, and the reconnect timer \<open>i\<close> fires.\<close>

definition countdown_tick :: "nat \<Rightarrow> session_socket \<Rightarrow> session_socket" where
  "countdown_tick i s =
     (case mget (ss_counts s) i of
        None \<Rightarrow> s
      | Some n \<Rightarrow>
          if n \<le> 1
          then s\<lparr>ss_reconnectIn := None, ss_counts := clear_timer (ss_countRef s) (mput i 0 (ss_counts s)), ss_countRef := None\<rparr>
          else s\<lparr>ss_reconnectIn := Some (n - 1), ss_counts := mput i (n - 1) (ss_counts s)\<rparr>)"

definition timer_fires :: "nat \<Rightarrow> session_socket \<Rightarrow> session_socket" where
  "timer_fires i s =
     (if mget (ss_timers s) i = None then s
      else connect (s\<lparr>ss_timers := filter (\<lambda>t. fst t \<noteq> i) (ss_timers s), ss_timerRef := None\<rparr>))"

definition retryNow :: "session_socket \<Rightarrow> session_socket" where
  "retryNow s = (if ss_cancelled s then s else connect ((clearReconnectTimers s)\<lparr>ss_attempt := 0\<rparr>))"

definition cleanup_socket :: "session_socket \<Rightarrow> session_socket" where
  "cleanup_socket s =
     (let s' = clearReconnectTimers (s\<lparr>ss_cancelled := True\<rparr>)
      in (case ss_wsRef s' of Some i \<Rightarrow> drop_socket i s' | None \<Rightarrow> s')\<lparr>ss_wsRef := None\<rparr>)"

text \<open>The start of the effect: without a session or when disabled the hook only reports ready.\<close>

definition start_socket :: "string option \<Rightarrow> bool \<Rightarrow> session_socket" where
  "start_socket sessionId enabled =
     (if \<not> truthy sessionId \<or> \<not> enabled then idle_socket\<lparr>ss_status := Ready\<rparr> else connect idle_socket)"

text \<open>\<open>sendWsMessage\<close>: what goes out, if the socket is there and open.\<close>

definition sendWsMessage :: "bool \<Rightarrow> nat option \<Rightarrow> 'a \<Rightarrow> 'a option" where
  "sendWsMessage is_open ws msg = (if ws = None \<or> \<not> is_open then None else Some msg)"

section \<open>The visible status\<close>

definition IMMEDIATE :: "ConnectionStatus list" where
  "IMMEDIATE = [Ready, Offline, Disconnected, Reconnecting]"

record visible_status =
  vs_visible :: "ConnectionStatus option"
  vs_timer :: "ConnectionStatus option"

text \<open>A new raw status runs the clean-up of the last effect and then the effect.\<close>

definition raw_status :: "ConnectionStatus \<Rightarrow> visible_status \<Rightarrow> visible_status" where
  "raw_status raw v =
     (if raw \<in> set IMMEDIATE then \<lparr>vs_visible = Some raw, vs_timer = None\<rparr>
      else \<lparr>vs_visible = vs_visible v, vs_timer = Some raw\<rparr>)"

definition status_delay_over :: "visible_status \<Rightarrow> visible_status" where
  "status_delay_over v =
     (case vs_timer v of Some raw \<Rightarrow> \<lparr>vs_visible = Some raw, vs_timer = None\<rparr> | None \<Rightarrow> v)"

section \<open>The search\<close>

record BackendMatch =
  bm_message_id :: string
  bm_target_id :: string

text \<open>\<open>cs_request\<close> counts the runs of the effect: only the last one's answer is taken.\<close>

record chat_search =
  cs_open :: bool
  cs_query :: string
  cs_matches :: "BackendMatch list"
  cs_idx :: int
  cs_searching :: bool
  cs_navigating :: bool
  cs_request :: nat

definition MIN_QUERY_LENGTH :: nat where "MIN_QUERY_LENGTH = 2"

definition newSearch :: chat_search where
  "newSearch = \<lparr>cs_open = False, cs_query = [], cs_matches = [], cs_idx = -1, cs_searching = False,
     cs_navigating = False, cs_request = 0\<rparr>"

definition trim_space :: "string \<Rightarrow> string" where
  "trim_space s = rev (dropWhile js_space (rev (dropWhile js_space s)))"

text \<open>The effect of a new query, of opening and of closing.\<close>

definition search_effect :: "chat_search \<Rightarrow> chat_search" where
  "search_effect s =
     (if \<not> cs_open s \<or> length (trim_space (cs_query s)) < MIN_QUERY_LENGTH
      then s\<lparr>cs_matches := [], cs_idx := -1, cs_searching := False, cs_request := cs_request s + 1\<rparr>
      else s\<lparr>cs_searching := True, cs_request := cs_request s + 1\<rparr>)"

definition openSearch :: "chat_search \<Rightarrow> chat_search" where
  "openSearch s = (if cs_open s then s else search_effect (s\<lparr>cs_open := True\<rparr>))"

definition closeSearch :: "chat_search \<Rightarrow> chat_search" where
  "closeSearch s = search_effect (s\<lparr>cs_open := False, cs_query := [], cs_matches := [], cs_idx := -1,
     cs_searching := False, cs_navigating := False\<rparr>)"

definition setQuery :: "string \<Rightarrow> chat_search \<Rightarrow> chat_search" where
  "setQuery q s = (if cs_query s = q then s else search_effect (s\<lparr>cs_query := q\<rparr>))"

definition search_done :: "nat \<Rightarrow> BackendMatch list option \<Rightarrow> chat_search \<Rightarrow> chat_search" where
  "search_done request found s =
     (if request \<noteq> cs_request s then s
      else (case found of
              Some ms \<Rightarrow> s\<lparr>cs_matches := ms, cs_idx := (if ms \<noteq> [] then 0 else -1), cs_searching := False\<rparr>
            | None \<Rightarrow> s\<lparr>cs_searching := False\<rparr>))"

definition currentMatch :: "chat_search \<Rightarrow> BackendMatch option" where
  "currentMatch s =
     (if 0 \<le> cs_idx s \<and> cs_idx s < int (length (cs_matches s)) then Some (cs_matches s ! nat (cs_idx s)) else None)"

definition next_match :: "chat_search \<Rightarrow> chat_search" where
  "next_match s =
     (if cs_matches s = [] then s else s\<lparr>cs_idx := (cs_idx s + 1) mod int (length (cs_matches s))\<rparr>)"

definition prev_match :: "chat_search \<Rightarrow> chat_search" where
  "prev_match s =
     (if cs_matches s = [] then s
      else s\<lparr>cs_idx := (if cs_idx s \<le> 0 then int (length (cs_matches s)) - 1 else cs_idx s - 1)\<rparr>)"

text \<open>The effect that walks back through the history: whether it asks for an older page.\<close>

definition navigate :: "string list \<Rightarrow> bool \<Rightarrow> chat_search \<Rightarrow> bool \<times> chat_search" where
  "navigate message_ids hasMore s =
     (case currentMatch s of
        None \<Rightarrow> (False, s\<lparr>cs_navigating := False\<rparr>)
      | Some m \<Rightarrow>
          if bm_message_id m \<in> set message_ids then (False, s\<lparr>cs_navigating := False\<rparr>)
          else if \<not> hasMore then (False, s\<lparr>cs_navigating := False\<rparr>)
          else (True, s\<lparr>cs_navigating := True\<rparr>))"

end
