(* ===== verification/ChatSocketProps.thy ===== *)
theory ChatSocketProps
  imports ChatSocket
begin

text \<open>
  What holds of the connection: the hook never stops trying until it is cleaned up, waits no longer
  than the longest delay, doubles its way there, and is silent after the clean-up; reconnecting by
  hand while connected leaves two sockets that both deliver; and the position of the search stays
  inside its matches.
\<close>

section \<open>The socket\<close>

datatype socket_event =
    SocketMessage nat WSMessage
  | SocketClosed nat
  | SocketFailed nat
  | SocketResolved nat
  | CountdownTick nat
  | TimerFires nat
  | RetryNow
  | Cleanup

fun socket_step :: "session_socket \<Rightarrow> socket_event \<Rightarrow> session_socket" where
  "socket_step s (SocketMessage i m) = on_message i m s"
| "socket_step s (SocketClosed i) = on_close i s"
| "socket_step s (SocketFailed i) = on_open_failed i s"
| "socket_step s (SocketResolved i) = on_resolved i s"
| "socket_step s (CountdownTick i) = countdown_tick i s"
| "socket_step s (TimerFires i) = timer_fires i s"
| "socket_step s RetryNow = retryNow s"
| "socket_step s Cleanup = cleanup_socket s"

lemmas socket_defs = on_close_def on_open_failed_def on_resolved_def countdown_tick_def timer_fires_def
  retryNow_def cleanup_socket_def connect_def scheduleReconnect_def clearReconnectTimers_def deliver_def drop_socket_def
  Let_def

text \<open>A message touches neither the sockets nor the timers.\<close>

lemma on_message_frame [simp]:
  "ss_cancelled (on_message i m s) = ss_cancelled s" "ss_sockets (on_message i m s) = ss_sockets s"
  "ss_timers (on_message i m s) = ss_timers s" "ss_reconnectIn (on_message i m s) = ss_reconnectIn s"
  "ss_counts (on_message i m s) = ss_counts s" "ss_next (on_message i m s) = ss_next s"
  by (simp_all add: on_message_def deliver_def Let_def split: option.split WSMessage.split)

subsection \<open>Always trying\<close>

definition trying :: "session_socket \<Rightarrow> bool" where
  "trying s \<longleftrightarrow> ss_cancelled s \<or> ss_sockets s \<noteq> [] \<or> ss_timers s \<noteq> []"

interpretation never_idle: machine socket_step trying
proof
  show "trying (socket_step s e)" if t: "trying s" for s e
  proof (cases e)
    case (SocketClosed i)
    with t show ?thesis by (auto simp: trying_def socket_defs)
  next
    case (SocketFailed i)
    with t show ?thesis by (auto simp: trying_def socket_defs)
  next
    case (SocketResolved i)
    with t show ?thesis by (auto simp: trying_def socket_defs)
  next
    case (CountdownTick i)
    with t show ?thesis by (auto simp: trying_def socket_defs split: option.split)
  next
    case Cleanup
    then show ?thesis by (auto simp: trying_def socket_defs split: option.split)
  qed (use t in \<open>auto simp: trying_def socket_defs\<close>)
qed

text \<open>
  C31. The hook never gives up: after any sequence of messages, closes, failures, timers and manual
  retries, unless the effect was cleaned up, there is a socket that can still open or deliver, or a
  timer that will open the next one.
\<close>

theorem never_gives_up:
  "trying (foldl socket_step (connect idle_socket) es)"
  by (rule never_idle.run_good) (simp add: trying_def connect_def idle_socket_def Let_def)

subsection \<open>Waiting\<close>

definition waits_bounded :: "session_socket \<Rightarrow> bool" where
  "waits_bounded s \<longleftrightarrow> list_all (\<lambda>t. snd t \<in> set BACKOFF_DELAYS_MS) (ss_timers s) \<and>
     list_all (\<lambda>t. snd t \<le> 30) (ss_counts s) \<and> pred_option (\<lambda>n. 1 \<le> n \<and> n \<le> 30) (ss_reconnectIn s)"

lemma delay_known: "BACKOFF_DELAYS_MS ! min n (length BACKOFF_DELAYS_MS - 1) \<in> set BACKOFF_DELAYS_MS"
  by (rule nth_mem) (simp add: BACKOFF_DELAYS_MS_def)

lemma delay_seconds: "d \<in> set BACKOFF_DELAYS_MS \<Longrightarrow> 1 \<le> (d + 999) div 1000 \<and> (d + 999) div 1000 \<le> 30"
  by (auto simp: BACKOFF_DELAYS_MS_def)

lemma bounded_schedule: "waits_bounded s \<Longrightarrow> waits_bounded (scheduleReconnect s)"
  using delay_known [of "ss_attempt s"] delay_seconds [OF delay_known [of "ss_attempt s"]]
  by (simp add: waits_bounded_def scheduleReconnect_def Let_def)

lemma list_all_filter: "list_all P xs \<Longrightarrow> list_all P (filter Q xs)"
  by (auto simp: list_all_iff)

lemma bounded_clear: "waits_bounded s \<Longrightarrow> waits_bounded (clearReconnectTimers s)"
  by (simp add: waits_bounded_def clearReconnectTimers_def clear_timer_def list_all_filter)

lemma bounded_connect: "waits_bounded s \<Longrightarrow> waits_bounded (connect s)"
  using bounded_clear [of s] by (simp add: connect_def Let_def waits_bounded_def)

lemma list_all_update: "list_all (\<lambda>t. P (snd t)) m \<Longrightarrow> P v \<Longrightarrow> list_all (\<lambda>t. P (snd t)) (mput i v m)"
  by (induction m) auto

lemma bounded_tick:
  assumes "waits_bounded s"
  shows "waits_bounded (countdown_tick i s)"
proof (cases "mget (ss_counts s) i")
  case (Some n)
  with assms have "n \<le> 30" by (auto simp: waits_bounded_def list_all_iff dest!: map_of_SomeD)
  with Some assms show ?thesis
    by (auto simp: waits_bounded_def countdown_tick_def clear_timer_def intro!: list_all_filter list_all_update)
qed (use assms in \<open>simp add: countdown_tick_def\<close>)

interpretation waiting: machine socket_step waits_bounded
proof
  show "waits_bounded (socket_step s e)" if b: "waits_bounded s" for s e
  proof (cases e)
    case (SocketClosed i)
    have "waits_bounded (deliver (WsStatus Disconnected None) (drop_socket i s))" "waits_bounded (drop_socket i s)"
      using b by (simp_all add: waits_bounded_def deliver_def drop_socket_def)
    with SocketClosed b bounded_schedule show ?thesis by (simp add: on_close_def Let_def)
  next
    case (SocketFailed i)
    have "waits_bounded (drop_socket i s)" using b by (simp add: waits_bounded_def drop_socket_def)
    with SocketFailed b bounded_schedule show ?thesis by (simp add: on_open_failed_def Let_def)
  next
    case (TimerFires i)
    have "waits_bounded (s\<lparr>ss_timers := filter (\<lambda>t. fst t \<noteq> i) (ss_timers s), ss_timerRef := None\<rparr>)"
      using b by (simp add: waits_bounded_def list_all_filter)
    with TimerFires b bounded_connect show ?thesis by (simp add: timer_fires_def)
  next
    case RetryNow
    have "waits_bounded ((clearReconnectTimers s)\<lparr>ss_attempt := 0\<rparr>)"
      using bounded_clear [OF b] by (simp add: waits_bounded_def)
    with RetryNow b bounded_connect show ?thesis by (simp add: retryNow_def)
  next
    case (CountdownTick i)
    with bounded_tick [OF b] show ?thesis by simp
  next
    case Cleanup
    have "waits_bounded (s\<lparr>ss_cancelled := True\<rparr>)" using b by (simp add: waits_bounded_def)
    from bounded_clear [OF this] Cleanup show ?thesis
      by (auto simp: cleanup_socket_def Let_def waits_bounded_def drop_socket_def split: option.split)
  qed (use b in \<open>auto simp: on_resolved_def drop_socket_def waits_bounded_def\<close>)
qed

text \<open>
  The hook never waits longer than thirty seconds: whatever happens, every reconnect timer that
  runs has one of the delays of the list, and the countdown on the screen is absent or between one
  and thirty.
\<close>

theorem waits_are_bounded:
  "waits_bounded (foldl socket_step (connect idle_socket) es)"
  by (rule waiting.run_good) (simp add: waits_bounded_def connect_def idle_socket_def clearReconnectTimers_def clear_timer_def Let_def)

text \<open>
  A row of failures: every socket closes without ever being ready, and every timer fires. One round
  with the socket \<open>i\<close> as the only one.
\<close>

definition quiet_round :: "nat \<Rightarrow> nat \<Rightarrow> session_socket \<Rightarrow> bool" where
  "quiet_round n i s \<longleftrightarrow> \<not> ss_cancelled s \<and> ss_attempt s = n \<and> map wk_id (ss_sockets s) = [i] \<and> ss_timers s = []
     \<and> i < ss_next s"

definition failing_round :: "nat \<Rightarrow> session_socket \<Rightarrow> nat \<times> session_socket" where
  "failing_round i s = (let s' = on_close i s in (snd (last (ss_timers s')), timer_fires (the (ss_timerRef s')) s'))"

fun failing_rounds :: "nat \<Rightarrow> nat \<Rightarrow> session_socket \<Rightarrow> nat list" where
  "failing_rounds 0 i s = []"
| "failing_rounds (Suc n) i s =
     (let (d, s') = failing_round i s in d # failing_rounds n (wk_id (last (ss_sockets s'))) s')"

lemma longest_delay: "length BACKOFF_DELAYS_MS - 1 = 6"
  by (simp add: BACKOFF_DELAYS_MS_def)

lemma one_round:
  assumes "quiet_round n i s"
  shows "fst (failing_round i s) = BACKOFF_DELAYS_MS ! min n 6 \<and>
    quiet_round (Suc n) (wk_id (last (ss_sockets (snd (failing_round i s))))) (snd (failing_round i s))"
proof -
  from assms obtain k where k: "ss_sockets s = [k]" "wk_id k = i"
    by (auto simp: quiet_round_def map_eq_Cons_conv)
  with assms show ?thesis
    by (simp add: quiet_round_def failing_round_def on_close_def socket_of_def scheduleReconnect_def deliver_def
        drop_socket_def timer_fires_def connect_def clearReconnectTimers_def clear_timer_def longest_delay Let_def
        del: One_nat_def)
qed

lemma rounds_delays:
  "quiet_round k i s \<Longrightarrow> failing_rounds n i s = map (\<lambda>j. BACKOFF_DELAYS_MS ! min j 6) [k..<k + n]"
proof (induction n arbitrary: k i s)
  case (Suc n)
  obtain d s' where r: "failing_round i s = (d, s')" by fastforce
  from one_round [OF Suc.prems] r have d: "d = BACKOFF_DELAYS_MS ! min k 6"
    and q: "quiet_round (Suc k) (wk_id (last (ss_sockets s'))) s'" by simp_all
  have "[k..<k + Suc n] = k # [Suc k..<Suc k + n]" by (simp add: upt_conv_Cons del: upt_Suc)
  with Suc.IH [OF q] d r show ?case by (simp del: upt_Suc)
qed simp

text \<open>
  The backoff is exponential: when the server is away, the delays before the first, second,
  third attempt and so on are 500 ms, then each time twice the one before up to 16 seconds, then
  30 seconds for every further attempt.
\<close>

theorem backoff_is_exponential:
  "failing_rounds n 0 (connect idle_socket) =
     map (\<lambda>j. if j \<le> 5 then 500 * 2 ^ j else 30000) [0..<n]"
proof -
  have "quiet_round 0 0 (connect idle_socket)"
    by (simp add: quiet_round_def connect_def idle_socket_def clearReconnectTimers_def clear_timer_def Let_def)
  moreover have "BACKOFF_DELAYS_MS ! min j 6 = (if j \<le> 5 then 500 * 2 ^ j else 30000)" for j
  proof (cases "j \<le> 5")
    case True
    then have "j \<in> {0, 1, 2, 3, 4, 5}" by auto
    then show ?thesis by (auto simp: BACKOFF_DELAYS_MS_def)
  qed (simp add: BACKOFF_DELAYS_MS_def min_def)
  ultimately show ?thesis using rounds_delays [of 0 0 "connect idle_socket" n] by simp
qed

subsection \<open>After the clean-up\<close>

definition silent_after :: "session_socket \<Rightarrow> session_socket \<Rightarrow> bool" where
  "silent_after s0 s \<longleftrightarrow> ss_cancelled s \<and> ss_delivered s = ss_delivered s0 \<and> ss_reconnected s = ss_reconnected s0 \<and>
     ss_status s = ss_status s0 \<and> set (ss_sockets s) \<subseteq> set (ss_sockets s0) \<and> set (ss_timers s) \<subseteq> set (ss_timers s0)"

lemma set_clear: "set (clear_timer r ts) \<subseteq> set ts"
  by (auto simp: clear_timer_def)

lemma silent_clear: "silent_after s0 s \<Longrightarrow> silent_after s0 (clearReconnectTimers s)"
  using set_clear [of "ss_timerRef s" "ss_timers s"] by (auto simp: silent_after_def clearReconnectTimers_def)

lemma silent_drop: "silent_after s0 s \<Longrightarrow> silent_after s0 (drop_socket i s)"
  by (auto simp: silent_after_def drop_socket_def)

interpretation silent: machine socket_step "silent_after s0" for s0
proof
  show "silent_after s0 (socket_step s e)" if q: "silent_after s0 s" for s e
  proof -
    have c: "ss_cancelled s" using q by (simp add: silent_after_def)
    show ?thesis
    proof (cases e)
      case (SocketMessage i m)
      with q c show ?thesis by (simp add: on_message_def split: option.split)
    next
      case (CountdownTick i)
      with q show ?thesis by (auto simp: countdown_tick_def silent_after_def split: option.split)
    next
      case (TimerFires i)
      with q c show ?thesis by (auto simp: timer_fires_def connect_def silent_after_def)
    next
      case Cleanup
      have "silent_after s0 (s\<lparr>ss_cancelled := True\<rparr>)" using q by (simp add: silent_after_def)
      from silent_drop [OF silent_clear [OF this]] silent_clear [OF this] Cleanup show ?thesis
        by (auto simp: cleanup_socket_def Let_def silent_after_def split: option.split)
    qed (use q c in \<open>simp_all add: on_close_def on_open_failed_def on_resolved_def retryNow_def Let_def silent_drop\<close>)
  qed
qed

text \<open>
  A session that was left stays silent: after the clean-up, whatever sockets and timers that
  are still alive do, nothing is delivered, no reconnection is reported, the status stays, and no
  socket is opened and no reconnect scheduled.
\<close>

theorem cleanup_silences:
  "silent_after (cleanup_socket s) (foldl socket_step (cleanup_socket s) es)"
proof (rule silent.run_good)
  have "ss_cancelled (cleanup_socket s)"
    by (simp add: cleanup_socket_def clearReconnectTimers_def drop_socket_def Let_def split: option.split)
  then show "silent_after (cleanup_socket s) (cleanup_socket s)" by (simp add: silent_after_def)
qed

subsection \<open>Reconnecting by hand\<close>

text \<open>
  Retrying while connected opens a second socket beside the first, although the documentation
  of \<open>retryNow\<close> says that it does nothing then: both stay open, and a message that the server
  sends to both is delivered twice.
\<close>

theorem retry_doubles_messages:
  "\<exists>s. s = foldl socket_step (connect idle_socket) [SocketResolved 0, SocketMessage 0 (WsStatus Ready None), RetryNow] \<and>
     map wk_id (ss_sockets s) = [0, 1] \<and>
     ss_delivered (foldl socket_step s [SocketMessage 0 (WsChunk text), SocketMessage 1 (WsChunk text)])
       = [WsStatus Ready None, WsChunk text, WsChunk text]"
  by (simp add: socket_defs on_message_def socket_of_def idle_socket_def clear_timer_def)

section \<open>The visible status\<close>

lemma quick_connection_shows_nothing_between:
  "raw \<notin> set IMMEDIATE \<Longrightarrow> vs_visible (raw_status Ready (raw_status raw v)) = Some Ready \<and>
     vs_visible (raw_status raw v) = vs_visible v \<and> status_delay_over (raw_status Ready (raw_status raw v)) = raw_status Ready v"
  by (simp add: raw_status_def status_delay_over_def IMMEDIATE_def)

section \<open>The search\<close>

datatype search_event =
    OpenSearch | CloseSearch | SetQuery string | SearchDone nat "BackendMatch list option" | NextMatch | PrevMatch
  | Navigate "string list" bool

fun search_step :: "chat_search \<Rightarrow> search_event \<Rightarrow> chat_search" where
  "search_step s OpenSearch = openSearch s"
| "search_step s CloseSearch = closeSearch s"
| "search_step s (SetQuery q) = setQuery q s"
| "search_step s (SearchDone r found) = search_done r found s"
| "search_step s NextMatch = next_match s"
| "search_step s PrevMatch = prev_match s"
| "search_step s (Navigate ids hasMore) = snd (navigate ids hasMore s)"

definition position_ok :: "chat_search \<Rightarrow> bool" where
  "position_ok s \<longleftrightarrow> (if cs_matches s = [] then cs_idx s = -1 else 0 \<le> cs_idx s \<and> cs_idx s < int (length (cs_matches s)))"

interpretation searching: machine search_step position_ok
proof
  show "position_ok (search_step s e)" if "position_ok s" for s e
    using that
    by (cases e)
      (auto simp: position_ok_def openSearch_def closeSearch_def setQuery_def search_effect_def search_done_def
        next_match_def prev_match_def navigate_def split: option.split if_splits)
qed

text \<open>
  The position of the search stays inside its matches: after any use of the search, there is a
  current match exactly when there are matches, and then going forward and going back undo each
  other and wrap around at the ends.
\<close>

theorem search_position_stays_inside:
  "let s = foldl search_step newSearch es in
     (currentMatch s = None \<longleftrightarrow> cs_matches s = []) \<and> prev_match (next_match s) = s \<and> next_match (prev_match s) = s"
proof -
  define s where "s = foldl search_step newSearch es"
  have ok: "position_ok s"
    unfolding s_def by (rule searching.run_good) (simp add: position_ok_def newSearch_def)
  have "(currentMatch s = None \<longleftrightarrow> cs_matches s = []) \<and> prev_match (next_match s) = s \<and> next_match (prev_match s) = s"
  proof (cases "cs_matches s = []")
    case False
    with ok have i: "0 \<le> cs_idx s" "cs_idx s < int (length (cs_matches s))" by (simp_all add: position_ok_def)
    have up: "(cs_idx s + 1) mod int (length (cs_matches s)) =
        (if cs_idx s + 1 = int (length (cs_matches s)) then 0 else cs_idx s + 1)"
      using i by (simp add: zmod_trivial_iff)
    have "prev_match (next_match s) = s"
      using i False by (simp add: next_match_def prev_match_def up)
    moreover have "next_match (prev_match s) = s"
      using i False by (auto simp: next_match_def prev_match_def)
    ultimately show ?thesis using i False by (simp add: currentMatch_def)
  qed (simp_all add: currentMatch_def next_match_def prev_match_def)
  then show ?thesis by (simp only: s_def Let_def)
qed

end
