(* ===== verification/ChatHighlight.thy ===== *)
theory ChatHighlight
  imports Codec
begin

text \<open>
  Highlighting in the chat (\<open>features/chat/lib/highlight-text.ts\<close>) on a model of the document: text
  nodes, and elements with a tag, class names and children. \<open>toLowerCase\<close> is the argument \<open>lower\<close>,
  since its tables are Unicode's; it can change the length of a text. What is shown: highlighting
  ends and never changes a text, and clearing takes it back.
\<close>

section \<open>The document\<close>

datatype dom = DomText text16 | Element string "string list" "dom list"

definition HIGHLIGHT_CLASS :: string where "HIGHLIGHT_CLASS = ''chat-search-highlight''"

definition SKIP_TAGS :: "string list" where
  "SKIP_TAGS = [''SCRIPT'', ''STYLE'', ''TEXTAREA'', ''INPUT'', ''MARK'']"

text \<open>\<open>node.textContent\<close>.\<close>

fun textContent :: "dom \<Rightarrow> text16" where
  "textContent (DomText s) = s"
| "textContent (Element t c ds) = concat (map textContent ds)"

text \<open>\<open>s.indexOf(q, i)\<close>.\<close>

definition indexOf_from :: "'a list \<Rightarrow> 'a list \<Rightarrow> nat \<Rightarrow> nat option" where
  "indexOf_from s q i = map_option (\<lambda>k. i + k) (sub_index (drop i s) q)"

text \<open>\<open>s.slice(i, j)\<close>.\<close>

definition slice :: "nat \<Rightarrow> nat \<Rightarrow> 'a list \<Rightarrow> 'a list" where
  "slice i j s = take (j - i) (drop i s)"

section \<open>Highlighting\<close>

definition mark_node :: "text16 \<Rightarrow> dom" where
  "mark_node s = Element ''MARK'' [HIGHLIGHT_CLASS] [DomText s]"

text \<open>
  The loop over the occurrences in one text node, with the pieces so far. With an empty lower-case
  query it would not end; then the value is none.
\<close>

partial_function (option) pieces_from :: "text16 \<Rightarrow> text16 \<Rightarrow> text16 \<Rightarrow> nat \<Rightarrow> dom list \<Rightarrow> dom list option" where
  "pieces_from s lowerText lowerQ lastIdx out =
     (case indexOf_from lowerText lowerQ lastIdx of
        None \<Rightarrow> Some (out @ (if lastIdx < length s then [DomText (drop lastIdx s)] else []))
      | Some idx \<Rightarrow>
          pieces_from s lowerText lowerQ (idx + length lowerQ)
            (out @ (if lastIdx < idx then [DomText (slice lastIdx idx s)] else [])
               @ [mark_node (slice idx (idx + length lowerQ) s)]))"

definition highlight_node :: "(text16 \<Rightarrow> text16) \<Rightarrow> text16 \<Rightarrow> text16 \<Rightarrow> dom list option" where
  "highlight_node lower q s = pieces_from s (lower s) (lower q) 0 []"

text \<open>
  The walk: the text nodes that contain the query, under an element that is not skipped, are
  replaced by their pieces. \<open>skip\<close> says whether the parent's tag is one of those.
\<close>

fun highlight_list :: "(text16 \<Rightarrow> text16) \<Rightarrow> text16 \<Rightarrow> bool \<Rightarrow> dom list \<Rightarrow> dom list option" where
  "highlight_list lower q skip [] = Some []"
| "highlight_list lower q skip (DomText s # ds) =
     (if \<not> skip \<and> has_sub (lower s) (lower q)
      then Option.bind (highlight_node lower q s) (\<lambda>ps. map_option (\<lambda>rest. ps @ rest) (highlight_list lower q skip ds))
      else map_option (\<lambda>rest. DomText s # rest) (highlight_list lower q skip ds))"
| "highlight_list lower q skip (Element t c cs # ds) =
     Option.bind (highlight_list lower q (t \<in> set SKIP_TAGS) cs)
       (\<lambda>cs'. map_option (\<lambda>rest. Element t c cs' # rest) (highlight_list lower q skip ds))"

text \<open>The root is an element.\<close>

fun highlightText :: "(text16 \<Rightarrow> text16) \<Rightarrow> text16 \<Rightarrow> dom \<Rightarrow> dom option" where
  "highlightText lower q (Element t c cs) =
     (if q = [] then Some (Element t c cs)
      else map_option (Element t c) (highlight_list lower q (t \<in> set SKIP_TAGS) cs))"
| "highlightText lower q (DomText s) = Some (DomText s)"

section \<open>Clearing\<close>

definition is_mark :: "string \<Rightarrow> string list \<Rightarrow> bool" where
  "is_mark t c \<longleftrightarrow> t = ''MARK'' \<and> HIGHLIGHT_CLASS \<in> set c"

fun unmark :: "dom \<Rightarrow> dom" where
  "unmark (DomText s) = DomText s"
| "unmark (Element t c cs) =
     (if is_mark t c then DomText (concat (map textContent cs)) else Element t c (map unmark cs))"

text \<open>\<open>root.normalize()\<close>: adjacent text nodes are joined, and empty ones removed.\<close>

definition cons_text :: "text16 \<Rightarrow> dom list \<Rightarrow> dom list" where
  "cons_text s ds =
     (case ds of
        DomText s' # rest \<Rightarrow> DomText (s @ s') # rest
      | _ \<Rightarrow> if s = [] then ds else DomText s # ds)"

fun normal_list :: "dom list \<Rightarrow> dom list" where
  "normal_list [] = []"
| "normal_list (DomText s # ds) = cons_text s (normal_list ds)"
| "normal_list (Element t c cs # ds) = Element t c (normal_list cs) # normal_list ds"

fun clearHighlights :: "dom \<Rightarrow> dom" where
  "clearHighlights (Element t c cs) = Element t c (normal_list (map unmark cs))"
| "clearHighlights (DomText s) = DomText s"

fun normalize_dom :: "dom \<Rightarrow> dom" where
  "normalize_dom (Element t c cs) = Element t c (normal_list cs)"
| "normalize_dom (DomText s) = DomText s"

section \<open>One text node\<close>

lemma indexOf_bounds: "indexOf_from s q i = Some k \<Longrightarrow> q \<noteq> [] \<Longrightarrow> i \<le> k \<and> k + length q \<le> length s"
  by (cases "i \<le> length s") (auto simp: indexOf_from_def dest!: sub_index_bound)

lemma slices_join: "i \<le> j \<Longrightarrow> slice i j s @ drop j s = drop i s"
  by (metis append_take_drop_id drop_drop le_add_diff_inverse2 slice_def)

text \<open>A piece is a text or a mark around one.\<close>

definition is_piece :: "dom \<Rightarrow> bool" where
  "is_piece d \<longleftrightarrow> (\<exists>s. d = DomText s \<or> d = mark_node s)"

lemma pieces_end:
  assumes "lowerQ \<noteq> []"
  shows "\<exists>ps. pieces_from s lt lowerQ i out = Some (out @ ps) \<and> list_all is_piece ps \<and>
    concat (map textContent ps) = drop i s"
proof (induction "length lt - i" arbitrary: i out rule: less_induct)
  case less
  show ?case
  proof (cases "indexOf_from lt lowerQ i")
    case None
    then show ?thesis
      by (subst pieces_from.simps) (auto simp: is_piece_def)
  next
    case (Some k)
    have b: "i \<le> k" "k + length lowerQ \<le> length lt" "0 < length lowerQ"
      using indexOf_bounds [OF Some assms] assms by auto
    then have "length lt - (k + length lowerQ) < length lt - i" by arith
    from less [OF this] obtain ps where
      ps: "pieces_from s lt lowerQ (k + length lowerQ)
          (out @ (if i < k then [DomText (slice i k s)] else []) @ [mark_node (slice k (k + length lowerQ) s)]) =
        Some ((out @ (if i < k then [DomText (slice i k s)] else []) @ [mark_node (slice k (k + length lowerQ) s)]) @ ps)"
      "list_all is_piece ps" "concat (map textContent ps) = drop (k + length lowerQ) s" by blast
    have joined: "slice i k s @ slice k (k + length lowerQ) s @ drop (k + length lowerQ) s = drop i s"
      using b by (simp add: slices_join)
    have none: "\<not> i < k \<Longrightarrow> slice i k s = []" by (simp add: slice_def)
    let ?ps = "(if i < k then [DomText (slice i k s)] else []) @ [mark_node (slice k (k + length lowerQ) s)] @ ps"
    have "pieces_from s lt lowerQ i out = Some (out @ ?ps)"
      by (subst pieces_from.simps) (simp only: Some option.case ps(1), simp)
    moreover have "list_all is_piece ?ps" using ps(2) by (auto simp: is_piece_def)
    moreover have "concat (map textContent ?ps) = drop i s"
      using joined none ps(3) by (auto simp: mark_node_def)
    ultimately show ?thesis by blast
  qed
qed

lemma highlight_node_keeps:
  "lower q \<noteq> [] \<Longrightarrow> \<exists>ps. highlight_node lower q s = Some ps \<and> list_all is_piece ps \<and> concat (map textContent ps) = s"
  using pieces_end [of "lower q" s "lower s" 0 "[]"] by (simp add: highlight_node_def)

section \<open>The document keeps its text\<close>

lemma normal_append_text: "normal_list (map DomText ss @ ds) = normal_list (DomText (concat ss) # ds)"
proof (induction ss)
  case Nil
  show ?case by (simp add: cons_text_def split: list.split dom.split)
next
  case (Cons s ss)
  have "cons_text s (cons_text s' xs) = cons_text (s @ s') xs" for s' xs
    by (cases xs rule: list.exhaust; cases "hd xs") (auto simp: cons_text_def)
  with Cons show ?case by simp
qed

text \<open>No element carries the highlighter's own mark.\<close>

fun markless :: "dom \<Rightarrow> bool" where
  "markless (DomText s) = True"
| "markless (Element t c cs) = (\<not> is_mark t c \<and> list_all markless cs)"

lemma unmark_markless: "markless d \<Longrightarrow> unmark d = d"
  by (induction d) (auto simp: list_all_iff map_idI)

lemma unmark_piece: "is_piece d \<Longrightarrow> unmark d = DomText (textContent d)"
  by (auto simp: is_piece_def mark_node_def is_mark_def HIGHLIGHT_CLASS_def)

lemma highlight_list_keeps:
  assumes "lower q \<noteq> []" and "list_all markless ds"
  shows "\<exists>ds'. highlight_list lower q skip ds = Some ds' \<and> normal_list (map unmark ds') = normal_list ds \<and>
    concat (map textContent ds') = concat (map textContent ds)"
  using assms
proof (induction lower q skip ds rule: highlight_list.induct)
  case (2 lower q skip s ds)
  obtain ps where ps: "highlight_node lower q s = Some ps" "list_all is_piece ps" "concat (map textContent ps) = s"
    using highlight_node_keeps [of lower q s] "2.prems"(1) by blast
  have "list_all markless ds" using "2.prems"(2) by simp
  with "2.IH"(1) [OF _ ps(1) "2.prems"(1)] "2.IH"(2) [OF _ "2.prems"(1)] obtain ds' where
    ds': "highlight_list lower q skip ds = Some ds'" "normal_list (map unmark ds') = normal_list ds"
    "concat (map textContent ds') = concat (map textContent ds)" by blast
  have "map unmark ps = map DomText (map textContent ps)"
    using ps(2) by (auto simp: list_all_iff unmark_piece)
  then have "normal_list (map unmark (ps @ ds')) = normal_list (DomText s # map unmark ds')"
    by (simp only: map_append normal_append_text ps(3))
  with ds' ps show ?case by auto
next
  case (3 lower q skip t c cs ds)
  then obtain cs' where "highlight_list lower q (t \<in> set SKIP_TAGS) cs = Some cs'"
    "normal_list (map unmark cs') = normal_list cs" "concat (map textContent cs') = concat (map textContent cs)" by auto
  moreover from 3 obtain ds' where "highlight_list lower q skip ds = Some ds'"
    "normal_list (map unmark ds') = normal_list ds" "concat (map textContent ds') = concat (map textContent ds)" by auto
  ultimately show ?case using "3.prems" by auto
qed simp

text \<open>
  C32. Highlighting a search is harmless: for a query whose lower case is not empty, the loop over
  every text node ends, whatever lower case does to the length of texts; the text of the document
  stays the same; and clearing takes the highlighting back, so that the document is again what it
  was, with its text nodes joined.
\<close>

theorem clear_takes_highlight_back:
  assumes "lower q \<noteq> []" and "list_all markless ds"
  shows "\<exists>d. highlightText lower q (Element t c ds) = Some d \<and> textContent d = textContent (Element t c ds) \<and>
    clearHighlights d = normalize_dom (Element t c ds)"
proof (cases "q = []")
  case True
  with assms(2) show ?thesis by (simp add: map_idI list_all_iff unmark_markless)
next
  case False
  with highlight_list_keeps [of lower q ds "t \<in> set SKIP_TAGS"] assms show ?thesis by auto
qed

definition lower_units :: "text16 \<Rightarrow> text16" where
  "lower_units s = map (\<lambda>u. if 65 \<le> unat u \<and> unat u \<le> 90 then u + 32 else u) s"

definition demo_document :: "dom list" where
  "demo_document = [DomText (text_of ''Say hello, Hello''), Element ''SCRIPT'' [] [DomText (text_of ''hello()'')]]"

theorem clear_takes_highlight_back_witness:
  "\<exists>d. highlightText lower_units (text_of ''HELLO'') (Element ''DIV'' [] demo_document) = Some d \<and>
     clearHighlights d = Element ''DIV'' [] demo_document"
proof -
  have "lower_units (text_of ''HELLO'') \<noteq> []" by (simp add: lower_units_def text_of_def)
  moreover have "list_all markless demo_document" by (simp add: demo_document_def is_mark_def)
  ultimately obtain d where d: "highlightText lower_units (text_of ''HELLO'') (Element ''DIV'' [] demo_document) = Some d"
    "clearHighlights d = normalize_dom (Element ''DIV'' [] demo_document)"
    using clear_takes_highlight_back [of lower_units "text_of ''HELLO''" demo_document "''DIV''" "[]"] by blast
  moreover have "normalize_dom (Element ''DIV'' [] demo_document) = Element ''DIV'' [] demo_document"
    by code_simp
  ultimately show ?thesis by auto
qed

end
