(* ===== verification/WorkspaceTree.thy ===== *)
theory WorkspaceTree
  imports WebClient Workspace
begin

text \<open>
  The file tree of the workspace panel (\<open>features/workspace/hooks/use-workspace-tree.ts\<close>): the
  listings that were fetched, the directories that are open, and the generation that tells answers
  of an earlier session or setting from current ones. A fetch is cut at its await. The last section
  shows that the tree only ever shows listings of the session it is for.
\<close>

section \<open>The hook\<close>

record node_state =
  tn_entries :: "TreeEntry list"
  tn_loading :: bool
  tn_error :: "string option"
  tn_loaded :: bool

definition ROOT_PATH :: string where "ROOT_PATH = ''/''"

text \<open>The open directories are a \<open>Set\<close>, in insertion order.\<close>

record tree_panel =
  tp_session :: string
  tp_showHidden :: bool
  tp_nodes :: "(string, node_state) jmap"
  tp_expanded :: "string list"
  tp_generation :: nat

text \<open>A request under way: what it asks for and the generation it was made in.\<close>

record tree_request =
  rq_session :: string
  rq_path :: string
  rq_hidden :: bool
  rq_generation :: nat

definition blank_node :: node_state where
  "blank_node = \<lparr>tn_entries = [], tn_loading = False, tn_error = None, tn_loaded = False\<rparr>"

definition setNode :: "string \<Rightarrow> (node_state \<Rightarrow> node_state) \<Rightarrow> tree_panel \<Rightarrow> tree_panel" where
  "setNode path patch t =
     t\<lparr>tp_nodes := mput path (patch (case mget (tp_nodes t) path of Some n \<Rightarrow> n | None \<Rightarrow> blank_node)) (tp_nodes t)\<rparr>"

definition fetchPath :: "string \<Rightarrow> tree_panel \<Rightarrow> tree_request \<times> tree_panel" where
  "fetchPath path t =
     (\<lparr>rq_session = tp_session t, rq_path = path, rq_hidden = tp_showHidden t, rq_generation = tp_generation t\<rparr>,
      setNode path (\<lambda>n. n\<lparr>tn_loading := True, tn_error := None\<rparr>) t)"

text \<open>The answer: the listing, or the error (its message, when it is an \<open>Error\<close>).\<close>

definition fetchPath_done :: "tree_request \<Rightarrow> string option + TreeEntry list \<Rightarrow> tree_panel \<Rightarrow> tree_panel" where
  "fetchPath_done r result t =
     (if rq_generation r \<noteq> tp_generation t then t
      else (case result of
              Inr entries \<Rightarrow> setNode (rq_path r)
                (\<lambda>n. n\<lparr>tn_entries := entries, tn_loading := False, tn_error := None, tn_loaded := True\<rparr>) t
            | Inl msg \<Rightarrow> setNode (rq_path r)
                (\<lambda>n. n\<lparr>tn_loading := False,
                       tn_error := Some (case msg of Some m \<Rightarrow> m | None \<Rightarrow> ''Failed to load'')\<rparr>) t))"

text \<open>The effects of a new session or setting: a new generation, and the root is fetched.\<close>

definition new_generation :: "tree_panel \<Rightarrow> tree_request \<times> tree_panel" where
  "new_generation t =
     fetchPath ROOT_PATH (t\<lparr>tp_nodes := [], tp_expanded := [ROOT_PATH], tp_generation := tp_generation t + 1\<rparr>)"

definition open_tree :: "string \<Rightarrow> tree_request \<times> tree_panel" where
  "open_tree sessionId = new_generation \<lparr>tp_session = sessionId, tp_showHidden = False, tp_nodes = [],
     tp_expanded = [ROOT_PATH], tp_generation = 0\<rparr>"

definition change_tree_session :: "string \<Rightarrow> tree_panel \<Rightarrow> tree_request \<times> tree_panel" where
  "change_tree_session sessionId t = new_generation (t\<lparr>tp_session := sessionId\<rparr>)"

definition toggleHidden :: "tree_panel \<Rightarrow> tree_request \<times> tree_panel" where
  "toggleHidden t = new_generation (t\<lparr>tp_showHidden := \<not> tp_showHidden t\<rparr>)"

text \<open>
  \<open>toggle\<close>: React runs the updater at once only when nothing is queued before it; otherwise
  (\<open>eager\<close> is false) \<open>wasOpen\<close> is still false when it is looked at.
\<close>

definition toggle_path :: "bool \<Rightarrow> string \<Rightarrow> tree_panel \<Rightarrow> tree_request option \<times> tree_panel" where
  "toggle_path eager path t =
     (let isOpen = (path \<in> set (tp_expanded t));
          t' = t\<lparr>tp_expanded := (if isOpen then removeAll path (tp_expanded t) else tp_expanded t @ [path])\<rparr>
      in if eager \<and> isOpen then (None, t')
         else (case mget (tp_nodes t) path of
                 Some n \<Rightarrow> if \<not> tn_loaded n \<and> \<not> tn_loading n then map_prod Some id (fetchPath path t') else (None, t')
               | None \<Rightarrow> map_prod Some id (fetchPath path t')))"

fun fetch_all :: "string list \<Rightarrow> tree_panel \<Rightarrow> tree_request list \<times> tree_panel" where
  "fetch_all [] t = ([], t)"
| "fetch_all (p # ps) t =
     (let (r, t') = fetchPath p t; (rs, t'') = fetch_all ps t' in (r # rs, t''))"

definition refreshAll :: "tree_panel \<Rightarrow> tree_request list \<times> tree_panel" where
  "refreshAll t = fetch_all (tp_expanded t) t"

definition refreshPath :: "string \<Rightarrow> tree_panel \<Rightarrow> tree_request \<times> tree_panel" where
  "refreshPath p t = fetchPath p t"

definition ensureExpanded :: "string \<Rightarrow> tree_panel \<Rightarrow> tree_panel" where
  "ensureExpanded p t = (if p \<in> set (tp_expanded t) then t else t\<lparr>tp_expanded := tp_expanded t @ [p]\<rparr>)"

definition collapseAll :: "tree_panel \<Rightarrow> tree_panel" where
  "collapseAll t = t\<lparr>tp_expanded := [ROOT_PATH]\<rparr>"

section \<open>What the tree shows\<close>

text \<open>
  The panel with the requests under way and every answer so far; an answer goes to the request at
  an index, in any order.
\<close>

datatype tree_event =
    ChangeSession string | ToggleHidden | Toggle bool string | RefreshAll | RefreshPath string
  | EnsureExpanded string | CollapseAll | TreeAnswer nat "string option + TreeEntry list"

record tree_run =
  tr_panel :: tree_panel
  tr_pending :: "tree_request list"
  tr_answers :: "(tree_request \<times> TreeEntry list) list"

definition requested :: "tree_run \<Rightarrow> tree_request list \<times> tree_panel \<Rightarrow> tree_run" where
  "requested s r = s\<lparr>tr_panel := snd r, tr_pending := tr_pending s @ fst r\<rparr>"

fun tree_step :: "tree_run \<Rightarrow> tree_event \<Rightarrow> tree_run" where
  "tree_step s (ChangeSession i) = requested s (map_prod (\<lambda>r. [r]) id (change_tree_session i (tr_panel s)))"
| "tree_step s ToggleHidden = requested s (map_prod (\<lambda>r. [r]) id (toggleHidden (tr_panel s)))"
| "tree_step s (Toggle eager p) =
     requested s (map_prod (\<lambda>r. case r of Some x \<Rightarrow> [x] | None \<Rightarrow> []) id (toggle_path eager p (tr_panel s)))"
| "tree_step s RefreshAll = requested s (refreshAll (tr_panel s))"
| "tree_step s (RefreshPath p) = requested s (map_prod (\<lambda>r. [r]) id (refreshPath p (tr_panel s)))"
| "tree_step s (EnsureExpanded p) = s\<lparr>tr_panel := ensureExpanded p (tr_panel s)\<rparr>"
| "tree_step s CollapseAll = s\<lparr>tr_panel := collapseAll (tr_panel s)\<rparr>"
| "tree_step s (TreeAnswer i result) =
     (if i < length (tr_pending s)
      then let r = tr_pending s ! i
           in s\<lparr>tr_panel := fetchPath_done r result (tr_panel s),
                tr_pending := take i (tr_pending s) @ drop (i + 1) (tr_pending s),
                tr_answers := tr_answers s @ (case result of Inr es \<Rightarrow> [(r, es)] | Inl m \<Rightarrow> [])\<rparr>
      else s)"

definition current_request :: "tree_panel \<Rightarrow> tree_request \<Rightarrow> bool" where
  "current_request t r \<longleftrightarrow> rq_generation r \<le> tp_generation t \<and>
     (rq_generation r = tp_generation t \<longrightarrow> rq_session r = tp_session t \<and> rq_hidden r = tp_showHidden t)"

text \<open>A listing that is shown answered a request for its path, in the session and setting that are shown.\<close>

definition answered :: "(tree_request \<times> TreeEntry list) list \<Rightarrow> tree_panel \<Rightarrow> string \<Rightarrow> node_state \<Rightarrow> bool" where
  "answered got t p n \<longleftrightarrow> (tn_loaded n \<longrightarrow> (\<exists>r. (r, tn_entries n) \<in> set got \<and> rq_path r = p \<and>
     rq_session r = tp_session t \<and> rq_hidden r = tp_showHidden t))"

definition panel_ok :: "tree_run \<Rightarrow> bool" where
  "panel_ok s \<longleftrightarrow> list_all (current_request (tr_panel s)) (tr_pending s) \<and>
     (\<forall>p n. mget (tp_nodes (tr_panel s)) p = Some n \<longrightarrow> answered (tr_answers s) (tr_panel s) p n)"

lemma setNode_fields [simp]:
  "tp_session (setNode p f t) = tp_session t" "tp_showHidden (setNode p f t) = tp_showHidden t"
  "tp_generation (setNode p f t) = tp_generation t" "tp_expanded (setNode p f t) = tp_expanded t"
  by (simp_all add: setNode_def)

lemma current_setNode [simp]: "current_request (setNode p f t) = current_request t"
  by (rule ext) (simp add: current_request_def)

lemma answered_setNode [simp]: "answered got (setNode p f t) = answered got t"
  by (intro ext) (simp add: answered_def)

lemma answered_more: "answered got t p n \<Longrightarrow> answered (got @ got') t p n"
  by (auto simp: answered_def)

lemma nodes_setNode:
  "mget (tp_nodes (setNode p f t)) q =
     (if q = p then Some (f (case mget (tp_nodes t) p of Some n \<Rightarrow> n | None \<Rightarrow> blank_node)) else mget (tp_nodes t) q)"
  by (simp add: setNode_def)

text \<open>Starting a fetch keeps the invariant.\<close>

lemma fetch_ok:
  assumes "panel_ok s" and "fetchPath p (tr_panel s) = (r, t)"
  shows "panel_ok (s\<lparr>tr_panel := t, tr_pending := tr_pending s @ [r]\<rparr>)"
proof -
  let ?f = "\<lambda>n. n\<lparr>tn_loading := True, tn_error := None\<rparr>"
  have t: "t = setNode p ?f (tr_panel s)" and r: "current_request (tr_panel s) r"
    using assms(2) by (auto simp: fetchPath_def current_request_def)
  have "answered (tr_answers s) (tr_panel s) q n" if "mget (tp_nodes t) q = Some n" for q n
    using that assms(1) unfolding t
    by (auto simp: nodes_setNode panel_ok_def answered_def blank_node_def split: if_splits option.splits)
  with assms(1) t r show ?thesis by (simp add: panel_ok_def list_all_iff)
qed

lemma fetch_all_ok:
  "panel_ok s \<Longrightarrow> fetch_all ps (tr_panel s) = (rs, t) \<Longrightarrow>
     panel_ok (s\<lparr>tr_panel := t, tr_pending := tr_pending s @ rs\<rparr>)"
proof (induction ps arbitrary: s rs t)
  case (Cons p ps)
  obtain r t1 where f: "fetchPath p (tr_panel s) = (r, t1)" by fastforce
  obtain rs' t2 where g: "fetch_all ps t1 = (rs', t2)" by fastforce
  from Cons.IH [OF fetch_ok [OF Cons.prems(1) f], of rs' t2] g Cons.prems(2) f show ?case by simp
qed simp

lemma current_expanded [simp]: "current_request (t\<lparr>tp_expanded := e\<rparr>) = current_request t"
  by (rule ext) (simp add: current_request_def)

lemma expanded_ok: "panel_ok s \<Longrightarrow> panel_ok (s\<lparr>tr_panel := (tr_panel s)\<lparr>tp_expanded := e\<rparr>\<rparr>)"
  by (simp add: panel_ok_def answered_def)

text \<open>A new generation forgets the listings and outdates every request.\<close>

lemma generation_ok:
  assumes "panel_ok s" and "new_generation (t\<lparr>tp_generation := tp_generation (tr_panel s)\<rparr>) = (r, t')"
  shows "panel_ok (s\<lparr>tr_panel := t', tr_pending := tr_pending s @ [r]\<rparr>)"
proof -
  let ?t = "t\<lparr>tp_nodes := [], tp_expanded := [ROOT_PATH], tp_generation := tp_generation (tr_panel s) + 1\<rparr>"
  have "panel_ok (s\<lparr>tr_panel := ?t\<rparr>)"
    using assms(1) by (auto simp: panel_ok_def current_request_def list_all_iff)
  moreover have "fetchPath ROOT_PATH (tr_panel (s\<lparr>tr_panel := ?t\<rparr>)) = (r, t')"
    using assms(2) by (simp add: new_generation_def)
  ultimately have "panel_ok ((s\<lparr>tr_panel := ?t\<rparr>)\<lparr>tr_panel := t', tr_pending := tr_pending s @ [r]\<rparr>)"
    using fetch_ok [of "s\<lparr>tr_panel := ?t\<rparr>" ROOT_PATH r t'] by simp
  then show ?thesis by simp
qed

lemma answer_ok:
  assumes "panel_ok s" and "i < length (tr_pending s)"
  shows "panel_ok (tree_step s (TreeAnswer i result))"
proof -
  let ?r = "tr_pending s ! i" and ?t = "tr_panel s"
  have cur: "current_request ?t ?r" using assms by (simp add: panel_ok_def list_all_length)
  have rest: "list_all (current_request ?t) (take i (tr_pending s) @ drop (i + 1) (tr_pending s))"
    using assms(1) by (auto simp: panel_ok_def list_all_iff dest: in_set_takeD in_set_dropD)
  show ?thesis
  proof (cases "rq_generation ?r = tp_generation ?t")
    case False
    with assms rest show ?thesis
      by (auto simp: fetchPath_done_def panel_ok_def Let_def intro: answered_more)
  next
    case True
    with cur have r: "rq_session ?r = tp_session ?t" "rq_hidden ?r = tp_showHidden ?t" by (auto simp: current_request_def)
    show ?thesis
    proof (cases result)
      case (Inl m)
      with True assms rest show ?thesis
        by (auto simp: fetchPath_done_def panel_ok_def Let_def nodes_setNode answered_def blank_node_def split: option.splits)
    next
      case (Inr es)
      have "answered (tr_answers s @ [(?r, es)]) ?t (rq_path ?r) n" if "tn_entries n = es" for n
        using r that by (auto simp: answered_def)
      moreover have "answered (tr_answers s @ [(?r, es)]) ?t p n" if "mget (tp_nodes ?t) p = Some n" for p n
        using that assms(1) by (auto simp: panel_ok_def intro: answered_more)
      ultimately show ?thesis
        using True assms rest Inr by (auto simp: fetchPath_done_def panel_ok_def Let_def nodes_setNode)
    qed
  qed
qed

interpretation tree_panel_run: machine tree_step panel_ok
proof
  show "panel_ok (tree_step s e)" if ok: "panel_ok s" for s e
  proof (cases e)
    case (ChangeSession i)
    obtain r t where n: "change_tree_session i (tr_panel s) = (r, t)" by fastforce
    with generation_ok [OF ok, of "(tr_panel s)\<lparr>tp_session := i\<rparr>" r t] ChangeSession show ?thesis
      by (simp add: requested_def change_tree_session_def)
  next
    case ToggleHidden
    obtain r t where n: "toggleHidden (tr_panel s) = (r, t)" by fastforce
    with generation_ok [OF ok, of "(tr_panel s)\<lparr>tp_showHidden := \<not> tp_showHidden (tr_panel s)\<rparr>" r t] ToggleHidden
    show ?thesis by (simp add: requested_def toggleHidden_def)
  next
    case (Toggle eager p)
    let ?e = "if p \<in> set (tp_expanded (tr_panel s)) then removeAll p (tp_expanded (tr_panel s)) else tp_expanded (tr_panel s) @ [p]"
    let ?s = "s\<lparr>tr_panel := (tr_panel s)\<lparr>tp_expanded := ?e\<rparr>\<rparr>"
    obtain r t where f: "fetchPath p (tr_panel ?s) = (r, t)" by fastforce
    from expanded_ok [OF ok] have "panel_ok ?s" .
    moreover from fetch_ok [OF this f] have "panel_ok (s\<lparr>tr_panel := t, tr_pending := tr_pending s @ [r]\<rparr>)" by simp
    moreover have "toggle_path eager p (tr_panel s) \<in> {(None, tr_panel ?s), (Some r, t)}"
      using f by (cases "p \<in> set (tp_expanded (tr_panel s))"; cases "mget (tp_nodes (tr_panel s)) p")
        (simp_all add: toggle_path_def Let_def)
    ultimately show ?thesis using Toggle by (auto simp: requested_def)
  next
    case RefreshAll
    obtain rs t where "fetch_all (tp_expanded (tr_panel s)) (tr_panel s) = (rs, t)" by fastforce
    with fetch_all_ok [OF ok this] RefreshAll show ?thesis by (simp add: requested_def refreshAll_def)
  next
    case (RefreshPath p)
    obtain r t where "fetchPath p (tr_panel s) = (r, t)" by fastforce
    with fetch_ok [OF ok this] RefreshPath show ?thesis by (simp add: requested_def refreshPath_def)
  next
    case (EnsureExpanded p)
    with ok expanded_ok [OF ok] show ?thesis by (auto simp: ensureExpanded_def)
  next
    case CollapseAll
    with expanded_ok [OF ok] show ?thesis by (simp add: collapseAll_def)
  next
    case (TreeAnswer i result)
    with ok answer_ok [OF ok, of i result] show ?thesis by (cases "i < length (tr_pending s)") auto
  qed
qed

definition start_tree :: "string \<Rightarrow> tree_run" where
  "start_tree i = \<lparr>tr_panel = snd (open_tree i), tr_pending = [fst (open_tree i)], tr_answers = []\<rparr>"

text \<open>
  C23. The tree never shows a listing of another session: whatever the user does and in whatever
  order the answers arrive, every directory shown as loaded shows the entries that some request for
  that path got, made in the session and with the setting of hidden files that are shown now. (This is
  for calls of the hook's own current callbacks; a handler that kept an old one is in the theory PanelProps.)
\<close>

theorem tree_shows_its_session:
  "panel_ok (foldl tree_step (start_tree i) es)"
  by (rule tree_panel_run.run_good)
    (simp add: panel_ok_def start_tree_def open_tree_def new_generation_def fetchPath_def current_request_def
      nodes_setNode answered_def blank_node_def)

text \<open>Closing a directory whose listing failed fetches it again when the updater is run late.\<close>

lemma late_toggle_refetches:
  "mget (tp_nodes t) p = Some (blank_node\<lparr>tn_error := Some m\<rparr>) \<Longrightarrow> p \<in> set (tp_expanded t) \<Longrightarrow>
     fst (toggle_path True p t) = None \<and> fst (toggle_path False p t) \<noteq> None"
  by (simp add: toggle_path_def blank_node_def Let_def fetchPath_def)

end
