(* ===== verification/WorkflowRuns.thy ===== *)
theory WorkflowRuns
  imports Accumulator WebClient
begin

text \<open>
  Watching a run of a workflow (\<open>features/workflows/hooks/use-workflow-run.ts\<close>,
  \<open>types/workflow.ts\<close>): starting, viewing, cancelling and resuming a run, and the socket over which
  the states of its nodes arrive. Requests are cut at their await; the sockets that the hook has
  opened are kept beside the one it remembers, since closing one is only complete when the browser
  says so.
\<close>

section \<open>Runs\<close>

definition TERMINAL_RUN_STATUSES :: "string list" where
  "TERMINAL_RUN_STATUSES = [''completed'', ''failed'', ''cancelled'']"

record WorkflowNodeRun =
  wn_node_id :: string
  wn_node_type :: string
  wn_status :: string
  wn_input :: "json option"
  wn_output :: "json option"
  wn_error :: "string option"
  wn_session_id :: "string option"

text \<open>\<open>node_runs\<close> is missing or null in lists.\<close>

record WorkflowRun =
  wr_id :: string
  wr_status :: string
  wr_error :: "string option"
  wr_node_runs :: "WorkflowNodeRun list option"

record NodeRunData =
  nr_status :: string
  nr_node_type :: "string option"
  nr_input :: "json option"
  nr_output :: "json option"
  nr_error :: "string option"
  nr_session :: "string option"

definition null_or :: "json option \<Rightarrow> json" where
  "null_or v = (case v of Some x \<Rightarrow> x | None \<Rightarrow> JNull)"

definition nodeRunToState :: "WorkflowNodeRun \<Rightarrow> NodeRunData" where
  "nodeRunToState n = \<lparr>nr_status = wn_status n, nr_node_type = Some (wn_node_type n), nr_input = Some (null_or (wn_input n)),
     nr_output = Some (null_or (wn_output n)), nr_error = wn_error n, nr_session = wn_session_id n\<rparr>"

text \<open>A socket: the run it is for, and whether \<open>close\<close> was called on it.\<close>

record run_socket =
  rk_id :: nat
  rk_run :: string
  rk_closing :: bool

record run_hook =
  rh_runId :: "string option"
  rh_status :: string
  rh_nodeStatuses :: "(string, string) jmap"
  rh_nodeData :: "(string, NodeRunData) jmap"
  rh_error :: "string option"
  rh_wsRef :: "nat option"
  rh_sockets :: "run_socket list"
  rh_next :: nat

definition newRunHook :: run_hook where
  "newRunHook = \<lparr>rh_runId = None, rh_status = ''idle'', rh_nodeStatuses = [], rh_nodeData = [], rh_error = None,
     rh_wsRef = None, rh_sockets = [], rh_next = 0\<rparr>"

definition reset_run :: "run_hook \<Rightarrow> run_hook" where
  "reset_run h = h\<lparr>rh_nodeStatuses := [], rh_nodeData := [], rh_error := None\<rparr>"

definition applyStaticRun :: "WorkflowRun \<Rightarrow> run_hook \<Rightarrow> run_hook" where
  "applyStaticRun run h =
     (let nrs = (case wr_node_runs run of Some ns \<Rightarrow> ns | None \<Rightarrow> [])
      in h\<lparr>rh_runId := Some (wr_id run), rh_status := wr_status run,
           rh_nodeStatuses := foldl (\<lambda>m n. mput (wn_node_id n) (wn_status n) m) [] nrs,
           rh_nodeData := foldl (\<lambda>m n. mput (wn_node_id n) (nodeRunToState n) m) [] nrs,
           rh_error := wr_error run\<rparr>)"

definition connectWs :: "string \<Rightarrow> run_hook \<Rightarrow> run_hook" where
  "connectWs runId h = h\<lparr>rh_wsRef := Some (rh_next h),
     rh_sockets := rh_sockets h @ [\<lparr>rk_id = rh_next h, rk_run = runId, rk_closing = False\<rparr>], rh_next := rh_next h + 1\<rparr>"

definition close_ws :: "nat \<Rightarrow> run_hook \<Rightarrow> run_hook" where
  "close_ws i h = h\<lparr>rh_sockets := map (\<lambda>k. if rk_id k = i then k\<lparr>rk_closing := True\<rparr> else k) (rh_sockets h)\<rparr>"

text \<open>\<open>if (wsRef.current) { wsRef.current.close(); wsRef.current = null; }\<close>\<close>

definition close_current :: "run_hook \<Rightarrow> run_hook" where
  "close_current h = (case rh_wsRef h of Some i \<Rightarrow> (close_ws i h)\<lparr>rh_wsRef := None\<rparr> | None \<Rightarrow> h)"

section \<open>Messages\<close>

text \<open>The two messages; a field that is missing is none, and null is the value \<open>JNull\<close>.\<close>

record node_message =
  nm_node_id :: string
  nm_status :: string
  nm_node_type :: "string option"
  nm_input :: "json option"
  nm_output :: "json option"
  nm_error :: "string option"
  nm_session_id :: "string option"

datatype run_message = NodeStatus node_message | RunStatus string "string option" | OtherMessage

definition merge_node :: "node_message \<Rightarrow> NodeRunData option \<Rightarrow> NodeRunData" where
  "merge_node m prev =
     \<lparr>nr_status = nm_status m,
      nr_node_type = (case nm_node_type m of Some t \<Rightarrow> Some t | None \<Rightarrow> Option.bind prev nr_node_type),
      nr_input = (case nm_input m of Some v \<Rightarrow> Some v | None \<Rightarrow> Option.bind prev nr_input),
      nr_output = (case nm_output m of Some v \<Rightarrow> Some v | None \<Rightarrow> Option.bind prev nr_output),
      nr_error = (if truthy (nm_error m) then nm_error m else Option.bind prev nr_error),
      nr_session = (if truthy (nm_session_id m) then nm_session_id m else Option.bind prev nr_session)\<rparr>"

text \<open>A message on a socket: the browser delivers it unless \<open>close\<close> was called.\<close>

definition run_onmessage :: "nat \<Rightarrow> run_message \<Rightarrow> run_hook \<Rightarrow> run_hook" where
  "run_onmessage i m h =
     (if \<not> list_ex (\<lambda>k. rk_id k = i \<and> \<not> rk_closing k) (rh_sockets h) then h
      else (case m of
              NodeStatus d \<Rightarrow>
                h\<lparr>rh_nodeStatuses := mput (nm_node_id d) (nm_status d) (rh_nodeStatuses h),
                  rh_nodeData := mput (nm_node_id d) (merge_node d (mget (rh_nodeData h) (nm_node_id d))) (rh_nodeData h),
                  rh_error := (if truthy (nm_error d) then nm_error d else rh_error h)\<rparr>
            | RunStatus st err \<Rightarrow>
                let h' = h\<lparr>rh_status := st, rh_error := (if truthy err then err else rh_error h)\<rparr>
                in if st \<in> set TERMINAL_RUN_STATUSES then close_ws i h' else h'
            | OtherMessage \<Rightarrow> h))"

definition run_onerror :: "run_hook \<Rightarrow> run_hook" where
  "run_onerror h = h\<lparr>rh_error := Some ''WebSocket connection failed''\<rparr>"

definition run_onclose :: "nat \<Rightarrow> run_hook \<Rightarrow> run_hook" where
  "run_onclose i h =
     (if list_ex (\<lambda>k. rk_id k = i) (rh_sockets h)
      then h\<lparr>rh_wsRef := None, rh_sockets := filter (\<lambda>k. rk_id k \<noteq> i) (rh_sockets h)\<rparr> else h)"

section \<open>Operations\<close>

definition isRunning :: "run_hook \<Rightarrow> bool" where
  "isRunning h \<longleftrightarrow> rh_status h = ''running'' \<or> rh_status h = ''pending''"

definition canResume :: "run_hook \<Rightarrow> bool" where
  "canResume h \<longleftrightarrow> truthy (rh_runId h) \<and> rh_status h \<in> set TERMINAL_RUN_STATUSES"

text \<open>A call of \<open>trigger\<close>: whether a request is made. A React event is not taken as trigger data.\<close>

definition trigger_call :: "run_hook \<Rightarrow> bool \<times> run_hook" where
  "trigger_call h = (if isRunning h then (False, h) else (True, reset_run (h\<lparr>rh_status := ''pending''\<rparr>)))"

definition trigger_data :: "json option \<Rightarrow> json" where
  "trigger_data d =
     (case d of
        Some (JObj kvs) \<Rightarrow> if map_of kvs ''nativeEvent'' = None then JObj kvs else JObj []
      | Some (JArr xs) \<Rightarrow> JArr xs
      | _ \<Rightarrow> JObj [])"

text \<open>The answer: the new run, or the message of the error when it is an \<open>Error\<close>.\<close>

definition started :: "string \<Rightarrow> string option + WorkflowRun \<Rightarrow> run_hook \<Rightarrow> run_hook" where
  "started failure result h =
     (case result of
        Inr run \<Rightarrow>
          let h' = h\<lparr>rh_runId := Some (wr_id run), rh_status := wr_status run\<rparr>
          in if wr_status run \<notin> set TERMINAL_RUN_STATUSES then connectWs (wr_id run) h' else h'
      | Inl err \<Rightarrow> h\<lparr>rh_status := ''failed'', rh_error := Some (case err of Some m \<Rightarrow> m | None \<Rightarrow> failure)\<rparr>)"

definition trigger_done :: "string option + WorkflowRun \<Rightarrow> run_hook \<Rightarrow> run_hook" where
  "trigger_done = started ''Failed to start run''"

definition viewRun_call :: "run_hook \<Rightarrow> run_hook" where
  "viewRun_call h = reset_run (close_current h)"

definition viewRun_done :: "string \<Rightarrow> string option + WorkflowRun \<Rightarrow> run_hook \<Rightarrow> run_hook" where
  "viewRun_done runId result h =
     (case result of
        Inr run \<Rightarrow> if wr_status run \<in> set TERMINAL_RUN_STATUSES then applyStaticRun run h
                  else connectWs runId (applyStaticRun run h)
      | Inl err \<Rightarrow> h\<lparr>rh_error := Some (case err of Some m \<Rightarrow> m | None \<Rightarrow> ''Failed to load run'')\<rparr>)"

definition cancel_run :: "run_hook \<Rightarrow> string option" where
  "cancel_run h = (if \<not> truthy (rh_runId h) \<or> rh_status h \<noteq> ''running'' then None else rh_runId h)"

definition resume_call :: "run_hook \<Rightarrow> string option \<times> run_hook" where
  "resume_call h =
     (if \<not> canResume h then (None, h)
      else (rh_runId h, (reset_run (close_current h))\<lparr>rh_status := ''pending''\<rparr>))"

definition resume_done :: "string option + WorkflowRun \<Rightarrow> run_hook \<Rightarrow> run_hook" where
  "resume_done = started ''Failed to resume''"

definition leave_run :: "run_hook \<Rightarrow> run_hook" where
  "leave_run h = (case rh_wsRef h of Some i \<Rightarrow> close_ws i h | None \<Rightarrow> h)"

section \<open>What holds\<close>

text \<open>A stored run is shown node by node as it was stored; the last entry of a node counts.\<close>

lemma find_append: "find P (xs @ ys) = (case find P xs of Some x \<Rightarrow> Some x | None \<Rightarrow> find P ys)"
  by (induction xs) auto

lemma fold_put:
  "mget (foldl (\<lambda>m n. mput (f n) (g n) m) m0 ns) k =
     (case find (\<lambda>n. f n = k) (rev ns) of Some n \<Rightarrow> Some (g n) | None \<Rightarrow> mget m0 k)"
  by (induction ns arbitrary: m0) (auto simp: find_append split: option.split)

lemma static_run_shown:
  "mget (rh_nodeData (applyStaticRun run h)) k =
     map_option nodeRunToState (find (\<lambda>n. wn_node_id n = k) (rev (case wr_node_runs run of Some ns \<Rightarrow> ns | None \<Rightarrow> [])))"
  by (simp add: applyStaticRun_def Let_def fold_put split: option.split)

text \<open>The statuses and the data of the nodes tell the same.\<close>

definition statuses_agree :: "run_hook \<Rightarrow> bool" where
  "statuses_agree h \<longleftrightarrow> (\<forall>k. mget (rh_nodeStatuses h) k = map_option nr_status (mget (rh_nodeData h) k))"

datatype run_event =
    Trigger | TriggerDone "string option + WorkflowRun" | ViewRun | ViewRunDone string "string option + WorkflowRun"
  | Resume | ResumeDone "string option + WorkflowRun" | RunMessage nat run_message | RunError | RunClosed nat | LeaveRun

fun run_step :: "run_hook \<Rightarrow> run_event \<Rightarrow> run_hook" where
  "run_step h Trigger = snd (trigger_call h)"
| "run_step h (TriggerDone r) = trigger_done r h"
| "run_step h ViewRun = viewRun_call h"
| "run_step h (ViewRunDone i r) = viewRun_done i r h"
| "run_step h Resume = snd (resume_call h)"
| "run_step h (ResumeDone r) = resume_done r h"
| "run_step h (RunMessage i m) = run_onmessage i m h"
| "run_step h RunError = run_onerror h"
| "run_step h (RunClosed i) = run_onclose i h"
| "run_step h LeaveRun = leave_run h"

lemma close_nodes [simp]:
  "rh_nodeStatuses (close_ws i h) = rh_nodeStatuses h" "rh_nodeData (close_ws i h) = rh_nodeData h"
  "rh_nodeStatuses (connectWs r h) = rh_nodeStatuses h" "rh_nodeData (connectWs r h) = rh_nodeData h"
  by (simp_all add: close_ws_def connectWs_def)

lemma static_agree: "statuses_agree (applyStaticRun run h)"
  unfolding statuses_agree_def applyStaticRun_def Let_def
  by (simp add: fold_put nodeRunToState_def split: option.split)

interpretation run_statuses: machine run_step statuses_agree
proof
  show "statuses_agree (run_step h e)" if ok: "statuses_agree h" for h e
  proof (cases e)
    case (ViewRunDone i r)
    have "statuses_agree (connectWs i (applyStaticRun run h))" for run
      using static_agree [of run h] by (simp add: statuses_agree_def)
    with ViewRunDone ok static_agree [of _ h] show ?thesis
      by (auto simp: viewRun_done_def statuses_agree_def split: sum.split)
  next
    case (RunMessage i m)
    with ok show ?thesis
      by (auto simp: run_onmessage_def statuses_agree_def merge_node_def Let_def split: run_message.split)
  qed (use ok in \<open>auto simp: statuses_agree_def trigger_call_def trigger_done_def started_def viewRun_call_def
      resume_call_def resume_done_def run_onerror_def run_onclose_def leave_run_def reset_run_def close_current_def Let_def
      split: option.split sum.split\<close>)
qed

text \<open>
  The colour of a node and its details never disagree: after any calls, answers, messages and
  socket events, the status shown for a node is the status in its data, and a node has one iff it
  has the other.
\<close>

theorem node_statuses_agree:
  "statuses_agree (foldl run_step newRunHook es)"
  by (rule run_statuses.run_good) (simp add: statuses_agree_def newRunHook_def)

definition live_run :: "string \<Rightarrow> WorkflowRun" where
  "live_run i = \<lparr>wr_id = i, wr_status = ''running'', wr_error = None, wr_node_runs = None\<rparr>"

definition node_update :: "string \<Rightarrow> run_message" where
  "node_update i = NodeStatus \<lparr>nm_node_id = i, nm_status = ''failed'', nm_node_type = None, nm_input = None, nm_output = None,
     nm_error = None, nm_session_id = None\<rparr>"

text \<open>
  A closed socket can hide its successor: \<open>onclose\<close> clears the remembered socket even when that
  is a newer one. View one live run after another, let the close of the first socket complete, and
  view a third: the socket of the second run is never closed, and its messages change what is shown
  for the third.
\<close>

theorem late_close_mixes_runs:
  "\<exists>h. h = foldl run_step newRunHook
       [ViewRun, ViewRunDone ''a'' (Inr (live_run ''a'')), ViewRun, ViewRunDone ''b'' (Inr (live_run ''b'')), RunClosed 0,
        ViewRun, ViewRunDone ''c'' (Inr (live_run ''c''))] \<and>
     rh_runId h = Some ''c'' \<and> rh_nodeStatuses h = [] \<and>
     map rk_run (filter (\<lambda>k. \<not> rk_closing k) (rh_sockets h)) = [''b'', ''c''] \<and>
     rh_nodeStatuses (run_step h (RunMessage 1 (node_update ''n''))) = [(''n'', ''failed'')]"
  unfolding live_run_def node_update_def by (rule exI, rule conjI, rule refl) code_simp

end
