(* ===== verification/ChatText.thy ===== *)
theory ChatText
  imports ChatBlocks
begin

text \<open>
  Texts the web client makes: the HTML of an exported chat (\<open>features/chat/lib/export-formats.ts\<close>),
  the one-line summary of a tool's input (\<open>components/blocks/tool-input-summary.ts\<close>), and the
  formats of \<open>lib/utils/format.ts\<close>, \<open>features/chat/lib/relative-time.ts\<close> and \<open>lib/tone.ts\<close>.
  Parameters: the Markdown renderer, \<open>JSON.stringify\<close>, \<open>String\<close> of a value that is not a string, and
  what the browser's locale and time zone make of a date.
\<close>

section \<open>The exported chat\<close>

definition MAX_TOOL_RESULT_CHARS :: nat where "MAX_TOOL_RESULT_CHARS = 2000"

definition escape_char :: "char \<Rightarrow> string" where
  "escape_char c =
     (if c = CHR ''&'' then ''&amp;'' else if c = CHR ''<'' then ''&lt;'' else if c = CHR ''>'' then ''&gt;''
      else if c = CHR 0x22 then ''&quot;'' else if c = CHR 0x27 then ''&#39;'' else [c])"

definition escapeHtml :: "string \<Rightarrow> string" where
  "escapeHtml s = concat (map escape_char s)"

definition dq :: string where "dq = [CHR 0x22]"
definition nl :: string where "nl = [CHR 0x0A]"

text \<open>\<open>Object.keys(v).length > 0\<close>.\<close>

fun has_keys :: "json \<Rightarrow> bool" where
  "has_keys (JObj kvs) = (kvs \<noteq> [])"
| "has_keys (JArr xs) = (xs \<noteq> [])"
| "has_keys (JStr s) = (s \<noteq> [])"
| "has_keys _ = False"

definition short_result :: "string \<Rightarrow> string" where
  "short_result r =
     (if MAX_TOOL_RESULT_CHARS < length r then take MAX_TOOL_RESULT_CHARS r @ nl @ ''...'' else r)"

definition tool_head :: "(json \<Rightarrow> string) \<Rightarrow> ToolCallBlock \<Rightarrow> nat \<Rightarrow> string list" where
  "tool_head stringify t indent =
     [''<div class='' @ dq @ ''tool-block'' @ dq @ '' style='' @ dq @ ''margin-left:'' @ nat_string (indent * 12) @ ''px'' @ dq @ ''>'',
      ''<strong>Tool: '' @ escapeHtml (tc_name t) @ ''</strong>'' @ (if tc_is_error t = Some True then '' [ERROR]'' else [])]
     @ (if has_keys (tc_input t) then [''<pre>'' @ escapeHtml (stringify (tc_input t)) @ ''</pre>''] else [])
     @ (case tc_result t of Some r \<Rightarrow> [''<pre>'' @ escapeHtml (short_result r) @ ''</pre>''] | None \<Rightarrow> [])"

fun renderToolHtml :: "(json \<Rightarrow> string) \<Rightarrow> nat \<Rightarrow> BlockTree \<Rightarrow> string list" where
  "renderToolHtml stringify indent (Node t cs) =
     [join nl (tool_head stringify t indent @ concat (map (renderToolHtml stringify (indent + 1)) cs) @ [''</div>''])]"
| "renderToolHtml stringify indent (Leaf b) = []"

fun renderBlockHtml :: "(json \<Rightarrow> string) \<Rightarrow> (string \<Rightarrow> string) \<Rightarrow> BlockTree \<Rightarrow> string" where
  "renderBlockHtml stringify mdToHtml (Node t cs) = concat (renderToolHtml stringify 0 (Node t cs))"
| "renderBlockHtml stringify mdToHtml (Leaf (ThinkingBlock i c)) =
     ''<div class='' @ dq @ ''thinking'' @ dq @ ''>Thinking: '' @
       escapeHtml (take 300 c @ (if 300 < length c then ''...'' else [])) @ ''</div>''"
| "renderBlockHtml stringify mdToHtml (Leaf (ErrorBlock i c)) =
     ''<div class='' @ dq @ ''error-block'' @ dq @ ''><strong>Error:</strong> <pre>'' @ escapeHtml c @ ''</pre></div>''"
| "renderBlockHtml stringify mdToHtml (Leaf (TextBlock i c)) =
     ''<div class='' @ dq @ ''text-block'' @ dq @ ''>'' @ mdToHtml c @ ''</div>''"
| "renderBlockHtml stringify mdToHtml (Leaf (ToolCall t)) = concat (renderToolHtml stringify 0 (Node t []))"

text \<open>An export fails on a saved block without its fields, or on a cycle, which overflows the stack.\<close>

datatype export_failure = BadBlock nat | StackOverflow

definition renderBlocksHtml ::
  "(json \<Rightarrow> string) \<Rightarrow> (json \<Rightarrow> string) \<Rightarrow> (string \<Rightarrow> string) \<Rightarrow> json list \<Rightarrow> export_failure + string" where
  "renderBlocksHtml to_str stringify mdToHtml blocks =
     (case restoreBlocks to_str blocks False None of
        Inl i \<Rightarrow> Inl (BadBlock i)
      | Inr None \<Rightarrow> Inl StackOverflow
      | Inr (Some ts) \<Rightarrow> Inr (join nl (map (renderBlockHtml stringify mdToHtml) ts)))"

record ExportableMessage =
  xm_user :: bool
  xm_content :: string
  xm_blocks :: "json list"

definition message_html ::
  "(json \<Rightarrow> string) \<Rightarrow> (json \<Rightarrow> string) \<Rightarrow> (string \<Rightarrow> string) \<Rightarrow> ExportableMessage \<Rightarrow> export_failure + string" where
  "message_html to_str stringify mdToHtml m =
     map_sum id (\<lambda>body. ''<section><h3>'' @ escapeHtml (if xm_user m then ''User'' else ''Agent'') @ ''</h3>'' @ body @ ''</section>'')
       (if xm_blocks m \<noteq> [] then renderBlocksHtml to_str stringify mdToHtml (xm_blocks m)
        else Inr (''<div class='' @ dq @ ''text-block'' @ dq @ ''>'' @ mdToHtml (xm_content m) @ ''</div>''))"

fun messages_html :: "(ExportableMessage \<Rightarrow> export_failure + string) \<Rightarrow> ExportableMessage list \<Rightarrow> export_failure + string list" where
  "messages_html f [] = Inr []"
| "messages_html f (m # ms) =
     (case f m of
        Inl e \<Rightarrow> Inl e
      | Inr h \<Rightarrow> map_sum id (\<lambda>hs. h # hs) (messages_html f ms))"

definition buildExportHTML ::
  "(json \<Rightarrow> string) \<Rightarrow> (json \<Rightarrow> string) \<Rightarrow> (string \<Rightarrow> string) \<Rightarrow> ExportableMessage list \<Rightarrow> string \<Rightarrow> export_failure + string" where
  "buildExportHTML to_str stringify mdToHtml messages title =
     map_sum id (\<lambda>hs. ''<h1>'' @ escapeHtml title @ ''</h1>'' @ join ''<hr />'' hs)
       (messages_html (message_html to_str stringify mdToHtml) messages)"

section \<open>The summary of a tool's input\<close>

text \<open>\<open>String(a ?? b ?? '')\<close> over the fields named.\<close>

fun first_present :: "json \<Rightarrow> string list \<Rightarrow> json option" where
  "first_present input [] = None"
| "first_present input (k # ks) =
     (case present (jget input k) of Some v \<Rightarrow> Some v | None \<Rightarrow> first_present input ks)"

definition string_of_first :: "(json \<Rightarrow> string) \<Rightarrow> json \<Rightarrow> string list \<Rightarrow> string" where
  "string_of_first to_str input ks = (case first_present input ks of Some v \<Rightarrow> js_string to_str v | None \<Rightarrow> [])"

text \<open>\<open>s.replace(/^.*\//, "")\<close>: up to the last slash of the first line.\<close>

definition after_last_slash :: "string \<Rightarrow> string" where
  "after_last_slash s =
     (let line = takeWhile (\<lambda>c. c \<noteq> CHR 0x0A \<and> c \<noteq> CHR 0x0D) s
      in case last_index_of (CHR ''/'') line of Some i \<Rightarrow> drop (i + 1) s | None \<Rightarrow> s)"

definition A2A_PREFIX :: string where "A2A_PREFIX = ''mcp__system__a2a_''"

definition grep_parts :: "(json \<Rightarrow> string) \<Rightarrow> json \<Rightarrow> string list" where
  "grep_parts to_str input =
     (let target = (if jtruthy (jget input ''glob'') then jget input ''glob'' else jget input ''path'')
      in (if jtruthy (jget input ''pattern'') then [''/'' @ js_string to_str (the (jget input ''pattern'')) @ ''/''] else [])
         @ (if jtruthy target then [''in '' @ js_string to_str (the target)] else []))"

fun first_string :: "(string \<times> json) list \<Rightarrow> string" where
  "first_string [] = []"
| "first_string ((k, JStr s) # kvs) = s"
| "first_string ((k, v) # kvs) = first_string kvs"

definition fallback_summary :: "json \<Rightarrow> string" where
  "fallback_summary input = (case input of JObj kvs \<Rightarrow> take 60 (first_string kvs) | _ \<Rightarrow> [])"

definition summarizeToolInput :: "(json \<Rightarrow> string) \<Rightarrow> string \<Rightarrow> json \<Rightarrow> string" where
  "summarizeToolInput to_str name input =
     (if name = ''Read'' \<or> name = ''Write'' \<or> name = ''Edit''
      then after_last_slash (string_of_first to_str input [''description'', ''file_path'', ''path''])
      else if name = ''Bash'' then take 60 (string_of_first to_str input [''description'', ''command''])
      else if name = ''Grep'' then
        (if jtruthy (jget input ''description'') then take 60 (js_string to_str (the (jget input ''description'')))
         else take 60 (join '' '' (grep_parts to_str input)))
      else if name = ''Glob'' then take 60 (string_of_first to_str input [''description'', ''pattern''])
      else if name = ''WebFetch'' then take 60 (string_of_first to_str input [''description'', ''url''])
      else if name = ''Agent'' then take 60 (string_of_first to_str input [''description''])
      else if starts_with name A2A_PREFIX then
        ''@'' @ drop (length A2A_PREFIX) name @ '': '' @ take 50 (string_of_first to_str input [''message''])
      else (case (name = ''TodoWrite'', jget input ''todos'') of
              (True, Some (JArr ts)) \<Rightarrow> nat_string (length ts) @ '' item'' @ (if length ts \<noteq> 1 then ''s'' else [])
            | _ \<Rightarrow> fallback_summary input))"

section \<open>Formats\<close>

text \<open>\<open>Math.round\<close>.\<close>

definition js_round :: "rat \<Rightarrow> int" where
  "js_round x = \<lfloor>x + 1 / 2\<rfloor>"

definition int_string :: "int \<Rightarrow> string" where
  "int_string n = (if n < 0 then ''-'' @ nat_string (nat (- n)) else nat_string (nat n))"

text \<open>The time is in milliseconds; none is an invalid or missing date; \<open>short_date\<close> is the locale's.\<close>

definition formatRelativeTime :: "string \<Rightarrow> int \<Rightarrow> int option \<Rightarrow> string" where
  "formatRelativeTime short_date now_ms input =
     (case input of
        None \<Rightarrow> []
      | Some t \<Rightarrow>
          let diffSec = (now_ms - t) div 1000
          in if diffSec < 30 then ''just now''
             else if diffSec < 3600 then int_string (diffSec div 60) @ ''m ago''
             else if diffSec < 86400 then int_string (diffSec div 3600) @ ''h ago''
             else if diffSec < 86400 * 2 then ''Yesterday''
             else if diffSec < 86400 * 7 then int_string (diffSec div 86400) @ ''d ago''
             else short_date)"

definition formatTokens :: "nat \<Rightarrow> string" where
  "formatTokens n = (if n < 1000 then nat_string n else int_string (js_round (of_nat n / 1000)) @ ''k'')"

definition formatElapsed :: "rat option \<Rightarrow> string" where
  "formatElapsed seconds =
     (case seconds of
        None \<Rightarrow> []
      | Some s \<Rightarrow>
          if s < 1 then ''<1s''
          else if s < 60 then int_string (js_round s) @ ''s''
          else int_string \<lfloor>s / 60\<rfloor> @ ''m '' @ int_string (js_round (s - 60 * of_int \<lfloor>s / 60\<rfloor>)) @ ''s'')"

definition slug_char :: "char \<Rightarrow> bool" where
  "slug_char c \<longleftrightarrow> (let n = of_char c :: nat in (97 \<le> n \<and> n \<le> 122) \<or> (48 \<le> n \<and> n \<le> 57))"

text \<open>\<open>.replace(/[^a-z0-9]+/g, "-")\<close>: each run of other characters becomes one dash.\<close>

fun dash_runs :: "bool \<Rightarrow> string \<Rightarrow> string" where
  "dash_runs in_run [] = []"
| "dash_runs in_run (c # cs) =
     (if slug_char c then c # dash_runs False cs
      else if in_run then dash_runs True cs else CHR ''-'' # dash_runs True cs)"

definition trim_dash :: "string \<Rightarrow> string" where
  "trim_dash s = (case s of c # cs \<Rightarrow> if c = CHR ''-'' then cs else s | [] \<Rightarrow> [])"

text \<open>\<open>.replace(/^-|-$/g, "")\<close>. A letter outside ASCII is replaced in either case.\<close>

definition slugify :: "string \<Rightarrow> string" where
  "slugify name = rev (trim_dash (rev (trim_dash (dash_runs False (to_lower name)))))"

subsection \<open>Dividers\<close>

definition MIN_GAP_MS :: int where "MIN_GAP_MS = 10 * 60 * 1000"

definition MONTH_SHORT :: "string list" where
  "MONTH_SHORT = [''Jan'', ''Feb'', ''Mar'', ''Apr'', ''May'', ''Jun'', ''Jul'', ''Aug'', ''Sep'', ''Oct'', ''Nov'', ''Dec'']"

text \<open>A date as the time zone shows it; \<open>da_day\<close> is the time of the start of its day.\<close>

record js_date =
  da_time :: int
  da_day :: int
  da_month :: nat
  da_date :: nat
  da_hours :: nat
  da_minutes :: nat

definition pad2 :: "nat \<Rightarrow> string" where
  "pad2 n = (if n < 10 then ''0'' @ nat_string n else nat_string n)"

definition formatTime :: "js_date \<Rightarrow> string" where
  "formatTime d = pad2 (da_hours d) @ '':'' @ pad2 (da_minutes d)"

definition computeTimeDividerLabel :: "js_date \<Rightarrow> js_date \<Rightarrow> string option" where
  "computeTimeDividerLabel prev cur =
     (let gapMs = da_time cur - da_time prev
      in if gapMs \<le> 0 then None
         else if da_day prev = da_day cur then
           (if gapMs < MIN_GAP_MS then None
            else let minutes = js_round (of_int gapMs / 60000)
                 in if minutes < 60 then Some (int_string minutes @ '' min later'')
                    else let hours = js_round (of_int minutes / 60)
                         in Some (int_string hours @ '' hour'' @ (if hours = 1 then [] else ''s'') @ '' later''))
         else let dayDiff = js_round (of_int (da_day cur - da_day prev) / (24 * 60 * 60 * 1000))
              in if dayDiff = 1 then Some (''Yesterday at '' @ formatTime cur)
                 else if dayDiff \<le> 7 then Some (int_string dayDiff @ '' days ago at '' @ formatTime cur)
                 else Some (MONTH_SHORT ! da_month cur @ '' '' @ nat_string (da_date cur) @ '' at '' @ formatTime cur))"

subsection \<open>Tones\<close>

definition TONES :: "string list" where
  "TONES = [''blue'', ''green'', ''amber'', ''pink'', ''purple'', ''teal'', ''rose'', ''slate'']"

text \<open>\<open>Math.imul\<close> and \<open>>>> 0\<close> keep the hash in 32 bits.\<close>

definition tone_hash :: "string \<Rightarrow> 32 word" where
  "tone_hash s = foldl (\<lambda>h c. 31 * h + of_nat (of_char c)) 0 s"

definition toneFromId :: "string option \<Rightarrow> string" where
  "toneFromId i = (if \<not> truthy i then ''slate'' else TONES ! (unat (tone_hash (the i)) mod length TONES))"

section \<open>What holds\<close>

text \<open>The characters with a meaning in HTML.\<close>

definition markup :: "char \<Rightarrow> bool" where
  "markup c \<longleftrightarrow> c = CHR ''<'' \<or> c = CHR ''>'' \<or> c = CHR 0x22 \<or> c = CHR 0x27"

lemma escape_char_clean: "filter markup (escape_char c) = []"
  by (simp add: escape_char_def markup_def)

lemma escape_clean [simp]: "filter markup (escapeHtml s) = []"
  by (induction s) (simp_all add: escapeHtml_def escape_char_clean)

lemma digit_clean: "n < 10 \<Longrightarrow> \<not> markup (digit_char n)"
proof -
  assume "n < 10"
  then have "n \<in> {0, 1, 2, 3, 4, 5, 6, 7, 8, 9}" by auto
  then show ?thesis by (auto simp: markup_def digit_char_def char_of_def)
qed

lemma number_clean [simp]: "filter markup (nat_string n) = []"
proof (induction n rule: nat_string.induct)
  case (1 n)
  have "\<not> markup (digit_char (n mod 10))" "n < 10 \<Longrightarrow> \<not> markup (digit_char n)" by (simp_all add: digit_clean)
  with 1 show ?case unfolding nat_string.simps [of n] by (cases "n < 10") simp_all
qed

lemma join_clean: "filter markup (join nl xs) = concat (map (filter markup) xs)"
  by (induction nl xs rule: join.induct) (simp_all add: nl_def markup_def)

text \<open>The markup characters of a tool call, from its shape alone.\<close>

definition tag_marks :: string where "tag_marks = ''<><>''"

fun tool_marks :: "BlockTree \<Rightarrow> string" where
  "tool_marks (Node t cs) =
     ''<'' @ dq @ dq @ dq @ dq @ ''>'' @ tag_marks @ (if has_keys (tc_input t) then tag_marks else [])
       @ (if tc_result t \<noteq> None then tag_marks else []) @ concat (map tool_marks cs) @ ''<>''"
| "tool_marks (Leaf b) = []"

lemma literal_marks:
  "filter markup ''<div class='' = ''<''" "filter markup ''tool-block'' = []" "filter markup dq = dq"
  "filter markup '' style='' = []" "filter markup ''margin-left:'' = []" "filter markup ''px'' = []"
  "filter markup ''>'' = ''>''" "filter markup ''<strong>Tool: '' = ''<>''" "filter markup ''</strong>'' = ''<>''"
  "filter markup ''<pre>'' = ''<>''" "filter markup ''</pre>'' = ''<>''" "filter markup ''</div>'' = ''<>''"
  by code_simp+

lemma error_mark: "filter markup (if e then '' [ERROR]'' else []) = []"
proof -
  have "filter markup '' [ERROR]'' = []" by code_simp
  then show ?thesis by (cases e) (simp_all only: if_True if_False filter.simps(1))
qed

lemma tool_head_marks:
  "concat (map (filter markup) (tool_head stringify t n)) =
     ''<'' @ dq @ dq @ dq @ dq @ ''>'' @ tag_marks @ (if has_keys (tc_input t) then tag_marks else [])
       @ (if tc_result t \<noteq> None then tag_marks else [])"
proof -
  have pair: "''<>'' @ ''<>'' = tag_marks" "''<>'' @ ''<>'' @ s = tag_marks @ s" for s by (simp_all add: tag_marks_def)
  show ?thesis
    by (cases "tc_result t"; cases "has_keys (tc_input t)")
      (simp_all only: tool_head_def map_append concat_append list.map concat.simps literal_marks error_mark number_clean
        escape_clean filter_append append_Nil append_Nil2 append_assoc pair option.simps if_True if_False simp_thms
        not_False_eq_True)
qed

lemma render_marks: "filter markup (concat (renderToolHtml stringify n d)) = tool_marks d"
proof (induction d arbitrary: n)
  case (Node t cs)
  have kids: "concat (map (filter markup) (concat (map (renderToolHtml stringify (n + 1)) cs))) = concat (map tool_marks cs)"
    using Node by (induction cs) (simp_all add: filter_concat)
  show ?case
    unfolding renderToolHtml.simps concat.simps append_Nil2 join_clean map_append concat_append tool_head_marks kids
    by (simp only: list.map concat.simps literal_marks append_Nil2 append_assoc tool_marks.simps)
qed simp

text \<open>
  An exported tool call cannot inject markup: the angle brackets and quotes of its HTML are
  those of the tags that its shape asks for - nested calls, whether it has an input and a result -
  whatever is in the name, the input and the results.
\<close>

theorem exported_tool_is_escaped:
  "filter markup (concat (renderToolHtml stringify indent d)) = tool_marks d"
  by (rule render_marks)

text \<open>
  Elapsed times are exact for whole seconds, as minutes and a rest below sixty; a fraction that
  rounds up to the next minute is not carried, and 119.6 seconds are shown as 1m 60s.
\<close>

theorem elapsed_of_whole_seconds:
  "formatElapsed (Some (of_nat n)) =
     (if n = 0 then ''<1s'' else if n < 60 then nat_string n @ ''s''
      else nat_string (n div 60) @ ''m '' @ nat_string (n mod 60) @ ''s'') \<and>
   formatElapsed (Some (1196 / 10)) = ''1m 60s''"
proof
  have round: "js_round (of_nat k) = int k" for k by (simp add: js_round_def floor_eq_iff)
  have fl: "\<lfloor>(of_nat n :: rat) / 60\<rfloor> = int (n div 60)"
    using floor_divide_of_nat_eq [of n 60, where 'a = rat] by simp
  have "(of_nat n :: rat) = of_nat (60 * (n div 60) + n mod 60)" by simp
  then have rest: "(of_nat n :: rat) - 60 * of_nat (n div 60) = of_nat (n mod 60)"
    by (simp only: of_nat_add of_nat_mult of_nat_numeral add_diff_cancel_left')
  have str: "int_string (int k) = nat_string k" for k by (simp add: int_string_def)
  show "formatElapsed (Some (of_nat n)) =
     (if n = 0 then ''<1s'' else if n < 60 then nat_string n @ ''s''
      else nat_string (n div 60) @ ''m '' @ nat_string (n mod 60) @ ''s'')"
    by (auto simp: formatElapsed_def fl rest round str of_nat_less_iff [where 'a = rat, of n 60, simplified])
  show "formatElapsed (Some (1196 / 10)) = ''1m 60s''" by code_simp
qed

text \<open>
  The wrap-around of the hash does not show: the tone of an id is the one that the same
  polynomial over unbounded numbers gives, so it is the same on every machine.
\<close>

theorem tone_is_polynomial:
  "toneFromId (Some (c # s)) = TONES ! (foldl (\<lambda>h c. 31 * h + of_char c) (0 :: nat) (c # s) mod 8)"
proof -
  have step: "unat (31 * h + of_nat k :: 32 word) mod 8 = (31 * (unat h mod 8) + k) mod 8" for h and k :: nat
  proof -
    have "unat (31 * h + of_nat k :: 32 word) mod 8 = (31 * unat h + k) mod 2 ^ 32 mod 8"
      by (simp add: unat_word_ariths unat_of_nat mod_simps)
    also have "\<dots> = (31 * unat h + k) mod 8" by (simp add: mod_mod_cancel)
    also have "\<dots> = (31 * (unat h mod 8) + k) mod 8" by (metis mod_add_left_eq mod_mult_right_eq)
    finally show ?thesis .
  qed
  have "unat (foldl (\<lambda>h c. 31 * h + of_nat (of_char c)) w xs :: 32 word) mod 8 =
      foldl (\<lambda>h c. 31 * h + of_char c) k xs mod 8" if "unat w mod 8 = k mod 8" for xs :: string and w and k :: nat
    using that
  proof (induction xs arbitrary: w k)
    case (Cons x xs)
    show ?case
      unfolding foldl_Cons by (rule Cons.IH) (simp only: step Cons.prems, metis mod_add_left_eq mod_mult_right_eq)
  qed simp
  from this [of 0 0 "c # s"] show ?thesis
    by (simp add: toneFromId_def tone_hash_def TONES_def del: foldl_Cons)
qed

end
