(* ===== verification/WorkspacePanel.thy ===== *)
theory WorkspacePanel
  imports EditorProps WorkspaceTree WorkspaceProps Routes
begin

text \<open>
  The workspace panel (\<open>features/workspace/components/workspace-panel.tsx\<close>): the handlers that join
  the file tree and the editor, the dialogs they open and the requests they make. A handler is a
  closure of one render: what it reads of the tree and the editor is the argument \<open>v\<close>, the view of
  that render, while updaters run on the state as it is. A handler that awaits is cut there; what
  a dialog will call is stored as data, with the view it closes over.
\<close>

section \<open>State\<close>

text \<open>What a render gives its callbacks: session, hidden files, open directories, rows and focus.\<close>

record panel_view =
  vw_session :: string
  vw_hidden :: bool
  vw_expanded :: "string list"
  vw_rows :: "EditorRow list"
  vw_active :: string

datatype new_mode = NewFile | NewDir

text \<open>The buttons of the confirmation dialog.\<close>

datatype confirm_action =
    SaveAndClose panel_view string string
  | DiscardAndClose panel_view string "string list"
  | DeletePath panel_view string bool

record ConfirmState =
  cf_title :: string
  cf_body :: string
  cf_label :: string
  cf_danger :: bool
  cf_action :: confirm_action

record ConflictState =
  cn_view :: panel_view
  cn_pane :: string
  cn_path :: string
  cn_code :: string
  cn_currentMtime :: "rat option"

text \<open>The items of the context menus: the id and what is selected with it.\<close>

datatype menu_action =
    MClose string string | MCloseMany string "string list" | MPin string string | MSplit string string SplitDirection
  | MOpen string | MNew new_mode string | MUpload string | MDownload string | MRename string | MDelete string TreeEntry

record workspace_panel =
  wp_tree :: tree_panel
  wp_editor :: editor
  wp_refreshing :: bool
  wp_saving :: bool
  wp_error :: "string option"
  wp_menu :: "(string \<times> menu_action) list option"
  wp_conflict :: "ConflictState option"
  wp_confirm :: "ConfirmState option"
  wp_renaming :: "string option"
  wp_pendingNew :: "(string \<times> new_mode) option"
  wp_collapsed :: bool
  wp_drag :: "string option"

definition view_of :: "workspace_panel \<Rightarrow> panel_view" where
  "view_of w = \<lparr>vw_session = tp_session (wp_tree w), vw_hidden = tp_showHidden (wp_tree w),
     vw_expanded = tp_expanded (wp_tree w), vw_rows = ed_rows (wp_editor w), vw_active = ed_active (wp_editor w)\<rparr>"

definition open_panel :: "string \<Rightarrow> nat \<Rightarrow> tree_request \<times> workspace_panel" where
  "open_panel sessionId n =
     (let (r, t) = open_tree sessionId
      in (r, \<lparr>wp_tree = t, wp_editor = initialState n, wp_refreshing = False, wp_saving = False, wp_error = None,
              wp_menu = None, wp_conflict = None, wp_confirm = None, wp_renaming = None, wp_pendingNew = None,
              wp_collapsed = False, wp_drag = None\<rparr>))"

definition hasAnyTab :: "EditorRow list \<Rightarrow> bool" where
  "hasAnyTab rows = list_ex (\<lambda>r. list_ex (\<lambda>p. pane_tabs p \<noteq> []) (row_panes r)) rows"

definition editorOpen :: "workspace_panel \<Rightarrow> bool" where
  "editorOpen w \<longleftrightarrow> hasAnyTab (ed_rows (wp_editor w)) \<and> \<not> wp_collapsed w"

text \<open>A fetch of the tree made by a callback of the render \<open>v\<close>; the generation is a ref, so it is today's.\<close>

definition fetch_from :: "panel_view \<Rightarrow> string \<Rightarrow> tree_panel \<Rightarrow> tree_request \<times> tree_panel" where
  "fetch_from v path t =
     (\<lparr>rq_session = vw_session v, rq_path = path, rq_hidden = vw_hidden v, rq_generation = tp_generation t\<rparr>,
      setNode path (\<lambda>n. n\<lparr>tn_loading := True, tn_error := None\<rparr>) t)"

definition refreshParent :: "panel_view \<Rightarrow> string \<Rightarrow> workspace_panel \<Rightarrow> tree_request \<times> workspace_panel" where
  "refreshParent v p w = (let (r, t) = fetch_from v p (wp_tree w) in (r, w\<lparr>wp_tree := t\<rparr>))"

section \<open>Opening and refreshing\<close>

definition open_in_panel ::
  "panel_view \<Rightarrow> string \<Rightarrow> bool \<Rightarrow> string option \<Rightarrow> workspace_panel \<Rightarrow> load_call option \<times> workspace_panel" where
  "open_in_panel v path pin target w =
     (let (c, ed) = openFile (vw_session v) (vw_rows v, vw_active v) path pin target (wp_editor w)
      in (c, w\<lparr>wp_editor := ed, wp_collapsed := False\<rparr>))"

text \<open>
  The session changes above the panel: the tree and the editor start again; the effect of the
  panel only warns, when the rows of that render are dirty. Dialogs, errors and what is being
  renamed stay as they are.
\<close>

definition switch_session :: "string \<Rightarrow> workspace_panel \<Rightarrow> bool \<times> tree_request \<times> workspace_panel" where
  "switch_session sessionId w =
     (let (r, t) = change_tree_session sessionId (wp_tree w)
      in (hasDirty (ed_rows (wp_editor w)), r,
          w\<lparr>wp_tree := t, wp_editor := initialState (ed_counter (wp_editor w))\<rparr>))"

text \<open>\<open>refresh\<close>: the open directories first; when they have answered, the active tabs one after the other.\<close>

fun fetch_all_from :: "panel_view \<Rightarrow> string list \<Rightarrow> tree_panel \<Rightarrow> tree_request list \<times> tree_panel" where
  "fetch_all_from v [] t = ([], t)"
| "fetch_all_from v (p # ps) t =
     (let (r, t') = fetch_from v p t; (rs, t'') = fetch_all_from v ps t' in (r # rs, t''))"

definition refresh_start :: "panel_view \<Rightarrow> workspace_panel \<Rightarrow> tree_request list \<times> workspace_panel" where
  "refresh_start v w =
     (let (rs, t) = fetch_all_from v (vw_expanded v) (wp_tree w) in (rs, w\<lparr>wp_tree := t, wp_refreshing := True\<rparr>))"

definition refresh_tabs :: "panel_view \<Rightarrow> (string \<times> string) list" where
  "refresh_tabs v = List.map_filter
     (\<lambda>p. if truthy (pane_active p) then Some (pane_id p, the (pane_active p)) else None) (allPanes (vw_rows v))"

definition reload_tab :: "panel_view \<Rightarrow> string \<Rightarrow> string \<Rightarrow> workspace_panel \<Rightarrow> load_call \<times> workspace_panel" where
  "reload_tab v pid path w =
     (let (c, ed) = loadFile (vw_session v) pid path (wp_editor w) in (c, w\<lparr>wp_editor := ed\<rparr>))"

definition load_answered :: "load_call \<Rightarrow> string + load_answer \<Rightarrow> workspace_panel \<Rightarrow> workspace_panel" where
  "load_answered c ans w = w\<lparr>wp_editor := loadFile_done c ans (wp_editor w)\<rparr>"

text \<open>The loop over the tabs, given the answer each load gets before the next one starts.\<close>

fun refresh_loop ::
  "panel_view \<Rightarrow> (string \<times> string) list \<Rightarrow> (string + load_answer) list \<Rightarrow> workspace_panel \<Rightarrow> workspace_panel" where
  "refresh_loop v ((pid, path) # tabs) (a # as) w =
     (let (c, w') = reload_tab v pid path w in refresh_loop v tabs as (load_answered c a w'))"
| "refresh_loop v _ _ w = w\<lparr>wp_refreshing := False\<rparr>"

section \<open>Saving\<close>

text \<open>What \<open>doSave\<close> does with the result of \<open>editor.save\<close>, to the end of its \<open>finally\<close>.\<close>

definition after_save :: "panel_view \<Rightarrow> string \<Rightarrow> string \<Rightarrow> SaveResult \<Rightarrow> workspace_panel \<Rightarrow> workspace_panel" where
  "after_save v pid path result w =
     (case result of
        Conflict currentMtime currentSize code \<Rightarrow>
          w\<lparr>wp_saving := False,
            wp_conflict := Some \<lparr>cn_view = v, cn_pane = pid, cn_path = path, cn_code = code, cn_currentMtime = currentMtime\<rparr>\<rparr>
      | SaveError message \<Rightarrow> w\<lparr>wp_saving := False, wp_error := Some message\<rparr>
      | _ \<Rightarrow> w\<lparr>wp_saving := False\<rparr>)"

text \<open>The call: either it is over at once, or a request is awaited.\<close>

definition doSave ::
  "panel_view \<Rightarrow> string \<Rightarrow> string \<Rightarrow> rat option option \<Rightarrow> workspace_panel \<Rightarrow>
     save_body http_request option \<times> workspace_panel" where
  "doSave v pid path overrideExpected w =
     (let w1 = w\<lparr>wp_saving := True, wp_error := None\<rparr>
      in case save_call (vw_rows v) pid path overrideExpected of
           Inl result \<Rightarrow> (None, after_save v pid path result w1)
         | Inr args \<Rightarrow> (Some (saveFile (vw_session v) path args), w1))"

definition doSave_done ::
  "panel_view \<Rightarrow> string \<Rightarrow> string \<Rightarrow> web_error + FileContents \<Rightarrow> workspace_panel \<Rightarrow> workspace_panel" where
  "doSave_done v pid path ans w =
     (let (result, ed) = save_done pid path ans (wp_editor w) in after_save v pid path result (w\<lparr>wp_editor := ed\<rparr>))"

text \<open>The buttons of the conflict dialog.\<close>

definition conflict_overwrite :: "workspace_panel \<Rightarrow> save_body http_request option \<times> workspace_panel" where
  "conflict_overwrite w =
     (case wp_conflict w of
        None \<Rightarrow> (None, w)
      | Some c \<Rightarrow> doSave (cn_view c) (cn_pane c) (cn_path c) (Some (cn_currentMtime c)) (w\<lparr>wp_conflict := None\<rparr>))"

definition conflict_reload :: "workspace_panel \<Rightarrow> load_call option \<times> workspace_panel" where
  "conflict_reload w =
     (case wp_conflict w of
        None \<Rightarrow> (None, w)
      | Some c \<Rightarrow> map_prod Some id (reload_tab (cn_view c) (cn_pane c) (cn_path c) (w\<lparr>wp_conflict := None\<rparr>)))"

section \<open>Closing tabs\<close>

definition close_tab_from :: "panel_view \<Rightarrow> string \<Rightarrow> string \<Rightarrow> workspace_panel \<Rightarrow> workspace_panel" where
  "close_tab_from v pid path w = w\<lparr>wp_editor := closeTab (vw_active v) pid path (wp_editor w)\<rparr>"

definition handleCloseTab :: "panel_view \<Rightarrow> string \<Rightarrow> string \<Rightarrow> workspace_panel \<Rightarrow> workspace_panel" where
  "handleCloseTab v pid path w =
     (if \<not> isTabDirty (vw_rows v) pid path then close_tab_from v pid path w
      else w\<lparr>wp_confirm := Some \<lparr>cf_title = ''Unsaved changes'',
             cf_body = basename_of path @ '' has unsaved changes. Save before closing, or discard?'',
             cf_label = ''Save'', cf_danger = False, cf_action = SaveAndClose v pid path\<rparr>\<rparr>)"

definition close_paths_from :: "panel_view \<Rightarrow> string \<Rightarrow> string list \<Rightarrow> workspace_panel \<Rightarrow> workspace_panel" where
  "close_paths_from v pid paths w = w\<lparr>wp_editor := closePaths (vw_active v) pid paths (wp_editor w)\<rparr>"

definition handleCloseMany :: "panel_view \<Rightarrow> string \<Rightarrow> string list \<Rightarrow> workspace_panel \<Rightarrow> workspace_panel" where
  "handleCloseMany v pid paths w =
     (if paths = [] then w
      else let dirty = filter (isTabDirty (vw_rows v) pid) paths
           in if dirty = [] then close_paths_from v pid paths w
              else w\<lparr>wp_confirm := Some \<lparr>cf_title = ''Discard unsaved changes?'',
                     cf_body = nat_string (length dirty) @ '' file'' @ (if length dirty > 1 then ''s have'' else '' has'') @
                       '' unsaved changes:'' @ [CHR 0x0A] @ join '', '' (map basename_of dirty),
                     cf_label = ''Discard & Close'', cf_danger = True, cf_action = DiscardAndClose v pid paths\<rparr>\<rparr>)"

text \<open>
  The confirming button of a dialog that is shown. Saving awaits \<open>doSave\<close>, deleting awaits the
  request; discarding is done at once.
\<close>

datatype confirm_call = NoCall | SaveCall "save_body http_request" | DeleteCall "json http_request"

text \<open>After \<open>await doSave\<close>: the closure asks the rows it was made with whether the tab is still dirty.\<close>

definition close_if_clean :: "panel_view \<Rightarrow> string \<Rightarrow> string \<Rightarrow> workspace_panel \<Rightarrow> workspace_panel" where
  "close_if_clean v pid path w = (if isTabDirty (vw_rows v) pid path then w else close_tab_from v pid path w)"

definition confirm_pressed :: "workspace_panel \<Rightarrow> confirm_call \<times> workspace_panel" where
  "confirm_pressed w =
     (case wp_confirm w of
        None \<Rightarrow> (NoCall, w)
      | Some c \<Rightarrow>
          let w1 = w\<lparr>wp_confirm := None\<rparr>
          in case cf_action c of
               SaveAndClose v pid path \<Rightarrow>
                 (case doSave v pid path None w1 of
                    (None, w2) \<Rightarrow> (NoCall, close_if_clean v pid path w2)
                  | (Some r, w2) \<Rightarrow> (SaveCall r, w2))
             | DiscardAndClose v pid paths \<Rightarrow> (NoCall, close_paths_from v pid paths w1)
             | DeletePath v path isDir \<Rightarrow>
                 (DeleteCall (delete_entry (vw_session v) path isDir), w1\<lparr>wp_error := None\<rparr>))"

definition save_and_close_done ::
  "panel_view \<Rightarrow> string \<Rightarrow> string \<Rightarrow> web_error + FileContents \<Rightarrow> workspace_panel \<Rightarrow> workspace_panel" where
  "save_and_close_done v pid path ans w = close_if_clean v pid path (doSave_done v pid path ans w)"

text \<open>The third button, \<open>Discard\<close>, which only the dialog of a single tab has.\<close>

definition discard_pressed :: "workspace_panel \<Rightarrow> workspace_panel" where
  "discard_pressed w =
     (case wp_confirm w of
        Some c \<Rightarrow> (case cf_action c of
                     SaveAndClose v pid path \<Rightarrow> close_tab_from v pid path (w\<lparr>wp_confirm := None\<rparr>)
                   | _ \<Rightarrow> w)
      | None \<Rightarrow> w)"

text \<open>The two messages have a long dash, which strings of the model cannot hold.\<close>

definition handleSplit ::
  "string \<Rightarrow> string \<Rightarrow> string \<Rightarrow> string \<Rightarrow> SplitDirection \<Rightarrow> workspace_panel \<Rightarrow> workspace_panel" where
  "handleSplit clock clock' pid path dir w =
     (let (result, ed) = splitTab clock clock' pid path dir (wp_editor w); w1 = w\<lparr>wp_editor := ed\<rparr>
      in case result of
           MaxCols \<Rightarrow> w1\<lparr>wp_error := Some ''Can't split further - already at 3 columns''\<rparr>
         | MaxRows \<Rightarrow> w1\<lparr>wp_error := Some ''Can't split further - already at 2 rows''\<rparr>
         | SplitOk \<Rightarrow> w1)"

section \<open>Context menus\<close>

definition tab_menu :: "panel_view \<Rightarrow> string \<Rightarrow> string \<Rightarrow> (string \<times> menu_action) list option" where
  "tab_menu v pid path =
     (case find (has_id pid) (allPanes (vw_rows v)) of
        None \<Rightarrow> None
      | Some pane \<Rightarrow>
          (case find_index (has_path path) (pane_tabs pane) of
             None \<Rightarrow> None
           | Some idx \<Rightarrow>
               let paths = map tab_path (pane_tabs pane); right = drop (idx + 1) paths; left = take idx paths
               in Some ([(''close'', MClose pid path), (''close-others'', MCloseMany pid (filter (\<lambda>p. p \<noteq> path) paths))] @
                    (if right \<noteq> [] then [(''close-right'', MCloseMany pid right)] else []) @
                    (if left \<noteq> [] then [(''close-left'', MCloseMany pid left)] else []) @
                    [(''close-all'', MCloseMany pid paths)] @
                    (if \<not> tab_pinned (pane_tabs pane ! idx) then [(''pin'', MPin pid path)] else []) @
                    (if canSplitHorizontal (vw_rows v) pid then [(''split-h'', MSplit pid path Horizontal)] else []) @
                    (if canSplitVertical (vw_rows v) then [(''split-v'', MSplit pid path Vertical)] else []))))"

definition handleTabContextMenu :: "panel_view \<Rightarrow> string \<Rightarrow> string \<Rightarrow> workspace_panel \<Rightarrow> workspace_panel" where
  "handleTabContextMenu v pid path w =
     (case tab_menu v pid path of None \<Rightarrow> w | Some items \<Rightarrow> w\<lparr>wp_menu := Some items\<rparr>)"

text \<open>The entry is null for the empty part of the tree, which stands for the root.\<close>

definition tree_menu :: "string \<Rightarrow> TreeEntry option \<Rightarrow> (string \<times> menu_action) list" where
  "tree_menu path entry =
     (let isRoot = (path = ''/'');
          isDir = (case entry of None \<Rightarrow> True | Some e \<Rightarrow> entry_type e = DirEntry)
      in (if \<not> isDir \<and> entry \<noteq> None then [(''open'', MOpen path)] else []) @
         (if isDir then [(''new-file'', MNew NewFile path), (''new-folder'', MNew NewDir path), (''upload'', MUpload path)]
          else []) @
         (if \<not> isDir \<and> entry \<noteq> None then [(''download'', MDownload path)] else []) @
         (case entry of
            Some e \<Rightarrow> if isRoot then [] else [(''rename'', MRename path), (''delete'', MDelete path e)]
          | None \<Rightarrow> []))"

definition handleTreeContextMenu :: "string \<Rightarrow> TreeEntry option \<Rightarrow> workspace_panel \<Rightarrow> workspace_panel" where
  "handleTreeContextMenu path entry w = w\<lparr>wp_menu := Some (tree_menu path entry)\<rparr>"

section \<open>Creating, renaming, deleting\<close>

definition startNew :: "string \<Rightarrow> new_mode \<Rightarrow> workspace_panel \<Rightarrow> workspace_panel" where
  "startNew parent mode w =
     w\<lparr>wp_tree := ensureExpanded parent (wp_tree w), wp_pendingNew := Some (parent, mode)\<rparr>"

datatype new_request = NewDirRequest "json http_request" | NewFileRequest "save_body http_request"

definition empty_file :: SaveFileArgs where
  "empty_file = \<lparr>sa_content = [], sa_encoding = Some Utf8, sa_expectedMtime = None, sa_overwrite = None\<rparr>"

definition submitNew ::
  "panel_view \<Rightarrow> string \<Rightarrow> new_mode \<Rightarrow> string \<Rightarrow> workspace_panel \<Rightarrow> new_request \<times> workspace_panel" where
  "submitNew v parent mode name w =
     (let target = joinPath parent name
      in (case mode of
            NewDir \<Rightarrow> NewDirRequest (createDir (vw_session v) target)
          | NewFile \<Rightarrow> NewFileRequest (saveFile (vw_session v) target empty_file),
          w\<lparr>wp_error := None, wp_pendingNew := None\<rparr>))"

text \<open>The answer, good or bad; an error is shown, a success fetches the directory again.\<close>

definition submitNew_done ::
  "panel_view \<Rightarrow> string \<Rightarrow> web_error + unit \<Rightarrow> workspace_panel \<Rightarrow> tree_request option \<times> workspace_panel" where
  "submitNew_done v parent ans w =
     (case ans of
        Inl err \<Rightarrow> (None, w\<lparr>wp_error := Some (error_message err)\<rparr>)
      | Inr _ \<Rightarrow> map_prod Some id (refreshParent v parent w))"

definition submitRename ::
  "panel_view \<Rightarrow> string \<Rightarrow> string \<Rightarrow> workspace_panel \<Rightarrow> json http_request option \<times> workspace_panel" where
  "submitRename v path newName w =
     (let target = joinPath (parentOf path) newName; w1 = w\<lparr>wp_error := None, wp_renaming := None\<rparr>
      in if target = path then (None, w1) else (Some (move_entry (vw_session v) path target), w1))"

definition submitRename_done ::
  "panel_view \<Rightarrow> string \<Rightarrow> string \<Rightarrow> web_error + unit \<Rightarrow> workspace_panel \<Rightarrow> tree_request option \<times> workspace_panel" where
  "submitRename_done v path newName ans w =
     (case ans of
        Inl err \<Rightarrow> (None, w\<lparr>wp_error := Some (error_message err)\<rparr>)
      | Inr _ \<Rightarrow> map_prod Some id (refreshParent v (parentOf path)
                  (w\<lparr>wp_editor := renameTab path (joinPath (parentOf path) newName) (wp_editor w)\<rparr>)))"

definition confirmDelete :: "panel_view \<Rightarrow> string \<Rightarrow> TreeEntry \<Rightarrow> workspace_panel \<Rightarrow> workspace_panel" where
  "confirmDelete v path entry w =
     (let isDir = (entry_type entry = DirEntry)
      in w\<lparr>wp_confirm := Some \<lparr>cf_title = (if isDir then ''Delete folder'' else ''Delete file''),
             cf_body = ''Delete '' @ entry_name entry @
               (if isDir then '' and all its contents? This cannot be undone.'' else ''? This cannot be undone.''),
             cf_label = ''Delete'', cf_danger = True, cf_action = DeletePath v path isDir\<rparr>\<rparr>)"

text \<open>The tabs that a deleted path takes along, in the order of the loops, from the rows of the closure.\<close>

definition tabs_under :: "EditorRow list \<Rightarrow> string \<Rightarrow> (string \<times> string) list" where
  "tabs_under rows path = concat (map (\<lambda>p. map (\<lambda>t. (pane_id p, tab_path t))
     (filter (\<lambda>t. tab_path t = path \<or> starts_with (tab_path t) (path @ ''/'')) (pane_tabs p))) (allPanes rows))"

definition delete_done ::
  "panel_view \<Rightarrow> string \<Rightarrow> web_error + unit \<Rightarrow> workspace_panel \<Rightarrow> tree_request option \<times> workspace_panel" where
  "delete_done v path ans w =
     (case ans of
        Inl err \<Rightarrow> (None, w\<lparr>wp_error := Some (error_message err)\<rparr>)
      | Inr _ \<Rightarrow> map_prod Some id (refreshParent v (parentOf path)
                  (foldl (\<lambda>w (pid, p). close_tab_from v pid p w) w (tabs_under (vw_rows v) path))))"

section \<open>Uploading\<close>

text \<open>
  One file of the loop: its name and bytes; the answer to the upload; whether the user lets it
  overwrite, and the answer to the second upload. The result is the uploads that were made.
\<close>

definition upload_one ::
  "panel_view \<Rightarrow> string \<Rightarrow> string \<Rightarrow> octet list \<Rightarrow> web_error + unit \<Rightarrow> bool \<Rightarrow> web_error + unit \<Rightarrow> workspace_panel \<Rightarrow>
     save_body http_request list \<times> workspace_panel" where
  "upload_one v parent name bytes ans proceed ans' w =
     (if length bytes > MAX_UPLOAD_BYTES
      then ([], w\<lparr>wp_error := Some (name @ '' exceeds '' @ nat_string (MAX_UPLOAD_BYTES div (1024 * 1024)) @ '' MB limit'')\<rparr>)
      else
        let target = joinPath parent name;
            send = (\<lambda>overwrite. case uploadFile (vw_session v) target bytes overwrite of Inl _ \<Rightarrow> [] | Inr r \<Rightarrow> [r])
        in case ans of
             Inr _ \<Rightarrow> (send False, w)
           | Inl (Workspace e) \<Rightarrow>
               if we_status e = 409 \<and> we_code e = Some ''exists'' then
                 (if proceed
                  then (send False @ send True,
                        case ans' of Inr _ \<Rightarrow> w | Inl err2 \<Rightarrow> w\<lparr>wp_error := Some (error_message err2)\<rparr>)
                  else (send False, w))
               else (send False, w\<lparr>wp_error := Some (we_message e)\<rparr>)
           | Inl err \<Rightarrow> (send False, w\<lparr>wp_error := Some (error_message err)\<rparr>))"

text \<open>The whole loop; each file comes with what happens to it.\<close>

type_synonym upload_item = "string \<times> octet list \<times> (web_error + unit) \<times> bool \<times> (web_error + unit)"

fun upload_loop ::
  "panel_view \<Rightarrow> string \<Rightarrow> upload_item list \<Rightarrow> workspace_panel \<Rightarrow> save_body http_request list \<times> workspace_panel" where
  "upload_loop v parent [] w = ([], w)"
| "upload_loop v parent ((name, bytes, ans, proceed, ans') # files) w =
     (let (rs, w1) = upload_one v parent name bytes ans proceed ans' w; (rs', w2) = upload_loop v parent files w1
      in (rs @ rs', w2))"

definition uploadFiles ::
  "panel_view \<Rightarrow> string \<Rightarrow> upload_item list \<Rightarrow> workspace_panel \<Rightarrow>
     save_body http_request list \<times> tree_request \<times> workspace_panel" where
  "uploadFiles v parent files w =
     (let (rs, w1) = upload_loop v parent files (w\<lparr>wp_error := None\<rparr>) in (rs, refreshParent v parent w1))"

definition triggerDownload :: "panel_view \<Rightarrow> string \<Rightarrow> string \<times> string" where
  "triggerDownload v path = (downloadFileUrl (vw_session v) path False, basename_of path)"

section \<open>Dragging tabs\<close>

text \<open>\<open>features/workspace/components/editor-tabs.tsx\<close>: the id of a tab in the drag layer.\<close>

definition tabSortId :: "string \<Rightarrow> string \<Rightarrow> string" where
  "tabSortId pid path = pid @ ''::'' @ path"

definition parseTabSortId :: "string \<Rightarrow> (string \<times> string) option" where
  "parseTabSortId s = (case sub_index s ''::'' of None \<Rightarrow> None | Some i \<Rightarrow> Some (take i s, drop (i + 2) s))"

definition handleDragStart :: "string \<Rightarrow> workspace_panel \<Rightarrow> workspace_panel" where
  "handleDragStart active w = w\<lparr>wp_drag := Some active\<rparr>"

definition draggedTab :: "workspace_panel \<Rightarrow> EditorTab option" where
  "draggedTab w =
     (if \<not> truthy (wp_drag w) then None
      else case parseTabSortId (the (wp_drag w)) of
             None \<Rightarrow> None
           | Some (pid, path) \<Rightarrow>
               find (has_path path) (concat (map pane_tabs (filter (has_id pid) (allPanes (ed_rows (wp_editor w)))))))"

text \<open>\<open>arrayMove\<close> is \<open>@dnd-kit/sortable\<close>'s. \<open>findIndex\<close> gives -1 where there is none.\<close>

definition handleDragEnd ::
  "(string list \<Rightarrow> nat \<Rightarrow> nat \<Rightarrow> string list) \<Rightarrow> panel_view \<Rightarrow> string \<Rightarrow> string option \<Rightarrow> workspace_panel \<Rightarrow> workspace_panel" where
  "handleDragEnd arrayMove v active over w =
     (let w1 = w\<lparr>wp_drag := None\<rparr>
      in case (parseTabSortId active, Option.bind over parseTabSortId) of
           (Some (srcPane, srcPath), Some (dstPane, dstPath)) \<Rightarrow>
             if srcPane = dstPane then
               (if srcPath = dstPath then w1
                else case find (has_id srcPane) (allPanes (vw_rows v)) of
                       None \<Rightarrow> w1
                     | Some pane \<Rightarrow>
                         let ids = map tab_path (pane_tabs pane)
                         in case (index_of srcPath ids, index_of dstPath ids) of
                              (Some i, Some j) \<Rightarrow> w1\<lparr>wp_editor := reorderTabs srcPane (arrayMove ids i j) (wp_editor w)\<rparr>
                            | _ \<Rightarrow> w1)
             else
               let toIndex = map_option (\<lambda>p. case find_index (has_path dstPath) (pane_tabs p) of
                                 None \<Rightarrow> - 1 | Some i \<Rightarrow> int i) (find (has_id dstPane) (allPanes (vw_rows v)))
               in w1\<lparr>wp_editor := moveTab srcPane dstPane srcPath toIndex (wp_editor w)\<rparr>
         | _ \<Rightarrow> w1)"

end
