(* ===== verification/PanelProps.thy ===== *)
theory PanelProps
  imports WorkspacePanel
begin

text \<open>
  What holds of the workspace panel: closing never drops unsaved text without asking; an upload
  overwrites only what the user agreed to; and where the panel's closures go wrong: saving before
  closing does not close, and a directory fetched by an old closure is shown in the new session.
\<close>

section \<open>Closing asks first\<close>

lemma unsaved_after_close:
  assumes "findPaneIn rows pid = Some (ri, k, pane)" and "rows_ok rows"
    and "drafts (pane_tabs pane) \<subseteq> drafts remaining" and "ed_rows ed = rows"
  shows "unsaved rows \<subseteq> unsaved (ed_rows (after_close a pid remaining act ed))"
proof -
  have same: "p = pane" if "p \<in> set (allPanes rows)" "pane_id p = pid" for p
    by (rule pane_unique [OF assms(2,1) that])
  show ?thesis
  proof (cases "remaining = []")
    case True
    then have "drafts (pane_tabs pane) = {}" using assms(3) by simp
    then have "unsaved rows \<subseteq> unsaved (dropPane rows pid)"
      by (intro unsaved_dropPane) (auto dest: same)
    then show ?thesis using True assms(4) by (simp add: after_close_def Let_def)
  next
    case False
    have "unsaved rows \<subseteq> unsaved (map_panes (on_pane pid (set_pane remaining act)) rows)"
      by (rule unsaved_map_panes) (use assms(3) in \<open>auto simp: on_pane_def has_id_def set_pane_def dest!: same\<close>)
    then show ?thesis using False assms(4) by (simp add: after_close_def)
  qed
qed

lemma find_index_find: "find_index P xs = Some i \<Longrightarrow> find P xs = Some (xs ! i)"
  by (induction xs arbitrary: i) (auto split: if_splits)

lemma draft_of_clean: "tab_draft t = None \<Longrightarrow> draft_of t = {}"
  by (simp add: draft_of_def)

lemma unsaved_close:
  assumes ok: "editor_ok ed" and clean: "\<not> isTabDirty (ed_rows ed) pid path"
  shows "unsaved (ed_rows ed) \<subseteq> unsaved (ed_rows (closeTab a pid path ed))"
proof (cases "findPaneIn (ed_rows ed) pid")
  case (Some x)
  obtain ri k pane where x: "x = (ri, k, pane)" by (cases x)
  note f = Some [unfolded x]
  have r: "rows_ok (ed_rows ed)" using ok by (simp add: editor_ok_def)
  show ?thesis
  proof (cases "find_index (has_path path) (pane_tabs pane)")
    case (Some i)
    have i: "i < length (pane_tabs pane)" using find_index_Some [OF Some] by simp
    have "tab_draft (pane_tabs pane ! i) = None"
      using clean f find_index_find [OF Some] by (simp add: isTabDirty_def findTab_def)
    then have "drafts (pane_tabs pane) = drafts (take i (pane_tabs pane) @ drop (Suc i) (pane_tabs pane))"
      by (subst id_take_nth_drop [OF i]) (simp add: draft_of_clean)
    then show ?thesis unfolding closeTab_def f Some option.case prod.case
      by (intro unsaved_after_close [OF f r]) simp_all
  qed (simp add: closeTab_def f)
qed (simp add: closeTab_def)

lemma unsaved_closePaths:
  assumes ok: "editor_ok ed" and clean: "filter (isTabDirty (ed_rows ed) pid) paths = []"
  shows "unsaved (ed_rows ed) \<subseteq> unsaved (ed_rows (closePaths a pid paths ed))"
proof (cases "paths = [] \<or> findPaneIn (ed_rows ed) pid = None")
  case False
  then obtain ri k pane where f: "findPaneIn (ed_rows ed) pid = Some (ri, k, pane)" by (metis option.exhaust prod_cases3)
  have r: "rows_ok (ed_rows ed)" using ok by (simp add: editor_ok_def)
  have d: "distinct (map tab_path (pane_tabs pane))"
    using found_pane_ok [OF ok f] by (simp add: pane_ok_def open_paths_def)
  have "draft_of t = {}" if t: "t \<in> set (pane_tabs pane)" "tab_path t \<in> set paths" for t
  proof -
    obtain t' where t': "find (has_path (tab_path t)) (pane_tabs pane) = Some t'"
      using t(1) by (cases "find (has_path (tab_path t)) (pane_tabs pane)") (auto simp: find_None_iff has_path_def)
    have "t' = t" using found_tab [OF t'] t(1) d by (auto simp: distinct_map dest: inj_onD)
    moreover have "\<not> isTabDirty (ed_rows ed) pid (tab_path t)" using clean t(2) by (simp add: filter_empty_conv)
    ultimately show ?thesis using t' f by (simp add: isTabDirty_def findTab_def draft_of_clean)
  qed
  then have "drafts (pane_tabs pane) \<subseteq> drafts (filter (\<lambda>t. tab_path t \<notin> set paths) (pane_tabs pane))"
    unfolding drafts_def by fastforce
  moreover have "paths \<noteq> []" using False by simp
  ultimately show ?thesis unfolding closePaths_def f option.case prod.case
    by (simp add: unsaved_after_close [OF f r])
qed (auto simp: closePaths_def)

lemma view_of_simps [simp]:
  "vw_rows (view_of w) = ed_rows (wp_editor w)" "vw_active (view_of w) = ed_active (wp_editor w)"
  "vw_session (view_of w) = tp_session (wp_tree w)"
  by (simp_all add: view_of_def)

text \<open>A click on the panel, handled by the callbacks of the current render.\<close>

datatype panel_click =
    ClickClose string string | ClickCloseMany string "string list" | ClickOpen string bool
  | ClickSplit string string string string SplitDirection | ClickDrag "string list \<Rightarrow> nat \<Rightarrow> nat \<Rightarrow> string list" string "string option"
  | ClickTabMenu string string | ClickNew string new_mode | ClickRename string string | ClickDelete string TreeEntry

fun click :: "workspace_panel \<Rightarrow> panel_click \<Rightarrow> workspace_panel" where
  "click w (ClickClose pid path) = handleCloseTab (view_of w) pid path w"
| "click w (ClickCloseMany pid paths) = handleCloseMany (view_of w) pid paths w"
| "click w (ClickOpen path pin) = snd (open_in_panel (view_of w) path pin None w)"
| "click w (ClickSplit clock clock' pid path dir) = handleSplit clock clock' pid path dir w"
| "click w (ClickDrag arrayMove active over) = handleDragEnd arrayMove (view_of w) active over w"
| "click w (ClickTabMenu pid path) = handleTabContextMenu (view_of w) pid path w"
| "click w (ClickNew parent mode) = startNew parent mode w"
| "click w (ClickRename path name) = snd (submitRename (view_of w) path name w)"
| "click w (ClickDelete path entry) = confirmDelete (view_of w) path entry w"

text \<open>A file of the tree has a path; a tab is not dropped on a pane that has its file open.\<close>

fun possible :: "workspace_panel \<Rightarrow> panel_click \<Rightarrow> bool" where
  "possible w (ClickOpen path pin) = (path \<noteq> [])"
| "possible w (ClickDrag arrayMove active over) =
     (case (parseTabSortId active, Option.bind over parseTabSortId) of
        (Some (a, p), Some (b, q)) \<Rightarrow> a = b \<or> (b \<in> set (pane_ids (ed_rows (wp_editor w))) \<and>
          findTab (ed_rows (wp_editor w)) b p = None)
      | _ \<Rightarrow> True)"
| "possible w _ = True"

lemma handleSplit_rows:
  "wp_editor (handleSplit clock clock' pid path dir w) = snd (splitTab clock clock' pid path dir (wp_editor w))"
  by (simp add: handleSplit_def Let_def split: prod.splits SplitResult.splits)

lemma drag_kept:
  assumes ok: "editor_ok (wp_editor w)" and p: "possible w (ClickDrag arrayMove active over)"
  shows "editor_ok (wp_editor (handleDragEnd arrayMove (view_of w) active over w)) \<and>
    unsaved (ed_rows (wp_editor w)) \<subseteq> unsaved (ed_rows (wp_editor (handleDragEnd arrayMove (view_of w) active over w)))"
proof (cases "(parseTabSortId active, Option.bind over parseTabSortId)")
  case (Pair x y)
  then show ?thesis
  proof (cases "x = None \<or> y = None")
    case False
    then obtain a pa b pb where xy: "x = Some (a, pa)" "y = Some (b, pb)" by auto
    show ?thesis
    proof (cases "a = b")
      case True
      then show ?thesis using ok Pair xy
        by (auto simp: handleDragEnd_def Let_def editor_ok_reorder unsaved_reorder [THEN subsetD] split: option.splits)
    next
      case False
      then show ?thesis using ok p Pair xy
        by (auto simp: handleDragEnd_def Let_def editor_ok_move unsaved_move [THEN subsetD])
    qed
  qed (use ok in \<open>auto simp: handleDragEnd_def Let_def split: option.splits\<close>)
qed


definition demo_panel :: workspace_panel where
  "demo_panel = (snd (open_panel ''s1'' 0))\<lparr>wp_editor := demo_editor\<rparr>"


section \<open>Saving before closing\<close>

text \<open>
  The dialog's Save button saves and then asks the rows of its own render whether the tab is dirty.
  They were dirty, or there would be no dialog, so the tab stays open, now clean.
\<close>

theorem saving_before_closing_keeps_tab:
  assumes "findTab (ed_rows (wp_editor w)) pid path = Some t" and "tab_draft t \<noteq> None"
  shows "let w1 = handleCloseTab (view_of w) pid path w;
             w2 = snd (confirm_pressed w1);
             w3 = save_and_close_done (view_of w) pid path (Inr file) w2
         in wp_confirm w1 \<noteq> None \<and> wp_confirm w2 = None \<and>
            map_option tab_draft (findTab (ed_rows (wp_editor w3)) pid path) = Some None"
proof -
  obtain ri k pane where f: "findPaneIn (ed_rows (wp_editor w)) pid = Some (ri, k, pane)"
      and t: "find (has_path path) (pane_tabs pane) = Some t"
    using assms(1) by (auto simp: findTab_def split: option.splits)
  have d: "isTabDirty (ed_rows (wp_editor w)) pid path" using assms by (simp add: isTabDirty_def)
  have "\<exists>args. save_call (ed_rows (wp_editor w)) pid path None = Inr args"
    using f t assms(2) by (simp add: save_call_def)
  then obtain args where s: "save_call (ed_rows (wp_editor w)) pid path None = Inr args" by blast
  show ?thesis
    using assms(1) d s
    by (simp add: handleCloseTab_def confirm_pressed_def doSave_def Let_def save_and_close_done_def close_if_clean_def
        doSave_done_def save_done_def after_save_def applyFileContents_def findTab_patch)
qed

section \<open>Uploads\<close>

definition is_exists :: "web_error + unit \<Rightarrow> bool" where
  "is_exists ans = (case ans of Inl (Workspace e) \<Rightarrow> we_status e = 409 \<and> we_code e = Some ''exists'' | _ \<Rightarrow> False)"

definition agreed :: "upload_item \<Rightarrow> bool" where
  "agreed x = (case x of (name, bytes, ans, proceed, ans') \<Rightarrow> length bytes \<le> MAX_UPLOAD_BYTES \<and> is_exists ans \<and> proceed)"

definition upload_request :: "panel_view \<Rightarrow> string \<Rightarrow> bool \<Rightarrow> upload_item \<Rightarrow> save_body http_request" where
  "upload_request v parent overwrite x = (case x of (name, bytes, _) \<Rightarrow>
     saveFile (vw_session v) (joinPath parent name)
       \<lparr>sa_content = text_of (toBase64 bytes), sa_encoding = Some Base64, sa_expectedMtime = None,
        sa_overwrite = Some overwrite\<rparr>)"

definition overwriting :: "save_body http_request \<Rightarrow> bool" where
  "overwriting r = (case rq_body r of Some b \<Rightarrow> sb_overwrite b | None \<Rightarrow> False)"

lemma upload_one_requests:
  "fst (upload_one v parent name bytes ans proceed ans' w) =
     (if length bytes > MAX_UPLOAD_BYTES then []
      else upload_request v parent False (name, bytes, ans, proceed, ans') #
        (if agreed (name, bytes, ans, proceed, ans')
         then [upload_request v parent True (name, bytes, ans, proceed, ans')] else []))"
  by (auto simp: upload_one_def uploadFile_def upload_request_def agreed_def is_exists_def Let_def
      split: sum.split web_error.split)

lemma overwriting_request [simp]: "overwriting (upload_request v parent b x) = b"
  by (simp add: overwriting_def upload_request_def saveFile_def http_call_def split: prod.split)

text \<open>
  An upload overwrites only with consent: the uploads that may overwrite are, in order, those of
  the files that the server said exist and the user agreed to replace; a file beyond the limit is not
  sent at all, and every other file is sent exactly once without overwriting.
\<close>

theorem uploads_ask_first:
  "filter overwriting (fst (uploadFiles v parent files w)) =
     map (upload_request v parent True) (filter agreed files) \<and>
   filter (\<lambda>r. \<not> overwriting r) (fst (uploadFiles v parent files w)) =
     map (upload_request v parent False) (filter (\<lambda>x. length (fst (snd x)) \<le> MAX_UPLOAD_BYTES) files)"
proof -
  have "filter overwriting (fst (upload_loop v parent files w)) =
      map (upload_request v parent True) (filter agreed files) \<and>
    filter (\<lambda>r. \<not> overwriting r) (fst (upload_loop v parent files w)) =
      map (upload_request v parent False) (filter (\<lambda>x. length (fst (snd x)) \<le> MAX_UPLOAD_BYTES) files)" for w
  proof (induction files arbitrary: w)
    case (Cons x files)
    show ?case
      by (cases x) (simp add: split_beta upload_one_requests Cons.IH agreed_def)
  qed simp
  then show ?thesis by (simp add: uploadFiles_def split_beta)
qed

section \<open>Old closures\<close>

text \<open>
  A handler that awaits and then fetches a directory does so for the session of its render, but with
  today's generation: when the session has changed in between, the listing of the old session is
  accepted by the tree of the new one.
\<close>

theorem late_refresh_shows_old_session:
  "let (seen, r0, w1) = switch_session new w;
       (req, w2) = submitNew_done (view_of w) parent (Inr ()) w1;
       t = fetchPath_done (the req) (Inr entries) (wp_tree w2)
   in rq_session (the req) = tp_session (wp_tree w) \<and> tp_session t = new \<and>
      map_option tn_entries (mget (tp_nodes t) parent) = Some entries"
  by (simp add: switch_session_def change_tree_session_def new_generation_def fetchPath_def submitNew_done_def
      refreshParent_def fetch_from_def fetchPath_done_def setNode_def view_of_def mget_mput)

lemma fetch_from_current: "fetch_from (view_of w) path (wp_tree w) = fetchPath path (wp_tree w)"
  by (simp add: fetch_from_def fetchPath_def view_of_def)

text \<open>Renaming a directory leaves the tabs of the files in it under their old paths.\<close>

lemma rename_leaves_tabs_inside:
  assumes "q \<noteq> old" and "q \<noteq> new"
  shows "findTab (ed_rows (renameTab old new ed)) pid q = findTab (ed_rows ed) pid q"
proof -
  have id: "pane_id (rename_in_pane old new p) = pane_id p" for p by (simp add: rename_in_pane_def)
  have "find (has_path q) (map (\<lambda>t. if has_path old t then t\<lparr>tab_path := new\<rparr> else t) ts) = find (has_path q) ts" for ts
    using assms by (induction ts) (auto simp: has_path_def)
  then have "find (has_path q) (pane_tabs (rename_in_pane old new p)) = find (has_path q) (pane_tabs p)" for p
    by (simp add: rename_in_pane_def)
  then show ?thesis by (simp add: findTab_def renameTab_def findPaneIn_map_panes [OF id] split: option.split)
qed

section \<open>Ids of dragged tabs\<close>

lemma sub_index_colons: "CHR '':'' \<notin> set pid \<Longrightarrow> sub_index (pid @ ''::'' @ path) ''::'' = Some (length pid)"
  by (induction pid) auto

text \<open>The id of a dragged tab is read back as its pane and path, since ids of panes have no colon.\<close>

lemma sort_id_roundtrip:
  assumes "CHR '':'' \<notin> set pid"
  shows "parseTabSortId (tabSortId pid path) = Some (pid, path)"
  unfolding parseTabSortId_def tabSortId_def sub_index_colons [OF assms] by simp

end
