(* ===== verification/Assistant.thy ===== *)
theory Assistant
  imports WorkflowProps ChatText ChatSocket
begin

text \<open>
  The assistant of the workflow builder
  (\<open>features/workflows/components/builder/assistant-panel.tsx\<close>): the event stream of a request
  (\<open>assistantStream\<close> in \<open>features/workflows/api/workflows-api.ts\<close>), the blocks that it becomes, and the
  conversation with its plans. \<open>parse\<close> is \<open>JSON.parse\<close> with the type that the code asserts, None
  where it throws. A request is cut at each event and at its end.
\<close>

section \<open>The event stream\<close>

datatype AssistantStreamEvent =
    EvChunk string
  | EvThinking string
  | EvToolUse string json string
  | EvToolResult string string "bool option"
  | EvAssistantDone string "PlanOp list"
  | EvError string
  | EvOther

lemma sub_index_shorter: "sub_index s q = Some i \<Longrightarrow> i + length q \<le> length s"
proof (induction s arbitrary: i)
  case (Cons c cs)
  show ?case
  proof (cases "starts_with (c # cs) q")
    case True
    then obtain r where "c # cs = q @ r" by (auto simp: starts_with_iff)
    then have "length q \<le> length (c # cs)" by simp
    then show ?thesis using Cons.prems True by simp
  next
    case False
    then show ?thesis using Cons by auto
  qed
qed (simp split: if_splits)

text \<open>The frames that end in the buffer, and what is left; each round takes at least two characters.\<close>

function drain :: "string \<Rightarrow> string list \<times> string" where
  "drain buffer =
     (case sub_index buffer [CHR 0x0A, CHR 0x0A] of
        None \<Rightarrow> ([], buffer)
      | Some idx \<Rightarrow> (let (frames, rest) = drain (drop (idx + 2) buffer) in (take idx buffer # frames, rest)))"
  by pat_completeness auto

termination drain
  by (relation "measure length") (auto dest!: sub_index_shorter)

declare drain.simps [simp del]

definition frame_events :: "(string \<Rightarrow> 'e option) \<Rightarrow> string \<Rightarrow> 'e list" where
  "frame_events parse frame =
     List.map_filter (\<lambda>line. if starts_with line ''data: '' then parse (drop 6 line) else None)
       (split_on (CHR 0x0A) frame)"

text \<open>The loop: the buffer that is left, and the events so far; one decoded piece of the body.\<close>

definition stream_piece :: "(string \<Rightarrow> 'e option) \<Rightarrow> string \<times> 'e list \<Rightarrow> string \<Rightarrow> string \<times> 'e list" where
  "stream_piece parse st piece =
     (let (frames, rest) = drain (fst st @ piece)
      in (rest, snd st @ concat (map (frame_events parse) frames)))"

definition assistantStream :: "(string \<Rightarrow> 'e option) \<Rightarrow> string list \<Rightarrow> string \<times> 'e list" where
  "assistantStream parse pieces = foldl (stream_piece parse) ([], []) pieces"

section \<open>Messages and blocks\<close>

datatype chat_role = UserRole | AssistantRole
datatype plan_status = PlanPending | PlanAccepted | PlanRejected

record AssistantChatMessage =
  am_id :: string
  am_role :: chat_role
  am_content :: string
  am_blocks :: "StreamBlock list option"
  am_plan :: "PlanOp list option"
  am_planStatus :: "plan_status option"
  am_error :: "string option"
  am_streaming :: bool

text \<open>\<open>newBlockId\<close> and the reducer, with the module's counter.\<close>

definition newBlockId :: "nat \<Rightarrow> string" where
  "newBlockId n = ''b-'' @ nat_string n"

definition APPLY_PLAN_CLI_NAME :: string where
  "APPLY_PLAN_CLI_NAME = ''mcp__system__apply_workflow_plan''"

fun finish_call :: "string \<Rightarrow> string \<Rightarrow> bool option \<Rightarrow> StreamBlock \<Rightarrow> StreamBlock" where
  "finish_call i content is_error (ToolCall t) =
     (if tc_id t = i
      then ToolCall (t\<lparr>tc_status := Complete, tc_result := Some content,
             tc_is_error := (if is_error = Some True then Some True else tc_is_error t)\<rparr>)
      else ToolCall t)"
| "finish_call i content is_error b = b"

fun applyEventToBlocks :: "AssistantStreamEvent \<Rightarrow> nat \<times> StreamBlock list \<Rightarrow> nat \<times> StreamBlock list" where
  "applyEventToBlocks (EvChunk content) (n, blocks) =
     (case rev blocks of
        TextBlock i c # before \<Rightarrow> (n, rev before @ [TextBlock i (c @ content)])
      | _ \<Rightarrow> (n + 1, blocks @ [TextBlock (newBlockId (n + 1)) content]))"
| "applyEventToBlocks (EvThinking content) (n, blocks) =
     (case rev blocks of
        ThinkingBlock i c # before \<Rightarrow> (n, rev before @ [ThinkingBlock i (c @ content)])
      | _ \<Rightarrow> (n + 1, blocks @ [ThinkingBlock (newBlockId (n + 1)) content]))"
| "applyEventToBlocks (EvToolUse name input i) (n, blocks) =
     (if name = APPLY_PLAN_CLI_NAME then (n, blocks)
      else (n, blocks @ [ToolCall \<lparr>tc_id = i, tc_name = name, tc_input = input, tc_status = Running, tc_result = None,
              tc_is_error = None, tc_elapsed = None, tc_parent = None\<rparr>]))"
| "applyEventToBlocks (EvToolResult i content is_error) (n, blocks) = (n, map (finish_call i content is_error) blocks)"
| "applyEventToBlocks _ (n, blocks) = (n, blocks)"

fun block_text :: "StreamBlock \<Rightarrow> string list" where
  "block_text (TextBlock i c) = [c]"
| "block_text _ = []"

definition assistantMessageToText :: "AssistantChatMessage \<Rightarrow> string" where
  "assistantMessageToText m =
     trim_space (join [CHR 0x0A] (concat (map block_text (case am_blocks m of Some bs \<Rightarrow> bs | None \<Rightarrow> []))))"

definition historyForApi :: "AssistantChatMessage list \<Rightarrow> (chat_role \<times> string) list" where
  "historyForApi messages =
     map (\<lambda>m. (am_role m, if am_role m = AssistantRole then assistantMessageToText m else am_content m)) messages"

text \<open>What of the graph is sent: the copy through JSON leaves the data as it is.\<close>

record sent_edge =
  xe_id :: string
  xe_source :: string
  xe_target :: string
  xe_sourceHandle :: "string option"
  xe_targetHandle :: "string option"

definition stripNodesEdgesForSend ::
  "wf_node list \<Rightarrow> wf_edge list \<Rightarrow> (string \<times> string \<times> (rat \<times> rat) \<times> node_data) list \<times> sent_edge list" where
  "stripNodesEdgesForSend ns es =
     (map (\<lambda>n. (nd_id n, nd_type n, nd_position n, nd_data n)) ns,
      map (\<lambda>e. \<lparr>xe_id = eg_id e, xe_source = eg_source e, xe_target = eg_target e,
                xe_sourceHandle = eg_sourceHandle e, xe_targetHandle = eg_targetHandle e\<rparr>) es)"

section \<open>The panel\<close>

text \<open>
  The panel, with the builder it edits (\<open>useWorkflowBuilder\<close>), the module's counter of blocks and the
  message that the request under way writes to.
\<close>

record assistant =
  as_builder :: builder
  as_messages :: "AssistantChatMessage list"
  as_input :: string
  as_busy :: bool
  as_height :: int
  as_collapsed :: bool
  as_blockIds :: nat
  as_request :: "string option"

definition MIN_HEIGHT :: int where "MIN_HEIGHT = 160"
definition MAX_HEIGHT_ABSOLUTE :: int where "MAX_HEIGHT_ABSOLUTE = 1600"
definition RESERVED_ABOVE :: int where "RESERVED_ABOVE = 140"
definition DEFAULT_HEIGHT :: int where "DEFAULT_HEIGHT = 280"
definition COLLAPSED_HEIGHT :: int where "COLLAPSED_HEIGHT = 36"

text \<open>\<open>window.innerHeight\<close> is the argument.\<close>

definition getMaxHeight :: "int \<Rightarrow> int" where
  "getMaxHeight innerHeight = max MIN_HEIGHT (min MAX_HEIGHT_ABSOLUTE (innerHeight - RESERVED_ABOVE))"

definition newAssistant :: "builder \<Rightarrow> nat \<Rightarrow> assistant" where
  "newAssistant b n = \<lparr>as_builder = b, as_messages = [], as_input = [], as_busy = False, as_height = DEFAULT_HEIGHT,
     as_collapsed = False, as_blockIds = n, as_request = None\<rparr>"

definition handleResize :: "int \<Rightarrow> int \<Rightarrow> assistant \<Rightarrow> assistant" where
  "handleResize innerHeight delta a =
     a\<lparr>as_height := min (getMaxHeight innerHeight) (max MIN_HEIGHT (as_height a + delta)), as_collapsed := False\<rparr>"

definition viewport_resized :: "int \<Rightarrow> assistant \<Rightarrow> assistant" where
  "viewport_resized innerHeight a = a\<lparr>as_height := min (as_height a) (getMaxHeight innerHeight)\<rparr>"

definition effectiveHeight :: "assistant \<Rightarrow> int" where
  "effectiveHeight a = (if as_collapsed a then COLLAPSED_HEIGHT else as_height a)"

text \<open>The request: the message, the graph and the conversation before it.\<close>

record assistant_request =
  ar_user_message :: string
  ar_definition :: "(string \<times> string \<times> (rat \<times> rat) \<times> node_data) list \<times> sent_edge list"
  ar_history :: "(chat_role \<times> string) list"

definition user_message :: "string \<Rightarrow> string \<Rightarrow> AssistantChatMessage" where
  "user_message i content = \<lparr>am_id = i, am_role = UserRole, am_content = content, am_blocks = None, am_plan = None,
     am_planStatus = None, am_error = None, am_streaming = False\<rparr>"

definition answer_message :: "string \<Rightarrow> AssistantChatMessage" where
  "answer_message i = \<lparr>am_id = i, am_role = AssistantRole, am_content = [], am_blocks = Some [], am_plan = None,
     am_planStatus = None, am_error = None, am_streaming = True\<rparr>"

text \<open>\<open>send\<close> up to the request; the two random ids are arguments, as are the model's backend and name.\<close>

definition assistant_send ::
  "string \<Rightarrow> string \<Rightarrow> string \<Rightarrow> string \<Rightarrow> assistant \<Rightarrow> assistant_request option \<times> assistant" where
  "assistant_send backend model userId assistantId a =
     (let content = trim_space (as_input a)
      in if content = [] \<or> as_busy a \<or> backend = [] \<or> model = [] then (None, a)
         else (Some \<lparr>ar_user_message = content,
                     ar_definition = stripNodesEdgesForSend (b_nodes (as_builder a)) (b_edges (as_builder a)),
                     ar_history = historyForApi (as_messages a)\<rparr>,
               a\<lparr>as_messages := as_messages a @ [user_message userId content, answer_message assistantId],
                 as_input := [], as_busy := True, as_request := Some assistantId\<rparr>))"

definition updateAssistant :: "string \<Rightarrow> (AssistantChatMessage \<Rightarrow> AssistantChatMessage) \<Rightarrow> assistant \<Rightarrow> assistant" where
  "updateAssistant i patch a = a\<lparr>as_messages := map (\<lambda>m. if am_id m = i then patch m else m) (as_messages a)\<rparr>"

text \<open>Folding an event into the blocks of the message, which may take an id from the counter.\<close>

fun fold_event :: "string \<Rightarrow> AssistantStreamEvent \<Rightarrow> nat \<times> AssistantChatMessage list \<Rightarrow> nat \<times> AssistantChatMessage list" where
  "fold_event i e (n, []) = (n, [])"
| "fold_event i e (n, m # ms) =
     (let (n1, m1) = (if am_id m = i
            then (let (k, bs) = applyEventToBlocks e (n, case am_blocks m of Some bs \<Rightarrow> bs | None \<Rightarrow> [])
                  in (k, m\<lparr>am_blocks := Some bs\<rparr>))
            else (n, m));
          (n2, ms1) = fold_event i e (n1, ms)
      in (n2, m1 # ms1))"

fun onEvent :: "string \<Rightarrow> AssistantStreamEvent \<Rightarrow> assistant \<Rightarrow> assistant" where
  "onEvent i (EvAssistantDone reply plan) a =
     updateAssistant i (\<lambda>m. m\<lparr>am_plan := Some plan, am_planStatus := (if plan \<noteq> [] then Some PlanPending else None),
       am_streaming := False\<rparr>) a"
| "onEvent i (EvError message) a =
     updateAssistant i (\<lambda>m. m\<lparr>am_error := Some message, am_streaming := False\<rparr>) a"
| "onEvent i e a =
     (let (n, ms) = fold_event i e (as_blockIds a, as_messages a) in a\<lparr>as_messages := ms, as_blockIds := n\<rparr>)"

text \<open>The end of the request: the error it rejected with, or none, and \<open>finally\<close>.\<close>

definition request_ended :: "string \<Rightarrow> string option \<Rightarrow> assistant \<Rightarrow> assistant" where
  "request_ended i failure a =
     (let a1 = (case failure of
                  None \<Rightarrow> a
                | Some message \<Rightarrow> updateAssistant i
                    (\<lambda>m. m\<lparr>am_error := Some (if message \<noteq> [] then message else ''Assistant request failed''),
                           am_streaming := False\<rparr>) a)
      in updateAssistant i (\<lambda>m. m\<lparr>am_streaming := False\<rparr>) (a1\<lparr>as_busy := False, as_request := None\<rparr>))"

text \<open>The plan of a message is validated and applied by the builder; the clock gives ids to new edges.\<close>

definition handleAccept :: "nat list \<Rightarrow> string \<Rightarrow> assistant \<Rightarrow> assistant" where
  "handleAccept clocks i a =
     (case Option.bind (find (\<lambda>m. am_id m = i) (as_messages a)) am_plan of
        None \<Rightarrow> a
      | Some plan \<Rightarrow>
          (let (err, b) = applyPlan_builder clocks plan (as_builder a)
           in updateAssistant i (\<lambda>m. m\<lparr>am_planStatus := (if err = None then Some PlanAccepted else am_planStatus m),
                am_error := err\<rparr>) (a\<lparr>as_builder := b\<rparr>)))"

definition handleReject :: "string \<Rightarrow> assistant \<Rightarrow> assistant" where
  "handleReject i = updateAssistant i (\<lambda>m. m\<lparr>am_planStatus := Some PlanRejected\<rparr>)"

definition handleClear :: "assistant \<Rightarrow> assistant" where
  "handleClear a = a\<lparr>as_messages := []\<rparr>"

text \<open>The buttons of a plan are shown while it is pending.\<close>

definition plan_offered :: "AssistantChatMessage \<Rightarrow> bool" where
  "plan_offered m \<longleftrightarrow> am_role m = AssistantRole \<and> (case am_plan m of None \<Rightarrow> False | Some p \<Rightarrow> p \<noteq> []) \<and>
     am_planStatus m = Some PlanPending"

section \<open>What holds\<close>

lemma starts_with_longer: "starts_with s q \<Longrightarrow> starts_with (s @ t) q"
  by (auto simp: starts_with_iff)

lemma sub_index_append: "sub_index s q = Some i \<Longrightarrow> sub_index (s @ t) q = Some i"
proof (induction s arbitrary: i)
  case (Cons c cs)
  show ?case
  proof (cases "starts_with (c # cs) q")
    case True
    then have "starts_with (c # cs @ t) q" using starts_with_longer [of "c # cs" q t] by simp
    then show ?thesis using Cons.prems True by simp
  next
    case False
    then obtain j where j: "sub_index cs q = Some j" "i = Suc j" using Cons.prems by auto
    have "length q \<le> length cs" using sub_index_shorter [OF j(1)] by simp
    then have "\<not> starts_with (c # cs @ t) q"
      using False by (auto simp: starts_with_iff append_eq_Cons_conv Cons_eq_append_conv append_eq_append_conv2)
    then show ?thesis using Cons.IH [OF j(1)] j(2) by simp
  qed
next
  case Nil
  then show ?case by (cases t) (auto split: if_splits)
qed

lemma drain_append:
  "drain (a @ b) = (fst (drain a) @ fst (drain (snd (drain a) @ b)), snd (drain (snd (drain a) @ b)))"
proof (induction a rule: drain.induct)
  case (1 a)
  show ?case
  proof (cases "sub_index a [CHR 0x0A, CHR 0x0A]")
    case None
    then have "drain a = ([], a)" by (simp add: drain.simps [of a])
    then show ?thesis by simp
  next
    case (Some i)
    note i = sub_index_shorter [OF Some]
    have a: "drain a = (take i a # fst (drain (drop (i + 2) a)), snd (drain (drop (i + 2) a)))"
      using Some by (simp add: drain.simps [of a] split_beta)
    have "drain (a @ b) = (take i a # fst (drain (drop (i + 2) a @ b)), snd (drain (drop (i + 2) a @ b)))"
      using sub_index_append [OF Some, of b] i by (simp add: drain.simps [of "a @ b"] split_beta)
    then show ?thesis using "1.IH" [OF Some] a by simp
  qed
qed

text \<open>
  The events of the assistant do not depend on how the network cuts the body into pieces: reading
  piece by piece gives the events of the whole body's frames, and what is left in the buffer is the unfinished
  frame at the end.
\<close>

theorem stream_cut_independent:
  "assistantStream parse pieces =
     (snd (drain (concat pieces)), concat (map (frame_events parse) (fst (drain (concat pieces)))))"
proof (induction pieces rule: rev_induct)
  case Nil
  have "drain [] = ([], [])" by (simp add: drain.simps)
  then show ?case by (simp add: assistantStream_def)
next
  case (snoc p ps)
  then show ?case
    by (simp add: assistantStream_def stream_piece_def split_beta drain_append [of "concat ps" p])
qed

text \<open>The text of the blocks is the text of the chunks, whatever comes between them.\<close>

fun streamed_text :: "AssistantStreamEvent \<Rightarrow> string" where
  "streamed_text (EvChunk c) = c"
| "streamed_text _ = []"

definition texts_of :: "StreamBlock list \<Rightarrow> string" where
  "texts_of bs = concat (concat (map block_text bs))"

lemma texts_of_simps [simp]:
  "texts_of [] = []" "texts_of (bs @ cs) = texts_of bs @ texts_of cs" "texts_of (b # bs) = concat (block_text b) @ texts_of bs"
  by (simp_all add: texts_of_def)

lemma finish_call_text: "block_text (finish_call i c e b) = block_text b"
  by (cases b) simp_all

lemma rev_Cons_snoc: "rev xs = y # ys \<Longrightarrow> xs = rev ys @ [y]"
  by (metis rev.simps(2) rev_rev_ident)

lemma apply_event_text: "texts_of (snd (applyEventToBlocks e (n, bs))) = texts_of bs @ streamed_text e"
proof (cases e)
  case (EvToolResult i c x)
  then show ?thesis by (simp add: texts_of_def finish_call_text comp_def)
qed (auto simp: dest!: rev_Cons_snoc split: list.split StreamBlock.split)

theorem assistant_text_is_streamed:
  "texts_of (snd (foldl (\<lambda>s e. applyEventToBlocks e s) (n, []) es)) = concat (map streamed_text es)"
proof (induction es rule: rev_induct)
  case (snoc e es)
  then show ?case
    by (metis (no_types, lifting) apply_event_text concat_append foldl_Cons foldl_Nil foldl_append map_append
        prod.collapse concat.simps map_is_Nil_conv append_Nil2 list.simps(9) concat_map_singleton)
qed simp

section \<open>The conversation\<close>

datatype assistant_event =
    TypeInput string | Send string string string string | Stream AssistantStreamEvent | Ended "string option"
  | Accept "nat list" string | Reject string | Clear | Resize int int | Viewport int | Collapse

fun assistant_step :: "assistant \<Rightarrow> assistant_event \<Rightarrow> assistant" where
  "assistant_step a (TypeInput s) = a\<lparr>as_input := s\<rparr>"
| "assistant_step a (Send backend model u i) = snd (assistant_send backend model u i a)"
| "assistant_step a (Stream e) = (case as_request a of None \<Rightarrow> a | Some i \<Rightarrow> onEvent i e a)"
| "assistant_step a (Ended failure) = (case as_request a of None \<Rightarrow> a | Some i \<Rightarrow> request_ended i failure a)"
| "assistant_step a (Accept clocks i) =
     (case find (\<lambda>m. am_id m = i) (as_messages a) of
        None \<Rightarrow> a
      | Some m \<Rightarrow> if plan_offered m then handleAccept clocks i a else a)"
| "assistant_step a (Reject i) = handleReject i a"
| "assistant_step a Clear = handleClear a"
| "assistant_step a (Resize h d) = handleResize h d a"
| "assistant_step a (Viewport h) = viewport_resized h a"
| "assistant_step a Collapse = a\<lparr>as_collapsed := \<not> as_collapsed a\<rparr>"

text \<open>
  A message streams only while the request that writes to it is under way, the panel is busy exactly
  while there is one, and the panel's height stays within its bounds.
\<close>

definition conversation_ok :: "assistant \<Rightarrow> bool" where
  "conversation_ok a \<longleftrightarrow> as_busy a = (as_request a \<noteq> None) \<and>
     list_all (\<lambda>m. am_streaming m \<longrightarrow> as_request a = Some (am_id m)) (as_messages a) \<and>
     MIN_HEIGHT \<le> as_height a \<and> as_height a \<le> MAX_HEIGHT_ABSOLUTE"

lemma fold_event_shape:
  "map (\<lambda>m. (am_id m, am_streaming m)) (snd (fold_event i e (n, ms))) = map (\<lambda>m. (am_id m, am_streaming m)) ms"
  by (induction ms arbitrary: n) (auto simp: split_beta Let_def)

lemma streaming_cong:
  "map (\<lambda>m. (am_id m, am_streaming m)) ms = map (\<lambda>m. (am_id m, am_streaming m)) ms' \<Longrightarrow>
     list_all (\<lambda>m. am_streaming m \<longrightarrow> r = Some (am_id m)) ms = list_all (\<lambda>m. am_streaming m \<longrightarrow> r = Some (am_id m)) ms'"
proof (induction ms arbitrary: ms')
  case (Cons m ms)
  then show ?case by (cases ms') auto
qed simp

lemma conversation_ok_update:
  assumes "conversation_ok a" and "\<And>m. am_id (f m) = am_id m" and "\<And>m. am_streaming (f m) \<Longrightarrow> am_streaming m"
  shows "conversation_ok (updateAssistant i f a)"
  using assms by (auto simp: conversation_ok_def updateAssistant_def list_all_iff)

lemma conversation_ok_ended:
  assumes "conversation_ok a" and "as_request a = Some i"
  shows "conversation_ok (request_ended i failure a)"
  using assms by (cases failure) (auto simp: conversation_ok_def request_ended_def updateAssistant_def list_all_iff Let_def)

lemma conversation_ok_event:
  assumes "conversation_ok a"
  shows "conversation_ok (onEvent i e a)"
proof -
  have "conversation_ok (let (n, ms) = fold_event i e (as_blockIds a, as_messages a) in a\<lparr>as_messages := ms, as_blockIds := n\<rparr>)"
    using assms streaming_cong [OF fold_event_shape] by (auto simp: conversation_ok_def split_beta Let_def)
  then show ?thesis using assms by (cases e) (auto intro!: conversation_ok_update)
qed

lemma conversation_step: "conversation_ok a \<Longrightarrow> conversation_ok (assistant_step a e)"
proof (cases e)
  case (Accept clocks i)
  assume ok: "conversation_ok a"
  have "conversation_ok (handleAccept clocks i a)"
    using ok by (auto simp: handleAccept_def split_beta intro!: conversation_ok_update split: option.split)
      (simp add: conversation_ok_def)
  then show ?thesis using ok Accept by (simp split: option.split)
next
  case (Send backend model u i)
  assume "conversation_ok a"
  then show ?thesis using Send
    by (auto simp: conversation_ok_def assistant_send_def Let_def user_message_def answer_message_def list_all_iff)
next
  case (Ended failure)
  assume "conversation_ok a"
  then show ?thesis using Ended by (auto simp: conversation_ok_ended split: option.split)
next
  case (Stream e)
  assume "conversation_ok a"
  then show ?thesis using Stream by (auto intro: conversation_ok_event split: option.split)
next
  case (Reject i)
  assume "conversation_ok a"
  then show ?thesis using Reject by (auto simp: handleReject_def intro!: conversation_ok_update)
qed (auto simp: handleClear_def handleResize_def
  viewport_resized_def getMaxHeight_def MIN_HEIGHT_def MAX_HEIGHT_ABSOLUTE_def conversation_ok_def split: option.split)

interpretation conversation: machine assistant_step conversation_ok
  by unfold_locales (rule conversation_step)


end
