(* ===== verification/PanelResize.thy ===== *)
theory PanelResize
  imports EditorFacts ChatText
begin

text \<open>
  Panels whose width the user drags (\<open>features/workspace/hooks/use-panel-resize.ts\<close>): the clamp, the
  width that is kept in the browser's storage per mode, and a drag from its mouse-down to its
  mouse-up. Widths and mouse positions are whole pixels; \<open>window.innerWidth\<close> is part of the state.
\<close>

section \<open>Numbers in strings\<close>

text \<open>\<open>parseInt(s, 10)\<close>, None where it is NaN.\<close>

definition is_digit :: "char \<Rightarrow> bool" where
  "is_digit c \<longleftrightarrow> (48 :: nat) \<le> of_char c \<and> (of_char c :: nat) < 58"

definition parse_digits :: "string \<Rightarrow> int option" where
  "parse_digits s = (if takeWhile is_digit s = [] then None else Some (int (string_nat (takeWhile is_digit s))))"

definition parseInt10 :: "string \<Rightarrow> int option" where
  "parseInt10 s =
     (case dropWhile (\<lambda>c. c \<in> {CHR '' '', CHR 0x09, CHR 0x0A, CHR 0x0D}) s of
        [] \<Rightarrow> None
      | c # cs \<Rightarrow> if c = CHR ''-'' then map_option uminus (parse_digits cs)
                  else if c = CHR ''+'' then parse_digits cs else parse_digits (c # cs))"

section \<open>The hook\<close>

datatype panel_side = LeftSide | RightSide

record UsePanelResizeOptions =
  po_storageKey :: string
  po_defaultWidth :: int
  po_minWidth :: int
  po_reserveForMain :: "int option"
  po_maxWidth :: "int option"
  po_side :: panel_side

definition clamp_ceiling :: "UsePanelResizeOptions \<Rightarrow> int \<Rightarrow> int" where
  "clamp_ceiling opts innerWidth =
     (let viewportCeiling = innerWidth - (case po_reserveForMain opts of Some r \<Rightarrow> r | None \<Rightarrow> 0)
      in max (po_minWidth opts)
           (case po_maxWidth opts of Some hard \<Rightarrow> min hard viewportCeiling | None \<Rightarrow> viewportCeiling))"

definition clamp_width :: "UsePanelResizeOptions \<Rightarrow> int \<Rightarrow> int \<Rightarrow> int" where
  "clamp_width opts innerWidth px = max (po_minWidth opts) (min (clamp_ceiling opts innerWidth) px)"

text \<open>A drag under way: where it started, the width then, and the options its closure has.\<close>

record panel_drag =
  dg_startX :: int
  dg_startWidth :: int
  dg_opts :: UsePanelResizeOptions

record panel_width =
  pw_opts :: UsePanelResizeOptions
  pw_innerWidth :: int
  pw_width :: int
  pw_activeKey :: string
  pw_drag :: "panel_drag option"
  pw_storage :: "(string, string) jmap"

text \<open>The effect that loads the width of the mode.\<close>

definition load_width :: "panel_width \<Rightarrow> panel_width" where
  "load_width p =
     (let opts = pw_opts p;
          stored = (case mget (pw_storage p) (po_storageKey opts) of
                      Some raw \<Rightarrow> if raw = [] then None else parseInt10 raw
                    | None \<Rightarrow> None)
      in p\<lparr>pw_width := clamp_width opts (pw_innerWidth p) (case stored of Some w \<Rightarrow> w | None \<Rightarrow> po_defaultWidth opts),
           pw_activeKey := po_storageKey opts\<rparr>)"

text \<open>The effect of a new clamp, and of the window's \<open>resize\<close>.\<close>

definition reclamp :: "panel_width \<Rightarrow> panel_width" where
  "reclamp p = p\<lparr>pw_width := clamp_width (pw_opts p) (pw_innerWidth p) (pw_width p)\<rparr>"

definition usePanelResize :: "UsePanelResizeOptions \<Rightarrow> int \<Rightarrow> (string, string) jmap \<Rightarrow> panel_width" where
  "usePanelResize opts innerWidth storage = reclamp (load_width
     \<lparr>pw_opts = opts, pw_innerWidth = innerWidth, pw_width = po_defaultWidth opts, pw_activeKey = po_storageKey opts,
      pw_drag = None, pw_storage = storage\<rparr>)"

text \<open>A render with other options: the width of another mode is loaded, then it is clamped again.\<close>

definition options_change :: "UsePanelResizeOptions \<Rightarrow> panel_width \<Rightarrow> panel_width" where
  "options_change opts p =
     (let p1 = p\<lparr>pw_opts := opts\<rparr>
      in reclamp (if po_storageKey opts \<noteq> po_storageKey (pw_opts p) \<or> po_defaultWidth opts \<noteq> po_defaultWidth (pw_opts p)
                  then load_width p1 else p1))"

definition window_resize :: "int \<Rightarrow> panel_width \<Rightarrow> panel_width" where
  "window_resize innerWidth p = reclamp (p\<lparr>pw_innerWidth := innerWidth\<rparr>)"

definition panel_mouse_down :: "int \<Rightarrow> panel_width \<Rightarrow> panel_width" where
  "panel_mouse_down clientX p =
     p\<lparr>pw_drag := Some \<lparr>dg_startX = clientX, dg_startWidth = pw_width p, dg_opts = pw_opts p\<rparr>\<rparr>"

definition panel_mouse_move :: "int \<Rightarrow> panel_width \<Rightarrow> panel_width" where
  "panel_mouse_move clientX p =
     (case pw_drag p of
        None \<Rightarrow> p
      | Some d \<Rightarrow> p\<lparr>pw_width := clamp_width (dg_opts d) (pw_innerWidth p)
            (dg_startWidth d + (clientX - dg_startX d) * (if po_side (dg_opts d) = LeftSide then 1 else - 1))\<rparr>)"

text \<open>The width is stored under the key of the mode that is shown; \<open>full\<close> is a storage that throws.\<close>

definition panel_mouse_up :: "bool \<Rightarrow> panel_width \<Rightarrow> panel_width" where
  "panel_mouse_up full p =
     (case pw_drag p of
        None \<Rightarrow> p
      | Some d \<Rightarrow> p\<lparr>pw_drag := None,
            pw_storage := (if full then pw_storage p else mput (pw_activeKey p) (int_string (pw_width p)) (pw_storage p))\<rparr>)"

section \<open>Bounds\<close>

lemma clamp_bounds: "po_minWidth opts \<le> clamp_width opts w px \<and> clamp_width opts w px \<le> clamp_ceiling opts w"
  by (auto simp: clamp_width_def clamp_ceiling_def Let_def)

lemma clamp_id: "po_minWidth opts \<le> px \<Longrightarrow> px \<le> clamp_ceiling opts w \<Longrightarrow> clamp_width opts w px = px"
  by (simp add: clamp_width_def)

datatype resize_event =
    OptionsChange UsePanelResizeOptions | WindowResize int | MouseDown int | MouseMove int | MouseUp bool

text \<open>The options of a panel that is being dragged are those its drag began with.\<close>

fun resize_step :: "panel_width \<Rightarrow> resize_event \<Rightarrow> panel_width" where
  "resize_step p (OptionsChange opts) = (if pw_drag p = None then options_change opts p else p)"
| "resize_step p (WindowResize w) = window_resize w p"
| "resize_step p (MouseDown x) = panel_mouse_down x p"
| "resize_step p (MouseMove x) = panel_mouse_move x p"
| "resize_step p (MouseUp full) = panel_mouse_up full p"

definition width_ok :: "panel_width \<Rightarrow> bool" where
  "width_ok p \<longleftrightarrow> po_minWidth (pw_opts p) \<le> pw_width p \<and> pw_width p \<le> clamp_ceiling (pw_opts p) (pw_innerWidth p) \<and>
     (case pw_drag p of None \<Rightarrow> True | Some d \<Rightarrow> dg_opts d = pw_opts p) \<and> pw_activeKey p = po_storageKey (pw_opts p)"

lemma width_ok_reclamp:
  "(case pw_drag p of None \<Rightarrow> True | Some d \<Rightarrow> dg_opts d = pw_opts p) \<Longrightarrow> pw_activeKey p = po_storageKey (pw_opts p) \<Longrightarrow>
     width_ok (reclamp p)"
  by (simp add: width_ok_def reclamp_def clamp_bounds split: option.splits)

lemma resize_step_ok: "width_ok p \<Longrightarrow> width_ok (resize_step p e)"
proof (cases e)
  case (OptionsChange opts)
  assume "width_ok p"
  then show ?thesis using OptionsChange
    by (auto simp: options_change_def Let_def load_width_def width_ok_def [of p] intro!: width_ok_reclamp)
next
  case (WindowResize w)
  assume "width_ok p"
  then show ?thesis using WindowResize
    by (auto simp: window_resize_def width_ok_def [of p] intro!: width_ok_reclamp split: option.splits)
qed (auto simp: width_ok_def panel_mouse_down_def panel_mouse_move_def panel_mouse_up_def clamp_bounds split: option.splits)

interpretation panel_resizing: machine resize_step width_ok
  by unfold_locales (rule resize_step_ok)

text \<open>
  A panel is never narrower than its least width nor wider than what its window, the room
  reserved for the main column and its own limit leave, in whatever order the window and the mode change
  and the handle is dragged.
\<close>

theorem panel_width_in_bounds:
  "let p = foldl resize_step (usePanelResize opts innerWidth storage) es
   in po_minWidth (pw_opts p) \<le> pw_width p \<and> pw_width p \<le> clamp_ceiling (pw_opts p) (pw_innerWidth p)"
proof -
  have "width_ok (usePanelResize opts innerWidth storage)"
    unfolding usePanelResize_def by (rule width_ok_reclamp) (simp_all add: load_width_def Let_def)
  from panel_resizing.run_good [OF this, of es] show ?thesis by (simp add: width_ok_def Let_def)
qed

section \<open>What is stored is what is shown\<close>

lemma nat_string_not_Nil: "nat_string n \<noteq> []"
  by (subst nat_string.simps) simp

lemma nat_string_is_digits: "takeWhile is_digit (nat_string n) = nat_string n"
  using nat_string_digits by (simp add: takeWhile_eq_all_conv is_digit_def)

lemma parse_nat_string: "parseInt10 (nat_string n) = Some (int n)"
proof -
  obtain c cs where c: "nat_string n = c # cs" using nat_string_not_Nil by (cases "nat_string n") auto
  have d: "(48 :: nat) \<le> of_char c" using nat_string_digits [of c n] c by simp
  have "c \<notin> {CHR '' '', CHR 0x09, CHR 0x0A, CHR 0x0D, CHR ''-'', CHR ''+''}" using d by auto
  moreover have "parse_digits (c # cs) = Some (int n)"
    using nat_string_is_digits [of n] string_nat_string [of n] by (simp add: parse_digits_def c del: string_nat.simps)
  ultimately show ?thesis by (simp add: parseInt10_def c del: string_nat.simps)
qed

text \<open>
  A width that was dragged is the width of the panel when it is shown again in the same mode and
  window.
\<close>

theorem dragged_width_comes_back:
  assumes "width_ok p" and "0 \<le> po_minWidth (pw_opts p)" and "pw_drag p \<noteq> None"
  shows "pw_width (usePanelResize (pw_opts p) (pw_innerWidth p) (pw_storage (panel_mouse_up False p))) = pw_width p"
proof -
  have w: "0 \<le> pw_width p" using assms(1,2) by (simp add: width_ok_def)
  then have "int_string (pw_width p) = nat_string (nat (pw_width p))" by (simp add: int_string_def)
  then have "parseInt10 (int_string (pw_width p)) = Some (pw_width p)" "int_string (pw_width p) \<noteq> []"
    using w by (simp_all add: parse_nat_string nat_string_not_Nil)
  moreover have "mget (pw_storage (panel_mouse_up False p)) (po_storageKey (pw_opts p)) = Some (int_string (pw_width p))"
    using assms(1,3) by (auto simp: panel_mouse_up_def width_ok_def mget_mput)
  ultimately show ?thesis using assms(1)
    by (simp add: usePanelResize_def load_width_def reclamp_def Let_def clamp_id width_ok_def)
qed

text \<open>
  The key is kept in a reference ``so a mode switch mid-drag still persists under the key that was active when
  the drag started'', but the switch sets the reference too: the width goes under the new mode's key.
\<close>

lemma mode_switch_stores_under_new_key:
  assumes "po_storageKey opts \<noteq> po_storageKey (pw_opts p)"
  shows "let p' = options_change opts (panel_mouse_down x p)
         in pw_storage (panel_mouse_up False p') = mput (po_storageKey opts) (int_string (pw_width p')) (pw_storage p)"
  using assms by (simp add: options_change_def panel_mouse_down_def panel_mouse_up_def load_width_def reclamp_def Let_def)

end
