(* ===== verification/Login.thy ===== *)
theory Login
  imports WebClient Codec
begin

text \<open>
  Signing in (\<open>web/src/lib/auth\<close>, \<open>features/auth\<close>): the PKCE helpers, what the browser keeps between the
  redirects, the login, its callback and the logout, and the state that the rest of the client sees.
  Parameters: the hash (\<open>crypto.subtle.digest\<close>) and the random bytes (\<open>crypto.getRandomValues\<close>). An
  asynchronous function is a function of the replies that it gets.
\<close>

section \<open>PKCE\<close>

text \<open>\<open>b.toString(16).padStart(2, "0")\<close> of a byte.\<close>

definition low_hex :: "nat \<Rightarrow> char" where
  "low_hex n = char_of (if n < 10 then 48 + n else 87 + n)"

definition byte_hex :: "octet \<Rightarrow> string" where
  "byte_hex b = [low_hex (unat b div 16), low_hex (unat b mod 16)]"

definition generateRandomString :: "nat \<Rightarrow> octet list \<Rightarrow> string" where
  "generateRandomString len random = take len (concat (map byte_hex (take len random)))"

definition url_char :: "char \<Rightarrow> char" where
  "url_char c = (if c = CHR ''+'' then CHR ''-'' else if c = CHR ''/'' then CHR ''_'' else c)"

definition base64UrlEncode :: "octet list \<Rightarrow> string" where
  "base64UrlEncode bytes = rev (dropWhile (\<lambda>c. c = CHR ''='') (rev (map url_char (btoa bytes))))"

record pkce =
  codeVerifier :: string
  codeChallenge :: string

definition generatePkce :: "(octet list \<Rightarrow> octet list) \<Rightarrow> octet list \<Rightarrow> pkce" where
  "generatePkce sha256 random =
     (let v = generateRandomString 64 random
      in \<lparr>codeVerifier = v, codeChallenge = base64UrlEncode (sha256 (utf8_encode (text_of v)))\<rparr>)"

definition generateState :: "octet list \<Rightarrow> string" where
  "generateState random = generateRandomString 32 random"

section \<open>What the browser keeps\<close>

record AuthConfig =
  ac_idp_enabled :: bool
  ac_issuer :: string
  ac_client_id :: string
  ac_authorization_endpoint :: string
  ac_token_endpoint :: string
  ac_end_session_endpoint :: string

text \<open>
  The tab: \<open>sessionStorage\<close>, the promise of the configuration (its value, or the error it rejected with),
  the origin, and where the page has been sent.
\<close>

record auth_tab =
  at_storage :: "(string, string) jmap"
  at_config :: "(string + AuthConfig) option"
  at_origin :: string
  at_location :: "string option"

definition pkceVerifier_key :: string where "pkceVerifier_key = ''aviary_pkce_verifier''"
definition authState_key :: string where "authState_key = ''aviary_auth_state''"

definition setPkce :: "string \<Rightarrow> string \<Rightarrow> auth_tab \<Rightarrow> auth_tab" where
  "setPkce verifier st t = t\<lparr>at_storage := mput authState_key st (mput pkceVerifier_key verifier (at_storage t))\<rparr>"

definition getPkceVerifier :: "auth_tab \<Rightarrow> string option" where
  "getPkceVerifier t = mget (at_storage t) pkceVerifier_key"

definition getAuthState :: "auth_tab \<Rightarrow> string option" where
  "getAuthState t = mget (at_storage t) authState_key"

definition clearPkce :: "auth_tab \<Rightarrow> auth_tab" where
  "clearPkce t = t\<lparr>at_storage := mdelete authState_key (mdelete pkceVerifier_key (at_storage t))\<rparr>"

section \<open>Login, callback, logout\<close>

text \<open>A reply of the API: none, with the message of the error, or the status, its text and the JSON body.\<close>

datatype auth_reply = Unreachable string | Answered nat string "json option"

definition is_ok :: "nat \<Rightarrow> bool" where
  "is_ok status \<longleftrightarrow> 200 \<le> status \<and> status < 300"

text \<open>\<open>body?.detail || res.statusText || d\<close>.\<close>

definition reply_error :: "(json \<Rightarrow> string) \<Rightarrow> string \<Rightarrow> string \<Rightarrow> json option \<Rightarrow> string" where
  "reply_error to_str d statusText body =
     (case Option.bind body (\<lambda>b. jget b ''detail'') of
        Some v \<Rightarrow> if jtruthy (Some v) then js_string to_str v else if statusText \<noteq> [] then statusText else d
      | None \<Rightarrow> if statusText \<noteq> [] then statusText else d)"

text \<open>The promise is kept whatever becomes of it; \<open>reply\<close> is used only by the call that makes it.\<close>

definition fetchAuthConfig :: "string + AuthConfig \<Rightarrow> auth_tab \<Rightarrow> (string + AuthConfig) \<times> auth_tab" where
  "fetchAuthConfig reply t =
     (case at_config t of
        Some c \<Rightarrow> (c, t)
      | None \<Rightarrow> (reply, t\<lparr>at_config := Some reply\<rparr>))"

definition devLogin :: "(json \<Rightarrow> string) \<Rightarrow> auth_reply \<Rightarrow> string option" where
  "devLogin to_str reply =
     (case reply of
        Unreachable m \<Rightarrow> Some m
      | Answered status statusText body \<Rightarrow>
          if is_ok status then None else Some (reply_error to_str ''Dev login failed'' statusText body))"

definition authorization_params :: "AuthConfig \<Rightarrow> string \<Rightarrow> string \<Rightarrow> string \<Rightarrow> (string \<times> string) list" where
  "authorization_params config origin challenge st =
     [(''response_type'', ''code''), (''client_id'', ac_client_id config), (''redirect_uri'', origin @ ''/auth/callback''),
      (''scope'', ''openid profile email offline_access''), (''code_challenge'', challenge),
      (''code_challenge_method'', ''S256''), (''state'', st)]"

text \<open>The error it rejects with, if it does. The replies: the configuration, and the development login.\<close>

definition initiateLogin ::
  "(json \<Rightarrow> string) \<Rightarrow> (octet list \<Rightarrow> octet list) \<Rightarrow> octet list \<Rightarrow> octet list \<Rightarrow> string + AuthConfig \<Rightarrow> auth_reply \<Rightarrow>
     auth_tab \<Rightarrow> string option \<times> auth_tab" where
  "initiateLogin to_str sha256 random1 random2 config_reply dev_reply t =
     (case fetchAuthConfig config_reply t of
        (Inl err, t1) \<Rightarrow> (Some err, t1)
      | (Inr config, t1) \<Rightarrow>
          if \<not> ac_idp_enabled config then
            (case devLogin to_str dev_reply of
               Some err \<Rightarrow> (Some err, t1)
             | None \<Rightarrow> (None, t1\<lparr>at_location := Some ''/''\<rparr>))
          else
            (let p = generatePkce sha256 random1; st = generateState random2
             in (None, (setPkce (codeVerifier p) st t1)\<lparr>at_location :=
                   Some (ac_authorization_endpoint config @ ''?'' @
                     search_params (authorization_params config (at_origin t1) (codeChallenge p) st))\<rparr>)))"

text \<open>The request of the callback, if it gets that far: the code, the redirect and the verifier.\<close>

record callback_body =
  cb_code :: string
  cb_redirect_uri :: string
  cb_code_verifier :: string

definition callback_request :: "string \<Rightarrow> string \<Rightarrow> auth_tab \<Rightarrow> string + callback_body" where
  "callback_request code st t =
     (if getAuthState t \<noteq> Some st then Inl ''Invalid state parameter - possible CSRF attack''
      else if \<not> truthy (getPkceVerifier t) then Inl ''Missing PKCE code verifier''
      else Inr \<lparr>cb_code = code, cb_redirect_uri = at_origin t @ ''/auth/callback'',
                cb_code_verifier = the (getPkceVerifier t)\<rparr>)"

definition handleCallback :: "(json \<Rightarrow> string) \<Rightarrow> string \<Rightarrow> string \<Rightarrow> auth_reply \<Rightarrow> auth_tab \<Rightarrow> string option \<times> auth_tab" where
  "handleCallback to_str code st reply t =
     (case callback_request code st t of
        Inl err \<Rightarrow> (Some err, t)
      | Inr _ \<Rightarrow>
          (case reply of
             Unreachable m \<Rightarrow> (Some m, t)
           | Answered status statusText body \<Rightarrow>
               (if is_ok status then None else Some (reply_error to_str ''Auth callback failed'' statusText body), clearPkce t)))"

text \<open>The logout ends at the URL of the reply's body, or at the login page; a string that is empty is none.\<close>

definition logout :: "auth_reply \<Rightarrow> auth_tab \<Rightarrow> auth_tab" where
  "logout reply t =
     (let url = (case reply of
                   Unreachable m \<Rightarrow> []
                 | Answered status statusText body \<Rightarrow>
                     if is_ok status
                     then (case jstr (Option.bind body (\<lambda>b. jget b ''end_session_url'')) of Some u \<Rightarrow> u | None \<Rightarrow> [])
                     else [])
      in t\<lparr>at_location := Some (if url \<noteq> [] then url else ''/login'')\<rparr>)"

section \<open>The provider and the callback page\<close>

datatype auth_status = AuthLoading | Authenticated | Unauthenticated

record 'u auth_context =
  au_user :: "'u option"
  au_status :: auth_status

definition newAuth :: "'u auth_context" where
  "newAuth = \<lparr>au_user = None, au_status = AuthLoading\<rparr>"

text \<open>\<open>refreshUser\<close>: an error that is not \<open>UnauthorizedError\<close> is thrown on and changes nothing.\<close>

definition refreshUser :: "web_error + 'u \<Rightarrow> 'u auth_context \<Rightarrow> web_error option \<times> 'u auth_context" where
  "refreshUser ans a =
     (case ans of
        Inr u \<Rightarrow> (None, a\<lparr>au_user := Some u, au_status := Authenticated\<rparr>)
      | Inl (Api e) \<Rightarrow>
          if ae_class e = UnauthorizedError then (None, a\<lparr>au_user := None, au_status := Unauthenticated\<rparr>)
          else (Some (Api e), a)
      | Inl err \<Rightarrow> (Some err, a))"

definition handleLogout :: "auth_reply \<Rightarrow> 'u auth_context \<times> auth_tab \<Rightarrow> 'u auth_context \<times> auth_tab" where
  "handleLogout reply s =
     (case s of (a, t) \<Rightarrow> (a\<lparr>au_user := None, au_status := Unauthenticated\<rparr>, logout reply t))"

text \<open>The page that the identity provider redirects to: whether it has begun, the error it shows, and where it goes.\<close>

record callback_page =
  pg_processed :: bool
  pg_error :: "string option"
  pg_target :: "string option"

datatype callback_action = NoAction | Exchange string string

text \<open>The effect, on the parameters of the URL: what it shows, or the exchange it starts.\<close>

definition callback_effect :: "(string \<times> string) list \<Rightarrow> callback_page \<Rightarrow> callback_action \<times> callback_page" where
  "callback_effect params p =
     (if pg_processed p then (NoAction, p)
      else if truthy (map_of params ''error'') then
        (NoAction, p\<lparr>pg_error := Some (if truthy (map_of params ''error_description'')
           then the (map_of params ''error_description'') else the (map_of params ''error''))\<rparr>)
      else if \<not> truthy (map_of params ''code'') \<or> \<not> truthy (map_of params ''state'') then
        (NoAction, p\<lparr>pg_error := Some ''Missing authorization code or state''\<rparr>)
      else (Exchange (the (map_of params ''code'')) (the (map_of params ''state'')), p\<lparr>pg_processed := True\<rparr>))"

text \<open>The end of the exchange, with the message of the error that it or \<open>refreshUser\<close> threw, if one did.\<close>

definition callback_done :: "string option \<Rightarrow> callback_page \<Rightarrow> callback_page" where
  "callback_done err p =
     (case err of
        None \<Rightarrow> p\<lparr>pg_target := Some ''/''\<rparr>
      | Some m \<Rightarrow> p\<lparr>pg_processed := False, pg_error := Some m\<rparr>)"

text \<open>\<open>AuthGuard\<close>: what a protected page shows, and where it sends the user.\<close>

definition guard_shows :: "'u auth_context \<Rightarrow> bool" where
  "guard_shows a \<longleftrightarrow> \<not> (au_status a = AuthLoading \<or> au_user a = None)"

definition guard_redirect :: "'u auth_context \<Rightarrow> string option" where
  "guard_redirect a = (if au_status a = Unauthenticated then Some ''/login'' else None)"

text \<open>
  The preferences (\<open>features/auth/hooks/use-preferences.ts\<close>): the user's, under what this component has
  changed; an update is taken back key by key when the server refuses it.
\<close>

definition spread_prefs :: "(string, json) jmap \<Rightarrow> (string, json) jmap \<Rightarrow> (string, json) jmap" where
  "spread_prefs a b = foldl (\<lambda>m (k, v). mput k v m) a b"

definition preferences :: "(string, json) jmap option \<Rightarrow> (string, json) jmap \<Rightarrow> (string, json) jmap" where
  "preferences user_prefs overlay = spread_prefs (spread_prefs [] (case user_prefs of Some p \<Rightarrow> p | None \<Rightarrow> [])) overlay"

definition update_overlay :: "(string, json) jmap \<Rightarrow> (string, json) jmap \<Rightarrow> (string, json) jmap" where
  "update_overlay patch overlay = spread_prefs (spread_prefs [] overlay) patch"

definition rollback_overlay :: "(string, json) jmap \<Rightarrow> (string, json) jmap \<Rightarrow> (string, json) jmap" where
  "rollback_overlay patch overlay = foldl (\<lambda>m k. mdelete k m) (spread_prefs [] overlay) (map fst patch)"

section \<open>What holds\<close>

text \<open>The characters that need no escaping in a URL.\<close>

definition url_safe :: "char \<Rightarrow> bool" where
  "url_safe c \<longleftrightarrow> (let n = of_char c :: nat in
     48 \<le> n \<and> n < 58 \<or> 65 \<le> n \<and> n < 91 \<or> 97 \<le> n \<and> n < 123 \<or> n = 45 \<or> n = 95)"

lemma low_hex_safe: "n < 16 \<Longrightarrow> url_safe (low_hex n)"
  by (auto simp: low_hex_def url_safe_def Let_def)

lemma byte_hex_safe: "list_all url_safe (byte_hex b)"
proof -
  have "unat b < 256" by (rule octet_bound)
  then have "unat b div 16 < 16" by simp
  then show ?thesis by (simp add: byte_hex_def low_hex_safe)
qed

lemma b64_char_safe: "n < 64 \<Longrightarrow> url_safe (url_char (b64_char n))"
proof -
  have "list_all (\<lambda>n. url_safe (url_char (b64_char n))) [0..<64]" by code_simp
  then show "n < 64 \<Longrightarrow> url_safe (url_char (b64_char n))" by (simp add: list_all_iff)
qed

text \<open>What \<open>btoa\<close> writes: characters that are safe once translated, and then the padding.\<close>

definition padded :: "string \<Rightarrow> bool" where
  "padded s \<longleftrightarrow> (\<exists>body k. s = body @ replicate k (CHR ''='') \<and> list_all (\<lambda>c. url_safe (url_char c)) body)"

lemma padded_Cons: "list_all (\<lambda>c. url_safe (url_char c)) cs \<Longrightarrow> padded s \<Longrightarrow> padded (cs @ s)"
  unfolding padded_def by (metis append.assoc list_all_append)

lemma padded_replicate: "padded (replicate k (CHR ''=''))"
  unfolding padded_def by (metis append_Nil list.pred_inject(1))

lemma btoa_padded: "padded (btoa bs)"
proof (induction bs rule: btoa.induct)
  case (4 a b c bs)
  have o: "unat a < 256" "unat b < 256" "unat c < 256" by (rule octet_bound)+
  have "unat b div 16 < 16" "unat c div 64 < 4" using o by simp_all
  with 4 o show ?case unfolding btoa.simps by (intro padded_Cons) (auto simp: sextet_bounds intro!: b64_char_safe)
next
  case (3 a b)
  have o: "unat a < 256" "unat b < 256" by (rule octet_bound)+
  have "unat b div 16 < 16" using o by simp
  with o have "list_all (\<lambda>c. url_safe (url_char c)) [b64_char (unat a div 4), b64_char (unat a mod 4 * 16 + unat b div 16),
      b64_char (unat b mod 16 * 4)]"
    by (auto simp: sextet_bounds intro!: b64_char_safe)
  from padded_Cons [OF this padded_replicate [of 1]] show ?case by simp
next
  case (2 a)
  have "unat a < 256" by (rule octet_bound)
  then have "list_all (\<lambda>c. url_safe (url_char c)) [b64_char (unat a div 4), b64_char (unat a mod 4 * 16)]"
    by (auto simp: sextet_bounds intro!: b64_char_safe)
  from padded_Cons [OF this padded_replicate [of 2]] show ?case by (simp add: numeral_2_eq_2)
qed (use padded_replicate [of 0] in simp)

lemma dropWhile_pad:
  "list_all (\<lambda>c. \<not> P c) ys \<Longrightarrow> list_all P xs \<Longrightarrow> dropWhile P (xs @ ys) = ys"
  by (cases ys) (auto simp: list_all_iff dropWhile_append2)

lemma url_safe_not_pad: "url_safe c \<Longrightarrow> c \<noteq> CHR ''=''"
  by (auto simp: url_safe_def)

lemma base64UrlEncode_body:
  obtains body k where "btoa bytes = body @ replicate k (CHR ''='')" "list_all (\<lambda>c. url_safe (url_char c)) body"
    "base64UrlEncode bytes = map url_char body"
proof -
  obtain body k where b: "btoa bytes = body @ replicate k (CHR ''='')" "list_all (\<lambda>c. url_safe (url_char c)) body"
    using btoa_padded [of bytes] by (auto simp: padded_def)
  have "url_char (CHR ''='') = CHR ''=''" by (simp add: url_char_def)
  then have "dropWhile (\<lambda>c. c = CHR ''='') (rev (map url_char (btoa bytes))) = rev (map url_char body)"
    unfolding b(1) map_append rev_append map_replicate rev_replicate
    using b(2) by (intro dropWhile_pad) (auto simp: list_all_iff dest: url_safe_not_pad)
  then have "base64UrlEncode bytes = map url_char body" by (simp add: base64UrlEncode_def)
  with b show ?thesis by (rule that)
qed

lemma b64_value_url_char: "b64_value (unit_of (of_char (url_char c))) = b64_value (unit_of (of_char c))"
  by (simp add: url_char_def b64_value_def Let_def)

text \<open>
  What goes into the URL of the login needs no escaping and loses nothing: the verifier, the state and the
  challenge consist of unreserved characters only, and decoding the challenge gives back the hash it was made of.
\<close>

theorem challenge_is_url_safe:
  "list_all url_safe (base64UrlEncode bytes) \<and> list_all url_safe (generateRandomString n random) \<and>
   base64_decode (text_of (base64UrlEncode bytes)) = bytes"
proof -
  obtain body k where b: "btoa bytes = body @ replicate k (CHR ''='')" "list_all (\<lambda>c. url_safe (url_char c)) body"
    "base64UrlEncode bytes = map url_char body" by (rule base64UrlEncode_body)
  have "list_all url_safe (concat (map byte_hex xs))" for xs
    using byte_hex_safe by (induction xs) simp_all
  then have r: "list_all url_safe (generateRandomString n random)"
    unfolding generateRandomString_def by (meson in_set_takeD list_all_iff)
  have "List.map_filter b64_value (text_of (map url_char body)) = List.map_filter b64_value (text_of body)"
    by (induction body) (simp_all add: text_of_def map_filter_simps b64_value_url_char split: option.split)
  moreover have "List.map_filter b64_value (text_of (replicate k (CHR ''=''))) = []"
    by (induction k) (simp_all add: text_of_def map_filter_simps b64_value_pad)
  moreover have "text_of (u @ v) = text_of u @ text_of v" for u v by (simp add: text_of_def)
  moreover have "List.map_filter f (xs @ ys) = List.map_filter f xs @ List.map_filter f ys" for f :: "16 word \<Rightarrow> nat option" and xs ys
    by (simp add: List.map_filter_def)
  ultimately have "base64_decode (text_of (map url_char body)) = base64_decode (text_of (btoa bytes))"
    unfolding b(1) by (simp add: base64_decode_def)
  then show ?thesis using b(2,3) r by (simp add: base64_decode_btoa list.pred_map comp_def)
qed

lemma storage_after_set [simp]:
  "getAuthState (setPkce v st t) = Some st" "getPkceVerifier (setPkce v st t) = Some v"
  by (simp_all add: setPkce_def getAuthState_def getPkceVerifier_def authState_key_def pkceVerifier_key_def)

lemma random_string_not_empty: "random \<noteq> [] \<Longrightarrow> 0 < n \<Longrightarrow> generateRandomString n random \<noteq> []"
  by (cases random; cases n) (simp_all add: generateRandomString_def byte_hex_def)



text \<open>
  A login is used once: when the server has answered the exchange, well or badly, every further callback of
  the same tab is refused.
\<close>

theorem callback_is_used_once:
  assumes "callback_request code st t = Inr b"
  shows "callback_request code' st' (snd (handleCallback to_str code st (Answered status statusText body) t)) =
    Inl ''Invalid state parameter - possible CSRF attack''"
  using assms by (simp add: handleCallback_def callback_request_def [of code' st'] clearPkce_def getAuthState_def
      authState_key_def pkceVerifier_key_def)

text \<open>A configuration that could not be fetched once is never fetched again: no login gets further in this tab.\<close>

lemma config_failure_sticks:
  assumes "fetchAuthConfig (Inl err) t = (Inl err, t1)"
  shows "initiateLogin to_str sha256 random1 random2 config_reply dev_reply t1 = (Some err, t1)"
  using assms by (auto simp: initiateLogin_def fetchAuthConfig_def split: option.splits)

text \<open>An error other than 401 leaves the provider loading, and the guard shows its loader.\<close>

lemma other_errors_keep_loading:
  assumes "case ans of Inl (Api e) \<Rightarrow> ae_class e \<noteq> UnauthorizedError | Inl _ \<Rightarrow> True | Inr _ \<Rightarrow> False"
  shows "snd (refreshUser ans newAuth) = newAuth \<and> \<not> guard_shows (snd (refreshUser ans newAuth)) \<and>
    guard_redirect (snd (refreshUser ans newAuth)) = None"
  using assms by (auto simp: refreshUser_def newAuth_def guard_shows_def guard_redirect_def split: sum.splits web_error.splits)

text \<open>A refused update leaves no trace: a key that the component had not changed before shows the user's value again.\<close>

lemma mget_spread: "mget (spread_prefs a b) k = (case mget (rev b) k of Some v \<Rightarrow> Some v | None \<Rightarrow> mget a k)"
  by (induction b rule: rev_induct) (auto simp: spread_prefs_def split: prod.splits)

lemma mget_without: "mget (foldl (\<lambda>m k. mdelete k m) m ks) k = (if k \<in> set ks then None else mget m k)"
  by (induction ks arbitrary: m) auto

lemma distinct_spread: "distinct (mkeys a) \<Longrightarrow> distinct (mkeys (spread_prefs a b))"
  by (induction b rule: rev_induct) (auto simp: spread_prefs_def distinct_mput split: prod.splits)

lemma mget_rev_distinct: "distinct (mkeys m) \<Longrightarrow> mget (rev m) k = mget m k"
proof (induction m)
  case (Cons x m)
  then have "mget m (fst x) = None" by (simp add: map_of_eq_None_iff)
  with Cons show ?case by (cases x) (auto simp: map_add_def split: option.split)
qed simp

lemma distinct_without: "distinct (mkeys m) \<Longrightarrow> distinct (mkeys (foldl (\<lambda>m k. mdelete k m) m ks))"
  by (induction ks arbitrary: m) (auto simp: distinct_mdelete)

theorem refused_preferences_roll_back:
  assumes "mget overlay k = None" and "distinct (mkeys overlay)"
  shows "mget (preferences user (rollback_overlay patch (update_overlay patch overlay))) k = mget (preferences user overlay) k"
proof -
  let ?o = "rollback_overlay patch (update_overlay patch overlay)"
  have d: "distinct (mkeys ?o)"
    unfolding rollback_overlay_def by (intro distinct_without distinct_spread) simp
  have clean: "mget (spread_prefs [] m) k = None" if "k \<notin> set (mkeys m)" for m :: "(string, json) jmap"
    using that by (simp add: mget_spread map_of_eq_None_iff split: option.split)
  have "mget ?o k = None"
  proof (cases "k \<in> set (map fst patch)")
    case False
    then have "mget (rev patch) k = None" by (simp add: map_of_eq_None_iff)
    moreover have "k \<notin> set (mkeys overlay)" using assms(1) by (simp add: map_of_eq_None_iff)
    ultimately have "mget (update_overlay patch overlay) k = None"
      using clean [of overlay] by (simp add: update_overlay_def mget_spread [of "spread_prefs [] overlay"])
    then show ?thesis by (simp add: rollback_overlay_def mget_without clean map_of_eq_None_iff)
  qed (simp add: rollback_overlay_def mget_without)
  then show ?thesis using assms d by (simp add: preferences_def mget_spread mget_rev_distinct)
qed

end
