(* ===== verification/LiveEvents.thy ===== *)
theory LiveEvents
  imports ChatText Sessions
begin

text \<open>
  What the web client does with the events of the user's own socket: the socket that reconnects
  (\<open>features/events/user-events-provider.tsx\<close>), the status of the sessions in the sidebar
  (\<open>features/layout/providers/session-status-provider.tsx\<close>), the list of an agent's sessions
  (\<open>features/agents/hooks/use-agent-detail.ts\<close>), and the notifications
  (\<open>features/notifications\<close>). Requests are cut at their await. A timestamp and a random id are arguments.
\<close>

section \<open>Events and routes\<close>

record live_session =
  lv_id :: string
  lv_agent_id :: "string option"
  lv_title :: "string option"
  lv_status :: string
  lv_created_at :: "string option"
  lv_last_message_at :: "string option"

datatype turn_end = TurnDone | TurnCancelled | TurnError

datatype UserEvent =
    SessionCreated live_session
  | SessionDeleted string
  | SessionChanged string "string option" "string option" "string option" "nat option" "turn_end option"

text \<open>\<open>lib/constants/routes.ts\<close>.\<close>

definition route_session :: "string \<Rightarrow> string" where
  "route_session i = ''/sessions/'' @ i"

definition route_agentChat :: "string \<Rightarrow> string option \<Rightarrow> string" where
  "route_agentChat agentId sessionId =
     ''/agents/'' @ agentId @ (if truthy sessionId then ''?session='' @ the sessionId else [])"

definition route_workflowDetail :: "string \<Rightarrow> string" where
  "route_workflowDetail i = ''/workflows/'' @ i @ ''/detail''"

definition route_workflowAtVersion :: "string \<Rightarrow> string \<Rightarrow> string option \<Rightarrow> string" where
  "route_workflowAtVersion i versionId runId =
     ''/workflows/'' @ i @ (if truthy runId then ''?runId='' @ the runId @ ''&versionId='' else ''?versionId='') @ versionId"

section \<open>The socket\<close>

definition RECONNECT_DELAYS_MS :: "nat list" where
  "RECONNECT_DELAYS_MS = [500, 1000, 2000, 5000, 10000]"

datatype live_socket = NoSocket | SocketConnecting | SocketOpen | SocketClosed

record live_connection =
  lk_socket :: live_socket
  lk_cancelled :: bool
  lk_attempt :: nat
  lk_timer :: "nat option"

definition live_connect :: "live_connection \<Rightarrow> live_connection" where
  "live_connect c = (if lk_cancelled c then c else c\<lparr>lk_socket := SocketConnecting\<rparr>)"

text \<open>The effect of a user who is there.\<close>

definition live_start :: live_connection where
  "live_start = live_connect \<lparr>lk_socket = NoSocket, lk_cancelled = False, lk_attempt = 0, lk_timer = None\<rparr>"

definition live_open :: "live_connection \<Rightarrow> live_connection" where
  "live_open c = c\<lparr>lk_socket := SocketOpen, lk_attempt := 0\<rparr>"

definition live_close :: "live_connection \<Rightarrow> live_connection" where
  "live_close c =
     (if lk_cancelled c then c\<lparr>lk_socket := SocketClosed\<rparr>
      else c\<lparr>lk_socket := SocketClosed, lk_attempt := lk_attempt c + 1,
             lk_timer := Some (RECONNECT_DELAYS_MS ! min (lk_attempt c) (length RECONNECT_DELAYS_MS - 1))\<rparr>)"

definition live_timer :: "live_connection \<Rightarrow> live_connection" where
  "live_timer c = live_connect (c\<lparr>lk_timer := None\<rparr>)"

definition live_cleanup :: "live_connection \<Rightarrow> live_connection" where
  "live_cleanup c = c\<lparr>lk_socket := (if lk_socket c \<in> {SocketOpen, SocketConnecting} then SocketClosed else lk_socket c),
     lk_cancelled := True, lk_timer := None\<rparr>"

text \<open>A message goes to every handler of the set, in the order they subscribed; \<open>parse\<close> is \<open>JSON.parse\<close>.\<close>

definition live_message :: "(string \<Rightarrow> UserEvent option) \<Rightarrow> (UserEvent \<Rightarrow> 's \<Rightarrow> 's) list \<Rightarrow> string \<Rightarrow> 's \<Rightarrow> 's" where
  "live_message parse handlers data s =
     (case parse data of None \<Rightarrow> s | Some e \<Rightarrow> foldl (\<lambda>s h. h e s) s handlers)"

text \<open>What can happen, and when: a socket opens while it connects, closes while it is there, a timer fires while it runs.\<close>

datatype live_event = LiveOpens | LiveCloses | LiveTimer | LiveCleanup

fun live_step :: "live_connection \<Rightarrow> live_event \<Rightarrow> live_connection" where
  "live_step c LiveOpens = (if lk_socket c = SocketConnecting then live_open c else c)"
| "live_step c LiveCloses = (if lk_socket c \<in> {SocketConnecting, SocketOpen} then live_close c else c)"
| "live_step c LiveTimer = (if lk_timer c \<noteq> None then live_timer c else c)"
| "live_step c LiveCleanup = live_cleanup c"

text \<open>
  Until the clean-up the connection is open, being opened, or a timer of at most ten seconds will open it;
  after the clean-up there is neither socket nor timer.
\<close>

definition live_ok :: "live_connection \<Rightarrow> bool" where
  "live_ok c \<longleftrightarrow>
     (if lk_cancelled c then lk_timer c = None \<and> lk_socket c \<notin> {SocketConnecting, SocketOpen}
      else (lk_timer c = None) = (lk_socket c \<in> {SocketConnecting, SocketOpen}) \<and>
           (case lk_timer c of None \<Rightarrow> True | Some d \<Rightarrow> d \<le> 10000))"

lemma reconnect_delays: "RECONNECT_DELAYS_MS ! min n (length RECONNECT_DELAYS_MS - 1) \<le> 10000"
proof -
  have "list_all (\<lambda>d. d \<le> 10000) RECONNECT_DELAYS_MS" by (simp add: RECONNECT_DELAYS_MS_def)
  moreover have "min n (length RECONNECT_DELAYS_MS - 1) < length RECONNECT_DELAYS_MS"
    by (simp add: RECONNECT_DELAYS_MS_def)
  ultimately show ?thesis by (auto simp: list_all_length)
qed

lemma live_step_ok: "live_ok c \<Longrightarrow> live_ok (live_step c e)"
  using reconnect_delays [of "lk_attempt c"]
  by (cases e) (auto simp: live_ok_def live_open_def live_close_def live_timer_def live_connect_def live_cleanup_def
      split: if_splits option.splits)

interpretation live_events: machine live_step live_ok
  by unfold_locales (rule live_step_ok)

theorem user_events_reconnect: "live_ok (foldl live_step live_start es)"
  by (rule live_events.run_good) (simp add: live_start_def live_connect_def live_ok_def)

section \<open>The status of the sessions\<close>

record status_entry =
  sx_status :: string
  sx_unread :: nat
  sx_title :: "string option"

definition DEFAULT_ENTRY :: status_entry where
  "DEFAULT_ENTRY = \<lparr>sx_status = ''offline'', sx_unread = 0, sx_title = None\<rparr>"

text \<open>A snapshot that is asked for: the ids, and whether the effect that asked is still alive.\<close>

record snapshot_request =
  sq_ids :: "string list"
  sq_alive :: bool

record session_statuses =
  sm_ids :: "string list"
  sm_statuses :: "(string, status_entry) jmap"
  sm_lastKey :: string
  sm_request :: "snapshot_request option"

definition no_statuses :: session_statuses where
  "no_statuses = \<lparr>sm_ids = [], sm_statuses = [], sm_lastKey = [], sm_request = None\<rparr>"

text \<open>The key of a set of ids; \<open>sort\<close> is the sorting of strings by code units.\<close>

definition ids_key :: "(string list \<Rightarrow> string list) \<Rightarrow> string list \<Rightarrow> string" where
  "ids_key sort_strings ids = join '','' (sort_strings ids)"

text \<open>
  A new array of ids: the clean-up of the effect before, then the effect. Of the requests under way only the
  last one that was made can be alive, so it alone is kept.
\<close>

definition ids_change :: "(string list \<Rightarrow> string list) \<Rightarrow> string list \<Rightarrow> session_statuses \<Rightarrow> session_statuses" where
  "ids_change sort_strings ids s =
     (let s1 = s\<lparr>sm_ids := ids, sm_request := map_option (\<lambda>r. r\<lparr>sq_alive := False\<rparr>) (sm_request s)\<rparr>
      in if ids = [] then s1
         else if ids_key sort_strings ids = sm_lastKey s then s1
         else s1\<lparr>sm_lastKey := ids_key sort_strings ids, sm_request := Some \<lparr>sq_ids = ids, sq_alive = True\<rparr>\<rparr>)"

text \<open>The answer: statuses, unread counts and titles by id, or a failure, which is only logged.\<close>

record status_snapshot =
  sp_statuses :: "(string, string) jmap"
  sp_unread :: "(string, nat) jmap"
  sp_titles :: "(string, string option) jmap"

definition snapshot_entry :: "status_snapshot \<Rightarrow> (string, status_entry) jmap \<Rightarrow> string \<Rightarrow> status_entry" where
  "snapshot_entry res prev i =
     \<lparr>sx_status = (if truthy (mget (sp_statuses res) i) then the (mget (sp_statuses res) i) else ''offline''),
      sx_unread = (case mget (sp_unread res) i of Some n \<Rightarrow> n | None \<Rightarrow> 0),
      sx_title = (case Option.bind (mget (sp_titles res) i) id of
                    Some t \<Rightarrow> Some t
                  | None \<Rightarrow> Option.bind (mget prev i) sx_title)\<rparr>"

definition snapshot_answer :: "status_snapshot option \<Rightarrow> session_statuses \<Rightarrow> session_statuses" where
  "snapshot_answer reply s =
     (case sm_request s of
        None \<Rightarrow> s
      | Some r \<Rightarrow>
          (case reply of
             Some res \<Rightarrow>
               if sq_alive r
               then s\<lparr>sm_statuses := foldl (\<lambda>m i. mput i (snapshot_entry res (sm_statuses s) i) m) (sm_statuses s) (sq_ids r),
                      sm_request := None\<rparr>
               else s\<lparr>sm_request := None\<rparr>
           | None \<Rightarrow> s\<lparr>sm_request := None\<rparr>))"

fun status_event :: "UserEvent \<Rightarrow> session_statuses \<Rightarrow> session_statuses" where
  "status_event (SessionChanged i agent title status unread ended) s =
     (let current = (case mget (sm_statuses s) i of Some e \<Rightarrow> e | None \<Rightarrow> DEFAULT_ENTRY)
      in s\<lparr>sm_statuses := mput i
           \<lparr>sx_status = (case status of Some x \<Rightarrow> x | None \<Rightarrow> sx_status current),
            sx_unread = (case unread of Some n \<Rightarrow> n | None \<Rightarrow> sx_unread current),
            sx_title = (case title of Some t \<Rightarrow> Some t | None \<Rightarrow> sx_title current)\<rparr> (sm_statuses s)\<rparr>)"
| "status_event _ s = s"

definition session_status :: "string \<Rightarrow> session_statuses \<Rightarrow> status_entry" where
  "session_status i s = (case mget (sm_statuses s) i of Some e \<Rightarrow> e | None \<Rightarrow> DEFAULT_ENTRY)"

text \<open>
  A snapshot is lost for good when the list of sessions is made anew, with the same ids, while the
  snapshot is awaited (as every change of a title does): the effect before is told that it is dead, and the
  effect after finds the key unchanged and asks for nothing.
\<close>

theorem same_ids_lose_the_snapshot:
  assumes "ids \<noteq> []" and "ids_key sort_strings ids \<noteq> sm_lastKey s"
  shows "let s1 = ids_change sort_strings ids s;
             s2 = ids_change sort_strings ids s1;
             s3 = snapshot_answer (Some res) s2
         in map_option sq_alive (sm_request s1) = Some True \<and> sm_statuses s3 = sm_statuses s \<and>
            sm_request s3 = None \<and> sm_request (ids_change sort_strings ids s3) = None"
  using assms by (simp add: ids_change_def snapshot_answer_def Let_def)

theorem same_ids_lose_the_snapshot_witness:
  "let s1 = ids_change (\<lambda>x. x) [''s1''] no_statuses;
       s2 = ids_change (\<lambda>x. x) [''s1''] s1;
       res = \<lparr>sp_statuses = [(''s1'', ''streaming'')], sp_unread = [], sp_titles = []\<rparr>
   in sx_status (session_status ''s1'' (snapshot_answer (Some res) s1)) = ''streaming'' \<and>
      session_status ''s1'' (snapshot_answer (Some res) s2) = DEFAULT_ENTRY"
proof -
  have k: "ids_key (\<lambda>x. x) [''s1''] \<noteq> sm_lastKey no_statuses" by (simp add: ids_key_def no_statuses_def)
  from same_ids_lose_the_snapshot [OF _ k, of "\<lparr>sp_statuses = [(''s1'', ''streaming'')], sp_unread = [], sp_titles = []\<rparr>"]
  have "sm_statuses (snapshot_answer (Some \<lparr>sp_statuses = [(''s1'', ''streaming'')], sp_unread = [], sp_titles = []\<rparr>)
      (ids_change (\<lambda>x. x) [''s1''] (ids_change (\<lambda>x. x) [''s1''] no_statuses))) = sm_statuses no_statuses"
    by (simp add: Let_def)
  then show ?thesis
    by (simp add: Let_def session_status_def no_statuses_def)
      (simp add: ids_change_def ids_key_def snapshot_answer_def snapshot_entry_def Let_def)
qed

text \<open>An event that arrives while the snapshot is under way is overwritten by the older snapshot.\<close>

lemma late_snapshot_overwrites_event:
  assumes "sm_request s = Some \<lparr>sq_ids = [i], sq_alive = True\<rparr>"
  shows "session_status i (snapshot_answer (Some res) (status_event (SessionChanged i a title (Some live) unread ended) s)) =
    snapshot_entry res (sm_statuses (status_event (SessionChanged i a title (Some live) unread ended) s)) i"
  using assms by (simp add: snapshot_answer_def session_status_def Let_def)

section \<open>The sessions of an agent\<close>

record 'a agent_detail =
  ad_agentId :: string
  ad_agent :: "'a option"
  ad_sessions :: "live_session list"
  ad_loading :: bool
  ad_error :: "string option"
  ad_creating :: bool
  ad_createError :: "string option"

definition useAgentDetail :: "string \<Rightarrow> 'a agent_detail" where
  "useAgentDetail agentId = \<lparr>ad_agentId = agentId, ad_agent = None, ad_sessions = [], ad_loading = True, ad_error = None,
     ad_creating = False, ad_createError = None\<rparr>"

text \<open>The page moves to another agent: the hook keeps its state and refreshes.\<close>

definition refresh_detail :: "'a agent_detail \<Rightarrow> 'a agent_detail" where
  "refresh_detail d = d\<lparr>ad_error := None\<rparr>"

definition change_agent :: "string \<Rightarrow> 'a agent_detail \<Rightarrow> 'a agent_detail" where
  "change_agent agentId d = refresh_detail (d\<lparr>ad_agentId := agentId, ad_loading := True\<rparr>)"

text \<open>
  The answers of a refresh: the agent, or the message of the error, and the sessions (none if they could not be
  listed). \<open>alive\<close> tells whether the effect that asked is the current one: only the loading flag minds.
\<close>

definition refresh_answer ::
  "bool \<Rightarrow> (string + 'a) \<Rightarrow> live_session list \<Rightarrow> 'a agent_detail \<Rightarrow> 'a agent_detail" where
  "refresh_answer alive agent sessions d =
     (let d1 = (case agent of
                  Inl message \<Rightarrow> d\<lparr>ad_error := Some message\<rparr>
                | Inr a \<Rightarrow> d\<lparr>ad_agent := Some a, ad_sessions := filter (\<lambda>s. lv_status s = ''active'') sessions\<rparr>)
      in if alive then d1\<lparr>ad_loading := False\<rparr> else d1)"

definition add_session :: "live_session \<Rightarrow> live_session list \<Rightarrow> live_session list" where
  "add_session s prev = (if list_ex (\<lambda>x. lv_id x = lv_id s) prev then prev else s # prev)"

text \<open>\<open>createSession\<close>: the agent it asks for, if it asks; then the session, or the message of the error.\<close>

definition createSession :: "'a agent_detail \<Rightarrow> string option \<times> 'a agent_detail" where
  "createSession d =
     (if ad_creating d then (None, d)
      else (Some (ad_agentId d), d\<lparr>ad_creating := True, ad_createError := None\<rparr>))"

definition createSession_done :: "string + live_session \<Rightarrow> 'a agent_detail \<Rightarrow> live_session option \<times> 'a agent_detail" where
  "createSession_done ans d =
     (case ans of
        Inl message \<Rightarrow> (None, d\<lparr>ad_creating := False, ad_createError := Some message\<rparr>)
      | Inr s \<Rightarrow> (Some s, d\<lparr>ad_sessions := add_session s (ad_sessions d), ad_creating := False\<rparr>))"

fun detail_event :: "UserEvent \<Rightarrow> 'a agent_detail \<Rightarrow> 'a agent_detail" where
  "detail_event (SessionCreated s) d =
     (if lv_agent_id s \<noteq> Some (ad_agentId d) then d
      else if lv_status s \<noteq> ''active'' then d
      else d\<lparr>ad_sessions := add_session s (ad_sessions d)\<rparr>)"
| "detail_event (SessionDeleted i) d = d\<lparr>ad_sessions := filter (\<lambda>s. lv_id s \<noteq> i) (ad_sessions d)\<rparr>"
| "detail_event (SessionChanged i agent title status unread ended) d =
     (case title of
        None \<Rightarrow> d
      | Some t \<Rightarrow> d\<lparr>ad_sessions := map (\<lambda>s. if lv_id s = i then s\<lparr>lv_title := Some t\<rparr> else s) (ad_sessions d)\<rparr>)"

datatype 'a detail_action =
    ChangeAgent string | RefreshAgain | RefreshAnswer bool "string + 'a" "live_session list"
  | CreateCall | CreateAnswer "string + live_session" | LiveEvent UserEvent

fun detail_step :: "'a agent_detail \<Rightarrow> 'a detail_action \<Rightarrow> 'a agent_detail" where
  "detail_step d (ChangeAgent i) = change_agent i d"
| "detail_step d RefreshAgain = refresh_detail d"
| "detail_step d (RefreshAnswer alive agent sessions) = refresh_answer alive agent sessions d"
| "detail_step d CreateCall = snd (createSession d)"
| "detail_step d (CreateAnswer ans) = snd (createSession_done ans d)"
| "detail_step d (LiveEvent e) = detail_event e d"

text \<open>The server lists each session once.\<close>

fun listed_once :: "'a detail_action \<Rightarrow> bool" where
  "listed_once (RefreshAnswer alive agent sessions) = distinct (map lv_id sessions)"
| "listed_once _ = True"

definition sessions_distinct :: "'a agent_detail \<Rightarrow> bool" where
  "sessions_distinct d \<longleftrightarrow> distinct (map lv_id (ad_sessions d))"

lemma distinct_add_session: "distinct (map lv_id ss) \<Longrightarrow> distinct (map lv_id (add_session s ss))"
  by (auto simp: add_session_def list_ex_iff)

lemma rename_keeps_ids:
  "map lv_id (map (\<lambda>s. if lv_id s = i then s\<lparr>lv_title := t\<rparr> else s) ss) = map lv_id ss"
  by (induction ss) auto

lemma detail_step_distinct:
  assumes "sessions_distinct d" and "listed_once a"
  shows "sessions_distinct (detail_step d a)"
proof (cases a)
  case (LiveEvent e)
  then show ?thesis using assms
    by (cases e) (simp_all add: sessions_distinct_def distinct_add_session distinct_map_filter rename_keeps_ids
        del: map_map split: option.split)
qed (use assms in \<open>auto simp: sessions_distinct_def change_agent_def refresh_detail_def refresh_answer_def Let_def
  createSession_def createSession_done_def distinct_add_session distinct_map_filter split: sum.split\<close>)

interpretation session_list: guarded_machine detail_step "\<lambda>_. listed_once" sessions_distinct
  by unfold_locales (rule detail_step_distinct)

text \<open>
  A session is listed once: whether it is created here, announced by the socket, or both, in whatever
  order with renames, deletions and refreshes, no id appears twice in the list.
\<close>

theorem sessions_listed_once:
  "sessions_distinct (foldl (\<lambda>d a. if listed_once a then detail_step d a else d) (useAgentDetail i) actions)"
  by (rule session_list.run_good) (simp add: sessions_distinct_def useAgentDetail_def)

text \<open>A refresh of the agent before, answered late, shows that agent and its sessions under the new one.\<close>

lemma late_refresh_shows_old_agent:
  "let d' = refresh_answer False (Inr old) sessions (refresh_answer True (Inr new) mine (change_agent i d))
   in ad_agentId d' = i \<and> ad_agent d' = Some old \<and> ad_sessions d' = filter (\<lambda>s. lv_status s = ''active'') sessions"
  by (simp add: refresh_answer_def change_agent_def refresh_detail_def Let_def)

section \<open>Notifications\<close>

datatype NotificationKind = ChatReply | WorkflowComplete | WorkflowFailed

record notification =
  nf_id :: string
  nf_kind :: NotificationKind
  nf_title :: string
  nf_description :: "string option"
  nf_created_at :: string
  nf_read :: bool
  nf_href :: "string option"
  nf_tone_id :: "string option"

definition MAX_NOTIFICATIONS :: nat where "MAX_NOTIFICATIONS = 50"

text \<open>\<open>push\<close>: the id is random and the time the clock's, so the caller's fields come with them.\<close>

definition push_notification :: "notification \<Rightarrow> notification list \<Rightarrow> notification list" where
  "push_notification n items = take MAX_NOTIFICATIONS (n\<lparr>nf_read := False\<rparr> # items)"

definition markRead :: "string \<Rightarrow> notification list \<Rightarrow> notification list" where
  "markRead i items = map (\<lambda>n. if nf_id n = i then n\<lparr>nf_read := True\<rparr> else n) items"

definition markAllRead :: "notification list \<Rightarrow> notification list" where
  "markAllRead items = map (\<lambda>n. n\<lparr>nf_read := True\<rparr>) items"

definition clear_notifications :: "notification list \<Rightarrow> notification list" where
  "clear_notifications items = []"

definition unread_count :: "notification list \<Rightarrow> nat" where
  "unread_count items = foldl (\<lambda>acc n. acc + (if nf_read n then 0 else 1)) 0 items"

text \<open>\<open>relativeTime\<close> of the panel; times in milliseconds.\<close>

definition relativeTime :: "int \<Rightarrow> int \<Rightarrow> string" where
  "relativeTime now_ms created_ms =
     (let s = (now_ms - created_ms) div 1000
      in if s < 5 then ''just now''
         else if s < 60 then int_string s @ ''s ago''
         else if s div 60 < 60 then int_string (s div 60) @ ''m ago''
         else if s div 60 div 60 < 24 then int_string (s div 60 div 60) @ ''h ago''
         else int_string (s div 60 div 60 div 24) @ ''d ago'')"

text \<open>
  The notifier: where the user is (path, session of the URL, whether the page is visible). The result is what
  is pushed and, if the browser lets it, the native notification's title and tag.
\<close>

definition viewing_session :: "string \<Rightarrow> string option \<Rightarrow> bool \<Rightarrow> string \<Rightarrow> bool" where
  "viewing_session pathname sessionParam visible sessionId \<longleftrightarrow>
     visible \<and> ((sessionParam = Some sessionId \<and> starts_with pathname ''/agents/'') \<or> pathname = route_session sessionId)"

definition reply_notification :: "string \<Rightarrow> string \<Rightarrow> string \<Rightarrow> string option \<Rightarrow> string option \<Rightarrow> notification" where
  "reply_notification uuid now_iso sessionId agentId title =
     \<lparr>nf_id = uuid, nf_kind = ChatReply, nf_title = (if truthy title then the title else ''Agent reply''),
      nf_description = Some ''Your agent finished responding.'', nf_created_at = now_iso, nf_read = False,
      nf_href = Some (if truthy agentId then route_agentChat (the agentId) (Some sessionId) else route_session sessionId),
      nf_tone_id = Some (case agentId of Some a \<Rightarrow> a | None \<Rightarrow> sessionId)\<rparr>"

fun notify_event ::
  "string \<Rightarrow> string \<Rightarrow> string \<Rightarrow> string option \<Rightarrow> bool \<Rightarrow> UserEvent \<Rightarrow> notification list \<Rightarrow> notification list" where
  "notify_event uuid now_iso pathname sessionParam visible (SessionChanged i agent title status unread ended) items =
     (if ended \<noteq> Some TurnDone then items
      else if viewing_session pathname sessionParam visible i then items
      else push_notification (reply_notification uuid now_iso i agent title) items)"
| "notify_event uuid now_iso pathname sessionParam visible _ items = items"

lemma unread_count_filter: "unread_count items = length (filter (\<lambda>n. \<not> nf_read n) items)"
proof -
  have "foldl (\<lambda>acc n. acc + (if nf_read n then 0 else 1)) k items = k + length (filter (\<lambda>n. \<not> nf_read n) items)" for k :: nat
    by (induction items arbitrary: k) simp_all
  then show ?thesis by (simp add: unread_count_def)
qed

text \<open>
  A finished reply is announced unless the user is looking at its session: the newest notification is the one
  of this reply, links to its session and is unread; the feed stays within its limit.
\<close>

theorem reply_is_announced:
  assumes "\<not> viewing_session pathname sessionParam visible i" and "length items \<le> MAX_NOTIFICATIONS"
  shows "let items' = notify_event uuid now_iso pathname sessionParam visible
               (SessionChanged i agent title status unread (Some TurnDone)) items
         in hd items' = reply_notification uuid now_iso i agent title \<and> length items' \<le> MAX_NOTIFICATIONS \<and>
            unread_count items' \<le> unread_count items + 1 \<and> 0 < unread_count items'"
proof -
  have r: "nf_read (reply_notification uuid now_iso i agent title) = False" by (simp add: reply_notification_def)
  have u: "reply_notification uuid now_iso i agent title\<lparr>nf_read := False\<rparr> = reply_notification uuid now_iso i agent title"
    by (simp add: reply_notification_def)
  have "length (filter (\<lambda>n. \<not> nf_read n) (take k items)) \<le> length (filter (\<lambda>n. \<not> nf_read n) items)" for k
    by (metis append_take_drop_id filter_append le_add1 length_append)
  then show ?thesis using assms
    by (simp add: Let_def push_notification_def u unread_count_filter MAX_NOTIFICATIONS_def take_Cons' r)
qed

end
