(* ===== verification/ChatInput.thy ===== *)
theory ChatInput
  imports ChatSession ChatSocket WebClient
begin

text \<open>
  The message composer of the chat: text and image attachments
  (\<open>features/chat/components/input/chat-input.tsx\<close>, \<open>features/chat/lib/attachment-utils.ts\<close>) and the list of
  agents that opens at an at sign (\<open>mention-autocomplete.tsx\<close>). Uploads are cut at their await; random ids and
  object URLs are arguments, and so is lower case. Heights and positions on the screen are not modelled.
\<close>

section \<open>Attachments\<close>

definition ACCEPTED_IMAGE_TYPES :: "string list" where
  "ACCEPTED_IMAGE_TYPES = [''image/png'', ''image/jpeg'', ''image/gif'', ''image/webp'']"

definition MAX_IMAGE_SIZE :: nat where "MAX_IMAGE_SIZE = 5 * 1024 * 1024"
definition MAX_ATTACHMENTS :: nat where "MAX_ATTACHMENTS = 10"

record picked_file =
  pf_name :: string
  pf_type :: string
  pf_size :: nat

text \<open>\<open>(n / 1024 / 1024).toFixed(1)\<close>: the nearest tenth, the larger one of two.\<close>

definition megabytes :: "nat \<Rightarrow> string" where
  "megabytes n =
     (let tenths = (20 * n + 1024 * 1024) div (2 * 1024 * 1024)
      in nat_string (tenths div 10) @ ''.'' @ nat_string (tenths mod 10))"

definition validateImageFile :: "picked_file \<Rightarrow> string option" where
  "validateImageFile f =
     (if pf_type f \<notin> set ACCEPTED_IMAGE_TYPES
      then Some (''Unsupported file type: '' @ (if pf_type f \<noteq> [] then pf_type f else ''unknown''))
      else if pf_size f > MAX_IMAGE_SIZE
      then Some (''File too large ('' @ megabytes (pf_size f) @ '' MB). Max: 5 MB'')
      else None)"

text \<open>A \<open>FileRef\<close> is the JSON object of the server; a field of it, as a string.\<close>

definition ref_field :: "json \<Rightarrow> string \<Rightarrow> string" where
  "ref_field ref k = (case jget ref k of Some (JStr s) \<Rightarrow> s | _ \<Rightarrow> ''undefined'')"

text \<open>\<open>uploadFile\<close>: what its promise comes to.\<close>

definition uploadImage :: "(json \<Rightarrow> string) \<Rightarrow> json reply \<Rightarrow> string + json" where
  "uploadImage to_str r =
     (case r of
        NoReply m \<Rightarrow> Inl (case m of Some s \<Rightarrow> s | None \<Rightarrow> [])
      | Reply status statusText err_body result \<Rightarrow>
          if \<not> (200 \<le> status \<and> status < 300) then
            (case detail_or to_str ''Upload failed'' (case err_body of Some b \<Rightarrow> b | None \<Rightarrow> JObj [(''detail'', JStr statusText)]) of
               Inl e \<Rightarrow> Inl (error_message e)
             | Inr msg \<Rightarrow> Inl msg)
          else (case result of Some ref \<Rightarrow> Inr ref | None \<Rightarrow> Inl ''Unexpected token in JSON''))"

definition getUploadUrl :: "string \<Rightarrow> string" where
  "getUploadUrl fileId = ''/api/uploads/'' @ fileId"

datatype attachment_status = Uploading | Uploaded | UploadFailed

record PendingAttachment =
  pa_localId :: string
  pa_file :: picked_file
  pa_preview :: string
  pa_status :: attachment_status
  pa_fileRef :: "json option"

text \<open>The composer; \<open>ci_urls\<close> are the object URLs that have been created and not revoked.\<close>

record chat_input =
  ci_value :: string
  ci_attachments :: "PendingAttachment list"
  ci_dragging :: bool
  ci_dragDepth :: nat
  ci_urls :: "string list"

definition newInput :: chat_input where
  "newInput = \<lparr>ci_value = [], ci_attachments = [], ci_dragging = False, ci_dragDepth = 0, ci_urls = []\<rparr>"

text \<open>\<open>xs.slice(0, n)\<close>: a negative end counts from the back.\<close>

definition slice_to :: "int \<Rightarrow> 'a list \<Rightarrow> 'a list" where
  "slice_to n xs = (if 0 \<le> n then take (nat n) xs else take (length xs - nat (- n)) xs)"

text \<open>
  \<open>addFiles\<close>: \<open>seen\<close> is the number of attachments of the render whose closure is called. A file comes with its
  random id and its object URL. The result also lists the uploads that start.
\<close>

definition add_file :: "string \<times> string \<times> picked_file \<Rightarrow> (string \<times> picked_file) list \<times> chat_input \<Rightarrow> (string \<times> picked_file) list \<times> chat_input" where
  "add_file x s =
     (case x of (localId, url, file) \<Rightarrow>
        if validateImageFile file \<noteq> None then s
        else (fst s @ [(localId, file)],
              (snd s)\<lparr>ci_attachments := ci_attachments (snd s) @
                  [\<lparr>pa_localId = localId, pa_file = file, pa_preview = url, pa_status = Uploading, pa_fileRef = None\<rparr>],
                ci_urls := ci_urls (snd s) @ [url]\<rparr>))"

definition addFiles ::
  "bool \<Rightarrow> nat \<Rightarrow> (string \<times> string \<times> picked_file) list \<Rightarrow> chat_input \<Rightarrow> (string \<times> picked_file) list \<times> chat_input" where
  "addFiles visionEnabled seen files c =
     (if \<not> visionEnabled then ([], c)
      else foldl (\<lambda>s x. add_file x s) ([], c) (slice_to (int MAX_ATTACHMENTS - int seen) files))"

definition upload_answer :: "string \<Rightarrow> json option \<Rightarrow> chat_input \<Rightarrow> chat_input" where
  "upload_answer localId ref c =
     c\<lparr>ci_attachments := map (\<lambda>a. if pa_localId a = localId
         then (case ref of Some r \<Rightarrow> a\<lparr>pa_status := Uploaded, pa_fileRef := Some r\<rparr> | None \<Rightarrow> a\<lparr>pa_status := UploadFailed\<rparr>)
         else a) (ci_attachments c)\<rparr>"

definition removeAttachment :: "string \<Rightarrow> chat_input \<Rightarrow> chat_input" where
  "removeAttachment localId c =
     c\<lparr>ci_attachments := filter (\<lambda>a. pa_localId a \<noteq> localId) (ci_attachments c),
       ci_urls := (case find (\<lambda>a. pa_localId a = localId) (ci_attachments c) of
                     Some a \<Rightarrow> filter (\<lambda>u. u \<noteq> pa_preview a) (ci_urls c)
                   | None \<Rightarrow> ci_urls c)\<rparr>"

text \<open>The draft of a message that was rolled back; its attachments are valid still. The ids are random.\<close>

definition draft_refs :: "json option \<Rightarrow> json list" where
  "draft_refs a = (case a of Some (JArr refs) \<Rightarrow> refs | _ \<Rightarrow> [])"

definition restored_attachment :: "string \<Rightarrow> json \<Rightarrow> PendingAttachment" where
  "restored_attachment localId ref =
     \<lparr>pa_localId = localId, pa_file = \<lparr>pf_name = ref_field ref ''filename'', pf_type = [], pf_size = 0\<rparr>,
      pa_preview = getUploadUrl (ref_field ref ''file_id''), pa_status = Uploaded, pa_fileRef = Some ref\<rparr>"

definition restore_draft :: "bool \<Rightarrow> string list \<Rightarrow> RestoreDraft option \<Rightarrow> chat_input \<Rightarrow> chat_input" where
  "restore_draft visionEnabled ids draft c =
     (case draft of
        None \<Rightarrow> c
      | Some d \<Rightarrow>
          let refs = draft_refs (rd_attachments d); c1 = c\<lparr>ci_value := rd_content d\<rparr>
          in if refs \<noteq> [] \<and> visionEnabled
             then c1\<lparr>ci_attachments := map (\<lambda>(i, ref). restored_attachment i ref) (zip ids refs)\<rparr>
             else c1)"

text \<open>The clean-up at the end revokes the previews of the first render, whose closure it is.\<close>

definition unmount_input :: "chat_input \<Rightarrow> chat_input" where
  "unmount_input c = c\<lparr>ci_urls := filter (\<lambda>u. u \<notin> set (map pa_preview (ci_attachments newInput))) (ci_urls c)\<rparr>"

section \<open>Dragging and pasting\<close>

definition drag_enter :: "bool \<Rightarrow> bool \<Rightarrow> chat_input \<Rightarrow> chat_input" where
  "drag_enter hasFiles visionEnabled c =
     (if \<not> hasFiles \<or> \<not> visionEnabled then c else c\<lparr>ci_dragging := True, ci_dragDepth := ci_dragDepth c + 1\<rparr>)"

definition drag_leave :: "bool \<Rightarrow> chat_input \<Rightarrow> chat_input" where
  "drag_leave hasFiles c =
     (if \<not> hasFiles then c
      else let d = ci_dragDepth c - 1 in c\<lparr>ci_dragging := (if d = 0 then False else ci_dragging c), ci_dragDepth := d\<rparr>)"

definition drop_files ::
  "bool \<Rightarrow> bool \<Rightarrow> nat \<Rightarrow> (string \<times> string \<times> picked_file) list \<Rightarrow> chat_input \<Rightarrow> (string \<times> picked_file) list \<times> chat_input" where
  "drop_files hasFiles visionEnabled seen files c =
     (if \<not> hasFiles then ([], c)
      else let c1 = c\<lparr>ci_dragging := False, ci_dragDepth := 0\<rparr>;
               images = filter (\<lambda>(i, u, f). pf_type f \<in> set ACCEPTED_IMAGE_TYPES) files
           in if \<not> visionEnabled \<or> images = [] then ([], c1) else addFiles visionEnabled seen images c1)"

text \<open>The items of the clipboard: kind, type, and the file if it can be had.\<close>

definition handlePaste ::
  "bool \<Rightarrow> nat \<Rightarrow> (string \<times> string \<times> (string \<times> string \<times> picked_file) option) list \<Rightarrow> chat_input \<Rightarrow>
     (string \<times> picked_file) list \<times> chat_input" where
  "handlePaste visionEnabled seen items c =
     (if \<not> visionEnabled then ([], c)
      else let imageFiles = List.map_filter (\<lambda>(kind, t, f). if kind = ''file'' \<and> t \<in> set ACCEPTED_IMAGE_TYPES then f else None) items
           in if imageFiles = [] then ([], c) else addFiles visionEnabled seen imageFiles c)"

section \<open>Sending\<close>

definition doneAttachments :: "chat_input \<Rightarrow> PendingAttachment list" where
  "doneAttachments c = filter (\<lambda>a. pa_status a = Uploaded) (ci_attachments c)"

definition canSend :: "chat_input \<Rightarrow> bool" where
  "canSend c \<longleftrightarrow> (trim_space (ci_value c) \<noteq> [] \<or> doneAttachments c \<noteq> []) \<and>
     \<not> list_ex (\<lambda>a. pa_status a = Uploading) (ci_attachments c)"

text \<open>What is passed to \<open>onSend\<close>; \<open>a.fileRef!\<close> of an attachment without one is undefined.\<close>

definition handleSubmit :: "bool \<Rightarrow> chat_input \<Rightarrow> (string \<times> json option list) option \<times> chat_input" where
  "handleSubmit disabled c =
     (if \<not> canSend c \<or> disabled then (None, c)
      else (Some (trim_space (ci_value c), map pa_fileRef (doneAttachments c)),
            c\<lparr>ci_value := [], ci_attachments := [],
              ci_urls := filter (\<lambda>u. u \<notin> set (map pa_preview (ci_attachments c))) (ci_urls c)\<rparr>))"

datatype enter_key = EnterKey | ShiftEnterKey | OtherKey

definition chat_key :: "bool \<Rightarrow> bool \<Rightarrow> enter_key \<Rightarrow> bool \<Rightarrow> chat_input \<Rightarrow> (string \<times> json option list) option \<times> chat_input" where
  "chat_key mentionOpen composing key disabled c =
     (if mentionOpen \<or> composing \<or> key \<noteq> EnterKey then (None, c) else handleSubmit disabled c)"

section \<open>What the composer keeps\<close>

datatype input_event =
    TypeText string | AddFiles bool "(string \<times> string \<times> picked_file) list" | UploadAnswer string "json option"
  | RemoveFile string | RestoreDraftOf bool "string list" "RestoreDraft option" | SubmitInput bool
  | DragEnter bool bool | DragLeave bool | DropFiles bool bool "(string \<times> string \<times> picked_file) list"
  | PasteItems bool "(string \<times> string \<times> (string \<times> string \<times> picked_file) option) list"

text \<open>The closures are those of the render that is shown, so they see the attachments that are there.\<close>

fun input_step :: "chat_input \<Rightarrow> input_event \<Rightarrow> chat_input" where
  "input_step c (TypeText s) = c\<lparr>ci_value := s\<rparr>"
| "input_step c (AddFiles v files) = snd (addFiles v (length (ci_attachments c)) files c)"
| "input_step c (UploadAnswer i ref) = upload_answer i ref c"
| "input_step c (RemoveFile i) = removeAttachment i c"
| "input_step c (RestoreDraftOf v ids d) = restore_draft v ids d c"
| "input_step c (SubmitInput disabled) = snd (handleSubmit disabled c)"
| "input_step c (DragEnter hasFiles v) = drag_enter hasFiles v c"
| "input_step c (DragLeave hasFiles) = drag_leave hasFiles c"
| "input_step c (DropFiles hasFiles v files) = snd (drop_files hasFiles v (length (ci_attachments c)) files c)"
| "input_step c (PasteItems v items) = snd (handlePaste v (length (ci_attachments c)) items c)"

text \<open>A restored draft is a message that was sent from here, so it has no more attachments than may be.\<close>

fun event_fits :: "input_event \<Rightarrow> bool" where
  "event_fits (RestoreDraftOf v ids (Some d)) \<longleftrightarrow> length (draft_refs (rd_attachments d)) \<le> MAX_ATTACHMENTS"
| "event_fits _ \<longleftrightarrow> True"

definition composer_ok :: "chat_input \<Rightarrow> bool" where
  "composer_ok c \<longleftrightarrow> length (ci_attachments c) \<le> MAX_ATTACHMENTS \<and>
     list_all (\<lambda>a. pa_status a = Uploaded \<longrightarrow> pa_fileRef a \<noteq> None) (ci_attachments c)"

lemma add_file_attachments:
  "length (ci_attachments (snd (foldl (\<lambda>s x. add_file x s) s files))) \<le> length (ci_attachments (snd s)) + length files \<and>
   (list_all (\<lambda>a. pa_status a = Uploaded \<longrightarrow> pa_fileRef a \<noteq> None) (ci_attachments (snd s)) \<longrightarrow>
    list_all (\<lambda>a. pa_status a = Uploaded \<longrightarrow> pa_fileRef a \<noteq> None)
      (ci_attachments (snd (foldl (\<lambda>s x. add_file x s) s files))))"
proof (induction files arbitrary: s)
  case (Cons x files)
  have "length (ci_attachments (snd (add_file x s))) \<le> length (ci_attachments (snd s)) + 1"
    by (simp add: add_file_def split: prod.split)
  moreover have "list_all (\<lambda>a. pa_status a = Uploaded \<longrightarrow> pa_fileRef a \<noteq> None) (ci_attachments (snd (add_file x s)))"
    if "list_all (\<lambda>a. pa_status a = Uploaded \<longrightarrow> pa_fileRef a \<noteq> None) (ci_attachments (snd s))"
    using that by (simp add: add_file_def split: prod.split)
  ultimately show ?case using Cons.IH [of "add_file x s"] by auto
qed simp

lemma composer_ok_add: "composer_ok c \<Longrightarrow> composer_ok (snd (addFiles v (length (ci_attachments c)) files c))"
  using add_file_attachments [of "([], c)" "slice_to (int MAX_ATTACHMENTS - int (length (ci_attachments c))) files"]
  by (auto simp: composer_ok_def addFiles_def slice_to_def)

lemma composer_ok_fields:
  "composer_ok (c\<lparr>ci_value := x\<rparr>) = composer_ok c" "composer_ok (c\<lparr>ci_dragging := d, ci_dragDepth := n\<rparr>) = composer_ok c"
  "composer_ok (c\<lparr>ci_urls := us\<rparr>) = composer_ok c"
  by (simp_all add: composer_ok_def)

lemma composer_step:
  assumes "composer_ok c" and "event_fits e"
  shows "composer_ok (input_step c e)"
proof (cases e)
  case (AddFiles v files)
  then show ?thesis using assms(1) by (simp add: composer_ok_add)
next
  case (DropFiles hasFiles v files)
  then show ?thesis
    using assms(1) composer_ok_add [of "c\<lparr>ci_dragging := False, ci_dragDepth := 0\<rparr>"]
    by (auto simp: drop_files_def Let_def composer_ok_fields)
next
  case (PasteItems v items)
  then show ?thesis using assms(1) by (auto simp: handlePaste_def Let_def composer_ok_add)
next
  case (RestoreDraftOf v ids d)
  show ?thesis
    using assms unfolding RestoreDraftOf
    by (cases d) (auto simp: restore_draft_def composer_ok_def Let_def restored_attachment_def list_all_iff)
next
  case (UploadAnswer i ref)
  then show ?thesis using assms(1)
    by (auto simp: upload_answer_def composer_ok_def list_all_iff split: option.split)
qed (use assms(1) in \<open>auto simp: composer_ok_add composer_ok_fields removeAttachment_def handleSubmit_def drag_enter_def
  drag_leave_def Let_def composer_ok_def list_all_iff intro: order_trans [OF length_filter_le]\<close>)

interpretation composer: guarded_machine input_step "\<lambda>_. event_fits" composer_ok
  by unfold_locales (rule composer_step)


text \<open>
  With a closure that saw an older list the limit does not hold: files that are picked twice before the next render
  are all added; and once there are too many, the number of files that may be added is negative, which
  \<open>slice\<close> takes to count from the back: more are added still.
\<close>

lemma add_valid_files:
  "list_all (\<lambda>(i, u, f). validateImageFile f = None) files \<Longrightarrow>
     length (ci_attachments (snd (foldl (\<lambda>s x. add_file x s) s files))) = length (ci_attachments (snd s)) + length files"
proof (induction files arbitrary: s)
  case (Cons x files)
  then have "length (ci_attachments (snd (add_file x s))) = length (ci_attachments (snd s)) + 1"
    by (auto simp: add_file_def split: prod.splits)
  then show ?case using Cons by simp
qed simp

lemma stale_closure_exceeds_limit:
  assumes "list_all (\<lambda>(i, u, f). validateImageFile f = None) fs" and "length fs = 10"
  shows "length (ci_attachments (snd (addFiles True 0 fs (snd (addFiles True 0 fs newInput))))) = 20"
  using assms by (simp add: addFiles_def slice_to_def MAX_ATTACHMENTS_def add_valid_files newInput_def)

lemma crowded_composer_takes_more:
  assumes "list_all (\<lambda>(i, u, f). validateImageFile f = None) fs" and "length fs = 12" and "length (ci_attachments c) = 20"
  shows "length (ci_attachments (snd (addFiles True (length (ci_attachments c)) fs c))) = 22"
proof -
  have "list_all (\<lambda>(i, u, f). validateImageFile f = None) (take 2 fs)"
    using assms(1) by (auto simp: list_all_iff dest: in_set_takeD)
  then show ?thesis using assms(2,3) by (simp add: addFiles_def slice_to_def MAX_ATTACHMENTS_def add_valid_files)
qed

text \<open>Leaving the chat with files in the composer revokes none of their previews.\<close>

lemma unmount_revokes_nothing: "unmount_input c = c"
  by (simp add: unmount_input_def newInput_def)

section \<open>Sending and taking back\<close>

text \<open>
  \<open>handleSend\<close> of \<open>chat-view.tsx\<close>, as the composer calls it; the composer is disabled unless the connection
  is ready and no answer is streaming. The result: whether the chat took it, and what goes out.
\<close>

definition composer_send ::
  "ConnectionStatus \<Rightarrow> bool \<Rightarrow> chat_input \<Rightarrow> chat \<Rightarrow> (bool \<times> json option) option \<times> chat_input \<times> chat" where
  "composer_send status ws_open c chat =
     (case handleSubmit (status \<noteq> Ready \<or> ct_isStreaming chat) c of
        (None, c1) \<Rightarrow> (None, c1, chat)
      | (Some (content, refs), c1) \<Rightarrow>
          (let (out, chat1) = send_message status ws_open content (map the refs) chat in (Some out, c1, chat1)))"

text \<open>
  What is sent can be sent again. When the server rolls the user's last message back, the composer
  gets its text and attachments, and sending them makes the same message as before.
\<close>

theorem rolled_back_message_is_restored:
  assumes "hs_messages h = before @ m # rest" and "by_user m" and "list_all (\<lambda>x. \<not> by_user x) rest"
    and "draft_refs (map_of (ms_metadata m) ''attachments'') = refs" and "length refs \<le> length ids"
    and "trim_space (ms_content m) \<noteq> [] \<or> refs \<noteq> []" and "visionEnabled"
  shows "let h' = rollbackLastUserMessage uuid date sessionId err h;
             c = restore_draft visionEnabled ids (hs_restoreDraft h') newInput
         in hs_messages h' = before @ rest @ [error_bubble uuid date sessionId err] \<and>
            fst (handleSubmit False c) = Some (trim_space (ms_content m), map Some refs)"
proof -
  have none: "find_index by_user (rev rest @ m # rev before) = Some (length rest)"
  proof -
    have "list_all (\<lambda>x. \<not> by_user x) ys \<Longrightarrow> find_index by_user (ys @ m # zs) = Some (length ys)" for ys zs
      using assms(2) by (induction ys) simp_all
    moreover have "list_all (\<lambda>x. \<not> by_user x) (rev rest)" using assms(3) by (simp add: list_all_iff)
    ultimately show ?thesis by fastforce
  qed
  have h': "rollbackLastUserMessage uuid date sessionId err h =
      h\<lparr>hs_messages := before @ rest @ [error_bubble uuid date sessionId err],
        hs_restoreDraft := Some \<lparr>rd_content = ms_content m, rd_attachments = map_of (ms_metadata m) ''attachments''\<rparr>\<rparr>"
    by (simp add: rollbackLastUserMessage_def Let_def assms(1) none)
  define R where "R = map (\<lambda>(i, ref). restored_attachment i ref) (zip ids refs)"
  have R: "map pa_fileRef R = map Some refs"
    using assms(5) by (auto simp: R_def list_eq_iff_nth_eq restored_attachment_def split: prod.split)
  have up: "list_all (\<lambda>a. pa_status a = Uploaded) R" by (auto simp: R_def list_all_iff restored_attachment_def)
  then have d: "filter (\<lambda>a. pa_status a = Uploaded) R = R" "\<not> list_ex (\<lambda>a. pa_status a = Uploading) R"
    by (auto simp: list_all_iff list_ex_iff)
  have ne: "(R = []) = (refs = [])" using R by (metis map_is_Nil_conv)
  have c: "restore_draft visionEnabled ids (Some \<lparr>rd_content = ms_content m, rd_attachments = map_of (ms_metadata m) ''attachments''\<rparr>) newInput
      = newInput\<lparr>ci_value := ms_content m, ci_attachments := R\<rparr>"
    using assms(4,7) ne by (cases "refs = []") (simp_all add: restore_draft_def R_def newInput_def Let_def)
  show ?thesis
    using assms(6) by (auto simp: Let_def h' c handleSubmit_def canSend_def doneAttachments_def d R ne)
qed

theorem rolled_back_message_is_restored_witness:
  "let ref = JObj [(''file_id'', JStr ''f1'')];
       m = \<lparr>ms_id = ''m1'', ms_session_id = ''s1'', ms_sender_type = SentByUser, ms_sender_id = None, ms_content = '' hi'',
             ms_metadata = [(''attachments'', JArr [ref])], ms_created_at = ''d''\<rparr>;
       h = rollbackLastUserMessage ''u'' ''d'' ''s1'' ''no credit'' (newHistory\<lparr>hs_messages := [m]\<rparr>)
   in fst (handleSubmit False (restore_draft True [''a1''] (hs_restoreDraft h) newInput)) = Some (''hi'', [Some ref])"
proof -
  let ?ref = "JObj [(''file_id'', JStr ''f1'')]"
  let ?m = "\<lparr>ms_id = ''m1'', ms_session_id = ''s1'', ms_sender_type = SentByUser, ms_sender_id = None, ms_content = '' hi'',
             ms_metadata = [(''attachments'', JArr [?ref])], ms_created_at = ''d''\<rparr>"
  have t: "trim_space '' hi'' = ''hi''" by code_simp
  from rolled_back_message_is_restored [of "newHistory\<lparr>hs_messages := [?m]\<rparr>" "[]" ?m "[]" "[?ref]" "[''a1'']" True "''u''" "''d''" "''s1''" "''no credit''"]
  show ?thesis by (simp add: Let_def draft_refs_def t by_user_def)
qed

text \<open>
  The composer empties itself whatever \<open>onSend\<close> comes to: when the socket is no longer open but the status does not
  say so yet, nothing goes out and the text is gone.
\<close>

lemma refused_send_loses_text:
  assumes "canSend c" and "\<not> ct_isStreaming chat"
  shows "let (out, c1, chat1) = composer_send Ready False c chat
         in out = Some (False, None) \<and> ci_value c1 = [] \<and> ci_attachments c1 = [] \<and>
            hs_restoreDraft (ct_history chat1) = None \<and>
            hs_messages (ct_history chat1) = filter (\<lambda>m. \<not> transient m) (hs_messages (ct_history chat))"
  using assms
  by (simp add: composer_send_def handleSubmit_def send_message_def clearRestoreDraft_def dropTransientMessages_def Let_def)

section \<open>Mentions\<close>

text \<open>\<open>findMentionStart\<close>, whose loop goes backwards from the cursor; \<open>-1\<close> is no mention.\<close>

fun mention_scan :: "string \<Rightarrow> nat \<Rightarrow> int" where
  "mention_scan s 0 = - 1"
| "mention_scan s (Suc i) =
     (let ch = s ! i
      in if ch = CHR ''@'' then (if i = 0 \<or> js_space (s ! (i - 1)) then int i else - 1)
         else if js_space ch then - 1
         else mention_scan s i)"

definition findMentionStart :: "string \<Rightarrow> nat \<Rightarrow> int" where
  "findMentionStart s cursorPos = mention_scan s cursorPos"

record mention_item =
  mi_id :: string
  mi_slug :: string
  mi_name :: string
  mi_description :: "string option"

text \<open>\<open>mn_request\<close>: the list of agents has been asked for and not answered; \<open>mn_loaded\<close> is \<open>agentsLoaded\<close>.\<close>

record mention =
  mn_open :: bool
  mn_query :: string
  mn_agents :: "mention_item list"
  mn_filtered :: "mention_item list"
  mn_selected :: nat
  mn_start :: int
  mn_loaded :: bool
  mn_request :: bool

definition newMention :: mention where
  "newMention = \<lparr>mn_open = False, mn_query = [], mn_agents = [], mn_filtered = [], mn_selected = 0, mn_start = - 1,
     mn_loaded = False, mn_request = False\<rparr>"

definition mention_visible :: "mention \<Rightarrow> bool" where
  "mention_visible m \<longleftrightarrow> mn_open m \<and> mn_filtered m \<noteq> []"

definition loadAgents :: "mention \<Rightarrow> mention" where
  "loadAgents m = (if mn_loaded m then m else m\<lparr>mn_loaded := True, mn_request := True\<rparr>)"

text \<open>The effect that filters; the agent of the chat is left out.\<close>

definition filter_agents :: "(string \<Rightarrow> string) \<Rightarrow> string option \<Rightarrow> string option \<Rightarrow> mention \<Rightarrow> mention" where
  "filter_agents lower excludeSlug excludeAgentId m =
     (if \<not> mn_open m then m
      else let q = lower (mn_query m)
           in m\<lparr>mn_filtered := take 8 (filter (\<lambda>a. Some (mi_slug a) \<noteq> excludeSlug \<and> Some (mi_id a) \<noteq> excludeAgentId \<and>
                  ((sub_index (mi_slug a) q \<noteq> None) \<or> (sub_index (lower (mi_name a)) q \<noteq> None))) (mn_agents m))\<rparr>)"

text \<open>An \<open>input\<close> or \<open>click\<close> of the text area, with its text and cursor; the render after it runs the effect.\<close>

definition mention_input ::
  "(string \<Rightarrow> string) \<Rightarrow> string option \<Rightarrow> string option \<Rightarrow> string \<Rightarrow> nat \<Rightarrow> mention \<Rightarrow> mention" where
  "mention_input lower excludeSlug excludeAgentId s cursorPos m =
     (let start = findMentionStart s cursorPos
      in if start \<ge> 0 then
           filter_agents lower excludeSlug excludeAgentId
             (loadAgents (m\<lparr>mn_open := True, mn_query := lower (take (cursorPos - (nat start + 1)) (drop (nat start + 1) s)),
                mn_selected := 0, mn_start := start\<rparr>))
         else m\<lparr>mn_open := False\<rparr>)"

text \<open>The answer of the list, or its failure, which nobody handles.\<close>

definition agents_answer ::
  "(string \<Rightarrow> string) \<Rightarrow> string option \<Rightarrow> string option \<Rightarrow> mention_item list option \<Rightarrow> mention \<Rightarrow> mention" where
  "agents_answer lower excludeSlug excludeAgentId items m =
     (if \<not> mn_request m then m
      else case items of
             None \<Rightarrow> m\<lparr>mn_request := False\<rparr>
           | Some as \<Rightarrow> filter_agents lower excludeSlug excludeAgentId (m\<lparr>mn_agents := as, mn_request := False\<rparr>))"

text \<open>\<open>selectAgent\<close>: the new text and cursor.\<close>

definition selectAgent :: "string \<Rightarrow> nat \<Rightarrow> mention_item \<Rightarrow> mention \<Rightarrow> string \<times> nat \<times> mention" where
  "selectAgent value selectionStart a m =
     (take (nat (mn_start m)) value @ ''@'' @ mi_slug a @ '' '' @ drop selectionStart value,
      nat (mn_start m) + length (mi_slug a) + 2, m\<lparr>mn_open := False\<rparr>)"

datatype mention_key = ArrowDown | ArrowUp | AcceptKey | EscapeKey | AnyKey

text \<open>A key while the list is open: the new text and cursor, if an agent was chosen.\<close>

definition mention_keydown :: "mention_key \<Rightarrow> bool \<Rightarrow> string \<Rightarrow> nat \<Rightarrow> mention \<Rightarrow> (string \<times> nat) option \<times> mention" where
  "mention_keydown key composing value selectionStart m =
     (if \<not> mn_open m \<or> mn_filtered m = [] then (None, m)
      else case key of
             ArrowDown \<Rightarrow> (None, m\<lparr>mn_selected := min (mn_selected m + 1) (length (mn_filtered m) - 1)\<rparr>)
           | ArrowUp \<Rightarrow> (None, m\<lparr>mn_selected := mn_selected m - 1\<rparr>)
           | AcceptKey \<Rightarrow>
               if composing then (None, m)
               else (let (s, pos, m1) = selectAgent value selectionStart (mn_filtered m ! mn_selected m) m in (Some (s, pos), m1))
           | EscapeKey \<Rightarrow> (None, m\<lparr>mn_open := False\<rparr>)
           | AnyKey \<Rightarrow> (None, m))"

definition mention_hover :: "nat \<Rightarrow> mention \<Rightarrow> mention" where
  "mention_hover i m = (if mention_visible m \<and> i < length (mn_filtered m) then m\<lparr>mn_selected := i\<rparr> else m)"

definition click_outside :: "mention \<Rightarrow> mention" where
  "click_outside m = m\<lparr>mn_open := False\<rparr>"

lemma mention_scan_iff:
  "mention_scan s n = int i \<longleftrightarrow> i < n \<and> s ! i = CHR ''@'' \<and> (i = 0 \<or> js_space (s ! (i - 1))) \<and>
     (\<forall>j. i < j \<and> j < n \<longrightarrow> \<not> js_space (s ! j) \<and> s ! j \<noteq> CHR ''@'')"
proof (induction n)
  case (Suc n)
  have nsp: "\<not> js_space (CHR ''@'')" by (simp add: js_space_def)
  consider "s ! n = CHR ''@''" | "s ! n \<noteq> CHR ''@''" "js_space (s ! n)" | "s ! n \<noteq> CHR ''@''" "\<not> js_space (s ! n)" by blast
  then show ?case
  proof cases
    case 1
    then have "i < n \<Longrightarrow> \<exists>j. i < j \<and> j < Suc n \<and> s ! j = CHR ''@''" by blast
    then show ?thesis using 1 by (auto simp: Let_def less_Suc_eq)
  next
    case 2
    then have "i < n \<Longrightarrow> \<exists>j. i < j \<and> j < Suc n \<and> js_space (s ! j)" by blast
    then show ?thesis using 2 by (auto simp: Let_def less_Suc_eq)
  next
    case 3
    then have "mention_scan s (Suc n) = mention_scan s n" by (simp add: Let_def)
    then show ?thesis using 3 Suc.IH by (auto simp: less_Suc_eq)
  qed
qed simp

lemma list_all_between:
  assumes "n \<le> length s"
  shows "list_all P (take (n - Suc i) (drop (Suc i) s)) \<longleftrightarrow> (\<forall>j. i < j \<and> j < n \<longrightarrow> P (s ! j))"
proof
  assume l: "list_all P (take (n - Suc i) (drop (Suc i) s))"
  show "\<forall>j. i < j \<and> j < n \<longrightarrow> P (s ! j)"
  proof (intro allI impI)
    fix j assume j: "i < j \<and> j < n"
    then have "j - Suc i < n - Suc i" "Suc i + (j - Suc i) = j" by auto
    with l assms show "P (s ! j)" by (auto simp: list_all_length dest!: spec [of _ "j - Suc i"])
  qed
qed (use assms in \<open>auto simp: list_all_length\<close>)

text \<open>
  A mention starts at an at sign that begins the text or follows white space, and runs to the cursor without
  white space or a second at sign; wherever there is one, it is found.
\<close>

theorem findMentionStart_exact:
  assumes "cursorPos \<le> length s"
  shows "findMentionStart s cursorPos = int i \<longleftrightarrow>
    i < cursorPos \<and> s ! i = CHR ''@'' \<and> (i = 0 \<or> js_space (s ! (i - 1))) \<and>
    list_all (\<lambda>c. \<not> js_space c \<and> c \<noteq> CHR ''@'') (take (cursorPos - (i + 1)) (drop (i + 1) s))"
  by (simp add: findMentionStart_def mention_scan_iff list_all_between [OF assms])

theorem findMentionStart_exact_witness: "findMentionStart ''ask @re'' 7 = 4"
proof -
  have "js_space (CHR '' '')" "list_all (\<lambda>c. \<not> js_space c \<and> c \<noteq> CHR ''@'') ''re''" by code_simp+
  with findMentionStart_exact [of 7 "''ask @re''" 4] show ?thesis by simp
qed

datatype mention_event =
    MentionInput string nat | AgentsAnswer "mention_item list option" | MentionKey mention_key bool string nat
  | MentionHover nat | ClickOutside

fun mention_step :: "(string \<Rightarrow> string) \<Rightarrow> string option \<Rightarrow> string option \<Rightarrow> mention \<Rightarrow> mention_event \<Rightarrow> mention" where
  "mention_step lower es ei m (MentionInput s n) = mention_input lower es ei s n m"
| "mention_step lower es ei m (AgentsAnswer items) = agents_answer lower es ei items m"
| "mention_step lower es ei m (MentionKey k composing s n) = snd (mention_keydown k composing s n m)"
| "mention_step lower es ei m (MentionHover i) = mention_hover i m"
| "mention_step lower es ei m ClickOutside = click_outside m"

text \<open>The list is asked for once; until it is there nothing is listed, and the selected index is that of a listed agent.\<close>

definition mention_ok :: "mention \<Rightarrow> bool" where
  "mention_ok m \<longleftrightarrow> (mn_selected m = 0 \<or> mn_selected m < length (mn_filtered m)) \<and>
     (mn_request m \<or> \<not> mn_loaded m \<longrightarrow> mn_filtered m = [] \<and> mn_agents m = []) \<and> (mn_request m \<longrightarrow> mn_loaded m) \<and>
     (mn_open m \<longrightarrow> 0 \<le> mn_start m \<and> mn_loaded m) \<and>
     length (mn_filtered m) \<le> 8 \<and> set (mn_filtered m) \<subseteq> set (mn_agents m)"

lemma filter_agents_fields:
  "mn_selected (filter_agents lower es ei m) = mn_selected m" "mn_request (filter_agents lower es ei m) = mn_request m"
  "mn_loaded (filter_agents lower es ei m) = mn_loaded m" "mn_agents (filter_agents lower es ei m) = mn_agents m"
  "mn_open (filter_agents lower es ei m) = mn_open m" "mn_start (filter_agents lower es ei m) = mn_start m"
  by (simp_all add: filter_agents_def Let_def)

lemma filter_agents_listed:
  "length (mn_filtered m) \<le> 8 \<Longrightarrow> length (mn_filtered (filter_agents lower es ei m)) \<le> 8"
  "set (mn_filtered m) \<subseteq> set (mn_agents m) \<Longrightarrow> set (mn_filtered (filter_agents lower es ei m)) \<subseteq> set (mn_agents m)"
  "mn_agents m = [] \<Longrightarrow> mn_filtered m = [] \<Longrightarrow> mn_filtered (filter_agents lower es ei m) = []"
  by (auto simp: filter_agents_def Let_def dest: in_set_takeD)

lemma mention_step_ok: "mention_ok m \<Longrightarrow> mention_ok (mention_step lower es ei m e)"
proof (cases e)
  case (MentionInput s n)
  assume ok: "mention_ok m"
  define m1 where "m1 = loadAgents (m\<lparr>mn_open := True,
     mn_query := lower (take (n - (nat (findMentionStart s n) + 1)) (drop (nat (findMentionStart s n) + 1) s)),
     mn_selected := 0, mn_start := findMentionStart s n\<rparr>)"
  have f: "mn_filtered m1 = mn_filtered m" "mn_agents m1 = mn_agents m" "mn_selected m1 = 0"
    "mn_request m1 = (mn_request m \<or> \<not> mn_loaded m)" "mn_loaded m1" "mn_start m1 = findMentionStart s n" "mn_open m1"
    using ok by (auto simp: m1_def loadAgents_def mention_ok_def)
  have "mention_input lower es ei s n m = (if 0 \<le> findMentionStart s n then filter_agents lower es ei m1 else m\<lparr>mn_open := False\<rparr>)"
    by (simp add: mention_input_def m1_def Let_def)
  then show ?thesis using MentionInput ok f filter_agents_listed [of m1 lower es ei]
    by (simp add: mention_ok_def filter_agents_fields)
next
  case (AgentsAnswer items)
  assume ok: "mention_ok m"
  show ?thesis
  proof (cases items)
    case None
    then show ?thesis using AgentsAnswer ok by (auto simp: agents_answer_def mention_ok_def)
  next
    case (Some as)
    then show ?thesis using AgentsAnswer ok filter_agents_listed [of "m\<lparr>mn_agents := as, mn_request := False\<rparr>" lower es ei]
      by (auto simp: agents_answer_def mention_ok_def filter_agents_fields)
  qed
next
  case (MentionKey k composing s n)
  assume ok: "mention_ok m"
  then have "k = ArrowDown \<Longrightarrow> mn_filtered m \<noteq> [] \<Longrightarrow> min (mn_selected m + 1) (length (mn_filtered m) - 1) < length (mn_filtered m)"
    by (cases "mn_filtered m") auto
  then show ?thesis using MentionKey ok
    by (cases k) (auto simp: mention_keydown_def mention_ok_def selectAgent_def)
qed (auto simp: mention_ok_def mention_hover_def click_outside_def)

interpretation mentioning: machine "mention_step lower es ei" mention_ok for lower es ei
  by unfold_locales (rule mention_step_ok)

text \<open>
  Enter always inserts an agent that is listed, where the mention was typed: in every run of the list, an accepting
  key either does nothing or replaces the text from the at sign to the cursor by the slug of one of the agents shown
  and a space, puts the cursor behind it and closes the list.
\<close>

theorem mention_inserts_listed_agent:
  "let m = foldl (mention_step lower es ei) newMention events;
       (chosen, m') = mention_keydown AcceptKey False value cursor m
   in case chosen of
        None \<Rightarrow> \<not> mention_visible m \<and> m' = m
      | Some (s, pos) \<Rightarrow>
          mn_filtered m ! mn_selected m \<in> set (mn_agents m) \<and> \<not> mn_open m' \<and>
          s = take (nat (mn_start m)) value @ ''@'' @ mi_slug (mn_filtered m ! mn_selected m) @ '' '' @ drop cursor value \<and>
          pos = nat (mn_start m) + length (''@'' @ mi_slug (mn_filtered m ! mn_selected m) @ '' '')"
proof -
  let ?m = "foldl (mention_step lower es ei) newMention events"
  have "mention_ok newMention" by (simp add: mention_ok_def newMention_def)
  then have ok: "mention_ok ?m" by (rule mentioning.run_good)
  have "mn_filtered ?m \<noteq> [] \<Longrightarrow> mn_selected ?m < length (mn_filtered ?m)"
    using ok by (cases "mn_filtered ?m") (auto simp: mention_ok_def)
  then have "mn_filtered ?m \<noteq> [] \<Longrightarrow> mn_filtered ?m ! mn_selected ?m \<in> set (mn_agents ?m)"
    using ok nth_mem unfolding mention_ok_def by blast
  then show ?thesis by (simp add: mention_keydown_def selectAgent_def mention_visible_def Let_def split: prod.split)
qed

text \<open>A list that could not be fetched is never asked for again: the guard is set before the request.\<close>

lemma failed_agents_are_not_retried:
  assumes "mn_request m" and "mention_ok m"
  shows "let m1 = agents_answer lower es ei None m; m2 = mention_input lower es ei s n m1
         in \<not> mn_request m1 \<and> \<not> mn_request m2 \<and> mn_agents m2 = []"
  using assms
  by (simp add: agents_answer_def mention_input_def loadAgents_def mention_ok_def filter_agents_fields Let_def)

text \<open>
  The place of a mention is that of the last \<open>input\<close> or \<open>click\<close>. When the cursor has been moved in front of it with
  the arrow keys, the text between is doubled.
\<close>

lemma moved_cursor_doubles_text:
  assumes "mn_start m = int i" and "cursor \<le> i" and "i \<le> length value"
  shows "fst (selectAgent value cursor a m) = take i value @ ''@'' @ mi_slug a @ '' '' @ (take (i - cursor) (drop cursor value)) @ drop i value"
proof -
  have "drop cursor value = take (i - cursor) (drop cursor value) @ drop i value"
    using assms(2) by (metis append_take_drop_id drop_drop le_add_diff_inverse2)
  then show ?thesis using assms(1) by (simp add: selectAgent_def)
qed

end
