(* ===== verification/ChatPage.thy ===== *)
theory ChatPage
  imports ChatText ChatInput
begin

text \<open>
  The chat around its messages: the title and its editor (\<open>features/chat/hooks/use-title-editor.ts\<close>), the view's own
  state (\<open>chat-view.tsx\<close>, \<open>use-chat-width.tsx\<close>, \<open>use-agent-capabilities.ts\<close>), and the scrolling list
  (\<open>message-list.tsx\<close>, \<open>jump-rail.tsx\<close>). Lengths on the screen are whole pixels; what the browser lays out is an
  argument; the ellipsis, which is no byte, is one too.
\<close>

section \<open>The title\<close>

definition session_title :: "(string \<times> json) list \<Rightarrow> string option" where
  "session_title s = jstr (map_of s ''title'')"

record title_editor =
  te_isEditing :: bool
  te_draft :: string

definition newTitleEditor :: title_editor where
  "newTitleEditor = \<lparr>te_isEditing = False, te_draft = []\<rparr>"

text \<open>\<open>session\<close> is that of the render whose closure is called.\<close>

definition startEditing :: "(string \<times> json) list option \<Rightarrow> title_editor \<Rightarrow> title_editor" where
  "startEditing session t =
     (case session of
        None \<Rightarrow> t
      | Some s \<Rightarrow> \<lparr>te_isEditing = True, te_draft = (if truthy (session_title s) then the (session_title s) else [])\<rparr>)"

record title_request =
  tq_session :: json
  tq_title :: string
  tq_previous :: "string option"

definition opt_json :: "string option \<Rightarrow> json" where
  "opt_json t = (case t of Some s \<Rightarrow> JStr s | None \<Rightarrow> JNull)"

definition saveTitle :: "(string \<times> json) list option \<Rightarrow> string \<Rightarrow> history \<Rightarrow> title_request option \<times> history" where
  "saveTitle session nxt h =
     (case session of
        None \<Rightarrow> (None, h)
      | Some s \<Rightarrow>
          let trimmed = trim_space nxt
          in if trimmed = [] \<or> Some trimmed = session_title s then (None, h)
             else (Some \<lparr>tq_session = (case map_of s ''id'' of Some i \<Rightarrow> i | None \<Rightarrow> JNull), tq_title = trimmed,
                         tq_previous = session_title s\<rparr>,
                   patchSession [(''title'', JStr trimmed)] h))"

definition saveTitle_failed :: "title_request \<Rightarrow> history \<Rightarrow> history" where
  "saveTitle_failed r h = patchSession [(''title'', opt_json (tq_previous r))] h"

definition save_editor :: "(string \<times> json) list option \<Rightarrow> title_editor \<Rightarrow> history \<Rightarrow> title_request option \<times> title_editor \<times> history" where
  "save_editor session t h = (let (r, h1) = saveTitle session (te_draft t) h in (r, t\<lparr>te_isEditing := False\<rparr>, h1))"

definition title_escape :: "title_editor \<Rightarrow> title_editor" where
  "title_escape t = t\<lparr>te_isEditing := False\<rparr>"

definition auto_title :: "char \<Rightarrow> string \<Rightarrow> string" where
  "auto_title ellipsis content =
     (let firstLine = hd (split_on (CHR 0x0A) (trim_space content))
      in if length firstLine > 60 then take 57 firstLine @ [ellipsis] else firstLine)"

definition setAutoTitleFromMessage :: "char \<Rightarrow> (string \<times> json) list option \<Rightarrow> string \<Rightarrow> history \<Rightarrow> history" where
  "setAutoTitleFromMessage ellipsis session content h =
     (case session of
        None \<Rightarrow> h
      | Some s \<Rightarrow> if truthy (session_title s) then h else patchSession [(''title'', JStr (auto_title ellipsis content))] h)"

section \<open>The view\<close>

definition FS_TOUCHING_TOOLS :: "string list" where
  "FS_TOUCHING_TOOLS = [''Bash'', ''Edit'', ''Write'', ''MultiEdit'', ''NotebookEdit'']"

definition AUTO_REFRESH_DEBOUNCE_MS :: nat where "AUTO_REFRESH_DEBOUNCE_MS = 1500"
definition WORKSPACE_PANEL_KEY :: string where "WORKSPACE_PANEL_KEY = ''aviary:workspace-panel-open''"

text \<open>
  \<open>cv_timer\<close> is the tool whose timer runs; \<open>cv_told\<close> the tools that the outer layout was told of, when there is one;
  storage is the browser's.
\<close>

record chat_view =
  cv_workspaceOpen :: bool
  cv_refreshSignal :: nat
  cv_timer :: "string option"
  cv_told :: "string list"
  cv_storage :: "(string, string) jmap"

definition open_chat_view :: "(string, string) jmap \<Rightarrow> chat_view" where
  "open_chat_view storage =
     \<lparr>cv_workspaceOpen = (mget storage WORKSPACE_PANEL_KEY = Some ''1''), cv_refreshSignal = 0, cv_timer = None,
      cv_told = [], cv_storage = storage\<rparr>"

text \<open>\<open>full\<close> is a storage that throws.\<close>

definition toggleWorkspace :: "bool \<Rightarrow> chat_view \<Rightarrow> chat_view" where
  "toggleWorkspace full v =
     (let nxt = \<not> cv_workspaceOpen v
      in v\<lparr>cv_workspaceOpen := nxt,
           cv_storage := (if full then cv_storage v else mput WORKSPACE_PANEL_KEY (if nxt then ''1'' else ''0'') (cv_storage v))\<rparr>)"

definition handleToolCompleted :: "string \<Rightarrow> chat_view \<Rightarrow> chat_view" where
  "handleToolCompleted name v = (if name \<notin> set FS_TOUCHING_TOOLS then v else v\<lparr>cv_timer := Some name\<rparr>)"

definition refresh_timer :: "bool \<Rightarrow> chat_view \<Rightarrow> chat_view" where
  "refresh_timer outer v =
     (case cv_timer v of
        None \<Rightarrow> v
      | Some name \<Rightarrow> if outer then v\<lparr>cv_timer := None, cv_told := cv_told v @ [name]\<rparr>
                     else v\<lparr>cv_refreshSignal := cv_refreshSignal v + 1, cv_timer := None\<rparr>)"

definition leave_chat_view :: "chat_view \<Rightarrow> chat_view" where
  "leave_chat_view v = v\<lparr>cv_timer := None\<rparr>"

definition handleSend ::
  "char \<Rightarrow> ConnectionStatus \<Rightarrow> bool \<Rightarrow> string \<Rightarrow> json list \<Rightarrow> chat \<Rightarrow> json option \<times> chat" where
  "handleSend ellipsis status ws_open content attachments c =
     (let session = hs_session (ct_history c); ((ok, msg), c1) = send_message status ws_open content attachments c
      in (msg, if ok then c1\<lparr>ct_history := setAutoTitleFromMessage ellipsis session content (ct_history c1)\<rparr> else c1))"

definition isInputDisabled :: "ConnectionStatus \<Rightarrow> chat \<Rightarrow> bool" where
  "isInputDisabled status c \<longleftrightarrow> status \<noteq> Ready \<or> ct_isStreaming c"

definition showConnecting :: "ConnectionStatus \<Rightarrow> ConnectionStatus option \<Rightarrow> bool" where
  "showConnecting status visible \<longleftrightarrow>
     status \<noteq> Ready \<and> visible \<noteq> None \<and> visible \<notin> {Some Ready, Some Offline, Some Disconnected, Some Reconnecting}"

text \<open>The reading width (\<open>use-chat-width.tsx\<close>).\<close>

datatype ChatWidth = Comfort | Wide

definition chat_width_key :: string where "chat_width_key = ''aviary_chat_width''"

definition width_name :: "ChatWidth \<Rightarrow> string" where
  "width_name w = (case w of Comfort \<Rightarrow> ''comfort'' | Wide \<Rightarrow> ''wide'')"

definition width_class :: "ChatWidth \<Rightarrow> string" where
  "width_class w = (case w of Comfort \<Rightarrow> ''max-w-[768px]'' | Wide \<Rightarrow> ''max-w-[1024px]'')"

definition load_chat_width :: "(string, string) jmap \<Rightarrow> ChatWidth" where
  "load_chat_width storage =
     (case mget storage chat_width_key of
        Some s \<Rightarrow> if s = ''comfort'' then Comfort else if s = ''wide'' then Wide else Comfort
      | None \<Rightarrow> Comfort)"

definition set_chat_width :: "ChatWidth \<Rightarrow> (string, string) jmap \<Rightarrow> ChatWidth \<times> (string, string) jmap" where
  "set_chat_width w storage = (w, mput chat_width_key (width_name w) storage)"

text \<open>What the model of the agent can do (\<open>use-agent-capabilities.ts\<close>); \<open>cp_request\<close> is the effect that is alive.\<close>

record capabilities =
  cp_capabilities :: "string list"
  cp_fetched :: "string option"
  cp_request :: "string option"

definition newCapabilities :: capabilities where
  "newCapabilities = \<lparr>cp_capabilities = [], cp_fetched = None, cp_request = None\<rparr>"

definition capabilities_effect :: "string option \<Rightarrow> capabilities \<Rightarrow> capabilities" where
  "capabilities_effect agentId c =
     (let c1 = c\<lparr>cp_request := None\<rparr>
      in if \<not> truthy agentId \<or> cp_fetched c = agentId then c1 else c1\<lparr>cp_fetched := agentId, cp_request := agentId\<rparr>)"

text \<open>The answer: the agent's backend and model, and the models with their capabilities; or a failure, which nobody minds.\<close>

definition model_id :: "string \<Rightarrow> string \<Rightarrow> string" where
  "model_id backend model = (if CHR ''/'' \<in> set model then model else backend @ ''/'' @ model)"

definition capabilities_answer ::
  "((string \<times> string) \<times> (string \<times> string list option) list) option \<Rightarrow> capabilities \<Rightarrow> capabilities" where
  "capabilities_answer ans c =
     (if cp_request c = None then c
      else case ans of
             None \<Rightarrow> c\<lparr>cp_request := None\<rparr>
           | Some ((backend, model), models) \<Rightarrow>
               c\<lparr>cp_capabilities := (case find (\<lambda>m. fst m = model_id backend model) models of
                    Some (_, Some caps) \<Rightarrow> caps | _ \<Rightarrow> []), cp_request := None\<rparr>)"

definition visionEnabled :: "capabilities \<Rightarrow> bool" where
  "visionEnabled c \<longleftrightarrow> ''vision'' \<in> set (cp_capabilities c)"

section \<open>The list of messages\<close>

definition PRELOAD_THRESHOLD_PX :: int where "PRELOAD_THRESHOLD_PX = 1500"
definition FOLLOW_THRESHOLD_PX :: int where "FOLLOW_THRESHOLD_PX = 80"

record scroll_element =
  se_scrollTop :: int
  se_scrollHeight :: int
  se_clientHeight :: int

record scroll_refs =
  sr_prevFirstId :: "string option"
  sr_prevLastId :: "string option"
  sr_prevScrollHeight :: int
  sr_didInitialScroll :: bool
  sr_follow :: bool

definition newScroll :: scroll_refs where
  "newScroll = \<lparr>sr_prevFirstId = None, sr_prevLastId = None, sr_prevScrollHeight = 0, sr_didInitialScroll = False, sr_follow = True\<rparr>"

text \<open>What is asked of the browser: nothing, a new position at once, or a smooth scroll to one.\<close>

datatype scroll_command = NoScroll | JumpTo int | SmoothTo int

definition first_id :: "Message list \<Rightarrow> string option" where
  "first_id ms = (case ms of [] \<Rightarrow> None | m # _ \<Rightarrow> Some (ms_id m))"

definition last_id :: "Message list \<Rightarrow> string option" where
  "last_id ms = (if ms = [] then None else Some (ms_id (last ms)))"

text \<open>The layout effect of new messages, with the element as it is laid out then.\<close>

definition messages_layout :: "Message list \<Rightarrow> scroll_element \<Rightarrow> scroll_refs \<Rightarrow> scroll_command \<times> scroll_refs" where
  "messages_layout ms el r =
     (let firstId = first_id ms; lastId = last_id ms;
          r1 = r\<lparr>sr_prevFirstId := firstId, sr_prevLastId := lastId, sr_prevScrollHeight := se_scrollHeight el\<rparr>
      in if \<not> sr_didInitialScroll r \<and> ms \<noteq> [] then (JumpTo (se_scrollHeight el), r1\<lparr>sr_didInitialScroll := True\<rparr>)
         else if sr_prevFirstId r \<noteq> None \<and> firstId \<noteq> sr_prevFirstId r \<and> lastId = sr_prevLastId r
         then (JumpTo (se_scrollTop el + (se_scrollHeight el - sr_prevScrollHeight r)), r1)
         else if sr_prevLastId r \<noteq> None \<and> lastId \<noteq> sr_prevLastId r \<and> sr_follow r
         then (SmoothTo (se_scrollHeight el), r1)
         else (NoScroll, r1))"

definition blocks_effect :: "'b list \<Rightarrow> scroll_element \<Rightarrow> scroll_refs \<Rightarrow> scroll_command" where
  "blocks_effect blocks el r = (if blocks = [] \<or> \<not> sr_follow r then NoScroll else SmoothTo (se_scrollHeight el))"

text \<open>A position that the browser takes: within the content.\<close>

definition scroll_position :: "int \<Rightarrow> scroll_element \<Rightarrow> int" where
  "scroll_position x el = max 0 (min x (se_scrollHeight el - se_clientHeight el))"

text \<open>A scroll event; whether the earlier page is asked for, and the reference.\<close>

definition on_scroll :: "bool \<Rightarrow> bool \<Rightarrow> scroll_element \<Rightarrow> scroll_refs \<Rightarrow> bool \<times> scroll_refs" where
  "on_scroll hasMore loadingEarlier el r =
     (hasMore \<and> \<not> loadingEarlier \<and> se_scrollTop el < PRELOAD_THRESHOLD_PX,
      r\<lparr>sr_follow := (se_scrollHeight el - se_scrollTop el - se_clientHeight el \<le> FOLLOW_THRESHOLD_PX)\<rparr>)"

definition preload_effect :: "bool \<Rightarrow> bool \<Rightarrow> scroll_element \<Rightarrow> bool" where
  "preload_effect hasMore loadingEarlier el \<longleftrightarrow> hasMore \<and> \<not> loadingEarlier \<and> se_scrollTop el < PRELOAD_THRESHOLD_PX"

definition handleLoadEarlierClick :: "bool \<Rightarrow> bool \<Rightarrow> bool" where
  "handleLoadEarlierClick hasMore loadingEarlier \<longleftrightarrow> hasMore \<and> \<not> loadingEarlier"

text \<open>What is shown of each message; \<open>label\<close> is \<open>computeTimeDividerLabel\<close> of two messages' dates.\<close>

datatype rail_kind = RailUser | RailAgent | RailToolSuccess | RailToolError | RailToolRunning

record message_row =
  rw_id :: string
  rw_restart :: bool
  rw_divider :: "string option"
  rw_avatar :: bool
  rw_kind :: rail_kind
  rw_preview :: string

definition terminated :: "Message \<Rightarrow> bool" where
  "terminated m \<longleftrightarrow> jtruthy (map_of (ms_metadata m) ''error'') \<or> jtruthy (map_of (ms_metadata m) ''cancelled'')"

definition message_row_of :: "bool \<Rightarrow> (Message \<Rightarrow> Message \<Rightarrow> string option) \<Rightarrow> Message option \<Rightarrow> Message \<Rightarrow> message_row" where
  "message_row_of showRestartDividers label prev m =
     (let dividerLabel = (case prev of Some p \<Rightarrow> label p m | None \<Rightarrow> None);
          showRestart = (case prev of
             Some p \<Rightarrow> showRestartDividers \<and> ms_sender_type p = SentByAgent \<and> terminated p \<and> ms_sender_type m = SentByUser
           | None \<Rightarrow> False);
          line = take 100 (hd (split_on (CHR 0x0A) (ms_content m)))
      in \<lparr>rw_id = ms_id m, rw_restart = showRestart, rw_divider = dividerLabel,
          rw_avatar = (case prev of None \<Rightarrow> True | Some p \<Rightarrow> ms_sender_type p \<noteq> ms_sender_type m) \<or> dividerLabel \<noteq> None \<or> showRestart,
          rw_kind = (if ms_sender_type m = SentByUser then RailUser
                     else if jtruthy (map_of (ms_metadata m) ''error'') then RailToolError else RailAgent),
          rw_preview = (if line \<noteq> [] then line else ''(no text)'')\<rparr>)"

fun message_rows :: "bool \<Rightarrow> (Message \<Rightarrow> Message \<Rightarrow> string option) \<Rightarrow> Message option \<Rightarrow> Message list \<Rightarrow> message_row list" where
  "message_rows restart label prev [] = []"
| "message_rows restart label prev (m # ms) = message_row_of restart label prev m # message_rows restart label (Some m) ms"

section \<open>The rail\<close>

definition MIN_ITEMS :: nat where "MIN_ITEMS = 6"

record rail_item =
  ri_id :: string
  ri_kind :: rail_kind
  ri_preview :: string
  ri_top :: int

text \<open>The rows as they are laid out: each with the top of its box, relative to the window like the container's.\<close>

definition measure_rail :: "int \<Rightarrow> int \<Rightarrow> (message_row \<times> int) list \<Rightarrow> rail_item list" where
  "measure_rail containerTop scrollTop rows =
     map (\<lambda>(w, y). \<lparr>ri_id = rw_id w, ri_kind = rw_kind w, ri_preview = rw_preview w, ri_top = y - containerTop + scrollTop\<rparr>) rows"

fun sameItems :: "rail_item list \<Rightarrow> rail_item list \<Rightarrow> bool" where
  "sameItems [] [] \<longleftrightarrow> True"
| "sameItems (a # as) (b # bs) \<longleftrightarrow> \<not> (ri_id a \<noteq> ri_id b \<or> ri_top a \<noteq> ri_top b \<or> ri_kind a \<noteq> ri_kind b) \<and> sameItems as bs"
| "sameItems _ _ \<longleftrightarrow> False"

definition rail_measured :: "int \<Rightarrow> int \<Rightarrow> int \<Rightarrow> (message_row \<times> int) list \<Rightarrow> rail_item list \<Rightarrow> rail_item list" where
  "rail_measured height containerTop scrollTop rows prev =
     (if height \<le> 0 then prev
      else let nxt = measure_rail containerTop scrollTop rows in if sameItems prev nxt then prev else nxt)"

definition rail_shown :: "int \<Rightarrow> rail_item list \<Rightarrow> bool" where
  "rail_shown height items \<longleftrightarrow> MIN_ITEMS \<le> length items \<and> 0 < height"

section \<open>What holds\<close>

lemma sameItems_iff:
  "sameItems as bs \<longleftrightarrow> map (\<lambda>i. (ri_id i, ri_top i, ri_kind i)) as = map (\<lambda>i. (ri_id i, ri_top i, ri_kind i)) bs"
  by (induction as bs rule: sameItems.induct) auto

text \<open>
  Loading earlier messages leaves the view where it is: when a page is put before the messages, the distance from
  the end of the content to the top of the window is the same after the layout as before, whatever the height
  of the page; the list follows new messages only when it did before.
\<close>

theorem earlier_page_keeps_view:
  assumes "messages_layout ms el r0 = (cmd0, r)" and "sr_didInitialScroll r" and "ms \<noteq> []"
    and "first_id (prepend_page page ms) \<noteq> first_id ms"
    and "se_clientHeight el' = se_clientHeight el" and "se_scrollTop el' = se_scrollTop el"
    and "0 \<le> se_scrollTop el" and "se_scrollTop el \<le> se_scrollHeight el - se_clientHeight el"
    and "se_scrollHeight el \<le> se_scrollHeight el'"
  shows "let (cmd, r') = messages_layout (prepend_page page ms) el' r
         in \<exists>x. cmd = JumpTo x \<and> se_scrollHeight el' - scroll_position x el' = se_scrollHeight el - se_scrollTop el \<and>
            sr_follow r' = sr_follow r0"
proof -
  have r: "sr_prevFirstId r = first_id ms" "sr_prevLastId r = last_id ms" "sr_prevScrollHeight r = se_scrollHeight el"
    "sr_follow r = sr_follow r0"
    using assms(1) by (auto simp: messages_layout_def Let_def split: if_splits)
  have "last_id (prepend_page page ms) = last_id ms" using assms(3) by (simp add: last_id_def prepend_page_def)
  moreover have "first_id ms \<noteq> None" using assms(3) by (simp add: first_id_def split: list.split)
  ultimately have "messages_layout (prepend_page page ms) el' r =
      (JumpTo (se_scrollTop el' + (se_scrollHeight el' - se_scrollHeight el)),
       r\<lparr>sr_prevFirstId := first_id (prepend_page page ms), sr_prevLastId := last_id ms, sr_prevScrollHeight := se_scrollHeight el'\<rparr>)"
    using r assms(2,4) by (simp add: messages_layout_def Let_def)
  then show ?thesis using assms(5-9) r(4) by (simp add: Let_def scroll_position_def)
qed

theorem earlier_page_keeps_view_witness:
  "let m = \<lparr>ms_id = ''m2'', ms_session_id = ''s1'', ms_sender_type = SentByUser, ms_sender_id = None, ms_content = ''hi'',
             ms_metadata = [], ms_created_at = ''d''\<rparr>;
       r0 = newScroll\<lparr>sr_didInitialScroll := True\<rparr>;
       r = snd (messages_layout [m] \<lparr>se_scrollTop = 0, se_scrollHeight = 800, se_clientHeight = 600\<rparr> r0)
   in \<exists>x. fst (messages_layout (prepend_page [m\<lparr>ms_id := ''m1''\<rparr>] [m])
              \<lparr>se_scrollTop = 0, se_scrollHeight = 1100, se_clientHeight = 600\<rparr> r) = JumpTo x \<and>
          1100 - scroll_position x \<lparr>se_scrollTop = 0, se_scrollHeight = 1100, se_clientHeight = 600\<rparr> = 800"
proof -
  let ?m = "\<lparr>ms_id = ''m2'', ms_session_id = ''s1'', ms_sender_type = SentByUser, ms_sender_id = None, ms_content = ''hi'',
             ms_metadata = [], ms_created_at = ''d''\<rparr>"
  let ?el = "\<lparr>se_scrollTop = 0, se_scrollHeight = 800, se_clientHeight = 600\<rparr> :: scroll_element"
  let ?r0 = "newScroll\<lparr>sr_didInitialScroll := True\<rparr>"
  obtain cmd0 r where r: "messages_layout [?m] ?el ?r0 = (cmd0, r)" by fastforce
  then have i: "sr_didInitialScroll r" by (auto simp: messages_layout_def newScroll_def Let_def split: if_splits)
  from earlier_page_keeps_view [OF r i, of "[?m\<lparr>ms_id := ''m1''\<rparr>]" "\<lparr>se_scrollTop = 0, se_scrollHeight = 1100, se_clientHeight = 600\<rparr>"]
  show ?thesis by (auto simp: Let_def r prepend_page_def first_id_def split: prod.splits)
qed

text \<open>
  The height it compares with is that of the last change of the messages. While an answer streams the content grows
  without one, and a page that comes then moves the view by what has been streamed.
\<close>

lemma streamed_height_moves_view:
  assumes "sr_didInitialScroll r" and "sr_prevFirstId r = first_id ms" and "sr_prevLastId r = last_id ms" and "ms \<noteq> []"
    and "first_id (prepend_page page ms) \<noteq> first_id ms" and "sr_prevScrollHeight r + streamed = se_scrollHeight el"
    and "se_scrollTop el' = se_scrollTop el" and "se_scrollHeight el' = se_scrollHeight el + added"
  shows "fst (messages_layout (prepend_page page ms) el' r) = JumpTo (se_scrollTop el + added + streamed)"
proof -
  have "last_id (prepend_page page ms) = last_id ms" using assms(4) by (simp add: last_id_def prepend_page_def)
  moreover have "first_id ms \<noteq> None" using assms(4) by (simp add: first_id_def split: list.split)
  ultimately show ?thesis using assms by (auto simp: messages_layout_def Let_def)
qed

text \<open>
  A title that the server refuses is taken back: after the failure the session shows the title it had before, and
  everything else of it is as it was.
\<close>

theorem refused_title_rolls_back:
  assumes "hs_session h = Some s" and "saveTitle (Some s) nxt h = (Some r, h1)"
  shows "\<exists>s1 s2. hs_session h1 = Some s1 \<and> session_title s1 = Some (trim_space nxt) \<and>
    hs_session (saveTitle_failed r h1) = Some s2 \<and> session_title s2 = session_title s \<and>
    filter (\<lambda>e. fst e \<noteq> ''title'') s2 = filter (\<lambda>e. fst e \<noteq> ''title'') s"
proof -
  have others: "filter (\<lambda>e. fst e \<noteq> k) (mput k v m) = filter (\<lambda>e. fst e \<noteq> k) m" for k :: string and v :: json and m
    by (induction m) auto
  have "r = \<lparr>tq_session = (case map_of s ''id'' of Some i \<Rightarrow> i | None \<Rightarrow> JNull), tq_title = trim_space nxt, tq_previous = session_title s\<rparr>"
    and "h1 = patchSession [(''title'', JStr (trim_space nxt))] h"
    using assms(2) by (auto simp: saveTitle_def Let_def split: if_splits)
  then show ?thesis
    by (auto simp: patchSession_def saveTitle_failed_def assms(1) session_title_def mget_mput opt_json_def others split: option.split)
qed

theorem refused_title_rolls_back_witness:
  "let s = [(''id'', JStr ''s1''), (''title'', JStr ''old'')]; h = newHistory\<lparr>hs_session := Some s\<rparr>
   in \<exists>r h1 s2. saveTitle (Some s) '' new '' h = (Some r, h1) \<and>
        hs_session (saveTitle_failed r h1) = Some s2 \<and> session_title s2 = Some ''old''"
proof -
  let ?s = "[(''id'', JStr ''s1''), (''title'', JStr ''old'')]"
  let ?h = "newHistory\<lparr>hs_session := Some ?s\<rparr>"
  have t: "trim_space '' new '' = ''new''" by code_simp
  obtain r h1 where r: "saveTitle (Some ?s) '' new '' ?h = (Some r, h1)" by (simp add: saveTitle_def t Let_def session_title_def)
  have h: "hs_session ?h = Some ?s" by simp
  from refused_title_rolls_back [OF h r] r show ?thesis by (auto simp: Let_def session_title_def)
qed

text \<open>The first line makes the title of a session that has none, cut to fifty-eight characters.\<close>

lemma auto_title_short: "length (auto_title ellipsis content) \<le> 60"
  by (simp add: auto_title_def Let_def)

lemma chat_width_roundtrip: "load_chat_width (snd (set_chat_width w storage)) = w"
  by (cases w) (simp_all add: load_chat_width_def set_chat_width_def width_name_def mget_mput)

text \<open>A burst of tools refreshes once: however many complete before the timer fires, the signal grows by one.\<close>

lemma tool_burst_refreshes_once:
  assumes "list_ex (\<lambda>t. t \<in> set FS_TOUCHING_TOOLS) tools" and "cv_timer v = None"
  shows "cv_refreshSignal (refresh_timer False (refresh_timer False (foldl (\<lambda>v t. handleToolCompleted t v) v tools))) =
    cv_refreshSignal v + 1"
proof -
  have sig: "cv_refreshSignal (foldl (\<lambda>v t. handleToolCompleted t v) v tools) = cv_refreshSignal v" for v
    by (induction tools arbitrary: v) (simp_all add: handleToolCompleted_def)
  have kept: "cv_timer v \<noteq> None \<Longrightarrow> cv_timer (foldl (\<lambda>v t. handleToolCompleted t v) v tools) \<noteq> None" for v
    and tools :: "string list"
    by (induction tools arbitrary: v) (simp_all add: handleToolCompleted_def)
  have "list_ex (\<lambda>t. t \<in> set FS_TOUCHING_TOOLS) tools \<Longrightarrow>
      cv_timer (foldl (\<lambda>v t. handleToolCompleted t v) v tools) \<noteq> None" for v
  proof (induction tools arbitrary: v)
    case (Cons t tools)
    show ?case
    proof (cases "t \<in> set FS_TOUCHING_TOOLS")
      case True
      then show ?thesis using kept [of "handleToolCompleted t v" tools] by (simp add: handleToolCompleted_def)
    qed (use Cons in auto)
  qed simp
  then show ?thesis using assms(1) sig by (auto simp: refresh_timer_def split: option.split)
qed

end
