(* ===== verification/AgentForms.thy ===== *)
theory AgentForms
  imports ChatText ChatSocket WebClient
begin

text \<open>
  Creating and editing an agent: the form and its requests (\<open>features/agents/components/form\<close>, the pages
  \<open>agents/new\<close> and \<open>agents/[id]/edit\<close>), the choice of a model, the picker of MCP tools
  (\<open>components/tool-selector\<close>) and the tools used recently (\<open>lib/storage/recently-used-tools.ts\<close>).
  \<open>JSON.parse\<close> and \<open>JSON.stringify\<close> are parameters; requests are cut at their await.
\<close>

section \<open>The parameters of a tool\<close>

lemma size_jget: "jget v k = Some x \<Longrightarrow> size x < size v"
proof (cases v)
  case (JObj kvs)
  have "(k, x) \<in> set kvs \<Longrightarrow> size x < size (JObj kvs)" for kvs by (induction kvs) auto
  moreover assume "jget v k = Some x"
  ultimately show ?thesis using JObj by (simp add: map_of_SomeD)
qed simp_all

lemma size_array_element: "z \<in> set subs \<Longrightarrow> size z < size (JArr subs)"
  by (induction subs) auto

text \<open>\<open>formatJsonSchemaType\<close>; reading a field of null throws, which is \<open>None\<close>.\<close>

function formatJsonSchemaType :: "json \<Rightarrow> string option" where
  "formatJsonSchemaType prop =
     (if prop = JNull then None
      else case jget prop ''anyOf'' of
             Some (JArr subs) \<Rightarrow>
               let ts = map (\<lambda>s. formatJsonSchemaType s) subs
               in if None \<in> set ts then None else Some (join '' | '' (map the ts))
           | _ \<Rightarrow>
               (case jget prop ''type'' of
                  Some (JStr t) \<Rightarrow>
                    if t = ''array'' then
                      (case jget prop ''items'' of
                         Some items \<Rightarrow> if jtruthy (Some items) then map_option (\<lambda>s. s @ ''[]'') (formatJsonSchemaType items)
                                       else Some ''any[]''
                       | None \<Rightarrow> Some ''any[]'')
                    else Some t
                | _ \<Rightarrow> Some ''any''))"
  by pat_completeness auto

termination formatJsonSchemaType
  by (relation "measure size") (auto dest!: size_jget size_array_element intro: less_trans)

declare formatJsonSchemaType.simps [simp del]

record ToolParam =
  tp_name :: string
  tp_vaultKey :: "string option"
  tp_type :: string
  tp_required :: bool
  tp_description :: "string option"
  tp_defaultValue :: "json option"

text \<open>\<open>Object.entries\<close> of an object or array.\<close>

fun entries :: "json \<Rightarrow> (string \<times> json) list" where
  "entries (JObj kvs) = kvs"
| "entries (JArr vs) = zip (map nat_string [0..<length vs]) vs"
| "entries _ = []"

definition schema_required :: "json \<Rightarrow> string \<Rightarrow> bool" where
  "schema_required schema name = (case jget schema ''required'' of Some (JArr vs) \<Rightarrow> JStr name \<in> set vs | _ \<Rightarrow> False)"

definition param_of :: "json \<Rightarrow> string \<times> json \<Rightarrow> ToolParam option" where
  "param_of schema e =
     (let prop = (case snd e of JObj kvs \<Rightarrow> JObj kvs | JArr vs \<Rightarrow> JArr vs | _ \<Rightarrow> JObj [])
      in map_option (\<lambda>t. \<lparr>tp_name = fst e, tp_vaultKey = jstr (jget prop ''x-injected-from-vault''), tp_type = t,
             tp_required = schema_required schema (fst e), tp_description = jstr (jget prop ''description''),
             tp_defaultValue = jget prop ''default''\<rparr>) (formatJsonSchemaType prop))"

definition extractToolParams :: "json \<Rightarrow> ToolParam list option" where
  "extractToolParams schema =
     (case jget schema ''properties'' of
        Some props \<Rightarrow> those (map (param_of schema) (entries props))
      | None \<Rightarrow> Some [])"

section \<open>Recently used tools\<close>

definition recent_key :: string where "recent_key = ''aviary_recent_tool_ids''"
definition MAX_RECENT :: nat where "MAX_RECENT = 10"

definition loadRecentToolIds :: "(string \<Rightarrow> json option) \<Rightarrow> (string, string) jmap \<Rightarrow> string list" where
  "loadRecentToolIds parse storage =
     (case mget storage recent_key of
        None \<Rightarrow> []
      | Some raw \<Rightarrow>
          if raw = [] then []
          else (case parse raw of
                  Some (JArr vs) \<Rightarrow> take MAX_RECENT (List.map_filter (\<lambda>v. jstr (Some v)) vs)
                | _ \<Rightarrow> []))"

text \<open>\<open>full\<close> is a storage that throws.\<close>

definition pushRecentToolId ::
  "(string \<Rightarrow> json option) \<Rightarrow> (json \<Rightarrow> string) \<Rightarrow> bool \<Rightarrow> string \<Rightarrow> (string, string) jmap \<Rightarrow> string list \<times> (string, string) jmap" where
  "pushRecentToolId parse stringify full toolId storage =
     (let current = loadRecentToolIds parse storage;
          nxt = take MAX_RECENT (toolId # filter (\<lambda>i. i \<noteq> toolId) current)
      in (nxt, if full then storage else mput recent_key (stringify (JArr (map JStr nxt))) storage))"

section \<open>The picker\<close>

record McpServerInfo =
  sv_id :: string
  sv_name :: string
  sv_description :: "string option"
  sv_tags :: "string list"
  sv_tool_count :: nat

record McpToolInfo =
  ti_id :: string
  ti_server_id :: string
  ti_server_name :: string
  ti_name :: string
  ti_description :: "string option"
  ti_input_schema :: json
  ti_qualified_name :: string

datatype filter_key = AllTools | RecentTools | ServerTools string

text \<open>
  \<open>tl_calls\<close> are the requests for a server's tools that are under way, \<open>tl_timer\<close> is the query whose debounce
  runs, \<open>tl_searches\<close> are the searches under way.
\<close>

record tool_selector =
  tl_open :: bool
  tl_servers :: "McpServerInfo list"
  tl_serverTools :: "(string, McpToolInfo list) jmap"
  tl_allToolInfo :: "(string, McpToolInfo) jmap"
  tl_searchQuery :: string
  tl_searchResults :: "McpToolInfo list option"
  tl_activeFilter :: filter_key
  tl_loadingServers :: bool
  tl_recentIds :: "string list"
  tl_details :: "McpToolInfo option"
  tl_calls :: "string list"
  tl_timer :: "string option"
  tl_searches :: "string list"

definition newSelector :: tool_selector where
  "newSelector = \<lparr>tl_open = False, tl_servers = [], tl_serverTools = [], tl_allToolInfo = [], tl_searchQuery = [],
     tl_searchResults = None, tl_activeFilter = AllTools, tl_loadingServers = False, tl_recentIds = [], tl_details = None,
     tl_calls = [], tl_timer = None, tl_searches = []\<rparr>"

definition loadServerTools :: "string \<Rightarrow> tool_selector \<Rightarrow> tool_selector" where
  "loadServerTools serverId t = (if mget (tl_serverTools t) serverId \<noteq> None then t else t\<lparr>tl_calls := tl_calls t @ [serverId]\<rparr>)"

definition load_all_servers :: "tool_selector \<Rightarrow> tool_selector" where
  "load_all_servers t = foldl (\<lambda>t s. loadServerTools (sv_id s) t) t (tl_servers t)"

text \<open>The effect that loads what the filter needs, and the one that loads everything for the recent tools.\<close>

definition filter_effect :: "tool_selector \<Rightarrow> tool_selector" where
  "filter_effect t =
     (if \<not> tl_open t \<or> tl_servers t = [] then t
      else case tl_activeFilter t of
             AllTools \<Rightarrow> load_all_servers t
           | RecentTools \<Rightarrow> t
           | ServerTools i \<Rightarrow> loadServerTools i t)"

definition recent_effect :: "tool_selector \<Rightarrow> tool_selector" where
  "recent_effect t =
     (if \<not> tl_open t \<or> tl_activeFilter t \<noteq> RecentTools then t
      else if list_all (\<lambda>i. mget (tl_allToolInfo t) i \<noteq> None) (tl_recentIds t) then t
      else load_all_servers t)"

text \<open>The picker opens: servers and recent ids; the filter's effects depend on \<open>open\<close>.\<close>

definition open_selector :: "string list \<Rightarrow> tool_selector \<Rightarrow> tool_selector" where
  "open_selector recent t =
     (let t1 = filter_effect (t\<lparr>tl_open := True\<rparr>)
      in recent_effect (t1\<lparr>tl_loadingServers := True, tl_recentIds := recent\<rparr>))"

definition close_selector :: "tool_selector \<Rightarrow> tool_selector" where
  "close_selector t = t\<lparr>tl_open := False\<rparr>"

definition servers_answer :: "McpServerInfo list option \<Rightarrow> tool_selector \<Rightarrow> tool_selector" where
  "servers_answer ans t =
     (case ans of
        None \<Rightarrow> t\<lparr>tl_loadingServers := False\<rparr>
      | Some data \<Rightarrow> recent_effect (filter_effect (t\<lparr>tl_servers := data, tl_loadingServers := False\<rparr>)))"

definition remember_tools :: "McpToolInfo list \<Rightarrow> (string, McpToolInfo) jmap \<Rightarrow> (string, McpToolInfo) jmap" where
  "remember_tools tools m = foldl (\<lambda>m x. mput (ti_id x) x m) m tools"

text \<open>The answer of a server, after which both effects have a new \<open>loadServerTools\<close> and run again.\<close>

definition tools_answer :: "string \<Rightarrow> McpToolInfo list option \<Rightarrow> tool_selector \<Rightarrow> tool_selector" where
  "tools_answer serverId ans t =
     (let t1 = t\<lparr>tl_calls := remove1 serverId (tl_calls t)\<rparr>
      in case ans of
           None \<Rightarrow> t1
         | Some tools \<Rightarrow>
             recent_effect (filter_effect (t1\<lparr>tl_serverTools := mput serverId tools (tl_serverTools t1),
               tl_allToolInfo := remember_tools tools (tl_allToolInfo t1)\<rparr>)))"

definition select_filter :: "filter_key \<Rightarrow> tool_selector \<Rightarrow> tool_selector" where
  "select_filter k t = recent_effect (filter_effect (t\<lparr>tl_activeFilter := k\<rparr>))"

text \<open>The search: a new query stops the timer; a blank one shows the filter's tools again.\<close>

definition search_typed :: "string \<Rightarrow> tool_selector \<Rightarrow> tool_selector" where
  "search_typed q t =
     (if trim_space q = [] then t\<lparr>tl_searchQuery := q, tl_searchResults := None, tl_timer := None\<rparr>
      else t\<lparr>tl_searchQuery := q, tl_timer := Some q\<rparr>)"

definition search_timer :: "tool_selector \<Rightarrow> tool_selector" where
  "search_timer t =
     (case tl_timer t of None \<Rightarrow> t | Some q \<Rightarrow> t\<lparr>tl_timer := None, tl_searches := tl_searches t @ [q]\<rparr>)"

definition search_answer :: "string \<Rightarrow> McpToolInfo list option \<Rightarrow> tool_selector \<Rightarrow> tool_selector" where
  "search_answer q ans t =
     (if q \<notin> set (tl_searches t) then t
      else let t1 = t\<lparr>tl_searches := remove1 q (tl_searches t)\<rparr>
           in case ans of
                None \<Rightarrow> t1
              | Some results \<Rightarrow> recent_effect (t1\<lparr>tl_allToolInfo := remember_tools results (tl_allToolInfo t1),
                                                    tl_searchResults := Some results\<rparr>))"

text \<open>A JavaScript set as the list of its elements, in the order they were added.\<close>

definition set_of_list :: "string list \<Rightarrow> string list" where
  "set_of_list xs = rev (remdups (rev xs))"

definition set_add :: "string \<Rightarrow> string list \<Rightarrow> string list" where
  "set_add x s = (if x \<in> set s then s else s @ [x])"

text \<open>The selection of the props is the argument; the results are the new ids and the map that go to \<open>onChange\<close>.\<close>

definition handleToggle ::
  "(string \<Rightarrow> json option) \<Rightarrow> (json \<Rightarrow> string) \<Rightarrow> bool \<Rightarrow> string list \<Rightarrow> string \<Rightarrow> tool_selector \<times> (string, string) jmap \<Rightarrow>
     (string list \<times> (string, McpToolInfo) jmap) \<times> tool_selector \<times> (string, string) jmap" where
  "handleToggle parse stringify full selectedToolIds toolId s =
     (case s of (t, storage) \<Rightarrow>
        let selected = set_of_list selectedToolIds
        in if toolId \<in> set selected
           then ((filter (\<lambda>i. i \<noteq> toolId) selected, tl_allToolInfo t), t, storage)
           else (let (recent, storage1) = pushRecentToolId parse stringify full toolId storage
                 in ((selected @ [toolId], tl_allToolInfo t), recent_effect (t\<lparr>tl_recentIds := recent\<rparr>), storage1)))"

definition handleAddServer :: "string list \<Rightarrow> string \<Rightarrow> tool_selector \<Rightarrow> (string list \<times> (string, McpToolInfo) jmap) option" where
  "handleAddServer selectedToolIds serverId t =
     (case mget (tl_serverTools t) serverId of
        None \<Rightarrow> None
      | Some tools \<Rightarrow>
          if tools = [] then None
          else Some (foldl (\<lambda>s x. set_add (ti_id x) s) (set_of_list selectedToolIds) tools, tl_allToolInfo t))"

definition displayedTools :: "tool_selector \<Rightarrow> McpToolInfo list" where
  "displayedTools t =
     (case tl_searchResults t of
        Some results \<Rightarrow> results
      | None \<Rightarrow>
          (case tl_activeFilter t of
             AllTools \<Rightarrow> concat (map (\<lambda>s. case mget (tl_serverTools t) (sv_id s) of Some ts \<Rightarrow> ts | None \<Rightarrow> []) (tl_servers t))
           | RecentTools \<Rightarrow> List.map_filter (\<lambda>i. mget (tl_allToolInfo t) i) (tl_recentIds t)
           | ServerTools i \<Rightarrow> (case mget (tl_serverTools t) i of Some ts \<Rightarrow> ts | None \<Rightarrow> [])))"

section \<open>The form\<close>

record agent_model =
  md_backend :: string
  md_model :: string
  md_max_output_tokens :: int

record AgentFormData =
  af_name :: string
  af_slug :: string
  af_description :: string
  af_instruction :: string
  af_model_config :: agent_model
  af_tools :: "string list"
  af_mcp_tool_ids :: "string list"

definition DEFAULT_AGENT_FORM_DATA :: AgentFormData where
  "DEFAULT_AGENT_FORM_DATA = \<lparr>af_name = [], af_slug = [], af_description = [], af_instruction = [],
     af_model_config = \<lparr>md_backend = [], md_model = [], md_max_output_tokens = 8000\<rparr>, af_tools = [], af_mcp_tool_ids = []\<rparr>"

text \<open>The form with what is around it; \<open>fm_initialSlug\<close> is \<open>initial?.slug\<close>. \<open>initial\<close> is all or nothing, as its callers give it.\<close>

record agent_form =
  fm_data :: AgentFormData
  fm_initialSlug :: "string option"
  fm_toolInfo :: "(string, McpToolInfo) jmap"
  fm_submitting :: bool
  fm_error :: "string option"

definition useAgentForm :: "AgentFormData option \<Rightarrow> (string, McpToolInfo) jmap \<Rightarrow> agent_form" where
  "useAgentForm initial info =
     \<lparr>fm_data = (case initial of Some d \<Rightarrow> d | None \<Rightarrow> DEFAULT_AGENT_FORM_DATA), fm_initialSlug = map_option af_slug initial,
      fm_toolInfo = info, fm_submitting = False, fm_error = None\<rparr>"

definition setName :: "string \<Rightarrow> agent_form \<Rightarrow> agent_form" where
  "setName name f =
     f\<lparr>fm_data := (fm_data f)\<lparr>af_name := name,
         af_slug := (if truthy (fm_initialSlug f) then af_slug (fm_data f) else slugify name)\<rparr>\<rparr>"

datatype form_field = SlugField string | DescriptionField string | InstructionField string | ToolIdsField "string list"

fun setField :: "form_field \<Rightarrow> agent_form \<Rightarrow> agent_form" where
  "setField (SlugField s) f = f\<lparr>fm_data := (fm_data f)\<lparr>af_slug := s\<rparr>\<rparr>"
| "setField (DescriptionField s) f = f\<lparr>fm_data := (fm_data f)\<lparr>af_description := s\<rparr>\<rparr>"
| "setField (InstructionField s) f = f\<lparr>fm_data := (fm_data f)\<lparr>af_instruction := s\<rparr>\<rparr>"
| "setField (ToolIdsField ids) f = f\<lparr>fm_data := (fm_data f)\<lparr>af_mcp_tool_ids := ids\<rparr>\<rparr>"

datatype model_field = BackendField string | ModelField string | TokensField int

fun set_model_field :: "model_field \<Rightarrow> agent_model \<Rightarrow> agent_model" where
  "set_model_field (BackendField s) m = m\<lparr>md_backend := s\<rparr>"
| "set_model_field (ModelField s) m = m\<lparr>md_model := s\<rparr>"
| "set_model_field (TokensField n) m = m\<lparr>md_max_output_tokens := n\<rparr>"

definition setModelConfig :: "model_field \<Rightarrow> agent_form \<Rightarrow> agent_form" where
  "setModelConfig x f = f\<lparr>fm_data := (fm_data f)\<lparr>af_model_config := set_model_field x (af_model_config (fm_data f))\<rparr>\<rparr>"

text \<open>\<open>ToolsSection\<close>: removing a chip, and the picker's \<open>onChange\<close>.\<close>

definition removeTool :: "string \<Rightarrow> agent_form \<Rightarrow> agent_form" where
  "removeTool i f = setField (ToolIdsField (filter (\<lambda>t. t \<noteq> i) (af_mcp_tool_ids (fm_data f)))) f"

definition picker_changed :: "string list \<times> (string, McpToolInfo) jmap \<Rightarrow> agent_form \<Rightarrow> agent_form" where
  "picker_changed x f = (setField (ToolIdsField (fst x)) f)\<lparr>fm_toolInfo := snd x\<rparr>"

text \<open>The suggestion of the model (\<open>autocomplete-banner.tsx\<close>): what is asked, and what becomes of the answer.\<close>

record AutocompleteRequest =
  aq_name :: string
  aq_description :: string
  aq_instruction :: string
  aq_model_config :: agent_model
  aq_mcp_tool_ids :: "string list"
  aq_user_prompt :: "string option"

record AutocompleteResponse =
  ax_name :: string
  ax_description :: string
  ax_instruction :: string
  ax_mcp_tool_ids :: "string list"
  ax_tool_info :: "McpToolInfo list"

record autocomplete_banner =
  ab_prompt :: string
  ab_running :: bool
  ab_error :: "string option"

definition modelReady :: "AgentFormData \<Rightarrow> bool" where
  "modelReady d \<longleftrightarrow> md_backend (af_model_config d) \<noteq> [] \<and> md_model (af_model_config d) \<noteq> []"

definition handleRun :: "AgentFormData \<Rightarrow> autocomplete_banner \<Rightarrow> AutocompleteRequest option \<times> autocomplete_banner" where
  "handleRun d b =
     (if \<not> modelReady d \<or> ab_running b then (None, b)
      else (Some \<lparr>aq_name = af_name d, aq_description = af_description d, aq_instruction = af_instruction d,
                  aq_model_config = af_model_config d, aq_mcp_tool_ids = af_mcp_tool_ids d,
                  aq_user_prompt = (if trim_space (ab_prompt b) \<noteq> [] then Some (trim_space (ab_prompt b)) else None)\<rparr>,
            b\<lparr>ab_running := True, ab_error := None\<rparr>))"

definition applyAutocomplete :: "AutocompleteResponse \<Rightarrow> agent_form \<Rightarrow> agent_form" where
  "applyAutocomplete r f =
     (let f1 = setField (ToolIdsField (ax_mcp_tool_ids r)) (setField (InstructionField (ax_instruction r))
                 (setField (DescriptionField (ax_description r)) (setName (ax_name r) f)))
      in f1\<lparr>fm_toolInfo := remember_tools (ax_tool_info r) (fm_toolInfo f1)\<rparr>)"

definition autocomplete_done :: "web_error + AutocompleteResponse \<Rightarrow> agent_form \<times> autocomplete_banner \<Rightarrow> agent_form \<times> autocomplete_banner" where
  "autocomplete_done ans s =
     (case ans of
        Inl e \<Rightarrow> (fst s, (snd s)\<lparr>ab_running := False, ab_error := Some (extractErrorMessage (Some e))\<rparr>)
      | Inr r \<Rightarrow> (applyAutocomplete r (fst s), (snd s)\<lparr>ab_running := False\<rparr>))"

section \<open>Choosing a model\<close>

record ModelOption =
  mo_id :: string
  mo_name :: string
  mo_backend :: string
  mo_max_tokens :: "int option"
  mo_default_model :: bool
  mo_capabilities :: "string list option"

text \<open>The effects of one render; each sees the data of that render.\<close>

definition availableBackends :: "ModelOption list \<Rightarrow> string list" where
  "availableBackends ms = set_of_list (map mo_backend ms)"

definition backend_models :: "ModelOption list \<Rightarrow> agent_model \<Rightarrow> ModelOption list" where
  "backend_models ms c = filter (\<lambda>m. mo_backend m = md_backend c) ms"

definition backend_effect :: "ModelOption list \<Rightarrow> agent_model \<Rightarrow> agent_model" where
  "backend_effect ms c =
     (if availableBackends ms = [] \<or> md_backend c \<in> set (availableBackends ms) then c
      else c\<lparr>md_backend := hd (availableBackends ms), md_model := []\<rparr>)"

definition model_effect :: "ModelOption list \<Rightarrow> agent_model \<Rightarrow> agent_model \<Rightarrow> agent_model" where
  "model_effect ms seen c =
     (let models = backend_models ms seen
      in if models = [] \<or> list_ex (\<lambda>m. mo_id m = md_model seen) models then c
         else c\<lparr>md_model := mo_id (case find mo_default_model models of Some m \<Rightarrow> m | None \<Rightarrow> hd models)\<rparr>)"

definition maxLimit :: "ModelOption list \<Rightarrow> agent_model \<Rightarrow> int" where
  "maxLimit ms c =
     (case Option.bind (find (\<lambda>m. mo_id m = md_model c) (backend_models ms c)) mo_max_tokens of
        Some n \<Rightarrow> if 0 < n then n else 4000
      | None \<Rightarrow> 4000)"

definition tokens_effect :: "bool \<Rightarrow> ModelOption list \<Rightarrow> agent_model \<Rightarrow> agent_model \<Rightarrow> agent_model" where
  "tokens_effect userChangedModel ms seen c =
     (if userChangedModel then c\<lparr>md_max_output_tokens := min 8000 (maxLimit ms seen)\<rparr> else c)"

text \<open>The tokens that the slider shows.\<close>

definition currentTokens :: "ModelOption list \<Rightarrow> agent_model \<Rightarrow> int" where
  "currentTokens ms c = min (md_max_output_tokens c) (maxLimit ms c)"

definition model_effects :: "ModelOption list \<Rightarrow> agent_model \<Rightarrow> agent_model" where
  "model_effects ms c = model_effect ms c (backend_effect ms c)"

section \<open>Submitting\<close>

text \<open>
  \<open>handleSubmit\<close> of the form and of its two pages: the requests in order, with the outcome of each; \<open>create\<close>
  answers the new agent's id. The page is left when all went well.
\<close>

datatype agent_request =
    CreateAgent AgentFormData
  | UpdateAgent string AgentFormData
  | SetMcpTools string "string list"

definition without_tool_ids :: "AgentFormData \<Rightarrow> AgentFormData" where
  "without_tool_ids d = d\<lparr>af_mcp_tool_ids := []\<rparr>"

definition submit_new :: "web_error + string \<Rightarrow> web_error option \<Rightarrow> AgentFormData \<Rightarrow> agent_request list \<times> (web_error + string)" where
  "submit_new created tools d =
     (case created of
        Inl e \<Rightarrow> ([CreateAgent (without_tool_ids d)], Inl e)
      | Inr i \<Rightarrow>
          if af_mcp_tool_ids d = [] then ([CreateAgent (without_tool_ids d)], Inr (''/agents/'' @ i))
          else ([CreateAgent (without_tool_ids d), SetMcpTools i (af_mcp_tool_ids d)],
                case tools of Some e \<Rightarrow> Inl e | None \<Rightarrow> Inr (''/agents/'' @ i)))"

definition submit_edit :: "string \<Rightarrow> web_error option \<Rightarrow> web_error option \<Rightarrow> AgentFormData \<Rightarrow> agent_request list \<times> (web_error + string)" where
  "submit_edit i updated tools d =
     (case updated of
        Some e \<Rightarrow> ([UpdateAgent i (without_tool_ids d)], Inl e)
      | None \<Rightarrow> ([UpdateAgent i (without_tool_ids d), SetMcpTools i (af_mcp_tool_ids d)],
                case tools of Some e \<Rightarrow> Inl e | None \<Rightarrow> Inr (''/agents/'' @ i)))"

definition submit_form :: "(AgentFormData \<Rightarrow> agent_request list \<times> (web_error + string)) \<Rightarrow> agent_form \<Rightarrow> agent_request list \<times> string option \<times> agent_form" where
  "submit_form onSubmit f =
     (if fm_submitting f then ([], None, f)
      else case onSubmit (fm_data f) of
             (rs, Inl e) \<Rightarrow> (rs, None, f\<lparr>fm_submitting := False, fm_error := Some (extractErrorMessage (Some e))\<rparr>)
           | (rs, Inr target) \<Rightarrow> (rs, Some target, f\<lparr>fm_submitting := False, fm_error := None\<rparr>))"

section \<open>What holds\<close>

lemma set_set_of_list [simp]: "set (set_of_list xs) = set xs" by (simp add: set_of_list_def)

lemma distinct_set_of_list [simp]: "distinct (set_of_list xs)" by (simp add: set_of_list_def)

text \<open>
  The form always ends up with a model that exists: once the catalogue has any model, two renders of its effects
  reach a choice that a third does not change, and whose model is one of its backend.
\<close>

theorem model_choice_settles:
  assumes "ms \<noteq> []"
  shows "let c = model_effects ms (model_effects ms c0)
         in model_effects ms c = c \<and> (\<exists>m \<in> set ms. mo_backend m = md_backend c \<and> mo_id m = md_model c)"
proof -
  have settle: "model_effects ms c = c \<and> (\<exists>m \<in> set ms. mo_backend m = md_backend c \<and> mo_id m = md_model c)"
    if l: "list_ex (\<lambda>m. mo_id m = md_model c) (backend_models ms c)" for c
  proof -
    obtain m where m: "m \<in> set ms" "mo_backend m = md_backend c" "mo_id m = md_model c"
      using l by (auto simp: list_ex_iff backend_models_def)
    then have "md_backend c \<in> set (availableBackends ms)" by (auto simp: availableBackends_def image_iff intro!: bexI [of _ m])
    with l m show ?thesis by (auto simp: model_effects_def model_effect_def backend_effect_def)
  qed
  have pick: "list_ex (\<lambda>m. mo_id m = md_model (model_effects ms c)) (backend_models ms (model_effects ms c))"
    if "md_backend c \<in> set (availableBackends ms)" for c
  proof -
    have ne: "backend_models ms c \<noteq> []" using that by (auto simp: availableBackends_def backend_models_def filter_empty_conv)
    have b: "backend_effect ms c = c" using that by (simp add: backend_effect_def)
    define d where "d = (case find mo_default_model (backend_models ms c) of Some m \<Rightarrow> m | None \<Rightarrow> hd (backend_models ms c))"
    have d: "d \<in> set (backend_models ms c)"
      using ne by (auto simp: d_def find_Some_iff split: option.split)
    have "model_effects ms c = (if list_ex (\<lambda>m. mo_id m = md_model c) (backend_models ms c) then c else c\<lparr>md_model := mo_id d\<rparr>)"
      using ne by (simp add: model_effects_def model_effect_def b Let_def d_def)
    moreover have "backend_models ms (c\<lparr>md_model := mo_id d\<rparr>) = backend_models ms c" by (simp add: backend_models_def)
    moreover have "list_ex (\<lambda>m. mo_id m = mo_id d) (backend_models ms c)" using d by (auto simp: list_ex_iff)
    ultimately show ?thesis by simp
  qed
  have chosen: "md_backend (model_effects ms c) \<in> set (availableBackends ms)" for c
  proof -
    have "availableBackends ms \<noteq> []" using assms by (metis availableBackends_def set_empty set_set_of_list map_is_Nil_conv)
    then have "md_backend (backend_effect ms c) \<in> set (availableBackends ms)" by (simp add: backend_effect_def)
    then show ?thesis by (simp add: model_effects_def model_effect_def Let_def)
  qed
  from settle [OF pick [OF chosen]] show ?thesis by (simp add: Let_def)
qed

theorem model_choice_settles_witness:
  "let ms = [\<lparr>mo_id = ''opus'', mo_name = ''Opus'', mo_backend = ''anthropic'', mo_max_tokens = Some 32000,
              mo_default_model = False, mo_capabilities = None\<rparr>];
       c = model_effects ms (model_effects ms \<lparr>md_backend = ''gone'', md_model = ''x'', md_max_output_tokens = 8000\<rparr>)
   in md_backend c = ''anthropic'' \<and> md_model c = ''opus''"
proof -
  let ?ms = "[\<lparr>mo_id = ''opus'', mo_name = ''Opus'', mo_backend = ''anthropic'', mo_max_tokens = Some (32000 :: int),
              mo_default_model = False, mo_capabilities = None\<rparr>]"
  from model_choice_settles [of ?ms "\<lparr>md_backend = ''gone'', md_model = ''x'', md_max_output_tokens = 8000\<rparr>"]
  show ?thesis by (simp add: Let_def)
qed

text \<open>
  Clicking a tool adds it or takes it away and changes nothing else: the other tools stay, in their order, none
  twice; and a second click undoes the first.
\<close>

theorem toggle_exact:
  "let sel' = fst (fst (handleToggle parse stringify full sel i s));
       sel'' = fst (fst (handleToggle parse stringify full sel' i s'))
   in distinct sel' \<and> (i \<in> set sel') = (i \<notin> set sel) \<and> filter (\<lambda>x. x \<noteq> i) sel' = filter (\<lambda>x. x \<noteq> i) (set_of_list sel) \<and>
      set sel'' = set sel"
proof -
  have toggle: "fst (fst (handleToggle parse stringify full sel i s)) =
      (if i \<in> set sel then filter (\<lambda>x. x \<noteq> i) (set_of_list sel) else set_of_list sel @ [i])" for sel s
    by (simp add: handleToggle_def Let_def split: prod.split)
  show ?thesis by (auto simp: Let_def toggle)
qed

text \<open>
  The list of recent tools starts with the last one, has none twice if the stored one had none, and never has more
  than ten; and if what is written is what is read, it is the list that is loaded next time.
\<close>

theorem recent_tools_kept:
  assumes "pushRecentToolId parse stringify False i storage = (recent, storage')"
    and "parse (stringify (JArr (map JStr recent))) = Some (JArr (map JStr recent))" and "stringify (JArr (map JStr recent)) \<noteq> []"
  shows "hd recent = i \<and> length recent \<le> 10 \<and> loadRecentToolIds parse storage' = recent \<and>
    (distinct (loadRecentToolIds parse storage) \<longrightarrow> distinct recent)"
proof -
  have strs: "List.map_filter (\<lambda>v. jstr (Some v)) (map JStr xs) = xs" for xs
    by (induction xs) (simp_all add: map_filter_simps)
  have r: "recent = take MAX_RECENT (i # filter (\<lambda>x. x \<noteq> i) (loadRecentToolIds parse storage))"
    and st: "storage' = mput recent_key (stringify (JArr (map JStr recent))) storage"
    using assms(1) by (auto simp: pushRecentToolId_def Let_def)
  have l: "length recent \<le> 10" by (simp add: r MAX_RECENT_def)
  then have "loadRecentToolIds parse storage' = recent"
    using assms(2,3) by (simp add: loadRecentToolIds_def st mget_mput strs MAX_RECENT_def)
  moreover have "hd recent = i" by (simp add: r MAX_RECENT_def)
  moreover have "distinct (loadRecentToolIds parse storage) \<Longrightarrow> distinct recent"
    unfolding r by (rule distinct_take) simp
  ultimately show ?thesis using l by blast
qed

theorem recent_tools_kept_witness:
  "loadRecentToolIds (\<lambda>_. Some (JArr [JStr ''t1''])) (snd (pushRecentToolId (\<lambda>_. Some (JArr [JStr ''t1''])) (\<lambda>_. ''[]'') False ''t1'' [])) = [''t1'']"
proof -
  have "pushRecentToolId (\<lambda>_. Some (JArr [JStr ''t1''])) (\<lambda>_. ''[]'') False ''t1'' [] = ([''t1''], [(recent_key, ''[]'')])"
    by (simp add: pushRecentToolId_def loadRecentToolIds_def MAX_RECENT_def)
  from recent_tools_kept [OF this] this show ?thesis by simp
qed

text \<open>
  A search that is answered after the field was emptied shows its results all the same, in place of the filter's tools;
  and the answers of two searches are shown in the order in which they come.
\<close>

lemma late_search_shows_after_clear:
  assumes "trim_space q \<noteq> []" and "tl_searches t = []"
  shows "let t1 = search_typed [] (search_timer (search_typed q t)); t2 = search_answer q (Some results) t1
         in tl_searchQuery t2 = [] \<and> tl_searchResults t1 = None \<and> tl_searchResults t2 = Some results \<and> displayedTools t2 = results"
proof -
  have keep: "tl_searchQuery (recent_effect x) = tl_searchQuery x" "tl_searchResults (recent_effect x) = tl_searchResults x" for x
  proof -
    have "tl_searchQuery (foldl (\<lambda>t s. loadServerTools (sv_id s) t) x ss) = tl_searchQuery x \<and>
      tl_searchResults (foldl (\<lambda>t s. loadServerTools (sv_id s) t) x ss) = tl_searchResults x" for ss
      by (induction ss arbitrary: x) (auto simp: loadServerTools_def)
    from this [of "tl_servers x"]
    show "tl_searchQuery (recent_effect x) = tl_searchQuery x" "tl_searchResults (recent_effect x) = tl_searchResults x"
      by (simp_all add: recent_effect_def load_all_servers_def)
  qed
  have "trim_space [] = []" by (simp add: trim_space_def)
  then show ?thesis using assms
    by (simp add: Let_def search_typed_def search_timer_def search_answer_def keep displayedTools_def)
qed

text \<open>
  \<open>Each server is only fetched once\<close>, says the code, but a server whose answer is awaited still is asked again when
  another one answers.
\<close>

lemma pending_server_is_asked_again:
  "let a = \<lparr>sv_id = ''a'', sv_name = [], sv_description = None, sv_tags = [], sv_tool_count = 1\<rparr>;
       b = \<lparr>sv_id = ''b'', sv_name = [], sv_description = None, sv_tags = [], sv_tool_count = 1\<rparr>;
       t = servers_answer (Some [a, b]) (open_selector [] newSelector)
   in tl_calls t = [''a'', ''b''] \<and> tl_calls (tools_answer ''a'' (Some []) t) = [''b'', ''b'']"
  by code_simp

text \<open>
  The picker's map of tools replaces the form's: the names of tools that the picker has not loaded are forgotten, though
  they stay selected.
\<close>

lemma picker_forgets_tool_names:
  assumes "mget (fm_toolInfo f) i = Some info" and "mget (tl_allToolInfo t) i = None" and "i \<in> set (af_mcp_tool_ids (fm_data f))"
    and "i \<noteq> k"
  shows "let f' = picker_changed (fst (handleToggle parse stringify full (af_mcp_tool_ids (fm_data f)) k (t, storage))) f
         in i \<in> set (af_mcp_tool_ids (fm_data f')) \<and> mget (fm_toolInfo f') i = None"
  using assms by (simp add: handleToggle_def picker_changed_def Let_def split: prod.split)

text \<open>The slider shows at most what the model allows, but unless the user has changed the model the form sends more.\<close>

lemma tokens_beyond_limit_are_sent:
  assumes "maxLimit ms c < md_max_output_tokens c"
  shows "currentTokens ms c = maxLimit ms c \<and> tokens_effect False ms c c = c"
  using assms by (simp add: currentTokens_def tokens_effect_def)

text \<open>
  Creating an agent and giving it its tools are two requests. When the second fails the form shows the error and stays; to
  submit again creates another agent.
\<close>

lemma retry_creates_again:
  assumes "af_mcp_tool_ids (fm_data f) \<noteq> []" and "\<not> fm_submitting f"
  shows "let (rs, place1, f1) = submit_form (submit_new (Inr i) (Some e)) f;
             (rs', place2, f2) = submit_form (submit_new (Inr j) None) f1
         in place1 = None \<and> rs @ rs' = [CreateAgent (without_tool_ids (fm_data f)), SetMcpTools i (af_mcp_tool_ids (fm_data f)),
              CreateAgent (without_tool_ids (fm_data f)), SetMcpTools j (af_mcp_tool_ids (fm_data f))]"
  using assms by (simp add: submit_form_def submit_new_def Let_def)

text \<open>A slug typed for a new agent is lost with the next change of the name.\<close>

lemma name_overwrites_slug:
  "af_slug (fm_data (setName name (setField (SlugField s) (useAgentForm None info)))) = slugify name"
  by (simp add: setName_def useAgentForm_def)

end
