(* ===== verification/Pages.thy ===== *)
theory Pages
  imports ChatText ChatSocket WorkflowRuns LiveEvents
begin

text \<open>
  The pages around chats and workflows: the chat page of an agent with its list of sessions
  (\<open>features/agents/components/detail\<close>), the lists of agents and workflows and their data, the detail of a workflow, the
  dashboard, and the marketplace. Requests are cut at their await; lower case, the comparison of strings and the time
  zone are parameters; a date is its milliseconds.
\<close>

section \<open>The chat page of an agent\<close>

text \<open>\<open>URLSearchParams\<close>: the value of a name, setting it and deleting it.\<close>

fun url_get :: "string \<Rightarrow> (string \<times> string) list \<Rightarrow> string option" where
  "url_get k [] = None"
| "url_get k ((n, v) # ps) = (if n = k then Some v else url_get k ps)"

definition url_delete :: "string \<Rightarrow> (string \<times> string) list \<Rightarrow> (string \<times> string) list" where
  "url_delete k ps = filter (\<lambda>p. fst p \<noteq> k) ps"

fun url_set :: "string \<Rightarrow> string \<Rightarrow> (string \<times> string) list \<Rightarrow> (string \<times> string) list" where
  "url_set k v [] = [(k, v)]"
| "url_set k v ((n, w) # ps) = (if n = k then (k, v) # url_delete k ps else (n, w) # url_set k v ps)"

definition setSession :: "string option \<Rightarrow> (string \<times> string) list \<Rightarrow> (string \<times> string) list" where
  "setSession sessionId ps = (case sessionId of None \<Rightarrow> url_delete ''session'' ps | Some i \<Rightarrow> url_set ''session'' i ps)"

text \<open>The two effects that keep the session of the URL one that is listed; at most one of them acts in a render.\<close>

definition pick_session :: "bool \<Rightarrow> live_session list \<Rightarrow> (string \<times> string) list \<Rightarrow> (string \<times> string) list" where
  "pick_session loading sessions ps =
     (if truthy (url_get ''session'' ps) \<or> loading then ps
      else case sessions of [] \<Rightarrow> ps | first # _ \<Rightarrow> setSession (Some (lv_id first)) ps)"

definition drop_session :: "bool \<Rightarrow> live_session list \<Rightarrow> (string \<times> string) list \<Rightarrow> (string \<times> string) list" where
  "drop_session loading sessions ps =
     (if \<not> truthy (url_get ''session'' ps) \<or> loading then ps
      else if list_ex (\<lambda>s. Some (lv_id s) = url_get ''session'' ps) sessions then ps
      else setSession None ps)"

definition session_effects :: "bool \<Rightarrow> live_session list \<Rightarrow> (string \<times> string) list \<Rightarrow> (string \<times> string) list" where
  "session_effects loading sessions ps =
     (if truthy (url_get ''session'' ps) then drop_session loading sessions ps else pick_session loading sessions ps)"

text \<open>The ids whose status is watched: those of the list, none when the page is left.\<close>

definition watched_ids :: "'a agent_detail \<Rightarrow> string list" where
  "watched_ids d = map lv_id (ad_sessions d)"

text \<open>\<open>handleCreate\<close> after the session is there, and \<open>handleDelete\<close> after the server has deleted it.\<close>

definition handleCreate_done :: "live_session option \<Rightarrow> (string \<times> string) list \<Rightarrow> (string \<times> string) list" where
  "handleCreate_done s ps = (case s of None \<Rightarrow> ps | Some x \<Rightarrow> setSession (Some (lv_id x)) ps)"

definition delete_request :: "string \<Rightarrow> string" where
  "delete_request i = ''/sessions/'' @ i"

definition handleDelete_done :: "string \<Rightarrow> (string \<times> string) list \<Rightarrow> (string \<times> string) list" where
  "handleDelete_done i ps = (if Some i = url_get ''session'' ps then setSession None ps else ps)"

text \<open>A row of the list (\<open>sessions-rail.tsx\<close>).\<close>

record session_row =
  sw_confirming :: bool
  sw_deleting :: bool

definition row_delete :: "string \<Rightarrow> session_row \<Rightarrow> string option \<times> session_row" where
  "row_delete i r =
     (if sw_deleting r then (None, r)
      else if \<not> sw_confirming r then (None, r\<lparr>sw_confirming := True\<rparr>)
      else (Some (delete_request i), r\<lparr>sw_deleting := True\<rparr>))"

definition row_delete_failed :: "session_row \<Rightarrow> session_row" where
  "row_delete_failed r = r\<lparr>sw_confirming := False, sw_deleting := False\<rparr>"

definition row_mouse_leave :: "session_row \<Rightarrow> session_row" where
  "row_mouse_leave r = r\<lparr>sw_confirming := False\<rparr>"

definition row_title :: "status_entry \<Rightarrow> live_session \<Rightarrow> string" where
  "row_title e s =
     (let t = trim_space (case sx_title e of Some x \<Rightarrow> x | None \<Rightarrow> (case lv_title s of Some y \<Rightarrow> y | None \<Rightarrow> []))
      in if t \<noteq> [] then t else ''(Untitled)'')"

definition row_unread :: "bool \<Rightarrow> status_entry \<Rightarrow> string option" where
  "row_unread active e =
     (if active \<or> sx_status e = ''streaming'' \<or> sx_unread e = 0 then None
      else Some (if sx_unread e > 99 then ''99+'' else nat_string (sx_unread e)))"

text \<open>\<open>use-create-session.ts\<close>: whether a request is made; then the place to go, or the error.\<close>

record create_session =
  cs_creating :: bool
  cs_error :: "string option"

definition createAndNavigate :: "create_session \<Rightarrow> bool \<times> create_session" where
  "createAndNavigate c = (if cs_creating c then (False, c) else (True, \<lparr>cs_creating = True, cs_error = None\<rparr>))"

definition createAndNavigate_done :: "string + string \<Rightarrow> create_session \<Rightarrow> string option \<times> create_session" where
  "createAndNavigate_done ans c =
     (case ans of
        Inl message \<Rightarrow> (None, \<lparr>cs_creating = False, cs_error = Some message\<rparr>)
      | Inr i \<Rightarrow> (Some (route_session i), c\<lparr>cs_creating := False\<rparr>))"

section \<open>Lists of agents and workflows\<close>

text \<open>What the lists read of an agent.\<close>

record listed_agent =
  la_id :: string
  la_name :: string
  la_slug :: string
  la_description :: "string option"
  la_status :: string
  la_tools :: nat
  la_mcp_servers :: nat

record agent_meta =
  me_sessionCount :: nat
  me_toolCount :: nat

record agents_data =
  da_agents :: "listed_agent list"
  da_meta :: "(string, agent_meta) jmap"
  da_loading :: bool
  da_error :: "string option"

definition newAgentsData :: agents_data where
  "newAgentsData = \<lparr>da_agents = [], da_meta = [], da_loading = True, da_error = None\<rparr>"

text \<open>The answers while the page is there; the count of a session list that failed is nought.\<close>

definition agents_listed :: "string + listed_agent list \<Rightarrow> agents_data \<Rightarrow> agents_data" where
  "agents_listed ans d =
     (case ans of
        Inl e \<Rightarrow> d\<lparr>da_loading := False, da_error := Some e\<rparr>
      | Inr items \<Rightarrow>
          let active = filter (\<lambda>a. la_status a \<noteq> ''deleted'') items
          in d\<lparr>da_agents := active,
               da_meta := foldl (\<lambda>m a. mput (la_id a) \<lparr>me_sessionCount = 0, me_toolCount = la_tools a + la_mcp_servers a\<rparr> m) [] active\<rparr>)"

definition session_counts :: "(string \<times> live_session list option) list \<Rightarrow> agents_data \<Rightarrow> agents_data" where
  "session_counts counts d =
     d\<lparr>da_meta := foldl (\<lambda>m (i, ss).
          mput i ((case mget m i of Some x \<Rightarrow> x | None \<Rightarrow> \<lparr>me_sessionCount = 0, me_toolCount = 0\<rparr>)
            \<lparr>me_sessionCount := (case ss of Some xs \<Rightarrow> length (filter (\<lambda>s. lv_status s = ''active'') xs) | None \<Rightarrow> 0)\<rparr>) m)
          (da_meta d) counts,
       da_loading := False\<rparr>"

record workflow_meta =
  wm_totalRuns :: nat
  wm_lastRun :: "json option"

definition seed_workflow_meta :: "string list \<Rightarrow> (string, workflow_meta) jmap" where
  "seed_workflow_meta ids = foldl (\<lambda>m i. mput i \<lparr>wm_totalRuns = 0, wm_lastRun = None\<rparr> m) [] ids"

definition workflow_counts :: "(string \<times> (json list \<times> nat) option) list \<Rightarrow> (string, workflow_meta) jmap \<Rightarrow> (string, workflow_meta) jmap" where
  "workflow_counts counts m =
     foldl (\<lambda>m (i, ans). mput i (case ans of
          Some (items, n) \<Rightarrow> \<lparr>wm_totalRuns = n, wm_lastRun = (case items of [] \<Rightarrow> None | r # _ \<Rightarrow> Some r)\<rparr>
        | None \<Rightarrow> \<lparr>wm_totalRuns = 0, wm_lastRun = None\<rparr>) m) m counts"

datatype asset_filter = AllAssets | PrivateAssets | PublishedAssets | ImportedAssets

text \<open>Everything is private so far. An asset has a name, a slug and perhaps a description.\<close>

definition asset_counts :: "'a list \<Rightarrow> asset_filter \<Rightarrow> nat" where
  "asset_counts xs f = (if f = AllAssets \<or> f = PrivateAssets then length xs else 0)"

definition visible_assets ::
  "(string \<Rightarrow> string) \<Rightarrow> ('a \<Rightarrow> string \<times> string \<times> string option) \<Rightarrow> asset_filter \<Rightarrow> string \<Rightarrow> 'a list \<Rightarrow> 'a list" where
  "visible_assets lower view f query xs =
     (let q = lower (trim_space query)
      in filter (\<lambda>x. case view x of (name, slug, description) \<Rightarrow>
           (f = AllAssets \<or> f = PrivateAssets) \<and>
           (q = [] \<or> sub_index (lower name) q \<noteq> None \<or> sub_index (lower slug) q \<noteq> None \<or>
            sub_index (lower (case description of Some d \<Rightarrow> d | None \<Rightarrow> [])) q \<noteq> None)) xs)"

text \<open>\<open>use-workflow-detail.ts\<close>; \<open>wd_request\<close> is the request whose effect is alive.\<close>

record workflow_detail =
  wd_id :: string
  wd_workflow :: "json option"
  wd_runs :: "WorkflowRun list"
  wd_totalRuns :: nat
  wd_loading :: bool
  wd_error :: "string option"
  wd_requests :: "(string \<times> bool) list"

definition RUN_SAMPLE :: nat where "RUN_SAMPLE = 50"

definition load_workflow :: "string \<Rightarrow> workflow_detail \<Rightarrow> workflow_detail" where
  "load_workflow i d = d\<lparr>wd_id := i, wd_loading := True, wd_error := None,
     wd_requests := map (\<lambda>(j, _). (j, False)) (wd_requests d) @ [(i, True)]\<rparr>"

definition open_workflow :: "string \<Rightarrow> workflow_detail" where
  "open_workflow i = load_workflow i \<lparr>wd_id = i, wd_workflow = None, wd_runs = [], wd_totalRuns = 0, wd_loading = True,
     wd_error = None, wd_requests = []\<rparr>"

text \<open>The answer of the request with an index: the workflow or an error, and the runs, none if they failed.\<close>

definition workflow_answer :: "nat \<Rightarrow> string + json \<Rightarrow> (WorkflowRun list \<times> nat) option \<Rightarrow> workflow_detail \<Rightarrow> workflow_detail" where
  "workflow_answer n ans runs d =
     (if n \<ge> length (wd_requests d) then d
      else (let (i, alive) = wd_requests d ! n; d1 = d\<lparr>wd_requests := take n (wd_requests d) @ drop (Suc n) (wd_requests d)\<rparr>
            in if \<not> alive then d1
               else case ans of
                      Inl e \<Rightarrow> d1\<lparr>wd_loading := False, wd_error := Some e\<rparr>
                    | Inr w \<Rightarrow> d1\<lparr>wd_workflow := Some w, wd_runs := (case runs of Some (rs, _) \<Rightarrow> rs | None \<Rightarrow> []),
                                  wd_totalRuns := (case runs of Some (_, k) \<Rightarrow> k | None \<Rightarrow> 0), wd_loading := False\<rparr>))"

section \<open>The dashboard\<close>

definition TREND_DAYS :: nat where "TREND_DAYS = 7"
definition RECENT_SESSIONS :: nat where "RECENT_SESSIONS = 6"
definition RECENT_RUNS :: nat where "RECENT_RUNS = 8"

text \<open>\<open>day_start\<close> is the start of the day of a time stamp, none if it is no date; \<open>start\<close> is that of today.\<close>

definition day_diff :: "(string \<Rightarrow> int option) \<Rightarrow> int \<Rightarrow> string option \<Rightarrow> int option" where
  "day_diff day_start start ts =
     (case ts of
        None \<Rightarrow> None
      | Some s \<Rightarrow> if s = [] then None else map_option (\<lambda>d. js_round (of_int (start - d) / 86400000)) (day_start s))"

definition bucketByDay :: "(string \<Rightarrow> int option) \<Rightarrow> int \<Rightarrow> ('a \<Rightarrow> string option) \<Rightarrow> nat \<Rightarrow> 'a list \<Rightarrow> nat list" where
  "bucketByDay day_start start getTs days items =
     foldl (\<lambda>buckets x.
         case day_diff day_start start (getTs x) of
           None \<Rightarrow> buckets
         | Some n \<Rightarrow> if 0 \<le> n \<and> n < int days
             then buckets[days - 1 - nat n := buckets ! (days - 1 - nat n) + 1] else buckets)
       (replicate days 0) items"

definition session_key :: "live_session \<Rightarrow> string" where
  "session_key s = (case lv_last_message_at s of Some t \<Rightarrow> t | None \<Rightarrow> (case lv_created_at s of Some c \<Rightarrow> c | None \<Rightarrow> []))"

record dashboard_sessions =
  ds_total :: nat
  ds_recent :: "(live_session \<times> string) list"
  ds_byDay :: "nat list"

text \<open>The sessions of each agent, by its id; \<open>localeCompare\<close> is the string comparison.\<close>

definition dashboard_of_sessions ::
  "(string \<Rightarrow> string \<Rightarrow> int) \<Rightarrow> (string \<Rightarrow> int option) \<Rightarrow> int \<Rightarrow> (string \<times> live_session list option) list \<Rightarrow> dashboard_sessions" where
  "dashboard_of_sessions localeCompare day_start start answers =
     (let all = concat (map (\<lambda>(a, ss). map (\<lambda>s. (s, a)) (case ss of Some xs \<Rightarrow> xs | None \<Rightarrow> [])) answers);
          sorted = js_sort (\<lambda>x y. localeCompare (session_key (fst y)) (session_key (fst x))) all
      in \<lparr>ds_total = length sorted, ds_recent = take RECENT_SESSIONS sorted,
          ds_byDay = bucketByDay day_start start (\<lambda>x. Some (session_key (fst x))) TREND_DAYS sorted\<rparr>)"

section \<open>The marketplace\<close>

datatype MarketplaceKind = AgentItem | WorkflowItem
datatype market_sort = Popular | Rating | Newest | Updated

text \<open>An item, without what only its own page shows.\<close>

record MarketplaceItem =
  mi_item_id :: string
  mi_kind :: MarketplaceKind
  mi_title :: string
  mi_summary :: string
  mi_category :: string
  mi_version :: string
  mi_author_handle :: string
  mi_author_name :: string
  mi_installs :: int
  mi_rating :: rat
  mi_updated_at :: int
  mi_featured :: bool
  mi_imported :: bool
  mi_mine :: bool
  mi_new_update :: bool

record MarketplaceListQuery =
  mq_kind :: "MarketplaceKind option"
  mq_category :: string
  mq_query :: string
  mq_mineOnly :: bool
  mq_sort :: market_sort

definition text_matches :: "(string \<Rightarrow> string) \<Rightarrow> string \<Rightarrow> MarketplaceItem \<Rightarrow> bool" where
  "text_matches lower t m \<longleftrightarrow>
     list_ex (\<lambda>f. sub_index (lower f) t \<noteq> None) [mi_title m, mi_summary m, mi_author_name m, mi_author_handle m]"

text \<open>The sign of a difference is all that sorting looks at.\<close>

definition market_compare :: "market_sort \<Rightarrow> MarketplaceItem \<Rightarrow> MarketplaceItem \<Rightarrow> int" where
  "market_compare s a b =
     (case s of
        Popular \<Rightarrow> mi_installs b - mi_installs a
      | Rating \<Rightarrow> (if mi_rating b < mi_rating a then -1 else if mi_rating b = mi_rating a then 0 else 1)
      | Newest \<Rightarrow> mi_updated_at b - mi_updated_at a
      | Updated \<Rightarrow> mi_updated_at b - mi_updated_at a)"

definition applyFilters :: "(string \<Rightarrow> string) \<Rightarrow> MarketplaceItem list \<Rightarrow> MarketplaceListQuery \<Rightarrow> MarketplaceItem list" where
  "applyFilters lower items q =
     (let r1 = (case mq_kind q of Some k \<Rightarrow> filter (\<lambda>m. mi_kind m = k) items | None \<Rightarrow> items);
          r2 = (if mq_category q \<noteq> [] \<and> mq_category q \<noteq> ''All'' then filter (\<lambda>m. mi_category m = mq_category q) r1 else r1);
          r3 = (if mq_mineOnly q then filter mi_mine r2 else r2);
          t = lower (trim_space (mq_query q));
          r4 = (if t \<noteq> [] then filter (text_matches lower t) r3 else r3)
      in js_sort (market_compare (mq_sort q)) r4)"

text \<open>The page: what is chosen, and what is shown. \<open>mp_request\<close> counts the runs of the effect; only the last is alive.\<close>

record marketplace =
  mp_kind :: "MarketplaceKind option"
  mp_category :: string
  mp_query :: string
  mp_mineOnly :: bool
  mp_sort :: market_sort
  mp_items :: "MarketplaceItem list"
  mp_featured :: "MarketplaceItem list"
  mp_loading :: bool
  mp_request :: nat

definition newMarketplace :: marketplace where
  "newMarketplace = \<lparr>mp_kind = None, mp_category = ''All'', mp_query = [], mp_mineOnly = False, mp_sort = Popular,
     mp_items = [], mp_featured = [], mp_loading = True, mp_request = 1\<rparr>"

definition market_query :: "marketplace \<Rightarrow> MarketplaceListQuery" where
  "market_query p = \<lparr>mq_kind = mp_kind p, mq_category = mp_category p, mq_query = mp_query p,
     mq_mineOnly = mp_mineOnly p, mq_sort = mp_sort p\<rparr>"

definition market_effect :: "marketplace \<Rightarrow> marketplace" where
  "market_effect p = p\<lparr>mp_loading := True, mp_request := mp_request p + 1\<rparr>"

datatype market_choice =
    ChooseKind "MarketplaceKind option" | ChooseCategory string | ChooseQuery string | ToggleMine | ChooseSort market_sort

text \<open>A choice; the effect runs when it changes something. The rail's buttons but ``All'' are disabled for workflows.\<close>

definition market_choose :: "market_choice \<Rightarrow> marketplace \<Rightarrow> marketplace" where
  "market_choose c p =
     (let p1 = (case c of
                  ChooseKind k \<Rightarrow> p\<lparr>mp_kind := k\<rparr>
                | ChooseCategory x \<Rightarrow> if mp_kind p = Some WorkflowItem \<and> x \<noteq> ''All'' then p else p\<lparr>mp_category := x\<rparr>
                | ChooseQuery x \<Rightarrow> p\<lparr>mp_query := x\<rparr>
                | ToggleMine \<Rightarrow> p\<lparr>mp_mineOnly := \<not> mp_mineOnly p\<rparr>
                | ChooseSort x \<Rightarrow> p\<lparr>mp_sort := x\<rparr>)
      in if market_query p1 = market_query p then p1 else market_effect p1)"

definition market_answer :: "nat \<Rightarrow> MarketplaceItem list \<Rightarrow> marketplace \<Rightarrow> marketplace" where
  "market_answer n items p = (if n \<noteq> mp_request p then p else p\<lparr>mp_items := items, mp_loading := False\<rparr>)"

definition market_heading :: "marketplace \<Rightarrow> string" where
  "market_heading p =
     (if mp_mineOnly p then ''Published by me''
      else case mp_kind p of
             Some WorkflowItem \<Rightarrow> ''All workflows''
           | Some AgentItem \<Rightarrow> if mp_category p = ''All'' then ''All agents'' else mp_category p
           | None \<Rightarrow> if mp_category p = ''All'' then ''All items'' else mp_category p)"

definition showFeatured :: "marketplace \<Rightarrow> bool" where
  "showFeatured p \<longleftrightarrow> \<not> mp_loading p \<and> \<not> mp_mineOnly p \<and> mp_category p = ''All'' \<and> trim_space (mp_query p) = [] \<and> mp_featured p \<noteq> []"

section \<open>What holds\<close>

lemma url_get_set: "url_get k (url_set j v ps) = (if k = j then Some v else url_get k ps)"
proof (induction ps)
  case (Cons p ps)
  have "url_get k (url_delete j ps) = url_get k ps" if "k \<noteq> j"
    using that by (induction ps) (auto simp: url_delete_def)
  then show ?case using Cons by (cases p) auto
qed simp

lemma url_get_delete: "url_get k (url_delete j ps) = (if k = j then None else url_get k ps)"
  by (induction ps) (auto simp: url_delete_def)

lemma url_delete_set: "url_delete k (url_set k v ps) = url_delete k ps"
proof (induction ps)
  case (Cons p ps)
  then show ?case by (cases p) (auto simp: url_delete_def)
qed (simp add: url_delete_def)

lemma url_delete_twice: "url_delete k (url_delete k ps) = url_delete k ps"
  by (simp add: url_delete_def)

text \<open>
  The chat page settles on a session that exists: from any URL, two renders of its effects lead to one that a third
  does not change, with a listed session if there is any and none otherwise; the other parameters stay.
\<close>

theorem session_choice_settles:
  assumes "list_all (\<lambda>s. lv_id s \<noteq> []) sessions"
  shows "let f = session_effects False sessions; ps' = f (f ps)
         in f ps' = ps' \<and> url_delete ''session'' ps' = url_delete ''session'' ps \<and>
            (if sessions = [] then \<not> truthy (url_get ''session'' ps')
             else list_ex (\<lambda>s. url_get ''session'' ps' = Some (lv_id s)) sessions)"
proof -
  let ?f = "session_effects False sessions"
  have others: "url_delete ''session'' (?f q) = url_delete ''session'' q" for q
    by (auto simp: session_effects_def drop_session_def pick_session_def setSession_def url_delete_set url_delete_twice
        split: list.split)
  have listed: "?f q = q" if "list_ex (\<lambda>s. url_get ''session'' q = Some (lv_id s)) sessions" for q
  proof -
    from that obtain s where s: "s \<in> set sessions" "url_get ''session'' q = Some (lv_id s)" by (auto simp: list_ex_iff)
    then have "truthy (url_get ''session'' q)" using assms by (simp add: list_all_iff)
    moreover have "list_ex (\<lambda>s. Some (lv_id s) = url_get ''session'' q) sessions" using s by (auto simp: list_ex_iff)
    ultimately show ?thesis by (simp add: session_effects_def drop_session_def)
  qed
  have none: "(if sessions = [] then ?f q = q \<and> \<not> truthy (url_get ''session'' (?f q))
      else list_ex (\<lambda>s. url_get ''session'' (?f q) = Some (lv_id s)) sessions)" if "\<not> truthy (url_get ''session'' q)" for q
    using that assms
    by (cases sessions) (auto simp: session_effects_def pick_session_def setSession_def url_get_set)
  have step: "list_ex (\<lambda>s. url_get ''session'' (?f q) = Some (lv_id s)) sessions \<or> \<not> truthy (url_get ''session'' (?f q))" for q
  proof (cases "truthy (url_get ''session'' q)")
    case True
    show ?thesis
    proof (cases "list_ex (\<lambda>s. Some (lv_id s) = url_get ''session'' q) sessions")
      case listed_q: True
      then have "?f q = q" using True by (simp add: session_effects_def drop_session_def)
      then show ?thesis using listed_q by (simp add: list_ex_iff) metis
    next
      case False
      then have "?f q = setSession None q" using True by (simp add: session_effects_def drop_session_def)
      then show ?thesis by (simp add: setSession_def url_get_delete)
    qed
  next
    case False
    with none [OF False] show ?thesis by (auto split: if_splits)
  qed
  show ?thesis
  proof (cases "list_ex (\<lambda>s. url_get ''session'' (?f ps) = Some (lv_id s)) sessions")
    case True
    then show ?thesis using listed others by (auto simp: Let_def)
  next
    case False
    then have "\<not> truthy (url_get ''session'' (?f ps))" using step by blast
    from none [OF this] show ?thesis using listed others by (auto simp: Let_def split: if_splits)
  qed
qed

theorem session_choice_settles_witness:
  "let s = \<lparr>lv_id = ''s1'', lv_agent_id = None, lv_title = None, lv_status = ''active'', lv_created_at = None, lv_last_message_at = None\<rparr>;
       f = session_effects False [s]
   in url_get ''session'' (f (f [(''tab'', ''x''), (''session'', ''gone'')])) = Some ''s1''"
proof -
  let ?s = "\<lparr>lv_id = ''s1'', lv_agent_id = None, lv_title = None, lv_status = ''active'', lv_created_at = None, lv_last_message_at = None\<rparr>"
  from session_choice_settles [of "[?s]" "[(''tab'', ''x''), (''session'', ''gone'')]"] show ?thesis by (simp add: Let_def)
qed

text \<open>
  The list loses a deleted session only when the socket says so. When the server's answer comes first, the page picks
  the first session of the list, which may be the one that was deleted.
\<close>

lemma deleted_session_is_opened_again:
  assumes "url_get ''session'' ps = Some (lv_id s)" and "lv_id s \<noteq> []"
  shows "url_get ''session'' (session_effects False (s # ss) (handleDelete_done (lv_id s) ps)) = Some (lv_id s)"
  using assms by (simp add: handleDelete_done_def setSession_def url_get_delete session_effects_def pick_session_def url_get_set)

text \<open>
  The trend of the dashboard counts right: of its days, the last is today, and each holds the number of the
  items whose time stamp is that many days ago; items outside the days, in the future or without a date are in none.
\<close>

theorem bucketByDay_exact:
  "bucketByDay day_start start getTs days items =
     map (\<lambda>i. length (filter (\<lambda>x. day_diff day_start start (getTs x) = Some (int (days - 1 - i))) items)) [0..<days]"
proof -
  define count where "count i xs = length (filter (\<lambda>x. day_diff day_start start (getTs x) = Some (int (days - 1 - i))) xs)" for i xs
  define step where "step buckets x = (case day_diff day_start start (getTs x) of
           None \<Rightarrow> buckets
         | Some n \<Rightarrow> if 0 \<le> n \<and> n < int days
             then buckets[days - 1 - nat n := buckets ! (days - 1 - nat n) + (1 :: nat)] else buckets)" for buckets x
  have one: "step b x = map (\<lambda>i. b ! i + count i [x]) [0..<days]" if "length b = days" for b x
  proof (rule nth_equalityI)
    show "length (step b x) = length (map (\<lambda>i. b ! i + count i [x]) [0..<days])"
      using that by (simp add: step_def split: option.split)
  next
    fix i assume "i < length (step b x)"
    then have i: "i < days" using that by (simp add: step_def split: option.splits if_splits)
    show "step b x ! i = map (\<lambda>i. b ! i + count i [x]) [0..<days] ! i"
    proof (cases "day_diff day_start start (getTs x)")
      case None
      then show ?thesis using i that by (simp add: step_def count_def)
    next
      case (Some n)
      have "0 \<le> n \<Longrightarrow> n < int days \<Longrightarrow> (i = days - 1 - nat n) = (n = int (days - 1 - i))" using i by auto
      then show ?thesis using Some i that by (auto simp: step_def count_def)
    qed
  qed
  have all: "length b = days \<Longrightarrow> foldl step b items = map (\<lambda>i. b ! i + count i items) [0..<days]" for b
  proof (induction items arbitrary: b)
    case Nil
    then have "map (\<lambda>i. b ! i) [0..<days] = b" by (metis map_nth)
    then show ?case by (simp add: count_def)
  next
    case (Cons x items)
    have "length (step b x) = days" using one [OF Cons.prems] by simp
    from Cons.IH [OF this] have "foldl step b (x # items) = map (\<lambda>i. step b x ! i + count i items) [0..<days]" by simp
    also have "\<dots> = map (\<lambda>i. b ! i + count i (x # items)) [0..<days]"
      using one [OF Cons.prems] by (auto simp: count_def)
    finally show ?case .
  qed
  have "bucketByDay day_start start getTs days items = foldl step (replicate days 0) items"
    by (simp add: bucketByDay_def step_def [abs_def])
  then show ?thesis using all [of "replicate days 0"] by (simp add: count_def)
qed

lemma market_comparator: "comparator_ok (market_compare s)"
  by (cases s) (auto simp: comparator_ok_def market_compare_def)

text \<open>
  The marketplace shows exactly the items that fit every choice, each as often as it is there, in the chosen order.
\<close>

theorem applyFilters_exact:
  "let r = applyFilters lower items q; t = lower (trim_space (mq_query q))
   in mset r = filter_mset (\<lambda>m. (mq_kind q = None \<or> mq_kind q = Some (mi_kind m)) \<and>
          (mq_category q \<in> {[], ''All''} \<or> mi_category m = mq_category q) \<and> (\<not> mq_mineOnly q \<or> mi_mine m) \<and>
          (t = [] \<or> text_matches lower t m)) (mset items) \<and>
      sorted_wrt (\<lambda>a b. market_compare (mq_sort q) a b \<le> 0) r"
proof -
  have "mset (applyFilters lower items q) = filter_mset (\<lambda>m. (mq_kind q = None \<or> mq_kind q = Some (mi_kind m)) \<and>
          (mq_category q \<in> {[], ''All''} \<or> mi_category m = mq_category q) \<and> (\<not> mq_mineOnly q \<or> mi_mine m) \<and>
          (lower (trim_space (mq_query q)) = [] \<or> text_matches lower (lower (trim_space (mq_query q))) m)) (mset items)"
    unfolding applyFilters_def Let_def mset_js_sort
    by (simp add: filter_filter_mset mset_filter split: option.split)
      (auto intro!: filter_mset_cong arg_cong [where f = "\<lambda>P. filter_mset P (mset items)"])
  moreover have "sorted_wrt (\<lambda>a b. market_compare (mq_sort q) a b \<le> 0) (applyFilters lower items q)"
    unfolding applyFilters_def Let_def by (rule sorted_js_sort [OF market_comparator])
  ultimately show ?thesis by (simp add: Let_def)
qed

datatype market_event = MarketChoice market_choice | MarketAnswer nat "MarketplaceItem list"

text \<open>The request that is alive is answered with what the shop has for its query; the others with anything.\<close>

fun market_step :: "(string \<Rightarrow> string) \<Rightarrow> MarketplaceItem list \<Rightarrow> marketplace \<Rightarrow> market_event \<Rightarrow> marketplace" where
  "market_step lower shop p (MarketChoice c) = market_choose c p"
| "market_step lower shop p (MarketAnswer n items) =
     market_answer n (if n = mp_request p then applyFilters lower shop (market_query p) else items) p"

definition market_ok :: "(string \<Rightarrow> string) \<Rightarrow> MarketplaceItem list \<Rightarrow> marketplace \<Rightarrow> bool" where
  "market_ok lower shop p \<longleftrightarrow> mp_loading p \<or> mp_items p = applyFilters lower shop (market_query p)"

lemma market_step_ok: "market_ok lower shop p \<Longrightarrow> market_ok lower shop (market_step lower shop p e)"
proof (cases e)
  case (MarketChoice c)
  assume ok: "market_ok lower shop p"
  show ?thesis
  proof (cases "mp_loading (market_choose c p)")
    case False
    then have "market_query (market_choose c p) = market_query p" "mp_items (market_choose c p) = mp_items p"
      "mp_loading (market_choose c p) = mp_loading p"
      by (auto simp: market_choose_def market_effect_def Let_def split: if_splits market_choice.splits)
    then show ?thesis using ok MarketChoice by (simp add: market_ok_def)
  qed (simp add: market_ok_def MarketChoice)
next
  case (MarketAnswer n items)
  assume "market_ok lower shop p"
  then show ?thesis using MarketAnswer by (simp add: market_ok_def market_answer_def market_query_def)
qed

interpretation shopping: machine "market_step lower shop" "market_ok lower shop" for lower shop
  by unfold_locales (rule market_step_ok)

text \<open>However the choices change and in whatever order the answers come, what is shown as loaded fits the choices.\<close>

lemma market_shows_its_choices:
  "let p = foldl (market_step lower shop) newMarketplace es
   in mp_loading p \<or> mp_items p = applyFilters lower shop (market_query p)"
proof -
  have "market_ok lower shop newMarketplace" by (simp add: market_ok_def newMarketplace_def)
  from shopping.run_good [OF this, of es] show ?thesis by (simp add: market_ok_def Let_def)
qed

text \<open>The tab of workflows disables the categories but keeps the one that was chosen: ``All workflows'' shows some of them.\<close>

lemma workflow_tab_keeps_category:
  "let p = market_choose (ChooseKind (Some WorkflowItem)) (market_choose (ChooseCategory ''Dev'') newMarketplace)
   in market_heading p = ''All workflows'' \<and> mq_category (market_query p) = ''Dev''"
  by (simp add: market_choose_def market_effect_def market_query_def newMarketplace_def market_heading_def)

datatype workflow_detail_event = LoadWorkflow string | WorkflowAnswer nat "string + json" "(WorkflowRun list \<times> nat) option"

text \<open>The server answers a request with the workflow \<open>shop i\<close> that was asked for, or an error.\<close>

fun workflow_detail_step :: "(string \<Rightarrow> json) \<Rightarrow> workflow_detail \<Rightarrow> workflow_detail_event \<Rightarrow> workflow_detail" where
  "workflow_detail_step shop d (LoadWorkflow i) = load_workflow i d"
| "workflow_detail_step shop d (WorkflowAnswer n ans runs) =
     workflow_answer n (case ans of Inl e \<Rightarrow> Inl e | Inr _ \<Rightarrow> Inr (shop (fst (wd_requests d ! n)))) runs d"

definition workflow_detail_ok :: "(string \<Rightarrow> json) \<Rightarrow> workflow_detail \<Rightarrow> bool" where
  "workflow_detail_ok shop d \<longleftrightarrow>
     (wd_loading d \<or> wd_error d \<noteq> None \<or> wd_workflow d = Some (shop (wd_id d))) \<and>
     list_all (\<lambda>(i, alive). alive \<longrightarrow> i = wd_id d) (wd_requests d)"

lemma workflow_detail_step_ok:
  assumes "workflow_detail_ok shop d"
  shows "workflow_detail_ok shop (workflow_detail_step shop d e)"
proof (cases e)
  case (LoadWorkflow i)
  then show ?thesis by (auto simp: load_workflow_def workflow_detail_ok_def list_all_iff)
next
  case (WorkflowAnswer n ans runs)
  show ?thesis
  proof (cases "n < length (wd_requests d)")
    case False
    then show ?thesis using assms WorkflowAnswer by (simp add: workflow_answer_def)
  next
    case True
    obtain i alive where r: "wd_requests d ! n = (i, alive)" by (cases "wd_requests d ! n")
    with True assms have i: "alive \<Longrightarrow> i = wd_id d" by (force simp: workflow_detail_ok_def list_all_length)
    have rest: "list_all (\<lambda>(i, alive). alive \<longrightarrow> i = wd_id d) (take n (wd_requests d) @ drop (Suc n) (wd_requests d))"
      using assms by (auto simp: workflow_detail_ok_def list_all_iff dest: in_set_takeD in_set_dropD)
    show ?thesis using True assms i rest
      by (cases ans) (auto simp: WorkflowAnswer workflow_answer_def r workflow_detail_ok_def Let_def)
  qed
qed

interpretation workflow_page: machine "workflow_detail_step shop" "workflow_detail_ok shop" for shop
  by unfold_locales (rule workflow_detail_step_ok)

text \<open>
  The detail page shows the workflow of its address: in whatever order the answers of the requests come while the
  page moves from one workflow to another, once it is neither loading nor showing an error it shows the workflow it is
  at.
\<close>

theorem detail_shows_its_workflow:
  "let d = foldl (workflow_detail_step shop) (open_workflow i) es
   in wd_loading d \<or> wd_error d \<noteq> None \<or> wd_workflow d = Some (shop (wd_id d))"
proof -
  have "workflow_detail_ok shop (open_workflow i)" by (simp add: workflow_detail_ok_def open_workflow_def load_workflow_def)
  from workflow_page.run_good [OF this, of es] show ?thesis by (simp add: workflow_detail_ok_def Let_def)
qed

end
