(* ===== verification/BuilderPage.thy ===== *)
theory BuilderPage
  imports WorkflowProps
begin

text \<open>
  The page of the workflow builder with the service behind it: \<open>app/(authenticated)/workflows/[id]/page.tsx\<close> chooses
  the version and mounts the builder, \<open>components/builder/workflow-builder.tsx\<close> has the buttons, and
  \<open>api/app/services/workflow_service.py\<close> keeps the definition that the next deploy will freeze. Requests are a queue: one
  is served and answered at a time, in the order they were made.
\<close>

section \<open>The service\<close>

type_synonym saved_graph = "saved_node list \<times> saved_edge list"

record workflow_version =
  wv_id :: string
  wv_version :: nat
  wv_definition :: saved_graph

text \<open>The row of a workflow, its versions newest first as the relationship orders them.\<close>

record workflow_row =
  wo_definition :: saved_graph
  wo_draft :: bool
  wo_versions :: "workflow_version list"

definition update_workflow :: "saved_graph \<Rightarrow> workflow_row \<Rightarrow> workflow_row" where
  "update_workflow d w = w\<lparr>wo_definition := d\<rparr>"

definition current_version :: "workflow_row \<Rightarrow> nat option" where
  "current_version w = (if wo_versions w = [] then None else Some (Max (set (map wv_version (wo_versions w)))))"

definition deploy_workflow :: "string \<Rightarrow> workflow_row \<Rightarrow> workflow_row" where
  "deploy_workflow i w =
     (let next_version = (case current_version w of Some n \<Rightarrow> n | None \<Rightarrow> 0) + 1
      in w\<lparr>wo_draft := False,
           wo_versions := \<lparr>wv_id = i, wv_version = next_version, wv_definition = wo_definition w\<rparr> # wo_versions w\<rparr>)"

definition mark_workflow_draft :: "workflow_row \<Rightarrow> workflow_row" where
  "mark_workflow_draft w = w\<lparr>wo_draft := True\<rparr>"

definition cancel_edit :: "workflow_row \<Rightarrow> workflow_row option" where
  "cancel_edit w =
     (case wo_versions w of
        [] \<Rightarrow> None
      | latest # _ \<Rightarrow> Some (w\<lparr>wo_definition := wv_definition latest, wo_draft := False\<rparr>))"

section \<open>The page\<close>

text \<open>Where to go after a change: \<open>latestId ?? DRAFT_SELECTION\<close>, or the draft.\<close>

datatype next_version = LatestVersion | DraftVersion

datatype page_call =
    LoadAll
  | SaveDraft saved_graph
  | DeployCall
  | UpdateFor saved_graph
  | EditCall
  | CancelCall
  | Reload next_version

text \<open>The builder as it is mounted: under a key, with its own flag.\<close>

record mounted_builder =
  mb_key :: string
  mb_builder :: builder
  mb_deploying :: bool

record builder_page =
  bp_url :: "string option"
  bp_workflow :: "(saved_graph \<times> bool) option"
  bp_versions :: "workflow_version list"
  bp_error :: bool
  bp_mounted :: "mounted_builder option"
  bp_calls :: "page_call list"

definition DRAFT_SELECTION :: string where "DRAFT_SELECTION = ''draft''"

definition open_page :: "string option \<Rightarrow> builder_page" where
  "open_page url = \<lparr>bp_url = url, bp_workflow = None, bp_versions = [], bp_error = False, bp_mounted = None, bp_calls = [LoadAll]\<rparr>"

definition selected_version :: "builder_page \<Rightarrow> string" where
  "selected_version p = (case bp_url p of Some v \<Rightarrow> v | None \<Rightarrow> DRAFT_SELECTION)"

definition isDraft :: "builder_page \<Rightarrow> bool" where
  "isDraft p \<longleftrightarrow> selected_version p = DRAFT_SELECTION"

definition selectedVersion :: "builder_page \<Rightarrow> workflow_version option" where
  "selectedVersion p = (if isDraft p then None else find (\<lambda>v. wv_id v = selected_version p) (bp_versions p))"

definition isLatestVersionSelected :: "builder_page \<Rightarrow> bool" where
  "isLatestVersionSelected p \<longleftrightarrow> \<not> isDraft p \<and> (case bp_versions p of [] \<Rightarrow> False | v # _ \<Rightarrow> selected_version p = wv_id v)"

definition builderWorkflow :: "builder_page \<Rightarrow> saved_graph option" where
  "builderWorkflow p = map_option (\<lambda>(d, _). case selectedVersion p of None \<Rightarrow> d | Some v \<Rightarrow> wv_definition v) (bp_workflow p)"

text \<open>The provider's first state: the definition's nodes and edges, none of them selected.\<close>

definition initial_graph :: "saved_graph \<Rightarrow> wf_node list \<times> wf_edge list" where
  "initial_graph d =
     (map (\<lambda>n. \<lparr>nd_id = sn_id n, nd_type = sn_type n, nd_position = sn_position n, nd_data = sn_data n, nd_selected = False\<rparr>) (fst d),
      map (\<lambda>e. \<lparr>eg_id = se_id e, eg_source = se_source e, eg_target = se_target e, eg_sourceHandle = se_sourceHandle e,
                eg_targetHandle = se_targetHandle e, eg_selected = False\<rparr>) (snd d))"

definition mount_builder :: "string \<Rightarrow> saved_graph \<Rightarrow> mounted_builder" where
  "mount_builder key d = (case initial_graph d of (n, e) \<Rightarrow> \<lparr>mb_key = key, mb_builder = newBuilder n e, mb_deploying = False\<rparr>)"

text \<open>A render: a new key mounts a new builder, and the old one's timer is cleared; an error shows no builder.\<close>

definition render_page :: "builder_page \<Rightarrow> builder_page" where
  "render_page p =
     (if bp_error p then p\<lparr>bp_mounted := None\<rparr>
      else case builderWorkflow p of
             None \<Rightarrow> p
           | Some d \<Rightarrow>
               (case bp_mounted p of
                  Some m \<Rightarrow> if mb_key m = selected_version p then p else p\<lparr>bp_mounted := Some (mount_builder (selected_version p) d)\<rparr>
                | None \<Rightarrow> p\<lparr>bp_mounted := Some (mount_builder (selected_version p) d)\<rparr>))"

definition goto_version :: "string \<Rightarrow> builder_page \<Rightarrow> builder_page" where
  "goto_version v p = render_page (p\<lparr>bp_url := Some v\<rparr>)"

definition first_selection :: "workflow_row \<Rightarrow> string" where
  "first_selection w = (if wo_draft w then DRAFT_SELECTION else case wo_versions w of [] \<Rightarrow> DRAFT_SELECTION | v # _ \<Rightarrow> wv_id v)"

definition load_all :: "workflow_row \<Rightarrow> builder_page \<Rightarrow> builder_page" where
  "load_all w p = render_page (p\<lparr>bp_workflow := Some (wo_definition w, wo_draft w), bp_versions := wo_versions w\<rparr>)"

definition resolve_version :: "next_version \<Rightarrow> workflow_row \<Rightarrow> string" where
  "resolve_version nxt w =
     (case nxt of
        DraftVersion \<Rightarrow> DRAFT_SELECTION
      | LatestVersion \<Rightarrow> (case wo_versions w of [] \<Rightarrow> DRAFT_SELECTION | v # _ \<Rightarrow> wv_id v))"

definition add_call :: "page_call \<Rightarrow> builder_page \<Rightarrow> builder_page" where
  "add_call c p = p\<lparr>bp_calls := bp_calls p @ [c]\<rparr>"

definition in_builder :: "(builder \<Rightarrow> builder) \<Rightarrow> builder_page \<Rightarrow> builder_page" where
  "in_builder f p = p\<lparr>bp_mounted := map_option (\<lambda>m. m\<lparr>mb_builder := f (mb_builder m)\<rparr>) (bp_mounted p)\<rparr>"

definition set_deploying :: "bool \<Rightarrow> builder_page \<Rightarrow> builder_page" where
  "set_deploying x p = p\<lparr>bp_mounted := map_option (\<lambda>m. m\<lparr>mb_deploying := x\<rparr>) (bp_mounted p)\<rparr>"

section \<open>The buttons\<close>

definition handleDeploy :: "builder_page \<Rightarrow> builder_page" where
  "handleDeploy p =
     (case bp_mounted p of
        Some m \<Rightarrow> if isDraft p \<and> \<not> mb_deploying m then add_call DeployCall (set_deploying True p) else p
      | None \<Rightarrow> p)"

definition handleEdit :: "builder_page \<Rightarrow> builder_page" where
  "handleEdit p =
     (if isDraft p \<or> bp_mounted p = None then p
      else case selectedVersion p of
             Some v \<Rightarrow> if isLatestVersionSelected p then add_call EditCall p else add_call (UpdateFor (wv_definition v)) p
           | None \<Rightarrow> add_call EditCall p)"

definition handleCancelEdit :: "bool \<Rightarrow> builder_page \<Rightarrow> builder_page" where
  "handleCancelEdit confirmed p =
     (if \<not> isDraft p \<or> bp_versions p = [] \<or> bp_mounted p = None \<or> \<not> confirmed then p
      else add_call CancelCall (in_builder cancelPendingSave p))"

text \<open>The list of versions; the draft is in it only while it is shown.\<close>

definition setSelected :: "string \<Rightarrow> builder_page \<Rightarrow> builder_page" where
  "setSelected v p =
     (if bp_mounted p \<noteq> None \<and> (v \<in> set (map wv_id (bp_versions p)) \<or> isDraft p \<and> v = DRAFT_SELECTION) then goto_version v p else p)"

text \<open>The timer of the save fires.\<close>

definition save_due :: "builder_page \<Rightarrow> builder_page" where
  "save_due p =
     (case bp_mounted p of
        None \<Rightarrow> p
      | Some m \<Rightarrow>
          (case save_fires (mb_builder m) of
             (None, b) \<Rightarrow> p
           | (Some d, b) \<Rightarrow> add_call (SaveDraft d) (in_builder (\<lambda>_. b) p)))"

text \<open>The first request is served and answered; \<open>i\<close> is the id of a version that it makes.\<close>

definition serve_call :: "string \<Rightarrow> page_call \<Rightarrow> workflow_row \<times> builder_page \<Rightarrow> workflow_row \<times> builder_page" where
  "serve_call i c s =
     (case s of (w, p) \<Rightarrow>
        (case c of
           LoadAll \<Rightarrow> (w, let p1 = load_all w p in if bp_url p1 = None then goto_version (first_selection w) p1 else p1)
         | SaveDraft d \<Rightarrow> (update_workflow d w, p)
         | DeployCall \<Rightarrow> (deploy_workflow i w, add_call (Reload LatestVersion) p)
         | UpdateFor d \<Rightarrow> (update_workflow d w, add_call EditCall p)
         | EditCall \<Rightarrow> (mark_workflow_draft w, add_call (Reload DraftVersion) p)
         | CancelCall \<Rightarrow> (case cancel_edit w of None \<Rightarrow> (w, p) | Some w1 \<Rightarrow> (w1, add_call (Reload LatestVersion) p))
         | Reload nxt \<Rightarrow> (w, goto_version (resolve_version nxt w) (load_all w p))))"

definition serve_next :: "string \<Rightarrow> workflow_row \<times> builder_page \<Rightarrow> workflow_row \<times> builder_page" where
  "serve_next i s =
     (case bp_calls (snd s) of [] \<Rightarrow> s | c # cs \<Rightarrow> serve_call i c (fst s, (snd s)\<lparr>bp_calls := cs\<rparr>))"

text \<open>The first request fails: loading shows an error page, a deploy can be tried again, and of the rest nobody hears.\<close>

definition fail_next :: "workflow_row \<times> builder_page \<Rightarrow> workflow_row \<times> builder_page" where
  "fail_next s =
     (case bp_calls (snd s) of
        [] \<Rightarrow> s
      | c # cs \<Rightarrow>
          let p = (snd s)\<lparr>bp_calls := cs\<rparr>
          in (fst s, case c of
                LoadAll \<Rightarrow> render_page (p\<lparr>bp_error := True\<rparr>)
              | Reload _ \<Rightarrow> render_page (p\<lparr>bp_error := True\<rparr>)
              | DeployCall \<Rightarrow> set_deploying False p
              | _ \<Rightarrow> p))"

end
