(* ===== verification/BuilderPageProps.thy ===== *)
theory BuilderPageProps
  imports BuilderPage
begin

text \<open>
  What the builder's page keeps: while the draft is shown, what is on the canvas is what the service has, up to saves
  that are queued or under way. From that follows what a deploy freezes, and the ways in which an edit is lost.
\<close>

section \<open>What is saved is stable\<close>

lemma safe_idempotent:
  "safe_value (safe_value v) = safe_value v" "safe_item (safe_item v) = safe_item v"
  "safe_values (safe_values vs) = safe_values vs" "safe_items (safe_items vs) = safe_items vs"
  "safeClone (safeClone kvs) = safeClone kvs"
proof (induction v and v and vs and vs and kvs rule: safe_value_safe_item_safe_values_safe_items_safeClone.induct)
  case (4 xs)
  have clone: "safeClone (zip ks vs) = zip ks (safe_values vs)" for ks :: "string list" and vs
    by (induction ks vs rule: list_induct2') auto
  have len: "length (safe_values vs) = length vs" for vs by (induction vs) auto
  show ?case using 4 by (simp add: keyed_def clone len)
qed simp_all

definition stable :: "saved_graph \<Rightarrow> bool" where
  "stable d \<longleftrightarrow> (case initial_graph d of (n, e) \<Rightarrow> stripForSave n e) = d"

definition graph_of :: "builder \<Rightarrow> saved_graph" where
  "graph_of b = stripForSave (b_nodes b) (b_edges b)"

lemma stable_strip [simp]: "stable (stripForSave n e)"
  by (simp add: stable_def initial_graph_def stripForSave_def safe_idempotent(5) comp_def)

text \<open>
  C34. Opening a definition and saving it again changes nothing: a builder that is mounted on what was saved from a
  canvas saves just that, even for data that the first save altered.
\<close>

theorem saved_definition_is_stable:
  "graph_of (mb_builder (mount_builder key (stripForSave n e))) = stripForSave n e"
  using stable_strip [of n e] by (simp add: stable_def graph_of_def mount_builder_def newBuilder_def split: prod.splits)

lemma mounted_graph: "stable d \<Longrightarrow> graph_of (mb_builder (mount_builder key d)) = d"
  by (simp add: stable_def graph_of_def mount_builder_def newBuilder_def split: prod.splits)

lemma mounted_fields [simp]:
  "mb_key (mount_builder key d) = key" "b_pending (mb_builder (mount_builder key d)) = None" "mb_deploying (mount_builder key d) = False"
  by (simp_all add: mount_builder_def newBuilder_def split: prod.splits)

section \<open>Editing the canvas\<close>

text \<open>
  What the canvas does while the draft is shown: edits that schedule a save, a drag as a whole, and changes of React Flow
  that are not saved. A drag that ends where it began leaves everything as it was.
\<close>

datatype canvas_event = CanvasEdit builder_event | Drag "(string \<times> (rat \<times> rat)) list" | FlowOnly "wf_node list" "wf_edge \<Rightarrow> bool"

fun edits_graph :: "builder_event \<Rightarrow> bool" where
  "edits_graph (Connect c) = True"
| "edits_graph (NewNode clock t p) = True"
| "edits_graph (SetData i k v) = True"
| "edits_graph DeleteSelection = True"
| "edits_graph Undo = True"
| "edits_graph Redo = True"
| "edits_graph (Plan clocks plan) = True"
| "edits_graph _ = False"

definition dragged :: "(string \<times> (rat \<times> rat)) list \<Rightarrow> wf_node list \<Rightarrow> wf_node list" where
  "dragged moves ns = map (\<lambda>n. case map_of moves (nd_id n) of Some q \<Rightarrow> n\<lparr>nd_position := q\<rparr> | None \<Rightarrow> n) ns"

fun canvas_step :: "(connection \<Rightarrow> wf_edge list \<Rightarrow> wf_edge list) \<Rightarrow> string \<Rightarrow> string \<Rightarrow> canvas_event \<Rightarrow> builder \<Rightarrow> builder" where
  "canvas_step addEdge backend model (CanvasEdit e) b = edit addEdge backend model b e"
| "canvas_step addEdge backend model (Drag moves) b =
     (let b1 = onNodeDragStart b in onNodeDragStop (b1\<lparr>b_nodes := dragged moves (b_nodes b1)\<rparr>))"
| "canvas_step addEdge backend model (FlowOnly ns keep) b = b\<lparr>b_nodes := ns, b_edges := filter keep (b_edges b)\<rparr>"

fun canvas_fits :: "canvas_event \<Rightarrow> builder \<Rightarrow> bool" where
  "canvas_fits (CanvasEdit e) b \<longleftrightarrow> edits_graph e"
| "canvas_fits (Drag moves) b \<longleftrightarrow> has_moved (b_nodes b) (dragged moves (b_nodes b)) \<or> dragged moves (b_nodes b) = b_nodes b"
| "canvas_fits (FlowOnly ns keep) b \<longleftrightarrow> stripForSave ns (filter keep (b_edges b)) = graph_of b"

text \<open>Nothing changes, or what is there now is scheduled to be saved.\<close>

definition saves_it :: "builder \<Rightarrow> builder \<Rightarrow> bool" where
  "saves_it b b1 \<longleftrightarrow> graph_of b1 = graph_of b \<and> b_pending b1 = b_pending b \<or> b_pending b1 = Some (b_nodes b1, b_edges b1)"

lemma saves_it_commit [simp]: "saves_it b (commit ns es b0)" "saves_it b b"
  by (simp_all add: saves_it_def commit_def scheduleSave_def)

lemma canvas_saves: "canvas_fits e b \<Longrightarrow> saves_it b (canvas_step addEdge backend model e b)"
proof (cases e)
  case (CanvasEdit x)
  moreover assume "canvas_fits e b"
  ultimately show ?thesis
    by (cases x) (auto simp: onConnect_def addNode_def updateNodeData_def deleteSelected_def applyPlan_builder_def Let_def
      undo_def redo_def history_undo_def history_redo_def apply_snapshot_def scheduleSave_def saves_it_def commit_def graph_of_def
      split: option.splits prod.splits)
next
  case (Drag moves)
  moreover assume "canvas_fits e b"
  ultimately show ?thesis
    by (auto simp: Let_def onNodeDragStart_def onNodeDragStop_def scheduleSave_def saves_it_def graph_of_def split: if_splits)
qed (simp add: saves_it_def graph_of_def)

section \<open>The page and the service together\<close>

datatype page_event =
    CanvasEvent canvas_event | SaveDue | ServeNext string | PressDeploy | PressEdit | PressCancel bool | SelectVersion string

fun page_step ::
  "(connection \<Rightarrow> wf_edge list \<Rightarrow> wf_edge list) \<Rightarrow> string \<Rightarrow> string \<Rightarrow> workflow_row \<times> builder_page \<Rightarrow> page_event \<Rightarrow>
     workflow_row \<times> builder_page" where
  "page_step addEdge backend model (w, p) (CanvasEvent e) = (w, in_builder (canvas_step addEdge backend model e) p)"
| "page_step addEdge backend model (w, p) SaveDue = (w, save_due p)"
| "page_step addEdge backend model s (ServeNext i) = serve_next i s"
| "page_step addEdge backend model (w, p) PressDeploy = (w, handleDeploy p)"
| "page_step addEdge backend model (w, p) PressEdit = (w, handleEdit p)"
| "page_step addEdge backend model (w, p) (PressCancel confirmed) = (w, handleCancelEdit confirmed p)"
| "page_step addEdge backend model (w, p) (SelectVersion v) = (w, setSelected v p)"

fun is_save :: "page_call \<Rightarrow> bool" where
  "is_save (SaveDraft d) = True"
| "is_save _ = False"

definition draft_shown :: "builder_page \<Rightarrow> builder option" where
  "draft_shown p = (case bp_mounted p of Some m \<Rightarrow> if mb_key m = DRAFT_SELECTION then Some (mb_builder m) else None | None \<Rightarrow> None)"

text \<open>
  The user waits for the answer of a button before using another one; the canvas changes only where it can be edited, and
  a version's id, a UUID, is not the word that stands for the draft.
\<close>

fun page_fits :: "workflow_row \<times> builder_page \<Rightarrow> page_event \<Rightarrow> bool" where
  "page_fits (w, p) (CanvasEvent e) \<longleftrightarrow> (case draft_shown p of Some b \<Rightarrow> canvas_fits e b | None \<Rightarrow> False)"
| "page_fits (w, p) SaveDue \<longleftrightarrow> True"
| "page_fits (w, p) (ServeNext i) \<longleftrightarrow> i \<noteq> DRAFT_SELECTION"
| "page_fits (w, p) _ \<longleftrightarrow> list_all is_save (bp_calls p)"

fun saved_by :: "page_call \<Rightarrow> saved_graph \<Rightarrow> saved_graph" where
  "saved_by (SaveDraft x) d = x"
| "saved_by _ d = d"

text \<open>What the service will have when every save that is under way or queued has reached it.\<close>

definition will_have :: "workflow_row \<Rightarrow> builder_page \<Rightarrow> builder \<Rightarrow> saved_graph" where
  "will_have w p b =
     (case b_pending b of Some (n, e) \<Rightarrow> stripForSave n e | None \<Rightarrow> foldl (\<lambda>d c. saved_by c d) (wo_definition w) (bp_calls p))"

text \<open>The calls that may be under way besides saves, at most one: by what is shown.\<close>

fun draft_call :: "page_call \<Rightarrow> bool" where
  "draft_call DeployCall = True"
| "draft_call CancelCall = True"
| "draft_call (Reload LatestVersion) = True"
| "draft_call _ = False"

fun version_call :: "page_call \<Rightarrow> bool" where
  "version_call (UpdateFor d) = True"
| "version_call EditCall = True"
| "version_call (Reload DraftVersion) = True"
| "version_call _ = False"

definition one_draft_call :: "page_call list \<Rightarrow> bool" where
  "one_draft_call cs \<longleftrightarrow> (\<exists>xs c ys. cs = xs @ c # ys \<and> list_all is_save xs \<and> draft_call c \<and> list_all is_save ys)"

definition last_version_call :: "page_call list \<Rightarrow> bool" where
  "last_version_call cs \<longleftrightarrow> (\<exists>xs c. cs = xs @ [c] \<and> list_all is_save xs \<and> version_call c)"

fun call_stable :: "page_call \<Rightarrow> bool" where
  "call_stable (SaveDraft d) = stable d"
| "call_stable (UpdateFor d) = stable d"
| "call_stable _ = True"

definition stored_ok :: "workflow_row \<Rightarrow> bool" where
  "stored_ok w \<longleftrightarrow> stable (wo_definition w) \<and> list_all (\<lambda>v. stable (wv_definition v) \<and> wv_id v \<noteq> DRAFT_SELECTION) (wo_versions w)"

definition page_ok :: "workflow_row \<times> builder_page \<Rightarrow> bool" where
  "page_ok s \<longleftrightarrow> (case s of (w, p) \<Rightarrow>
     stored_ok w \<and> list_all call_stable (bp_calls p) \<and> \<not> bp_error p \<and>
     list_all (\<lambda>v. stable (wv_definition v) \<and> wv_id v \<noteq> DRAFT_SELECTION) (bp_versions p) \<and>
     (bp_versions p \<noteq> [] \<longrightarrow> wo_versions w \<noteq> []) \<and>
     (list_ex (\<lambda>c. c = CancelCall \<or> c = Reload LatestVersion) (bp_calls p) \<longrightarrow> wo_versions w \<noteq> []) \<and>
     (case bp_mounted p of
        None \<Rightarrow> bp_calls p = [LoadAll] \<and> bp_workflow p = None
      | Some m \<Rightarrow> mb_key m = selected_version p \<and> bp_workflow p \<noteq> None \<and>
          (if mb_key m = DRAFT_SELECTION
           then list_all is_save (bp_calls p) \<and> will_have w p (mb_builder m) = graph_of (mb_builder m) \<or> one_draft_call (bp_calls p)
           else b_pending (mb_builder m) = None \<and> (list_all is_save (bp_calls p) \<or> last_version_call (bp_calls p)))))"

subsection \<open>Every step keeps it\<close>

lemma will_have_pending: "b_pending b = Some (n, e) \<Longrightarrow> will_have w p b = stripForSave n e"
  by (simp add: will_have_def)

lemma will_have_quiet: "b_pending b = None \<Longrightarrow> will_have w p b = foldl (\<lambda>d c. saved_by c d) (wo_definition w) (bp_calls p)"
  by (simp add: will_have_def)

lemma will_have_cong: "b_pending b1 = b_pending b \<Longrightarrow> bp_calls p1 = bp_calls p \<Longrightarrow> will_have w p1 b1 = will_have w p b"
  by (simp add: will_have_def split: option.split)

lemma one_draft_call_save: "one_draft_call cs \<Longrightarrow> one_draft_call (cs @ [SaveDraft d])"
proof -
  assume "one_draft_call cs"
  then obtain xs c ys where "cs = xs @ c # ys" "list_all is_save xs" "draft_call c" "list_all is_save ys"
    by (auto simp: one_draft_call_def)
  then show ?thesis unfolding one_draft_call_def by (intro exI [of _ xs] exI [of _ c] exI [of _ "ys @ [SaveDraft d]"]) simp
qed

lemma one_draft_call_new: "list_all is_save cs \<Longrightarrow> draft_call c \<Longrightarrow> one_draft_call (cs @ [c])"
  unfolding one_draft_call_def by (intro exI [of _ cs] exI [of _ c] exI [of _ "[]"]) simp

lemma one_draft_call_Cons:
  "one_draft_call (c # cs) \<longleftrightarrow> (if is_save c then one_draft_call cs else draft_call c \<and> list_all is_save cs)"
proof -
  have save: "draft_call c \<Longrightarrow> \<not> is_save c" for c by (cases c) auto
  show ?thesis
  proof
    assume "one_draft_call (c # cs)"
    then obtain xs d ys where *: "c # cs = xs @ d # ys" "list_all is_save xs" "draft_call d" "list_all is_save ys"
      by (auto simp: one_draft_call_def)
    then show "if is_save c then one_draft_call cs else draft_call c \<and> list_all is_save cs"
      using save by (cases xs) (auto simp: one_draft_call_def)
  next
    assume "if is_save c then one_draft_call cs else draft_call c \<and> list_all is_save cs"
    then show "one_draft_call (c # cs)"
    proof (cases "is_save c")
      case True
      then obtain xs d ys where "cs = xs @ d # ys" "list_all is_save xs" "draft_call d" "list_all is_save ys"
        using \<open>if is_save c then _ else _\<close> by (auto simp: one_draft_call_def)
      with True show ?thesis unfolding one_draft_call_def by (intro exI [of _ "c # xs"] exI [of _ d] exI [of _ ys]) simp
    next
      case False
      with \<open>if is_save c then _ else _\<close> show ?thesis
        unfolding one_draft_call_def by (intro exI [of _ "[]"] exI [of _ c] exI [of _ cs]) simp
    qed
  qed
qed

lemma last_version_call_Cons:
  "last_version_call (c # cs) \<longleftrightarrow> (if cs = [] then version_call c else is_save c \<and> last_version_call cs)"
proof (cases "cs = []")
  case True
  then show ?thesis by (auto simp: last_version_call_def Cons_eq_append_conv)
next
  case False
  have "last_version_call (c # cs) \<longleftrightarrow> (\<exists>xs d. cs = xs @ [d] \<and> is_save c \<and> list_all is_save xs \<and> version_call d)"
    using False by (fastforce simp: last_version_call_def Cons_eq_append_conv)
  then show ?thesis using False by (auto simp: last_version_call_def)
qed

lemma last_version_call_new: "list_all is_save cs \<Longrightarrow> version_call c \<Longrightarrow> last_version_call (cs @ [c])"
  by (auto simp: last_version_call_def)

lemma page_ok_canvas:
  assumes "page_ok (w, p)" and "draft_shown p = Some b" and "saves_it b (f b)"
  shows "page_ok (w, in_builder f p)"
proof -
  obtain m where m: "bp_mounted p = Some m" "mb_key m = DRAFT_SELECTION" "mb_builder m = b"
    using assms(2) by (auto simp: draft_shown_def split: option.splits if_splits)
  have "will_have w (in_builder f p) (f b) = graph_of (f b)" if "will_have w p b = graph_of b"
    using assms(3) that by (auto simp: saves_it_def will_have_def in_builder_def graph_of_def split: option.splits)
  then show ?thesis using assms(1) m by (auto simp: page_ok_def in_builder_def selected_version_def)
qed

lemma page_ok_save_due:
  assumes "page_ok (w, p)"
  shows "page_ok (w, save_due p)"
proof (cases "bp_mounted p")
  case (Some m)
  show ?thesis
  proof (cases "b_pending (mb_builder m)")
    case (Some g)
    obtain n e where g: "g = (n, e)" by force
    have d: "mb_key m = DRAFT_SELECTION" using assms \<open>bp_mounted p = Some m\<close> Some by (auto simp: page_ok_def split: if_splits)
    let ?p = "add_call (SaveDraft (stripForSave n e)) (in_builder (\<lambda>_. (mb_builder m)\<lparr>b_pending := None\<rparr>) p)"
    have p: "save_due p = ?p" using Some g \<open>bp_mounted p = Some m\<close> by (simp add: save_due_def save_fires_def)
    have "will_have w ?p ((mb_builder m)\<lparr>b_pending := None\<rparr>) = stripForSave n e"
      by (simp add: will_have_def add_call_def)
    moreover have "will_have w p (mb_builder m) = stripForSave n e" using Some g by (simp add: will_have_pending)
    ultimately show ?thesis
      using assms d \<open>bp_mounted p = Some m\<close> unfolding p
      by (auto simp: page_ok_def add_call_def in_builder_def selected_version_def graph_of_def intro: one_draft_call_save)
  qed (use assms \<open>bp_mounted p = Some m\<close> in \<open>simp add: save_due_def save_fires_def\<close>)
qed (use assms in \<open>simp add: save_due_def\<close>)

lemma page_ok_deploy: "page_ok (w, p) \<Longrightarrow> list_all is_save (bp_calls p) \<Longrightarrow> page_ok (w, handleDeploy p)"
  by (auto simp: page_ok_def handleDeploy_def add_call_def set_deploying_def selected_version_def isDraft_def
      split: option.splits intro: one_draft_call_new)

lemma page_ok_edit:
  assumes "page_ok (w, p)" and "list_all is_save (bp_calls p)"
  shows "page_ok (w, handleEdit p)"
proof (cases "isDraft p \<or> bp_mounted p = None")
  case False
  then obtain m where m: "bp_mounted p = Some m" "mb_key m \<noteq> DRAFT_SELECTION"
    using assms(1) by (auto simp: page_ok_def isDraft_def)
  have v: "stable (wv_definition v)" if "selectedVersion p = Some v" for v
    using that assms(1) by (auto simp: selectedVersion_def page_ok_def list_all_iff find_Some_iff split: if_splits)
  have "page_ok (w, add_call c p)" if "version_call c" and "call_stable c" for c
    using assms m that last_version_call_new [OF assms(2) that(1)]
    by (cases c) (auto simp: page_ok_def add_call_def selected_version_def)
  then show ?thesis using False v by (auto simp: handleEdit_def split: option.split)
qed (use assms in \<open>simp add: handleEdit_def\<close>)

lemma page_ok_cancel:
  assumes "page_ok (w, p)" and "list_all is_save (bp_calls p)"
  shows "page_ok (w, handleCancelEdit confirmed p)"
  using assms one_draft_call_new [OF assms(2), of CancelCall]
  by (auto simp: handleCancelEdit_def page_ok_def add_call_def in_builder_def selected_version_def isDraft_def cancelPendingSave_def
      split: option.splits)

lemma page_ok_select:
  assumes "page_ok (w, p)" and "list_all is_save (bp_calls p)"
  shows "page_ok (w, setSelected v p)"
proof (cases "bp_mounted p \<noteq> None \<and> (v \<in> set (map wv_id (bp_versions p)) \<or> isDraft p \<and> v = DRAFT_SELECTION)")
  case True
  then obtain m where m: "bp_mounted p = Some m" "mb_key m = selected_version p"
    using assms(1) by (auto simp: page_ok_def)
  show ?thesis
  proof (cases "v = selected_version p")
    case same: True
    have "render_page (p\<lparr>bp_url := Some v\<rparr>) = p\<lparr>bp_url := Some v\<rparr>"
      using m same assms(1) by (auto simp: render_page_def selected_version_def page_ok_def split: option.splits)
    moreover have "will_have w (p\<lparr>bp_url := Some v\<rparr>) b = will_have w p b" for b by (rule will_have_cong) simp_all
    ultimately show ?thesis
      using assms same m True by (auto simp: setSelected_def goto_version_def page_ok_def selected_version_def)
  next
    case False
    then have "v \<noteq> DRAFT_SELECTION"
      using True assms(1) by (auto simp: page_ok_def list_all_iff isDraft_def)
    moreover have "builderWorkflow (p\<lparr>bp_url := Some v\<rparr>) \<noteq> None"
      using assms(1) m by (simp add: page_ok_def builderWorkflow_def)
    then obtain d where "builderWorkflow (p\<lparr>bp_url := Some v\<rparr>) = Some d" by blast
    moreover from this have "setSelected v p = p\<lparr>bp_url := Some v, bp_mounted := Some (mount_builder v d)\<rparr>"
      using True m False assms(1) by (simp add: setSelected_def goto_version_def render_page_def selected_version_def page_ok_def)
    ultimately show ?thesis using assms m by (simp add: page_ok_def selected_version_def)
  qed
qed (use assms in \<open>auto simp: setSelected_def\<close>)

text \<open>A page goes somewhere: to a version, or to the draft as the service has it when no call is left.\<close>

lemma goto_elsewhere:
  assumes "bp_mounted p = Some m" and "v \<noteq> mb_key m" and "\<not> bp_error p" and "bp_workflow p \<noteq> None"
  shows "\<exists>d. goto_version v p = p\<lparr>bp_url := Some v, bp_mounted := Some (mount_builder v d)\<rparr>"
proof -
  have "builderWorkflow (p\<lparr>bp_url := Some v\<rparr>) \<noteq> None" using assms(4) by (simp add: builderWorkflow_def)
  then obtain d where "builderWorkflow (p\<lparr>bp_url := Some v\<rparr>) = Some d" by blast
  then show ?thesis using assms by (intro exI [of _ d]) (simp add: goto_version_def render_page_def selected_version_def)
qed

lemma goto_draft:
  assumes "bp_mounted p = Some m" and "mb_key m \<noteq> DRAFT_SELECTION" and "\<not> bp_error p" and "bp_workflow p = Some (d, x)"
  shows "goto_version DRAFT_SELECTION p =
    p\<lparr>bp_url := Some DRAFT_SELECTION, bp_mounted := Some (mount_builder DRAFT_SELECTION d)\<rparr>"
  using assms by (auto simp: goto_version_def render_page_def builderWorkflow_def selected_version_def selectedVersion_def isDraft_def)

lemma load_all_mounted:
  assumes "bp_mounted p = Some m" and "mb_key m = selected_version p" and "\<not> bp_error p"
  shows "load_all w p = p\<lparr>bp_workflow := Some (wo_definition w, wo_draft w), bp_versions := wo_versions w\<rparr>"
  using assms by (simp add: load_all_def render_page_def builderWorkflow_def selected_version_def)

lemma page_ok_first_load:
  assumes "page_ok (w, p)" and "bp_calls p = [LoadAll]" and "bp_mounted p = None"
  shows "page_ok (serve_call i LoadAll (w, p\<lparr>bp_calls := []\<rparr>))"
proof -
  let ?p = "p\<lparr>bp_calls := []\<rparr>"
  let ?q = "?p\<lparr>bp_workflow := Some (wo_definition w, wo_draft w), bp_versions := wo_versions w\<rparr>"
  have e: "\<not> bp_error p" and w: "stored_ok w" using assms(1) by (auto simp: page_ok_def)
  obtain d where d: "builderWorkflow ?q = Some d" by (auto simp: builderWorkflow_def)
  have q: "load_all w ?p = ?q\<lparr>bp_mounted := Some (mount_builder (selected_version ?q) d)\<rparr>"
    using assms(3) e d by (simp add: load_all_def render_page_def)
  have draft: "d = wo_definition w" if "isDraft ?q" using d that by (simp add: builderWorkflow_def selectedVersion_def)
  have ok: "page_ok (w, ?q\<lparr>bp_url := Some v, bp_mounted := Some (mount_builder v x)\<rparr>)" if "v = DRAFT_SELECTION \<Longrightarrow> x = wo_definition w" for v x
    using that w e mounted_graph [of x v]
    by (auto simp: page_ok_def selected_version_def stored_ok_def will_have_def)
  show ?thesis
  proof (cases "bp_url p")
    case None
    have sel: "selected_version ?q = DRAFT_SELECTION" using None by (simp add: selected_version_def)
    have "goto_version (first_selection w) (load_all w ?p) =
        ?q\<lparr>bp_url := Some (first_selection w), bp_mounted := Some (mount_builder (first_selection w) x)\<rparr>"
      if "x = (if first_selection w = DRAFT_SELECTION then d else the (builderWorkflow (?q\<lparr>bp_url := Some (first_selection w)\<rparr>)))" for x
      unfolding q sel using e that
      by (auto simp: goto_version_def render_page_def builderWorkflow_def selected_version_def selectedVersion_def isDraft_def split: option.splits)
    then show ?thesis using ok draft None sel by (simp add: serve_call_def Let_def q isDraft_def)
  next
    case (Some v)
    have u: "?q\<lparr>bp_mounted := M\<rparr> = ?q\<lparr>bp_url := Some v, bp_mounted := M\<rparr>" for M using Some by (cases p) simp
    have "page_ok (w, ?q\<lparr>bp_mounted := Some (mount_builder v d)\<rparr>)"
      unfolding u using draft Some by (intro ok) (simp add: isDraft_def selected_version_def)
    then show ?thesis using Some by (simp add: serve_call_def Let_def q selected_version_def)
  qed
qed

lemma page_ok_reload:
  assumes "page_ok (w, p)" and "bp_calls p = Reload nxt # cs" and "bp_mounted p = Some m"
  shows "page_ok (serve_call i (Reload nxt) (w, p\<lparr>bp_calls := cs\<rparr>))"
proof -
  let ?p = "p\<lparr>bp_calls := cs\<rparr>"
  let ?q = "?p\<lparr>bp_workflow := Some (wo_definition w, wo_draft w), bp_versions := wo_versions w\<rparr>"
  have e: "\<not> bp_error p" "stored_ok w" "mb_key m = selected_version p" "list_all call_stable cs"
    using assms by (auto simp: page_ok_def)
  have load: "load_all w ?p = ?q" using assms(3) e by (intro load_all_mounted [of _ m]) (simp_all add: selected_version_def)
  show ?thesis
  proof (cases "mb_key m = DRAFT_SELECTION")
    case True
    then have nxt: "nxt = LatestVersion" and cs: "list_all is_save cs" and v: "wo_versions w \<noteq> []"
      using assms by (cases nxt; auto simp: page_ok_def one_draft_call_Cons)+
    then have "resolve_version nxt w \<noteq> DRAFT_SELECTION"
      using e(2) by (cases "wo_versions w") (auto simp: resolve_version_def stored_ok_def)
    moreover from this obtain d where
      "goto_version (resolve_version nxt w) ?q = ?q\<lparr>bp_url := Some (resolve_version nxt w), bp_mounted := Some (mount_builder (resolve_version nxt w) d)\<rparr>"
      using goto_elsewhere [of ?q m "resolve_version nxt w"] assms(3) e True by auto
    ultimately show ?thesis
      using e cs v by (simp add: serve_call_def load page_ok_def stored_ok_def selected_version_def)
  next
    case False
    then have nxt: "nxt = DraftVersion" and cs: "cs = []"
      using assms by (cases nxt; auto simp: page_ok_def last_version_call_Cons split: if_splits)+
    have "goto_version DRAFT_SELECTION ?q =
        ?q\<lparr>bp_url := Some DRAFT_SELECTION, bp_mounted := Some (mount_builder DRAFT_SELECTION (wo_definition w))\<rparr>"
      using assms(3) e False by (intro goto_draft) auto
    then have "serve_call i (Reload nxt) (w, ?p) =
        (w, ?q\<lparr>bp_url := Some DRAFT_SELECTION, bp_mounted := Some (mount_builder DRAFT_SELECTION (wo_definition w))\<rparr>)"
      by (simp add: serve_call_def load nxt resolve_version_def)
    then show ?thesis
      using e cs mounted_graph [of "wo_definition w"]
      by (simp add: page_ok_def stored_ok_def selected_version_def will_have_def)
  qed
qed

lemma stored_ok_changes:
  "stored_ok w \<Longrightarrow> stable d \<Longrightarrow> stored_ok (update_workflow d w)"
  "stored_ok w \<Longrightarrow> i \<noteq> DRAFT_SELECTION \<Longrightarrow> stored_ok (deploy_workflow i w)"
  "stored_ok w \<Longrightarrow> stored_ok (mark_workflow_draft w)"
  "stored_ok w \<Longrightarrow> cancel_edit w = Some w1 \<Longrightarrow> stored_ok w1 \<and> wo_versions w1 = wo_versions w \<and> wo_versions w \<noteq> []"
  by (auto simp: stored_ok_def update_workflow_def deploy_workflow_def mark_workflow_draft_def cancel_edit_def Let_def split: list.splits)

lemma row_versions [simp]:
  "wo_versions (update_workflow d w) = wo_versions w" "wo_versions (mark_workflow_draft w) = wo_versions w"
  "wo_versions (deploy_workflow i w) \<noteq> []" "wo_definition (update_workflow d w) = d"
  by (simp_all add: update_workflow_def mark_workflow_draft_def deploy_workflow_def Let_def)

lemma page_ok_serve:
  assumes "page_ok (w, p)" and "i \<noteq> DRAFT_SELECTION"
  shows "page_ok (serve_next i (w, p))"
proof (cases "bp_calls p")
  case (Cons c cs)
  have row: "stored_ok w" and stable: "call_stable c" using assms(1) Cons by (auto simp: page_ok_def)
  show ?thesis
  proof (cases "bp_mounted p")
    case None
    then have "c = LoadAll" "cs = []" using assms(1) Cons by (auto simp: page_ok_def)
    then show ?thesis using page_ok_first_load [OF assms(1) _ None, of i] Cons by (simp add: serve_next_def)
  next
    case (Some m)
    show ?thesis
    proof (cases c)
      case LoadAll
      then show ?thesis using assms(1) Cons Some
        by (auto simp: page_ok_def one_draft_call_Cons last_version_call_Cons split: if_splits)
    next
      case (SaveDraft d)
      have "will_have (update_workflow d w) (p\<lparr>bp_calls := cs\<rparr>) b = will_have w p b" for b
        by (simp add: will_have_def Cons SaveDraft split: option.split)
      then show ?thesis using assms(1) Cons Some SaveDraft stable stored_ok_changes(1) [OF row]
        by (auto simp: page_ok_def serve_next_def serve_call_def selected_version_def one_draft_call_Cons last_version_call_Cons
            split: if_splits)
    next
      case DeployCall
      then show ?thesis using assms(1) Cons Some stored_ok_changes(2) [OF row assms(2)]
        by (auto simp: page_ok_def serve_next_def serve_call_def selected_version_def one_draft_call_Cons last_version_call_Cons
            add_call_def split: if_splits intro: one_draft_call_new)
    next
      case (UpdateFor d)
      then show ?thesis using assms(1) Cons Some stable stored_ok_changes(1) [OF row]
        by (auto simp: page_ok_def serve_next_def serve_call_def selected_version_def one_draft_call_Cons last_version_call_Cons
            add_call_def split: if_splits)
    next
      case EditCall
      then show ?thesis using assms(1) Cons Some stored_ok_changes(3) [OF row]
        by (auto simp: page_ok_def serve_next_def serve_call_def selected_version_def one_draft_call_Cons last_version_call_Cons
            add_call_def split: if_splits)
    next
      case CancelCall
      then have "wo_versions w \<noteq> []" using assms(1) Cons by (simp add: page_ok_def)
      then obtain w1 where w1: "cancel_edit w = Some w1" by (cases "wo_versions w") (auto simp: cancel_edit_def)
      show ?thesis using CancelCall assms(1) Cons Some w1 stored_ok_changes(4) [OF row w1]
        by (auto simp: page_ok_def serve_next_def serve_call_def selected_version_def one_draft_call_Cons last_version_call_Cons
            add_call_def split: if_splits intro: one_draft_call_new)
    next
      case (Reload nxt)
      then show ?thesis using page_ok_reload [OF assms(1) _ Some] Cons by (simp add: serve_next_def)
    qed
  qed
qed (use assms in \<open>simp add: serve_next_def\<close>)

interpretation building: guarded_machine "page_step addEdge backend model" page_fits page_ok
  for addEdge backend model
proof
  show "page_ok (page_step addEdge backend model s e)" if "page_ok s" "page_fits s e" for s e
  proof (cases s)
    case (Pair w p)
    show ?thesis
    proof (cases e)
      case (CanvasEvent x)
      then show ?thesis using that Pair
        by (auto split: option.splits intro!: page_ok_canvas canvas_saves)
    qed (use that Pair in \<open>auto simp: page_ok_save_due page_ok_serve page_ok_deploy page_ok_edit page_ok_cancel page_ok_select\<close>)
  qed
qed

definition page_run ::
  "(connection \<Rightarrow> wf_edge list \<Rightarrow> wf_edge list) \<Rightarrow> string \<Rightarrow> string \<Rightarrow> workflow_row \<times> builder_page \<Rightarrow> page_event list \<Rightarrow>
     workflow_row \<times> builder_page" where
  "page_run addEdge backend model s es = foldl (\<lambda>s e. if page_fits s e then page_step addEdge backend model s e else s) s es"

lemma page_run_ok: "stored_ok w0 \<Longrightarrow> page_ok (page_run addEdge backend model (w0, open_page url) es)"
  unfolding page_run_def by (rule building.run_good) (simp add: page_ok_def open_page_def)

lemma page_run_simps [simp]:
  "page_run addEdge backend model s [] = s"
  "page_run addEdge backend model s (e # es) =
     page_run addEdge backend model (if page_fits s e then page_step addEdge backend model s e else s) es"
  by (simp_all add: page_run_def)

lemma serve_saves:
  "list_all is_save (bp_calls p) \<Longrightarrow> length (bp_calls p) \<le> k \<Longrightarrow> i \<noteq> DRAFT_SELECTION \<Longrightarrow>
     page_run addEdge backend model (w, p) (replicate k (ServeNext i)) =
       (w\<lparr>wo_definition := foldl (\<lambda>d c. saved_by c d) (wo_definition w) (bp_calls p)\<rparr>, p\<lparr>bp_calls := []\<rparr>)"
proof (induction k arbitrary: w p)
  case (Suc k)
  show ?case
  proof (cases "bp_calls p")
    case Nil
    then have "p\<lparr>bp_calls := []\<rparr> = p" by (cases p) simp
    with Suc Nil show ?thesis by (simp add: serve_next_def)
  next
    case (Cons c cs)
    then obtain d where c: "c = SaveDraft d" using Suc.prems(1) by (cases c) auto
    have "serve_next i (w, p) = (update_workflow d w, p\<lparr>bp_calls := cs\<rparr>)"
      by (simp add: serve_next_def Cons c serve_call_def)
    then show ?thesis using Suc.prems Suc.IH [of "p\<lparr>bp_calls := cs\<rparr>" "update_workflow d w"] Cons c
      by (simp add: update_workflow_def)
  qed
qed simp

lemma draft_shown_iff:
  "draft_shown p = Some b \<longleftrightarrow> (\<exists>m. bp_mounted p = Some m \<and> mb_key m = DRAFT_SELECTION \<and> mb_builder m = b)"
  by (auto simp: draft_shown_def split: option.splits if_splits)


text \<open>
  C5. Deploying freezes what is shown: once the canvas has been saved, the version that the button makes is the newest,
  it is what is on the canvas, and the page goes to it and shows the same.
\<close>

theorem deploy_freezes_canvas:
  assumes "stored_ok w0" and "page_run addEdge backend model (w0, open_page url) es = (w, p)"
    and "bp_mounted p = Some m" and "mb_key m = DRAFT_SELECTION" and "\<not> mb_deploying m"
    and "b_pending (mb_builder m) = None" and "bp_calls p = []" and "i \<noteq> DRAFT_SELECTION"
  shows "\<exists>v w1 p1 m1. page_run addEdge backend model (w, p) [PressDeploy, ServeNext i, ServeNext i] = (w1, p1) \<and>
    wo_versions w1 = v # wo_versions w \<and> wv_definition v = graph_of (mb_builder m) \<and>
    (\<forall>x \<in> set (wo_versions w). wv_version x < wv_version v) \<and>
    bp_url p1 = Some (wv_id v) \<and> bp_mounted p1 = Some m1 \<and> graph_of (mb_builder m1) = graph_of (mb_builder m)"
proof -
  have ok: "page_ok (w, p)" using page_run_ok [OF assms(1)] assms(2) by metis
  have sel: "selected_version p = DRAFT_SELECTION" and g: "wo_definition w = graph_of (mb_builder m)" "\<not> bp_error p"
    using ok assms(3-7) by (auto simp: page_ok_def one_draft_call_def will_have_def)
  define d where "d = graph_of (mb_builder m)"
  have d: "stable d" "wo_definition w = d" using g by (simp_all add: d_def graph_of_def)
  let ?w = "deploy_workflow i w"
  define v where "v = hd (wo_versions ?w)"
  have v: "wo_versions ?w = v # wo_versions w" "wv_id v = i" "wv_definition v = d"
    "wv_version v = (case current_version w of Some n \<Rightarrow> n | None \<Rightarrow> 0) + 1"
    using d by (simp_all add: v_def deploy_workflow_def Let_def)
  let ?m = "m\<lparr>mb_deploying := True\<rparr>"
  let ?p = "p\<lparr>bp_mounted := Some ?m, bp_calls := []\<rparr>"
  let ?q = "?p\<lparr>bp_workflow := Some (wo_definition ?w, wo_draft ?w), bp_versions := wo_versions ?w\<rparr>"
  have "load_all ?w ?p = ?q"
    using assms(4) g sel by (intro load_all_mounted [of _ ?m]) (simp_all add: selected_version_def)
  moreover have "goto_version i ?q = ?q\<lparr>bp_url := Some i, bp_mounted := Some (mount_builder i d)\<rparr>"
    using assms(4,8) g v by (simp add: goto_version_def render_page_def builderWorkflow_def selected_version_def selectedVersion_def isDraft_def)
  ultimately have run: "page_run addEdge backend model (w, p) [PressDeploy, ServeNext i, ServeNext i] =
      (?w, ?q\<lparr>bp_url := Some i, bp_mounted := Some (mount_builder i d)\<rparr>)"
    using assms(3,5,7,8) sel v
    by (simp add: handleDeploy_def isDraft_def add_call_def set_deploying_def serve_next_def serve_call_def resolve_version_def)
  have "wv_version x < wv_version v" if "x \<in> set (wo_versions w)" for x
  proof -
    have "wv_version x \<le> Max (set (map wv_version (wo_versions w)))" using that by (intro Max_ge) auto
    then show ?thesis using that v(4) by (auto simp: current_version_def less_Suc_eq_le)
  qed
  then show ?thesis unfolding run using v mounted_graph [OF d(1)] by (auto simp: d_def)
qed

text \<open>A run: an empty draft is opened, a node is put on it, and the save reaches the service.\<close>

definition demo_row :: workflow_row where
  "demo_row = \<lparr>wo_definition = ([], []), wo_draft = True, wo_versions = []\<rparr>"

definition demo_page_edits :: "page_event list" where
  "demo_page_edits = [ServeNext ''v'', CanvasEvent (CanvasEdit (NewNode 1 ''merge'' (0, 0)))]"

lemma demo_run:
  "let (w, p) = page_run flow_addEdge [] [] (demo_row, open_page None) demo_page_edits
   in map nd_id (case draft_shown p of Some b \<Rightarrow> b_nodes b | None \<Rightarrow> []) = [''merge_1''] \<and> bp_calls p = [] \<and>
      map_option mb_deploying (bp_mounted p) = Some False"
  by code_simp

lemma demo_stored_ok: "stored_ok demo_row"
  by (simp add: stored_ok_def demo_row_def stable_def initial_graph_def stripForSave_def)


lemma demo_saved:
  "let (w, p) = page_run flow_addEdge [] [] (demo_row, open_page None) (demo_page_edits @ [SaveDue, ServeNext ''v''])
   in bp_calls p = [] \<and>
      (case bp_mounted p of Some m \<Rightarrow> mb_key m = DRAFT_SELECTION \<and> \<not> mb_deploying m \<and> b_pending (mb_builder m) = None \<and>
         map nd_id (b_nodes (mb_builder m)) = [''merge_1''] | None \<Rightarrow> False)"
  by code_simp

theorem deploy_freezes_canvas_witness:
  "\<exists>w1 v. fst (page_run flow_addEdge [] [] (demo_row, open_page None)
       ((demo_page_edits @ [SaveDue, ServeNext ''v'']) @ [PressDeploy, ServeNext ''v'', ServeNext ''v''])) = w1 \<and>
     hd (wo_versions w1) = v \<and> map sn_id (fst (wv_definition v)) = [''merge_1'']"
proof -
  let ?es = "demo_page_edits @ [SaveDue, ServeNext ''v'']"
  obtain w p where run: "page_run flow_addEdge [] [] (demo_row, open_page None) ?es = (w, p)" by fastforce
  with demo_saved obtain m where m: "bp_mounted p = Some m" "mb_key m = DRAFT_SELECTION" "\<not> mb_deploying m"
    "b_pending (mb_builder m) = None" "bp_calls p = []" "map nd_id (b_nodes (mb_builder m)) = [''merge_1'']"
    by (auto simp: Let_def split: option.splits)
  have i: "''v'' \<noteq> DRAFT_SELECTION" by (simp add: DRAFT_SELECTION_def)
  from deploy_freezes_canvas [OF demo_stored_ok run m(1-5) i]
  obtain v w1 p1 where "page_run flow_addEdge [] [] (w, p) [PressDeploy, ServeNext ''v'', ServeNext ''v''] = (w1, p1)"
    "hd (wo_versions w1) = v" "wv_definition v = graph_of (mb_builder m)" by auto
  moreover have "page_run flow_addEdge [] [] (demo_row, open_page None) (?es @ [PressDeploy, ServeNext ''v'', ServeNext ''v'']) =
      page_run flow_addEdge [] [] (w, p) [PressDeploy, ServeNext ''v'', ServeNext ''v'']"
    using run by (simp add: page_run_def del: page_run_simps)
  ultimately show ?thesis using m(6) by (auto simp: graph_of_def stripForSave_def comp_def)
qed

section \<open>How an edit is lost\<close>

text \<open>
  The button neither sends nor awaits the save that is queued. When it is pressed within the half second after an edit and
  answered before the timer fires, the version lacks the edit; going to the version unmounts the builder, which stops the
  timer: the edit is neither on the page nor with the service.
\<close>

lemma deploy_loses_queued_edit:
  assumes "bp_mounted p = Some m" and "mb_key m = DRAFT_SELECTION" and "selected_version p = DRAFT_SELECTION"
    and "\<not> mb_deploying m" and "bp_calls p = []" and "\<not> bp_error p" and "i \<noteq> DRAFT_SELECTION" and "stable (wo_definition w)"
  shows "\<exists>w1 p1 m1. page_run addEdge backend model (w, p) [PressDeploy, ServeNext i, ServeNext i] = (w1, p1) \<and>
    wv_definition (hd (wo_versions w1)) = wo_definition w \<and> wo_definition w1 = wo_definition w \<and> bp_calls p1 = [] \<and>
    bp_mounted p1 = Some m1 \<and> b_pending (mb_builder m1) = None \<and> graph_of (mb_builder m1) = wo_definition w"
proof -
  let ?w = "deploy_workflow i w"
  let ?m = "m\<lparr>mb_deploying := True\<rparr>"
  let ?p = "p\<lparr>bp_mounted := Some ?m, bp_calls := []\<rparr>"
  let ?q = "?p\<lparr>bp_workflow := Some (wo_definition ?w, wo_draft ?w), bp_versions := wo_versions ?w\<rparr>"
  have w: "wo_definition ?w = wo_definition w" "wv_id (hd (wo_versions ?w)) = i" "wv_definition (hd (wo_versions ?w)) = wo_definition w"
    "wo_versions ?w = hd (wo_versions ?w) # wo_versions w"
    by (simp_all add: deploy_workflow_def Let_def)
  have "load_all ?w ?p = ?q"
    using assms(2,3,6) by (intro load_all_mounted [of _ ?m]) (simp_all add: selected_version_def)
  moreover have "goto_version i ?q = ?q\<lparr>bp_url := Some i, bp_mounted := Some (mount_builder i (wo_definition w))\<rparr>"
    using assms(2,6,7) w by (cases "wo_versions ?w")
      (simp_all add: goto_version_def render_page_def builderWorkflow_def selected_version_def selectedVersion_def isDraft_def)
  moreover have "resolve_version LatestVersion ?w = i" using w by (cases "wo_versions ?w") (simp_all add: resolve_version_def)
  ultimately show ?thesis
    using assms(1,3,4,5,7) w mounted_graph [OF assms(8), of i]
    by (simp add: handleDeploy_def isDraft_def add_call_def set_deploying_def serve_next_def serve_call_def)
qed

text \<open>Choosing a version from the list loses it in the same way, without a request.\<close>

lemma version_switch_loses_queued_edit:
  assumes "bp_mounted p = Some m" and "mb_key m = DRAFT_SELECTION" and "v \<in> set (map wv_id (bp_versions p))"
    and "v \<noteq> DRAFT_SELECTION" and "\<not> bp_error p" and "bp_workflow p \<noteq> None" and "bp_calls p = []"
  shows "\<exists>m1. bp_mounted (setSelected v p) = Some m1 \<and> b_pending (mb_builder m1) = None \<and> bp_calls (setSelected v p) = []"
proof -
  obtain d where "goto_version v p = p\<lparr>bp_url := Some v, bp_mounted := Some (mount_builder v d)\<rparr>"
    using goto_elsewhere [of p m v] assms by auto
  then show ?thesis using assms by (simp add: setSelected_def)
qed

text \<open>A save that fails is not tried again and shows no error: the canvas keeps what the service will not have.\<close>

lemma failed_save_is_forgotten:
  assumes "bp_calls p = [SaveDraft d]"
  shows "fail_next (w, p) = (w, p\<lparr>bp_calls := []\<rparr>)"
  using assms by (simp add: fail_next_def)

text \<open>
  Cancelling stops the queued save, not one that is made of an edit while the request is under way: its timer fires, and the
  definition that was just restored is overwritten.
\<close>

lemma edit_during_cancel_overwrites:
  assumes "cancel_edit w = Some w1" and "bp_calls p = [CancelCall]" and "bp_mounted p = Some m"
    and "b_pending (mb_builder m) = Some (n, e)"
  shows "wo_definition (fst (serve_next i (serve_next i (w, save_due p)))) = stripForSave n e"
  using assms
  by (simp add: save_due_def save_fires_def add_call_def in_builder_def serve_next_def serve_call_def update_workflow_def)

end
