(* ===== verification/Inspector.thy ===== *)
theory Inspector
  imports BuilderPageProps AgentForms PanelResize WorkflowRuns
begin

text \<open>
  The panels beside the canvas of the workflow builder (\<open>features/workflows/components/builder\<close>): the inspector of a node
  (\<open>inspector-panel.tsx\<close>, \<open>model-select.tsx\<close>), the panel that tests a workflow (\<open>test-panel.tsx\<close>), the list of runs
  (\<open>run-history-panel.tsx\<close>), and the keys, tabs and handle of \<open>workflow-builder.tsx\<close>. Numbers of a field are whole.
\<close>

section \<open>Fields that commit when they lose the focus\<close>

record node_field =
  nf_local :: string
  nf_focused :: bool

text \<open>The effect of a render with a value; a blur, with what is committed.\<close>

definition field_effect :: "string \<Rightarrow> node_field \<Rightarrow> node_field" where
  "field_effect value f = (if nf_focused f then f else f\<lparr>nf_local := value\<rparr>)"

definition field_focus :: "node_field \<Rightarrow> node_field" where "field_focus f = f\<lparr>nf_focused := True\<rparr>"
definition field_type :: "string \<Rightarrow> node_field \<Rightarrow> node_field" where "field_type s f = f\<lparr>nf_local := s\<rparr>"

definition field_blur :: "string \<Rightarrow> node_field \<Rightarrow> string option \<times> node_field" where
  "field_blur value f = (if nf_local f \<noteq> value then Some (nf_local f) else None, f\<lparr>nf_focused := False\<rparr>)"

definition number_effect :: "int \<Rightarrow> node_field \<Rightarrow> node_field" where
  "number_effect value f = field_effect (int_string value) f"

definition number_blur :: "int \<Rightarrow> int \<Rightarrow> int \<Rightarrow> node_field \<Rightarrow> int option \<times> node_field" where
  "number_blur lo hi value f =
     (let nxt = (case parseInt10 (nf_local f) of Some n \<Rightarrow> min hi (max lo n) | None \<Rightarrow> value)
      in (if nxt \<noteq> value then Some nxt else None, \<lparr>nf_local = int_string nxt, nf_focused = False\<rparr>))"

text \<open>Fields whose blur trims: names and descriptions of outputs and artifacts.\<close>

definition trimmed_blur :: "string \<Rightarrow> node_field \<Rightarrow> string option \<times> node_field" where
  "trimmed_blur value f =
     (let nxt = trim_space (nf_local f) in (if nxt \<noteq> value then Some nxt else None, \<lparr>nf_local = nxt, nf_focused = False\<rparr>))"

section \<open>Outputs and artifacts of a step\<close>

record output_field =
  xo_name :: string
  xo_type :: string
  xo_description :: "string option"

record ArtifactField =
  ar_name :: string
  ar_description :: "string option"

datatype field_patch = PatchName string | PatchType string | PatchDescription "string option"

fun patch_field :: "field_patch \<Rightarrow> output_field \<Rightarrow> output_field" where
  "patch_field (PatchName n) f = f\<lparr>xo_name := n\<rparr>"
| "patch_field (PatchType t) f = f\<lparr>xo_type := t\<rparr>"
| "patch_field (PatchDescription d) f = f\<lparr>xo_description := d\<rparr>"

definition description_patch :: "string \<Rightarrow> field_patch" where
  "description_patch s = PatchDescription (if s \<noteq> [] then Some s else None)"

text \<open>The list that is stored, and the two parts that are shown: the text's description and the others.\<close>

definition extras :: "output_field list \<Rightarrow> output_field list" where
  "extras fs = filter (\<lambda>f. xo_name f \<noteq> ''text'') fs"

definition textDescription :: "output_field list \<Rightarrow> string" where
  "textDescription fs =
     (case Option.bind (find (\<lambda>f. xo_name f = ''text'') fs) xo_description of Some d \<Rightarrow> d | None \<Rightarrow> [])"

definition emit_fields :: "string \<Rightarrow> output_field list \<Rightarrow> output_field list" where
  "emit_fields nextTextDesc nextExtras =
     (if nextTextDesc \<noteq> [] then [\<lparr>xo_name = ''text'', xo_type = ''str'', xo_description = Some nextTextDesc\<rparr>] else []) @ nextExtras"

definition remove_at :: "nat \<Rightarrow> 'a list \<Rightarrow> 'a list" where
  "remove_at i xs = take i xs @ drop (Suc i) xs"

definition update_at :: "nat \<Rightarrow> ('a \<Rightarrow> 'a) \<Rightarrow> 'a list \<Rightarrow> 'a list" where
  "update_at i f xs = map (\<lambda>(j, x). if j = i then f x else x) (zip [0..<length xs] xs)"

datatype field_op = SetTextDescription string | UpdateExtra nat field_patch | RemoveExtra nat | AddExtra

fun field_step :: "output_field list \<Rightarrow> field_op \<Rightarrow> output_field list" where
  "field_step fs (SetTextDescription d) = emit_fields d (extras fs)"
| "field_step fs (UpdateExtra i p) = emit_fields (textDescription fs) (update_at i (patch_field p) (extras fs))"
| "field_step fs (RemoveExtra i) = emit_fields (textDescription fs) (remove_at i (extras fs))"
| "field_step fs AddExtra =
     emit_fields (textDescription fs) (extras fs @ [\<lparr>xo_name = [], xo_type = ''str'', xo_description = None\<rparr>])"

datatype artifact_op = RenameArtifact nat string | DescribeArtifact nat "string option" | RemoveArtifact nat | AddArtifact

fun artifact_step :: "ArtifactField list \<Rightarrow> artifact_op \<Rightarrow> ArtifactField list" where
  "artifact_step as (RenameArtifact i n) = update_at i (\<lambda>a. a\<lparr>ar_name := n\<rparr>) as"
| "artifact_step as (DescribeArtifact i d) = update_at i (\<lambda>a. a\<lparr>ar_description := d\<rparr>) as"
| "artifact_step as (RemoveArtifact i) = remove_at i as"
| "artifact_step as AddArtifact = as @ [\<lparr>ar_name = [], ar_description = None\<rparr>]"

section \<open>The inspector\<close>

definition selected_node :: "builder \<Rightarrow> wf_node option" where
  "selected_node b = Option.bind (selectedNodeId b) (\<lambda>i. find (\<lambda>n. nd_id n = i) (b_nodes b))"

definition TRIGGER_NODE_TYPES :: "string list" where "TRIGGER_NODE_TYPES = [''manual_trigger'', ''webhook_trigger'']"

text \<open>The text fields that are shown for a node, by their key, and whether it has the number of retries.\<close>

definition text_keys :: "string \<Rightarrow> string list" where
  "text_keys t = [''label'']
     @ (if t = ''agent_step'' then [''instruction'', ''prompt_template''] else [])
     @ (if t = ''condition'' then [''expression''] else [])
     @ (if t = ''webhook_trigger'' then [''path''] else [])
     @ (if t = ''template'' then [''template''] else [])"

definition has_retries :: "string \<Rightarrow> bool" where "has_retries t \<longleftrightarrow> t \<notin> set TRIGGER_NODE_TYPES"

definition retry_count :: "wf_node \<Rightarrow> int" where
  "retry_count n = (case mget (nd_data n) ''retry_count'' of Some (JNum q) \<Rightarrow> \<lfloor>q\<rfloor> | _ \<Rightarrow> 1)"

definition node_text :: "string \<Rightarrow> wf_node \<Rightarrow> string" where
  "node_text key n = (case mget (nd_data n) key of Some (JStr s) \<Rightarrow> s | _ \<Rightarrow> [])"

text \<open>What the fields of a node commit; the fieldset is disabled where the graph is read-only.\<close>

definition commit_text :: "bool \<Rightarrow> string \<Rightarrow> string option \<Rightarrow> builder \<Rightarrow> builder" where
  "commit_text readOnly key new b =
     (case (selected_node b, new) of
        (Some n, Some s) \<Rightarrow> if readOnly then b else updateNodeData (nd_id n) key (JStr s) b
      | _ \<Rightarrow> b)"

definition commit_retries :: "bool \<Rightarrow> int option \<Rightarrow> builder \<Rightarrow> builder" where
  "commit_retries readOnly new b =
     (case (selected_node b, new) of
        (Some n, Some k) \<Rightarrow> if readOnly then b else updateNodeData (nd_id n) ''retry_count'' (JNum (of_int k)) b
      | _ \<Rightarrow> b)"

definition commit_tools :: "bool \<Rightarrow> string list \<Rightarrow> builder \<Rightarrow> builder" where
  "commit_tools readOnly ids b =
     (case selected_node b of
        Some n \<Rightarrow> if readOnly then b else updateNodeData (nd_id n) ''mcp_tool_ids'' (JArr (map JStr ids)) b
      | None \<Rightarrow> b)"

definition field_json :: "output_field \<Rightarrow> json" where
  "field_json f = JObj ([(''name'', JStr (xo_name f)), (''type'', JStr (xo_type f))]
     @ (case xo_description f of Some d \<Rightarrow> [(''description'', JStr d)] | None \<Rightarrow> []))"

definition artifact_json :: "ArtifactField \<Rightarrow> json" where
  "artifact_json a = JObj ([(''name'', JStr (ar_name a))]
     @ (case ar_description a of Some d \<Rightarrow> [(''description'', JStr d)] | None \<Rightarrow> []))"

definition commit_outputs :: "bool \<Rightarrow> output_field list \<Rightarrow> builder \<Rightarrow> builder" where
  "commit_outputs readOnly fs b =
     (case selected_node b of
        Some n \<Rightarrow> if readOnly then b else updateNodeData (nd_id n) ''structured_output_fields'' (JArr (map field_json fs)) b
      | None \<Rightarrow> b)"

definition commit_artifacts :: "bool \<Rightarrow> ArtifactField list \<Rightarrow> builder \<Rightarrow> builder" where
  "commit_artifacts readOnly as b =
     (case selected_node b of
        Some n \<Rightarrow> if readOnly then b else updateNodeData (nd_id n) ''artifacts'' (JArr (map artifact_json as)) b
      | None \<Rightarrow> b)"

section \<open>The model of a step\<close>

definition node_model :: "wf_node \<Rightarrow> string \<Rightarrow> string" where
  "node_model n k = (case Option.bind (mget (nd_data n) ''model_config'') (\<lambda>c. jget c k) of Some (JStr s) \<Rightarrow> s | _ \<Rightarrow> [])"

definition default_model :: "ModelOption list \<Rightarrow> string \<Rightarrow> ModelOption option" where
  "default_model ms backend =
     (let of_backend = filter (\<lambda>m. mo_backend m = backend) ms
      in case find mo_default_model of_backend of
           Some m \<Rightarrow> Some m
         | None \<Rightarrow> (case of_backend of [] \<Rightarrow> None | m # _ \<Rightarrow> Some m))"

text \<open>The models that are offered: those of the backend, or of the first backend as long as there is none.\<close>

definition offered_models :: "ModelOption list \<Rightarrow> string \<Rightarrow> ModelOption list" where
  "offered_models ms backend =
     filter (\<lambda>m. Some (mo_backend m) = (if backend \<noteq> [] then Some backend
        else case availableBackends ms of [] \<Rightarrow> None | x # _ \<Rightarrow> Some x)) ms"

text \<open>What is passed to \<open>onChange\<close>: by the effect, by a choice of the backend, by a choice of the model.\<close>

definition first_choice :: "ModelOption list \<Rightarrow> string \<Rightarrow> (string \<times> string) option" where
  "first_choice ms backend =
     (case availableBackends ms of
        [] \<Rightarrow> None
      | x # _ \<Rightarrow> if backend \<noteq> [] then None else map_option (\<lambda>m. (x, mo_id m)) (default_model ms x))"

definition choose_backend :: "ModelOption list \<Rightarrow> string \<Rightarrow> string \<times> string" where
  "choose_backend ms newBackend = (newBackend, case default_model ms newBackend of Some m \<Rightarrow> mo_id m | None \<Rightarrow> [])"

definition set_model :: "string \<times> string \<Rightarrow> wf_node \<Rightarrow> builder \<Rightarrow> builder" where
  "set_model c n b =
     updateNodeData (nd_id n) ''model_config''
       (JObj (spread (case mget (nd_data n) ''model_config'' of Some (JObj kvs) \<Rightarrow> kvs | _ \<Rightarrow> [])
                [(''backend'', JStr (fst c)), (''model'', JStr (snd c))])) b"

text \<open>The effect, while a step is selected and the models are there; it does not look whether the graph is read-only.\<close>

definition model_select_effect :: "ModelOption list \<Rightarrow> builder \<Rightarrow> builder" where
  "model_select_effect ms b =
     (case selected_node b of
        None \<Rightarrow> b
      | Some n \<Rightarrow>
          if nd_type n \<noteq> ''agent_step'' then b
          else (case first_choice ms (node_model n ''backend'') of None \<Rightarrow> b | Some c \<Rightarrow> set_model c n b))"

section \<open>The test panel\<close>

text \<open>The node in focus: the selected one, or else the trigger.\<close>

definition trigger_node :: "wf_node list \<Rightarrow> wf_node option" where
  "trigger_node ns = find (\<lambda>n. nd_type n \<in> set TRIGGER_NODE_TYPES) ns"

definition focus_node :: "builder \<Rightarrow> wf_node option" where
  "focus_node b = (case selected_node b of Some n \<Rightarrow> Some n | None \<Rightarrow> trigger_node (b_nodes b))"

definition only_status :: "string \<Rightarrow> NodeRunData" where
  "only_status st = \<lparr>nr_status = st, nr_node_type = None, nr_input = None, nr_output = None, nr_error = None, nr_session = None\<rparr>"

definition focus_data :: "run_hook \<Rightarrow> string \<Rightarrow> NodeRunData option" where
  "focus_data h i =
     (case mget (rh_nodeData h) i of Some d \<Rightarrow> Some d | None \<Rightarrow> map_option only_status (mget (rh_nodeStatuses h) i))"

definition node_run_status :: "run_hook \<Rightarrow> string \<Rightarrow> string option" where
  "node_run_status h i =
     (case mget (rh_nodeData h) i of Some d \<Rightarrow> Some (nr_status d) | None \<Rightarrow> mget (rh_nodeStatuses h) i)"

definition showResume :: "run_hook \<Rightarrow> wf_node list \<Rightarrow> bool" where
  "showResume h ns \<longleftrightarrow> canResume h \<and> list_ex (\<lambda>n. node_run_status h (nd_id n) \<noteq> Some ''completed'') ns"

definition resumeLabel :: "run_hook \<Rightarrow> string" where
  "resumeLabel h =
     (if rh_status h = ''failed'' then ''Resume from failed step''
      else if rh_status h = ''cancelled'' then ''Resume from cancelled step'' else ''Continue with new nodes'')"

definition canTrigger :: "builder_page \<Rightarrow> bool" where
  "canTrigger p \<longleftrightarrow> isDraft p \<or> isLatestVersionSelected p"

text \<open>\<open>RunFooter\<close>: its label, if it is shown; the dash is no byte and an argument.\<close>

definition run_footer :: "string \<Rightarrow> bool \<Rightarrow> run_hook \<Rightarrow> string option" where
  "run_footer dash resume h =
     (if rh_status h = ''completed'' then Some (if resume then ''Completed '' @ dash @ '' new nodes pending'' else ''Completed'')
      else if rh_status h = ''failed'' then Some ''Failed''
      else if rh_status h = ''cancelled'' then Some ''Cancelled'' else None)"

text \<open>\<open>DataPreview\<close>: the text, if anything is shown.\<close>

definition data_preview :: "(json \<Rightarrow> string) \<Rightarrow> json option \<Rightarrow> string option" where
  "data_preview stringify d =
     (case d of
        None \<Rightarrow> None
      | Some JNull \<Rightarrow> None
      | Some v \<Rightarrow>
          let t = (case v of JStr s \<Rightarrow> s | _ \<Rightarrow> stringify v)
          in if t = [] \<or> t = ''{}'' then None else Some t)"

text \<open>The bar of a trigger: what the run is started with, and the text that stays.\<close>

definition trigger_submit ::
  "(string \<Rightarrow> json option) \<Rightarrow> bool \<Rightarrow> string \<Rightarrow> run_hook \<Rightarrow> json option \<times> string" where
  "trigger_submit parse isWebhook inputValue h =
     (let t = trim_space inputValue
      in if t = [] \<or> isRunning h then (None, inputValue)
         else (Some (if isWebhook then (case parse t of Some v \<Rightarrow> v | None \<Rightarrow> JObj [(''raw'', JStr t)])
                     else JObj [(''text'', JStr t)]), []))"

section \<open>The list of runs\<close>

record run_history =
  hi_runs :: "WorkflowRun list"
  hi_loading :: bool
  hi_out :: nat

text \<open>The query of the list; \<open>refresh\<close> and its answer; a run that ends refreshes the list.\<close>

definition history_query :: "builder_page \<Rightarrow> bool \<times> string option" where
  "history_query p = (\<not> isDraft p, if isDraft p then None else Some (selected_version p))"

definition refresh_history :: "run_history \<Rightarrow> run_history" where
  "refresh_history r = r\<lparr>hi_loading := True, hi_out := hi_out r + 1\<rparr>"

definition history_answer :: "WorkflowRun list option \<Rightarrow> run_history \<Rightarrow> run_history" where
  "history_answer ans r =
     (if hi_out r = 0 then r
      else (case ans of Some runs \<Rightarrow> r\<lparr>hi_runs := runs, hi_loading := False, hi_out := hi_out r - 1\<rparr>
            | None \<Rightarrow> r\<lparr>hi_loading := False, hi_out := hi_out r - 1\<rparr>))"

definition run_status_changed :: "string \<Rightarrow> run_history \<Rightarrow> run_history" where
  "run_status_changed st r = (if st \<in> set TERMINAL_RUN_STATUSES then refresh_history r else r)"

section \<open>Keys, tabs and the handle\<close>

record key_press =
  kp_key :: string
  kp_ctrl :: bool
  kp_meta :: bool
  kp_shift :: bool
  kp_tag :: string

definition canvas_key :: "(string \<Rightarrow> string) \<Rightarrow> bool \<Rightarrow> key_press \<Rightarrow> builder \<Rightarrow> builder" where
  "canvas_key lower readOnly k b =
     (let key = lower (kp_key k); cmd = kp_ctrl k \<or> kp_meta k
      in if readOnly then b
         else if key = ''z'' \<and> cmd \<and> kp_shift k then redo b
         else if key = ''y'' \<and> cmd then redo b
         else if key = ''z'' \<and> cmd then undo b
         else if kp_key k = ''Delete'' \<or> kp_key k = ''Backspace'' then
           (if kp_tag k = ''INPUT'' \<or> kp_tag k = ''TEXTAREA'' then b else deleteSelected b)
         else b)"

definition canvas_drop :: "bool \<Rightarrow> nat \<Rightarrow> string \<Rightarrow> string \<Rightarrow> string \<Rightarrow> rat \<times> rat \<Rightarrow> builder \<Rightarrow> builder" where
  "canvas_drop readOnly clock backend model t position b =
     (if readOnly \<or> t = [] then b else addNode clock backend model t position b)"

definition handlePaletteAdd :: "nat \<Rightarrow> string \<Rightarrow> string \<Rightarrow> rat \<Rightarrow> string \<Rightarrow> builder \<Rightarrow> builder" where
  "handlePaletteAdd clock backend model random t b = addNode clock backend model t (300, 200 + random * 100) b"

datatype left_tab = NodesTab | RunsTab | SettingsTab
datatype right_tab = InspectorTab | TestTab

definition left_tab_shows :: "bool \<Rightarrow> left_tab \<Rightarrow> left_tab option" where
  "left_tab_shows readOnly t = (if t = NodesTab \<and> readOnly then None else Some t)"

definition first_left_tab :: "bool \<Rightarrow> left_tab" where
  "first_left_tab readOnly = (if readOnly then RunsTab else NodesTab)"

definition RIGHT_MIN :: int where "RIGHT_MIN = 300"
definition RIGHT_MAX :: int where "RIGHT_MAX = 960"
definition RIGHT_DEFAULT :: int where "RIGHT_DEFAULT = 340"

record builder_panels =
  pn_rightTab :: right_tab
  pn_handledRun :: "string option"
  pn_width :: int
  pn_lastX :: "int option"
  pn_deleting :: bool

definition open_panels :: "string option \<Rightarrow> builder_panels" where
  "open_panels deepLinkRunId =
     \<lparr>pn_rightTab = (if truthy deepLinkRunId then TestTab else InspectorTab), pn_handledRun = None, pn_width = RIGHT_DEFAULT,
      pn_lastX = None, pn_deleting = False\<rparr>"

text \<open>A link to a run shows it once: the run that is viewed, if any.\<close>

definition deep_link_effect :: "string option \<Rightarrow> builder_panels \<Rightarrow> string option \<times> builder_panels" where
  "deep_link_effect deepLinkRunId s =
     (if \<not> truthy deepLinkRunId \<or> pn_handledRun s = deepLinkRunId then (None, s)
      else (deepLinkRunId, s\<lparr>pn_rightTab := TestTab, pn_handledRun := deepLinkRunId\<rparr>))"

definition resize_right :: "int \<Rightarrow> builder_panels \<Rightarrow> builder_panels" where
  "resize_right delta s = s\<lparr>pn_width := min RIGHT_MAX (max RIGHT_MIN (pn_width s + delta))\<rparr>"

definition handle_down :: "int \<Rightarrow> builder_panels \<Rightarrow> builder_panels" where
  "handle_down x s = s\<lparr>pn_lastX := Some x\<rparr>"

definition handle_move :: "int \<Rightarrow> builder_panels \<Rightarrow> builder_panels" where
  "handle_move x s =
     (case pn_lastX s of None \<Rightarrow> s | Some lastX \<Rightarrow> (resize_right (lastX - x) s)\<lparr>pn_lastX := Some x\<rparr>)"

definition handle_up :: "builder_panels \<Rightarrow> builder_panels" where
  "handle_up s = s\<lparr>pn_lastX := None\<rparr>"

text \<open>Deleting the workflow: whether a request is made; a failure shows its message.\<close>

definition handleDeleteWorkflow :: "bool \<Rightarrow> builder_panels \<times> builder_page \<Rightarrow> bool \<times> builder_panels \<times> builder_page" where
  "handleDeleteWorkflow confirmed s =
     (if pn_deleting (fst s) \<or> \<not> confirmed then (False, s)
      else (True, (fst s)\<lparr>pn_deleting := True\<rparr>, in_builder cancelPendingSave (snd s)))"

definition delete_workflow_done :: "string option option \<Rightarrow> builder_panels \<Rightarrow> (string + string) \<times> builder_panels" where
  "delete_workflow_done err s =
     (case err of
        None \<Rightarrow> (Inr ''/workflows'', s)
      | Some e \<Rightarrow> (Inl (case e of Some m \<Rightarrow> m | None \<Rightarrow> ''Failed to delete workflow''), s\<lparr>pn_deleting := False\<rparr>))"

section \<open>What holds\<close>

text \<open>What the editor of outputs means: a description for the text and a list of the other fields.\<close>

fun output_spec :: "field_op \<Rightarrow> string \<times> output_field list \<Rightarrow> string \<times> output_field list" where
  "output_spec (SetTextDescription d) (t, xs) = (d, xs)"
| "output_spec (UpdateExtra i p) (t, xs) = (t, update_at i (patch_field p) xs)"
| "output_spec (RemoveExtra i) (t, xs) = (t, remove_at i xs)"
| "output_spec AddExtra (t, xs) = (t, xs @ [\<lparr>xo_name = [], xo_type = ''str'', xo_description = None\<rparr>])"

definition shown_outputs :: "output_field list \<Rightarrow> string \<times> output_field list" where
  "shown_outputs fs = (textDescription fs, extras fs)"

lemma shown_emitted:
  "list_all (\<lambda>f. xo_name f \<noteq> ''text'') xs \<Longrightarrow> shown_outputs (emit_fields d xs) = (d, xs)"
  by (simp add: shown_outputs_def emit_fields_def textDescription_def extras_def list_all_iff find_None_iff [THEN iffD2])

lemma extras_named: "list_all (\<lambda>f. xo_name f \<noteq> ''text'') (extras fs)"
  by (simp add: extras_def list_all_iff)

lemma remove_at_all: "list_all P xs \<Longrightarrow> list_all P (remove_at i xs)"
  by (auto simp: remove_at_def list_all_iff dest: in_set_takeD in_set_dropD)

lemma update_at_all: "list_all P xs \<Longrightarrow> (\<And>x. P x \<Longrightarrow> P (f x)) \<Longrightarrow> list_all P (update_at i f xs)"
  by (auto simp: update_at_def list_all_iff dest: set_zip_rightD)



text \<open>A field that is renamed to ``text'' is gone: it is no longer shown, and the next change of another field drops it.\<close>

lemma renamed_to_text_is_lost:
  "let fs = [\<lparr>xo_name = ''a'', xo_type = ''list'', xo_description = None\<rparr>];
       renamed = field_step fs (UpdateExtra 0 (PatchName ''text''))
   in shown_outputs renamed = ([], []) \<and>
      field_step renamed AddExtra = [\<lparr>xo_name = [], xo_type = ''str'', xo_description = None\<rparr>]"
  by (simp add: Let_def shown_outputs_def textDescription_def extras_def update_at_def emit_fields_def)

text \<open>A number field commits, and shows, only numbers between its bounds; what is no number is taken back.\<close>

lemma number_blur_in_bounds:
  assumes "number_blur lo hi value f = (c, g)" and "lo \<le> value" and "value \<le> hi"
  shows "(case c of Some n \<Rightarrow> lo \<le> n \<and> n \<le> hi \<and> nf_local g = int_string n | None \<Rightarrow> nf_local g = int_string value)"
  using assms by (auto simp: number_blur_def Let_def split: option.splits if_splits)

lemma untouched_field_commits_nothing:
  "fst (field_blur value (field_focus (field_effect value \<lparr>nf_local = s, nf_focused = False\<rparr>))) = None"
  by (simp add: field_effect_def field_focus_def field_blur_def)

text \<open>The model of a step without one is chosen once: the effect then leaves the graph alone.\<close>

lemma first_choice_backend: "first_choice ms b = Some c \<Longrightarrow> fst c = hd (availableBackends ms) \<and> b = []"
  by (auto simp: first_choice_def split: list.splits if_splits)

text \<open>
  The effect does not ask whether the graph may be edited. When a version is looked at, selecting a step that has no backend
  schedules a save of the version's graph, and that replaces the definition that the service has for the draft.
\<close>

lemma viewing_a_version_overwrites_draft:
  assumes "bp_mounted p = Some m" and "\<not> isDraft p" and "bp_calls p = []"
    and "selected_node (mb_builder m) = Some n" and "nd_type n = ''agent_step''"
    and "first_choice ms (node_model n ''backend'') = Some c"
  shows "wo_definition (fst (serve_next i (w, save_due (in_builder (model_select_effect ms) p)))) =
    graph_of (set_model c n (mb_builder m))"
  using assms
  by (simp add: save_due_def save_fires_def in_builder_def model_select_effect_def set_model_def updateNodeData_def commit_def
      scheduleSave_def add_call_def serve_next_def serve_call_def update_workflow_def graph_of_def)

text \<open>The keys of undo are taken while a text is typed in the inspector, too: the graph goes back, not the text.\<close>

lemma undo_while_typing:
  assumes "lower ''z'' = ''z''"
  shows "canvas_key lower False \<lparr>kp_key = ''z'', kp_ctrl = True, kp_meta = False, kp_shift = False, kp_tag = ''TEXTAREA''\<rparr> b = undo b"
  using assms by (simp add: canvas_key_def)

text \<open>The right panel: however it is dragged, its width stays within the bounds.\<close>

datatype panel_event = HandleDown int | HandleMove int | HandleUp | DeepLink "string option" | ShowTab right_tab

fun panel_step :: "builder_panels \<Rightarrow> panel_event \<Rightarrow> builder_panels" where
  "panel_step s (HandleDown x) = handle_down x s"
| "panel_step s (HandleMove x) = handle_move x s"
| "panel_step s HandleUp = handle_up s"
| "panel_step s (DeepLink i) = snd (deep_link_effect i s)"
| "panel_step s (ShowTab t) = s\<lparr>pn_rightTab := t\<rparr>"

interpretation right_panel: machine panel_step "\<lambda>s. RIGHT_MIN \<le> pn_width s \<and> pn_width s \<le> RIGHT_MAX"
proof
  show "RIGHT_MIN \<le> pn_width (panel_step s e) \<and> pn_width (panel_step s e) \<le> RIGHT_MAX"
    if "RIGHT_MIN \<le> pn_width s \<and> pn_width s \<le> RIGHT_MAX" for s e
    using that by (cases e) (auto simp: handle_down_def handle_move_def handle_up_def resize_right_def deep_link_effect_def
      RIGHT_MIN_def RIGHT_MAX_def split: option.split)
qed

lemma right_panel_in_bounds:
  "let s = foldl panel_step (open_panels runId) es in RIGHT_MIN \<le> pn_width s \<and> pn_width s \<le> RIGHT_MAX"
  using right_panel.run_good [of "open_panels runId" es]
  by (simp add: Let_def open_panels_def RIGHT_MIN_def RIGHT_MAX_def RIGHT_DEFAULT_def)

text \<open>A link is followed once: the same id is not viewed again, whatever tab was chosen in between.\<close>

lemma deep_link_once:
  "deep_link_effect i s = (Some r, s1) \<Longrightarrow> fst (deep_link_effect i (panel_step s1 (ShowTab t))) = None"
  by (auto simp: deep_link_effect_def split: if_splits)

end
