(* ===== verification/Palette.thy ===== *)
theory Palette
  imports ChatSocket
begin

text \<open>
  The results of the command palette (\<open>features/command-palette/use-palette-results.ts\<close>): three
  requests behind a debounce, of which the one for workflows is filtered and ranked in the client.
  Agents and message hits are JSON values; lower case is the argument \<open>lower\<close>.
\<close>

record palette_workflow =
  pw_id :: string
  pw_name :: string
  pw_slug :: "string option"
  pw_description :: "string option"

record PaletteResults =
  pr_agents :: "json list"
  pr_workflows :: "palette_workflow list"
  pr_sessions :: "json list"

definition EMPTY_RESULTS :: PaletteResults where
  "EMPTY_RESULTS = \<lparr>pr_agents = [], pr_workflows = [], pr_sessions = []\<rparr>"

definition MAX_PER_SECTION :: nat where "MAX_PER_SECTION = 5"

definition fuzzyScore :: "(string \<Rightarrow> string) \<Rightarrow> string \<Rightarrow> string \<Rightarrow> int" where
  "fuzzyScore lower query target =
     (if query = [] then 0
      else (let t = lower target; q = lower query
            in if t = q then 1000
               else if starts_with t q then 800
               else (case sub_index t q of Some idx \<Rightarrow> 500 - int idx | None \<Rightarrow> -1)))"

definition haystack :: "palette_workflow \<Rightarrow> string" where
  "haystack w = pw_name w @ '' '' @ (case pw_slug w of Some s \<Rightarrow> s | None \<Rightarrow> [])
     @ '' '' @ (case pw_description w of Some d \<Rightarrow> d | None \<Rightarrow> [])"

definition rank_workflows :: "(string \<Rightarrow> string) \<Rightarrow> string \<Rightarrow> palette_workflow list \<Rightarrow> palette_workflow list" where
  "rank_workflows lower trimmed ws =
     map fst (take MAX_PER_SECTION (js_sort (\<lambda>a b. snd b - snd a)
       (filter (\<lambda>r. 0 < snd r) (map (\<lambda>w. (w, fuzzyScore lower trimmed (haystack w))) ws))))"

text \<open>
  The hook's state, the counter of requests, the debounce timer that runs (the request it is for
  and its query), and the requests that are out.
\<close>

record palette =
  pl_loading :: bool
  pl_results :: PaletteResults
  pl_error :: "string option"
  pl_reqId :: nat
  pl_timer :: "(nat \<times> string) option"
  pl_out :: "(nat \<times> string) list"

definition newPalette :: palette where
  "newPalette = \<lparr>pl_loading = False, pl_results = EMPTY_RESULTS, pl_error = None, pl_reqId = 0, pl_timer = None, pl_out = []\<rparr>"

text \<open>A new query or switch: the clean-up stops the timer, then the effect runs.\<close>

definition palette_query :: "string \<Rightarrow> bool \<Rightarrow> palette \<Rightarrow> palette" where
  "palette_query query enabled p =
     (let p' = p\<lparr>pl_timer := None\<rparr>; trimmed = trim_space query
      in if \<not> enabled then p'
         else if trimmed = [] then p'\<lparr>pl_loading := False, pl_results := EMPTY_RESULTS, pl_error := None\<rparr>
         else p'\<lparr>pl_reqId := pl_reqId p + 1, pl_timer := Some (pl_reqId p + 1, trimmed)\<rparr>)"

definition palette_timer :: "palette \<Rightarrow> palette" where
  "palette_timer p =
     (case pl_timer p of
        None \<Rightarrow> p
      | Some r \<Rightarrow> p\<lparr>pl_loading := True, pl_error := None, pl_timer := None, pl_out := pl_out p @ [r]\<rparr>)"

text \<open>The three answers; each that failed is empty. An answer of the wrong shape throws.\<close>

definition palette_answer ::
  "(string \<Rightarrow> string) \<Rightarrow> nat \<Rightarrow> string option + json list \<times> palette_workflow list \<times> json list \<Rightarrow> palette \<Rightarrow> palette" where
  "palette_answer lower myReq result p =
     (case mget (pl_out p) myReq of
        None \<Rightarrow> p
      | Some trimmed \<Rightarrow>
          let p' = p\<lparr>pl_out := mdelete myReq (pl_out p)\<rparr>
          in if myReq \<noteq> pl_reqId p then p'
             else (case result of
                     Inr (as, ws, hs) \<Rightarrow>
                       p'\<lparr>pl_loading := False,
                          pl_results := \<lparr>pr_agents = take MAX_PER_SECTION as, pr_workflows = rank_workflows lower trimmed ws,
                             pr_sessions = take MAX_PER_SECTION hs\<rparr>, pl_error := None\<rparr>
                   | Inl err \<Rightarrow>
                       p'\<lparr>pl_loading := False, pl_results := EMPTY_RESULTS,
                          pl_error := Some (case err of Some m \<Rightarrow> m | None \<Rightarrow> ''Search failed'')\<rparr>))"

section \<open>What holds\<close>

datatype palette_event =
    PaletteQuery string bool | PaletteTimer
  | PaletteAnswer nat "string option + json list \<times> palette_workflow list \<times> json list"

fun palette_step :: "(string \<Rightarrow> string) \<Rightarrow> palette \<Rightarrow> palette_event \<Rightarrow> palette" where
  "palette_step lower p (PaletteQuery q e) = palette_query q e p"
| "palette_step lower p PaletteTimer = palette_timer p"
| "palette_step lower p (PaletteAnswer r x) = palette_answer lower r x p"

definition sections_short :: "palette \<Rightarrow> bool" where
  "sections_short p \<longleftrightarrow> length (pr_agents (pl_results p)) \<le> MAX_PER_SECTION \<and>
     length (pr_workflows (pl_results p)) \<le> MAX_PER_SECTION \<and> length (pr_sessions (pl_results p)) \<le> MAX_PER_SECTION"

interpretation palette_sections: machine "palette_step lower" sections_short for lower
proof
  show "sections_short (palette_step lower p e)" if "sections_short p" for p e
    using that
    by (cases e)
      (auto simp: sections_short_def palette_query_def palette_timer_def palette_answer_def rank_workflows_def
        EMPTY_RESULTS_def Let_def split: option.split sum.split)
qed

lemma sections_stay_short: "sections_short (foldl (palette_step lower) newPalette es)"
  by (rule palette_sections.run_good) (simp add: sections_short_def newPalette_def EMPTY_RESULTS_def)

text \<open>
  Emptying the query does not discard the request that is out: its answer is taken, and the
  palette shows results for a query that is not there any more. For a query that was replaced by
  another, the answer is ignored.
\<close>

theorem emptied_query_shows_results:
  "pl_results (foldl (palette_step lower) newPalette
      [PaletteQuery ''a'' True, PaletteTimer, PaletteQuery [] True, PaletteAnswer 1 (Inr ([JStr ''agent''], [], []))])
     = \<lparr>pr_agents = [JStr ''agent''], pr_workflows = [], pr_sessions = []\<rparr> \<and>
   pl_results (foldl (palette_step lower) newPalette
      [PaletteQuery ''a'' True, PaletteTimer, PaletteQuery ''b'' True, PaletteAnswer 1 (Inr ([JStr ''agent''], [], []))])
     = EMPTY_RESULTS"
  by (simp add: palette_query_def palette_timer_def palette_answer_def newPalette_def EMPTY_RESULTS_def trim_space_def
      js_space_def rank_workflows_def js_sort_def MAX_PER_SECTION_def)

end
