(* ===== verification/PaletteKeys.thy ===== *)
theory PaletteKeys
  imports Palette LiveEvents ChatText ChatHighlight
begin

text \<open>
  The command palette itself (\<open>features/command-palette/command-palette.tsx\<close>): the row that is active, the keys, the rows
  that are drawn with their marked text, and where a row leads.
\<close>

datatype palette_action = OpenAgent json | OpenWorkflow palette_workflow | OpenSession json

record command_palette =
  cd_open :: bool
  cd_query :: string
  cd_active :: int
  cd_results :: palette

definition newCommandPalette :: command_palette where
  "newCommandPalette = \<lparr>cd_open = False, cd_query = [], cd_active = 0, cd_results = newPalette\<rparr>"

text \<open>\<open>flatten\<close>: the hits in the order of the sections, each with its key.\<close>

definition json_id :: "string \<Rightarrow> json \<Rightarrow> string" where
  "json_id k v = (case jstr (jget v k) of Some s \<Rightarrow> s | None \<Rightarrow> ''undefined'')"

definition flatten_results :: "PaletteResults \<Rightarrow> (string \<times> palette_action) list" where
  "flatten_results r =
     map (\<lambda>a. (''a:'' @ json_id ''id'' a, OpenAgent a)) (pr_agents r)
     @ map (\<lambda>w. (''w:'' @ pw_id w, OpenWorkflow w)) (pr_workflows r)
     @ map (\<lambda>h. (''s:'' @ json_id ''message_id'' h, OpenSession h)) (pr_sessions r)"

fun executeAction :: "palette_action \<Rightarrow> string" where
  "executeAction (OpenAgent a) = route_agentChat (json_id ''id'' a) None"
| "executeAction (OpenWorkflow w) = route_workflowDetail (pw_id w)"
| "executeAction (OpenSession h) = route_agentChat (json_id ''agent_id'' h) (jstr (jget h ''session_id''))"

text \<open>The texts of a row: title, subtitle, and the line at its end; \<open>passed\<close> is the time since a date, the dot no byte.\<close>

fun hit_title :: "palette_action \<Rightarrow> string" where
  "hit_title (OpenAgent a) = json_id ''name'' a"
| "hit_title (OpenWorkflow w) = pw_name w"
| "hit_title (OpenSession h) = (case jstr (jget h ''session_title'') of Some t \<Rightarrow> t | None \<Rightarrow> ''(untitled session)'')"

fun hit_subtitle :: "palette_action \<Rightarrow> string option" where
  "hit_subtitle (OpenAgent a) = jstr (jget a ''description'')"
| "hit_subtitle (OpenWorkflow w) = pw_description w"
| "hit_subtitle (OpenSession h) = jstr (jget h ''snippet'')"

fun hit_meta :: "string \<Rightarrow> (string \<Rightarrow> string) \<Rightarrow> palette_action \<Rightarrow> string option" where
  "hit_meta dot passed (OpenSession h) =
     Some (json_id ''agent_name'' h @ '' '' @ dot @ '' '' @ passed (json_id ''created_at'' h))"
| "hit_meta dot passed _ = None"

text \<open>The rows as they are drawn, with the counter that goes through the sections.\<close>

record result_row =
  rr_key :: string
  rr_idx :: nat
  rr_active :: bool
  rr_action :: palette_action

fun number_rows :: "int \<Rightarrow> nat \<Rightarrow> (string \<times> palette_action) list \<Rightarrow> result_row list" where
  "number_rows active cursor [] = []"
| "number_rows active cursor ((k, a) # xs) =
     \<lparr>rr_key = k, rr_idx = cursor, rr_active = (int cursor = active), rr_action = a\<rparr> # number_rows active (cursor + 1) xs"

definition result_groups :: "int \<Rightarrow> PaletteResults \<Rightarrow> result_row list list" where
  "result_groups active r =
     (let as = map (\<lambda>a. (''a:'' @ json_id ''id'' a, OpenAgent a)) (pr_agents r);
          ws = map (\<lambda>w. (''w:'' @ pw_id w, OpenWorkflow w)) (pr_workflows r);
          ss = map (\<lambda>h. (''s:'' @ json_id ''message_id'' h, OpenSession h)) (pr_sessions r)
      in [number_rows active 0 as, number_rows active (length as) ws, number_rows active (length as + length ws) ss])"

section \<open>Opening, typing and keys\<close>

definition open_palette :: "bool \<Rightarrow> command_palette \<Rightarrow> command_palette" where
  "open_palette on c =
     (let r = palette_query (if on then [] else cd_query c) on (palette_query (cd_query c) on (cd_results c))
      in if on then c\<lparr>cd_open := True, cd_query := [], cd_active := 0, cd_results := r\<rparr>
         else c\<lparr>cd_open := False, cd_results := palette_query (cd_query c) False (cd_results c)\<rparr>)"

definition type_query :: "string \<Rightarrow> command_palette \<Rightarrow> command_palette" where
  "type_query q c =
     (if q = cd_query c then c
      else c\<lparr>cd_query := q, cd_active := 0, cd_results := palette_query q (cd_open c) (cd_results c)\<rparr>)"

definition hover_row :: "nat \<Rightarrow> command_palette \<Rightarrow> command_palette" where
  "hover_row i c = c\<lparr>cd_active := int i\<rparr>"

datatype palette_key = PaletteEscape | PaletteDown | PaletteUp | PaletteEnter

text \<open>A key: where to go, if anywhere, and the palette; a choice closes it. A negative index names no element.\<close>

definition palette_key_down :: "palette_key \<Rightarrow> command_palette \<Rightarrow> string option \<times> command_palette" where
  "palette_key_down k c =
     (let flat = flatten_results (pl_results (cd_results c))
      in if \<not> cd_open c then (None, c)
         else case k of
                PaletteEscape \<Rightarrow> (None, open_palette False c)
              | PaletteDown \<Rightarrow> (None, c\<lparr>cd_active := min (int (length flat) - 1) (cd_active c + 1)\<rparr>)
              | PaletteUp \<Rightarrow> (None, c\<lparr>cd_active := max 0 (cd_active c - 1)\<rparr>)
              | PaletteEnter \<Rightarrow>
                  (if 0 \<le> cd_active c \<and> cd_active c < int (length flat)
                   then (Some (executeAction (snd (flat ! nat (cd_active c)))), open_palette False c) else (None, c)))"

text \<open>A click on the row with an index.\<close>

definition click_row :: "nat \<Rightarrow> command_palette \<Rightarrow> string option \<times> command_palette" where
  "click_row i c =
     (let flat = flatten_results (pl_results (cd_results c))
      in if i < length flat then (Some (executeAction (snd (flat ! i))), open_palette False c) else (None, c))"

text \<open>The marked text: what is before the mark, in it, and after it; or the text alone.\<close>

definition highlight_hit :: "(string \<Rightarrow> string) \<Rightarrow> string \<Rightarrow> string \<Rightarrow> string \<times> string \<times> string" where
  "highlight_hit lower s query =
     (if query = [] then (s, [], [])
      else (let q = lower query
            in case sub_index (lower s) q of
                 None \<Rightarrow> (s, [], [])
               | Some i \<Rightarrow> (take i s, take (length q) (drop i s), drop (i + length q) s)))"

text \<open>\<open>relativeTime\<close> of the milliseconds that have passed.\<close>

definition hit_time :: "int \<Rightarrow> string" where
  "hit_time ms =
     (let minutes = ms div 60000; h = minutes div 60; d = h div 24; mo = d div 30
      in if minutes < 1 then ''just now''
         else if minutes < 60 then int_string minutes @ ''m ago''
         else if h < 24 then int_string h @ ''h ago''
         else if d < 30 then int_string d @ ''d ago''
         else if mo < 12 then int_string mo @ ''mo ago'' else int_string (mo div 12) @ ''y ago'')"

section \<open>What holds\<close>

lemma number_rows_append:
  "number_rows active n (xs @ ys) = number_rows active n xs @ number_rows active (n + length xs) ys"
  by (induction active n xs rule: number_rows.induct) auto

lemma number_rows_nth:
  "i < length xs \<Longrightarrow> number_rows active n xs ! i =
     \<lparr>rr_key = fst (xs ! i), rr_idx = n + i, rr_active = (int (n + i) = active), rr_action = snd (xs ! i)\<rparr>"
proof (induction active n xs arbitrary: i rule: number_rows.induct)
  case (2 active cursor k a xs)
  then show ?case by (cases i) auto
qed simp

lemma number_rows_length [simp]: "length (number_rows active n xs) = length xs"
  by (induction active n xs rule: number_rows.induct) auto

lemma rows_are_flat: "concat (result_groups active r) = number_rows active 0 (flatten_results r)"
  by (simp add: result_groups_def flatten_results_def Let_def number_rows_append)



text \<open>The marked text is the text: nothing is lost or repeated around the mark, whatever lower case does to lengths.\<close>

lemma highlight_joins: "(case highlight_hit lower s q of (a, m, b) \<Rightarrow> a @ m @ b) = s"
proof -
  have "take i s @ take n (drop i s) @ drop (i + n) s = s" for i n
    by (metis append_take_drop_id drop_drop add.commute)
  then show ?thesis by (simp add: highlight_hit_def Let_def split: option.split)
qed

text \<open>
  While a new query waits for its debounce and its answer, the hits of the previous one stay, with the first of them active:
  Enter leads to a hit that does not fit what is typed.
\<close>

lemma enter_opens_previous_hit:
  assumes "cd_open c" and "flatten_results (pl_results (cd_results c)) = (k, a) # rest" and "q \<noteq> cd_query c" and "trim_space q \<noteq> []"
  shows "fst (palette_key_down PaletteEnter (type_query q c)) = Some (executeAction a)"
  using assms by (simp add: type_query_def palette_key_down_def palette_query_def Let_def)

text \<open>The arrow down in an empty list makes the index negative; when hits come, none of them is active.\<close>

lemma down_on_nothing:
  assumes "cd_open c" and "flatten_results (pl_results (cd_results c)) = []" and "0 \<le> cd_active c"
  shows "let c1 = snd (palette_key_down PaletteDown c); c2 = c1\<lparr>cd_results := r\<rparr>
         in filter rr_active (concat (result_groups (cd_active c2) (pl_results (cd_results c2)))) = [] \<and>
            fst (palette_key_down PaletteEnter c2) = None"
proof -
  have "filter rr_active (number_rows (-1) n xs) = []" for n xs
    by (induction "-1 :: int" n xs rule: number_rows.induct) auto
  then show ?thesis using assms by (simp add: Let_def palette_key_down_def rows_are_flat)
qed

end
