(* ===== verification/Assembly.thy ===== *)
theory Assembly
  imports ChatBlocksProps
begin

text \<open>
  How an answer is saved: the supervisor assembles the chunks of a stream into blocks
  (\<open>agent-supervisor/app/assembly.py\<close>, \<open>stream_service.py\<close>) and the API saves them with the message
  (\<open>api/app/services/stream/manager.py\<close>). The chunks are the events that the browser gets, so they are its
  messages here. What a reload restores of them is compared with what the browser showed while it streamed.
\<close>

section \<open>Rebuilding the blocks\<close>

definition MAX_TOOL_RESULT_BYTES :: nat where "MAX_TOOL_RESULT_BYTES = 10240"

definition truncate_tool_result :: "string \<Rightarrow> string" where
  "truncate_tool_result content =
     (if length content > MAX_TOOL_RESULT_BYTES
      then take MAX_TOOL_RESULT_BYTES content @ [CHR 0x0A] @ ''... (truncated)'' else content)"

type_synonym tool_results = "(string, string \<times> bool) jmap"

fun attach_result :: "tool_results \<Rightarrow> json \<Rightarrow> json" where
  "attach_result results (JObj block) =
     (case (jget (JObj block) ''type'' = Some (JStr ''tool_call''), jstr (jget (JObj block) ''tool_use_id'')) of
        (True, Some tid) \<Rightarrow>
          (case (if tid = [] then None else mget results tid) of
             None \<Rightarrow> JObj block
           | Some (content, is_error) \<Rightarrow>
               let block' = mput ''result'' (JStr content) block
               in JObj (if is_error then mput ''is_error'' (JBool True) block' else block'))
      | _ \<Rightarrow> JObj block)"
| "attach_result results v = v"

definition attach_tool_results :: "json list \<Rightarrow> tool_results \<Rightarrow> json list" where
  "attach_tool_results blocks results = map (attach_result results) blocks"

record assembly =
  asm_full_text :: string
  asm_blocks :: "json list"
  asm_thinking :: string
  asm_text :: string
  asm_results :: tool_results

definition newAssembly :: assembly where
  "newAssembly = \<lparr>asm_full_text = [], asm_blocks = [], asm_thinking = [], asm_text = [], asm_results = []\<rparr>"

text \<open>White space for \<open>str.strip()\<close>, of the code points below 256.\<close>

definition py_space :: "char \<Rightarrow> bool" where
  "py_space c \<longleftrightarrow> of_char c \<in> {9, 10, 11, 12, 13, 28, 29, 30, 31, 32, 133, 160 :: nat}"

definition content_block :: "string \<Rightarrow> string \<Rightarrow> json list" where
  "content_block type content =
     (if list_all py_space content then [] else [JObj [(''type'', JStr type), (''content'', JStr content)]])"

text \<open>The thinking before the text, whichever came first.\<close>

definition flushed :: "assembly \<Rightarrow> json list" where
  "flushed a = asm_blocks a @ content_block ''thinking'' (asm_thinking a) @ content_block ''text'' (asm_text a)"

definition tool_json :: "string \<Rightarrow> json \<Rightarrow> string option \<Rightarrow> string option \<Rightarrow> (string \<times> json) list" where
  "tool_json name input tid parent =
     [(''type'', JStr ''tool_call''), (''name'', JStr name), (''input'', input),
      (''tool_use_id'', case tid of Some i \<Rightarrow> JStr i | None \<Rightarrow> JNull)]
     @ (if truthy parent then [(''parent_tool_use_id'', JStr (the parent))] else [])"

fun rebuild_step :: "assembly \<Rightarrow> WSMessage \<Rightarrow> assembly" where
  "rebuild_step a (WsChunk c) = a\<lparr>asm_text := asm_text a @ c, asm_full_text := asm_full_text a @ c\<rparr>"
| "rebuild_step a (WsThinking c) = a\<lparr>asm_thinking := asm_thinking a @ c\<rparr>"
| "rebuild_step a (WsToolUse name input tid parent) =
     a\<lparr>asm_blocks := flushed a @ [JObj (tool_json name input tid parent)], asm_thinking := [], asm_text := []\<rparr>"
| "rebuild_step a (WsToolResult tid content err parent) =
     (if tid = [] then a
      else a\<lparr>asm_results := mput tid (truncate_tool_result content, err = Some True) (asm_results a)\<rparr>)"
| "rebuild_step a m = a"

definition rebuild_blocks_from_chunks :: "WSMessage list \<Rightarrow> string \<times> json list" where
  "rebuild_blocks_from_chunks chunks =
     (let a = foldl rebuild_step newAssembly chunks
      in (asm_full_text a, attach_tool_results (flushed a) (asm_results a)))"

text \<open>The events of sub-agents, which wait under the id of the call: their calls go to the end.\<close>

fun extra_block :: "WSMessage \<Rightarrow> json list" where
  "extra_block (WsToolUse name input tid parent) =
     [JObj [(''type'', JStr ''tool_call''), (''name'', JStr name), (''input'', input),
        (''tool_use_id'', case tid of Some i \<Rightarrow> JStr i | None \<Rightarrow> JNull),
        (''parent_tool_use_id'', case parent of Some i \<Rightarrow> JStr i | None \<Rightarrow> JNull)]]"
| "extra_block m = []"

fun extra_result :: "tool_results \<Rightarrow> WSMessage \<Rightarrow> tool_results" where
  "extra_result r (WsToolResult tid content err parent) = (if tid = [] then r else mput tid (content, err = Some True) r)"
| "extra_result r m = r"

definition a2a_call :: "json \<Rightarrow> string option" where
  "a2a_call block =
     (if jget block ''type'' = Some (JStr ''tool_call'') \<and>
         (case jstr (jget block ''name'') of Some n \<Rightarrow> starts_with n ''mcp__system__a2a_'' | None \<Rightarrow> False)
      then (case jstr (jget block ''tool_use_id'') of Some i \<Rightarrow> if i = [] then None else Some i | None \<Rightarrow> None) else None)"

definition merge_a2a_events :: "(string \<Rightarrow> WSMessage list) \<Rightarrow> json list \<Rightarrow> json list" where
  "merge_a2a_events waiting blocks =
     (let events = concat (map (\<lambda>b. case a2a_call b of Some i \<Rightarrow> waiting i | None \<Rightarrow> []) blocks);
          extra = concat (map extra_block events)
      in blocks @ attach_tool_results extra (foldl extra_result [] events))"

section \<open>The end of a stream\<close>

datatype ended_as = StreamComplete | StreamAborted | StreamError string

definition end_stream :: "(string \<Rightarrow> WSMessage list) \<Rightarrow> WSMessage list \<Rightarrow> ended_as \<Rightarrow> string \<times> json list" where
  "end_stream waiting chunks ended =
     (let (assembled_text, assembled_blocks) = rebuild_blocks_from_chunks chunks;
          merged = merge_a2a_events waiting assembled_blocks
      in (assembled_text, merged @ (case ended of StreamError e \<Rightarrow> [JObj [(''type'', JStr ''error''), (''message'', JStr e)]] | _ \<Rightarrow> [])))"

text \<open>\<open>_persist_and_broadcast\<close>: the content and the metadata of the message that is saved.\<close>

definition persisted :: "ended_as \<Rightarrow> string \<Rightarrow> json list \<Rightarrow> string \<times> (string \<times> json) list" where
  "persisted ended full_response blocks_meta =
     (if full_response \<noteq> [] then full_response
      else (case ended of StreamAborted \<Rightarrow> ''[Cancelled]'' | StreamError e \<Rightarrow> if e \<noteq> [] then e else ''[Error]'' | StreamComplete \<Rightarrow> []),
      (if blocks_meta \<noteq> [] then [(''blocks'', JArr blocks_meta)] else [])
      @ (case ended of StreamAborted \<Rightarrow> [(''cancelled'', JBool True)] | StreamError e \<Rightarrow> [(''error'', JBool True)] | StreamComplete \<Rightarrow> []))"

section \<open>What is saved is what was shown\<close>

text \<open>
  A stream that the two sides read alike: in the text between two tool calls no thinking follows a chunk, calls have
  ids of their own and come before their results, and results are short enough to be kept. \<open>plain\<close> are the
  characters on whose being blank JavaScript and Python agree.
\<close>

definition plain :: "string \<Rightarrow> bool" where
  "plain s \<longleftrightarrow> list_all (\<lambda>c. of_char c \<notin> {28, 29, 30, 31, 133 :: nat}) s"

fun read_alike :: "bool \<Rightarrow> string list \<Rightarrow> WSMessage list \<Rightarrow> bool" where
  "read_alike text_seen ids [] = True"
| "read_alike text_seen ids (m # ms) =
     (case m of
        WsChunk c \<Rightarrow> plain c \<and> read_alike True ids ms
      | WsThinking c \<Rightarrow> plain c \<and> \<not> text_seen \<and> read_alike False ids ms
      | WsToolUse n v i p \<Rightarrow> truthy i \<and> the i \<notin> set ids \<and> read_alike False (the i # ids) ms
      | WsToolResult i c e p \<Rightarrow> i \<noteq> [] \<and> length c \<le> MAX_TOOL_RESULT_BYTES \<and> read_alike text_seen (i # ids) ms
      | _ \<Rightarrow> read_alike text_seen ids ms)"

lemma plain_blank: "plain s \<Longrightarrow> list_all py_space s = list_all js_space s"
  by (induction s) (auto simp: plain_def py_space_def js_space_def)

lemma plain_append: "plain (s @ t) \<longleftrightarrow> plain s \<and> plain t"
  by (simp add: plain_def)

text \<open>A saved block before its result is attached, and the block on the screen.\<close>

fun same_block :: "tool_results \<Rightarrow> json \<Rightarrow> StreamBlock \<Rightarrow> bool" where
  "same_block r b (ToolCall t) \<longleftrightarrow> truthy (Some (tc_id t)) \<and>
     b = JObj (tool_json (tc_name t) (tc_input t) (Some (tc_id t)) (tc_parent t)) \<and>
     (case mget r (tc_id t) of None \<Rightarrow> tc_result t = None \<and> tc_is_error t = None
      | Some (c, e) \<Rightarrow> tc_result t = Some c \<and> e = (tc_is_error t = Some True))"
| "same_block r b (TextBlock i c) \<longleftrightarrow> b = JObj [(''type'', JStr ''text''), (''content'', JStr c)]"
| "same_block r b (ThinkingBlock i c) \<longleftrightarrow> b = JObj [(''type'', JStr ''thinking''), (''content'', JStr c)]"
| "same_block r b (ErrorBlock i c) \<longleftrightarrow> False"

lemma attached_fields:
  "same_block r b c \<Longrightarrow> jget (attach_result r b) = jget (block_meta c)"
  by (cases c) (auto simp: fun_eq_iff tool_json_def Let_def split: option.splits)


lemma same_complete [simp]: "same_block r b (complete_tool c) = same_block r b c"
  by (cases c) (simp_all split: option.split)

lemma same_elapsed [simp]: "same_block r b (set_elapsed i n c) = same_block r b c"
  by (cases c) (simp_all split: option.split)

lemma worth_kept [simp]:
  "worth_saving (complete_tool c) = worth_saving c" "worth_saving (set_elapsed i n c) = worth_saving c"
  "worth_saving (set_result i x e c) = worth_saving c"
  by (cases c; simp)+

lemma same_result: "same_block r b c \<Longrightarrow> same_block (mput i (x, e = Some True) r) b (set_result i x e c)"
  by (cases c) (auto simp: mget_mput)

text \<open>
  The state of the assembly follows the blocks of the browser: those up to the last tool call, then what is pending,
  thinking before text.
\<close>

definition pending_alike :: "bool \<Rightarrow> assembly \<Rightarrow> StreamBlock list \<Rightarrow> StreamBlock list \<Rightarrow> bool" where
  "pending_alike text_seen a hs ts \<longleftrightarrow>
     (hs = [] \<and> asm_thinking a = [] \<or> (\<exists>i. hs = [ThinkingBlock i (asm_thinking a)])) \<and>
     (ts = [] \<and> asm_text a = [] \<or> text_seen \<and> (\<exists>i. ts = [TextBlock i (asm_text a)])) \<and>
     plain (asm_thinking a) \<and> plain (asm_text a)"

definition settled_alike :: "string list \<Rightarrow> assembly \<Rightarrow> StreamBlock list \<Rightarrow> bool" where
  "settled_alike ids a D \<longleftrightarrow>
     (D = [] \<or> (\<exists>t. last D = ToolCall t)) \<and>
     list_all2 (same_block (asm_results a)) (asm_blocks a) (filter worth_saving D) \<and>
     set (tool_ids_of D) \<subseteq> set ids \<and> fst ` set (asm_results a) \<subseteq> set ids"

definition follows :: "bool \<Rightarrow> string list \<Rightarrow> assembly \<Rightarrow> StreamBlock list \<Rightarrow> bool" where
  "follows text_seen ids a bs \<longleftrightarrow>
     (\<exists>D hs ts. bs = D @ hs @ ts \<and> settled_alike ids a D \<and> pending_alike text_seen a hs ts)"

lemma flushed_alike:
  assumes "follows text_seen ids a bs"
  shows "list_all2 (same_block (asm_results a)) (flushed a) (filter worth_saving bs)"
proof -
  obtain D hs ts where bs: "bs = D @ hs @ ts" "settled_alike ids a D" "pending_alike text_seen a hs ts"
    using assms by (auto simp: follows_def)
  have part: "list_all2 (same_block r) (content_block ''thinking'' (asm_thinking a)) (filter worth_saving hs) \<and>
      list_all2 (same_block r) (content_block ''text'' (asm_text a)) (filter worth_saving ts)" for r
    using bs(3) by (auto simp: pending_alike_def content_block_def plain_blank)
  with bs show ?thesis by (auto simp: flushed_def settled_alike_def intro!: list_all2_appendI)
qed

lemma map_last: "D = [] \<or> (\<exists>t. last D = ToolCall t) \<Longrightarrow> (\<And>t. \<exists>u. f (ToolCall t) = ToolCall u) \<Longrightarrow>
  map f D = [] \<or> (\<exists>t. last (map f D) = ToolCall t)"
  by (cases "D = []") (auto simp: last_map)

lemma filter_worth_map: "(\<And>c. worth_saving (f c) = worth_saving c) \<Longrightarrow> filter worth_saving (map f D) = map f (filter worth_saving D)"
  by (induction D) auto

lemma settled_map:
  assumes "settled_alike ids a D"
    and "\<And>t. \<exists>u. f (ToolCall t) = ToolCall u \<and> tc_id u = tc_id t"
    and "\<And>c. worth_saving (f c) = worth_saving c" and "\<And>b c. same_block (asm_results a) b c \<Longrightarrow> same_block (asm_results a') b (f c)"
    and "asm_blocks a' = asm_blocks a" and "fst ` set (asm_results a') \<subseteq> set ids'" and "set ids \<subseteq> set ids'"
    and "\<And>c. tools [f c] = [] \<longleftrightarrow> tools [c] = []"
  shows "settled_alike ids' a' (map f D)"
proof -
  have "tool_ids_of (map f D) = tool_ids_of D"
  proof (induction D)
    case (Cons c D)
    show ?case
    proof (cases c)
      case (ToolCall t)
      then show ?thesis using Cons assms(2) [of t] by auto
    qed (use Cons assms(8) [of c] in \<open>cases "f c"; simp\<close>)+
  qed simp
  moreover have "list_all2 (same_block (asm_results a')) (asm_blocks a') (filter worth_saving (map f D))"
    unfolding filter_worth_map [OF assms(3)] list_all2_map2 assms(5)
    by (rule list_all2_mono [of "same_block (asm_results a)"]) (use assms(1,4) in \<open>auto simp: settled_alike_def\<close>)
  moreover have "map f D = [] \<or> (\<exists>t. last (map f D) = ToolCall t)"
    using map_last [of D f] assms(1,2) unfolding settled_alike_def by metis
  ultimately show ?thesis using assms(1,6,7) by (auto simp: settled_alike_def)
qed

text \<open>One message: the assembly takes a step, and the blocks of the browser another.\<close>

fun next_seen :: "bool \<Rightarrow> WSMessage \<Rightarrow> bool" where
  "next_seen seen (WsChunk c) = True"
| "next_seen seen (WsThinking c) = False"
| "next_seen seen (WsToolUse n v i p) = False"
| "next_seen seen m = seen"

fun next_ids :: "string list \<Rightarrow> WSMessage \<Rightarrow> string list" where
  "next_ids ids (WsToolUse n v i p) = the i # ids"
| "next_ids ids (WsToolResult i c e p) = i # ids"
| "next_ids ids m = ids"

definition blocks_step :: "string \<Rightarrow> string \<Rightarrow> WSMessage \<Rightarrow> StreamBlock list \<Rightarrow> StreamBlock list" where
  "blocks_step clock rand m bs =
     (case m of WsThinking c \<Rightarrow> add_thinking clock rand c bs
      | WsChunk c \<Rightarrow> add_text clock rand c bs
      | WsToolUse n i t p \<Rightarrow> bs @ [ToolCall (new_tool clock n i t p)]
      | WsToolResult i c e p \<Rightarrow> map (set_result i c e) bs
      | WsToolProgress i n p x \<Rightarrow> map (set_elapsed i x) bs
      | _ \<Rightarrow> bs)"

lemma pending_text:
  assumes "pending_alike seen a hs ts" "D = [] \<or> (\<exists>t. last D = ToolCall t)" "plain c"
  shows "\<exists>ts'. add_text clock rand c (D @ hs @ ts) = map complete_tool D @ hs @ ts' \<and>
    pending_alike True (rebuild_step a (WsChunk c)) hs ts'"
proof -
  have hs: "map complete_tool hs = hs" using assms(1) by (auto simp: pending_alike_def)
  show ?thesis
  proof (cases "ts = []")
    case True
    have "last (map complete_tool (D @ hs)) \<noteq> TextBlock i x" if "D @ hs \<noteq> []" for i x
    proof (cases "hs = []")
      case True
      with that assms(2) obtain t where "D \<noteq> []" "last D = ToolCall t" by auto
      with True show ?thesis by (simp add: last_map)
    qed (use assms(1) in \<open>auto simp: pending_alike_def\<close>)
    then have "add_text clock rand c (D @ hs) = map complete_tool (D @ hs) @ [TextBlock (''text-'' @ clock @ ''-'' @ rand) c]"
      by (cases "D @ hs" rule: rev_cases) (auto simp: add_text_def Let_def split: StreamBlock.splits)
    with True hs assms show ?thesis by (auto simp: pending_alike_def)
  next
    case False
    then obtain i where "ts = [TextBlock i (asm_text a)]" using assms(1) by (auto simp: pending_alike_def)
    with hs assms show ?thesis by (auto simp: pending_alike_def add_text_def Let_def plain_append butlast_append)
  qed
qed

lemma pending_thinking:
  assumes "pending_alike False a hs ts" "D = [] \<or> (\<exists>t. last D = ToolCall t)" "plain c"
  shows "\<exists>hs'. add_thinking clock rand c (D @ hs @ ts) = D @ hs' \<and>
    pending_alike False (rebuild_step a (WsThinking c)) hs' []"
proof -
  have ts: "ts = []" "asm_text a = []" using assms(1) by (auto simp: pending_alike_def)
  show ?thesis
  proof (cases "hs = []")
    case True
    have "D = [] \<or> (\<exists>t ys. D = ys @ [ToolCall t])" using assms(2) by (metis append_butlast_last_id)
    then have "add_thinking clock rand c D = D @ [ThinkingBlock (''thinking-'' @ clock @ ''-'' @ rand) c]"
      by (auto simp: add_thinking_def)
    with True ts assms show ?thesis by (auto simp: pending_alike_def)
  next
    case False
    then obtain i where "hs = [ThinkingBlock i (asm_thinking a)]" using assms(1) by (auto simp: pending_alike_def)
    with ts assms show ?thesis by (auto simp: pending_alike_def add_thinking_def plain_append butlast_append)
  qed
qed

lemma settled_complete:
  "settled_alike ids a D \<Longrightarrow> settled_alike ids (a\<lparr>asm_text := t, asm_full_text := f, asm_thinking := h\<rparr>) (map complete_tool D)"
proof (rule settled_map [where f = complete_tool and ids = ids and ids' = ids and a = a])
  show "\<exists>u. complete_tool (ToolCall t) = ToolCall u \<and> tc_id u = tc_id t" for t by simp
  show "tools [complete_tool c] = [] \<longleftrightarrow> tools [c] = []" for c by (cases c) simp_all
qed (simp_all add: settled_alike_def)

lemma mput_ids: "fst ` set (mput k v m) \<subseteq> insert k (fst ` set m)"
  by (induction m) auto

lemma settled_tool:
  assumes "settled_alike ids a D" "follows seen ids a bs" "bs = D @ hs @ ts" "pending_alike seen a hs ts"
    "truthy i" "the i \<notin> set ids"
  shows "settled_alike (the i # ids) (rebuild_step a (WsToolUse n v i p)) (bs @ [ToolCall (new_tool clock n v i p)])"
proof -
  from assms(5) obtain j where i: "i = Some j" "j \<noteq> []" by (cases i) auto
  have "mget (asm_results a) j = None"
    using assms(1,6) i by (auto simp: settled_alike_def mget_None_iff)
  moreover have "tool_json n v i (if truthy p then p else None) = tool_json n v i p" by (simp add: tool_json_def)
  ultimately have "same_block (asm_results a) (JObj (tool_json n v i p)) (ToolCall (new_tool clock n v i p))"
    using i by (simp add: new_tool_def)
  moreover have "tools hs = []" "tools ts = []" using assms(4) by (auto simp: pending_alike_def)
  ultimately have "tool_ids_of bs = tool_ids_of D"
    "list_all2 (same_block (asm_results a)) (flushed a @ [JObj (tool_json n v i p)])
      (filter worth_saving (bs @ [ToolCall (new_tool clock n v i p)]))"
    using assms(3) list_all2_appendI [OF flushed_alike [OF assms(2)]] by simp_all
  then show ?thesis
    using assms(1) i by (auto simp: settled_alike_def new_tool_def)
qed

lemma follow_step:
  assumes "follows seen ids a bs" and alike: "read_alike seen ids (m # ms)"
  shows "follows (next_seen seen m) (next_ids ids m) (rebuild_step a m) (blocks_step clock rand m bs) \<and>
    read_alike (next_seen seen m) (next_ids ids m) ms"
proof -
  obtain D hs ts where bs: "bs = D @ hs @ ts" and D: "settled_alike ids a D" and P: "pending_alike seen a hs ts"
    using assms(1) by (auto simp: follows_def)
  have last: "D = [] \<or> (\<exists>t. last D = ToolCall t)" using D by (simp add: settled_alike_def)
  have kept: "map f hs = hs" "map f ts = ts"
    if "\<And>i c. f (TextBlock i c) = TextBlock i c" "\<And>i c. f (ThinkingBlock i c) = ThinkingBlock i c" for f
    using P that by (auto simp: pending_alike_def)
  show ?thesis
  proof (cases m)
    case (WsChunk c)
    then have "plain c" using alike by simp
    from pending_text [OF P last this, of clock rand] obtain ts' where
      "add_text clock rand c (D @ hs @ ts) = map complete_tool D @ hs @ ts'" "pending_alike True (rebuild_step a (WsChunk c)) hs ts'"
      by blast
    moreover have "settled_alike ids (rebuild_step a (WsChunk c)) (map complete_tool D)"
      using settled_complete [OF D, where t = "asm_text a @ c" and f = "asm_full_text a @ c" and h = "asm_thinking a"] by simp
    ultimately show ?thesis using WsChunk alike bs by (auto simp: follows_def blocks_step_def)
  next
    case (WsThinking c)
    then have c: "plain c" "\<not> seen" using alike by simp_all
    with P have "pending_alike False a hs ts" by simp
    from pending_thinking [OF this last c(1), of clock rand] obtain hs' where
      "add_thinking clock rand c (D @ hs @ ts) = D @ hs'" "pending_alike False (rebuild_step a (WsThinking c)) hs' []"
      by blast
    moreover have "settled_alike ids (rebuild_step a (WsThinking c)) D"
      using D by (simp add: settled_alike_def)
    ultimately have "follows False ids (rebuild_step a (WsThinking c)) (add_thinking clock rand c bs)"
      unfolding follows_def bs by (metis append_Nil2)
    with WsThinking alike show ?thesis by (simp add: blocks_step_def)
  next
    case (WsToolUse n v i p)
    then have i: "truthy i" "the i \<notin> set ids" using alike by simp_all
    have "pending_alike False (rebuild_step a (WsToolUse n v i p)) [] []" by (simp add: pending_alike_def plain_def)
    with settled_tool [OF D assms(1) bs P i, of n v p clock]
    have "follows False (the i # ids) (rebuild_step a (WsToolUse n v i p)) (bs @ [ToolCall (new_tool clock n v i p)])"
      unfolding follows_def by (metis append_Nil2)
    with WsToolUse alike show ?thesis by (simp add: blocks_step_def)
  next
    case (WsToolResult i c e p)
    then have i: "i \<noteq> []" "length c \<le> MAX_TOOL_RESULT_BYTES" using alike by simp_all
    let ?a = "rebuild_step a m"
    have a: "asm_results ?a = mput i (c, e = Some True) (asm_results a)" "asm_blocks ?a = asm_blocks a"
      "asm_text ?a = asm_text a" "asm_thinking ?a = asm_thinking a"
      using WsToolResult i by (simp_all add: truncate_tool_result_def)
    have "settled_alike (i # ids) ?a (map (set_result i c e) D)"
    proof (rule settled_map [OF D])
      show "\<exists>u. set_result i c e (ToolCall t) = ToolCall u \<and> tc_id u = tc_id t" for t by simp
      show "tools [set_result i c e x] = [] \<longleftrightarrow> tools [x] = []" for x by (cases x) simp_all
      show "fst ` set (asm_results ?a) \<subseteq> set (i # ids)"
        unfolding a by (rule order_trans [OF mput_ids]) (use D in \<open>auto simp: settled_alike_def\<close>)
    qed (auto simp: a same_result)
    moreover have "pending_alike seen ?a hs ts" using P by (simp add: pending_alike_def a)
    ultimately show ?thesis using WsToolResult alike bs kept [of "set_result i c e"]
      by (auto simp: follows_def blocks_step_def)
  next
    case (WsToolProgress i n p x)
    have "settled_alike ids a (map (set_elapsed i x) D)"
    proof (rule settled_map [OF D])
      show "\<exists>u. set_elapsed i x (ToolCall t) = ToolCall u \<and> tc_id u = tc_id t" for t by simp
      show "tools [set_elapsed i x c] = [] \<longleftrightarrow> tools [c] = []" for c by (cases c) simp_all
    qed (use D in \<open>auto simp: settled_alike_def\<close>)
    with WsToolProgress alike bs P kept [of "set_elapsed i x"] show ?thesis
      by (auto simp: follows_def blocks_step_def)
  qed (use assms in \<open>simp_all add: blocks_step_def\<close>)
qed

section \<open>A whole stream\<close>

fun message_of :: "stream_event \<Rightarrow> WSMessage list" where
  "message_of (Incoming clock rand m) = [m]"
| "message_of e = []"

definition messages_of :: "stream_event list \<Rightarrow> WSMessage list" where
  "messages_of es = concat (map message_of es)"

lemma run_follows:
  assumes "list_all (\<lambda>e. e \<noteq> ResetBlocks) es" "follows seen ids a (sb_blocks s)" "read_alike seen ids (messages_of es)"
  shows "\<exists>seen' ids'. follows seen' ids' (foldl rebuild_step a (messages_of es)) (sb_blocks (foldl stream_step s es))"
  using assms
proof (induction es arbitrary: seen ids a s)
  case (Cons e es)
  show ?case
  proof (cases e)
    case (Incoming clock rand m)
    have step: "sb_blocks (stream_step s e) = blocks_step clock rand m (sb_blocks s)"
      by (simp add: Incoming blocks_step_def blocks_after del: handleMessage.simps)
    have ms: "messages_of (e # es) = m # messages_of es" by (simp add: Incoming messages_of_def)
    have tail: "list_all (\<lambda>e. e \<noteq> ResetBlocks) es" using Cons.prems(1) by simp
    from follow_step [OF Cons.prems(2) Cons.prems(3) [unfolded ms], of clock rand]
    have "follows (next_seen seen m) (next_ids ids m) (rebuild_step a m) (sb_blocks (stream_step s e))"
      "read_alike (next_seen seen m) (next_ids ids m) (messages_of es)" by (simp_all only: step)
    from Cons.IH [OF tail this] show ?thesis by (simp only: ms foldl_Cons)
  next
    case Frame
    with Cons show ?thesis by (simp add: messages_of_def render_frame_def)
  qed (use Cons.prems in simp)
qed (auto simp: messages_of_def)

lemma assembled_text: "asm_full_text (foldl rebuild_step a ms) = asm_full_text a @ concat (map chunk_of ms)"
proof (induction ms arbitrary: a)
  case (Cons m ms)
  then show ?case by (cases m) simp_all
qed simp

lemma event_messages: "concat (map event_chunk es) = concat (map chunk_of (messages_of es))"
proof (induction es)
  case (Cons e es)
  then show ?case by (cases e) (simp_all add: messages_of_def)
qed (simp add: messages_of_def)


definition demo_events :: "stream_event list" where
  "demo_events = [Incoming ''1'' ''r'' (WsThinking ''hm''), Incoming ''2'' ''r'' (WsChunk ''Let me ''), Frame,
     Incoming ''3'' ''r'' (WsChunk ''look''), Incoming ''4'' ''r'' (WsToolUse ''Read'' (JObj []) (Some ''t1'') None),
     Incoming ''5'' ''r'' (WsToolResult ''t1'' ''data'' (Some False) None), Incoming ''6'' ''r'' (WsChunk ''Done'')]"


text \<open>
  Otherwise a reload changes the answer: thinking that follows text is put before it, so the text on both sides of
  it is joined to one; and a result that comes before its call shows up only after the reload.
\<close>

definition text_then_thinking :: "WSMessage list" where
  "text_then_thinking = [WsChunk ''one'', WsThinking ''hm'', WsChunk ''two'']"

lemma thinking_moves_up:
  "snd (rebuild_blocks_from_chunks text_then_thinking) =
     [JObj [(''type'', JStr ''thinking''), (''content'', JStr ''hm'')],
      JObj [(''type'', JStr ''text''), (''content'', JStr ''onetwo'')]]"
  "map saved_view (sb_blocks (foldl stream_step newStreaming (map (Incoming ''0'' ''r'') text_then_thinking))) =
     [TextBlock [] ''one'', ThinkingBlock [] ''hm'', TextBlock [] ''two'']"
  by (code_simp, code_simp)

text \<open>The results of sub-agents are saved whole, whatever their length.\<close>

lemma sub_results_kept_whole:
  "starts_with n ''mcp__system__a2a_'' \<Longrightarrow> i \<noteq> [] \<Longrightarrow> j \<noteq> [] \<Longrightarrow>
   jget (last (merge_a2a_events (\<lambda>_. [WsToolUse m v (Some j) (Some i), WsToolResult j c e (Some i)])
     [JObj (tool_json n x (Some i) None)])) ''result'' = Some (JStr c)"
  by (simp add: merge_a2a_events_def a2a_call_def tool_json_def attach_tool_results_def mget_mput Let_def)

end
