(* ===== verification/ChatCards.thy ===== *)
theory ChatCards
  imports Assembly ChatSocket ChatText ChatSession
begin

text \<open>
  A message on the screen: the bubbles of a message, its cards of tools, groups and thoughts
  (\<open>features/chat/components/message-list\<close>, \<open>components/blocks\<close>), the to-do list and code blocks; and the search of
  a session in the API (\<open>api/app/routers/sessions.py\<close>), whose hits name parts of a bubble. Lower case, \<open>JSON.stringify\<close>,
  the database's text of a JSON value and its \<open>ILIKE\<close> are parameters.
\<close>

section \<open>The search of the API\<close>

text \<open>\<open>block->>'k'\<close>: none for a missing or null field.\<close>

definition pg_field :: "(json \<Rightarrow> string) \<Rightarrow> json \<Rightarrow> string \<Rightarrow> string" where
  "pg_field pg b k = (case present (jget b k) of None \<Rightarrow> [] | Some (JStr s) \<Rightarrow> s | Some v \<Rightarrow> pg v)"

text \<open>\<open>ilike t q\<close> is \<open>t ILIKE '%q%'\<close>.\<close>

definition block_hit :: "(string \<Rightarrow> string \<Rightarrow> bool) \<Rightarrow> (json \<Rightarrow> string) \<Rightarrow> string \<Rightarrow> json \<Rightarrow> bool" where
  "block_hit ilike pg q b \<longleftrightarrow>
     ilike (pg_field pg b ''content'') q \<or> ilike (pg_field pg b ''name'') q \<or> ilike (pg_field pg b ''result'') q \<or>
     ilike (case jget b ''input'' of None \<Rightarrow> [] | Some v \<Rightarrow> pg v) q"

definition block_target :: "(json \<Rightarrow> string) \<Rightarrow> string \<Rightarrow> nat \<Rightarrow> json \<Rightarrow> string option" where
  "block_target pg mid i b =
     (if jget b ''type'' = Some (JStr ''tool_call'')
      then Some (if present (jget b ''tool_use_id'') \<noteq> None then pg_field pg b ''tool_use_id'' else mid @ ''-saved-'' @ nat_string i)
      else if jget b ''type'' = Some (JStr ''text'') then Some (mid @ ''-text-'' @ nat_string i)
      else if jget b ''type'' = Some (JStr ''thinking'') then Some (mid @ ''-thinking-'' @ nat_string i)
      else None)"

definition message_blocks :: "Message \<Rightarrow> json list option" where
  "message_blocks m = (case map_of (ms_metadata m) ''blocks'' of Some (JArr bs) \<Rightarrow> Some bs | _ \<Rightarrow> None)"

record search_row =
  sr_created :: int
  sr_block :: int
  sr_match :: BackendMatch

definition search_row_of :: "(Message \<Rightarrow> int) \<Rightarrow> Message \<Rightarrow> int \<Rightarrow> string \<Rightarrow> search_row" where
  "search_row_of created m i t =
     \<lparr>sr_created = created m, sr_block = i, sr_match = \<lparr>bm_message_id = ms_id m, bm_target_id = t\<rparr>\<rparr>"

fun block_rows ::
  "(string \<Rightarrow> string \<Rightarrow> bool) \<Rightarrow> (json \<Rightarrow> string) \<Rightarrow> (Message \<Rightarrow> int) \<Rightarrow> string \<Rightarrow> Message \<Rightarrow> nat \<times> json \<Rightarrow> search_row list" where
  "block_rows ilike pg created q m (i, b) =
     (if block_hit ilike pg q b
      then (case block_target pg (ms_id m) i b of Some t \<Rightarrow> [search_row_of created m (int i) t] | None \<Rightarrow> []) else [])"

definition block_matches ::
  "(string \<Rightarrow> string \<Rightarrow> bool) \<Rightarrow> (json \<Rightarrow> string) \<Rightarrow> (Message \<Rightarrow> int) \<Rightarrow> string \<Rightarrow> Message \<Rightarrow> search_row list" where
  "block_matches ilike pg created q m =
     (let blocks = (case message_blocks m of Some bs \<Rightarrow> bs | None \<Rightarrow> [])
      in concat (map (block_rows ilike pg created q m) (zip [0..<length blocks] blocks)))"

definition plain_matches :: "(string \<Rightarrow> string \<Rightarrow> bool) \<Rightarrow> (Message \<Rightarrow> int) \<Rightarrow> string \<Rightarrow> Message \<Rightarrow> search_row list" where
  "plain_matches ilike created q m =
     (let user = (ms_sender_type m = SentByUser)
      in if ilike (ms_content m) q \<and> (user \<or> message_blocks m = None \<or> message_blocks m = Some [])
         then [search_row_of created m (-1) (ms_id m @ (if user then ''/user'' else ''/body''))] else [])"

definition py_strip :: "string \<Rightarrow> string" where
  "py_strip s = rev (dropWhile py_space (rev (dropWhile py_space s)))"

text \<open>Rows of the same time and block are in any order in SQL; here it is that of the messages.\<close>

definition search_session_messages ::
  "(string \<Rightarrow> string \<Rightarrow> bool) \<Rightarrow> (json \<Rightarrow> string) \<Rightarrow> (Message \<Rightarrow> int) \<Rightarrow> string \<Rightarrow> Message list \<Rightarrow> BackendMatch list" where
  "search_session_messages ilike pg created query messages =
     (let q = py_strip query
      in if length q < 2 then []
         else let rows = concat (map (block_matches ilike pg created q) messages)
                @ concat (map (plain_matches ilike created q) messages)
              in take 1000 (map sr_match (rev (sort_key sr_created (sort_key sr_block rows)))))"

section \<open>Cards\<close>

text \<open>What decides on opening a card: those the user opened, by id, and the query of the search.\<close>

definition card_open :: "(string \<Rightarrow> string) \<Rightarrow> (json \<Rightarrow> string) \<Rightarrow> string set \<Rightarrow> string \<Rightarrow> ToolCallBlock \<Rightarrow> BlockTree list \<Rightarrow> bool" where
  "card_open lower stringify opened q t cs \<longleftrightarrow>
     tc_id t \<in> opened \<or> (q \<noteq> [] \<and> toolCallMatches lower stringify t cs (lower q))"

definition tree_matches :: "(string \<Rightarrow> string) \<Rightarrow> (json \<Rightarrow> string) \<Rightarrow> string \<Rightarrow> BlockTree \<Rightarrow> bool" where
  "tree_matches lower stringify q tr =
     (case tr of Node t cs \<Rightarrow> toolCallMatches lower stringify t cs q | Leaf (ToolCall t) \<Rightarrow> toolCallMatches lower stringify t [] q
      | Leaf _ \<Rightarrow> False)"

text \<open>The parts of a bubble that a search can go to, and whether each shows its content. Nested calls are always shown.\<close>

fun tree_cards :: "(ToolCallBlock \<Rightarrow> BlockTree list \<Rightarrow> bool) \<Rightarrow> BlockTree \<Rightarrow> (string \<times> bool) list" where
  "tree_cards opn (Node t cs) = (tc_id t, opn t cs) # concat (map (tree_cards opn) cs)"
| "tree_cards opn (Leaf (ToolCall t)) = [(tc_id t, opn t [])]"
| "tree_cards opn (Leaf b) = []"

definition root_id :: "BlockTree \<Rightarrow> string" where
  "root_id tr = (case tr of Node t cs \<Rightarrow> tc_id t | Leaf (ToolCall t) \<Rightarrow> tc_id t | Leaf (TextBlock i c) \<Rightarrow> i
     | Leaf (ThinkingBlock i c) \<Rightarrow> i | Leaf (ErrorBlock i c) \<Rightarrow> i)"

definition group_open :: "(string \<Rightarrow> string) \<Rightarrow> (json \<Rightarrow> string) \<Rightarrow> string set \<Rightarrow> string \<Rightarrow> BlockTree list \<Rightarrow> bool" where
  "group_open lower stringify opened q ts \<longleftrightarrow>
     ''group-'' @ root_id (hd ts) \<in> opened \<or> (q \<noteq> [] \<and> list_ex (tree_matches lower stringify (lower q)) ts)"

fun item_parts :: "(string \<Rightarrow> string) \<Rightarrow> (json \<Rightarrow> string) \<Rightarrow> string set \<Rightarrow> string \<Rightarrow> RenderItem \<Rightarrow> (string \<times> bool) list" where
  "item_parts lower stringify opened q (ToolGroup ts) =
     (if group_open lower stringify opened q ts
      then concat (map (tree_cards (card_open lower stringify opened q)) ts) else [])"
| "item_parts lower stringify opened q (BlockItem (Leaf (TextBlock i c))) = [(i, True)]"
| "item_parts lower stringify opened q (BlockItem (Leaf (ErrorBlock i c))) = [(i, True)]"
| "item_parts lower stringify opened q (BlockItem (Leaf (ThinkingBlock i c))) =
     [(i, i \<in> opened \<or> (q \<noteq> [] \<and> has_sub (lower c) (lower q)))]"
| "item_parts lower stringify opened q (BlockItem tr) = tree_cards (card_open lower stringify opened q) tr"

text \<open>\<open>AgentBubble\<close>: none if a saved block cannot be restored, which throws.\<close>

definition agent_parts ::
  "(string \<Rightarrow> string) \<Rightarrow> (json \<Rightarrow> string) \<Rightarrow> (json \<Rightarrow> string) \<Rightarrow> string set \<Rightarrow> string \<Rightarrow> Message \<Rightarrow> (string \<times> bool) list option" where
  "agent_parts lower stringify to_str opened q m =
     (let isCancelled = (map_of (ms_metadata m) ''cancelled'' = Some (JBool True));
          isError = (map_of (ms_metadata m) ''error'' = Some (JBool True))
      in case message_blocks m of
           Some (b # bs) \<Rightarrow>
             (case restoreBlocks to_str (b # bs) isCancelled (Some (ms_id m)) of
                Inr (Some ts) \<Rightarrow>
                  Some (concat (map (item_parts lower stringify opened q) (groupConsecutiveToolCalls DEFAULT_GROUP_THRESHOLD ts)))
              | _ \<Rightarrow> None)
         | _ \<Rightarrow> Some (if isError then [] else [(ms_id m @ ''/body'', True)]))"

definition message_parts ::
  "(string \<Rightarrow> string) \<Rightarrow> (json \<Rightarrow> string) \<Rightarrow> (json \<Rightarrow> string) \<Rightarrow> string set \<Rightarrow> string \<Rightarrow> Message \<Rightarrow> (string \<times> bool) list option" where
  "message_parts lower stringify to_str opened q m =
     (if jtruthy (map_of (ms_metadata m) ''transient'') then Some []
      else if ms_sender_type m = SentByUser then Some [(ms_id m @ ''/user'', True)]
      else agent_parts lower stringify to_str opened q m)"

text \<open>\<open>activeSearchQuery\<close> of the chat view.\<close>

definition activeSearchQuery :: "chat_search \<Rightarrow> string" where
  "activeSearchQuery s = (if cs_open s then trim_space (cs_query s) else [])"

section \<open>Hits are on the screen\<close>

text \<open>
  What the two sides must agree on: blocks as the supervisor saves them, an input in which the texts of the database
  and of the browser hold the query alike, and saved blocks that can be restored.
\<close>

definition searchable ::
  "(string \<Rightarrow> string) \<Rightarrow> (json \<Rightarrow> string) \<Rightarrow> (string \<Rightarrow> string \<Rightarrow> bool) \<Rightarrow> (json \<Rightarrow> string) \<Rightarrow> string \<Rightarrow> json \<Rightarrow> bool" where
  "searchable lower stringify ilike pg q b \<longleftrightarrow>
     (if jget b ''type'' = Some (JStr ''tool_call'')
      then jget b ''content'' = None \<and> (jget b ''result'' = None \<or> jstr (jget b ''result'') \<noteq> None) \<and>
        (case jget b ''input'' of None \<Rightarrow> True
         | Some v \<Rightarrow> ilike (pg v) q \<longrightarrow> has_sub (lower (stringify (if v = JNull then JObj [] else v))) (lower q))
      else jget b ''name'' = None \<and> jget b ''result'' = None \<and> jget b ''input'' = None \<and>
        (jget b ''type'' = Some (JStr ''error'') \<or> jstr (jget b ''content'') \<noteq> None))"

definition message_fits ::
  "(string \<Rightarrow> string) \<Rightarrow> (json \<Rightarrow> string) \<Rightarrow> (string \<Rightarrow> string \<Rightarrow> bool) \<Rightarrow> (json \<Rightarrow> string) \<Rightarrow> (json \<Rightarrow> string) \<Rightarrow> string \<Rightarrow> Message \<Rightarrow> bool" where
  "message_fits lower stringify ilike pg to_str q m \<longleftrightarrow>
     \<not> jtruthy (map_of (ms_metadata m) ''transient'') \<and> ms_id m \<noteq> [] \<and>
     (if ms_sender_type m = SentByUser then message_blocks m = None
      else case message_blocks m of
          Some (b # bs) \<Rightarrow>
            list_all (searchable lower stringify ilike pg q) (b # bs) \<and>
            (case restore_all (restore_block to_str (map_of (ms_metadata m) ''cancelled'' = Some (JBool True)) (ms_id m @ ''-''))
                    (zip [0..<length (b # bs)] (b # bs)) of
               Inr flat \<Rightarrow> arrives flat | Inl _ \<Rightarrow> False)
        | _ \<Rightarrow> map_of (ms_metadata m) ''error'' \<noteq> Some (JBool True))"

lemma sub_refl_empty: "has_sub [] p \<longleftrightarrow> p = []"
  by simp

lemma card_reached:
  "(\<And>cs. opn t cs) \<Longrightarrow> ToolCall t \<in> set (flat_tree tr) \<Longrightarrow> (tc_id t, True) \<in> set (tree_cards opn tr)"
  by (induction tr rule: flat_tree.induct) (auto split: StreamBlock.splits)

lemma only_calls_below:
  "nested_ok (Node t cs) \<Longrightarrow> b \<in> set (flat_tree (Node t cs)) \<Longrightarrow> \<exists>u. b = ToolCall u"
proof (induction "Node t cs" arbitrary: t cs rule: flat_tree.induct)
  case (2 t cs)
  show ?case
  proof (cases "b = ToolCall t")
    case False
    with 2(3) obtain c where c: "c \<in> set cs" "b \<in> set (flat_tree c)" by auto
    with 2(2) obtain u ds where "c = Node u ds" "nested_ok c" by (cases c) (auto simp: list_all_iff)
    with 2(1) c show ?thesis by blast
  qed blast
qed

text \<open>The texts of a call on which its own card opens.\<close>

definition own_match :: "(string \<Rightarrow> string) \<Rightarrow> (json \<Rightarrow> string) \<Rightarrow> string \<Rightarrow> ToolCallBlock \<Rightarrow> bool" where
  "own_match lower stringify q t \<longleftrightarrow> q \<noteq> [] \<and> list_ex (\<lambda>x. has_sub (lower x) q) (block_texts stringify (ToolCall t))"

lemma own_opens: "own_match lower stringify q t \<Longrightarrow> toolCallMatches lower stringify t cs q"
  by (auto simp: own_match_def split: option.splits)

lemma own_opens_tree:
  "own_match lower stringify q t \<Longrightarrow> ToolCall t \<in> set (flat_tree tr) \<Longrightarrow> is_tool tr \<Longrightarrow> tree_matches lower stringify q tr"
proof -
  assume own: "own_match lower stringify q t" and t: "ToolCall t \<in> set (flat_tree tr)" and "is_tool tr"
  then obtain u cs where tr: "tr = Node u cs" by (cases tr) auto
  have "found_in lower stringify q (flat_tree tr)"
    unfolding found_in_def list_ex_iff using own t by (auto simp only: own_match_def list_ex_iff)
  with own tr show ?thesis by (simp add: tree_matches_def own_match_def search_exact(1) del: toolCallMatches.simps flat_tree.simps)
qed

lemma grouped_or_single:
  "tr \<in> set ts \<Longrightarrow> BlockItem tr \<in> set (grouped n ts) \<or> (\<exists>run. ToolGroup run \<in> set (grouped n ts) \<and> tr \<in> set run)"
proof -
  assume "tr \<in> set ts"
  then have "tr \<in> set (concat (map members (grouped n ts)))" by (simp add: grouped_members)
  then obtain x where x: "x \<in> set (grouped n ts)" "tr \<in> set (members x)" by auto
  show ?thesis
  proof (cases x)
    case (BlockItem b)
    with x show ?thesis by simp
  next
    case (ToolGroup run)
    with x show ?thesis by auto
  qed
qed

lemma call_shown:
  assumes "ToolCall t \<in> set (flat_tree tr)" "tr \<in> set ts" "own_match lower stringify (lower q) t" "q \<noteq> []"
  shows "(tc_id t, True) \<in> set (concat (map (item_parts lower stringify opened q) (groupConsecutiveToolCalls n ts)))"
proof -
  have card: "(tc_id t, True) \<in> set (tree_cards (card_open lower stringify opened q) tr)"
    by (rule card_reached) (use own_opens [OF assms(3)] assms(1,4) in \<open>simp_all add: card_open_def del: toolCallMatches.simps\<close>)
  from grouped_or_single [OF assms(2), of n] show ?thesis
  proof (elim disjE exE conjE)
    assume item: "BlockItem tr \<in> set (grouped n ts)"
    have "set (tree_cards (card_open lower stringify opened q) tr) \<subseteq> set (item_parts lower stringify opened q (BlockItem tr))"
    proof (cases tr)
      case (Leaf b)
      then show ?thesis by (cases b) simp_all
    qed simp
    with item card show ?thesis by (auto simp: group_exact)
  next
    fix run assume run: "ToolGroup run \<in> set (grouped n ts)" "tr \<in> set run"
    with groups_of_tools have "is_tool tr" by (auto simp: list_all_iff)
    with own_opens_tree [OF assms(3,1)] run assms(4) have "group_open lower stringify opened q run"
      by (auto simp: group_open_def list_ex_iff)
    with run card show ?thesis by (force simp: group_exact)
  qed
qed

lemma text_shown:
  assumes "b \<in> set (flat_tree tr)" "tr \<in> set ts" "nested_ok tr" "(p, True) \<in> set (item_parts lower stringify opened q (BlockItem (Leaf b)))"
    and "\<And>u. b \<noteq> ToolCall u"
  shows "(p, True) \<in> set (concat (map (item_parts lower stringify opened q) (groupConsecutiveToolCalls n ts)))"
proof -
  have tr: "tr = Leaf b"
  proof (cases tr)
    case (Node u cs)
    with only_calls_below [of u cs b] assms(1,3,5) show ?thesis by blast
  qed (use assms(1) in simp)
  from grouped_or_single [OF assms(2), of n] have "BlockItem (Leaf b) \<in> set (grouped n ts)"
    using groups_of_tools tr by (fastforce simp: list_all_iff)
  with assms(4) show ?thesis by (force simp: group_exact)
qed

lemma restored_at:
  assumes "restore_all f (zip [0..<length bs] bs) = Inr flat" "i < length bs"
  shows "i < length flat \<and> f (i, bs ! i) = Inr (flat ! i)"
proof -
  from assms(1) have all: "list_all2 (\<lambda>x y. f x = Inr y) (zip [0..<length bs] bs) flat" by (simp add: restore_all_iff)
  then have "length flat = length bs" by (simp add: list_all2_iff)
  moreover from list_all2_nthD [OF all, of i] assms(2) have "f (i, bs ! i) = Inr (flat ! i)" by simp
  ultimately show ?thesis using assms(2) by simp
qed

text \<open>A hit in a block of an agent's message is on the screen.\<close>

lemma block_on_screen:
  assumes fits: "message_fits lower stringify ilike pg to_str q m" and agent: "ms_sender_type m = SentByAgent"
    and blocks: "message_blocks m = Some blocks" and i: "i < length blocks"
    and hit: "block_hit ilike pg q (blocks ! i)" and target: "block_target pg (ms_id m) i (blocks ! i) = Some p"
    and literal: "\<And>t. ilike t q \<Longrightarrow> has_sub (lower t) (lower q)" and lower: "\<And>t. lower t = [] \<longleftrightarrow> t = []" and q: "q \<noteq> []"
  shows "\<exists>parts. agent_parts lower stringify to_str opened q m = Some parts \<and> (p, True) \<in> set parts"
proof -
  let ?b = "blocks ! i" and ?c = "map_of (ms_metadata m) ''cancelled'' = Some (JBool True)"
  obtain b0 bs where bs: "blocks = b0 # bs" using i by (cases blocks) auto
  from fits agent blocks bs obtain flat where
    flat: "restore_all (restore_block to_str ?c (ms_id m @ ''-'')) (zip [0..<length blocks] blocks) = Inr flat" "arrives flat"
    and ok: "list_all (searchable lower stringify ilike pg q) blocks" and mid: "ms_id m \<noteq> []"
    by (auto simp: message_fits_def split: sum.splits)
  from restored_at [OF flat(1) i] have fi: "flat ! i \<in> set flat"
    and restored: "restore_block to_str ?c (ms_id m @ ''-'') (i, ?b) = Inr (flat ! i)" by simp_all
  from restored_tree [OF flat(2)] obtain ts where
    ts: "buildBlockTree flat = Some ts" "mset (concat (map flat_tree ts)) = mset flat" "list_all nested_ok ts" by blast
  from ts(2) have "set (concat (map flat_tree ts)) = set flat" by (metis set_mset_mset)
  with fi obtain tr where tr: "tr \<in> set ts" "flat ! i \<in> set (flat_tree tr)" by auto
  have parts: "agent_parts lower stringify to_str opened q m =
      Some (concat (map (item_parts lower stringify opened q) (groupConsecutiveToolCalls DEFAULT_GROUP_THRESHOLD ts)))"
    using blocks bs flat(1) ts(1) mid by (simp add: agent_parts_def restoreBlocks_def Let_def)
  have okb: "searchable lower stringify ilike pg q ?b" using ok i by (simp add: list_all_length)
  have none: "\<not> ilike [] q"
  proof
    assume "ilike [] q"
    then have "has_sub (lower []) (lower q)" by (rule literal)
    moreover have "lower [] = []" "lower q \<noteq> []" using lower [of "[]"] lower [of q] q by simp_all
    ultimately show False by simp
  qed
  show ?thesis
  proof (cases "jget ?b ''type'' = Some (JStr ''tool_call'')")
    case True
    obtain tid name where fields: "jstr (jget ?b ''tool_use_id'') = Some tid" "jstr (jget ?b ''name'') = Some name"
      using restored unfolding restore_block_def prod.case if_P [OF True]
      by (cases "jstr (jget ?b ''tool_use_id'')"; cases "jstr (jget ?b ''name'')"; simp)
    let ?r = "jget ?b ''result''"
    define t where "t = \<lparr>tc_id = tid, tc_name = name, tc_input = (case present (jget ?b ''input'') of Some v \<Rightarrow> v | None \<Rightarrow> JObj []),
      tc_status = Complete, tc_result = (if present ?r \<noteq> None then Some (string_or to_str ?r) else if ?c then Some ''[Cancelled]'' else None),
      tc_is_error = (if jget ?b ''is_error'' = Some (JBool True) then Some True else if \<not> present ?r \<noteq> None \<and> ?c then Some True else None),
      tc_elapsed = None, tc_parent = jstr (jget ?b ''parent_tool_use_id'')\<rparr>"
    have t: "flat ! i = ToolCall t"
      using restored unfolding restore_block_def prod.case if_P [OF True] fields option.case t_def Let_def by (simp only: sum.inject)
    have t_fields: "tc_id t = tid" "tc_name t = name"
      "tc_input t = (case present (jget ?b ''input'') of Some v \<Rightarrow> v | None \<Rightarrow> JObj [])"
      "\<And>r. ?r = Some (JStr r) \<Longrightarrow> tc_result t = Some r"
      by (simp_all add: t_def string_or_def js_string_def)
    have name: "pg_field pg ?b ''name'' = tc_name t"
      using fields(2) t_fields(2) by (cases "jget ?b ''name''" rule: jstr.cases) (auto simp: pg_field_def)
    have content: "pg_field pg ?b ''content'' = []" using okb True by (simp add: searchable_def pg_field_def)
    have result: "pg_field pg ?b ''result'' = [] \<or> tc_result t = Some (pg_field pg ?b ''result'')"
    proof (cases "jget ?b ''result'' = None")
      case False
      with okb True obtain r where "jget ?b ''result'' = Some (JStr r)"
        by (cases "jget ?b ''result''" rule: jstr.cases) (auto simp: searchable_def)
      with t_fields(4) show ?thesis by (simp add: pg_field_def)
    qed (simp add: pg_field_def)
    have input: "has_sub (lower (stringify (tc_input t))) (lower q)"
      if "ilike (case jget ?b ''input'' of None \<Rightarrow> [] | Some v \<Rightarrow> pg v) q"
      using that okb True none t_fields(3) by (cases "jget ?b ''input''") (auto simp: searchable_def present_Some)
    have "has_sub (lower (tc_name t)) (lower q) \<or> has_sub (lower (stringify (tc_input t))) (lower q) \<or>
        (\<exists>r. tc_result t = Some r \<and> has_sub (lower r) (lower q))"
      using hit name content result none input literal unfolding block_hit_def by metis
    moreover have "lower q \<noteq> []" using lower [of q] q by simp
    ultimately have own: "own_match lower stringify (lower q) t" by (auto simp: own_match_def)
    have "jget ?b ''tool_use_id'' = Some (JStr tid)"
      using fields(1) by (cases "jget ?b ''tool_use_id''" rule: jstr.cases) simp_all
    then have "p = tid" using target True by (simp add: block_target_def pg_field_def)
    with call_shown [OF _ tr(1) own q, of opened DEFAULT_GROUP_THRESHOLD] tr(2) t t_fields(1) parts show ?thesis by auto
  next
    case False
    with target consider
        (written) "jget ?b ''type'' = Some (JStr ''text'')" "p = ms_id m @ ''-text-'' @ nat_string i"
      | (thought) "jget ?b ''type'' = Some (JStr ''thinking'')" "p = ms_id m @ ''-thinking-'' @ nat_string i"
      by (auto simp: block_target_def split: if_splits)
    note kinds = this
    have "jget ?b ''type'' \<noteq> Some (JStr ''error'')" using kinds by cases simp_all
    with okb False have "jstr (jget ?b ''content'') \<noteq> None" by (simp add: searchable_def)
    then obtain c where c: "jget ?b ''content'' = Some (JStr c)" by (cases "jget ?b ''content''" rule: jstr.cases) auto
    have "ilike c q" using hit okb False none c by (simp add: block_hit_def pg_field_def searchable_def)
    then have found: "has_sub (lower c) (lower q)" by (rule literal)
    have "(p, True) \<in> set (item_parts lower stringify opened q (BlockItem (Leaf (flat ! i)))) \<and> (\<forall>u. flat ! i \<noteq> ToolCall u)"
      using kinds
    proof cases
      case written
      with restored c have "flat ! i = TextBlock p c"
        unfolding restore_block_def prod.case by (simp add: string_or_def js_string_def)
      then show ?thesis by simp
    next
      case thought
      with restored c have "flat ! i = ThinkingBlock p c"
        unfolding restore_block_def prod.case by (simp add: string_or_def js_string_def)
      with found q show ?thesis by simp
    qed
    with text_shown [OF tr(2,1), of p] ts(3) tr(1) parts show ?thesis by (auto simp: list_all_iff)
  qed
qed

lemma hit_rows:
  "h \<in> set (search_session_messages ilike pg created q messages) \<Longrightarrow> py_strip q = q \<Longrightarrow>
     q \<noteq> [] \<and> (\<exists>m \<in> set messages. \<exists>r \<in> set (block_matches ilike pg created q m) \<union> set (plain_matches ilike created q m). h = sr_match r)"
  by (fastforce simp: search_session_messages_def Let_def split: if_splits dest: in_set_takeD)

lemma in_concat_map: "x \<in> set (concat (map f xs)) \<Longrightarrow> \<exists>y \<in> set xs. x \<in> set (f y)"
  by auto

lemma block_row:
  assumes "r \<in> set (block_matches ilike pg created q m)"
  shows "\<exists>blocks i p. message_blocks m = Some blocks \<and> i < length blocks \<and> block_hit ilike pg q (blocks ! i) \<and>
    block_target pg (ms_id m) i (blocks ! i) = Some p \<and> sr_match r = \<lparr>bm_message_id = ms_id m, bm_target_id = p\<rparr>"
proof -
  have "message_blocks m \<noteq> None"
  proof
    assume "message_blocks m = None"
    then have "block_matches ilike pg created q m = []" by (simp add: block_matches_def)
    with assms show False by simp
  qed
  then obtain blocks where blocks: "message_blocks m = Some blocks" by blast
  from assms obtain i b where ib: "(i, b) \<in> set (zip [0..<length blocks] blocks)" and r: "r \<in> set (block_rows ilike pg created q m (i, b))"
    unfolding block_matches_def blocks option.case Let_def
    by (metis in_concat_map surj_pair)
  from ib have i: "i < length blocks" "b = blocks ! i" by (auto simp: set_zip)
  from r have hit: "block_hit ilike pg q b" by (cases "block_hit ilike pg q b") simp_all
  with r obtain p where p: "block_target pg (ms_id m) i b = Some p" by (cases "block_target pg (ms_id m) i b") simp_all
  with r hit have "r = search_row_of created m (int i) p" by simp
  with blocks i hit p show ?thesis by (auto simp: search_row_of_def)
qed


definition demo_saved :: "Message list" where
  "demo_saved =
     (let call = (\<lambda>i. JObj [(''type'', JStr ''tool_call''), (''name'', JStr ''Read''), (''input'', JObj []),
            (''tool_use_id'', JStr i), (''result'', JStr (''page '' @ i))])
      in [\<lparr>ms_id = ''m1'', ms_session_id = ''s'', ms_sender_type = SentByUser, ms_sender_id = None,
           ms_content = ''look at page t3'', ms_metadata = [], ms_created_at = ''1''\<rparr>,
          \<lparr>ms_id = ''m2'', ms_session_id = ''s'', ms_sender_type = SentByAgent, ms_sender_id = None, ms_content = ''Done'',
           ms_metadata = [(''blocks'', JArr [call ''t1'', call ''t2'', call ''t3'',
             JObj [(''type'', JStr ''text''), (''content'', JStr ''Done'')]])], ms_created_at = ''2''\<rparr>])"

definition demo_time :: "Message \<Rightarrow> int" where
  "demo_time m = (if ms_created_at m = ''1'' then 1 else 2)"


text \<open>
  Outside of that, hits lead nowhere: the message of a failed answer without blocks is found, but its bubble has no part to
  go to.
\<close>

lemma failed_answer_has_no_part:
  assumes "ms_sender_type m = SentByAgent" "message_blocks m = None" "map_of (ms_metadata m) ''error'' = Some (JBool True)"
    "\<not> jtruthy (map_of (ms_metadata m) ''transient'')" "ilike (ms_content m) q"
  shows "plain_matches ilike created q m = [search_row_of created m (-1) (ms_id m @ ''/body'')]"
    and "message_parts lower stringify to_str opened q m = Some []"
  using assms by (simp_all add: plain_matches_def message_parts_def agent_parts_def Let_def)

text \<open>An error block is drawn, and the search never names it.\<close>

lemma error_blocks_not_found:
  "jget b ''type'' = Some (JStr ''error'') \<Longrightarrow> block_target pg mid i b = None"
  by (simp add: block_target_def)

text \<open>A result that is longer than the card shows is found beyond what is shown.\<close>

definition shown_result :: "string \<Rightarrow> string" where
  "shown_result r = (if length r > 2000 then take 2000 r @ [CHR 0x0A] @ ''... (truncated)'' else r)"

lemma hit_beyond_card: "q \<noteq> [] \<Longrightarrow> has_sub (lower (r @ x)) q \<Longrightarrow> tc_result t = Some (r @ x) \<Longrightarrow>
  length r = 2000 \<Longrightarrow> x \<noteq> [] \<Longrightarrow> toolCallMatches lower stringify t cs q \<and> shown_result (r @ x) = shown_result (r @ [hd x])"
  by (cases x) (auto simp: shown_result_def)

end
