(* ===== verification/CardViews.thy ===== *)
theory CardViews
  imports ChatCards
begin

text \<open>
  What the parts of a chat show: the card of a tool call, the chip of a group, the rows of an answer that streams, code
  blocks and their copies, the to-do list, the diff of an edit, and the files an export writes. Characters that are no
  byte are parameters.
\<close>

section \<open>The card of a tool call\<close>

definition is_subagent :: "ToolCallBlock \<Rightarrow> bool" where
  "is_subagent t \<longleftrightarrow> tc_name t = ''Agent'' \<or> starts_with (tc_name t) A2A_PREFIX"

definition a2aSlug :: "ToolCallBlock \<Rightarrow> string option" where
  "a2aSlug t = (if starts_with (tc_name t) A2A_PREFIX then Some (drop (length A2A_PREFIX) (tc_name t)) else None)"

definition card_title :: "ToolCallBlock \<Rightarrow> string" where
  "card_title t = (if truthy (a2aSlug t) then ''@'' @ the (a2aSlug t) else tc_name t)"

datatype card_mark = CardRunning | CardError | CardSuccess

definition card_status :: "ToolCallBlock \<Rightarrow> card_mark" where
  "card_status t = (if tc_status t = Running then CardRunning else if tc_is_error t = Some True then CardError else CardSuccess)"

definition card_rail_kind :: "ToolCallBlock \<Rightarrow> string" where
  "card_rail_kind t =
     (if tc_is_error t = Some True then ''tool-error'' else if tc_status t = Running then ''tool-running'' else ''tool-success'')"

definition rail_preview :: "(json \<Rightarrow> string) \<Rightarrow> ToolCallBlock \<Rightarrow> string" where
  "rail_preview to_str t =
     (let summary = summarizeToolInput to_str (tc_name t) (tc_input t)
      in take 100 (card_title t @ (if summary \<noteq> [] then '': '' @ summary else [])))"

definition child_count :: "ToolCallBlock \<Rightarrow> BlockTree list \<Rightarrow> string option" where
  "child_count t cs =
     (if is_subagent t \<and> cs \<noteq> []
      then Some (nat_string (length cs) @ '' tool'' @ (if length cs \<noteq> 1 then ''s'' else [])) else None)"

datatype card_input = InputDiff "string option" string string | InputJson string

definition input_view :: "(json \<Rightarrow> string) \<Rightarrow> ToolCallBlock \<Rightarrow> card_input" where
  "input_view stringify t =
     (case (tc_name t = ''Edit'' \<and> jget (tc_input t) ''replace_all'' = Some (JBool False),
            jstr (jget (tc_input t) ''old_string''), jstr (jget (tc_input t) ''new_string'')) of
        (True, Some old, Some new) \<Rightarrow> InputDiff (jstr (jget (tc_input t) ''file_path'')) old new
      | _ \<Rightarrow> InputJson (stringify (tc_input t)))"

definition result_view :: "ToolCallBlock \<Rightarrow> (string \<times> string) option" where
  "result_view t =
     map_option (\<lambda>r. (if tc_is_error t = Some True then ''Error'' else ''Result'', shown_result r)) (tc_result t)"

text \<open>A click on the head of a card, of a group or of a thought.\<close>

definition toggle_open :: "string \<Rightarrow> string set \<Rightarrow> string set" where
  "toggle_open i opened = (if i \<in> opened then opened - {i} else insert i opened)"

section \<open>The chip of a group\<close>

datatype chip_tone = ToneError | ToneRunning | ToneDone

definition item_tool :: "BlockTree \<Rightarrow> ToolCallBlock option" where
  "item_tool tr = (case tr of Node t cs \<Rightarrow> Some t | Leaf (ToolCall t) \<Rightarrow> Some t | Leaf _ \<Rightarrow> None)"

definition group_tools :: "BlockTree list \<Rightarrow> ToolCallBlock list" where
  "group_tools ts = concat (map (\<lambda>tr. case item_tool tr of Some t \<Rightarrow> [t] | None \<Rightarrow> []) ts)"

record chip_view =
  gc_count :: string
  gc_tone :: chip_tone
  gc_last :: "string option"
  gc_elapsed :: "string option"
  gc_spinner :: bool

definition truncate :: "string \<Rightarrow> string \<Rightarrow> nat \<Rightarrow> string" where
  "truncate ellipsis t n = (if length t \<le> n then t else take (n - 1) t @ ellipsis)"

definition group_chip :: "string \<Rightarrow> string set \<Rightarrow> BlockTree list \<Rightarrow> chip_view" where
  "group_chip ellipsis opened ts =
     (let tools = group_tools ts;
          hasRunning = list_ex (\<lambda>t. tc_status t = Running) tools;
          hasError = list_ex (\<lambda>t. tc_is_error t = Some True) tools;
          totalElapsed = foldl (\<lambda>sum t. sum + (case tc_elapsed t of Some n \<Rightarrow> n | None \<Rightarrow> 0)) 0 tools
      in \<lparr>gc_count = nat_string (length tools) @ '' tool calls'',
          gc_tone = (if hasError then ToneError else if hasRunning then ToneRunning else ToneDone),
          gc_last = (if ''group-'' @ root_id (hd ts) \<in> opened \<or> tools = [] then None
                     else Some (truncate ellipsis (tc_name (last tools)) 30)),
          gc_elapsed = (if totalElapsed > 0 then Some (formatElapsed (Some totalElapsed)) else None),
          gc_spinner = hasRunning\<rparr>)"

section \<open>An answer that streams\<close>

datatype answer_row = ThoughtRow string bool | TextRow string | CardRow string | GroupRow string | ErrorRow string

text \<open>\<open>StreamingResponse\<close>: blank texts and thoughts are left out; only the last row can be active.\<close>

definition stream_row :: "bool \<Rightarrow> bool \<Rightarrow> RenderItem \<Rightarrow> answer_row list" where
  "stream_row isStreaming isLast item =
     (case item of
        ToolGroup ts \<Rightarrow> [GroupRow (''group-'' @ root_id (hd ts))]
      | BlockItem (Node t cs) \<Rightarrow> [CardRow (tc_id t)]
      | BlockItem (Leaf b) \<Rightarrow>
          (case b of
             ThinkingBlock i c \<Rightarrow> if list_all js_space c then [] else [ThoughtRow i (isLast \<and> isStreaming)]
           | TextBlock i c \<Rightarrow> if list_all js_space c then [] else [TextRow i]
           | ToolCall t \<Rightarrow> [CardRow (tc_id t)]
           | ErrorBlock i c \<Rightarrow> [ErrorRow i]))"

definition streaming_rows :: "bool \<Rightarrow> BlockTree list \<Rightarrow> answer_row list" where
  "streaming_rows isStreaming blocks =
     (let items = groupConsecutiveToolCalls DEFAULT_GROUP_THRESHOLD blocks
      in concat (map (\<lambda>(i, item). stream_row isStreaming (i = length items - 1) item) (zip [0..<length items] items)))"

text \<open>The dots of a thought: while it is written and folded.\<close>

definition thought_dots :: "(string \<Rightarrow> string) \<Rightarrow> string set \<Rightarrow> string \<Rightarrow> bool \<Rightarrow> string \<Rightarrow> string \<Rightarrow> bool" where
  "thought_dots lower opened q isActive i c \<longleftrightarrow> isActive \<and> \<not> (i \<in> opened \<or> (q \<noteq> [] \<and> has_sub (lower c) (lower q)))"

section \<open>Bubbles\<close>

datatype bubble =
    UserErrorBubble string
  | UserBubble string string "json list"
  | AgentBubble Message

definition message_bubble :: "Message \<Rightarrow> bubble" where
  "message_bubble m =
     (if jtruthy (map_of (ms_metadata m) ''transient'') then UserErrorBubble (ms_content m)
      else if ms_sender_type m = SentByUser
      then UserBubble (ms_content m) (ms_id m @ ''/user'')
             (case map_of (ms_metadata m) ''attachments'' of Some (JArr atts) \<Rightarrow> atts | _ \<Rightarrow> [])
      else AgentBubble m)"

text \<open>The image that is open, by its address and name; Escape and a click beside it close it.\<close>

datatype lightbox_event = OpenImage json | LightboxKey string | LightboxClick bool

definition lightbox_step :: "(json \<Rightarrow> string \<Rightarrow> string) \<Rightarrow> (string \<times> string) option \<Rightarrow> lightbox_event \<Rightarrow> (string \<times> string) option" where
  "lightbox_step field b e =
     (case e of
        OpenImage att \<Rightarrow> Some (''/api/uploads/'' @ field att ''file_id'', field att ''filename'')
      | LightboxKey k \<Rightarrow> if k = ''Escape'' then None else b
      | LightboxClick on_image \<Rightarrow> if on_image then b else None)"

section \<open>Copying\<close>

text \<open>A button that says for two seconds that the text was copied; each copy has its timer.\<close>

record copy_button =
  cb_copied :: bool
  cb_timers :: nat

definition copy_done :: "copy_button \<Rightarrow> copy_button" where
  "copy_done b = b\<lparr>cb_copied := True, cb_timers := cb_timers b + 1\<rparr>"

definition copy_timer :: "copy_button \<Rightarrow> copy_button" where
  "copy_timer b = (if cb_timers b = 0 then b else b\<lparr>cb_copied := False, cb_timers := cb_timers b - 1\<rparr>)"

datatype class_name = ClassNames "string list" | ClassString string | NoClass

datatype hast = Hast (hast_type: "string option") (hast_tag: "string option") (hast_value: "string option")
  (hast_class: class_name) (hast_children: "hast list option")

fun extractText :: "hast \<Rightarrow> string" where
  "extractText (Hast ty tag v cls cs) =
     (if ty = Some ''text'' then (case v of Some s \<Rightarrow> s | None \<Rightarrow> [])
      else case cs of Some xs \<Rightarrow> concat (map extractText xs) | None \<Rightarrow> [])"

fun first_language :: "string list \<Rightarrow> string option" where
  "first_language [] = None"
| "first_language (c # cs) = (if starts_with c ''language-'' then Some (drop 9 c) else first_language cs)"

definition extractLanguage :: "hast option \<Rightarrow> string option" where
  "extractLanguage node =
     (case node of
        None \<Rightarrow> None
      | Some n \<Rightarrow> first_language (case hast_class n of ClassNames cs \<Rightarrow> cs | ClassString s \<Rightarrow> split_on (CHR '' '') s | NoClass \<Rightarrow> []))"

definition SHELL_LANGS :: "string list" where
  "SHELL_LANGS = [''bash'', ''sh'', ''shell'', ''zsh'', ''console'']"

text \<open>\<open>line.replace(/^(\s*)\$\s+/, "$1")\<close>.\<close>

definition strip_prompt :: "string \<Rightarrow> string" where
  "strip_prompt line =
     (case dropWhile js_space line of
        c # d # rest \<Rightarrow> if c = CHR ''$'' \<and> js_space d then takeWhile js_space line @ dropWhile js_space rest else line
      | _ \<Rightarrow> line)"

definition stripShellPrompts :: "string \<Rightarrow> string" where
  "stripShellPrompts t = join nl (map strip_prompt (split_on (CHR 0x0A) t))"

record code_view =
  kb_language :: string
  kb_raw :: string
  kb_shell :: bool

definition code_element :: "hast list \<Rightarrow> hast option" where
  "code_element hs = find (\<lambda>c. hast_tag c = Some ''code'') hs"

definition code_block :: "(string \<Rightarrow> string) \<Rightarrow> hast list \<Rightarrow> code_view" where
  "code_block lower hs =
     (let codeEl = code_element hs; language = extractLanguage codeEl
      in \<lparr>kb_language = (if truthy language then the language else ''text''),
          kb_raw = (case codeEl of Some c \<Rightarrow> extractText c | None \<Rightarrow> []),
          kb_shell = (truthy language \<and> lower (the language) \<in> set SHELL_LANGS)\<rparr>)"

definition copied_code :: "code_view \<Rightarrow> string" where
  "copied_code b = (if kb_shell b then stripShellPrompts (kb_raw b) else kb_raw b)"

section \<open>The to-do list\<close>

record todo_view =
  tp_line :: string
  tp_spinner :: bool
  tp_completed :: nat
  tp_total :: nat
  tp_progress :: rat

definition has_status :: "string \<Rightarrow> TodoItem \<Rightarrow> bool" where
  "has_status s t \<longleftrightarrow> td_status t = JStr s"

definition todo_panel :: "(json \<Rightarrow> string) \<Rightarrow> TodoItem list \<Rightarrow> todo_view option" where
  "todo_panel to_str todos =
     (if todos = [] then None
      else let completed = length (filter (has_status ''completed'') todos);
               inProgress = filter (has_status ''in_progress'') todos
           in Some \<lparr>tp_line = (if inProgress = [] then ''Plan complete''
                       else join [CHR 0x20, CHR 0xB7, CHR 0x20] (map (\<lambda>t. js_string to_str (td_content t)) inProgress)),
                    tp_spinner = (inProgress \<noteq> []), tp_completed = completed, tp_total = length todos,
                    tp_progress = of_nat completed / of_nat (length todos) * 100\<rparr>)"

section \<open>The diff of an edit\<close>

text \<open>While the overlay is open the page does not scroll; its style is put back when it closes.\<close>

record diff_view =
  dv_split :: bool
  dv_expanded :: bool
  dv_saved :: string

datatype diff_event = ToggleSplit | OpenOverlay | CloseOverlay | DiffKey string | Unmount

definition expand_diff :: "bool \<Rightarrow> diff_view \<times> string \<Rightarrow> diff_view \<times> string" where
  "expand_diff on dv =
     (case dv of (d, overflow) \<Rightarrow>
        if on = dv_expanded d then (d, overflow)
        else if on then (d\<lparr>dv_expanded := True, dv_saved := overflow\<rparr>, ''hidden'')
        else (d\<lparr>dv_expanded := False\<rparr>, dv_saved d))"

definition diff_step :: "diff_view \<times> string \<Rightarrow> diff_event \<Rightarrow> diff_view \<times> string" where
  "diff_step dv e =
     (case e of
        ToggleSplit \<Rightarrow> ((fst dv)\<lparr>dv_split := \<not> dv_split (fst dv)\<rparr>, snd dv)
      | OpenOverlay \<Rightarrow> expand_diff True dv
      | CloseOverlay \<Rightarrow> expand_diff False dv
      | DiffKey k \<Rightarrow> if k = ''Escape'' then expand_diff False dv else dv
      | Unmount \<Rightarrow> expand_diff False dv)"

section \<open>Exports\<close>

definition print_title :: "string option \<Rightarrow> string" where
  "print_title title =
     filter (\<lambda>c. c \<notin> {CHR ''<'', CHR ''&'', CHR ''>''}) (if truthy title then the title else ''Chat'')"

text \<open>What \<open>exportText\<close> writes into the new window, if there is one; building the text may throw.\<close>

definition exportText ::
  "(json \<Rightarrow> string) \<Rightarrow> (json \<Rightarrow> string) \<Rightarrow> (string \<Rightarrow> string) \<Rightarrow> string \<Rightarrow> bool \<Rightarrow> ExportableMessage list \<Rightarrow> string option \<Rightarrow> (export_failure + string) option" where
  "exportText to_str stringify mdToHtml styles window messages title =
     (if messages = [] then None
      else case buildExportHTML to_str stringify mdToHtml messages (if truthy title then the title else ''Chat Export'') of
             Inl e \<Rightarrow> Some (Inl e)
           | Inr bodyHtml \<Rightarrow> if \<not> window then None
               else Some (Inr (''<!DOCTYPE html><html><head>'' @ nl @ ''      <style>'' @ styles @ ''</style>'' @ nl @ ''    </head><body>'' @ bodyHtml @ ''</body></html>'')))"

section \<open>What holds of them\<close>

lemma preview_is_short: "length (rail_preview to_str t) \<le> 100"
  by (simp add: rail_preview_def Let_def)

lemma title_is_plain: "set (print_title title) \<inter> {CHR ''<'', CHR ''&'', CHR ''>''} = {}"
  by (auto simp: print_title_def)

lemma takeWhile_none: "s = [] \<or> \<not> P (hd s) \<Longrightarrow> takeWhile P s = [] \<and> dropWhile P s = s"
  by (cases s) auto

lemma strip_added: "l = [] \<or> \<not> js_space (hd l) \<Longrightarrow> strip_prompt (''$ '' @ l) = l"
  using takeWhile_none [of l js_space] by (simp add: strip_prompt_def js_space_def)

text \<open>
  Commands that are shown with a prompt are copied as they are typed: putting a prompt before every line of a
  script and copying it gives the script again, and a script without prompts is copied as it is.
\<close>

theorem copied_script_is_the_script:
  assumes "ls \<noteq> []" and "list_all (\<lambda>l. CHR 0x0A \<notin> set l) ls"
  shows "list_all (\<lambda>l. l = [] \<or> \<not> js_space (hd l)) ls \<Longrightarrow> stripShellPrompts (join nl (map (\<lambda>l. ''$ '' @ l) ls)) = join nl ls"
    and "list_all (\<lambda>l. strip_prompt l = l) ls \<Longrightarrow> stripShellPrompts (join nl ls) = join nl ls"
proof -
  have lines: "split_on (CHR 0x0A) (join nl ws) = ws" if "ws \<noteq> []" "\<forall>w \<in> set ws. CHR 0x0A \<notin> set w" for ws
    using split_on_join [OF that] by (simp add: nl_def)
  show "stripShellPrompts (join nl (map (\<lambda>l. ''$ '' @ l) ls)) = join nl ls" if "list_all (\<lambda>l. l = [] \<or> \<not> js_space (hd l)) ls"
  proof -
    have "split_on (CHR 0x0A) (join nl (map (\<lambda>l. ''$ '' @ l) ls)) = map (\<lambda>l. ''$ '' @ l) ls"
      by (rule lines) (use assms in \<open>auto simp: list_all_iff\<close>)
    moreover have "map (strip_prompt \<circ> (\<lambda>l. ''$ '' @ l)) ls = ls"
      by (rule map_idI) (use that strip_added in \<open>simp add: list_all_iff del: append_Cons\<close>)
    ultimately show ?thesis by (simp add: stripShellPrompts_def del: append_Cons)
  qed
  show "stripShellPrompts (join nl ls) = join nl ls" if "list_all (\<lambda>l. strip_prompt l = l) ls"
    using lines [of ls] assms that by (simp add: stripShellPrompts_def list_all_iff map_idI)
qed

text \<open>A second copy within two seconds loses its mark with the timer of the first.\<close>

lemma second_copy_unmarked: "cb_copied (copy_timer (copy_done (copy_done b))) = False"
  by (simp add: copy_timer_def copy_done_def)

text \<open>The page scrolls again: in every run the style of the page is the one it had, but while the overlay is open.\<close>

definition diff_ok :: "string \<Rightarrow> diff_view \<times> string \<Rightarrow> bool" where
  "diff_ok overflow dv \<longleftrightarrow>
     (if dv_expanded (fst dv) then snd dv = ''hidden'' \<and> dv_saved (fst dv) = overflow else snd dv = overflow)"

interpretation overlay: machine diff_step "diff_ok overflow" for overflow
  by unfold_locales (auto simp: diff_step_def expand_diff_def diff_ok_def split: diff_event.splits prod.splits)

theorem page_scrolls_again:
  "diff_ok overflow (foldl diff_step (\<lparr>dv_split = False, dv_expanded = False, dv_saved = []\<rparr>, overflow) es)"
  by (rule overlay.run_good) (simp add: diff_ok_def)

text \<open>The bar of the to-do list is full exactly when everything is done; the line is not so exact.\<close>

lemma filter_all: "length (filter P xs) = length xs \<longleftrightarrow> list_all P xs"
  using filter_id_conv [of P xs] by (auto simp: list_all_iff) (metis length_filter_less less_irrefl)

theorem todo_progress:
  "todo_panel to_str todos = Some p \<Longrightarrow> 0 \<le> tp_progress p \<and> tp_progress p \<le> 100 \<and>
     (tp_progress p = 100) = list_all (has_status ''completed'') todos"
proof -
  assume p: "todo_panel to_str todos = Some p"
  then have todos: "todos \<noteq> []" by (auto simp: todo_panel_def)
  let ?c = "length (filter (has_status ''completed'') todos)"
  have progress: "tp_progress p = of_nat ?c / of_nat (length todos) * 100"
    using p todos by (auto simp: todo_panel_def Let_def)
  have le: "?c \<le> length todos" by simp
  have "(tp_progress p = 100) = (?c = length todos)" using todos by (simp add: progress field_simps)
  then show ?thesis using le todos filter_all [of "has_status ''completed''" todos]
    by (simp add: progress field_simps)
qed

lemma plan_complete_before_start:
  "map_option (\<lambda>p. (tp_line p, tp_completed p, tp_total p))
     (todo_panel (\<lambda>v. []) [\<lparr>td_content = JStr ''build'', td_status = JStr ''pending''\<rparr>]) = Some (''Plan complete'', 0, 1)"
  by code_simp

text \<open>An error below a call does not colour the chip of its group.\<close>

lemma chip_ignores_nested:
  "gc_tone (group_chip dots opened [Node t cs]) = gc_tone (group_chip dots opened [Node t []])"
  by (simp add: group_chip_def group_tools_def item_tool_def Let_def)

text \<open>Blank blocks that are only shown after a reload.\<close>

lemma blank_rows_left_out:
  "list_all js_space c \<Longrightarrow> stream_row s l (BlockItem (Leaf (TextBlock i c))) = [] \<and>
     item_parts lower stringify opened q (BlockItem (Leaf (TextBlock i c))) = [(i, True)]"
  by (simp add: stream_row_def)

end
