(* ===== verification/Credentials.thy ===== *)
theory Credentials
  imports Routes ChatSocket
begin

text \<open>
  The credentials of a user: the panel of the settings (\<open>features/settings/components/credentials-panel.tsx\<close>,
  \<open>api/credentials-api.ts\<close>) with the routes of the API (\<open>api/app/routers/credentials.py\<close>) and the vault behind them. The
  panel's requests are calls that the server handles at any time after they are sent, and whose answers arrive at any
  time after that, or get lost. Which credentials there are, which the catalog of tools says, is a parameter; labels and descriptions are left out.
\<close>

section \<open>The API\<close>

record key_status =
  ks_key :: string
  ks_configured :: bool

record credential_namespace =
  cn_namespace :: string
  cn_keys :: "key_status list"

record cred_listing =
  cl_vault_enabled :: bool
  cl_namespaces :: "credential_namespace list"

type_synonym cred_id = "string \<times> string"
type_synonym vault = "cred_id \<Rightarrow> string option"
type_synonym cred_specs = "(string \<times> string list) list"

text \<open>The credentials that the tools of a catalog ask for, by server, in the order in which they are first seen.\<close>

definition tool_server :: "string \<Rightarrow> string option" where
  "tool_server name = map_option (\<lambda>i. take i name) (sub_index name ''__'')"

fun add_keys :: "string list \<Rightarrow> string list \<Rightarrow> string list" where
  "add_keys [] existing = existing"
| "add_keys (k # ks) existing = add_keys ks (if k \<noteq> [] \<and> k \<notin> set existing then existing @ [k] else existing)"

definition server_credential_keys :: "(string \<times> string list) list \<Rightarrow> (string, string list) jmap" where
  "server_credential_keys tools =
     foldl (\<lambda>m (name, keys). case tool_server name of
         Some server \<Rightarrow> if keys = [] then m
           else mput server (add_keys keys (case mget m server of Some e \<Rightarrow> e | None \<Rightarrow> [])) m
       | None \<Rightarrow> m) [] tools"

definition PLATFORM_KEYS :: "string list" where
  "PLATFORM_KEYS = [''anthropic-api-key'', ''github-token'']"

text \<open>\<open>_gather_namespaces\<close>: the platform first, then the servers by name.\<close>

definition gather_namespaces :: "(string list \<Rightarrow> string list) \<Rightarrow> (string \<times> string list) list \<Rightarrow> cred_specs" where
  "gather_namespaces by_name tools =
     (let m = server_credential_keys tools
      in (''aviary'', PLATFORM_KEYS) # map (\<lambda>s. (s, case mget m s of Some ks \<Rightarrow> ks | None \<Rightarrow> [])) (by_name (map fst m)))"

text \<open>A credential counts as there when its value is not empty. Without a vault the file of the platform is read.\<close>

definition list_credentials :: "bool \<Rightarrow> cred_specs \<Rightarrow> vault \<Rightarrow> cred_listing" where
  "list_credentials enabled specs v =
     \<lparr>cl_vault_enabled = enabled,
      cl_namespaces = map (\<lambda>(n, ks). \<lparr>cn_namespace = n, cn_keys = map (\<lambda>k. \<lparr>ks_key = k, ks_configured = truthy (v (n, k))\<rparr>) ks\<rparr>) specs\<rparr>"

definition known :: "cred_specs \<Rightarrow> cred_id \<Rightarrow> bool" where
  "known specs r = (case find (\<lambda>s. fst s = fst r) specs of Some s \<Rightarrow> snd r \<in> set (snd s) | None \<Rightarrow> False)"

datatype cred_refusal = NotConfigured | UnknownCredential cred_id | EmptyValue | Lost string

datatype cred_answer = Listing cred_listing | Taken | Refused cred_refusal

text \<open>What a row asks for; the request of a list remembers the row that waits for it.\<close>

datatype cred_call = ListCall "cred_id option" | WriteCall cred_id string | RemoveCall cred_id

definition credential_path :: "cred_id \<Rightarrow> string" where
  "credential_path r = ''/credentials/'' @ encodeURIComponent (fst r) @ ''/'' @ encodeURIComponent (snd r)"

fun serve_credential :: "bool \<Rightarrow> cred_specs \<Rightarrow> cred_call \<Rightarrow> vault \<Rightarrow> cred_answer \<times> vault" where
  "serve_credential enabled specs (ListCall owner) v = (Listing (list_credentials enabled specs v), v)"
| "serve_credential enabled specs (WriteCall r x) v =
     (if x = [] then (Refused EmptyValue, v)
      else if \<not> enabled then (Refused NotConfigured, v)
      else if \<not> known specs r then (Refused (UnknownCredential r), v)
      else (Taken, v(r \<mapsto> x)))"
| "serve_credential enabled specs (RemoveCall r) v =
     (if \<not> enabled then (Refused NotConfigured, v)
      else if \<not> known specs r then (Refused (UnknownCredential r), v)
      else (Taken, v(r := None)))"

section \<open>The panel\<close>

datatype busy_with = Saving | Deleting

record cred_row =
  cw_draft :: string
  cw_busy :: "busy_with option"
  cw_error :: "cred_refusal option"

record cred_panel =
  cp_data :: "cred_listing option"
  cp_error :: "cred_refusal option"
  cp_rows :: "cred_id \<Rightarrow> cred_row"
  cp_calls :: "(cred_call \<times> cred_answer option) list"

definition newRow :: cred_row where
  "newRow = \<lparr>cw_draft = [], cw_busy = None, cw_error = None\<rparr>"

definition send_call :: "cred_call \<Rightarrow> cred_panel \<Rightarrow> cred_panel" where
  "send_call c p = p\<lparr>cp_calls := cp_calls p @ [(c, None)]\<rparr>"

definition openPanel :: cred_panel where
  "openPanel = send_call (ListCall None) \<lparr>cp_data = None, cp_error = None, cp_rows = (\<lambda>_. newRow), cp_calls = []\<rparr>"

definition in_row :: "cred_id \<Rightarrow> (cred_row \<Rightarrow> cred_row) \<Rightarrow> cred_panel \<Rightarrow> cred_panel" where
  "in_row r f p = p\<lparr>cp_rows := (cp_rows p)(r := f (cp_rows p r))\<rparr>"

text \<open>The status of a row, none if the panel does not list it.\<close>

definition shown_status :: "cred_listing \<Rightarrow> cred_id \<Rightarrow> bool option" where
  "shown_status l r =
     map_option ks_configured (find (\<lambda>k. ks_key k = snd r)
       (concat (map cn_keys (filter (\<lambda>n. cn_namespace n = fst r) (cl_namespaces l)))))"

definition editable :: "cred_panel \<Rightarrow> cred_id \<Rightarrow> bool" where
  "editable p r = (case cp_data p of None \<Rightarrow> False
     | Some l \<Rightarrow> shown_status l r \<noteq> None \<and> cl_vault_enabled l \<and> cw_busy (cp_rows p r) = None)"

text \<open>The field is disabled unless the row is editable, so neither typing nor Enter reaches it.\<close>

definition type_draft :: "cred_id \<Rightarrow> string \<Rightarrow> cred_panel \<Rightarrow> cred_panel" where
  "type_draft r x p = (if editable p r then in_row r (\<lambda>w. w\<lparr>cw_draft := x\<rparr>) p else p)"

definition onSave :: "cred_id \<Rightarrow> cred_panel \<Rightarrow> cred_panel" where
  "onSave r p =
     (if \<not> editable p r \<or> trim_space (cw_draft (cp_rows p r)) = [] then p
      else send_call (WriteCall r (cw_draft (cp_rows p r))) (in_row r (\<lambda>w. w\<lparr>cw_busy := Some Saving, cw_error := None\<rparr>) p))"

definition onDelete :: "cred_id \<Rightarrow> cred_panel \<Rightarrow> cred_panel" where
  "onDelete r p =
     (if \<not> editable p r \<or> (case cp_data p of Some l \<Rightarrow> shown_status l r \<noteq> Some True | None \<Rightarrow> True) then p
      else send_call (RemoveCall r) (in_row r (\<lambda>w. w\<lparr>cw_busy := Some Deleting, cw_error := None\<rparr>) p))"

definition idle_row :: "cred_id option \<Rightarrow> cred_panel \<Rightarrow> cred_panel" where
  "idle_row owner p = (case owner of None \<Rightarrow> p | Some r \<Rightarrow> in_row r (\<lambda>w. w\<lparr>cw_busy := None\<rparr>) p)"

text \<open>\<open>refresh\<close> and the rest of \<open>onSave\<close> and \<open>onDelete\<close> after an answer; \<open>refresh\<close> itself never fails.\<close>

fun cred_answered :: "cred_call \<Rightarrow> cred_answer \<Rightarrow> cred_panel \<Rightarrow> cred_panel" where
  "cred_answered (ListCall owner) (Listing l) p = idle_row owner (p\<lparr>cp_data := Some l, cp_error := None\<rparr>)"
| "cred_answered (ListCall owner) (Refused e) p = idle_row owner (p\<lparr>cp_error := Some e\<rparr>)"
| "cred_answered (WriteCall r x) (Refused e) p = in_row r (\<lambda>w. w\<lparr>cw_error := Some e, cw_busy := None\<rparr>) p"
| "cred_answered (WriteCall r x) a p = send_call (ListCall (Some r)) (in_row r (\<lambda>w. w\<lparr>cw_draft := []\<rparr>) p)"
| "cred_answered (RemoveCall r) (Refused e) p = in_row r (\<lambda>w. w\<lparr>cw_error := Some e, cw_busy := None\<rparr>) p"
| "cred_answered (RemoveCall r) a p = send_call (ListCall (Some r)) p"
| "cred_answered c a p = p"

section \<open>Runs\<close>

datatype cred_event =
    TypeDraft cred_id string
  | SaveRow cred_id
  | DeleteRow cred_id
  | Handled nat
  | LostOnWay nat string
  | Arrives nat

definition remove_nth :: "nat \<Rightarrow> 'a list \<Rightarrow> 'a list" where
  "remove_nth n xs = take n xs @ drop (Suc n) xs"

fun cred_step :: "bool \<Rightarrow> cred_specs \<Rightarrow> cred_panel \<times> vault \<Rightarrow> cred_event \<Rightarrow> cred_panel \<times> vault" where
  "cred_step en specs (p, v) (TypeDraft r x) = (type_draft r x p, v)"
| "cred_step en specs (p, v) (SaveRow r) = (onSave r p, v)"
| "cred_step en specs (p, v) (DeleteRow r) = (onDelete r p, v)"
| "cred_step en specs (p, v) (Handled n) =
     (if n < length (cp_calls p) \<and> snd (cp_calls p ! n) = None
      then (case serve_credential en specs (fst (cp_calls p ! n)) v of
              (a, v') \<Rightarrow> (p\<lparr>cp_calls := (cp_calls p)[n := (fst (cp_calls p ! n), Some a)]\<rparr>, v'))
      else (p, v))"
| "cred_step en specs (p, v) (LostOnWay n m) =
     (if n < length (cp_calls p)
      then (p\<lparr>cp_calls := (cp_calls p)[n := (fst (cp_calls p ! n), Some (Refused (Lost m)))]\<rparr>, v) else (p, v))"
| "cred_step en specs (p, v) (Arrives n) =
     (if n < length (cp_calls p)
      then (case cp_calls p ! n of
              (c, Some a) \<Rightarrow> (cred_answered c a (p\<lparr>cp_calls := remove_nth n (cp_calls p)\<rparr>), v)
            | (c, None) \<Rightarrow> (p, v))
      else (p, v))"

section \<open>What holds in every run\<close>

fun call_row :: "cred_call \<Rightarrow> cred_id option" where
  "call_row (ListCall owner) = owner"
| "call_row (WriteCall r x) = Some r"
| "call_row (RemoveCall r) = Some r"

fun row_list :: "cred_id option \<Rightarrow> cred_id list" where
  "row_list None = []"
| "row_list (Some r) = [r]"

definition owners :: "(cred_call \<times> 'a) list \<Rightarrow> cred_id list" where
  "owners cs = concat (map (\<lambda>c. row_list (call_row (fst c))) cs)"

fun answer_fits :: "cred_call \<Rightarrow> cred_answer \<Rightarrow> bool" where
  "answer_fits (ListCall owner) a \<longleftrightarrow> a \<noteq> Taken"
| "answer_fits c (Listing l) \<longleftrightarrow> False"
| "answer_fits c a \<longleftrightarrow> True"

fun call_ok :: "(cred_id \<Rightarrow> cred_row) \<Rightarrow> vault \<Rightarrow> cred_call \<times> cred_answer option \<Rightarrow> bool" where
  "call_ok rows v (c, a) \<longleftrightarrow>
     (case a of None \<Rightarrow> True | Some x \<Rightarrow> answer_fits c x) \<and>
     (case c of WriteCall r x \<Rightarrow> x = cw_draft (rows r) \<and> (a = Some Taken \<longrightarrow> v r = Some x) | _ \<Rightarrow> True)"

text \<open>A row is busy exactly while one request of its own is on the way, and what is on the way is what it shows.\<close>

fun cred_ok :: "cred_panel \<times> vault \<Rightarrow> bool" where
  "cred_ok (p, v) \<longleftrightarrow>
     distinct (owners (cp_calls p)) \<and> set (owners (cp_calls p)) = {r. cw_busy (cp_rows p r) \<noteq> None} \<and>
     list_all (call_ok (cp_rows p) v) (cp_calls p)"

lemma owners_simps [simp]:
  "owners [] = []" "owners (c # cs) = row_list (call_row (fst c)) @ owners cs" "owners (as @ bs) = owners as @ owners bs"
  by (simp_all add: owners_def)

lemma split_calls:
  assumes "n < length xs"
  shows "\<exists>as bs. xs = as @ xs ! n # bs \<and> length as = n \<and> remove_nth n xs = as @ bs \<and> (\<forall>y. xs[n := y] = as @ y # bs)"
proof -
  have "xs = take n xs @ xs ! n # drop (Suc n) xs" using id_take_nth_drop [OF assms] .
  moreover have "\<forall>y. xs[n := y] = take n xs @ y # drop (Suc n) xs" using assms by (simp add: upd_conv_take_nth_drop)
  moreover have "length (take n xs) = n" using assms by simp
  ultimately show ?thesis unfolding remove_nth_def by blast
qed

text \<open>Changing a row or the vault only touches the calls of that row.\<close>

lemma call_ok_other:
  "call_row (fst c) \<noteq> Some r \<Longrightarrow> call_ok (rows(r := w)) v c = call_ok rows v c"
  "call_row (fst c) \<noteq> Some r \<Longrightarrow> call_ok rows (v(r := x)) c = call_ok rows v c"
  by (cases c; cases "fst c"; auto simp: call_ok.simps)+

declare call_ok.simps [simp del]

lemma list_call_ok [simp]: "call_ok rows v (ListCall x, None)"
  by (simp add: call_ok.simps)

lemma in_row_list [simp]: "r \<in> set (row_list x) \<longleftrightarrow> x = Some r"
  by (cases x) auto

lemma calls_ok_other:
  assumes "r \<notin> set (owners cs)"
  shows "list_all (call_ok (rows(r := w)) v) cs = list_all (call_ok rows v) cs"
    and "list_all (call_ok rows (v(r := x))) cs = list_all (call_ok rows v) cs"
  using assms by (induction cs) (auto simp: call_ok_other)

lemma calls_ok_draft:
  assumes "cw_draft w = cw_draft (rows r)"
  shows "list_all (call_ok (rows(r := w)) v) cs = list_all (call_ok rows v) cs"
proof -
  have "call_ok (rows(r := w)) v c = call_ok rows v c" for c
    using assms by (cases c; cases "fst c") (auto simp: call_ok.simps)
  then show ?thesis by (simp add: list_all_iff)
qed

lemma editable_idle: "editable p r \<Longrightarrow> cw_busy (cp_rows p r) = None"
  by (auto simp: editable_def split: option.splits)

lemma cred_ok_type: "cred_ok (p, v) \<Longrightarrow> cred_ok (type_draft r x p, v)"
  using editable_idle [of p r] calls_ok_other(1) [of r "cp_calls p"]
  by (auto simp: type_draft_def in_row_def)

lemma cred_ok_call:
  assumes "cred_ok (p, v)" and "cw_busy (cp_rows p r) = None" and "call_row c = Some r" and "b \<noteq> None"
    and "\<And>x. c = WriteCall r x \<Longrightarrow> x = cw_draft (cp_rows p r)"
  shows "cred_ok (send_call c (in_row r (\<lambda>w. w\<lparr>cw_busy := b, cw_error := None\<rparr>) p), v)"
proof -
  have new: "call_ok ((cp_rows p)(r := (cp_rows p r)\<lparr>cw_busy := b, cw_error := None\<rparr>)) v (c, None)"
    using assms(3,5) by (cases c) (auto simp: call_ok.simps)
  show ?thesis
    using assms new calls_ok_draft [of "(cp_rows p r)\<lparr>cw_busy := b, cw_error := None\<rparr>" "cp_rows p" r v "cp_calls p"]
    by (auto simp: send_call_def in_row_def)
qed

lemma served_fits: "serve_credential en specs c v = (a, v') \<Longrightarrow> answer_fits c a \<and>
  (\<forall>r x. c = WriteCall r x \<longrightarrow> a = Taken \<longrightarrow> v' r = Some x) \<and> (v' = v \<or> (\<exists>r x. call_row c = Some r \<and> v' = v(r := x)))"
  by (cases c) (auto split: if_splits)

lemma cred_ok_handled:
  assumes "cred_ok (p, v)" and calls: "cp_calls p = as @ (c, None) # bs" and served: "serve_credential en specs c v = (a, v')"
  shows "cred_ok (p\<lparr>cp_calls := as @ (c, Some a) # bs\<rparr>, v')"
proof -
  from assms(1) calls have ok: "list_all (call_ok (cp_rows p) v) as" "list_all (call_ok (cp_rows p) v) bs" "call_ok (cp_rows p) v (c, None)"
    and dist: "distinct (owners as @ row_list (call_row c) @ owners bs)" by auto
  have "list_all (call_ok (cp_rows p) v') as \<and> list_all (call_ok (cp_rows p) v') bs"
    using served_fits [OF served] ok dist by (auto simp: calls_ok_other)
  moreover have "call_ok (cp_rows p) v' (c, Some a)"
    using served_fits [OF served] ok(3) by (cases c) (auto simp: call_ok.simps)
  ultimately show ?thesis using assms(1) calls by auto
qed

lemma cred_ok_lost:
  assumes "cred_ok (p, v)" and "cp_calls p = as @ (c, a) # bs"
  shows "cred_ok (p\<lparr>cp_calls := as @ (c, Some (Refused e)) # bs\<rparr>, v)"
proof -
  have "call_ok (cp_rows p) v (c, Some (Refused e))" using assms by (cases c) (auto simp: call_ok.simps)
  with assms show ?thesis by auto
qed

lemma cred_ok_arrives:
  assumes "cred_ok (p, v)" and calls: "cp_calls p = as @ (c, Some a) # bs"
  shows "cred_ok (cred_answered c a (p\<lparr>cp_calls := as @ bs\<rparr>), v)"
proof -
  from assms have ok: "list_all (call_ok (cp_rows p) v) (as @ bs)" and dist: "distinct (owners as @ row_list (call_row c) @ owners bs)"
    and busy: "set (owners as) \<union> set (row_list (call_row c)) \<union> set (owners bs) = {r. cw_busy (cp_rows p r) \<noteq> None}"
    and fits: "answer_fits c a" by (auto simp: call_ok.simps)
  show ?thesis
  proof (cases "call_row c")
    case None
    then show ?thesis using ok dist busy fits by (cases c; cases a) (auto simp: idle_row_def)
  next
    case (Some r)
    with dist have r: "r \<notin> set (owners (as @ bs))" by auto
    have other: "list_all (call_ok ((cp_rows p)(r := w)) v) (as @ bs)" for w
      using calls_ok_other(1) [OF r] ok by blast
    show ?thesis
      using Some other ok dist busy fits r
      by (cases c; cases a) (auto simp: idle_row_def in_row_def send_call_def)
  qed
qed

interpretation credentials: machine "cred_step en specs" cred_ok for en specs
proof
  show "cred_ok (cred_step en specs s e)" if good: "cred_ok s" for s e
  proof (cases s)
    case (Pair p v)
    with good have ok: "cred_ok (p, v)" by simp
    show ?thesis
    proof (cases e)
      case (TypeDraft r x)
      with ok Pair show ?thesis by (simp add: cred_ok_type del: cred_ok.simps)
    next
      case (SaveRow r)
      with ok Pair cred_ok_call [OF ok editable_idle, of r "WriteCall r (cw_draft (cp_rows p r))" "Some Saving"]
      show ?thesis by (simp add: onSave_def del: cred_ok.simps)
    next
      case (DeleteRow r)
      with ok Pair cred_ok_call [OF ok editable_idle, of r "RemoveCall r" "Some Deleting"]
      show ?thesis by (simp add: onDelete_def del: cred_ok.simps)
    next
      case (Handled n)
      show ?thesis
      proof (cases "n < length (cp_calls p) \<and> snd (cp_calls p ! n) = None")
        case True
        then obtain as bs c where split: "cp_calls p = as @ (c, None) # bs" "cp_calls p ! n = (c, None)"
          "\<forall>y. (cp_calls p)[n := y] = as @ y # bs"
          using split_calls [of n "cp_calls p"] by (metis prod.collapse)
        obtain a v' where served: "serve_credential en specs c v = (a, v')" by fastforce
        from cred_ok_handled [OF ok split(1) served] show ?thesis
          using True Handled Pair split served by (simp del: cred_ok.simps)
      qed (use ok Handled Pair in \<open>auto simp del: cred_ok.simps\<close>)
    next
      case (LostOnWay n m)
      show ?thesis
      proof (cases "n < length (cp_calls p)")
        case True
        then obtain as bs c a where split: "cp_calls p = as @ (c, a) # bs" "cp_calls p ! n = (c, a)"
          "\<forall>y. (cp_calls p)[n := y] = as @ y # bs"
          using split_calls [of n "cp_calls p"] by (metis prod.collapse)
        from cred_ok_lost [OF ok split(1)] show ?thesis
          using True LostOnWay Pair split by (simp del: cred_ok.simps)
      qed (use ok LostOnWay Pair in \<open>simp del: cred_ok.simps\<close>)
    next
      case (Arrives n)
      show ?thesis
      proof (cases "n < length (cp_calls p)")
        case True
        then obtain as bs c a where split: "cp_calls p = as @ (c, a) # bs" "cp_calls p ! n = (c, a)"
          "remove_nth n (cp_calls p) = as @ bs"
          using split_calls [of n "cp_calls p"] by (metis prod.collapse)
        show ?thesis
        proof (cases a)
          case (Some x)
          with cred_ok_arrives [OF ok, of as c x bs] split show ?thesis
            using True Arrives Pair by (simp del: cred_ok.simps)
        qed (use True Arrives Pair split ok in \<open>simp del: cred_ok.simps\<close>)
      qed (use ok Arrives Pair in \<open>simp del: cred_ok.simps\<close>)
    qed
  qed
qed

definition cred_run :: "bool \<Rightarrow> cred_specs \<Rightarrow> vault \<Rightarrow> cred_event list \<Rightarrow> cred_panel \<times> vault" where
  "cred_run en specs v0 es = foldl (cred_step en specs) (openPanel, v0) es"

lemma cred_run_ok: "cred_ok (cred_run en specs v0 es)"
  unfolding cred_run_def
  by (rule credentials.run_good) (simp add: openPanel_def send_call_def newRow_def)

lemma owners_count: "distinct (owners cs) \<Longrightarrow> length (filter (\<lambda>c. call_row (fst c) = Some r) cs) \<le> 1"
proof (induction cs)
  case (Cons c cs)
  show ?case
  proof (cases "call_row (fst c) = Some r")
    case True
    with Cons.prems have "r \<notin> set (owners cs)" by simp
    then have "filter (\<lambda>c. call_row (fst c) = Some r) cs = []"
      by (auto simp: filter_empty_conv owners_def)
    with True show ?thesis by simp
  qed (use Cons in simp)
qed simp

text \<open>
  C38. A secret that was typed is not lost: at every moment a row has at most one request on the way, and when an
  answer empties its field, then the vault holds what the field held; an error leaves the field as it is.
\<close>

theorem typed_credential_is_stored:
  "let (p, v) = cred_run en specs v0 es; p' = fst (cred_step en specs (p, v) (Arrives n))
   in length (filter (\<lambda>c. call_row (fst c) = Some r) (cp_calls p)) \<le> 1 \<and>
      (cw_draft (cp_rows p' r) = cw_draft (cp_rows p r) \<or> v r = Some (cw_draft (cp_rows p r)) \<and> cw_draft (cp_rows p' r) = [])"
proof -
  obtain p v where run: "cred_run en specs v0 es = (p, v)" by fastforce
  from cred_run_ok [of en specs v0 es] have ok: "cred_ok (p, v)" by (simp only: run)
  let ?p = "fst (cred_step en specs (p, v) (Arrives n))"
  have draft: "cw_draft (cp_rows ?p r) = cw_draft (cp_rows p r) \<or> v r = Some (cw_draft (cp_rows p r)) \<and> cw_draft (cp_rows ?p r) = []"
  proof (cases "n < length (cp_calls p)")
    case True
    obtain c a where ca: "cp_calls p ! n = (c, a)" by fastforce
    with True ok have fits: "call_ok (cp_rows p) v (c, a)" by (auto simp: list_all_length) 
    show ?thesis
    proof (cases a)
      case (Some x)
      with fits True ca show ?thesis
        by (cases c; cases x)
          (auto simp: call_ok.simps idle_row_def in_row_def send_call_def split: option.splits)
    qed (use True ca in simp)
  qed simp
  have "length (filter (\<lambda>c. call_row (fst c) = Some r) (cp_calls p)) \<le> 1"
    by (rule owners_count) (use ok in simp)
  with draft show ?thesis by (simp add: run del: cred_step.simps)
qed

text \<open>
  Two rows that save at once can leave the panel wrong: the list that was read before the second write arrives last, and
  the credential that was stored is shown as missing.
\<close>

definition two_rows :: cred_specs where
  "two_rows = [(''aviary'', [''a'', ''b''])]"

lemma late_list_hides_credential:
  "(case cred_run True two_rows (\<lambda>_. None)
      [Handled 0, Arrives 0, TypeDraft (''aviary'', ''a'') ''x'', TypeDraft (''aviary'', ''b'') ''y'', SaveRow (''aviary'', ''a''),
       Handled 0, Arrives 0, Handled 0, SaveRow (''aviary'', ''b''), Handled 1, Arrives 1, Handled 1, Arrives 1, Arrives 0] of
      (p, v) \<Rightarrow> (cp_calls p = [], v (''aviary'', ''b''), map_option (\<lambda>l. shown_status l (''aviary'', ''b'')) (cp_data p))) =
    (True, Some ''y'', Some (Some False))"
  by code_simp

text \<open>A server that is called like the platform has credentials that the panel offers and the API does not know.\<close>

lemma shadowed_namespace:
  "k \<notin> set PLATFORM_KEYS \<Longrightarrow> \<not> known (gather_namespaces by_name tools) (''aviary'', k)"
  by (simp add: known_def gather_namespaces_def Let_def)

section \<open>The panel shows the vault\<close>

text \<open>One thing at a time: a row is saved or deleted only when nothing is on the way.\<close>

fun one_at_a_time :: "cred_panel \<times> vault \<Rightarrow> cred_event \<Rightarrow> bool" where
  "one_at_a_time (p, v) (SaveRow r) \<longleftrightarrow> cp_calls p = []"
| "one_at_a_time (p, v) (DeleteRow r) \<longleftrightarrow> cp_calls p = []"
| "one_at_a_time s e \<longleftrightarrow> True"

definition no_errors :: "cred_panel \<Rightarrow> bool" where
  "no_errors p \<longleftrightarrow> cp_error p = None \<and> (\<forall>r. cw_error (cp_rows p r) = None)"

fun panel_shows :: "bool \<Rightarrow> cred_specs \<Rightarrow> cred_panel \<times> vault \<Rightarrow> bool" where
  "panel_shows en specs (p, v) \<longleftrightarrow>
     (case cp_calls p of
        [] \<Rightarrow> no_errors p \<longrightarrow> cp_data p = Some (list_credentials en specs v)
      | [(c, a)] \<Rightarrow> (case a of None \<Rightarrow> True
           | Some x \<Rightarrow> answer_fits c x \<and> (\<forall>l. x = Listing l \<longrightarrow> l = list_credentials en specs v))
      | _ \<Rightarrow> False)"

lemma served_list: "serve_credential en specs c v = (a, v') \<Longrightarrow> a = Listing l \<Longrightarrow> l = list_credentials en specs v' \<and> v' = v"
  by (cases c) (auto split: if_splits)

lemma shows_same: "panel_shows en specs (p, v) \<Longrightarrow> cp_calls p' = cp_calls p \<Longrightarrow> cp_data p' = cp_data p \<Longrightarrow> cp_error p' = cp_error p \<Longrightarrow>
  (\<And>r. cw_error (cp_rows p' r) = cw_error (cp_rows p r)) \<Longrightarrow> panel_shows en specs (p', v)"
  by (auto simp: no_errors_def split: list.splits)

lemma row_error_shown: "cw_error (cp_rows p r) = Some e \<Longrightarrow> \<not> no_errors p"
  unfolding no_errors_def by (metis option.distinct(1))

lemma shows_row_error:
  "cp_calls p = [] \<Longrightarrow> panel_shows en specs (in_row r (\<lambda>w. w\<lparr>cw_error := Some e, cw_busy := None\<rparr>) p, v)"
  using row_error_shown [of "in_row r (\<lambda>w. w\<lparr>cw_error := Some e, cw_busy := None\<rparr>) p" r e] by (simp add: in_row_def)

lemma shows_arrives:
  assumes "cp_calls p = [(c, Some a)]" "panel_shows en specs (p, v)"
  shows "panel_shows en specs (cred_answered c a (p\<lparr>cp_calls := []\<rparr>), v)"
proof (cases c)
  case (ListCall owner)
  with assms show ?thesis
    by (cases a; cases owner) (auto simp: idle_row_def in_row_def no_errors_def)
next
  case (WriteCall r x)
  with assms show ?thesis by (cases a) (simp_all add: shows_row_error del: panel_shows.simps, simp_all add: in_row_def send_call_def)
next
  case (RemoveCall r)
  with assms show ?thesis by (cases a) (simp_all add: shows_row_error del: panel_shows.simps, simp_all add: in_row_def send_call_def)
qed

interpretation tidy_panel: guarded_machine "cred_step en specs" one_at_a_time "panel_shows en specs" for en specs
proof
  show "panel_shows en specs (cred_step en specs s e)" if good: "panel_shows en specs s" and fits: "one_at_a_time s e" for s e
  proof (cases s)
    case (Pair p v)
    with good have ok: "panel_shows en specs (p, v)" by simp
    then have one: "n < length (cp_calls p) \<Longrightarrow> n = 0 \<and> cp_calls p = [cp_calls p ! n]" for n
      by (cases "cp_calls p"; cases "tl (cp_calls p)") auto
    show ?thesis
    proof (cases e)
      case (TypeDraft r x)
      have "panel_shows en specs (type_draft r x p, v)"
        by (rule shows_same [OF ok]) (simp_all add: type_draft_def in_row_def)
      with TypeDraft Pair show ?thesis by simp
    next
      case (SaveRow r)
      with fits Pair ok show ?thesis by (auto simp: onSave_def send_call_def in_row_def)
    next
      case (DeleteRow r)
      with fits Pair ok show ?thesis by (auto simp: onDelete_def send_call_def in_row_def)
    next
      case (Handled n)
      show ?thesis
      proof (cases "n < length (cp_calls p) \<and> snd (cp_calls p ! n) = None")
        case True
        with one obtain c where c: "cp_calls p = [(c, None)]" "n = 0" by (metis prod.collapse)
        obtain a v' where served: "serve_credential en specs c v = (a, v')" by fastforce
        from served_fits [OF this] served_list [OF this] c Handled Pair served show ?thesis by auto
      qed (use ok Handled Pair in \<open>auto simp del: panel_shows.simps\<close>)
    next
      case (LostOnWay n m)
      show ?thesis
      proof (cases "n < length (cp_calls p)")
        case True
        with one obtain c a where c: "cp_calls p = [(c, a)]" "n = 0" by (metis prod.collapse)
        with LostOnWay Pair show ?thesis by (cases c) auto
      qed (use ok LostOnWay Pair in \<open>simp del: panel_shows.simps\<close>)
    next
      case (Arrives n)
      show ?thesis
      proof (cases "n < length (cp_calls p)")
        case True
        with one obtain c a where c: "cp_calls p = [(c, a)]" "n = 0" by (metis prod.collapse)
        then show ?thesis
          using Arrives Pair ok shows_arrives [of p c _ en specs v]
          by (cases a) (simp_all add: remove_nth_def del: panel_shows.simps)
      qed (use ok Arrives Pair in \<open>simp del: panel_shows.simps\<close>)
    qed
  qed
qed

text \<open>
  The panel shows the vault. If a row is only saved or deleted while nothing is on the way, then
  whenever nothing is on the way and no error is shown, the panel shows of every credential whether the vault holds it,
  whatever answers were late or lost.
\<close>

theorem credentials_shown_as_stored:
  "let (p, v) = foldl (\<lambda>s e. if one_at_a_time s e then cred_step en specs s e else s) (openPanel, v0) es
   in panel_shows en specs (p, v)"
proof -
  have "panel_shows en specs (foldl (\<lambda>s e. if one_at_a_time s e then cred_step en specs s e else s) (openPanel, v0) es)"
    by (rule tidy_panel.run_good) (simp add: openPanel_def send_call_def)
  then show ?thesis by (simp add: case_prod_unfold Let_def del: panel_shows.simps)
qed

end
