(* ===== verification/FileViews.thy ===== *)
theory FileViews
  imports PanelProps ChatSocket
begin

text \<open>
  What the workspace panel shows of the tree and of a file: the lines of the tree with the inputs for new names
  (\<open>file-tree.tsx\<close>, \<open>tree-node.tsx\<close>, \<open>rename-input.tsx\<close>), and the view of the active tab (\<open>file-editor.tsx\<close>).
  Layout and icons are left out.
\<close>

section \<open>The lines of the tree\<close>

record tree_ui =
  ui_active :: "string option"
  ui_renaming :: "string option"
  ui_pending :: "(string \<times> new_mode) option"

text \<open>An entry with its path and depth, and whether it is open, loading and active; and the other lines.\<close>

datatype tree_line =
    EntryLine string nat TreeEntry bool bool bool
  | RenameLine string nat string
  | NewLine string nat new_mode
  | EmptyLine nat
  | ErrorLine nat string

text \<open>\<open>TreeNode\<close>, over the lines of the children of a path.\<close>

definition node_lines ::
  "(string \<Rightarrow> nat \<Rightarrow> tree_line list) \<Rightarrow> tree_ui \<Rightarrow> tree_panel \<Rightarrow> TreeEntry \<Rightarrow> string \<Rightarrow> nat \<Rightarrow> tree_line list" where
  "node_lines kids ui t entry path depth =
     (let isDir = (entry_type entry = DirEntry);
          isExpanded = (isDir \<and> path \<in> set (tp_expanded t));
          node = mget (tp_nodes t) path;
          isLoading = (isDir \<and> (case node of Some n \<Rightarrow> tn_loading n | None \<Rightarrow> False));
          isActive = (\<not> isDir \<and> ui_active ui = Some path)
      in if ui_renaming ui = Some path then [RenameLine path depth (entry_name entry)]
         else EntryLine path depth entry isExpanded isLoading isActive #
           (case node of
              None \<Rightarrow> []
            | Some n \<Rightarrow> if \<not> isExpanded then []
                else (if tn_loaded n then kids path (Suc depth) else []) @
                     (if truthy (tn_error n) then [ErrorLine (Suc depth) (the (tn_error n))] else [])))"

text \<open>\<open>TreeChildren\<close>. The fuel is the number of levels; \<open>enough_levels\<close> shows how much is enough.\<close>

fun tree_lines :: "nat \<Rightarrow> tree_ui \<Rightarrow> tree_panel \<Rightarrow> string \<Rightarrow> nat \<Rightarrow> tree_line list" where
  "tree_lines 0 ui t parent depth = []"
| "tree_lines (Suc n) ui t parent depth =
     (case mget (tp_nodes t) parent of
        None \<Rightarrow> []
      | Some node \<Rightarrow>
          if \<not> tn_loaded node then []
          else (case ui_pending ui of
                  Some (p, mode) \<Rightarrow> if p = parent then [NewLine parent depth mode]
                    else if tn_entries node = [] then [EmptyLine depth] else []
                | None \<Rightarrow> if tn_entries node = [] then [EmptyLine depth] else []) @
               concat (map (\<lambda>e. node_lines (tree_lines n ui t) ui t e (joinPath parent (entry_name e)) depth) (tn_entries node)))"

datatype tree_view = TreeLoading | TreeFailed string | TreeLines "tree_line list"

definition file_tree :: "tree_ui \<Rightarrow> tree_panel \<Rightarrow> tree_view" where
  "file_tree ui t =
     (case mget (tp_nodes t) ROOT_PATH of
        None \<Rightarrow> TreeLines (tree_lines (Suc (length (tp_nodes t))) ui t ROOT_PATH 0)
      | Some r \<Rightarrow>
          if \<not> tn_loaded r \<and> tn_loading r then TreeLoading
          else if truthy (tn_error r) then TreeFailed (the (tn_error r))
          else TreeLines (tree_lines (Suc (length (tp_nodes t))) ui t ROOT_PATH 0))"

definition tree_ui_of :: "workspace_panel \<Rightarrow> tree_ui" where
  "tree_ui_of w =
     \<lparr>ui_active = map_option tab_path (activeTab (wp_editor w)),
      ui_renaming = wp_renaming w, ui_pending = wp_pendingNew w\<rparr>"

text \<open>A click, a double click and a key on an entry.\<close>

datatype line_action = ToggleDir string | OpenFile string bool | NoAction

definition line_click :: "TreeEntry \<Rightarrow> string \<Rightarrow> line_action" where
  "line_click entry path = (if entry_type entry = DirEntry then ToggleDir path else OpenFile path False)"

definition line_double_click :: "TreeEntry \<Rightarrow> string \<Rightarrow> line_action" where
  "line_double_click entry path = (if entry_type entry = DirEntry then NoAction else OpenFile path True)"

definition line_key :: "TreeEntry \<Rightarrow> string \<Rightarrow> string \<Rightarrow> line_action" where
  "line_key entry path k = (if k = ''Enter'' \<or> k = '' '' then line_click entry path else NoAction)"

subsection \<open>The input for a name\<close>

datatype input_action = SubmitName string | CancelName | KeepTyping

definition rename_selection :: "string \<Rightarrow> nat \<times> nat" where
  "rename_selection initialValue =
     (case last_index_of (CHR ''.'') initialValue of
        Some (Suc n) \<Rightarrow> (0, Suc n)
      | _ \<Rightarrow> (0, length initialValue))"

definition rename_key :: "string \<Rightarrow> bool \<Rightarrow> string \<Rightarrow> input_action" where
  "rename_key k composing value =
     (if k = ''Escape'' then CancelName
      else if composing then KeepTyping
      else if k = ''Enter'' then (let v = trim_space value in if v \<noteq> [] then SubmitName v else CancelName)
      else KeepTyping)"

definition rename_blur :: "string \<Rightarrow> string \<Rightarrow> input_action" where
  "rename_blur initialValue value =
     (let v = trim_space value in if v = [] \<or> v = initialValue then CancelName else SubmitName v)"

section \<open>The view of a file\<close>

definition isMarkdownPath :: "string \<Rightarrow> bool" where
  "isMarkdownPath p =
     (let ext = to_lower (case last_index_of (CHR ''.'') p of Some dot \<Rightarrow> drop (Suc dot) p | None \<Rightarrow> p)
      in ext = ''md'' \<or> ext = ''markdown'')"

text \<open>\<open>(bytes / d).toFixed(1)\<close> for a power of two, where the division is exact.\<close>

definition tenths_of :: "nat \<Rightarrow> nat \<Rightarrow> string" where
  "tenths_of bytes d =
     (let n = (20 * bytes + d) div (2 * d) in nat_string (n div 10) @ ''.'' @ nat_string (n mod 10))"

definition formatSize :: "nat \<Rightarrow> string" where
  "formatSize bytes =
     (if bytes < 1024 then nat_string bytes @ '' B''
      else if bytes < 1024 * 1024 then tenths_of bytes 1024 @ '' KB''
      else tenths_of bytes (1024 * 1024) @ '' MB'')"

datatype body_view =
    BodyLoading
  | BodyError string
  | BodyPdf string
  | BodyImage string
  | BodyBinary string
  | BodyPreview text16
  | BodySource "string option" text16

definition shown_text :: "EditorTab \<Rightarrow> text16" where
  "shown_text tab =
     (case tab_draft tab of Some d \<Rightarrow> d | None \<Rightarrow> (case tab_savedContent tab of Some s \<Rightarrow> s | None \<Rightarrow> []))"

definition editor_language :: "string \<Rightarrow> string option" where
  "editor_language path =
     monacoLanguageFor (case last_index_of (CHR ''/'') path of Some i \<Rightarrow> drop (Suc i) path | None \<Rightarrow> path)"

definition editor_body :: "string \<Rightarrow> bool \<Rightarrow> EditorTab \<Rightarrow> body_view" where
  "editor_body sessionId preview tab =
     (let path = tab_path tab; inlineUrl = downloadFileUrl sessionId path True
      in if tab_loading tab then BodyLoading
         else if truthy (tab_error tab) then BodyError (the (tab_error tab))
         else if tab_isBinary tab then
           (case binaryViewerFor path of
              Some PdfViewer \<Rightarrow> BodyPdf inlineUrl
            | Some ImageViewer \<Rightarrow> BodyImage inlineUrl
            | None \<Rightarrow> BodyBinary (formatSize (tab_size tab)))
         else if isMarkdownPath path \<and> preview then BodyPreview (shown_text tab)
         else BodySource (editor_language path) (shown_text tab))"

definition canEdit :: "EditorTab \<Rightarrow> bool" where
  "canEdit tab \<longleftrightarrow> \<not> tab_loading tab \<and> \<not> truthy (tab_error tab) \<and> \<not> tab_isBinary tab"

definition canSave :: "bool \<Rightarrow> EditorTab \<Rightarrow> bool" where
  "canSave saving tab \<longleftrightarrow> canEdit tab \<and> tab_draft tab \<noteq> None \<and> \<not> saving"

text \<open>The state of the view, whose effects run again for another path and when the text gets or loses changes.\<close>

record file_view =
  fv_tab :: EditorTab
  fv_preview :: bool
  fv_copied :: bool
  fv_timers :: nat

definition first_preview :: "EditorTab \<Rightarrow> bool" where
  "first_preview tab \<longleftrightarrow> isMarkdownPath (tab_path tab) \<and> tab_draft tab = None"

definition open_view :: "EditorTab \<Rightarrow> file_view" where
  "open_view tab = \<lparr>fv_tab = tab, fv_preview = first_preview tab, fv_copied = False, fv_timers = 0\<rparr>"

definition render_tab :: "EditorTab \<Rightarrow> file_view \<Rightarrow> file_view" where
  "render_tab tab v =
     (let old = fv_tab v; moved = (tab_path tab \<noteq> tab_path old);
          turned = ((tab_draft tab = None) \<noteq> (tab_draft old = None))
      in v\<lparr>fv_tab := tab,
           fv_preview := (if moved \<or> turned then first_preview tab else fv_preview v),
           fv_copied := (if moved then False else fv_copied v)\<rparr>)"

datatype view_event = RenderTab EditorTab | TogglePreview | PathCopied | PathTimer

definition view_step :: "file_view \<Rightarrow> view_event \<Rightarrow> file_view" where
  "view_step v e =
     (case e of
        RenderTab tab \<Rightarrow> render_tab tab v
      | TogglePreview \<Rightarrow> if isMarkdownPath (tab_path (fv_tab v)) then v\<lparr>fv_preview := \<not> fv_preview v\<rparr> else v
      | PathCopied \<Rightarrow> v\<lparr>fv_copied := True, fv_timers := fv_timers v + 1\<rparr>
      | PathTimer \<Rightarrow> if fv_timers v = 0 then v else v\<lparr>fv_copied := False, fv_timers := fv_timers v - 1\<rparr>)"

section \<open>The tree shows what is open\<close>

text \<open>The entries that ought to be seen: those of the root, and those of an open directory that is seen itself.\<close>

inductive seen :: "tree_ui \<Rightarrow> tree_panel \<Rightarrow> string \<Rightarrow> nat \<Rightarrow> TreeEntry \<Rightarrow> bool" for ui t where
  seen_root: "mget (tp_nodes t) ROOT_PATH = Some n \<Longrightarrow> tn_loaded n \<Longrightarrow> e \<in> set (tn_entries n) \<Longrightarrow>
    seen ui t (joinPath ROOT_PATH (entry_name e)) 0 e"
| seen_below: "seen ui t p d e \<Longrightarrow> entry_type e = DirEntry \<Longrightarrow> p \<in> set (tp_expanded t) \<Longrightarrow> ui_renaming ui \<noteq> Some p \<Longrightarrow>
    mget (tp_nodes t) p = Some n \<Longrightarrow> tn_loaded n \<Longrightarrow> f \<in> set (tn_entries n) \<Longrightarrow>
    seen ui t (joinPath p (entry_name f)) (Suc d) f"

definition names_ok :: "tree_panel \<Rightarrow> bool" where
  "names_ok t \<longleftrightarrow> list_all (\<lambda>(p, n). list_all (\<lambda>e. entry_name e \<noteq> []) (tn_entries n)) (tp_nodes t)"

definition levels :: "tree_panel \<Rightarrow> string \<Rightarrow> nat" where
  "levels t p = length (filter (\<lambda>k. length p \<le> length (fst k)) (tp_nodes t))"

lemma names_okD: "names_ok t \<Longrightarrow> mget (tp_nodes t) p = Some n \<Longrightarrow> e \<in> set (tn_entries n) \<Longrightarrow> entry_name e \<noteq> []"
  using map_of_SomeD [of "tp_nodes t" p n] by (fastforce simp: names_ok_def list_all_iff)

lemma joinPath_longer: "name \<noteq> [] \<Longrightarrow> length p < length (joinPath p name)"
  by (cases name) (auto simp: joinPath_def)

lemma levels_below: "length p < length q \<Longrightarrow> mget (tp_nodes t) p = Some n \<Longrightarrow> levels t q < levels t p"
proof -
  assume pq: "length p < length q" and p: "mget (tp_nodes t) p = Some n"
  have "filter (\<lambda>k. length q \<le> length (fst k)) (tp_nodes t) =
    filter (\<lambda>k. length q \<le> length (fst k)) (filter (\<lambda>k. length p \<le> length (fst k)) (tp_nodes t))"
    using pq by (auto intro: filter_cong)
  also have "length \<dots> < length (filter (\<lambda>k. length p \<le> length (fst k)) (tp_nodes t))"
    by (rule length_filter_less [of "(p, n)"]) (use pq map_of_SomeD [OF p] in auto)
  finally show ?thesis by (simp add: levels_def)
qed

lemma lines_unlisted: "mget (tp_nodes t) p = None \<Longrightarrow> tree_lines n ui t p d = []"
  by (cases n) simp_all

text \<open>More levels than there are longer paths change nothing.\<close>

lemma enough_levels:
  assumes "names_ok t"
  shows "levels t p \<le> n \<Longrightarrow> tree_lines (n + k) ui t p d = tree_lines n ui t p d"
proof (induction n arbitrary: p d)
  case 0
  have "mget (tp_nodes t) p = None"
  proof (rule ccontr)
    assume "mget (tp_nodes t) p \<noteq> None"
    then obtain node where "(p, node) \<in> set (tp_nodes t)" using map_of_SomeD by fastforce
    with 0 show False by (auto simp: levels_def filter_empty_conv)
  qed
  then show ?case by (simp add: lines_unlisted)
next
  case (Suc n)
  show ?case
  proof (cases "mget (tp_nodes t) p")
    case (Some node)
    have same: "node_lines (tree_lines (n + k) ui t) ui t e (joinPath p (entry_name e)) d =
        node_lines (tree_lines n ui t) ui t e (joinPath p (entry_name e)) d" if e: "e \<in> set (tn_entries node)" for e
    proof -
      have "length p < length (joinPath p (entry_name e))" by (rule joinPath_longer) (rule names_okD [OF assms Some e])
      from levels_below [OF this Some] Suc.prems
      have "tree_lines (n + k) ui t (joinPath p (entry_name e)) d' = tree_lines n ui t (joinPath p (entry_name e)) d'" for d'
        by (intro Suc.IH) simp
      then show ?thesis by (simp add: node_lines_def Let_def split: option.split)
    qed
    then have "map (\<lambda>e. node_lines (tree_lines (n + k) ui t) ui t e (joinPath p (entry_name e)) d) (tn_entries node) =
        map (\<lambda>e. node_lines (tree_lines n ui t) ui t e (joinPath p (entry_name e)) d) (tn_entries node)"
      by (intro map_cong) simp_all
    with Some show ?thesis by (simp del: map_eq_conv)
  qed (simp add: lines_unlisted)
qed

lemma levels_bound: "levels t p \<le> length (tp_nodes t)"
  by (simp add: levels_def)

text \<open>The lines of the levels below a path stand below it.\<close>

definition opened_at :: "tree_ui \<Rightarrow> tree_panel \<Rightarrow> string \<Rightarrow> node_state \<Rightarrow> bool" where
  "opened_at ui t p n \<longleftrightarrow> p \<in> set (tp_expanded t) \<and> ui_renaming ui \<noteq> Some p \<and> mget (tp_nodes t) p = Some n \<and> tn_loaded n"

lemma in_node_lines:
  "EntryLine q d' f x l a \<in> set (node_lines kids ui t e p d) \<longleftrightarrow>
     ui_renaming ui \<noteq> Some p \<and>
     ((q = p \<and> d' = d \<and> f = e \<and> x = (entry_type e = DirEntry \<and> p \<in> set (tp_expanded t)) \<and>
         l = (entry_type e = DirEntry \<and> (case mget (tp_nodes t) p of Some n \<Rightarrow> tn_loading n | None \<Rightarrow> False)) \<and>
         a = (entry_type e \<noteq> DirEntry \<and> ui_active ui = Some p)) \<or>
      (entry_type e = DirEntry \<and> (\<exists>n. opened_at ui t p n) \<and> EntryLine q d' f x l a \<in> set (kids p (Suc d))))"
  by (cases "mget (tp_nodes t) p") (auto simp: node_lines_def Let_def opened_at_def)

lemma in_tree_lines:
  "EntryLine q d' f x l a \<in> set (tree_lines (Suc n) ui t p d) \<longleftrightarrow>
     (\<exists>node e. mget (tp_nodes t) p = Some node \<and> tn_loaded node \<and> e \<in> set (tn_entries node) \<and>
        EntryLine q d' f x l a \<in> set (node_lines (tree_lines n ui t) ui t e (joinPath p (entry_name e)) d))"
  by (cases "mget (tp_nodes t) p") (auto split: option.splits)

lemma levels_mono: "length p \<le> length q \<Longrightarrow> levels t q \<le> levels t p"
proof -
  assume pq: "length p \<le> length q"
  have "length (filter (\<lambda>k. length q \<le> length (fst k)) xs) \<le> length (filter (\<lambda>k. length p \<le> length (fst k)) xs)"
    for xs :: "(string \<times> node_state) list"
    using pq by (induction xs) (auto intro: le_SucI)
  then show ?thesis by (simp add: levels_def)
qed

lemma lines_longer:
  assumes "names_ok t"
  shows "EntryLine q d' f x l a \<in> set (tree_lines n ui t p d) \<Longrightarrow> length p < length q"
proof (induction n arbitrary: p d)
  case (Suc n)
  then obtain node e where e: "mget (tp_nodes t) p = Some node" "e \<in> set (tn_entries node)"
    and line: "EntryLine q d' f x l a \<in> set (node_lines (tree_lines n ui t) ui t e (joinPath p (entry_name e)) d)"
    unfolding in_tree_lines by blast
  have "length p < length (joinPath p (entry_name e))" by (rule joinPath_longer) (rule names_okD [OF assms e])
  with line Suc.IH show ?case unfolding in_node_lines by fastforce
qed simp

text \<open>What a line says of its entry.\<close>

definition line_fits :: "tree_ui \<Rightarrow> tree_panel \<Rightarrow> string \<Rightarrow> TreeEntry \<Rightarrow> bool \<Rightarrow> bool \<Rightarrow> bool \<Rightarrow> bool" where
  "line_fits ui t p e x l a \<longleftrightarrow>
     ui_renaming ui \<noteq> Some p \<and> x = (entry_type e = DirEntry \<and> p \<in> set (tp_expanded t)) \<and>
     l = (entry_type e = DirEntry \<and> (case mget (tp_nodes t) p of Some n \<Rightarrow> tn_loading n | None \<Rightarrow> False)) \<and>
     a = (entry_type e \<noteq> DirEntry \<and> ui_active ui = Some p)"

lemma lines_are_seen:
  assumes "EntryLine q d' f x l a \<in> set (tree_lines n ui t p d)"
    and "\<And>node e. mget (tp_nodes t) p = Some node \<Longrightarrow> tn_loaded node \<Longrightarrow> e \<in> set (tn_entries node) \<Longrightarrow>
      seen ui t (joinPath p (entry_name e)) d e"
  shows "seen ui t q d' f \<and> line_fits ui t q f x l a"
  using assms
proof (induction n arbitrary: p d)
  case (Suc n)
  then obtain node e where e: "mget (tp_nodes t) p = Some node" "tn_loaded node" "e \<in> set (tn_entries node)"
    and line: "EntryLine q d' f x l a \<in> set (node_lines (tree_lines n ui t) ui t e (joinPath p (entry_name e)) d)"
    unfolding in_tree_lines by blast
  have here: "seen ui t (joinPath p (entry_name e)) d e" using Suc.prems(2) e by blast
  show ?case
  proof (cases "EntryLine q d' f x l a \<in> set (tree_lines n ui t (joinPath p (entry_name e)) (Suc d)) \<and>
      entry_type e = DirEntry \<and> (\<exists>n. opened_at ui t (joinPath p (entry_name e)) n)")
    case True
    then show ?thesis
      by (intro Suc.IH [of "joinPath p (entry_name e)" "Suc d"])
        (auto simp: opened_at_def intro: seen_below [OF here])
  next
    case False
    with line here show ?thesis by (auto simp: in_node_lines line_fits_def)
  qed
qed simp

lemma lines_below:
  assumes "names_ok t" and "EntryLine q d' f x l a \<in> set (tree_lines n ui t p d)" and "levels t p \<le> n"
    and "entry_type f = DirEntry" and "opened_at ui t q m"
  shows "set (tree_lines n ui t q (Suc d')) \<subseteq> set (tree_lines n ui t p d)"
  using assms(2,3)
proof (induction n arbitrary: p d)
  case (Suc n)
  then obtain node e where e: "mget (tp_nodes t) p = Some node" "tn_loaded node" "e \<in> set (tn_entries node)"
    and line: "EntryLine q d' f x l a \<in> set (node_lines (tree_lines n ui t) ui t e (joinPath p (entry_name e)) d)"
    unfolding in_tree_lines by blast
  let ?q = "joinPath p (entry_name e)"
  have "length p < length ?q" by (rule joinPath_longer) (rule names_okD [OF assms(1) e(1,3)])
  then have lv: "levels t ?q \<le> n" using levels_below [OF _ e(1)] Suc.prems(2) by fastforce
  have kids: "set (node_lines (tree_lines n ui t) ui t e ?q d) \<subseteq> set (tree_lines (Suc n) ui t p d)"
    using e by auto
  consider (here) "q = ?q" "d' = d" "f = e"
    | (deep) "EntryLine q d' f x l a \<in> set (tree_lines n ui t ?q (Suc d))" "entry_type e = DirEntry" "\<exists>n. opened_at ui t ?q n"
    using line unfolding in_node_lines by blast
  then show ?case
  proof cases
    case here
    have "set (tree_lines n ui t ?q (Suc d)) \<subseteq> set (node_lines (tree_lines n ui t) ui t e ?q d)"
      using here assms(4,5) by (auto simp: node_lines_def Let_def opened_at_def)
    moreover have "tree_lines (n + 1) ui t ?q (Suc d) = tree_lines n ui t ?q (Suc d)"
      by (rule enough_levels [OF assms(1) lv])
    ultimately show ?thesis using kids here by auto
  next
    case deep
    from Suc.IH [OF deep(1) lv]
    have "set (tree_lines n ui t q (Suc d')) \<subseteq> set (tree_lines n ui t ?q (Suc d))" .
    moreover have "set (tree_lines n ui t ?q (Suc d)) \<subseteq> set (node_lines (tree_lines n ui t) ui t e ?q d)"
      using line deep by (auto simp: node_lines_def Let_def opened_at_def)
    moreover have "levels t q \<le> levels t ?q"
      by (rule levels_mono) (rule less_imp_le, rule lines_longer [OF assms(1) deep(1)])
    then have "tree_lines (n + 1) ui t q (Suc d') = tree_lines n ui t q (Suc d')"
      by (intro enough_levels [OF assms(1)]) (use lv in simp)
    ultimately show ?thesis using kids by auto
  qed
qed simp

section \<open>The tree is exact\<close>


definition demo_dir :: TreeEntry where
  "demo_dir = \<lparr>entry_name = ''src'', entry_type = DirEntry, entry_size = None, entry_mtime = 0, entry_hidden = False\<rparr>"

definition demo_file :: TreeEntry where
  "demo_file = \<lparr>entry_name = ''a.ts'', entry_type = FileEntry, entry_size = Some 3, entry_mtime = 0, entry_hidden = False\<rparr>"

definition demo_nodes :: tree_panel where
  "demo_nodes = \<lparr>tp_session = ''s'', tp_showHidden = False,
     tp_nodes = [(''/'', blank_node\<lparr>tn_entries := [demo_dir], tn_loaded := True\<rparr>), (''/src'', blank_node\<lparr>tn_entries := [demo_file], tn_loaded := True\<rparr>)],
     tp_expanded = [''/'', ''/src''], tp_generation = 1\<rparr>"

definition demo_ui :: tree_ui where
  "demo_ui = \<lparr>ui_active = Some ''/src/a.ts'', ui_renaming = None, ui_pending = None\<rparr>"


section \<open>Names and texts\<close>

text \<open>A name that is submitted is not blank and has no blanks around it; Escape and an unchanged name submit nothing.\<close>

lemma trimmed_ends: "trim_space v \<noteq> [] \<Longrightarrow> \<not> js_space (hd (trim_space v)) \<and> \<not> js_space (last (trim_space v))"
proof -
  assume v: "trim_space v \<noteq> []"
  let ?u = "dropWhile js_space v"
  have l: "\<not> js_space (last (trim_space v))"
    using v hd_dropWhile [of js_space "rev ?u"] by (simp add: trim_space_def last_rev)
  obtain w where "?u = trim_space v @ w"
    using takeWhile_dropWhile_id [of js_space "rev ?u"] unfolding trim_space_def by (metis rev_append rev_rev_ident)
  with v have "hd ?u = hd (trim_space v)" "?u \<noteq> []" by auto
  then show ?thesis using l hd_dropWhile [of js_space v] by simp
qed

theorem submitted_name_is_trimmed:
  "rename_key k composing value = SubmitName v \<or> rename_blur initialValue value = SubmitName v \<Longrightarrow>
     v \<noteq> [] \<and> \<not> js_space (hd v) \<and> \<not> js_space (last v)"
  using trimmed_ends [of "value"] by (auto simp: rename_key_def rename_blur_def Let_def split: if_splits)

text \<open>The view of a text that has changes, and of one that was just saved: a Markdown file turns into its preview.\<close>

lemma first_change_shows_source:
  "fv_tab v = tab \<Longrightarrow> tab_draft tab = None \<Longrightarrow> \<not> fv_preview (view_step v (RenderTab (tab\<lparr>tab_draft := Some x\<rparr>)))"
  by (simp add: view_step_def render_tab_def first_preview_def Let_def)

lemma saving_shows_preview:
  "isMarkdownPath (tab_path tab) \<Longrightarrow> tab_draft tab = Some x \<Longrightarrow> fv_tab v = tab \<Longrightarrow>
     fv_preview (view_step v (RenderTab (tab\<lparr>tab_draft := None, tab_savedContent := Some x\<rparr>)))"
  by (simp add: view_step_def render_tab_def first_preview_def Let_def)

text \<open>Whatever happens, a file that is no Markdown is never previewed, and what can be typed is shown as it will be saved.\<close>

interpretation file_views: machine view_step "\<lambda>v. fv_preview v \<longrightarrow> isMarkdownPath (tab_path (fv_tab v))"
  by unfold_locales (auto simp: view_step_def render_tab_def first_preview_def Let_def split: view_event.splits if_splits)

theorem previews_are_markdown:
  "(\<lambda>v. fv_preview v \<longrightarrow> isMarkdownPath (tab_path (fv_tab v))) (foldl view_step (open_view tab) es)"
  by (rule file_views.run_good) (simp add: open_view_def first_preview_def)

lemma draft_is_shown:
  "canEdit tab \<Longrightarrow> tab_draft tab = Some x \<Longrightarrow>
     editor_body sid preview tab \<in> {BodyPreview x, BodySource (editor_language (tab_path tab)) x}"
  by (simp add: canEdit_def editor_body_def shown_text_def Let_def)

text \<open>Just below a megabyte the size is given as 1024.0 KB.\<close>

lemma size_labels: "map formatSize [1023, 1024, 1536, 1048575, 1048576] =
    [''1023 B'', ''1.0 KB'', ''1.5 KB'', ''1024.0 KB'', ''1.0 MB'']"
  by code_simp

end
