(* ===== verification/RunPages.thy ===== *)
theory RunPages
  imports Pages AgentForms
begin

text \<open>
  Pages about workflows: the history of runs with its pages (\<open>workflows/[id]/runs/page.tsx\<close> and \<open>list_runs\<close> of the API), the
  figures of the detail page (\<open>[id]/detail/page.tsx\<close>) and of the dashboard (\<open>recent-runs-card.tsx\<close>,
  \<open>use-dashboard-data.ts\<close>), the form for a new workflow (\<open>workflows/new/page.tsx\<close>) and the page of an item of the
  marketplace (\<open>marketplace-detail.tsx\<close>). Figures are computed in doubles, which are modelled for numbers below 2 to the 53.
\<close>

section \<open>Doubles\<close>

text \<open>The nearest integer of a fraction, the even one of two.\<close>

definition round_even :: "int \<Rightarrow> int \<Rightarrow> int" where
  "round_even n d =
     (let m = n div d; r = n mod d in if d < 2 * r \<or> (2 * r = d \<and> odd m) then m + 1 else m)"

text \<open>How often a fraction is doubled until it has 53 bits; a subnormal number has fewer.\<close>

fun scale :: "nat \<Rightarrow> int \<Rightarrow> int \<Rightarrow> nat" where
  "scale 0 n d = 0"
| "scale (Suc f) n d = (if 2 ^ 52 * d \<le> n then 0 else Suc (scale f (2 * n) d))"

definition nearest :: "int \<Rightarrow> int \<Rightarrow> rat" where
  "nearest n d = (let k = scale 1074 n d in of_int (round_even (n * 2 ^ k) d) / 2 ^ k)"

definition to_double :: "rat \<Rightarrow> rat" where
  "to_double x =
     (let (n, d) = quotient_of \<bar>x\<bar> in if x = 0 then 0 else if 0 < x then nearest n d else - nearest n d)"

lemma round_even_near: "0 < d \<Longrightarrow> \<bar>2 * d * round_even n d - 2 * n\<bar> \<le> d"
proof -
  assume d: "0 < d"
  define m r where "m = n div d" and "r = n mod d"
  have n: "n = d * m + r" "0 \<le> r" "r < d" using d by (simp_all add: m_def r_def)
  consider "round_even n d = m" "2 * r \<le> d" | "round_even n d = m + 1" "d \<le> 2 * r"
    by (cases "d < 2 * r \<or> (2 * r = d \<and> odd m)")
      (auto simp: round_even_def Let_def m_def [symmetric] r_def [symmetric])
  then show ?thesis
  proof cases
    case 1
    have "2 * d * m - 2 * n = - (2 * r)" unfolding n(1) by (simp add: algebra_simps)
    then show ?thesis using 1 n(2) by simp
  next
    case 2
    have "2 * d * (m + 1) - 2 * n = 2 * d - 2 * r" unfolding n(1) by (simp add: algebra_simps)
    then show ?thesis using 2 n(3) by simp
  qed
qed

lemma scaled: "2 ^ 52 * d \<le> n * 2 ^ f \<Longrightarrow> 2 ^ 52 * d \<le> n * 2 ^ scale f n d"
proof (induction f arbitrary: n)
  case (Suc f)
  have "2 ^ 52 * d \<le> 2 * n * 2 ^ f" using Suc.prems by (simp add: mult.assoc mult.left_commute)
  from Suc.IH [OF this] show ?case by (simp add: mult.assoc mult.left_commute)
qed simp

lemma nearest_close:
  assumes "0 < n" "0 < d" "2 ^ 52 * d \<le> n * 2 ^ 1074"
  shows "\<bar>nearest n d - of_int n / of_int d\<bar> \<le> of_int n / of_int d / 2 ^ 53"
proof -
  define k where "k = scale 1074 n d"
  define m where "m = round_even (n * 2 ^ k) d"
  have big: "2 ^ 52 * d \<le> n * 2 ^ k" unfolding k_def by (rule scaled [OF assms(3)])
  have "\<bar>2 * d * m - 2 * (n * 2 ^ k)\<bar> \<le> d" unfolding m_def by (rule round_even_near [OF assms(2)])
  moreover have "2 * d * m - 2 * (n * 2 ^ k) = 2 * (d * m - n * 2 ^ k)" by (simp add: algebra_simps)
  ultimately have "2 * \<bar>d * m - n * 2 ^ k\<bar> \<le> d" by (simp only: abs_mult)
  with big have "2 ^ 53 * \<bar>d * m - n * 2 ^ k\<bar> \<le> n * 2 ^ k" by simp
  then have "(of_int (2 ^ 53 * \<bar>d * m - n * 2 ^ k\<bar>) :: rat) \<le> of_int (n * 2 ^ k)" by (simp only: of_int_le_iff)
  then have le: "2 ^ 53 * \<bar>of_int d * of_int m - of_int n * 2 ^ k\<bar> \<le> (of_int n * 2 ^ k :: rat)" by simp
  have "nearest n d - of_int n / of_int d = (of_int d * of_int m - of_int n * 2 ^ k) / (of_int d * 2 ^ k)"
    using assms(2) by (simp add: nearest_def Let_def k_def [symmetric] m_def [symmetric] field_simps)
  then have "\<bar>nearest n d - of_int n / of_int d\<bar> = \<bar>of_int d * of_int m - of_int n * 2 ^ k\<bar> / (of_int d * 2 ^ k)"
    using assms(2) by (simp add: abs_mult)
  also have "\<dots> \<le> of_int n / of_int d / 2 ^ 53"
    using le assms(2) by (simp add: field_simps)
  finally show ?thesis .
qed

lemma to_double_close:
  assumes "0 < x" "1 / 2 ^ 1022 \<le> x"
  shows "\<bar>to_double x - x\<bar> \<le> x / 2 ^ 53"
proof -
  obtain n d where q: "quotient_of x = (n, d)" by fastforce
  then have d: "0 < d" and x: "x = of_int n / of_int d" using quotient_of_denom_pos quotient_of_div by auto
  with assms(1) have n: "0 < n" by (simp add: zero_less_divide_iff)
  have "(of_int d :: rat) \<le> of_int n * 2 ^ 1022"
    using assms(2) d unfolding x by (simp add: field_simps)
  then have "d \<le> n * 2 ^ 1022" by (metis of_int_le_iff of_int_mult of_int_numeral of_int_power)
  then have "2 ^ 52 * d \<le> n * 2 ^ 1074" by simp
  from nearest_close [OF n d this] have "\<bar>nearest n d - x\<bar> \<le> x / 2 ^ 53" by (simp only: x)
  moreover have "to_double x = nearest n d" using assms(1) q by (simp add: to_double_def)
  ultimately show ?thesis by simp
qed

text \<open>\<open>toFixed(1)\<close> of a number that is not negative.\<close>

definition toFixed1 :: "rat \<Rightarrow> string" where
  "toFixed1 x = (let n = nat \<lfloor>10 * x + 1 / 2\<rfloor> in nat_string (n div 10) @ ''.'' @ nat_string (n mod 10))"

section \<open>Runs and their figures\<close>

text \<open>A run in a list; dates are the server's texts, \<open>time_of\<close> gives their milliseconds. \<open>dash\<close> is the sign for none.\<close>

record listed_run =
  lr_id :: string
  lr_version :: "string option"
  lr_status :: string
  lr_trigger :: string
  lr_error :: "string option"
  lr_started_at :: "string option"
  lr_completed_at :: "string option"
  lr_created_at :: string

definition seconds_of :: "int \<Rightarrow> rat" where
  "seconds_of ms = to_double (of_int ms / 1000)"

definition duration_label :: "(string \<Rightarrow> int) \<Rightarrow> string \<Rightarrow> string option \<Rightarrow> string option \<Rightarrow> string" where
  "duration_label time_of dash startedAt completedAt =
     (if \<not> truthy startedAt \<or> \<not> truthy completedAt then dash
      else let ms = time_of (the completedAt) - time_of (the startedAt)
           in if ms < 0 then dash
              else if ms < 1000 then int_string ms @ ''ms''
              else if ms < 60000 then toFixed1 (seconds_of ms) @ ''s''
              else int_string (ms div 60000) @ ''m '' @ int_string (ms mod 60000 div 1000) @ ''s'')"

datatype dot_variant = LiveDot | InfoDot | ErrorDot | IdleDot

definition statusVariant :: "string \<Rightarrow> dot_variant" where
  "statusVariant s =
     (if s = ''completed'' then LiveDot else if s = ''running'' then InfoDot else if s = ''failed'' then ErrorDot else IdleDot)"

definition run_seconds :: "(string \<Rightarrow> int) \<Rightarrow> listed_run \<Rightarrow> rat" where
  "run_seconds time_of r = seconds_of (time_of (the (lr_completed_at r)) - time_of (the (lr_started_at r)))"

definition successRate :: "nat \<Rightarrow> nat \<Rightarrow> int" where
  "successRate completed finished =
     js_round (to_double (to_double (of_nat completed / of_nat finished) * 100))"

definition computeStats :: "(string \<Rightarrow> int) \<Rightarrow> string \<Rightarrow> listed_run list \<Rightarrow> string \<times> string" where
  "computeStats time_of dash runs =
     (let completed = filter (\<lambda>r. lr_status r = ''completed'') runs;
          failed = filter (\<lambda>r. lr_status r = ''failed'') runs;
          finished = length completed + length failed;
          durations = map (run_seconds time_of)
            (filter (\<lambda>r. truthy (lr_started_at r) \<and> truthy (lr_completed_at r)) completed)
      in (if finished = 0 then dash else int_string (successRate (length completed) finished) @ ''%'',
          if durations = [] then dash
          else formatElapsed (Some (to_double (foldl (\<lambda>s n. to_double (s + n)) 0 durations / of_nat (length durations))))))"

text \<open>A row of the dashboard: of a run that has not ended, the time until now.\<close>

definition formatRunDuration :: "(string \<Rightarrow> int) \<Rightarrow> string \<Rightarrow> int \<Rightarrow> listed_run \<Rightarrow> string" where
  "formatRunDuration time_of dash now_ms r =
     (if \<not> truthy (lr_started_at r) then dash
      else let start = time_of (the (lr_started_at r));
               finish = (if truthy (lr_completed_at r) then time_of (the (lr_completed_at r)) else now_ms)
           in formatElapsed (Some (max 0 (seconds_of (finish - start)))))"

definition run_key :: "listed_run \<Rightarrow> string" where
  "run_key r = (case lr_started_at r of Some t \<Rightarrow> t | None \<Rightarrow> lr_created_at r)"

record dashboard_runs =
  dr_total :: nat
  dr_recent :: "(listed_run \<times> string) list"
  dr_byDay :: "nat list"

text \<open>The runs of each workflow, by its id, with their number; none if the request failed.\<close>

definition dashboard_of_runs ::
  "(string \<Rightarrow> string \<Rightarrow> int) \<Rightarrow> (string \<Rightarrow> int option) \<Rightarrow> int \<Rightarrow> (string \<times> (listed_run list \<times> nat) option) list \<Rightarrow> dashboard_runs" where
  "dashboard_of_runs localeCompare day_start start answers =
     (let got = map (\<lambda>(w, a). (w, case a of Some x \<Rightarrow> x | None \<Rightarrow> ([], 0))) answers;
          all = concat (map (\<lambda>(w, rs, _). map (\<lambda>r. (r, w)) rs) got);
          sorted = js_sort (\<lambda>x y. localeCompare (run_key (fst y)) (run_key (fst x))) all
      in \<lparr>dr_total = sum_list (map (\<lambda>(w, _, n). n) got), dr_recent = take RECENT_RUNS sorted,
          dr_byDay = bucketByDay day_start start (\<lambda>x. Some (run_key (fst x))) TREND_DAYS sorted\<rparr>)"

section \<open>The history of runs\<close>

definition PAGE_SIZE :: nat where "PAGE_SIZE = 25"

text \<open>\<open>list_runs\<close> of the service: one page of the runs that are asked for, newest first, and their number.\<close>

definition runs_base :: "string option \<Rightarrow> bool \<Rightarrow> string option \<Rightarrow> listed_run list \<Rightarrow> listed_run list" where
  "runs_base run_type include_drafts version runs =
     (let by_type = (if run_type = Some ''draft'' then filter (\<lambda>r. lr_version r = None) runs
                     else if run_type = Some ''deployed'' \<or> \<not> include_drafts then filter (\<lambda>r. lr_version r \<noteq> None) runs
                     else runs)
      in if version = None then by_type else filter (\<lambda>r. lr_version r = version) by_type)"

definition list_runs ::
  "(listed_run \<Rightarrow> int) \<Rightarrow> string option \<Rightarrow> bool \<Rightarrow> string option \<Rightarrow> nat \<Rightarrow> nat \<Rightarrow> listed_run list \<Rightarrow> listed_run list \<times> nat" where
  "list_runs created run_type include_drafts version offset limit runs =
     (let base = runs_base run_type include_drafts version runs
      in (take limit (drop offset (rev (sort_key created base))), length base))"

record runs_page =
  rg_workflow :: "string option"
  rg_runs :: "listed_run list"
  rg_total :: nat
  rg_offset :: nat
  rg_drafts :: bool
  rg_loading :: bool
  rg_error :: "string option"
  rg_requests :: "(bool \<times> nat) list"

definition load_runs :: "runs_page \<Rightarrow> runs_page" where
  "load_runs p = p\<lparr>rg_loading := True, rg_requests := rg_requests p @ [(rg_drafts p, rg_offset p)]\<rparr>"

definition open_runs :: runs_page where
  "open_runs = load_runs \<lparr>rg_workflow = None, rg_runs = [], rg_total = 0, rg_offset = 0, rg_drafts = False, rg_loading = True,
     rg_error = None, rg_requests = []\<rparr>"

text \<open>The effect runs again only for another offset or another choice of runs.\<close>

definition set_page :: "bool \<Rightarrow> nat \<Rightarrow> runs_page \<Rightarrow> runs_page" where
  "set_page drafts offset p =
     (if drafts = rg_drafts p \<and> offset = rg_offset p then p else load_runs (p\<lparr>rg_drafts := drafts, rg_offset := offset\<rparr>))"

definition page_shown :: "runs_page \<Rightarrow> bool" where
  "page_shown p \<longleftrightarrow> \<not> truthy (rg_error p) \<and> rg_workflow p \<noteq> None"

definition pageEnd :: "runs_page \<Rightarrow> nat" where
  "pageEnd p = min (rg_offset p + length (rg_runs p)) (rg_total p)"

definition pager_shown :: "runs_page \<Rightarrow> bool" where
  "pager_shown p \<longleftrightarrow> page_shown p \<and> \<not> (rg_runs p = [] \<and> \<not> rg_loading p) \<and> PAGE_SIZE < rg_total p"

definition next_enabled :: "runs_page \<Rightarrow> bool" where
  "next_enabled p \<longleftrightarrow> pager_shown p \<and> pageEnd p < rg_total p \<and> \<not> rg_loading p"

definition previous_enabled :: "runs_page \<Rightarrow> bool" where
  "previous_enabled p \<longleftrightarrow> pager_shown p \<and> rg_offset p \<noteq> 0 \<and> \<not> rg_loading p"

datatype runs_event =
    TickDrafts bool
  | RefreshRuns
  | PreviousPage
  | NextPage
  | RunsAnswer nat "string + listed_run list \<times> nat"
  | WorkflowAnswer "string + string"

definition runs_step :: "runs_page \<Rightarrow> runs_event \<Rightarrow> runs_page" where
  "runs_step p e =
     (case e of
        TickDrafts b \<Rightarrow> if page_shown p then set_page b 0 p else p
      | RefreshRuns \<Rightarrow> if page_shown p \<and> \<not> rg_loading p then set_page (rg_drafts p) 0 p else p
      | PreviousPage \<Rightarrow> if previous_enabled p then set_page (rg_drafts p) (rg_offset p - PAGE_SIZE) p else p
      | NextPage \<Rightarrow> if next_enabled p then set_page (rg_drafts p) (rg_offset p + PAGE_SIZE) p else p
      | RunsAnswer n ans \<Rightarrow>
          if length (rg_requests p) \<le> n then p
          else let p1 = p\<lparr>rg_loading := False, rg_requests := take n (rg_requests p) @ drop (Suc n) (rg_requests p)\<rparr>
               in (case ans of
                     Inl e \<Rightarrow> p1\<lparr>rg_error := Some e\<rparr>
                   | Inr (rs, k) \<Rightarrow> p1\<lparr>rg_runs := rs, rg_total := k\<rparr>)
      | WorkflowAnswer (Inl e) \<Rightarrow> p\<lparr>rg_error := Some e\<rparr>
      | WorkflowAnswer (Inr w) \<Rightarrow> p\<lparr>rg_workflow := Some w\<rparr>)"

text \<open>The answer of the service to the oldest request, and going through the pages.\<close>

definition serve_runs :: "(listed_run \<Rightarrow> int) \<Rightarrow> listed_run list \<Rightarrow> runs_page \<Rightarrow> runs_page" where
  "serve_runs created stored p =
     (case rg_requests p of
        [] \<Rightarrow> p
      | (drafts, offset) # _ \<Rightarrow> runs_step p (RunsAnswer 0 (Inr (list_runs created None drafts None offset PAGE_SIZE stored))))"

fun browse :: "nat \<Rightarrow> (listed_run \<Rightarrow> int) \<Rightarrow> listed_run list \<Rightarrow> runs_page \<Rightarrow> listed_run list" where
  "browse 0 created stored p = []"
| "browse (Suc n) created stored p =
     rg_runs p @ (if next_enabled p then browse n created stored (serve_runs created stored (runs_step p NextPage)) else [])"

section \<open>Going through the pages\<close>

text \<open>The page that shows the runs from an offset on, with nothing under way.\<close>

definition at_offset :: "(listed_run \<Rightarrow> int) \<Rightarrow> listed_run list \<Rightarrow> string \<Rightarrow> bool \<Rightarrow> nat \<Rightarrow> runs_page" where
  "at_offset created stored w drafts offset =
     (let (rs, k) = list_runs created None drafts None offset PAGE_SIZE stored
      in \<lparr>rg_workflow = Some w, rg_runs = rs, rg_total = k, rg_offset = offset, rg_drafts = drafts, rg_loading = False,
          rg_error = None, rg_requests = []\<rparr>)"

lemma page_listed: "list_runs created None drafts None offset PAGE_SIZE stored =
    (take 25 (drop offset (fst (list_runs created None drafts None 0 (length stored) stored))),
     length (fst (list_runs created None drafts None 0 (length stored) stored)))"
proof -
  have "length (runs_base None drafts None stored) \<le> length stored"
    by (simp add: runs_base_def)
  then show ?thesis by (simp add: list_runs_def Let_def PAGE_SIZE_def)
qed

lemma next_at:
  "next_enabled (at_offset created stored w drafts offset) \<longleftrightarrow>
     offset + 25 < length (fst (list_runs created None drafts None 0 (length stored) stored))"
  unfolding at_offset_def page_listed
  by (auto simp: next_enabled_def pager_shown_def page_shown_def pageEnd_def PAGE_SIZE_def)

lemma next_page_at:
  "next_enabled (at_offset created stored w drafts offset) \<Longrightarrow>
     serve_runs created stored (runs_step (at_offset created stored w drafts offset) NextPage) =
     at_offset created stored w drafts (offset + 25)"
  by (simp add: runs_step_def set_page_def load_runs_def serve_runs_def case_prod_unfold Let_def at_offset_def PAGE_SIZE_def)

lemma browsed:
  "length (fst (list_runs created None drafts None 0 (length stored) stored)) \<le> offset + 25 * n \<Longrightarrow>
     offset < length (fst (list_runs created None drafts None 0 (length stored) stored)) \<or> 0 < n \<Longrightarrow>
     browse n created stored (at_offset created stored w drafts offset) =
     drop offset (fst (list_runs created None drafts None 0 (length stored) stored))"
proof (induction n arbitrary: offset)
  case (Suc n)
  let ?all = "fst (list_runs created None drafts None 0 (length stored) stored)"
  have rs: "rg_runs (at_offset created stored w drafts offset) = take 25 (drop offset ?all)"
    by (simp add: at_offset_def page_listed case_prod_unfold Let_def)
  show ?case
  proof (cases "next_enabled (at_offset created stored w drafts offset)")
    case True
    then have less: "offset + 25 < length ?all" by (simp add: next_at)
    with Suc.IH [of "offset + 25"] Suc.prems
    have "browse n created stored (at_offset created stored w drafts (offset + 25)) = drop (offset + 25) ?all" by simp
    moreover have "take 25 (drop offset ?all) @ drop (offset + 25) ?all = drop offset ?all"
      using append_take_drop_id [of 25 "drop offset ?all"] by (simp add: add.commute)
    ultimately show ?thesis using True by (simp add: rs next_page_at)
  next
    case False
    then have "length (drop offset ?all) \<le> 25" by (simp add: next_at)
    then show ?thesis using False by (simp add: rs)
  qed
qed simp

lemma opened_page:
  "serve_runs created stored (runs_step open_runs (WorkflowAnswer (Inr w))) = at_offset created stored w False 0"
  by (simp add: runs_step_def open_runs_def load_runs_def serve_runs_def at_offset_def case_prod_unfold Let_def)

lemma ticked_page:
  "serve_runs created stored (runs_step (at_offset created stored w False offset) (TickDrafts True)) = at_offset created stored w True 0"
  by (simp add: runs_step_def set_page_def load_runs_def serve_runs_def at_offset_def page_shown_def case_prod_unfold Let_def)


text \<open>
  Two ways in which a page is not what it says: Refresh does nothing on the first page, and of two answers the late one
  is shown whatever it was asked for.
\<close>

lemma refresh_does_nothing: "rg_offset p = 0 \<Longrightarrow> runs_step p RefreshRuns = p"
  by (simp add: runs_step_def set_page_def)

definition demo_listed_run :: "string \<Rightarrow> string option \<Rightarrow> listed_run" where
  "demo_listed_run i v = \<lparr>lr_id = i, lr_version = v, lr_status = ''completed'', lr_trigger = ''manual'', lr_error = None,
     lr_started_at = None, lr_completed_at = None, lr_created_at = i\<rparr>"

lemma late_page_shown:
  "(let p = foldl runs_step open_runs [WorkflowAnswer (Inr ''w''), TickDrafts True, RunsAnswer 1 (Inr ([demo_listed_run ''1'' None], 1)), RunsAnswer 0 (Inr ([], 0))]
    in (rg_drafts p, rg_runs p, rg_loading p, rg_requests p)) = (True, [], False, [])"
  by code_simp

section \<open>What the figures say\<close>

lemma scaled_abs: "0 < (k :: rat) \<Longrightarrow> \<bar>a - b\<bar> \<le> e \<Longrightarrow> \<bar>k * a - k * b\<bar> \<le> k * e"
  by (simp add: right_diff_distrib [symmetric] abs_mult)

lemma tenths_close:
  assumes "0 < x" "x \<le> 1000" "1 / 2 ^ 1022 \<le> x"
  shows "\<bar>of_int \<lfloor>10 * to_double x + 1 / 2\<rfloor> - 10 * x\<bar> \<le> 1 / 2 + 1 / 10 ^ 9"
proof -
  have "\<bar>to_double x - x\<bar> \<le> x / 2 ^ 53" by (rule to_double_close [OF assms(1,3)])
  also have "\<dots> \<le> 1000 / 2 ^ 53" using assms(2) by (simp add: divide_right_mono)
  also have "\<dots> \<le> 1 / 10 ^ 10" by simp
  finally have "\<bar>to_double x - x\<bar> \<le> 1 / 10 ^ 10" .
  from scaled_abs [OF _ this, of 10] have close: "\<bar>10 * to_double x - 10 * x\<bar> \<le> 1 / 10 ^ 9" by simp
  have "\<bar>of_int \<lfloor>10 * to_double x + 1 / 2\<rfloor> - 10 * to_double x\<bar> \<le> 1 / 2" by linarith
  with close show ?thesis by linarith
qed

theorem duration_is_close:
  assumes "s \<noteq> []" "c \<noteq> []" and ms: "1000 \<le> time_of c - time_of s" "time_of c - time_of s < 60000"
  shows "\<exists>n. duration_label time_of dash (Some s) (Some c) = nat_string (n div 10) @ ''.'' @ nat_string (n mod 10) @ ''s'' \<and>
    \<bar>100 * int n - (time_of c - time_of s)\<bar> \<le> 50"
proof -
  let ?ms = "time_of c - time_of s"
  let ?n = "\<lfloor>10 * seconds_of ?ms + 1 / 2\<rfloor>"
  have le: "(1000 :: rat) \<le> of_int ?ms" "of_int ?ms < (60000 :: rat)"
    using ms of_int_le_iff [of 1000 ?ms, where 'a = rat] of_int_less_iff [of ?ms 60000, where 'a = rat] by simp_all
  have "\<bar>of_int ?n - 10 * (of_int ?ms / 1000 :: rat)\<bar> \<le> 1 / 2 + 1 / 10 ^ 9"
    unfolding seconds_of_def
  proof (rule tenths_close)
    show "1 / 2 ^ 1022 \<le> (of_int ?ms / 1000 :: rat)"
    proof -
      have "1 / 2 ^ 1022 \<le> (1 :: rat)" by simp
      also have "\<dots> \<le> of_int ?ms / 1000" using le by simp
      finally show ?thesis .
    qed
  qed (use le in simp_all)
  from scaled_abs [OF _ this, of 100] have "\<bar>of_int (100 * ?n - ?ms)\<bar> \<le> (50 + 1 / 10 ^ 7 :: rat)"
    by (simp add: diff_divide_distrib)
  then have "of_int \<bar>100 * ?n - ?ms\<bar> < (51 :: rat)" by simp
  then have near: "\<bar>100 * ?n - ?ms\<bar> \<le> 50" by linarith
  then have "0 \<le> ?n" using ms by linarith
  then have "int (nat ?n) = ?n" by simp
  then show ?thesis using assms near
    by (intro exI [of _ "nat ?n"]) (simp add: duration_label_def toFixed1_def Let_def)
qed

text \<open>A run of just under a minute is labelled with sixty seconds.\<close>

lemma nearly_a_minute: "duration_label (\<lambda>s. if s = ''a'' then 0 else 59950) ''-'' (Some ''a'') (Some ''b'') = ''60.0s''"
  by code_simp

text \<open>The rate of success is a percentage, and it is the right one but for rounding; so it can be 100 though a run failed.\<close>

theorem success_rate_is_percentage:
  assumes "completed \<le> finished" "0 < finished" "finished < 2 ^ 53"
  shows "0 \<le> successRate completed finished \<and> successRate completed finished \<le> 100 \<and>
    \<bar>of_int (successRate completed finished) - 100 * (of_nat completed / of_nat finished :: rat)\<bar> \<le> 1 / 2 + 1 / 10 ^ 9"
proof (cases "completed = 0")
  case True
  moreover have "\<lfloor>1 / 2 :: rat\<rfloor> = 0" by (simp add: floor_eq_iff)
  ultimately show ?thesis by (simp add: successRate_def to_double_def js_round_def)
next
  case False
  let ?x = "of_nat completed / of_nat finished :: rat"
  let ?d = "to_double ?x" and ?r = "successRate completed finished"
  have "(of_nat finished :: rat) < 2 ^ 53" using assms(3) of_nat_less_iff [of finished "2 ^ 53", where 'a = rat] by simp
  then have "1 / 2 ^ 53 < 1 / (of_nat finished :: rat)" using assms(2) by (intro divide_strict_left_mono) simp_all
  also have "\<dots> \<le> ?x" using False assms(2) by (intro divide_right_mono) simp_all
  finally have x: "1 / 2 ^ 53 < ?x" "?x \<le> 1" using assms by simp_all
  have tiny: "1 / 2 ^ 1022 \<le> (1 / 2 ^ 53 :: rat)" by simp
  have "\<bar>?d - ?x\<bar> \<le> ?x / 2 ^ 53" 
    by (rule to_double_close) (rule less_trans [OF _ x(1)], simp, rule order_trans [OF tiny less_imp_le [OF x(1)]])
  also have "\<dots> \<le> 1 / 2 ^ 53" using x by (simp add: divide_right_mono)
  finally have d: "\<bar>?d - ?x\<bar> \<le> 1 / 2 ^ 53" .
  then have "1 / 2 ^ 54 \<le> ?d" "?d \<le> 2" using x \<open>\<bar>?d - ?x\<bar> \<le> ?x / 2 ^ 53\<close> by (simp_all add: abs_le_iff)
  then have "\<bar>to_double (?d * 100) - ?d * 100\<bar> \<le> ?d * 100 / 2 ^ 53" by (intro to_double_close) simp_all
  also have "\<dots> \<le> 2 * 100 / 2 ^ 53" using \<open>?d \<le> 2\<close> by (intro divide_right_mono) simp_all
  finally have "\<bar>to_double (?d * 100) - 100 * ?d\<bar> \<le> 200 / 2 ^ 53" by (simp add: mult.commute)
  moreover have "\<bar>100 * ?d - 100 * ?x\<bar> \<le> 100 / 2 ^ 53" using scaled_abs [OF _ d, of 100] by simp
  moreover have "200 / 2 ^ 53 + 100 / 2 ^ 53 \<le> (1 / 10 ^ 9 :: rat)" by simp
  ultimately have e: "\<bar>to_double (?d * 100) - 100 * ?x\<bar> \<le> 1 / 10 ^ 9" by linarith
  have "\<bar>of_int ?r - to_double (?d * 100)\<bar> \<le> 1 / 2" unfolding successRate_def js_round_def by linarith
  with e have r: "\<bar>of_int ?r - 100 * ?x\<bar> \<le> 1 / 2 + 1 / 10 ^ 9" by linarith
  moreover have "1 / 2 + 1 / 10 ^ 9 < (1 :: rat)" by simp
  moreover have "0 < ?x" by (rule less_trans [OF _ x(1)]) simp
  then have "0 < 100 * ?x" "100 * ?x \<le> 100" using x(2) by simp_all
  ultimately have "-1 < (of_int ?r :: rat) \<and> of_int ?r < (101 :: rat)" by linarith
  with r show ?thesis by simp
qed

lemma rounded_up_to_all: "successRate 200 201 = 100"
proof -
  have "to_double (200 / 201) = 8962387318150241 / 9007199254740992" by code_simp
  moreover have "to_double (8962387318150241 / 9007199254740992 * 100) = 1750466273076219 / 17592186044416" by code_simp
  ultimately have "successRate 200 201 = js_round (1750466273076219 / 17592186044416)"
    by (simp only: successRate_def of_nat_numeral)
  then show ?thesis by (simp add: js_round_def floor_eq_iff)
qed

section \<open>The form for a new workflow\<close>

record new_workflow =
  nw_name :: string
  nw_slug :: string
  nw_touched :: bool
  nw_description :: string
  nw_backend :: string
  nw_model :: string
  nw_submitting :: bool
  nw_error :: string
  nw_models :: "ModelOption list"
  nw_loading :: bool

definition newWorkflowPage :: new_workflow where
  "newWorkflowPage = \<lparr>nw_name = [], nw_slug = [], nw_touched = False, nw_description = [], nw_backend = [], nw_model = [],
     nw_submitting = False, nw_error = [], nw_models = [], nw_loading = True\<rparr>"

text \<open>The backends and the models that the two lists offer, and the model that goes with a backend.\<close>

definition offered_backends :: "ModelOption list \<Rightarrow> string list" where
  "offered_backends ms = set_of_list (map mo_backend ms)"

definition models_of :: "ModelOption list \<Rightarrow> string \<Rightarrow> ModelOption list" where
  "models_of ms b = filter (\<lambda>m. mo_backend m = b) ms"

definition standard_model :: "ModelOption list \<Rightarrow> string \<Rightarrow> ModelOption option" where
  "standard_model ms b =
     (case find mo_default_model (models_of ms b) of
        Some m \<Rightarrow> Some m
      | None \<Rightarrow> (case models_of ms b of m # _ \<Rightarrow> Some m | [] \<Rightarrow> None))"

text \<open>The answer of the list; \<open>backend\<close> of the effect is that of the first render, so it is empty.\<close>

definition models_arrived :: "ModelOption list \<Rightarrow> new_workflow \<Rightarrow> new_workflow" where
  "models_arrived ms p =
     (let p1 = p\<lparr>nw_models := ms, nw_loading := False\<rparr>
      in case offered_backends ms of
           [] \<Rightarrow> p1
         | b # _ \<Rightarrow> (case standard_model ms b of
             Some m \<Rightarrow> p1\<lparr>nw_backend := b, nw_model := mo_id m\<rparr>
           | None \<Rightarrow> p1\<lparr>nw_backend := b\<rparr>))"

definition handleBackendChange :: "string \<Rightarrow> new_workflow \<Rightarrow> new_workflow" where
  "handleBackendChange b p =
     p\<lparr>nw_backend := b, nw_model := (case standard_model (nw_models p) b of Some m \<Rightarrow> mo_id m | None \<Rightarrow> [])\<rparr>"

definition handleNameChange :: "string \<Rightarrow> new_workflow \<Rightarrow> new_workflow" where
  "handleNameChange v p = p\<lparr>nw_name := v, nw_slug := (if nw_touched p then nw_slug p else slugify v)\<rparr>"

text \<open>The body of the request.\<close>

record create_workflow =
  cw_name :: string
  cw_slug :: string
  cw_description :: "string option"
  cw_backend :: string
  cw_model :: string

definition incomplete :: "new_workflow \<Rightarrow> bool" where
  "incomplete p \<longleftrightarrow> trim_space (nw_name p) = [] \<or> trim_space (nw_slug p) = [] \<or> nw_backend p = [] \<or> nw_model p = []"

text \<open>The pattern of the input for the slug. Whether the browser lets the form through is a parameter of \<open>submit_workflow\<close>.\<close>

definition slug_pattern :: "string \<Rightarrow> bool" where
  "slug_pattern s \<longleftrightarrow> 2 \<le> length s \<and> slug_char (hd s) \<and> slug_char (last s) \<and> list_all (\<lambda>c. slug_char c \<or> c = CHR ''-'') s"

definition submit_workflow :: "bool \<Rightarrow> new_workflow \<Rightarrow> create_workflow option \<times> new_workflow" where
  "submit_workflow let_through p =
     (if \<not> let_through \<or> nw_submitting p \<or> incomplete p then (None, p)
      else (Some \<lparr>cw_name = trim_space (nw_name p), cw_slug = trim_space (nw_slug p),
                  cw_description = (let d = trim_space (nw_description p) in if d \<noteq> [] then Some d else None),
                  cw_backend = nw_backend p, cw_model = nw_model p\<rparr>,
            p\<lparr>nw_submitting := True, nw_error := []\<rparr>))"

datatype new_event =
    NameTyped string
  | SlugTyped string
  | DescriptionTyped string
  | BackendPicked string
  | ModelPicked string
  | ModelsArrived "ModelOption list"
  | ModelsFailed
  | SubmitForm bool
  | CreateFailed "string option"

text \<open>A list offers its options only, and none while the models are loading.\<close>

definition new_step :: "new_workflow \<Rightarrow> new_event \<Rightarrow> new_workflow" where
  "new_step p e =
     (case e of
        NameTyped v \<Rightarrow> handleNameChange v p
      | SlugTyped v \<Rightarrow> p\<lparr>nw_slug := v, nw_touched := True\<rparr>
      | DescriptionTyped v \<Rightarrow> p\<lparr>nw_description := v\<rparr>
      | BackendPicked b \<Rightarrow> if nw_loading p \<or> b \<notin> set (offered_backends (nw_models p)) then p else handleBackendChange b p
      | ModelPicked i \<Rightarrow> if nw_loading p \<or> i \<notin> mo_id ` set (models_of (nw_models p) (nw_backend p)) then p else p\<lparr>nw_model := i\<rparr>
      | ModelsArrived ms \<Rightarrow> if nw_loading p then models_arrived ms p else p
      | ModelsFailed \<Rightarrow> if nw_loading p then p\<lparr>nw_loading := False\<rparr> else p
      | SubmitForm let_through \<Rightarrow> snd (submit_workflow let_through p)
      | CreateFailed m \<Rightarrow> if nw_submitting p
          then p\<lparr>nw_error := (case m of Some x \<Rightarrow> x | None \<Rightarrow> ''Failed to create workflow''), nw_submitting := False\<rparr> else p)"

text \<open>Only single dashes, and none at the ends, so the slug of a name is empty, a single character or fits the pattern.\<close>

fun single_dashes :: "bool \<Rightarrow> string \<Rightarrow> bool" where
  "single_dashes after_dash [] = True"
| "single_dashes after_dash (c # cs) =
     (if c = CHR ''-'' then \<not> after_dash \<and> single_dashes True cs else slug_char c \<and> single_dashes False cs)"

lemma no_slug_dash: "\<not> slug_char (CHR ''-'')"
  by (simp add: slug_char_def)

lemma runs_are_single: "single_dashes b (dash_runs b s)"
  by (induction s arbitrary: b) (auto simp: no_slug_dash)

lemma single_chars: "single_dashes b s \<Longrightarrow> list_all (\<lambda>c. slug_char c \<or> c = CHR ''-'') s"
  by (induction s arbitrary: b) (auto split: if_splits)

lemma single_last: "single_dashes b (s @ [CHR ''-'']) \<Longrightarrow> s \<noteq> [] \<Longrightarrow> slug_char (last s)"
proof (induction s arbitrary: b)
  case (Cons c s)
  then show ?case by (cases s) (auto split: if_splits)
qed simp

lemma slug_shape: "slugify name = [] \<or>
  slug_char (hd (slugify name)) \<and> slug_char (last (slugify name)) \<and> list_all (\<lambda>c. slug_char c \<or> c = CHR ''-'') (slugify name)"
proof -
  define t where "t = trim_dash (dash_runs False (to_lower name))"
  have slug: "slugify name = rev (trim_dash (rev t))" by (simp add: slugify_def t_def)
  obtain b where t: "single_dashes b t" "t = [] \<or> slug_char (hd t)"
    using runs_are_single [of False "to_lower name"]
    by (cases "dash_runs False (to_lower name)") (auto simp: t_def trim_dash_def split: if_splits intro: that elim: single_dashes.elims)
  show ?thesis
  proof (cases t rule: rev_cases)
    case (snoc u c)
    show ?thesis
    proof (cases "c = CHR ''-''")
      case True
      then have s: "slugify name = u" by (simp add: slug snoc trim_dash_def)
      have u: "u \<noteq> []" using t snoc True no_slug_dash by auto
      moreover have "slug_char (last u)" using single_last t(1) u unfolding snoc True by blast
      moreover have "slug_char (hd u)" using t(2) u snoc by simp
      moreover have "list_all (\<lambda>c. slug_char c \<or> c = CHR ''-'') u" using single_chars [OF t(1)] by (simp add: snoc)
      ultimately show ?thesis by (simp add: s)
    next
      case False
      then have s: "slugify name = t" by (simp add: slug snoc trim_dash_def)
      have chars: "list_all (\<lambda>c. slug_char c \<or> c = CHR ''-'') t" by (rule single_chars [OF t(1)])
      then have "slug_char (last t)" using False by (simp add: snoc)
      with chars t(2) show ?thesis by (simp add: s)
    qed
  qed (simp add: slug trim_dash_def)
qed

lemma slug_fits: "slugify name \<noteq> [] \<Longrightarrow> length (slugify name) = 1 \<or> slug_pattern (slugify name)"
  using slug_shape [of name] by (cases "slugify name"; cases "tl (slugify name)") (auto simp: slug_pattern_def)

lemma slug_trimmed: "trim_space (slugify name) = slugify name"
proof -
  have "slug_char c \<Longrightarrow> \<not> js_space c" for c by (auto simp: slug_char_def js_space_def Let_def)
  then have "slugify name = [] \<or> \<not> js_space (hd (slugify name)) \<and> \<not> js_space (last (slugify name))"
    using slug_shape [of name] by blast
  then have "dropWhile js_space (slugify name) = slugify name"
    "dropWhile js_space (rev (slugify name)) = rev (slugify name)"
    by (auto simp: dropWhile_eq_self_iff hd_rev)
  then show ?thesis by (simp add: trim_space_def)
qed

definition listed_choice :: "ModelOption list \<Rightarrow> string \<Rightarrow> string \<Rightarrow> bool" where
  "listed_choice ms b i \<longleftrightarrow> (b = [] \<and> i = []) \<or> (\<exists>m \<in> set ms. mo_backend m = b \<and> mo_id m = i)"

lemma listed_choiceI: "m \<in> set ms \<Longrightarrow> listed_choice ms (mo_backend m) (mo_id m)" "listed_choice ms [] []"
  by (auto simp: listed_choice_def)

definition new_ok :: "new_workflow \<Rightarrow> bool" where
  "new_ok p \<longleftrightarrow>
     (nw_touched p \<or> nw_slug p = slugify (nw_name p)) \<and>
     (nw_loading p \<longrightarrow> nw_models p = [] \<and> nw_backend p = [] \<and> nw_model p = []) \<and>
     listed_choice (nw_models p) (nw_backend p) (nw_model p)"

lemma standard_exists: "b \<in> set (offered_backends ms) \<Longrightarrow> \<exists>m. standard_model ms b = Some m \<and> m \<in> set ms \<and> mo_backend m = b"
proof -
  assume "b \<in> set (offered_backends ms)"
  then have some: "models_of ms b \<noteq> []" by (auto simp: offered_backends_def models_of_def filter_empty_conv)
  obtain m where "standard_model ms b = Some m" "m \<in> set (models_of ms b)"
  proof (cases "find mo_default_model (models_of ms b)")
    case None
    with some that show ?thesis by (cases "models_of ms b") (auto simp: standard_model_def)
  next
    case (Some m)
    then have "m \<in> set (models_of ms b)" by (auto simp: find_Some_iff)
    with Some that show ?thesis by (simp add: standard_model_def)
  qed
  then show ?thesis by (auto simp: models_of_def)
qed

interpretation new_form: machine new_step new_ok
proof
  show "new_ok (new_step p e)" if ok: "new_ok p" for p e
  proof (cases e)
    case (BackendPicked b)
    with ok standard_exists [of b "nw_models p"] show ?thesis
      by (auto simp: new_step_def new_ok_def handleBackendChange_def listed_choiceI)
  next
    case (ModelsArrived ms)
    show ?thesis
    proof (cases "offered_backends ms")
      case Nil
      with ok ModelsArrived show ?thesis by (auto simp: new_step_def new_ok_def models_arrived_def listed_choiceI)
    next
      case (Cons b bs)
      with standard_exists [of b ms] ok ModelsArrived show ?thesis
        by (auto simp: new_step_def new_ok_def models_arrived_def listed_choiceI)
    qed
  next
    case (ModelPicked i)
    with ok show ?thesis by (auto simp: new_step_def new_ok_def models_of_def listed_choice_def)
  qed (use ok in \<open>auto simp: new_step_def new_ok_def handleNameChange_def submit_workflow_def\<close>)
qed

text \<open>
  A workflow is created from a complete form: whatever is typed and picked, before and after the models arrive, a
  request has a name and a slug that are not blank, and a model of the list together with its own backend; and a slug that
  follows the name is a single character or fits the pattern of its field.
\<close>

theorem new_workflow_is_complete:
  "case submit_workflow let_through (foldl new_step newWorkflowPage es) of
     (None, p) \<Rightarrow> True
   | (Some r, p) \<Rightarrow> cw_name r \<noteq> [] \<and> cw_slug r \<noteq> [] \<and>
       (\<exists>m \<in> set (nw_models p). mo_backend m = cw_backend r \<and> mo_id m = cw_model r) \<and>
       (nw_touched p \<or> cw_slug r = slugify (nw_name p) \<and> (length (cw_slug r) = 1 \<or> slug_pattern (cw_slug r)))"
proof -
  let ?p = "foldl new_step newWorkflowPage es"
  have "new_ok newWorkflowPage" by (simp add: new_ok_def newWorkflowPage_def listed_choiceI slugify_def to_lower_def trim_dash_def)
  then have "new_ok ?p" by (rule new_form.run_good)
  then show ?thesis
    using slug_fits [of "nw_name ?p"] slug_trimmed [of "nw_name ?p"]
    by (auto simp: submit_workflow_def incomplete_def new_ok_def listed_choice_def)
qed

section \<open>An item of the marketplace\<close>

text \<open>
  The page of an item; the address can change under it. Its request and the timer of an import carry on: an answer is
  shown whichever item it is of, and a timer marks the item that is shown when it fires.
\<close>

record market_detail =
  ml_id :: string
  ml_item :: "MarketplaceItem option"
  ml_error :: "string option"
  ml_busy :: bool
  ml_toast :: "string option"
  ml_requests :: "string list"
  ml_imports :: "MarketplaceKind list"

definition open_item :: "string \<Rightarrow> market_detail" where
  "open_item i = \<lparr>ml_id = i, ml_item = None, ml_error = None, ml_busy = False, ml_toast = None, ml_requests = [i], ml_imports = []\<rparr>"

definition show_item :: "string \<Rightarrow> market_detail \<Rightarrow> market_detail" where
  "show_item i d = (if i = ml_id d then d else d\<lparr>ml_id := i, ml_requests := ml_requests d @ [i]\<rparr>)"

definition item_answer :: "nat \<Rightarrow> string + MarketplaceItem option \<Rightarrow> market_detail \<Rightarrow> market_detail" where
  "item_answer n ans d =
     (if length (ml_requests d) \<le> n then d
      else let d1 = d\<lparr>ml_requests := take n (ml_requests d) @ drop (Suc n) (ml_requests d)\<rparr>
           in case ans of
                Inl e \<Rightarrow> d1\<lparr>ml_error := Some e\<rparr>
              | Inr None \<Rightarrow> d1\<lparr>ml_error := Some ''Item not found''\<rparr>
              | Inr (Some m) \<Rightarrow> d1\<lparr>ml_item := Some m\<rparr>)"

text \<open>The button is there and enabled while the item is not imported and no import is under way.\<close>

definition handleImport :: "market_detail \<Rightarrow> market_detail" where
  "handleImport d =
     (case ml_item d of
        Some m \<Rightarrow> if mi_imported m \<or> ml_busy d \<or> truthy (ml_error d) then d
          else d\<lparr>ml_busy := True, ml_imports := ml_imports d @ [mi_kind m]\<rparr>
      | None \<Rightarrow> d)"

definition import_timer :: "market_detail \<Rightarrow> market_detail" where
  "import_timer d =
     (case ml_imports d of
        [] \<Rightarrow> d
      | k # ks \<Rightarrow> d\<lparr>ml_busy := False, ml_imports := ks, ml_item := map_option (\<lambda>m. m\<lparr>mi_imported := True\<rparr>) (ml_item d),
          ml_toast := Some (if k = WorkflowItem then ''Workflow imported. Find it under Workflows.''
                            else ''Agent imported. Find it under Agents.'')\<rparr>)"

definition toast_timer :: "market_detail \<Rightarrow> market_detail" where
  "toast_timer d = d\<lparr>ml_toast := None\<rparr>"

lemma import_marks_another_item:
  "ml_item d = Some m \<Longrightarrow> \<not> mi_imported m \<Longrightarrow> \<not> ml_busy d \<Longrightarrow> ml_error d = None \<Longrightarrow> ml_requests d = [] \<Longrightarrow> ml_imports d = [] \<Longrightarrow>
     i \<noteq> ml_id d \<Longrightarrow>
     ml_item (import_timer (item_answer 0 (Inr (Some other)) (show_item i (handleImport d)))) = Some (other\<lparr>mi_imported := True\<rparr>)"
  by (simp add: import_timer_def item_answer_def show_item_def handleImport_def)

end
