(* ===== verification/Shell.thy ===== *)
theory Shell
  imports ChatPage AgentForms Inspector
begin

text \<open>
  The frame around the pages: the theme (\<open>theme-provider.tsx\<close>), the sidebar, the windows of the shell (\<open>app-shell.tsx\<close>), the slot
  for the crumb, the menu of the workspace (\<open>workspace-context-menu.tsx\<close>), the bars of a chat (\<open>chat-status-banner.tsx\<close>,
  \<open>chat-search-bar.tsx\<close>, the title in \<open>agent-sub-header.tsx\<close>), and the settings of a workflow (\<open>settings-panel.tsx\<close>).
\<close>

section \<open>The theme\<close>

datatype theme = DarkTheme | LightTheme

definition theme_name :: "theme \<Rightarrow> string" where
  "theme_name t = (case t of DarkTheme \<Rightarrow> ''dark'' | LightTheme \<Rightarrow> ''light'')"

text \<open>The attribute of the document, the state of the provider, and what the browser stores, if storing works at all.\<close>

record theme_page =
  th_attr :: string
  th_theme :: theme
  th_stored :: "string option"
  th_works :: bool

definition readInitial :: "string \<Rightarrow> theme" where
  "readInitial attr = (if attr = ''light'' then LightTheme else DarkTheme)"

text \<open>The script that runs before the page, on the attribute of the document as the server sends it.\<close>

definition init_script :: "bool \<Rightarrow> string option \<Rightarrow> string \<Rightarrow> string" where
  "init_script works stored attr =
     (if works \<and> (stored = Some ''light'' \<or> stored = Some ''dark'') then the stored else attr)"

definition load_theme :: "bool \<Rightarrow> string option \<Rightarrow> theme_page" where
  "load_theme works stored =
     (let attr = init_script works stored ''dark''
      in \<lparr>th_attr = attr, th_theme = readInitial attr, th_stored = stored, th_works = works\<rparr>)"

definition applyTheme :: "theme \<Rightarrow> theme_page \<Rightarrow> theme_page" where
  "applyTheme t p =
     p\<lparr>th_attr := theme_name t, th_stored := (if th_works p then Some (theme_name t) else th_stored p), th_theme := t\<rparr>"

definition toggleTheme :: "theme_page \<Rightarrow> theme_page" where
  "toggleTheme p = applyTheme (if th_theme p = DarkTheme then LightTheme else DarkTheme) p"

datatype theme_event = SetTheme theme | ToggleTheme | ReloadPage

definition theme_step :: "theme_page \<Rightarrow> theme_event \<Rightarrow> theme_page" where
  "theme_step p e =
     (case e of SetTheme t \<Rightarrow> applyTheme t p | ToggleTheme \<Rightarrow> toggleTheme p | ReloadPage \<Rightarrow> load_theme (th_works p) (th_stored p))"

section \<open>The shell\<close>

record shell =
  sl_search :: bool
  sl_notifications :: bool
  sl_user_menu :: bool
  sl_collapsed :: bool
  sl_crumb :: "string option"

definition openShell :: shell where
  "openShell = \<lparr>sl_search = False, sl_notifications = False, sl_user_menu = False, sl_collapsed = False, sl_crumb = None\<rparr>"

text \<open>A page gives its crumb when it is shown and whenever that changes, and takes it back when it goes.\<close>

datatype shell_event =
    ShellKey bool string
  | OpenPalette
  | ClosePalette
  | ClickBell
  | CloseNotifications
  | ClickUser
  | CloseUserMenu
  | ToggleSidebar
  | PageCrumb "string option"
  | PageGone

definition shell_step :: "shell \<Rightarrow> shell_event \<Rightarrow> shell" where
  "shell_step s e =
     (case e of
        ShellKey meta k \<Rightarrow> if meta \<and> to_lower k = ''k'' then s\<lparr>sl_search := \<not> sl_search s\<rparr> else s
      | OpenPalette \<Rightarrow> s\<lparr>sl_search := True\<rparr>
      | ClosePalette \<Rightarrow> s\<lparr>sl_search := False\<rparr>
      | ClickBell \<Rightarrow> s\<lparr>sl_notifications := \<not> sl_notifications s\<rparr>
      | CloseNotifications \<Rightarrow> s\<lparr>sl_notifications := False\<rparr>
      | ClickUser \<Rightarrow> s\<lparr>sl_user_menu := \<not> sl_user_menu s\<rparr>
      | CloseUserMenu \<Rightarrow> s\<lparr>sl_user_menu := False\<rparr>
      | ToggleSidebar \<Rightarrow> s\<lparr>sl_collapsed := \<not> sl_collapsed s\<rparr>
      | PageCrumb c \<Rightarrow> s\<lparr>sl_crumb := c\<rparr>
      | PageGone \<Rightarrow> s\<lparr>sl_crumb := None\<rparr>)"

text \<open>The entries of the sidebar, with the addresses at which each is active.\<close>

definition NAV :: "(string \<times> (string \<Rightarrow> bool)) list" where
  "NAV = [(''dashboard'', \<lambda>p. p = ''/''),
          (''agents'', \<lambda>p. starts_with p ''/agents'' \<or> starts_with p ''/sessions''),
          (''workflows'', \<lambda>p. starts_with p ''/workflows''),
          (''marketplace'', \<lambda>p. starts_with p ''/marketplace'')]"

definition active_entries :: "string \<Rightarrow> string list" where
  "active_entries p = map fst (filter (\<lambda>n. snd n p) NAV)"

text \<open>The menu is moved so that it is inside the window.\<close>

definition menu_position :: "rat \<times> rat \<Rightarrow> rat \<times> rat \<Rightarrow> rat \<times> rat \<Rightarrow> rat \<times> rat" where
  "menu_position at_xy extent window =
     (case (at_xy, extent, window) of
        ((x, y), (w, h), (vw, vh)) \<Rightarrow>
          (if vw < x + w then max 0 (vw - w - 4) else x, if vh < y + h then max 0 (vh - h - 4) else y))"

section \<open>The bars of a chat\<close>

definition status_label :: "ConnectionStatus \<Rightarrow> string" where
  "status_label s =
     (case s of
        Connecting \<Rightarrow> ''Connecting'' | Provisioning \<Rightarrow> ''Setting up environment'' | Spawning \<Rightarrow> ''Starting agent''
      | Waiting \<Rightarrow> ''Almost ready'' | Ready \<Rightarrow> ''Online'' | Offline \<Rightarrow> ''Offline'' | Disconnected \<Rightarrow> ''Disconnected''
      | Reconnecting \<Rightarrow> ''Reconnecting'')"

datatype banner = RetryBanner "nat option" | ConnectingBanner string "string option" | OfflineBanner "string option" | LostBanner

definition status_banner :: "ConnectionStatus \<Rightarrow> string option \<Rightarrow> bool \<Rightarrow> nat option \<Rightarrow> banner option" where
  "status_banner status statusMessage connecting seconds =
     (let message = (if truthy statusMessage then statusMessage else None)
      in if status = Reconnecting then Some (RetryBanner seconds)
         else if connecting then Some (ConnectingBanner (status_label status) message)
         else if status = Offline then Some (OfflineBanner message)
         else if status = Disconnected then Some LostBanner
         else None)"

definition search_key :: "string \<Rightarrow> bool \<Rightarrow> bool \<Rightarrow> chat_search \<Rightarrow> chat_search" where
  "search_key k shift composing s =
     (if \<not> cs_open s then s
      else if k = ''Escape'' then closeSearch s
      else if composing then s
      else if k = ''Enter'' then (if shift then prev_match s else next_match s)
      else s)"

text \<open>\<open>searching\<close> stands for the text with an ellipsis.\<close>

definition counter_text :: "string \<Rightarrow> chat_search \<Rightarrow> string option" where
  "counter_text searching s =
     (if trim_space (cs_query s) = [] then None
      else if cs_searching s then Some searching
      else if cs_matches s = [] then Some ''0 matches''
      else Some (int_string (cs_idx s + 1) @ '' of '' @ nat_string (length (cs_matches s))))"

text \<open>The title in the header of an agent: what is committed when the field loses the focus goes to \<open>saveTitle\<close>.\<close>

definition edit_session_title :: "string option \<Rightarrow> title_editor \<Rightarrow> title_editor" where
  "edit_session_title title t = \<lparr>te_isEditing = True, te_draft = (case title of Some x \<Rightarrow> x | None \<Rightarrow> [])\<rparr>"

datatype title_key = BlurField | StopEditing | NoKey

definition session_title_key :: "string \<Rightarrow> bool \<Rightarrow> title_key" where
  "session_title_key k composing =
     (if composing then NoKey else if k = ''Enter'' then BlurField else if k = ''Escape'' then StopEditing else NoKey)"

section \<open>The settings of a workflow\<close>

record workflow_settings =
  st_name :: string
  st_slug :: string
  st_description :: string
  st_backend :: string
  st_model :: string

datatype settings_patch = PatchName string | PatchDescription string | PatchModel string string

text \<open>What \<open>setWorkflow\<close> shows at once, and what \<open>update_workflow\<close> stores when it accepts such a patch.\<close>

fun apply_patch :: "settings_patch \<Rightarrow> workflow_settings \<Rightarrow> workflow_settings" where
  "apply_patch (PatchName v) w = w\<lparr>st_name := v\<rparr>"
| "apply_patch (PatchDescription v) w = w\<lparr>st_description := v\<rparr>"
| "apply_patch (PatchModel b m) w = w\<lparr>st_backend := b, st_model := m\<rparr>"

record settings_panel =
  sp_workflow :: "workflow_settings option"
  sp_models :: "ModelOption list"
  sp_sent :: "settings_patch list"

definition newSettings :: settings_panel where
  "newSettings = \<lparr>sp_workflow = None, sp_models = [], sp_sent = []\<rparr>"

definition send_patch :: "settings_patch \<Rightarrow> settings_panel \<Rightarrow> settings_panel" where
  "send_patch u p =
     (case sp_workflow p of
        None \<Rightarrow> p
      | Some w \<Rightarrow> p\<lparr>sp_workflow := Some (apply_patch u w), sp_sent := sp_sent p @ [u]\<rparr>)"

text \<open>A field commits, when it is left, what differs from what it was given.\<close>

definition commit_field :: "string \<Rightarrow> string \<Rightarrow> settings_patch \<Rightarrow> settings_panel \<Rightarrow> settings_panel" where
  "commit_field given local u p = (if local \<noteq> given then send_patch u p else p)"

definition first_model :: "ModelOption list \<Rightarrow> string \<Rightarrow> string" where
  "first_model ms b =
     (let filtered = filter (\<lambda>m. mo_backend m = b) ms
      in case find mo_default_model filtered of Some m \<Rightarrow> mo_id m | None \<Rightarrow> (case filtered of m # _ \<Rightarrow> mo_id m | [] \<Rightarrow> []))"

datatype settings_event =
    SettingsLoaded workflow_settings
  | SettingsModels "ModelOption list"
  | LeaveName string
  | LeaveDescription string
  | PickBackend string
  | PickModel string

text \<open>The lists offer the backends there are, and the models of the one that is chosen.\<close>

definition settings_step :: "settings_panel \<Rightarrow> settings_event \<Rightarrow> settings_panel" where
  "settings_step p e =
     (case e of
        SettingsLoaded w \<Rightarrow> if sp_workflow p = None then p\<lparr>sp_workflow := Some w\<rparr> else p
      | SettingsModels ms \<Rightarrow> p\<lparr>sp_models := ms\<rparr>
      | LeaveName v \<Rightarrow> (case sp_workflow p of None \<Rightarrow> p | Some w \<Rightarrow> commit_field (st_name w) v (PatchName v) p)
      | LeaveDescription v \<Rightarrow> (case sp_workflow p of None \<Rightarrow> p | Some w \<Rightarrow> commit_field (st_description w) v (PatchDescription v) p)
      | PickBackend b \<Rightarrow> if b \<in> mo_backend ` set (sp_models p) then send_patch (PatchModel b (first_model (sp_models p) b)) p else p
      | PickModel i \<Rightarrow>
          (case sp_workflow p of
             None \<Rightarrow> p
           | Some w \<Rightarrow> if list_ex (\<lambda>m. mo_backend m = st_backend w \<and> mo_id m = i) (sp_models p)
               then send_patch (PatchModel (st_backend w) i) p else p))"

text \<open>What a list shows: its value, or the first option if that is none of them.\<close>

definition select_shows :: "string list \<Rightarrow> string \<Rightarrow> string option" where
  "select_shows options value = (if value \<in> set options then Some value else case options of v # _ \<Rightarrow> Some v | [] \<Rightarrow> None)"

section \<open>What holds of them\<close>

definition theme_ok :: "theme_page \<Rightarrow> bool" where
  "theme_ok p \<longleftrightarrow> th_works p \<and> load_theme True (th_stored p) = p"

lemma theme_ok_apply: "theme_ok p \<Longrightarrow> theme_ok (applyTheme t p)"
  by (cases t) (simp_all add: theme_ok_def applyTheme_def load_theme_def init_script_def readInitial_def theme_name_def Let_def)

interpretation themes: machine theme_step theme_ok
proof
  show "theme_ok (theme_step p e)" if "theme_ok p" for p e
    using that theme_ok_apply [OF that] by (cases e) (simp_all add: theme_step_def toggleTheme_def, simp add: theme_ok_def)
qed

lemma theme_reload: "theme_step p ReloadPage = load_theme (th_works p) (th_stored p)"
  by (simp add: theme_step_def)

text \<open>
  The theme survives a reload: whatever was chosen, toggled and reloaded, and whatever was stored before, loading the page
  again shows the theme that is shown, and the document says so before the page runs. (The browser must be able to store it.)
\<close>

theorem theme_survives_reload:
  "let p = foldl theme_step (load_theme True stored) es
   in theme_step p ReloadPage = p \<and> th_attr p = theme_name (th_theme p)"
proof -
  have "theme_ok (load_theme True stored)" by (simp add: theme_ok_def load_theme_def Let_def)
  then have "theme_ok (foldl theme_step (load_theme True stored) es)" by (rule themes.run_good)
  moreover have "theme_ok p \<Longrightarrow> theme_step p ReloadPage = p \<and> th_attr p = theme_name (th_theme p)" for p
  proof -
    assume ok: "theme_ok p"
    then have p: "p = load_theme True (th_stored p)" "th_works p" by (simp_all add: theme_ok_def)
    have "th_attr (load_theme True s) = theme_name (th_theme (load_theme True s))" for s
      by (auto simp: load_theme_def init_script_def readInitial_def theme_name_def Let_def)
    with p show ?thesis by (metis theme_reload)
  qed
  ultimately show ?thesis by (simp add: Let_def)
qed

theorem menu_stays_inside:
  "0 \<le> x \<Longrightarrow> 0 \<le> y \<Longrightarrow> 0 \<le> w \<Longrightarrow> w \<le> vw \<Longrightarrow> 0 \<le> h \<Longrightarrow> h \<le> vh \<Longrightarrow> menu_position (x, y) (w, h) (vw, vh) = (l, t) \<Longrightarrow>
     0 \<le> l \<and> l + w \<le> vw \<and> 0 \<le> t \<and> t + h \<le> vh"
  by (auto simp: menu_position_def max_def split: if_splits)

theorem one_active_entry: "length (active_entries p) \<le> 1"
  by (auto simp: active_entries_def NAV_def starts_with_iff)

text \<open>The panel shows what was saved: the patches that were sent, in their order, make of what was loaded what is shown.\<close>

definition as_sent :: "settings_panel \<Rightarrow> bool" where
  "as_sent p \<longleftrightarrow>
     (case sp_workflow p of None \<Rightarrow> sp_sent p = [] | Some w \<Rightarrow> \<exists>w0. foldl (\<lambda>x u. apply_patch u x) w0 (sp_sent p) = w)"

lemma as_sent_patch: "as_sent p \<Longrightarrow> as_sent (send_patch u p)"
  by (auto simp: as_sent_def send_patch_def split: option.splits)

lemma as_sent_loaded: "as_sent p \<Longrightarrow> sp_workflow p = None \<Longrightarrow> as_sent (p\<lparr>sp_workflow := Some w\<rparr>)"
  by (simp add: as_sent_def)

lemma as_sent_models: "as_sent p \<Longrightarrow> as_sent (p\<lparr>sp_models := ms\<rparr>)"
  by (cases "sp_workflow p") (simp_all add: as_sent_def)

interpretation settings: machine settings_step as_sent
  by unfold_locales
    (simp add: settings_step_def commit_field_def as_sent_patch as_sent_loaded as_sent_models split: settings_event.split option.split)

theorem settings_shown_as_sent:
  "sp_workflow (foldl settings_step newSettings es) = Some w \<Longrightarrow>
     \<exists>w0. foldl (\<lambda>x u. apply_patch u x) w0 (sp_sent (foldl settings_step newSettings es)) = w"
  using settings.run_good [of newSettings es] by (simp add: as_sent_def newSettings_def)

text \<open>
  A backend that is no longer offered, or none, is shown as the first one, which is not what is saved; and since the list
  shows it already, picking it is no change.
\<close>

lemma unlisted_backend_shown: "value \<notin> set (b # bs) \<Longrightarrow> select_shows (b # bs) value = Some b"
  by (simp add: select_shows_def)

text \<open>A single letter is not searched for, yet it has no matches.\<close>

lemma one_letter_has_no_matches:
  "cs_open s \<Longrightarrow> cs_query s \<noteq> [c] \<Longrightarrow> \<not> js_space c \<Longrightarrow> counter_text t (setQuery [c] s) = Some ''0 matches''"
  by (simp add: setQuery_def search_effect_def counter_text_def trim_space_def MIN_QUERY_LENGTH_def)

end
