(* ===== verification/Spec2Isabelle.thy ===== *)
theory Spec2Isabelle
  imports WorkspaceProps Sessions MessageServer Routes Agent SubAgents EditorProps WorkflowProps ChatSessionProps
    ChatSocketProps ChatHighlight WorkspaceTree WorkflowRuns ChatText PanelProps
    Assistant PanelResize Login LiveEvents ChatPage AgentForms Pages Inspector PaletteKeys CardViews Credentials
    FileViews RunPages Shell
begin

text \<open>
  Aviary is a platform for agents that run in sandboxes. This development models its TypeScript: the runtime that
  executes an agent next to its volume (\<open>src/runtime\<close>) and the web client (\<open>src/web\<close>), with the few Python
  functions of the services (\<open>src/agent-supervisor\<close>, \<open>src/api\<close>) through which one reaches the other.

  \<^bold>\<open>The parts and how they interact.\<close> A browser shows chats, a workspace panel and a workflow builder. A chat is a
  socket over which a message becomes a stream of events; the server side of it is the runtime's
  \<open>POST /message\<close>, which takes the session's mutex, prepares the volume, runs the agent's SDK and streams what it
  says. The workspace panel reads and writes the same volume through the web client's requests, which the API hands to the
  supervisor and the supervisor to the runtime's workspace routes. The workflow builder keeps a graph in the browser and
  saves it, after a pause, to the API, which freezes it at a deploy.

  \<^bold>\<open>The theories\<close>, in the order of their imports; each opens with what it holds.
  \<^item> \<open>Prelude\<close>: JavaScript's strings, JSON, insertion-ordered maps, sorting, and the interfaces below.
    \<open>NodePath\<close>, \<open>FileSystem\<close>, \<open>FileOps\<close>: the parts of Node that the runtime calls, paths and a POSIX file system with
    symbolic links, and what each call does on a path that no link diverts. \<open>Codec\<close>: UTF-8, base64, file texts.
  \<^item> The runtime: \<open>Layout\<close> (\<open>constants.ts\<close>), \<open>Workspace\<close> with \<open>WorkspaceFacts\<close> and \<open>WorkspaceProps\<close>
    (\<open>workspace.ts\<close>), \<open>Sessions\<close> (\<open>session-manager.ts\<close>), \<open>MessageServer\<close> and \<open>Routes\<close> (\<open>server.ts\<close>,
    \<open>health.ts\<close>), \<open>Accumulator\<close> (\<open>streaming-accumulator.ts\<close>), \<open>Agent\<close> (\<open>agent.ts\<close>) and \<open>SubAgents\<close>
    (\<open>a2a-tools.ts\<close>).
  \<^item> The workspace in the browser: \<open>WebClient\<close> (\<open>lib/http\<close>, \<open>workspace-api.ts\<close>), \<open>Editor\<close> with
    \<open>EditorFacts\<close> and \<open>EditorProps\<close> (\<open>use-workspace-editor.ts\<close>), \<open>WorkspaceTree\<close>
    (\<open>use-workspace-tree.ts\<close>), \<open>WorkspacePanel\<close> with \<open>PanelProps\<close> (\<open>workspace-panel.tsx\<close>), \<open>PanelResize\<close>, \<open>FileViews\<close>
    (what the tree and a file show).
  \<^item> The chat: \<open>ChatBlocks\<close> and \<open>ChatBlocksProps\<close> (blocks, their tree, saving and restoring), \<open>ChatSession\<close> and
    \<open>ChatSessionProps\<close> (messages, pages, rollback), \<open>ChatSocket\<close> and \<open>ChatSocketProps\<close> (connection and search),
    \<open>ChatHighlight\<close>, \<open>ChatText\<close>, \<open>ChatInput\<close> (composer, mentions), \<open>ChatPage\<close> (title, view, scrolling),
    \<open>Assembly\<close> (how the supervisor and the API save an answer: \<open>assembly.py\<close>, \<open>stream/manager.py\<close>), \<open>ChatCards\<close>
    (the search of \<open>sessions.py\<close> and the bubbles it points into), \<open>CardViews\<close> (cards, code blocks, exports).
  \<^item> Workflows: \<open>Workflow\<close> and \<open>WorkflowProps\<close> (graph, plans, undo, save), \<open>WorkflowRuns\<close>,
    \<open>Assistant\<close>, \<open>BuilderPage\<close> and \<open>BuilderPageProps\<close> (the page with \<open>workflow_service.py\<close>),
    \<open>Inspector\<close> (inspector, test panel, keys), \<open>RunPages\<close> (history and figures of runs with \<open>list_runs\<close> of the
    API, new workflows, an item of the marketplace).
  \<^item> The rest of the client: \<open>Login\<close>, \<open>LiveEvents\<close> (socket of the user, statuses, notifications),
    \<open>AgentForms\<close> (form, model, tool picker), \<open>Pages\<close> (lists, dashboard, marketplace), \<open>Palette\<close> and
    \<open>PaletteKeys\<close> (command palette), \<open>Credentials\<close> (the settings' panel with \<open>credentials.py\<close>),
    \<open>Shell\<close> (theme, frame, the bars of a chat, the settings of a workflow).
  \<^item> This theory: an upload from the browser through the relay of the supervisor to the volume.

  \<^bold>\<open>How code becomes definitions.\<close> A React hook is a record of its states and refs, and one function per callback or
  effect; the closure of an older render is an argument. Code is cut at every \<open>await\<close>: what runs before it makes a
  request, a queue in the state, and what runs after it takes the answer, so that answers may come late, in any order
  or not at all. A handler of the runtime is a program over the file system that returns an error or a value; a raise and
  an early return are branches of it. Requests of the client that compete are the events of a machine, and its runs
  are the interleavings. A map of JavaScript is an association list in insertion order. Times, random ids and
  counters of the clock are arguments.

  \<^bold>\<open>Interfaces.\<close> \<open>registry\<close> (look-up after an insertion and a removal) is met by JavaScript's maps (\<open>jmap\<close>) and by the
  disk (\<open>disk\<close>). \<open>machine\<close> (a property that every step keeps holds after every run) and its extension
  \<open>guarded_machine\<close> (for steps that only happen where they fit) are met by the accumulator (\<open>acc\<close>), the screen of a
  stream (\<open>display\<close>), the connection (\<open>never_idle\<close>, \<open>waiting\<close>, \<open>silent\<close>), the search (\<open>searching\<close>), the editor
  (\<open>editing\<close>), the tree (\<open>tree_panel_run\<close>), the builder (\<open>history\<close>) and its page (\<open>building\<close>, \<open>right_panel\<close>), runs
  (\<open>run_statuses\<close>), the assistant (\<open>conversation\<close>), the service of the volume (\<open>service\<close>), the composer (\<open>composer\<close>,
  \<open>mentioning\<close>), live events (\<open>live_events\<close>, \<open>session_list\<close>), pages (\<open>shopping\<close>, \<open>workflow_page\<close>), panels
  (\<open>panel_resizing\<close>), the palette (\<open>palette_sections\<close>), a diff (\<open>overlay\<close>), the view of a file (\<open>file_views\<close>), the form of a
  workflow (\<open>new_form\<close>) and its settings (\<open>settings\<close>), the theme (\<open>themes\<close>) and the credentials (\<open>credentials\<close>, \<open>tidy_panel\<close>). \<open>fifo_lock\<close> is what the runtime expects of the mutex
  (\<open>mutex\<close>), \<open>edge_property\<close> what keeps a property of edges in the builder (\<open>acyclic_flow\<close>), and
  \<open>store_invariant\<close> what keeps one of the disk in the workspace service (\<open>tree\<close>).

  \<^bold>\<open>What the lemmas show.\<close> Of the runtime: paths stay in the volume; a write loses no newer version and is read back byte
  for byte; every request keeps the tree a tree; deleting, moving and listing do exactly that, and what is refused destroys
  nothing; the mutex serves in the order of arrival and one request per entry is at work; and how the registry lets two
  requests of a session run at once all the same. Of the client: unsaved text is never dropped without asking, and where the code
  nevertheless loses it; the screen shows the tree of what was streamed, once, and restores it; connections are tried
  for ever, and silent after their end; edges stay acyclic and plans keep the graph; what is on the canvas reaches the
  service and is what a deploy freezes, unless one of the lemmas on lost edits applies; what is shown as loaded fits
  what was chosen, whatever the order of the answers; a reload shows what was streamed, and a hit of the search is on
  the screen; the pages of the history show every run. Lemmas that show the code going wrong stand beside the property
  whose hypotheses exclude them.

  \<^bold>\<open>Bounds and fuel.\<close> The kernel follows at most forty links (\<open>max_links\<close>), as Linux does; resolving more is the error
  ELOOP. \<open>read_node\<close> places tool calls in the tree with as much fuel as there are calls, and each is placed at most
  once. \<open>pieces_from\<close> of the highlighter is a \<open>partial_function\<close>, since the loop does not end for every lower case: that
  it ends for the ones that keep lengths is proved. The event reader takes at least two characters a round, the search
  of the builder a node or a queue entry, \<open>formatJsonSchemaType\<close> a smaller schema. The lines of the tree are
  made with as many levels as there are listings, and more change nothing (\<open>enough_levels\<close>). Lengths, counters and widths are
  unbounded numbers, which the code's doubles hold exactly; the figures of runs are rounded as doubles are
  (\<open>to_double\<close>).

  \<^bold>\<open>Parameters\<close>, which stand for code that is not in the repository: Unicode lower case and \<open>localeCompare\<close>, \<open>JSON.parse\<close>
  and \<open>JSON.stringify\<close>, \<open>String(x)\<close> of a JSON value, SHA-256 and random bytes, React Flow's \<open>addEdge\<close>, the Markdown
  renderer, \<open>arrayMove\<close> of the drag library, \<open>ILIKE\<close> and the text of a JSON value in the database, the agent SDK's messages, the time zone, and characters that are no byte. Where a
  property needs something of one, it is a hypothesis, and a witness has a function that meets it.

  \<^bold>\<open>Not modelled.\<close> What only renders: markup, styles, icons, measurements of the screen (they are arguments where code
  reads them). The Python services, but for the functions named above. The agent SDK, Temporal, Vault, Keycloak and
  the gateways. Console output and metrics labels. Files of mock data and the generated icon index.
\<close>

section \<open>From the browser to the volume\<close>

text \<open>
  The body that the supervisor sends on to the runtime for a write
  (\<open>agent-supervisor/app/routers/agents.py\<close>, \<open>workspace_write\<close>): the fields of the client's request, with
  the agent and the expected time only when they are there.
\<close>

definition relay_write :: "string \<Rightarrow> string option \<Rightarrow> save_body \<Rightarrow> put_body" where
  "relay_write session_id agent_id b =
     \<lparr>p_session_id = Some session_id, p_agent_id = (if truthy agent_id then agent_id else None),
      p_path = Some (sb_path b), p_content = Some (sb_content b), p_encoding = Some (sb_encoding b),
      p_expected_mtime = sb_expected_mtime b, p_overwrite = Some (sb_overwrite b)\<rparr>"

lemma failure_status: "fst (handleWorkspaceError e) \<noteq> 200"
proof (cases e)
  case (WorkspaceError code msg meta)
  then show ?thesis by (cases code) simp_all
qed simp

text \<open>
  C3. An upload arrives byte for byte: when the runtime answers 200 to the request that the browser
  makes of a file and the supervisor relays, the file at the path has exactly the bytes of the
  upload, whatever they are, and its size in the answer is theirs; and no upload is made of a file
  beyond the limit.
\<close>

theorem upload_stores_bytes:
  assumes "uploadFile sid rel bytes overwrite = Inr req"
    and "request_ok h r sid (if truthy agentId then agentId else None)"
    and "tree_ok f" and "no_links f (target_segs r sid (if truthy agentId then agentId else None) rel)"
    and "put_route h (relay_write sid agentId (the (rq_body req))) f = ((200, b), g)"
  shows "length bytes \<le> MAX_UPLOAD_BYTES \<and>
    node_at g (target_segs r sid (if truthy agentId then agentId else None) rel) = Some (File bytes, now f) \<and>
    (\<exists>c. b = BFile c \<and> contents_size c = length bytes)"
proof -
  let ?a = "if truthy agentId then agentId else None"
  let ?o = "\<lparr>opt_content = text_of (toBase64 bytes), opt_encoding = Some Base64, opt_expectedMtime = None,
    opt_overwrite = Some overwrite\<rparr>"
  have small: "length bytes \<le> MAX_UPLOAD_BYTES" using assms(1) by (simp add: uploadFile_def split: if_splits)
  then have body: "the (rq_body req) = \<lparr>sb_path = rel, sb_content = text_of (toBase64 bytes), sb_encoding = Base64,
      sb_overwrite = overwrite, sb_expected_mtime = None\<rparr>"
    using assms(1) by (auto simp: uploadFile_def saveFile_def http_call_def)
  from assms(5) have ans: "answer (writeFile h sid ?a rel ?o) (\<lambda>c. (200, BFile c)) f = ((200, b), g)"
    unfolding put_route_def relay_write_def body
    by (auto simp: bad_request_def split: if_splits)
  then obtain c where w: "writeFile h sid ?a rel ?o f = (Inr c, g)" "b = BFile c"
    using failure_status by (auto simp: answer_def split: prod.splits sum.splits) (metis fst_conv)
  have bytes: "content_bytes ?o = bytes" by (simp add: content_bytes_def toBase64_btoa base64_decode_btoa)
  note eff = writeFile_effect [OF assms(2-4) w(1)]
  from eff(3) bytes have "node_at g (target_segs r sid ?a rel) = Some (File bytes, now f)" by simp
  moreover from eff(8) bytes have "contents_size c = length bytes" by auto
  ultimately show ?thesis using small w(2) by blast
qed

theorem upload_stores_bytes_witness:
  "\<exists>req b g. uploadFile ''s1'' ''docs/pic'' [0, 255, 128, 10] False = Inr req \<and>
     put_route demo_host (relay_write ''s1'' None (the (rq_body req))) demo_fs = ((200, b), g) \<and>
     node_at g (target_segs [''workspace-root''] ''s1'' None ''docs/pic'') = Some (File [0, 255, 128, 10], now demo_fs)"
proof -
  let ?bytes = "[0, 255, 128, 10] :: octet list"
  obtain req where req: "uploadFile ''s1'' ''docs/pic'' ?bytes False = Inr req"
    by (simp add: uploadFile_def MAX_UPLOAD_BYTES_def)
  let ?put = "put_route demo_host (relay_write ''s1'' None (the (rq_body req))) demo_fs"
  have body: "the (rq_body req) = \<lparr>sb_path = ''docs/pic'', sb_content = text_of ''AP+ACg=='', sb_encoding = Base64,
      sb_overwrite = False, sb_expected_mtime = None\<rparr>"
  proof -
    have "toBase64 ?bytes = ''AP+ACg==''" unfolding toBase64_btoa by code_simp
    with req show ?thesis by (auto simp: uploadFile_def saveFile_def http_call_def MAX_UPLOAD_BYTES_def)
  qed
  have "fst (fst ?put) = 200" unfolding body by code_simp
  then obtain b g where put: "?put = ((200, b), g)" by (metis prod.collapse)
  have a: "(if truthy (None :: string option) then None else None) = (None :: string option)" by simp
  have links: "no_links demo_fs (target_segs [''workspace-root''] ''s1'' None ''docs/pic'')" by code_simp
  from upload_stores_bytes [OF req, of demo_host "[''workspace-root'']" None demo_fs b g, unfolded a,
      OF demo_request demo_tree links put] req put
  show ?thesis by blast
qed

text \<open>
  C9. New File never overwrites. When the runtime answers 200 to the request that the panel makes for a
  new file and the supervisor relays, there was nothing at the path before, and there is an empty file
  now. (The request names no modification time and asks for no overwriting.)
\<close>

theorem new_file_never_overwrites:
  assumes "submitNew v parent NewFile name w = (NewFileRequest req, w')"
    and "request_ok h r sid (if truthy agentId then agentId else None)"
    and "tree_ok f" and "no_links f (target_segs r sid (if truthy agentId then agentId else None) (joinPath parent name))"
    and "put_route h (relay_write sid agentId (the (rq_body req))) f = ((200, b), g)"
  shows "node_at f (target_segs r sid (if truthy agentId then agentId else None) (joinPath parent name)) = None \<and>
    node_at g (target_segs r sid (if truthy agentId then agentId else None) (joinPath parent name)) = Some (File [], now f)"
proof -
  let ?a = "if truthy agentId then agentId else None"
  let ?o = "\<lparr>opt_content = [], opt_encoding = Some Utf8, opt_expectedMtime = None, opt_overwrite = Some False\<rparr>"
  have body: "the (rq_body req) = \<lparr>sb_path = joinPath parent name, sb_content = [], sb_encoding = Utf8,
      sb_overwrite = False, sb_expected_mtime = None\<rparr>"
    using assms(1) by (auto simp: submitNew_def saveFile_def http_call_def empty_file_def Let_def)
  from assms(5) have ans: "answer (writeFile h sid ?a (joinPath parent name) ?o) (\<lambda>c. (200, BFile c)) f = ((200, b), g)"
    unfolding put_route_def relay_write_def body
    by (auto simp: bad_request_def split: if_splits)
  then obtain c where w: "writeFile h sid ?a (joinPath parent name) ?o f = (Inr c, g)"
    using failure_status by (auto simp: answer_def split: prod.splits sum.splits) (metis fst_conv)
  have "content_bytes ?o = []" by (simp add: content_bytes_def)
  moreover have "node_at f (target_segs r sid ?a (joinPath parent name)) = None"
    using writeFile_effect(7) [OF assms(2-4) w]
    by (cases "node_at f (target_segs r sid ?a (joinPath parent name))") (simp_all add: write_guard_def throw_if_def)
  ultimately show ?thesis using writeFile_effect(3) [OF assms(2-4) w] by simp
qed

theorem new_file_never_overwrites_witness:
  "let w = snd (open_panel ''s1'' 0);
       req = (case fst (submitNew (view_of w) ''/'' NewFile ''new.md'' w) of NewFileRequest q \<Rightarrow> q);
       g = snd (put_route demo_host (relay_write ''s1'' None (the (rq_body req))) demo_fs)
   in node_at demo_fs (demo_shared @ [''new.md'']) = None \<and>
      node_at g (demo_shared @ [''new.md'']) = Some (File [], now demo_fs)"
proof -
  let ?w = "snd (open_panel ''s1'' 0)"
  obtain req w' where s: "submitNew (view_of ?w) ''/'' NewFile ''new.md'' ?w = (NewFileRequest req, w')"
    by (simp add: submitNew_def Let_def)
  have t: "target_segs [''workspace-root''] ''s1'' None (joinPath ''/'' ''new.md'') = demo_shared @ [''new.md'']" by code_simp
  have n: "no_links demo_fs (target_segs [''workspace-root''] ''s1'' None (joinPath ''/'' ''new.md''))" by code_simp
  have body: "rq_body req = Some \<lparr>sb_path = ''/new.md'', sb_content = [], sb_encoding = Utf8, sb_overwrite = False, sb_expected_mtime = None\<rparr>"
    using s by (auto simp: submitNew_def saveFile_def http_call_def empty_file_def joinPath_def Let_def)
  have "fst (fst (put_route demo_host (relay_write ''s1'' None
      \<lparr>sb_path = ''/new.md'', sb_content = [], sb_encoding = Utf8, sb_overwrite = False, sb_expected_mtime = None\<rparr>) demo_fs)) = 200"
    by code_simp
  then obtain b g where p: "put_route demo_host (relay_write ''s1'' None (the (rq_body req))) demo_fs = ((200, b), g)"
    unfolding body by (metis option.sel prod.collapse)
  have "request_ok demo_host [''workspace-root''] ''s1'' (if truthy None then None else None)"
    using demo_request by simp
  from new_file_never_overwrites [OF s this _ _ p] t n s p demo_tree show ?thesis
    by (simp add: Let_def)
qed

text \<open>
  The Overwrite button of the conflict dialog sends the modification time that the user was told, as if the
  write depended on it, but asks for overwriting as well, and the runtime then does not look at the
  time: whatever time is sent, the answer and the effect are the same. A version that was written after the
  dialog opened is overwritten unseen.
\<close>

theorem overwrite_ignores_version:
  assumes "conflict_overwrite w = (Some req, w')"
  shows "put_route h (relay_write sid agentId (the (rq_body req))) f =
    put_route h (relay_write sid agentId ((the (rq_body req))\<lparr>sb_expected_mtime := m\<rparr>)) f"
proof -
  have "sb_overwrite (the (rq_body req))"
    using assms by (auto simp: conflict_overwrite_def doSave_def save_call_def saveFile_def http_call_def Let_def
        split: option.splits sum.splits if_splits prod.splits)
  note over = this
  have same: "writeFile h s a rel \<lparr>opt_content = c, opt_encoding = d, opt_expectedMtime = e, opt_overwrite = Some True\<rparr> =
      writeFile h s a rel \<lparr>opt_content = c, opt_encoding = d, opt_expectedMtime = x, opt_overwrite = Some True\<rparr>"
    for s a rel c d e x
  proof -
    have "content_bytes \<lparr>opt_content = c, opt_encoding = d, opt_expectedMtime = e, opt_overwrite = Some True\<rparr> =
        (case d of Some Base64 \<Rightarrow> base64_decode c | _ \<Rightarrow> utf8_encode c)" for e
      by (simp add: content_bytes_def split: option.split encoding.split)
    then show ?thesis by (simp add: writeFile_def write_guard_def)
  qed
  show ?thesis using over
    by (simp add: put_route_def relay_write_def)
      (intro conjI impI; rule arg_cong [where f = "\<lambda>x. answer x _ f"], rule same)
qed

theorem overwrite_ignores_version_witness:
  "let w = demo_panel\<lparr>wp_conflict := Some \<lparr>cn_view = view_of demo_panel, cn_pane = ''pane_root'', cn_path = ''/a.md'',
             cn_code = ''stale'', cn_currentMtime = Some 7\<rparr>\<rparr>;
       body = the (rq_body (the (fst (conflict_overwrite w))))
   in sb_expected_mtime body = Some 7 \<and>
      put_route demo_host (relay_write ''s1'' None body) demo_fs =
      put_route demo_host (relay_write ''s1'' None (body\<lparr>sb_expected_mtime := Some 8\<rparr>)) demo_fs"
proof -
  let ?w = "demo_panel\<lparr>wp_conflict := Some \<lparr>cn_view = view_of demo_panel, cn_pane = ''pane_root'', cn_path = ''/a.md'',
             cn_code = ''stale'', cn_currentMtime = Some 7\<rparr>\<rparr>"
  have "map_option (\<lambda>r. sb_expected_mtime (the (rq_body r))) (fst (conflict_overwrite ?w)) = Some (Some 7)" by code_simp
  then obtain req w' where c: "conflict_overwrite ?w = (Some req, w')" and m: "sb_expected_mtime (the (rq_body req)) = Some 7"
    by (metis (no_types, lifting) map_option_eq_Some prod.collapse)
  show ?thesis using overwrite_ignores_version [OF c] m by (simp add: c)
qed

end
